(* ===== verification/Glass_Prelude.thy ===== *)
theory Glass_Prelude
  imports Main "HOL-Library.Word" "HOL-Library.Monad_Syntax"
begin

text \<open>
  Shared vocabulary of the development.

  Machine integers are words of the width the C code gives them. Memory is a map from 64-bit
  addresses to bytes. A C function that can fail to return normally (it dereferences NULL, which
  ends in \<open>isr_exception_handler\<close> halting the machine, or it loops for ever) has an
  \<open>option\<close> result: \<open>None\<close> is "does not return". Functions are composed with the do-notation of
  the option monad and thread the state explicitly.

  \<open>memset\<close> and \<open>memcpy\<close> are the two assembly routines \<open>extra/std/memset.s\<close> (\<open>rep stosb\<close>) and
  \<open>extra/std/memcpy.s\<close> (\<open>rep movsb\<close>): they work upwards, byte by byte, and addresses wrap.
\<close>

unbundle bit_operations_syntax

type_synonym u8 = "8 word"
type_synonym u16 = "16 word"
type_synonym u32 = "32 word"
type_synonym u64 = "64 word"

type_synonym mem = "u64 \<Rightarrow> u8"

named_theorems glass_simps "rewrite rules of the model's basic operations"

section \<open>Word arithmetic without wrap-around\<close>

lemma unat_plus_nowrap:
  fixes a b :: "'a::len word"
  assumes "unat a + unat b < 2 ^ LENGTH('a)"
  shows "unat (a + b) = unat a + unat b"
  using assms unat_add_lem by blast

lemma unat_minus_nowrap:
  fixes a b :: "'a::len word"
  assumes "unat b \<le> unat a"
  shows "unat (a - b) = unat a - unat b"
  using assms by (simp add: unat_sub word_le_nat_alt)

lemma unat_times_nowrap:
  fixes a b :: "'a::len word"
  assumes "unat a * unat b < 2 ^ LENGTH('a)"
  shows "unat (a * b) = unat a * unat b"
  using assms unat_mult_lem by blast

lemma unat_of_nat_nowrap:
  assumes "n < 2 ^ LENGTH('a)"
  shows "unat (of_nat n :: 'a::len word) = n"
  using assms by (simp add: unat_of_nat)

lemma unat_pred:
  fixes i :: "'a::len word"
  assumes "i \<noteq> 0"
  shows "unat (i - 1) = unat i - 1"
  using assms by (rule unat_minus_one)

lemma unat_Suc_less:
  fixes i n :: "'a::len word"
  assumes "i < n"
  shows "unat (i + 1) = Suc (unat i)"
proof -
  have "unat i < unat n" using assms by (simp add: word_less_nat_alt)
  moreover have "unat n < 2 ^ LENGTH('a)" by simp
  ultimately have "unat i + 1 < 2 ^ LENGTH('a)" by linarith
  then show ?thesis using unat_plus_nowrap [of i 1] by simp
qed

lemma sint_eq_iff: "sint (a :: 'a::len word) = sint b \<longleftrightarrow> a = b"
  using word_eq_iff_signed [where ?'a = int and v = a and w = b] by simp

lemma sint_zero_iff: "sint (a :: 'a::len word) = 0 \<longleftrightarrow> a = 0"
  using sint_eq_iff [of a 0] by simp

lemma unat_ucast_up:
  assumes "LENGTH('a::len) \<le> LENGTH('b::len)"
  shows "unat (ucast (w :: 'a word) :: 'b word) = unat w"
proof -
  have "unat w < 2 ^ LENGTH('a)" by (rule unsigned_less)
  also have "\<dots> \<le> (2 :: nat) ^ LENGTH('b)" using assms by simp
  finally show ?thesis by (simp add: unsigned_ucast_eq take_bit_nat_eq_self)
qed

lemma of_nat_eq_word_iff:
  assumes "n < 2 ^ LENGTH('a::len)"
  shows "of_nat n = (w :: 'a word) \<longleftrightarrow> n = unat w"
proof
  assume "of_nat n = w"
  then show "n = unat w" using unat_of_nat_nowrap [OF assms] by auto
qed simp

lemma unat_add_diff_cancel:
  fixes p :: "'a::len word"
  shows "p + of_nat k - p = of_nat k"
  by simp

section \<open>Memory\<close>

definition memset :: "mem \<Rightarrow> u64 \<Rightarrow> u8 \<Rightarrow> u64 \<Rightarrow> mem" where
  "memset m dest c n = (\<lambda>a. if unat (a - dest) < unat n then c else m a)"

fun memcpy_loop :: "mem \<Rightarrow> u64 \<Rightarrow> u64 \<Rightarrow> nat \<Rightarrow> mem" where
  "memcpy_loop m dest src 0 = m"
| "memcpy_loop m dest src (Suc n) = memcpy_loop (m(dest := m src)) (dest + 1) (src + 1) n"

definition memcpy :: "mem \<Rightarrow> u64 \<Rightarrow> u64 \<Rightarrow> u64 \<Rightarrow> mem" where
  "memcpy m dest src n = memcpy_loop m dest src (unat n)"

text \<open>\<open>bytes_at m p xs\<close>: the bytes \<open>xs\<close> lie in memory from address \<open>p\<close> upwards.\<close>

definition bytes_at :: "mem \<Rightarrow> u64 \<Rightarrow> u8 list \<Rightarrow> bool" where
  "bytes_at m p xs \<longleftrightarrow> (\<forall>k < length xs. m (p + of_nat k) = xs ! k)"

text \<open>\<open>cstr m p xs\<close>: a C string with the (non-zero) bytes \<open>xs\<close> lies at \<open>p\<close>.\<close>

definition cstr :: "mem \<Rightarrow> u64 \<Rightarrow> u8 list \<Rightarrow> bool" where
  "cstr m p xs \<longleftrightarrow> bytes_at m p (xs @ [0]) \<and> 0 \<notin> set xs"

text \<open>The bytes a range of addresses holds, read as a list.\<close>

definition read_bytes :: "mem \<Rightarrow> u64 \<Rightarrow> nat \<Rightarrow> u8 list" where
  "read_bytes m p n = map (\<lambda>k. m (p + of_nat k)) [0..<n]"

text \<open>The bytes of a string constant, without the terminating zero.\<close>

definition text_of :: "string \<Rightarrow> u8 list" where
  "text_of cs = map of_char cs"

lemma bytes_at_Nil [simp]: "bytes_at m p []"
  by (simp add: bytes_at_def)

lemma bytes_at_Cons [simp]: "bytes_at m p (x # xs) \<longleftrightarrow> m p = x \<and> bytes_at m (p + 1) xs"
proof -
  have "(\<forall>k < Suc (length xs). m (p + of_nat k) = (x # xs) ! k) \<longleftrightarrow>
    m p = x \<and> (\<forall>k < length xs. m (p + of_nat (Suc k)) = xs ! k)"
    by (simp add: All_less_Suc2)
  then show ?thesis by (simp add: bytes_at_def add.assoc)
qed

lemma cstr_Nil [simp]: "cstr m p [] \<longleftrightarrow> m p = 0"
  by (simp add: cstr_def)

lemma cstr_Cons [simp]: "cstr m p (x # xs) \<longleftrightarrow> m p = x \<and> x \<noteq> 0 \<and> cstr m (p + 1) xs"
  by (auto simp: cstr_def)

lemma bytes_at_append:
  "bytes_at m p (xs @ ys) \<longleftrightarrow> bytes_at m p xs \<and> bytes_at m (p + of_nat (length xs)) ys"
  by (induction xs arbitrary: p) (auto simp: algebra_simps)

lemma bytes_at_cong:
  assumes "\<And>k. k < length xs \<Longrightarrow> m' (p + of_nat k) = m (p + of_nat k)"
  shows "bytes_at m' p xs = bytes_at m p xs"
  using assms by (simp add: bytes_at_def)

text \<open>Two offsets below \<open>2^64\<close> give the same address only when they are equal.\<close>

lemma offset_inj:
  assumes "i < 2 ^ 64" and "j < 2 ^ 64"
  shows "(p :: u64) + of_nat i = p + of_nat j \<longleftrightarrow> i = j"
proof -
  have "unat (of_nat i :: u64) = i" and "unat (of_nat j :: u64) = j"
    using assms by (simp_all add: unat_of_nat)
  then have "(of_nat i :: u64) = of_nat j \<longleftrightarrow> i = j" by metis
  then show ?thesis by simp
qed

lemma memset_in: "unat (a - dest) < unat n \<Longrightarrow> memset m dest c n a = c"
  by (simp add: memset_def)

lemma memset_out: "\<not> unat (a - dest) < unat n \<Longrightarrow> memset m dest c n a = m a"
  by (simp add: memset_def)

section \<open>Lists\<close>

lemma find_split:
  "List.find P xs = Some x \<Longrightarrow> \<exists>as bs. xs = as @ x # bs \<and> P x \<and> (\<forall>a \<in> set as. \<not> P a)"
proof (induction xs)
  case (Cons y ys)
  show ?case
  proof (cases "P y")
    case True
    then have "y # ys = [] @ x # ys" "P x" using Cons.prems by auto
    then show ?thesis by (intro exI [of _ "[]"] exI [of _ ys]) auto
  next
    case False
    then obtain as bs where "ys = as @ x # bs" "P x" "\<forall>a \<in> set as. \<not> P a" using Cons by auto
    then show ?thesis using False by (intro exI [of _ "y # as"] exI [of _ bs]) auto
  qed
qed simp

lemma nth_list_update_map_upt:
  "i < n \<Longrightarrow> (map f [0..<n])[i := v] = map (f(i := v)) [0..<n]"
  by (auto intro!: nth_equalityI simp: nth_list_update)

lemma find_append: "find P (xs @ ys) = (case find P xs of None \<Rightarrow> find P ys | Some x \<Rightarrow> Some x)"
  by (induction xs) auto

end
