(* ===== verification/Cstring.thy ===== *)
theory Cstring
  imports Glass_Prelude "HOL-Library.Sublist"
begin

text \<open>
  The freestanding C string routines of the kernel, \<open>kernel/src/extra/std/\<close> (the prism program
  carries the same files in \<open>lib/std/\<close>). They read and write memory through pointers, so they are
  functions of a memory map; the loops that look for a terminating zero are
  \<open>partial_function (option)\<close>, \<open>None\<close> meaning that the loop never ends. \<open>char\<close> is signed on this
  target, and a comparison subtracts the two promoted characters.
\<close>

section \<open>The routines\<close>

partial_function (option) strlen_loop :: "mem \<Rightarrow> u64 \<Rightarrow> u64 \<Rightarrow> u64 option" where
  "strlen_loop m s len = (if m s \<noteq> 0 then strlen_loop m (s + 1) (len + 1) else Some len)"

definition strlen :: "mem \<Rightarrow> u64 \<Rightarrow> u64 option" where
  "strlen m s = strlen_loop m s 0"

partial_function (option) strcmp :: "mem \<Rightarrow> u64 \<Rightarrow> u64 \<Rightarrow> int option" where
  "strcmp m s1 s2 =
     (if m s1 = 0 then Some 0
      else if m s1 \<noteq> m s2 then Some (sint (m s1) - sint (m s2))
      else if m (s2 + 1) = 0 then Some (sint (m (s1 + 1)))
      else strcmp m (s1 + 1) (s2 + 1))"

function strncmp_loop :: "mem \<Rightarrow> u64 \<Rightarrow> u64 \<Rightarrow> u64 \<Rightarrow> u64 \<Rightarrow> int" where
  "strncmp_loop m s1 s2 i n =
     (if i < n
      then if m s1 \<noteq> m s2 then sint (m s1) - sint (m s2)
           else strncmp_loop m (s1 + 1) (s2 + 1) (i + 1) n
      else 0)"
  by pat_completeness auto
termination
proof (relation "measure (\<lambda>(m, s1, s2, i, n). unat n - unat i)")
  fix m s1 s2 and i n :: u64
  assume "i < n"
  then have "unat i < unat n" by (simp add: word_less_nat_alt)
  moreover have "unat (i + 1) = Suc (unat i)" using \<open>i < n\<close> by (rule unat_Suc_less)
  ultimately show "((m, s1 + 1, s2 + 1, i + 1, n), (m, s1, s2, i, n))
      \<in> measure (\<lambda>(m, s1, s2, i, n). unat n - unat i)"
    by simp
qed simp

declare strncmp_loop.simps [simp del]

definition strncmp :: "mem \<Rightarrow> u64 \<Rightarrow> u64 \<Rightarrow> u64 \<Rightarrow> int" where
  "strncmp m s1 s2 n = strncmp_loop m s1 s2 0 n"

text \<open>The loop of \<open>memcmp\<close> is the one of \<open>strncmp\<close>; no caller is left in the kernel.\<close>

definition memcmp :: "mem \<Rightarrow> u64 \<Rightarrow> u64 \<Rightarrow> u64 \<Rightarrow> int" where
  "memcmp m s1 s2 n = strncmp_loop m s1 s2 0 n"

partial_function (option) strcpy_loop :: "mem \<Rightarrow> u64 \<Rightarrow> u64 \<Rightarrow> mem option" where
  "strcpy_loop m dest src =
     (if m src \<noteq> 0 then strcpy_loop (m(dest := m src)) (dest + 1) (src + 1)
      else Some (m(dest := 0)))"

definition strcpy :: "mem \<Rightarrow> u64 \<Rightarrow> u64 \<Rightarrow> (u64 \<times> mem) option" where
  "strcpy m dest src = do { m' \<leftarrow> strcpy_loop m dest src; Some (dest, m') }"

partial_function (option) strcat_end :: "mem \<Rightarrow> u64 \<Rightarrow> u64 option" where
  "strcat_end m dest = (if m dest \<noteq> 0 then strcat_end m (dest + 1) else Some dest)"

definition strcat :: "mem \<Rightarrow> u64 \<Rightarrow> u64 \<Rightarrow> (u64 \<times> mem) option" where
  "strcat m dest src = do {
     e \<leftarrow> strcat_end m dest;
     m' \<leftarrow> strcpy_loop m e src;
     Some (dest, m') }"

section \<open>Lengths and comparisons\<close>

lemma strlen_loop_cstr: "cstr m p xs \<Longrightarrow> strlen_loop m p len = Some (len + of_nat (length xs))"
proof (induction xs arbitrary: p len)
  case Nil
  then show ?case by (simp add: strlen_loop.simps)
next
  case (Cons x xs)
  then have "strlen_loop m (p + 1) (len + 1) = Some (len + 1 + of_nat (length xs))" by simp
  with Cons.prems show ?case by (subst strlen_loop.simps) (simp add: algebra_simps)
qed

lemma strlen_cstr: "cstr m p xs \<Longrightarrow> strlen m p = Some (of_nat (length xs))"
  by (simp add: strlen_def strlen_loop_cstr)

lemma sint_diff_eq_0: "sint (a :: u8) - sint b = 0 \<longleftrightarrow> a = b"
  using sint_eq_iff [of a b] by auto

lemma strcmp_cstr:
  "cstr m p xs \<Longrightarrow> cstr m q ys \<Longrightarrow> \<exists>r. strcmp m p q = Some r \<and> (r = 0 \<longleftrightarrow> prefix xs ys)"
proof (induction xs arbitrary: p q ys)
  case Nil
  then show ?case by (simp add: strcmp.simps)
next
  case (Cons x xs)
  note px = Cons.prems(1)
  show ?case
  proof (cases ys)
    case Nil
    with Cons.prems have "m q = 0" and "m p \<noteq> 0" by auto
    then show ?thesis
      using Nil sint_diff_eq_0 [of "m p" "m q"] by (subst strcmp.simps) auto
  next
    case (Cons y ys')
    with Cons.prems have q: "m q = y" "y \<noteq> 0" "cstr m (q + 1) ys'" by auto
    from px have p: "m p = x" "x \<noteq> 0" "cstr m (p + 1) xs" by auto
    show ?thesis
    proof (cases "x = y \<and> ys' \<noteq> []")
      case True
      then have "m (q + 1) \<noteq> 0" using q(3) by (cases ys') auto
      moreover obtain r where "strcmp m (p + 1) (q + 1) = Some r" "r = 0 \<longleftrightarrow> prefix xs ys'"
        using Cons.IH [OF p(3) q(3)] by blast
      ultimately show ?thesis
        using True p q \<open>ys = y # ys'\<close> by (subst strcmp.simps) auto
    next
      case False
      have "xs = [] \<longleftrightarrow> m (p + 1) = 0" using p(3) by (cases xs) auto
      then show ?thesis
        using False p q \<open>ys = y # ys'\<close> sint_diff_eq_0 [of x y] sint_zero_iff [of "m (p + 1)"]
        by (subst strcmp.simps) auto
    qed
  qed
qed

lemma strncmp_loop_zero:
  "i \<le> n \<Longrightarrow> strncmp_loop m p q i n = 0 \<longleftrightarrow>
     (\<forall>k < unat n - unat i. m (p + of_nat k) = m (q + of_nat k))"
proof (induction m p q i n rule: strncmp_loop.induct)
  case (1 m p q i n)
  show ?case
  proof (cases "i < n")
    case False
    with "1.prems" have "i = n" by simp
    then show ?thesis by (simp add: strncmp_loop.simps)
  next
    case True
    then have lt: "unat i < unat n" by (simp add: word_less_nat_alt)
    moreover have suc: "unat (i + 1) = Suc (unat i)" using True by (rule unat_Suc_less)
    ultimately have le: "i + 1 \<le> n" by (simp add: word_le_nat_alt)
    have split: "unat n - unat i = Suc (unat n - unat (i + 1))" using lt suc by simp
    show ?thesis
    proof (cases "m p = m q")
      case True
      with \<open>i < n\<close> have "strncmp_loop m p q i n = strncmp_loop m (p + 1) (q + 1) (i + 1) n"
        by (subst strncmp_loop.simps) simp
      then show ?thesis
        using "1.IH" [OF \<open>i < n\<close> _ le] True
        by (simp add: split All_less_Suc2 add.assoc)
    next
      case False
      with \<open>i < n\<close> show ?thesis
        by (subst strncmp_loop.simps) (simp add: split All_less_Suc2 sint_eq_iff)
    qed
  qed
qed

lemma strncmp_zero:
  "strncmp m p q n = 0 \<longleftrightarrow> read_bytes m p (unat n) = read_bytes m q (unat n)"
proof -
  have "strncmp m p q n = 0 \<longleftrightarrow> (\<forall>k < unat n. m (p + of_nat k) = m (q + of_nat k))"
    by (simp add: strncmp_def strncmp_loop_zero)
  then show ?thesis by (auto simp: read_bytes_def)
qed

lemma memcmp_zero: "memcmp m p q n = 0 \<longleftrightarrow> read_bytes m p (unat n) = read_bytes m q (unat n)"
  using strncmp_zero [of m p q n] by (simp add: memcmp_def strncmp_def)

section \<open>Copies\<close>

text \<open>
  \<open>apart d a s b\<close>: the \<open>a\<close> addresses from \<open>d\<close> and the \<open>b\<close> addresses from \<open>s\<close> do not meet.
\<close>

definition apart :: "u64 \<Rightarrow> nat \<Rightarrow> u64 \<Rightarrow> nat \<Rightarrow> bool" where
  "apart d a s b \<longleftrightarrow> (\<forall>i < a. \<forall>j < b. d + of_nat i \<noteq> s + of_nat j)"

lemma apart_Suc:
  "apart d (Suc a) s (Suc b) \<Longrightarrow> apart (d + 1) a (s + 1) b \<and> (\<forall>j < Suc b. d \<noteq> s + of_nat j)"
  unfolding apart_def by (auto simp: All_less_Suc2 add.assoc)

lemma cstr_upd_outside:
  assumes "\<forall>j < Suc (length xs). d \<noteq> s + of_nat j"
  shows "cstr (m(d := v)) s xs = cstr m s xs"
proof -
  have "bytes_at (m(d := v)) s (xs @ [0]) = bytes_at m s (xs @ [0])"
    by (rule bytes_at_cong) (use assms in auto)
  then show ?thesis by (simp add: cstr_def)
qed

lemma strcpy_loop_cstr:
  assumes "cstr m s xs" and "apart d (Suc (length xs)) s (Suc (length xs))"
    and "length xs < 2 ^ 64"
  shows "\<exists>m'. strcpy_loop m d s = Some m' \<and> cstr m' d xs \<and>
    (\<forall>a. (\<forall>k \<le> length xs. a \<noteq> d + of_nat k) \<longrightarrow> m' a = m a)"
  using assms
proof (induction xs arbitrary: m d s)
  case Nil
  then show ?case by (subst strcpy_loop.simps) simp
next
  case (Cons x xs)
  let ?m = "m(d := x)"
  have ap: "apart (d + 1) (Suc (length xs)) (s + 1) (Suc (length xs))"
    and out: "\<forall>j < Suc (Suc (length xs)). d \<noteq> s + of_nat j"
    using apart_Suc [OF Cons.prems(2) [simplified]] by auto
  have out1: "\<forall>j < Suc (length xs). d \<noteq> s + 1 + of_nat j"
    using out by (metis Suc_less_eq add.assoc of_nat_Suc)
  have len: "length xs < 2 ^ 64" using Cons.prems(3) by simp
  have "cstr ?m (s + 1) xs"
    using Cons.prems(1) cstr_upd_outside [OF out1] by simp
  then obtain m' where m': "strcpy_loop ?m (d + 1) (s + 1) = Some m'" "cstr m' (d + 1) xs"
    and fr: "\<forall>a. (\<forall>k \<le> length xs. a \<noteq> d + 1 + of_nat k) \<longrightarrow> m' a = ?m a"
    using Cons.IH [OF _ ap, of ?m] len by blast
  have "d \<noteq> d + 1 + of_nat k" if "k \<le> length xs" for k
    using offset_inj [of 0 "Suc k" d] that Cons.prems(3) by (simp add: add.assoc)
  then have "m' d = x" using fr by simp
  moreover have "m' a = m a" if "\<forall>k \<le> Suc (length xs). a \<noteq> d + of_nat k" for a
  proof -
    have "a \<noteq> d + 1 + of_nat k" if "k \<le> length xs" for k
      using spec [OF \<open>\<forall>k \<le> Suc (length xs). a \<noteq> d + of_nat k\<close>, of "Suc k"] that
      by (simp add: add.assoc)
    moreover have "a \<noteq> d"
      using spec [OF \<open>\<forall>k \<le> Suc (length xs). a \<noteq> d + of_nat k\<close>, of 0] by simp
    ultimately show ?thesis using fr by simp
  qed
  ultimately show ?case
    using m' Cons.prems(1) by (subst strcpy_loop.simps) auto
qed

lemma strcat_end_cstr: "cstr m d xs \<Longrightarrow> strcat_end m d = Some (d + of_nat (length xs))"
proof (induction xs arbitrary: d)
  case Nil
  then show ?case by (simp add: strcat_end.simps)
next
  case (Cons x xs)
  then have "strcat_end m (d + 1) = Some (d + 1 + of_nat (length xs))" by simp
  with Cons.prems show ?case by (subst strcat_end.simps) (simp add: algebra_simps)
qed

lemma cstr_append:
  "0 \<notin> set xs \<Longrightarrow> bytes_at m d xs \<Longrightarrow> cstr m (d + of_nat (length xs)) ys \<Longrightarrow> cstr m d (xs @ ys)"
  by (auto simp: cstr_def bytes_at_append algebra_simps)

section \<open>Properties\<close>

text \<open>
  \<open>strcmp\<close> answers 0 exactly when its first argument is a prefix of the second. So equal
  strings compare equal, and so does every proper prefix, the empty string included.
\<close>

theorem strcmp_zero_iff_prefix:
  assumes "cstr m p xs" and "cstr m q ys"
  shows "\<exists>r. strcmp m p q = Some r \<and> (r = 0 \<longleftrightarrow> prefix xs ys)"
  using assms by (rule strcmp_cstr)

text \<open>The string \<open>ab\<close> at 16 and \<open>abc\<close> at 32 are different and compare as equal.\<close>

definition two_strings :: mem where
  "two_strings = (\<lambda>_. 0)(16 := 97, 17 := 98, 32 := 97, 33 := 98, 34 := 99)"

theorem strcmp_zero_iff_prefix_witness: "strcmp two_strings 16 32 = Some 0"
proof -
  have "cstr two_strings 16 [97, 98]" and "cstr two_strings 32 [97, 98, 99]"
    by (simp_all add: two_strings_def)
  from strcmp_zero_iff_prefix [OF this] show ?thesis by auto
qed

text \<open>
  \<open>strcat\<close> puts the source string behind the destination string, terminates it, returns the
  destination and changes no byte outside the ones it appends, when the appended bytes do not
  meet the source.
\<close>

theorem strcat_appends:
  assumes d: "cstr m d xs" and s: "cstr m s ys"
    and ap: "apart (d + of_nat (length xs)) (Suc (length ys)) s (Suc (length ys))"
    and len: "length xs + length ys < 2 ^ 64"
  shows "\<exists>m'. strcat m d s = Some (d, m') \<and> cstr m' d (xs @ ys) \<and>
    (\<forall>a. (\<forall>k \<le> length ys. a \<noteq> d + of_nat (length xs + k)) \<longrightarrow> m' a = m a)"
proof -
  obtain m' where m': "strcpy_loop m (d + of_nat (length xs)) s = Some m'"
    "cstr m' (d + of_nat (length xs)) ys"
    and fr: "\<And>a. (\<forall>k \<le> length ys. a \<noteq> d + of_nat (length xs) + of_nat k) \<Longrightarrow> m' a = m a"
    using strcpy_loop_cstr [OF s ap] len by auto
  have "m' (d + of_nat i) = m (d + of_nat i)" if "i < length xs" for i
  proof (rule fr, intro allI impI)
    fix k assume "k \<le> length ys"
    then show "d + of_nat i \<noteq> d + of_nat (length xs) + of_nat k"
      using offset_inj [of i "length xs + k" d] that len by (simp add: add.assoc)
  qed
  then have "bytes_at m' d xs" using d bytes_at_cong [of xs m' d m]
    by (simp add: cstr_def bytes_at_append)
  then have "cstr m' d (xs @ ys)" using m'(2) d by (intro cstr_append) (simp_all add: cstr_def)
  then show ?thesis using m' fr strcat_end_cstr [OF d] by (simp add: strcat_def add.assoc)
qed

theorem strcat_appends_witness:
  "\<exists>m'. strcat two_strings 16 32 = Some (16, m') \<and> cstr m' 16 [97, 98, 97, 98, 99]"
proof -
  have d: "cstr two_strings 16 [97, 98]" and s: "cstr two_strings 32 [97, 98, 99]"
    by (simp_all add: two_strings_def)
  have "apart (16 + of_nat (length [97, 98 :: u8])) (Suc (length [97, 98, 99 :: u8]))
      32 (Suc (length [97, 98, 99 :: u8]))"
    by (simp add: apart_def All_less_Suc2)
  from strcat_appends [OF d s this] show ?thesis by auto
qed

end
