(* ===== verification/Itoa.thy ===== *)
theory Itoa
  imports Cstring "HOL-Library.Signed_Division"
begin

text \<open>
  The number printers of \<open>kernel/src/extra/itoa.c\<close>. Both write into a caller's buffer, clear
  \<open>BASE_MAX_DIGIT_MAP[base] + 1\<close> bytes of it first, count the digits by repeated division, and
  then store the digits from the last one backwards. The counters are \<open>uint8_t\<close>, so \<open>i >= 0\<close>
  always holds and the loop ends by its \<open>break\<close> only. A 64-bit \<open>tmp\<close> that is only divided
  cannot overflow, so the loops carry it as an integer; \<open>itoa\<close> reads its argument as signed and
  \<open>utoa\<close> as unsigned. A negative remainder indexes the digit string before its start: \<open>None\<close>.
\<close>

section \<open>The code\<close>

definition BASE_MAX_DIGIT_MAP :: "u8 list" where
  "BASE_MAX_DIGIT_MAP = [0, 0, 64, 41, 32, 28, 25, 23, 22, 21, 20, 19, 18, 18, 17, 17, 16]"

definition digit_chars :: "u8 list" where
  "digit_chars = map of_char ''0123456789abcdef''"

text \<open>\<open>for (; i > 0; i--) { tmp /= base; if (tmp == 0) break; }\<close>\<close>

function digit_skip :: "int \<Rightarrow> int \<Rightarrow> u8 \<Rightarrow> u8" where
  "digit_skip tmp base i =
     (if 0 < i
      then let tmp' = tmp sdiv base in if tmp' = 0 then i else digit_skip tmp' base (i - 1)
      else i)"
  by pat_completeness auto
termination
  by (relation "measure (\<lambda>(tmp, base, i). unat i)")
    (auto simp: unat_pred word_gt_0 unat_gt_0)

declare digit_skip.simps [simp del]

text \<open>\<open>for (; i >= lo; i--) { str[i] = digit of tmp % base; tmp /= base; if (tmp == 0) break; }\<close>\<close>

partial_function (option) digit_write ::
    "mem \<Rightarrow> u64 \<Rightarrow> int \<Rightarrow> int \<Rightarrow> u8 \<Rightarrow> u8 \<Rightarrow> mem option" where
  "digit_write m str tmp base lo i =
     (if i < lo then Some m
      else if tmp smod base < 0 then None
      else let m' = m(str + ucast i := digit_chars ! nat (tmp smod base));
               tmp' = tmp sdiv base
           in if tmp' = 0 then Some m' else digit_write m' str tmp' base lo (i - 1))"

definition utoa :: "u64 \<Rightarrow> u64 \<Rightarrow> u8 \<Rightarrow> mem \<Rightarrow> (u64 \<times> mem) option" where
  "utoa value str base m =
     (if base < 2 \<or> base > 16 then Some (0, m)
      else
        let max_digits = BASE_MAX_DIGIT_MAP ! unat base;
            m = memset m str 0 (ucast max_digits + 1)
        in if value = 0 then Some (str, m(str := of_char (CHR ''0'')))
           else
             let i = max_digits - digit_skip (uint value) (uint base) max_digits
             in do { m \<leftarrow> digit_write m str (uint value) (uint base) 0 i; Some (str, m) })"

definition itoa :: "u64 \<Rightarrow> u64 \<Rightarrow> u8 \<Rightarrow> mem \<Rightarrow> (u64 \<times> mem) option" where
  "itoa value str base m =
     (if base < 2 \<or> base > 16 then Some (0, m)
      else
        let max_digits = BASE_MAX_DIGIT_MAP ! unat base;
            m = memset m str 0 (ucast max_digits + 1)
        in if value = 0 then Some (str, m(str := of_char (CHR ''0'')))
           else
             let i = max_digits;
                 negative = sint value < 0;
                 value = (if negative then - value else value);
                 max_digits = (if negative then max_digits + 1 else max_digits);
                 i = max_digits - digit_skip (sint value) (uint base) i
             in if negative
                then do {
                  m \<leftarrow> digit_write m str (sint value) (uint base) 1 i;
                  Some (str, m(str := of_char (CHR ''-''))) }
                else do {
                  m \<leftarrow> digit_write m str (sint value) (uint base) 0 i;
                  Some (str, m) })"

section \<open>Reference: positional notation\<close>

function digits_of :: "nat \<Rightarrow> nat \<Rightarrow> nat list" where
  "digits_of b n = (if b < 2 \<or> n < b then [n] else digits_of b (n div b) @ [n mod b])"
  by pat_completeness auto
termination
  by (relation "measure snd") (auto intro: div_less_dividend)

declare digits_of.simps [simp del]

definition digits_value :: "nat \<Rightarrow> nat list \<Rightarrow> nat" where
  "digits_value b ds = foldl (\<lambda>a d. a * b + d) 0 ds"

definition numeral_text :: "nat \<Rightarrow> nat \<Rightarrow> u8 list" where
  "numeral_text b n = map (\<lambda>d. digit_chars ! d) (digits_of b n)"

lemma digits_of_less: "n < b \<Longrightarrow> digits_of b n = [n]"
  by (subst digits_of.simps) simp

lemma digits_of_step: "2 \<le> b \<Longrightarrow> b \<le> n \<Longrightarrow> digits_of b n = digits_of b (n div b) @ [n mod b]"
  by (subst digits_of.simps) simp

lemma digits_of_nonempty [simp]: "digits_of b n \<noteq> []"
  by (subst digits_of.simps) simp

lemma digits_value_snoc: "digits_value b (ds @ [d]) = digits_value b ds * b + d"
  by (simp add: digits_value_def)

lemma digits_value_digits_of: "2 \<le> b \<Longrightarrow> digits_value b (digits_of b n) = n"
proof (induction b n rule: digits_of.induct)
  case (1 b n)
  then show ?case
    by (cases "n < b") (simp_all add: digits_of_less digits_of_step digits_value_snoc,
        simp add: digits_value_def)
qed

lemma digits_of_bound: "2 \<le> b \<Longrightarrow> d \<in> set (digits_of b n) \<Longrightarrow> d < b"
proof (induction b n rule: digits_of.induct)
  case (1 b n)
  then show ?case by (cases "n < b") (auto simp: digits_of_less digits_of_step)
qed

lemma digits_of_leading: "2 \<le> b \<Longrightarrow> 0 < n \<Longrightarrow> hd (digits_of b n) \<noteq> 0"
proof (induction b n rule: digits_of.induct)
  case (1 b n)
  then show ?case
    by (cases "n < b") (auto simp: digits_of_less digits_of_step div_greater_zero_iff)
qed

lemma length_digits_of: "2 \<le> b \<Longrightarrow> 0 < k \<Longrightarrow> n < b ^ k \<Longrightarrow> length (digits_of b n) \<le> k"
proof (induction k arbitrary: n)
  case 0
  then show ?case by simp
next
  case (Suc k)
  show ?case
  proof (cases "n < b")
    case True
    then show ?thesis by (simp add: digits_of_less)
  next
    case False
    then have "k \<noteq> 0" using Suc.prems by (cases k) auto
    moreover have "n div b < b ^ k"
      using Suc.prems by (simp add: less_mult_imp_div_less mult.commute)
    ultimately have "length (digits_of b (n div b)) \<le> k" using Suc by simp
    with False Suc.prems show ?thesis by (simp add: digits_of_step)
  qed
qed

lemma numeral_text_step:
  "2 \<le> b \<Longrightarrow> b \<le> n \<Longrightarrow> numeral_text b n = numeral_text b (n div b) @ [digit_chars ! (n mod b)]"
  by (simp add: numeral_text_def digits_of_step)

lemma numeral_text_less: "n < b \<Longrightarrow> numeral_text b n = [digit_chars ! n]"
  by (simp add: numeral_text_def digits_of_less)

lemma length_numeral_text [simp]: "length (numeral_text b n) = length (digits_of b n)"
  by (simp add: numeral_text_def)

lemma digit_chars_nonzero: "d < 16 \<Longrightarrow> digit_chars ! d \<noteq> 0"
proof -
  assume "d < 16"
  moreover have "\<forall>x \<in> set digit_chars. x \<noteq> 0" by (simp add: digit_chars_def)
  moreover have "length digit_chars = 16" by (simp add: digit_chars_def)
  ultimately show ?thesis by (metis nth_mem)
qed

lemma zero_notin_numeral_text: "2 \<le> b \<Longrightarrow> b \<le> 16 \<Longrightarrow> 0 \<notin> set (numeral_text b n)"
  using digits_of_bound [of b _ n] digit_chars_nonzero
  by (fastforce simp: numeral_text_def)

section \<open>The loops compute positional notation\<close>

lemma sdiv_int_nat: "int n sdiv int b = int (n div b)"
  by (simp add: signed_divide_int_def zdiv_int sgn_if)

lemma smod_int_nat: "int n smod int b = int (n mod b)"
  by (simp add: signed_modulo_int_def zmod_int sgn_if)

lemma digit_skip_length:
  "2 \<le> b \<Longrightarrow> length (digits_of b n) \<le> unat i + 1 \<Longrightarrow>
     unat (digit_skip (int n) (int b) i) = unat i + 1 - length (digits_of b n)"
proof (induction b n arbitrary: i rule: digits_of.induct)
  case (1 b n)
  show ?case
  proof (cases "i = 0")
    case True
    moreover have "length (digits_of b n) = 1"
      using "1.prems"(2) True digits_of_nonempty [of b n] by (cases "digits_of b n") auto
    ultimately show ?thesis by (simp add: digit_skip.simps)
  next
    case pos: False
    show ?thesis
    proof (cases "n < b")
      case True
      with pos show ?thesis
        by (subst digit_skip.simps) (simp add: sdiv_int_nat digits_of_less word_gt_0)
    next
      case False
      have "0 < unat i" using pos by (simp add: unat_gt_0)
      moreover have "unat (i - 1) = unat i - 1" using pos by (rule unat_pred)
      moreover have "n div b \<noteq> 0" using False "1.prems"(1) by (simp add: div_eq_0_iff)
      ultimately show ?thesis
        using "1.IH" [of "i - 1"] False "1.prems" pos
        by (subst digit_skip.simps)
          (simp add: sdiv_int_nat digits_of_step word_gt_0 Let_def del: of_nat_div)
    qed
  qed
qed

lemma unat_ucast_u8: "unat (ucast (i :: u8) :: u64) = unat i"
proof -
  have "unat i < 2 ^ LENGTH(8)" by (rule unsigned_less)
  then show ?thesis by (simp add: unsigned_ucast_eq take_bit_nat_eq_self)
qed

lemma digit_write_numeral:
  "2 \<le> b \<Longrightarrow> b \<le> 16 \<Longrightarrow> unat i + 1 = unat lo + length (digits_of b n) \<Longrightarrow>
   \<exists>m'. digit_write m str (int n) (int b) lo i = Some m' \<and>
     bytes_at m' (str + of_nat (unat lo)) (numeral_text b n) \<and>
     (\<forall>a. (\<forall>k < length (digits_of b n). a \<noteq> str + of_nat (unat lo + k)) \<longrightarrow> m' a = m a)"
proof (induction b n arbitrary: m i rule: digits_of.induct)
  case (1 b n)
  have ne: "0 < length (digits_of b n)" by simp
  have le: "\<not> i < lo" using "1.prems"(3) ne unfolding word_less_nat_alt by linarith
  show ?case
  proof (cases "n < b")
    case True
    with "1.prems" have i: "i = lo" by (simp add: digits_of_less word_unat_eq_iff)
    have "int n sdiv int b = 0" and "int n smod int b = int n"
      using True by (simp_all add: sdiv_int_nat smod_int_nat del: of_nat_div of_nat_mod)
    then have "digit_write m str (int n) (int b) lo i =
        Some (m(str + of_nat (unat i) := digit_chars ! n))"
      using le by (subst digit_write.simps) simp
    with True i show ?thesis by (simp add: digits_of_less numeral_text_less)
  next
    case False
    let ?m = "m(str + of_nat (unat i) := digit_chars ! (n mod b))"
    let ?l = "length (digits_of b (n div b))"
    have len: "length (digits_of b n) = Suc ?l"
      using False "1.prems"(1) by (simp add: digits_of_step)
    have i: "unat i = unat lo + ?l" using "1.prems"(3) len by simp
    have "0 < ?l" by simp
    then have "i \<noteq> 0" using i by auto
    then have i': "unat (i - 1) + 1 = unat lo + ?l" using i \<open>0 < ?l\<close> by (simp add: unat_pred)
    have "n div b \<noteq> 0" using False "1.prems"(1) by (simp add: div_eq_0_iff)
    then have eq: "digit_write m str (int n) (int b) lo i =
        digit_write ?m str (int (n div b)) (int b) lo (i - 1)"
      using le by (subst digit_write.simps)
        (simp add: sdiv_int_nat smod_int_nat Let_def
          del: of_nat_div of_nat_mod)
    have rec: "\<not> (b < 2 \<or> n < b)" using False "1.prems"(1) by simp
    obtain m' where m': "digit_write ?m str (int (n div b)) (int b) lo (i - 1) = Some m'"
      "bytes_at m' (str + of_nat (unat lo)) (numeral_text b (n div b))"
      and fr: "\<And>a. (\<forall>k < ?l. a \<noteq> str + of_nat (unat lo + k)) \<Longrightarrow> m' a = ?m a"
      using "1.IH" [OF rec "1.prems"(1,2) i', of ?m] by blast
    have "unat i < 2 ^ LENGTH(8)" by (rule unsigned_less)
    then have small: "unat lo + ?l < 2 ^ 64" using i by simp
    have "str + of_nat (unat i) \<noteq> str + of_nat (unat lo + k)" if "k < ?l" for k
      using offset_inj [of "unat i" "unat lo + k" str] that small i by simp
    then have "m' (str + of_nat (unat i)) = digit_chars ! (n mod b)" using fr by auto
    then have "bytes_at m' (str + of_nat (unat lo)) (numeral_text b n)"
      using m'(2) False "1.prems"(1) i
      by (simp add: numeral_text_step bytes_at_append add.assoc)
    moreover have "m' a = m a"
      if a: "\<forall>k < length (digits_of b n). a \<noteq> str + of_nat (unat lo + k)" for a
    proof -
      have "a \<noteq> str + of_nat (unat i)" using a i len by (metis lessI)
      moreover have "\<forall>k < ?l. a \<noteq> str + of_nat (unat lo + k)" using a len by simp
      ultimately show ?thesis using fr by simp
    qed
    ultimately show ?thesis using eq m'(1) by auto
  qed
qed

section \<open>Results of the printers\<close>

lemma max_digits_range:
  assumes "2 \<le> base" and "base \<le> (16 :: u8)"
  shows "2 ^ 64 \<le> unat base ^ unat (BASE_MAX_DIGIT_MAP ! unat base) \<and>
    0 < unat (BASE_MAX_DIGIT_MAP ! unat base) \<and> unat (BASE_MAX_DIGIT_MAP ! unat base) \<le> 64"
proof -
  have "2 \<le> unat base" and "unat base \<le> 16" using assms by (simp_all add: word_le_nat_alt)
  then have "unat base \<in> set [2..<17]" unfolding set_upt atLeastLessThan_iff by linarith
  moreover have "\<forall>b \<in> set [2..<17]. (2::nat) ^ 64 \<le> b ^ unat (BASE_MAX_DIGIT_MAP ! b) \<and>
      0 < unat (BASE_MAX_DIGIT_MAP ! b) \<and> unat (BASE_MAX_DIGIT_MAP ! b) \<le> 64"
    by (simp add: BASE_MAX_DIGIT_MAP_def upt_conv_Cons)
  ultimately show ?thesis by blast
qed

lemma digit_field:
  assumes b: "2 \<le> b" "b \<le> 16" and l: "length (digits_of b n) \<le> unat M" and M: "unat M \<le> 64"
    and lo: "lo = 0 \<or> lo = (1 :: u8)"
  shows "\<exists>m'. digit_write m str (int n) (int b) lo (M + lo - digit_skip (int n) (int b) M) = Some m' \<and>
    bytes_at m' (str + of_nat (unat lo)) (numeral_text b n) \<and>
    (\<forall>a. (\<forall>k < length (digits_of b n). a \<noteq> str + of_nat (unat lo + k)) \<longrightarrow> m' a = m a)"
proof (rule digit_write_numeral [OF b])
  let ?l = "length (digits_of b n)"
  have skip: "unat (digit_skip (int n) (int b) M) = unat M + 1 - ?l"
    using digit_skip_length [OF b(1), of n M] l by simp
  have pos: "0 < ?l" by simp
  have "unat (M + lo) = unat M + unat lo"
    by (rule unat_plus_nowrap) (use M lo in auto)
  then have "unat (M + lo - digit_skip (int n) (int b) M) = unat M + unat lo - (unat M + 1 - ?l)"
    using skip pos l by (subst unat_minus_nowrap) linarith+
  then show "unat (M + lo - digit_skip (int n) (int b) M) + 1 = unat lo + ?l"
    using pos l by linarith
qed

lemma max_digits_offset:
  assumes "unat (M :: u8) \<le> 64"
  shows "unat (ucast M + 1 :: u64) = unat M + 1"
proof -
  have "unat (ucast M :: u64) + unat (1 :: u64) < 2 ^ LENGTH(64)"
    using assms by (simp add: unat_ucast_u8)
  then show ?thesis using unat_plus_nowrap [of "ucast M :: u64" 1] by (simp add: unat_ucast_u8)
qed

lemma memset_field:
  assumes "unat (M :: u8) \<le> 64"
  shows "memset m str 0 (ucast M + 1) a = (if unat (a - str) \<le> unat M then 0 else m a)"
  using max_digits_offset [OF assms] by (simp add: memset_def)

lemma uint_sint_unat:
  fixes v :: "'a::len word"
  shows "uint v = int (unat v)"
  by simp

text \<open>The digits of a non-negative number in a cleared field make a C string.\<close>

lemma digit_field_cstr:
  assumes b: "2 \<le> b" "b \<le> 16" and n: "n < b ^ unat M" and M: "0 < unat M" "unat M \<le> 64"
  shows "\<exists>m'. digit_write (memset m str 0 (ucast M + 1)) str (int n) (int b) 0
        (M - digit_skip (int n) (int b) M) = Some m' \<and>
    cstr m' str (numeral_text b n) \<and>
    (\<forall>a. unat M < unat (a - str) \<longrightarrow> m' a = m a)"
proof -
  let ?m = "memset m str 0 (ucast M + 1)" and ?l = "length (digits_of b n)"
  note field = memset_field [OF M(2)]
  have l: "?l \<le> unat M" using b M(1) n by (intro length_digits_of) auto
  have l64: "?l < 2 ^ 64" using l M(2) by simp
  obtain m' where m': "digit_write ?m str (int n) (int b) 0
      (M - digit_skip (int n) (int b) M) = Some m'" "bytes_at m' str (numeral_text b n)"
    and fr: "\<And>a. (\<forall>k < ?l. a \<noteq> str + of_nat k) \<Longrightarrow> m' a = ?m a"
    using digit_field [OF b l M(2), of 0 ?m str] by auto
  have "\<forall>k < ?l. str + of_nat ?l \<noteq> str + of_nat k"
    using l64 offset_inj [of ?l _ str] by auto
  then have "m' (str + of_nat ?l) = ?m (str + of_nat ?l)" by (rule fr)
  also have "\<dots> = 0" using l l64 by (simp add: field unat_of_nat)
  finally have "cstr m' str (numeral_text b n)"
    using m'(2) zero_notin_numeral_text [OF b] by (simp add: cstr_def bytes_at_append)
  moreover have "m' a = m a" if a: "unat M < unat (a - str)" for a
  proof -
    have "a \<noteq> str + of_nat k" if "k < ?l" for k
      using that a l M(2) by (auto simp: unat_of_nat)
    then show ?thesis using fr field a by simp
  qed
  ultimately show ?thesis using m'(1) by blast
qed

lemma zero_field_cstr:
  assumes "2 \<le> b" and M: "0 < unat (M :: u8)" "unat M \<le> 64"
  shows "cstr ((memset m str 0 (ucast M + 1))(str := of_char (CHR ''0''))) str (numeral_text b 0)"
  using assms by (simp add: numeral_text_less memset_field) (simp add: digit_chars_def)

lemma utoa_text:
  assumes b: "2 \<le> base" "base \<le> 16"
  shows "\<exists>m'. utoa value str base m = Some (str, m') \<and>
    cstr m' str (numeral_text (unat base) (unat value)) \<and>
    (\<forall>a. unat (BASE_MAX_DIGIT_MAP ! unat base) < unat (a - str) \<longrightarrow> m' a = m a)"
proof -
  let ?b = "unat base" and ?M = "BASE_MAX_DIGIT_MAP ! unat base" and ?n = "unat value"
  have M: "2 ^ 64 \<le> ?b ^ unat ?M" "0 < unat ?M" "unat ?M \<le> 64"
    using max_digits_range [OF b] by auto
  have b': "2 \<le> ?b" "?b \<le> 16" using b by (simp_all add: word_le_nat_alt)
  have guard: "\<not> (base < 2 \<or> 16 < base)" using b by auto
  show ?thesis
  proof (cases "value = 0")
    case True
    then have "utoa value str base m =
        Some (str, (memset m str 0 (ucast ?M + 1))(str := of_char (CHR ''0'')))"
      using guard by (simp add: utoa_def Let_def)
    moreover have "cstr ((memset m str 0 (ucast ?M + 1))(str := of_char (CHR ''0''))) str
        (numeral_text ?b 0)"
      by (rule zero_field_cstr [OF b'(1) M(2,3)])
    ultimately show ?thesis using True memset_field [OF M(3)] by auto
  next
    case False
    have "?n < 2 ^ LENGTH(64)" by (rule unsigned_less)
    then have "?n < ?b ^ unat ?M" using M(1) by simp
    then show ?thesis
      using digit_field_cstr [OF b' _ M(2,3), of ?n m str] guard False
      by (auto simp: utoa_def Let_def)
  qed
qed

section \<open>Signed numbers\<close>

lemma sint_nonneg_uint: "0 \<le> sint (v :: u64) \<Longrightarrow> sint v = uint v"
  using sint_less [of v] by (simp add: uint_sint take_bit_int_eq_self)

lemma sint_uminus: "sint (v :: u64) \<noteq> - (2 ^ 63) \<Longrightarrow> sint (- v) = - sint v"
  using sint_less [of v] sint_greater_eq [of v]
  by (simp add: sint_word_minus signed_take_bit_int_eq_self)

lemma itoa_text:
  assumes b: "2 \<le> base" "base \<le> 16" and min: "sint value \<noteq> - (2 ^ 63)"
  defines "M \<equiv> BASE_MAX_DIGIT_MAP ! unat base"
    and "txt \<equiv> numeral_text (unat base) (nat \<bar>sint value\<bar>)"
  shows "\<exists>m'. itoa value str base m = Some (str, m') \<and>
    (if sint value < 0
     then bytes_at m' str (of_char (CHR ''-'') # txt) \<and>
       m' (str + of_nat (Suc (length txt))) =
         (if length txt < unat M then 0 else m (str + of_nat (Suc (length txt))))
     else cstr m' str txt)"
proof -
  let ?b = "unat base" and ?n = "nat \<bar>sint value\<bar>"
  let ?m = "memset m str 0 (ucast M + 1)" and ?l = "length txt"
  have M: "2 ^ 64 \<le> ?b ^ unat M" "0 < unat M" "unat M \<le> 64"
    using max_digits_range [OF b] by (auto simp: M_def)
  have b': "2 \<le> ?b" "?b \<le> 16" using b by (simp_all add: word_le_nat_alt)
  have guard: "\<not> (base < 2 \<or> 16 < base)" using b by auto
  have "\<bar>sint value\<bar> \<le> 2 ^ 63"
    using sint_less [of "value"] sint_greater_eq [of "value"] by simp
  then have "?n < 2 ^ 64" by simp
  then have n: "?n < ?b ^ unat M" using M(1) by simp
  have l: "?l \<le> unat M" using length_digits_of [OF b'(1) M(2) n] by (simp add: txt_def)
  show ?thesis
  proof (cases "sint value < 0")
    case False
    then have v: "sint value = int ?n" "uint base = int ?b" by simp_all
    show ?thesis
    proof (cases "value = 0")
      case True
      then show ?thesis
        using guard zero_field_cstr [OF b'(1) M(2,3), of m str]
        by (simp add: itoa_def Let_def M_def txt_def)
    next
      case nz: False
      show ?thesis
        using digit_field_cstr [OF b' n M(2,3), of m str] guard False nz
        by (auto simp: itoa_def Let_def M_def txt_def)
    qed
  next
    case True
    have v: "sint (- value) = int ?n" using True min by (simp add: sint_uminus)
    have l': "length (digits_of ?b ?n) \<le> unat M" using l by (simp add: txt_def)
    obtain m' where m': "digit_write ?m str (int ?n) (int ?b) 1
        (M + 1 - digit_skip (int ?n) (int ?b) M) = Some m'"
      "bytes_at m' (str + 1) txt"
      and fr: "\<And>a. (\<forall>k < ?l. a \<noteq> str + of_nat (Suc k)) \<Longrightarrow> m' a = ?m a"
      using digit_field [OF b' l' M(3), of 1 ?m str] by (auto simp: txt_def)
    have l64: "Suc ?l < 2 ^ 64" using l M(3) by simp
    have "itoa value str base m = Some (str, m'(str := of_char (CHR ''-'')))"
      using guard True m'(1) v by (auto simp: itoa_def Let_def M_def)
    moreover have "bytes_at (m'(str := of_char (CHR ''-''))) (str + 1) txt = bytes_at m' (str + 1) txt"
    proof (rule bytes_at_cong)
      fix k assume "k < ?l"
      then have "str + of_nat (Suc k) \<noteq> str"
        using offset_inj [of "Suc k" 0 str] l64 by simp
      then show "(m'(str := of_char (CHR ''-''))) (str + 1 + of_nat k) = m' (str + 1 + of_nat k)"
        by (simp add: add.assoc)
    qed
    moreover have "m' (str + of_nat (Suc ?l)) = ?m (str + of_nat (Suc ?l))"
      by (rule fr) (use l64 offset_inj [of "Suc ?l" "Suc _" str] in auto)
    moreover have "?m (str + of_nat (Suc ?l)) =
        (if ?l < unat M then 0 else m (str + of_nat (Suc ?l)))"
    proof -
      have "unat (of_nat (Suc ?l) :: u64) = Suc ?l" using l64 by (intro unat_of_nat_nowrap) simp
      then show ?thesis using memset_field [OF M(3), of m str "str + of_nat (Suc ?l)"] l
        by (simp add: Suc_le_eq)
    qed
    moreover have "str + of_nat (Suc ?l) \<noteq> str"
      using offset_inj [of "Suc ?l" 0 str] l64 by simp
    ultimately show ?thesis using True m'(2) by simp
  qed
qed

section \<open>Reading a number back\<close>

definition char_digit :: "u8 \<Rightarrow> nat option" where
  "char_digit c = find (\<lambda>d. digit_chars ! d = c) [0..<16]"

fun read_digits :: "nat \<Rightarrow> nat \<Rightarrow> u8 list \<Rightarrow> nat option" where
  "read_digits b acc [] = Some acc"
| "read_digits b acc (c # cs) =
     (case char_digit c of
        None \<Rightarrow> None
      | Some d \<Rightarrow> if d < b then read_digits b (acc * b + d) cs else None)"

definition read_numeral :: "nat \<Rightarrow> u8 list \<Rightarrow> nat option" where
  "read_numeral b cs = (if cs = [] then None else read_digits b 0 cs)"

lemma char_digit_digit_chars: "d < 16 \<Longrightarrow> char_digit (digit_chars ! d) = Some d"
proof -
  assume "d < 16"
  moreover have "\<forall>d \<in> set [0..<16]. char_digit (digit_chars ! d) = Some d"
    by (simp add: char_digit_def digit_chars_def upt_conv_Cons)
  ultimately show ?thesis by simp
qed

lemma read_digits_map:
  "b \<le> 16 \<Longrightarrow> \<forall>d \<in> set ds. d < b \<Longrightarrow>
     read_digits b acc (map (\<lambda>d. digit_chars ! d) ds) = Some (foldl (\<lambda>a d. a * b + d) acc ds)"
  by (induction ds arbitrary: acc) (auto simp: char_digit_digit_chars)

lemma read_numeral_text: "2 \<le> b \<Longrightarrow> b \<le> 16 \<Longrightarrow> read_numeral b (numeral_text b n) = Some n"
  using read_digits_map [of b "digits_of b n" 0] digits_of_bound [of b _ n]
    digits_value_digits_of [of b n]
  by (auto simp: read_numeral_def numeral_text_def digits_value_def)

section \<open>Properties\<close>

text \<open>C38:
  for every base from 2 to 16 \<open>utoa\<close> returns its buffer, holding a terminated C string that
  reads back to the number it was given, and writes nowhere outside the buffer's
  \<open>BASE_MAX_DIGIT_MAP[base] + 1\<close> bytes.
\<close>

theorem utoa_reads_back:
  assumes "2 \<le> base" and "base \<le> 16"
  shows "\<exists>m' txt. utoa v str base m = Some (str, m') \<and> cstr m' str txt \<and>
    read_numeral (unat base) txt = Some (unat v) \<and>
    (\<forall>a. unat (BASE_MAX_DIGIT_MAP ! unat base) < unat (a - str) \<longrightarrow> m' a = m a)"
proof -
  have "2 \<le> unat base" and "unat base \<le> 16" using assms by (simp_all add: word_le_nat_alt)
  then show ?thesis using utoa_text [OF assms, of v str m] read_numeral_text by blast
qed

theorem utoa_reads_back_witness:
  "\<exists>m' txt. utoa 0xBEEF 0x1000 16 (\<lambda>_. 0) = Some (0x1000, m') \<and> cstr m' 0x1000 txt \<and>
    read_numeral 16 txt = Some 48879"
  using utoa_reads_back [of 16 "0xBEEF" "0x1000" "\<lambda>_. 0"] by auto

text \<open>
  \<open>itoa\<close> stores the digits of the absolute value, after a minus sign for a negative number.
  A number that is not negative is terminated. A negative one is terminated by \<open>itoa\<close> only if
  its digits do not fill \<open>BASE_MAX_DIGIT_MAP[base]\<close> places: otherwise the byte behind the last
  digit is the one the caller's buffer held before. The least number, whose negation overflows,
  is excluded.
\<close>

theorem itoa_digits_and_termination:
  assumes "2 \<le> base" and "base \<le> 16" and "sint v \<noteq> - (2 ^ 63)"
  shows "\<exists>m' txt. itoa v str base m = Some (str, m') \<and>
    read_numeral (unat base) txt = Some (nat \<bar>sint v\<bar>) \<and>
    (if sint v < 0
     then bytes_at m' str (of_char (CHR ''-'') # txt) \<and>
       m' (str + of_nat (Suc (length txt))) =
         (if length txt < unat (BASE_MAX_DIGIT_MAP ! unat base) then 0
          else m (str + of_nat (Suc (length txt))))
     else cstr m' str txt)"
proof -
  have "2 \<le> unat base" and "unat base \<le> 16" using assms by (simp_all add: word_le_nat_alt)
  then show ?thesis using itoa_text [OF assms, of str m] read_numeral_text by blast
qed

theorem itoa_digits_and_termination_witness:
  "\<exists>m' txt. itoa (- 42) 0x1000 10 (\<lambda>_. 7) = Some (0x1000, m') \<and>
    read_numeral 10 txt = Some 42 \<and> bytes_at m' 0x1000 (of_char (CHR ''-'') # txt)"
  using itoa_digits_and_termination [of 10 "- 42" "0x1000" "\<lambda>_. 7"] by auto

end
