(* ===== verification/Pmm.thy ===== *)
theory Pmm
  imports Glass_Prelude
begin

text \<open>
  The physical memory manager: \<open>kernel/src/mem/pmm/pmm.h\<close>, \<open>pmm.c\<close> and the page operations of
  \<open>pfa.c\<close>. Physical memory is a doubly linked list of sections, whose nodes are the slots of one
  array at the start of the managed memory. A pointer to a section is \<open>None\<close> for NULL or \<open>Some i\<close>
  for slot \<open>i\<close>; the array is a map from slot numbers to sections, so aliasing is as in the code,
  and its physical address is kept in \<open>pmm_base\<close>.
  Reading or writing a field through NULL is \<open>None\<close> (page 0 is never mapped, so the access ends
  in the exception handler, which halts the machine).

  The state record is extended by the later components (page tables, heap, pools), so that their
  code calls these operations on the one kernel state.
\<close>

section \<open>Data\<close>

abbreviation PAGING_PAGE_SIZE :: u64 where "PAGING_PAGE_SIZE \<equiv> 0x1000"

abbreviation PMM_SECTION_USED :: u64 where "PMM_SECTION_USED \<equiv> 0"
abbreviation PMM_SECTION_FREE :: u64 where "PMM_SECTION_FREE \<equiv> 1"
abbreviation PMM_SECTION_BAD :: u64 where "PMM_SECTION_BAD \<equiv> 2"

text \<open>\<open>sizeof(pmm_section_t)\<close>: five 8-byte fields.\<close>

abbreviation sizeof_pmm_section :: u64 where "sizeof_pmm_section \<equiv> 40"

record pmm_section =
  sec_prev :: "nat option"
  sec_next :: "nat option"
  sec_start :: u64
  sec_pages :: u64
  sec_free :: u64

record pmm_state =
  pfa_allowing_allocations :: bool
  free_memory :: u64
  pmm_sections :: "nat option"
  pmm_base :: u64
  pmm_section_head :: u64
  pmm_data_size :: u64
  estimated_total_memory :: u64
  slots :: "nat \<Rightarrow> pmm_section"

section \<open>Field access through section pointers\<close>

definition ld :: "(pmm_section \<Rightarrow> 'v) \<Rightarrow> nat option \<Rightarrow> 'z pmm_state_scheme \<Rightarrow> 'v option" where
  "ld fld p s = map_option (\<lambda>i. fld (slots s i)) p"

definition st :: "(pmm_section \<Rightarrow> pmm_section) \<Rightarrow> nat option \<Rightarrow> 'z pmm_state_scheme \<Rightarrow>
    'z pmm_state_scheme option" where
  "st upd p s = map_option (\<lambda>i. s\<lparr>slots := (slots s)(i := upd (slots s i))\<rparr>) p"

lemma ld_simps [simp]:
  "ld fld None s = None" "ld fld (Some i) s = Some (fld (slots s i))"
  by (simp_all add: ld_def)

lemma st_simps [simp]:
  "st upd None s = None" "st upd (Some i) s = Some (s\<lparr>slots := (slots s)(i := upd (slots s i))\<rparr>)"
  by (simp_all add: st_def)

section \<open>The section slots\<close>

definition zero_section :: pmm_section where
  "zero_section = \<lparr>sec_prev = None, sec_next = None, sec_start = 0, sec_pages = 0, sec_free = 0\<rparr>"

text \<open>
  \<open>memset(pmm_sections, 0, pmm_data_size)\<close> on the slots: a field is cleared when all its eight
  bytes lie in the area (the size is a multiple of eight, and the last slot can stick out).
\<close>

definition clear_slot :: "nat \<Rightarrow> nat \<Rightarrow> pmm_section \<Rightarrow> pmm_section" where
  "clear_slot nbytes i x =
     \<lparr>sec_prev = (if 40 * i + 8 \<le> nbytes then None else sec_prev x),
      sec_next = (if 40 * i + 16 \<le> nbytes then None else sec_next x),
      sec_start = (if 40 * i + 24 \<le> nbytes then 0 else sec_start x),
      sec_pages = (if 40 * i + 32 \<le> nbytes then 0 else sec_pages x),
      sec_free = (if 40 * i + 40 \<le> nbytes then 0 else sec_free x)\<rparr>"

definition pmm_section_manager_create :: "u64 \<Rightarrow> 'z pmm_state_scheme \<Rightarrow> 'z pmm_state_scheme" where
  "pmm_section_manager_create base s =
     (if pfa_allowing_allocations s then s
      else s\<lparr>pmm_sections := Some 0, pmm_base := base,
             slots := (\<lambda>i. clear_slot (unat (pmm_data_size s)) i (slots s i)),
             pmm_section_head := 1\<rparr>)"

partial_function (option) pmm_reindex_loop ::
    "u64 \<Rightarrow> 'z pmm_state_scheme \<Rightarrow> 'z pmm_state_scheme option" where
  "pmm_reindex_loop i s =
     (if i * sizeof_pmm_section < pmm_data_size s
      then if sec_prev (slots s (unat i)) = None \<and> sec_next (slots s (unat i)) = None
           then Some (s\<lparr>pmm_section_head := i\<rparr>)
           else pmm_reindex_loop (i + 1) s
      else Some s)"

definition pmm_section_manager_reindex :: "'z pmm_state_scheme \<Rightarrow> 'z pmm_state_scheme option" where
  "pmm_section_manager_reindex s = pmm_reindex_loop 0 (s\<lparr>pmm_section_head := 0\<rparr>)"

definition pmm_slot_linked :: "'z pmm_state_scheme \<Rightarrow> bool" where
  "pmm_slot_linked s \<longleftrightarrow>
     (let x = slots s (unat (pmm_section_head s)) in sec_prev x \<noteq> None \<or> sec_next x \<noteq> None)"

definition pmm_new_section ::
    "'z pmm_state_scheme \<Rightarrow> (nat option \<times> 'z pmm_state_scheme) option" where
  "pmm_new_section s =
     (if pmm_section_head s * sizeof_pmm_section \<ge> pmm_data_size s then Some (None, s)
      else do {
        s \<leftarrow> (if pmm_slot_linked s then pmm_section_manager_reindex s else Some s);
        if pmm_slot_linked s then Some (None, s)
        else Some (Some (unat (pmm_section_head s)),
                   s\<lparr>pmm_section_head := pmm_section_head s + 1\<rparr>) })"

definition pmm_delete_section ::
    "nat option \<Rightarrow> 'z pmm_state_scheme \<Rightarrow> 'z pmm_state_scheme option" where
  "pmm_delete_section sec s = st (\<lambda>_. zero_section) sec s"

section \<open>Splitting and combining sections\<close>

definition pmm_section_split ::
    "nat option \<Rightarrow> u64 \<Rightarrow> 'z pmm_state_scheme \<Rightarrow> 'z pmm_state_scheme option" where
  "pmm_section_split target split_at s = do {
     t_start \<leftarrow> ld sec_start target s;
     t_pages \<leftarrow> ld sec_pages target s;
     if split_at \<ge> t_start + t_pages * PAGING_PAGE_SIZE then Some s
     else do {
       t_next \<leftarrow> ld sec_next target s;
       s \<leftarrow> (if t_next \<noteq> None
             then do {
               (new, s) \<leftarrow> pmm_new_section s;
               s \<leftarrow> st (sec_prev_update (\<lambda>_. new)) t_next s;
               n_prev \<leftarrow> ld sec_prev t_next s;
               s \<leftarrow> st (sec_prev_update (\<lambda>_. target)) n_prev s;
               n_prev \<leftarrow> ld sec_prev t_next s;
               s \<leftarrow> st (sec_next_update (\<lambda>_. t_next)) n_prev s;
               n_prev \<leftarrow> ld sec_prev t_next s;
               st (sec_next_update (\<lambda>_. n_prev)) target s }
             else do {
               (new, s) \<leftarrow> pmm_new_section s;
               s \<leftarrow> st (sec_next_update (\<lambda>_. new)) target s;
               st (sec_prev_update (\<lambda>_. target)) new s });
       new \<leftarrow> ld sec_next target s;
       t_free \<leftarrow> ld sec_free target s;
       s \<leftarrow> st (sec_free_update (\<lambda>_. t_free)) new s;
       t_pages \<leftarrow> ld sec_pages target s;
       s \<leftarrow> st (sec_pages_update (\<lambda>_. t_pages - (split_at - t_start) div PAGING_PAGE_SIZE)) new s;
       s \<leftarrow> st (sec_start_update (\<lambda>_. split_at)) new s;
       t_start \<leftarrow> ld sec_start target s;
       t_pages \<leftarrow> ld sec_pages target s;
       st (sec_pages_update (\<lambda>p. p -
             ((t_start + t_pages * PAGING_PAGE_SIZE) - split_at) div PAGING_PAGE_SIZE)) target s } }"

definition pmm_section_combine_next ::
    "nat option \<Rightarrow> 'z pmm_state_scheme \<Rightarrow> 'z pmm_state_scheme option" where
  "pmm_section_combine_next target s = do {
     t_next \<leftarrow> ld sec_next target s;
     if t_next = None then Some s
     else do {
       t_free \<leftarrow> ld sec_free target s;
       n_free \<leftarrow> ld sec_free t_next s;
       if t_free \<noteq> n_free then Some s
       else do {
         t_start \<leftarrow> ld sec_start target s;
         s \<leftarrow> st (sec_start_update (\<lambda>_. t_start)) t_next s;
         t_pages \<leftarrow> ld sec_pages target s;
         s \<leftarrow> st (sec_pages_update (\<lambda>p. p + t_pages)) t_next s;
         t_prev \<leftarrow> ld sec_prev target s;
         s \<leftarrow> st (sec_prev_update (\<lambda>_. t_prev)) t_next s;
         s \<leftarrow> st (sec_next_update (\<lambda>_. t_next)) t_prev s;
         pmm_delete_section target s } } }"

definition pmm_section_combine_prev ::
    "nat option \<Rightarrow> 'z pmm_state_scheme \<Rightarrow> 'z pmm_state_scheme option" where
  "pmm_section_combine_prev target s = do {
     t_prev \<leftarrow> ld sec_prev target s;
     if t_prev = None then Some s
     else do {
       t_free \<leftarrow> ld sec_free target s;
       p_free \<leftarrow> ld sec_free t_prev s;
       if t_free \<noteq> p_free then Some s
       else do {
         t_pages \<leftarrow> ld sec_pages target s;
         s \<leftarrow> st (sec_pages_update (\<lambda>p. p + t_pages)) t_prev s;
         t_next \<leftarrow> ld sec_next target s;
         s \<leftarrow> st (sec_next_update (\<lambda>_. t_next)) t_prev s;
         s \<leftarrow> st (sec_prev_update (\<lambda>_. t_prev)) t_next s;
         pmm_delete_section target s } } }"

section \<open>Recombining the list\<close>

text \<open>
  One run of the inner \<open>for\<close> loop; the result says whether two sections were combined
  (\<open>detected\<close>). \<open>break\<close> on a NULL \<open>next\<close> is the end of the list.
\<close>

partial_function (option) pmm_recombine_pass ::
    "nat option \<Rightarrow> bool \<Rightarrow> 'z pmm_state_scheme \<Rightarrow> (bool \<times> 'z pmm_state_scheme) option" where
  "pmm_recombine_pass current detected s =
     (if current = None then Some (detected, s)
      else do {
        c_next \<leftarrow> ld sec_next current s;
        if c_next = None then Some (detected, s)
        else do {
          c_free \<leftarrow> ld sec_free current s;
          n_free \<leftarrow> ld sec_free c_next s;
          if c_free \<noteq> n_free then pmm_recombine_pass c_next detected s
          else do {
            n_pages \<leftarrow> ld sec_pages c_next s;
            s \<leftarrow> st (sec_pages_update (\<lambda>p. p + n_pages)) current s;
            nn \<leftarrow> ld sec_next c_next s;
            s \<leftarrow> (if nn \<noteq> None
                  then do {
                    s \<leftarrow> st (sec_next_update (\<lambda>_. nn)) current s;
                    old \<leftarrow> ld sec_prev nn s;
                    s \<leftarrow> pmm_delete_section old s;
                    nn \<leftarrow> ld sec_next current s;
                    st (sec_prev_update (\<lambda>_. current)) nn s }
                  else do {
                    s \<leftarrow> pmm_delete_section c_next s;
                    st (sec_next_update (\<lambda>_. None)) current s });
            c_next \<leftarrow> ld sec_next current s;
            pmm_recombine_pass c_next True s } } })"

partial_function (option) pmm_recombine ::
    "'z pmm_state_scheme \<Rightarrow> 'z pmm_state_scheme option" where
  "pmm_recombine s = do {
     (detected, s) \<leftarrow> pmm_recombine_pass (pmm_sections s) False s;
     if detected then pmm_recombine s else Some s }"

partial_function (option) pmm_sum_free ::
    "nat option \<Rightarrow> u64 \<Rightarrow> 'z pmm_state_scheme \<Rightarrow> u64 option" where
  "pmm_sum_free current acc s =
     (if current = None then Some acc
      else do {
        free \<leftarrow> ld sec_free current s;
        pages \<leftarrow> ld sec_pages current s;
        nx \<leftarrow> ld sec_next current s;
        pmm_sum_free nx
          (if free = PMM_SECTION_FREE then acc + pages * PAGING_PAGE_SIZE else acc) s })"

definition pmm_recalculate_free_memory ::
    "'z pmm_state_scheme \<Rightarrow> 'z pmm_state_scheme option" where
  "pmm_recalculate_free_memory s = do {
     total \<leftarrow> pmm_sum_free (pmm_sections s) 0 s;
     Some (s\<lparr>free_memory := total\<rparr>) }"

definition pmm_get_free_memory :: "'z pmm_state_scheme \<Rightarrow> u64" where
  "pmm_get_free_memory s = free_memory s"

end
