(* ===== verification/Pmm_List.thy ===== *)
theory Pmm_List
  imports Pmm
begin

text \<open>
  What a list of sections means. \<open>dseg\<close> says that the slots of a list of indices are doubly linked
  in that order; \<open>tiles\<close> that the sections follow each other without gap or overlap; and
  \<open>page_state\<close> gives the state (used, free, bad) of the byte at an address, which is the abstract
  memory map that the operations of the manager are specified on.
\<close>

section \<open>Doubly linked slots\<close>

definition hd_ptr :: "nat list \<Rightarrow> nat option \<Rightarrow> nat option" where
  "hd_ptr is n = (case is of [] \<Rightarrow> n | j # _ \<Rightarrow> Some j)"

definition last_ptr :: "nat option \<Rightarrow> nat list \<Rightarrow> nat option" where
  "last_ptr p is = (if is = [] then p else Some (last is))"

lemma hd_ptr_simps [simp]: "hd_ptr [] n = n" "hd_ptr (i # is) n = Some i"
  by (simp_all add: hd_ptr_def)

lemma last_ptr_simps [simp]:
  "last_ptr p [] = p" "last_ptr p (i # is) = last_ptr (Some i) is" "last_ptr p (is @ [i]) = Some i"
  by (simp_all add: last_ptr_def)

lemma hd_ptr_append [simp]: "hd_ptr (as @ bs) n = hd_ptr as (hd_ptr bs n)"
  by (cases as) auto

lemma last_ptr_append [simp]: "last_ptr p (as @ bs) = last_ptr (last_ptr p as) bs"
  by (induction as arbitrary: p) auto

fun dseg :: "(nat \<Rightarrow> pmm_section) \<Rightarrow> nat option \<Rightarrow> nat list \<Rightarrow> nat option \<Rightarrow> bool" where
  "dseg h p [] n = True"
| "dseg h p (i # is) n =
     (sec_prev (h i) = p \<and> sec_next (h i) = hd_ptr is n \<and> dseg h (Some i) is n)"

lemma dseg_append [simp]:
  "dseg h p (as @ bs) n \<longleftrightarrow> dseg h p as (hd_ptr bs n) \<and> dseg h (last_ptr p as) bs n"
  by (induction as arbitrary: p) auto

lemma dseg_upd_notin [simp]: "x \<notin> set is \<Longrightarrow> dseg (h(x := v)) p is n = dseg h p is n"
  by (induction "is" arbitrary: p) auto

lemma dseg_cong:
  assumes "\<And>i. i \<in> set is \<Longrightarrow> sec_prev (h' i) = sec_prev (h i) \<and> sec_next (h' i) = sec_next (h i)"
  shows "dseg h' p is n = dseg h p is n"
  using assms by (induction "is" arbitrary: p) auto

section \<open>Tiling\<close>

fun chain :: "nat \<Rightarrow> pmm_section list \<Rightarrow> bool" where
  "chain b [] = True"
| "chain b (x # xs) = (unat (sec_start x) = b \<and> chain (b + 4096 * unat (sec_pages x)) xs)"

fun chain_end :: "nat \<Rightarrow> pmm_section list \<Rightarrow> nat" where
  "chain_end b [] = b"
| "chain_end b (x # xs) = chain_end (b + 4096 * unat (sec_pages x)) xs"

definition tiles :: "nat \<Rightarrow> pmm_section list \<Rightarrow> bool" where
  "tiles b xs \<longleftrightarrow> chain b xs \<and> chain_end b xs < 2 ^ 64"

lemma chain_append [simp]: "chain b (xs @ ys) \<longleftrightarrow> chain b xs \<and> chain (chain_end b xs) ys"
  by (induction xs arbitrary: b) auto

lemma chain_end_append [simp]: "chain_end b (xs @ ys) = chain_end (chain_end b xs) ys"
  by (induction xs arbitrary: b) auto

lemma chain_end_total: "chain_end b xs = b + 4096 * (\<Sum>x \<leftarrow> xs. unat (sec_pages x))"
  by (induction xs arbitrary: b) auto

lemma chain_end_ge: "b \<le> chain_end b xs"
  by (simp add: chain_end_total)

section \<open>The state of an address\<close>

definition in_section :: "pmm_section \<Rightarrow> nat \<Rightarrow> bool" where
  "in_section x a \<longleftrightarrow>
     unat (sec_start x) \<le> a \<and> a < unat (sec_start x) + 4096 * unat (sec_pages x)"

fun page_state :: "pmm_section list \<Rightarrow> nat \<Rightarrow> u64 option" where
  "page_state [] a = None"
| "page_state (x # xs) a = (if in_section x a then Some (sec_free x) else page_state xs a)"

lemma page_state_append:
  "page_state (xs @ ys) a = (case page_state xs a of None \<Rightarrow> page_state ys a | Some f \<Rightarrow> Some f)"
  by (induction xs) auto

lemma page_state_range: "chain b xs \<Longrightarrow> page_state xs a \<noteq> None \<longleftrightarrow> b \<le> a \<and> a < chain_end b xs"
proof (induction xs arbitrary: b)
  case Nil
  then show ?case by simp
next
  case (Cons x xs)
  let ?b = "b + 4096 * unat (sec_pages x)"
  have "page_state xs a \<noteq> None \<longleftrightarrow> ?b \<le> a \<and> a < chain_end ?b xs"
    using Cons by simp
  then show ?case
    using Cons.prems chain_end_ge [of ?b xs] by (simp add: in_section_def) linarith
qed

lemma page_state_None_iff: "chain b xs \<Longrightarrow> page_state xs a = None \<longleftrightarrow> a < b \<or> chain_end b xs \<le> a"
  using page_state_range [of b xs a] by auto

lemma page_state_in_set: "page_state xs a = Some f \<Longrightarrow> \<exists>x \<in> set xs. sec_free x = f \<and> in_section x a"
  by (induction xs) (auto split: if_splits)

text \<open>Replacing a run of sections by another run of the same extent.\<close>

lemma page_state_replace:
  assumes "chain b (xs @ ys @ zs)" and "chain (chain_end b xs) ys'"
    and "chain_end (chain_end b xs) ys' = chain_end (chain_end b xs) ys"
  shows "page_state (xs @ ys' @ zs) a =
    (if chain_end b xs \<le> a \<and> a < chain_end (chain_end b xs) ys then page_state ys' a
     else page_state (xs @ ys @ zs) a)"
proof -
  have "page_state xs a = None" if "chain_end b xs \<le> a"
    using that assms(1) page_state_None_iff [of b xs a] by auto
  moreover have "page_state ys a = None" "page_state ys' a = None"
    if "\<not> (chain_end b xs \<le> a \<and> a < chain_end (chain_end b xs) ys)"
    using that assms page_state_None_iff [of "chain_end b xs"] by auto
  moreover have "page_state ys' a \<noteq> None"
    if "chain_end b xs \<le> a \<and> a < chain_end (chain_end b xs) ys"
    using that assms page_state_None_iff [of "chain_end b xs" ys' a] by auto
  ultimately show ?thesis by (auto simp: page_state_append split: option.splits)
qed

lemma tiles_replace:
  assumes "tiles b (xs @ ys @ zs)" and "chain (chain_end b xs) ys'"
    and "chain_end (chain_end b xs) ys' = chain_end (chain_end b xs) ys"
  shows "tiles b (xs @ ys' @ zs)"
  using assms by (simp add: tiles_def)

end
