(* ===== verification/Pfa.thy ===== *)
theory Pfa
  imports Pmm
begin

text \<open>
  The page operations of \<open>kernel/src/mem/pmm/pfa.c\<close>: taking a page, giving it back, and marking
  chosen pages as used. Each walks the section list from its head. The walks are
  \<open>partial_function (option)\<close>: \<open>None\<close> is a NULL dereference or a walk that never ends. The first
  component of the result of \<open>pmm_free_scan\<close> tells whether the code returned from inside the loop,
  before the statement behind it.
\<close>

section \<open>Taking a page\<close>

text \<open>\<open>selected->next->prev = selected->prev; selected->prev->next = selected->next; \<dots>\<close>\<close>

definition pmm_unlink_empty ::
    "nat option \<Rightarrow> 'z pmm_state_scheme \<Rightarrow> (nat option \<times> 'z pmm_state_scheme) option" where
  "pmm_unlink_empty selected s = do {
     s_next \<leftarrow> ld sec_next selected s;
     s_prev \<leftarrow> ld sec_prev selected s;
     s \<leftarrow> st (sec_prev_update (\<lambda>_. s_prev)) s_next s;
     s_prev \<leftarrow> ld sec_prev selected s;
     s_next \<leftarrow> ld sec_next selected s;
     s \<leftarrow> st (sec_next_update (\<lambda>_. s_next)) s_prev s;
     s_prev \<leftarrow> ld sec_prev selected s;
     s \<leftarrow> pmm_delete_section selected s;
     Some (s_prev, s) }"

definition pmm_take_first ::
    "nat option \<Rightarrow> 'z pmm_state_scheme \<Rightarrow> (u64 \<times> 'z pmm_state_scheme) option" where
  "pmm_take_first selected s = do {
     base \<leftarrow> ld sec_start selected s;
     s_prev \<leftarrow> ld sec_prev selected s;
     p_free \<leftarrow> ld sec_free s_prev s;
     s \<leftarrow> (if p_free = PMM_SECTION_USED
           then do {
             s \<leftarrow> st (sec_pages_update (\<lambda>p. p + 1)) s_prev s;
             s \<leftarrow> st (sec_pages_update (\<lambda>p. p - 1)) selected s;
             st (sec_start_update (\<lambda>a. a + PAGING_PAGE_SIZE)) selected s }
           else do {
             s \<leftarrow> pmm_section_split selected (base + PAGING_PAGE_SIZE) s;
             st (sec_free_update (\<lambda>_. PMM_SECTION_USED)) selected s });
     Some (base, s) }"

partial_function (option) pmm_alloc_scan ::
    "nat option \<Rightarrow> 'z pmm_state_scheme \<Rightarrow> (u64 \<times> 'z pmm_state_scheme) option" where
  "pmm_alloc_scan selected s =
     (if selected = None then Some (0, s)
      else do {
        pages \<leftarrow> ld sec_pages selected s;
        if pages = 0
        then do {
          (selected, s) \<leftarrow> pmm_unlink_empty selected s;
          s_next \<leftarrow> ld sec_next selected s;
          pmm_alloc_scan s_next s }
        else do {
          free \<leftarrow> ld sec_free selected s;
          if free = PMM_SECTION_FREE then pmm_take_first selected s
          else do {
            s_next \<leftarrow> ld sec_next selected s;
            pmm_alloc_scan s_next s } } })"

definition pmm_alloc_page :: "'z pmm_state_scheme \<Rightarrow> (u64 \<times> 'z pmm_state_scheme) option" where
  "pmm_alloc_page s =
     (if \<not> pfa_allowing_allocations s then Some (0, s)
      else do {
        (base, s) \<leftarrow> pmm_alloc_scan (pmm_sections s) s;
        Some (base, if base \<noteq> 0 then s\<lparr>free_memory := free_memory s - PAGING_PAGE_SIZE\<rparr> else s) })"

section \<open>Giving a page back\<close>

text \<open>The page is the start of the section \<open>selected\<close>; every path returns.\<close>

definition pmm_free_at_start ::
    "nat option \<Rightarrow> 'z pmm_state_scheme \<Rightarrow> 'z pmm_state_scheme option" where
  "pmm_free_at_start selected s = do {
     free \<leftarrow> ld sec_free selected s;
     if free = PMM_SECTION_FREE then Some s
     else do {
       pages \<leftarrow> ld sec_pages selected s;
       s_prev \<leftarrow> ld sec_prev selected s;
       s_next \<leftarrow> ld sec_next selected s;
       p_free \<leftarrow> ld sec_free s_prev s;
       if pages = 1
       then do {
         n_free \<leftarrow> ld sec_free s_next s;
         if p_free = PMM_SECTION_FREE \<and> n_free = PMM_SECTION_FREE
         then do {
           s \<leftarrow> pmm_section_combine_next selected s;
           pmm_section_combine_next s_prev s }
         else if p_free = PMM_SECTION_FREE then pmm_section_combine_prev selected s
         else if n_free = PMM_SECTION_FREE then pmm_section_combine_next selected s
         else st (sec_free_update (\<lambda>_. PMM_SECTION_FREE)) selected s }
       else if p_free = PMM_SECTION_FREE
       then do {
         s \<leftarrow> st (sec_pages_update (\<lambda>p. p + 1)) s_prev s;
         s \<leftarrow> st (sec_start_update (\<lambda>a. a + PAGING_PAGE_SIZE)) selected s;
         st (sec_pages_update (\<lambda>p. p - 1)) selected s }
       else do {
         start \<leftarrow> ld sec_start selected s;
         s \<leftarrow> pmm_section_split selected (start + PAGING_PAGE_SIZE) s;
         st (sec_free_update (\<lambda>_. PMM_SECTION_FREE)) selected s } } }"

text \<open>
  The page is inside the used section \<open>selected\<close>, not at its start; the result is the section
  the loop continues from.
\<close>

definition pmm_free_inside ::
    "nat option \<Rightarrow> u64 \<Rightarrow> 'z pmm_state_scheme \<Rightarrow> (nat option \<times> 'z pmm_state_scheme) option" where
  "pmm_free_inside selected page s = do {
     s_next \<leftarrow> ld sec_next selected s;
     n_start \<leftarrow> ld sec_start s_next s;
     if n_start - PAGING_PAGE_SIZE = page
     then do {
       n_free \<leftarrow> ld sec_free s_next s;
       if n_free = PMM_SECTION_FREE
       then do {
         s \<leftarrow> st (sec_start_update (\<lambda>a. a - PAGING_PAGE_SIZE)) s_next s;
         s \<leftarrow> st (sec_pages_update (\<lambda>p. p + 1)) s_next s;
         s \<leftarrow> st (sec_pages_update (\<lambda>p. p - 1)) selected s;
         Some (selected, s) }
       else do {
         s \<leftarrow> pmm_section_split selected page s;
         selected \<leftarrow> ld sec_next selected s;
         start \<leftarrow> ld sec_start selected s;
         s \<leftarrow> pmm_section_split selected (start + PAGING_PAGE_SIZE) s;
         s \<leftarrow> st (sec_free_update (\<lambda>_. PMM_SECTION_FREE)) selected s;
         Some (selected, s) } }
     else Some (selected, s) }"

text \<open>\<open>selected->start < page && selected->next->start > page\<close>\<close>

definition pmm_page_inside ::
    "nat option \<Rightarrow> u64 \<Rightarrow> 'z pmm_state_scheme \<Rightarrow> bool option" where
  "pmm_page_inside selected page s = do {
     start \<leftarrow> ld sec_start selected s;
     if start < page
     then do {
       s_next \<leftarrow> ld sec_next selected s;
       n_start \<leftarrow> ld sec_start s_next s;
       Some (n_start > page) }
     else Some False }"

partial_function (option) pmm_free_scan ::
    "nat option \<Rightarrow> u64 \<Rightarrow> 'z pmm_state_scheme \<Rightarrow> (bool \<times> 'z pmm_state_scheme) option" where
  "pmm_free_scan selected page s =
     (if selected = None then Some (False, s)
      else do {
        start \<leftarrow> ld sec_start selected s;
        if start = page
        then do { s \<leftarrow> pmm_free_at_start selected s; Some (True, s) }
        else do {
          inside \<leftarrow> pmm_page_inside selected page s;
          free \<leftarrow> ld sec_free selected s;
          if inside \<and> free = PMM_SECTION_FREE then Some (True, s)
          else do {
            (selected, s) \<leftarrow> (if inside then pmm_free_inside selected page s
                              else Some (selected, s));
            s_next \<leftarrow> ld sec_next selected s;
            pmm_free_scan s_next page s } } })"

definition pmm_free_page :: "u64 \<Rightarrow> 'z pmm_state_scheme \<Rightarrow> 'z pmm_state_scheme option" where
  "pmm_free_page page s =
     (if \<not> pfa_allowing_allocations s then Some s
      else do {
        (returned, s) \<leftarrow> pmm_free_scan (pmm_sections s) page s;
        Some (if returned then s
              else s\<lparr>free_memory := free_memory s + PAGING_PAGE_SIZE\<rparr>) })"

section \<open>Marking a page as used\<close>

text \<open>A section of one page that starts at the page.\<close>

definition pmm_lock_single ::
    "nat option \<Rightarrow> 'z pmm_state_scheme \<Rightarrow> 'z pmm_state_scheme option" where
  "pmm_lock_single selected s = do {
     s \<leftarrow> st (sec_free_update (\<lambda>_. PMM_SECTION_USED)) selected s;
     s_prev \<leftarrow> ld sec_prev selected s;
     s_next \<leftarrow> ld sec_next selected s;
     p_free \<leftarrow> ld sec_free s_prev s;
     n_free \<leftarrow> ld sec_free s_next s;
     if p_free = PMM_SECTION_USED \<and> n_free = PMM_SECTION_USED
     then do {
       s \<leftarrow> pmm_section_combine_next selected s;
       pmm_section_combine_next s_prev s }
     else if p_free = PMM_SECTION_USED then pmm_section_combine_prev selected s
     else if n_free = PMM_SECTION_USED then pmm_section_combine_next selected s
     else Some s }"

text \<open>A section of several pages that starts at the page.\<close>

definition pmm_lock_at_start ::
    "nat option \<Rightarrow> 'z pmm_state_scheme \<Rightarrow> 'z pmm_state_scheme option" where
  "pmm_lock_at_start selected s = do {
     free \<leftarrow> ld sec_free selected s;
     if free = PMM_SECTION_USED then Some s
     else do {
       s_prev \<leftarrow> ld sec_prev selected s;
       p_free \<leftarrow> ld sec_free s_prev s;
       if p_free = PMM_SECTION_USED
       then do {
         s \<leftarrow> st (sec_pages_update (\<lambda>p. p + 1)) s_prev s;
         s \<leftarrow> st (sec_pages_update (\<lambda>p. p - 1)) selected s;
         st (sec_start_update (\<lambda>a. a + PAGING_PAGE_SIZE)) selected s }
       else do {
         start \<leftarrow> ld sec_start selected s;
         s \<leftarrow> pmm_section_split selected (start + PAGING_PAGE_SIZE) s;
         st (sec_free_update (\<lambda>_. PMM_SECTION_USED)) selected s } } }"

text \<open>The page is inside the section \<open>selected\<close>, which is not used.\<close>

definition pmm_lock_inside ::
    "nat option \<Rightarrow> u64 \<Rightarrow> 'z pmm_state_scheme \<Rightarrow> (nat option \<times> 'z pmm_state_scheme) option" where
  "pmm_lock_inside selected page s = do {
     s_next \<leftarrow> ld sec_next selected s;
     n_start \<leftarrow> ld sec_start s_next s;
     if n_start - PAGING_PAGE_SIZE = page
     then do {
       n_free \<leftarrow> ld sec_free s_next s;
       if n_free = PMM_SECTION_USED
       then do {
         s \<leftarrow> st (sec_start_update (\<lambda>a. a - PAGING_PAGE_SIZE)) s_next s;
         s \<leftarrow> st (sec_pages_update (\<lambda>p. p + 1)) s_next s;
         s \<leftarrow> st (sec_pages_update (\<lambda>p. p - 1)) selected s;
         Some (selected, s) }
       else do {
         s \<leftarrow> pmm_section_split selected page s;
         selected \<leftarrow> ld sec_next selected s;
         s \<leftarrow> st (sec_free_update (\<lambda>_. PMM_SECTION_USED)) selected s;
         Some (selected, s) } }
     else do {
       s \<leftarrow> pmm_section_split selected page s;
       selected \<leftarrow> ld sec_next selected s;
       start \<leftarrow> ld sec_start selected s;
       s \<leftarrow> pmm_section_split selected (start + PAGING_PAGE_SIZE) s;
       s \<leftarrow> st (sec_free_update (\<lambda>_. PMM_SECTION_USED)) selected s;
       Some (selected, s) } }"

partial_function (option) pmm_lock_scan ::
    "nat option \<Rightarrow> u64 \<Rightarrow> 'z pmm_state_scheme \<Rightarrow> 'z pmm_state_scheme option" where
  "pmm_lock_scan selected page s =
     (if selected = None then Some s
      else do {
        pages \<leftarrow> ld sec_pages selected s;
        start \<leftarrow> ld sec_start selected s;
        if pages = 1 \<and> start = page then pmm_lock_single selected s
        else if start = page then pmm_lock_at_start selected s
        else do {
          inside \<leftarrow> pmm_page_inside selected page s;
          free \<leftarrow> ld sec_free selected s;
          if inside \<and> free = PMM_SECTION_USED then Some s
          else do {
            (selected, s) \<leftarrow> (if inside then pmm_lock_inside selected page s
                              else Some (selected, s));
            s_next \<leftarrow> ld sec_next selected s;
            pmm_lock_scan s_next page s } } })"

definition pmm_lock_page :: "u64 \<Rightarrow> 'z pmm_state_scheme \<Rightarrow> 'z pmm_state_scheme option" where
  "pmm_lock_page page s =
     (if \<not> pfa_allowing_allocations s then Some s
      else pmm_lock_scan (pmm_sections s) page s)"

definition pmm_unlock_page :: "u64 \<Rightarrow> 'z pmm_state_scheme \<Rightarrow> 'z pmm_state_scheme option" where
  "pmm_unlock_page page s =
     (if \<not> pfa_allowing_allocations s then Some s else pmm_free_page page s)"

section \<open>Runs of pages\<close>

text \<open>\<open>for (size_t i = 0; i < count; i++) f(page + i * PAGING_PAGE_SIZE)\<close>\<close>

fun for_pages ::
    "(u64 \<Rightarrow> 'z pmm_state_scheme \<Rightarrow> 'z pmm_state_scheme option) \<Rightarrow> u64 \<Rightarrow> nat \<Rightarrow>
      'z pmm_state_scheme \<Rightarrow> 'z pmm_state_scheme option" where
  "for_pages f page 0 s = Some s"
| "for_pages f page (Suc n) s = do { s \<leftarrow> f page s; for_pages f (page + PAGING_PAGE_SIZE) n s }"

definition pmm_lock_pages :: "u64 \<Rightarrow> u64 \<Rightarrow> 'z pmm_state_scheme \<Rightarrow> 'z pmm_state_scheme option" where
  "pmm_lock_pages page count s =
     (if \<not> pfa_allowing_allocations s then Some s
      else for_pages pmm_lock_page page (unat count) s)"

definition pmm_unlock_pages :: "u64 \<Rightarrow> u64 \<Rightarrow> 'z pmm_state_scheme \<Rightarrow> 'z pmm_state_scheme option" where
  "pmm_unlock_pages page count s =
     (if \<not> pfa_allowing_allocations s then Some s
      else for_pages pmm_free_page page (unat count) s)"

end
