(* ===== verification/Pmm_Inv.thy ===== *)
theory Pmm_Inv
  imports Pmm_List Pfa
begin

text \<open>
  The well-formedness invariant of the section list and what each list operation does to it.
  \<open>bare\<close> forgets the links of a section, so that the list of bare sections is the abstract content
  of the list and the links are described by \<open>dseg\<close> alone.
\<close>

definition bare :: "pmm_section \<Rightarrow> pmm_section" where
  "bare x = x\<lparr>sec_prev := None, sec_next := None\<rparr>"

lemma bare_sel [simp]:
  "sec_start (bare x) = sec_start x" "sec_pages (bare x) = sec_pages x"
  "sec_free (bare x) = sec_free x" "sec_prev (bare x) = None" "sec_next (bare x) = None"
  by (simp_all add: bare_def)

lemma bare_upd [simp]:
  "bare (sec_prev_update f x) = bare x" "bare (sec_next_update f x) = bare x"
  "bare (sec_start_update g x) = sec_start_update g (bare x)"
  "bare (sec_pages_update g x) = sec_pages_update g (bare x)"
  "bare (sec_free_update g x) = sec_free_update g (bare x)"
  "bare (bare x) = bare x"
  by (simp_all add: bare_def)

definition secs :: "(nat \<Rightarrow> pmm_section) \<Rightarrow> nat list \<Rightarrow> pmm_section list" where
  "secs h is = map (\<lambda>i. bare (h i)) is"

lemma secs_simps [simp]:
  "secs h [] = []" "secs h (i # is) = bare (h i) # secs h is"
  "secs h (is @ js) = secs h is @ secs h js"
  by (simp_all add: secs_def)

lemma secs_upd_notin [simp]: "x \<notin> set is \<Longrightarrow> secs (h(x := v)) is = secs h is"
  by (simp add: secs_def)

lemma set_secs [simp]: "set (secs h is) = (\<lambda>i. bare (h i)) ` set is"
  by (simp add: secs_def)

lemma secs_Nil_iff [simp]: "secs h is = [] \<longleftrightarrow> is = []"
  by (simp add: secs_def)

section \<open>The invariant\<close>

text \<open>
  \<open>pmm_room k s\<close>: at least \<open>k\<close> more sections can be taken from the slots that were never used, with
  both of their links inside the area that \<open>pmm_section_manager_create\<close> cleared.
\<close>

definition pmm_room :: "nat \<Rightarrow> 'z pmm_state_scheme \<Rightarrow> bool" where
  "pmm_room k s \<longleftrightarrow> 40 * (unat (pmm_section_head s) + k) \<le> unat (pmm_data_size s) + 24"

text \<open>
  The list starts with a non-empty bad section (the first MiB) and ends with a
  non-empty section that is not free; it covers the addresses from 0 without gap or overlap; it
  uses only slots below \<open>_pmm_section_head\<close>, and the slots of the area from there on are unlinked.
\<close>

definition pmm_links :: "nat list \<Rightarrow> 'z pmm_state_scheme \<Rightarrow> bool" where
  "pmm_links is s \<longleftrightarrow> is \<noteq> [] \<and> distinct is \<and> pmm_sections s = hd_ptr is None \<and>
     dseg (slots s) None is None \<and> (\<forall>i \<in> set is. i < unat (pmm_section_head s)) \<and>
     (\<forall>i \<ge> unat (pmm_section_head s). 40 * i + 16 \<le> unat (pmm_data_size s) \<longrightarrow>
        sec_prev (slots s i) = None \<and> sec_next (slots s i) = None) \<and>
     pmm_room 0 s \<and> unat (pmm_data_size s) < 2 ^ 63"

definition guarded :: "pmm_section \<Rightarrow> bool" where
  "guarded x \<longleftrightarrow> sec_pages x \<noteq> 0 \<and> sec_free x \<noteq> PMM_SECTION_FREE"

definition first_mib :: "pmm_section \<Rightarrow> bool" where
  "first_mib x \<longleftrightarrow> sec_pages x \<noteq> 0 \<and> sec_free x = PMM_SECTION_BAD"

definition pmm_wf :: "nat list \<Rightarrow> 'z pmm_state_scheme \<Rightarrow> bool" where
  "pmm_wf is s \<longleftrightarrow> pmm_links is s \<and> tiles 0 (secs (slots s) is) \<and>
     first_mib (hd (secs (slots s) is)) \<and> guarded (last (secs (slots s) is))"

text \<open>No section of the list is empty (\<open>pmm_alloc_page\<close> can leave an empty one behind).\<close>

definition tight :: "nat list \<Rightarrow> 'z pmm_state_scheme \<Rightarrow> bool" where
  "tight is s \<longleftrightarrow> (\<forall>x \<in> set (secs (slots s) is). sec_pages x \<noteq> 0)"

text \<open>What no operation of the manager touches.\<close>

definition pmm_frame :: "'z pmm_state_scheme \<Rightarrow> 'z pmm_state_scheme \<Rightarrow> bool" where
  "pmm_frame s s' \<longleftrightarrow> pfa_allowing_allocations s' = pfa_allowing_allocations s \<and>
     pmm_data_size s' = pmm_data_size s \<and> pmm_sections s' = pmm_sections s \<and>
     pmm_base s' = pmm_base s \<and>
     estimated_total_memory s' = estimated_total_memory s \<and> pmm_state.more s' = pmm_state.more s"

lemma pmm_frame_refl [simp]: "pmm_frame s s"
  by (simp add: pmm_frame_def)

lemma pmm_frame_trans: "pmm_frame s t \<Longrightarrow> pmm_frame t u \<Longrightarrow> pmm_frame s u"
  by (simp add: pmm_frame_def)

lemma pmm_frame_upd [simp]:
  "pmm_frame s (t\<lparr>slots := h\<rparr>) = pmm_frame s t"
  "pmm_frame s (t\<lparr>pmm_section_head := k\<rparr>) = pmm_frame s t"
  "pmm_frame s (t\<lparr>free_memory := m\<rparr>) = pmm_frame s t"
  by (simp_all add: pmm_frame_def)

lemma pmm_frame_more: "pmm_frame s s' \<Longrightarrow> pmm_state.more s' = pmm_state.more s"
  by (simp add: pmm_frame_def)

section \<open>A fresh slot\<close>

lemma pmm_new_section_fresh:
  assumes "pmm_links is s" and "pmm_room (Suc k) s"
  shows "pmm_new_section s =
    Some (Some (unat (pmm_section_head s)), s\<lparr>pmm_section_head := pmm_section_head s + 1\<rparr>)"
    and "unat (pmm_section_head s + 1) = Suc (unat (pmm_section_head s))"
proof -
  let ?h = "pmm_section_head s"
  have room: "40 * unat ?h + 40 * k + 16 \<le> unat (pmm_data_size s)"
    and ds: "unat (pmm_data_size s) < 2 ^ 63"
    using assms by (simp_all add: pmm_links_def pmm_room_def)
  have "unat ?h * unat (40 :: u64) < 2 ^ LENGTH(64)"
    using room ds by simp
  from unat_times_nowrap [OF this] have "unat (?h * 40) = unat ?h * 40" by simp
  then have "\<not> pmm_data_size s \<le> ?h * 40"
    using room by (simp add: word_le_nat_alt)
  moreover have "sec_prev (slots s (unat ?h)) = None" "sec_next (slots s (unat ?h)) = None"
    using assms(1) room by (simp_all add: pmm_links_def)
  ultimately show "pmm_new_section s = Some (Some (unat ?h), s\<lparr>pmm_section_head := ?h + 1\<rparr>)"
    by (simp add: pmm_new_section_def pmm_slot_linked_def Let_def)
  have "unat ?h + unat (1 :: u64) < 2 ^ LENGTH(64)"
    using room ds by simp
  from unat_plus_nowrap [OF this] show "unat (?h + 1) = Suc (unat ?h)" by simp
qed

lemma pmm_links_no_fresh_mem: "pmm_links is s \<Longrightarrow> unat (pmm_section_head s) \<notin> set is"
  by (auto simp: pmm_links_def)

section \<open>Word arithmetic of a tiled section\<close>

lemma tiles_at:
  assumes "tiles b (xs @ x # ys)"
  shows "unat (sec_start x) = chain_end b xs"
    and "chain_end b xs + 4096 * unat (sec_pages x) < 2 ^ 64"
    and "4096 * unat (sec_pages x) = unat (sec_pages x * 4096)"
    and "unat (sec_start x + sec_pages x * 4096) = chain_end b xs + 4096 * unat (sec_pages x)"
proof -
  show st: "unat (sec_start x) = chain_end b xs"
    using assms by (simp add: tiles_def)
  show le: "chain_end b xs + 4096 * unat (sec_pages x) < 2 ^ 64"
    using assms chain_end_ge [of "chain_end b xs + 4096 * unat (sec_pages x)" ys]
    by (simp add: tiles_def)
  have "unat (sec_pages x) * unat (4096 :: u64) < 2 ^ LENGTH(64)"
    using le by simp
  from unat_times_nowrap [OF this]
  show "4096 * unat (sec_pages x) = unat (sec_pages x * 4096)" by simp
  then have "unat (sec_start x) + unat (sec_pages x * 4096) < 2 ^ LENGTH(64)"
    using le st by simp
  from unat_plus_nowrap [OF this]
  show "unat (sec_start x + sec_pages x * 4096) = chain_end b xs + 4096 * unat (sec_pages x)"
    using \<open>4096 * unat (sec_pages x) = unat (sec_pages x * 4096)\<close> st by simp
qed

text \<open>Splitting an extent of \<open>p\<close> pages at the address \<open>c\<close> of its page \<open>k\<close>.\<close>

lemma split_words:
  fixes a p c :: u64
  assumes le: "unat a + 4096 * unat p < 2 ^ 64" and c: "unat c = unat a + 4096 * k"
    and k: "k < unat p"
  shows "c < a + p * 4096" and "(c - a) div 4096 = of_nat k"
    and "(a + p * 4096 - c) div 4096 = p - of_nat k"
    and "p - (p - of_nat k) = of_nat k"
    and "unat (of_nat k :: u64) = k" and "unat (p - of_nat k) = unat p - k"
proof -
  have k64: "k < 2 ^ LENGTH(64)"
    using k le by simp
  show uk: "unat (of_nat k :: u64) = k"
    by (rule unat_of_nat_nowrap [OF k64])
  show up: "unat (p - of_nat k) = unat p - k"
    using uk k by (subst unat_minus_nowrap) simp_all
  have "unat p * unat (4096 :: u64) < 2 ^ LENGTH(64)"
    using le by simp
  from unat_times_nowrap [OF this] have p4: "unat (p * 4096) = unat p * 4096" by simp
  have "unat a + unat (p * 4096) < 2 ^ LENGTH(64)"
    using le p4 by simp
  from unat_plus_nowrap [OF this] have e: "unat (a + p * 4096) = unat a + unat p * 4096"
    using p4 by simp
  show "c < a + p * 4096"
    using e c k by (simp add: word_less_nat_alt)
  have "unat (c - a) = 4096 * k"
    using c by (subst unat_minus_nowrap) simp_all
  then have "unat ((c - a) div 4096) = unat (of_nat k :: u64)"
    using uk by (simp add: unat_div)
  then show "(c - a) div 4096 = of_nat k" by (simp only: word_unat_eq_iff)
  have "unat (a + p * 4096 - c) = (unat p - k) * 4096"
    using e c k by (subst unat_minus_nowrap) (simp_all add: algebra_simps)
  then have "unat ((a + p * 4096 - c) div 4096) = unat (p - of_nat k)"
    using up by (simp add: unat_div)
  then show "(a + p * 4096 - c) div 4096 = p - of_nat k" by (simp only: word_unat_eq_iff)
  show "p - (p - of_nat k) = of_nat k" by simp
qed

section \<open>Splitting a section\<close>

text \<open>
  Splitting the section in slot \<open>x\<close> after its first \<open>k\<close> pages puts a fresh slot behind it.
\<close>

lemma pmm_section_split_run:
  assumes links: "pmm_links (as @ x # bs) s" and room: "pmm_room (Suc r) s"
    and le: "unat (sec_start (slots s x)) + 4096 * unat (sec_pages (slots s x)) < 2 ^ 64"
    and at: "unat split_at = unat (sec_start (slots s x)) + 4096 * k"
    and k: "k < unat (sec_pages (slots s x))"
  defines "n \<equiv> unat (pmm_section_head s)"
  shows "\<exists>s'. pmm_section_split (Some x) split_at s = Some s' \<and>
    pmm_links (as @ x # n # bs) s' \<and> pmm_frame s s' \<and> pmm_room r s' \<and>
    free_memory s' = free_memory s \<and>
    secs (slots s') as = secs (slots s) as \<and> secs (slots s') bs = secs (slots s) bs \<and>
    bare (slots s' x) = bare (slots s x)\<lparr>sec_pages := of_nat k\<rparr> \<and>
    bare (slots s' n) = bare (slots s x)\<lparr>sec_start := split_at,
      sec_pages := sec_pages (slots s x) - of_nat k\<rparr>"
proof -
  let ?x = "slots s x"
  note w = split_words [OF le at k]
  have nl: "\<not> split_at \<ge> sec_start ?x + sec_pages ?x * 4096"
    using w(1) by simp
  note new = pmm_new_section_fresh [OF links room]
  have n: "n \<notin> set as" "n \<noteq> x" "n \<notin> set bs"
    using pmm_links_no_fresh_mem [OF links] by (auto simp: n_def)
  show ?thesis
  proof (cases bs)
    case Nil
    then show ?thesis
      using links room n w nl new
      by (simp add: pmm_section_split_def pmm_links_def pmm_room_def n_def [symmetric]) (auto intro: less_SucI)
  next
    case (Cons y ys)
    then show ?thesis
      using links room n w nl new
      by (simp add: pmm_section_split_def pmm_links_def pmm_room_def n_def [symmetric]) (auto intro: less_SucI)
  qed
qed

section \<open>Changing the state of one page\<close>

definition page_set :: "(nat \<Rightarrow> u64 option) \<Rightarrow> nat \<Rightarrow> u64 \<Rightarrow> nat \<Rightarrow> u64 option" where
  "page_set m a f = (\<lambda>b. if a \<le> b \<and> b < a + 4096 then Some f else m b)"

lemma page_set_replace:
  assumes "tiles 0 (xs @ ys @ zs)" and "chain (chain_end 0 xs) ys'"
    and "chain_end (chain_end 0 xs) ys' = chain_end (chain_end 0 xs) ys"
    and "chain_end 0 xs \<le> p" and "p + 4096 \<le> chain_end (chain_end 0 xs) ys"
    and "\<And>a. chain_end 0 xs \<le> a \<Longrightarrow> a < chain_end (chain_end 0 xs) ys \<Longrightarrow>
      page_state ys' a = page_set (page_state ys) p f a"
  shows "page_state (xs @ ys' @ zs) = page_set (page_state (xs @ ys @ zs)) p f"
    and "tiles 0 (xs @ ys' @ zs)"
proof -
  have c: "chain 0 (xs @ ys @ zs)"
    using assms(1) by (simp add: tiles_def)
  have "page_state (xs @ ys @ zs) a = page_state ys a"
    if "chain_end 0 xs \<le> a" "a < chain_end (chain_end 0 xs) ys" for a
    using c that page_state_replace [OF c, of ys a] by simp
  then show "page_state (xs @ ys' @ zs) = page_set (page_state (xs @ ys @ zs)) p f"
    using assms(4-6) by (auto simp: fun_eq_iff page_state_replace [OF c assms(2,3)] page_set_def)
  show "tiles 0 (xs @ ys' @ zs)"
    by (rule tiles_replace [OF assms(1-3)])
qed

text \<open>A section of one page changes its state.\<close>

lemma page_set_single:
  assumes "tiles 0 (xs @ x # zs)" and "unat (sec_pages x) = 1"
  shows "page_state (xs @ x\<lparr>sec_free := f\<rparr> # zs) =
      page_set (page_state (xs @ x # zs)) (unat (sec_start x)) f"
    and "tiles 0 (xs @ x\<lparr>sec_free := f\<rparr> # zs)"
proof -
  have c: "chain 0 (xs @ [x])" using assms by (simp add: tiles_def)
  note r = page_set_replace [of xs "[x]" zs "[x\<lparr>sec_free := f\<rparr>]" "unat (sec_start x)" f]
  show "page_state (xs @ x\<lparr>sec_free := f\<rparr> # zs) =
      page_set (page_state (xs @ x # zs)) (unat (sec_start x)) f"
    and "tiles 0 (xs @ x\<lparr>sec_free := f\<rparr> # zs)"
    using r assms c by (simp_all add: in_section_def page_set_def)
qed

text \<open>The first page of a section becomes a section of its own.\<close>

lemma page_set_first:
  assumes "tiles 0 (xs @ x # zs)"
    and "unat (sec_start y) = unat (sec_start x)" "unat (sec_pages y) = 1" "sec_free y = f"
    and "unat (sec_start z) = unat (sec_start x) + 4096"
    and "Suc (unat (sec_pages z)) = unat (sec_pages x)" "sec_free z = sec_free x"
  shows "page_state (xs @ y # z # zs) = page_set (page_state (xs @ x # zs)) (unat (sec_start x)) f"
    and "tiles 0 (xs @ y # z # zs)"
proof -
  have c: "chain 0 (xs @ [x])" using assms by (simp add: tiles_def)
  have e: "unat (sec_pages x) = 1 + unat (sec_pages z)" using assms by simp
  note r = page_set_replace [of xs "[x]" zs "[y, z]" "unat (sec_start x)" f]
  show "page_state (xs @ y # z # zs) = page_set (page_state (xs @ x # zs)) (unat (sec_start x)) f"
    and "tiles 0 (xs @ y # z # zs)"
    using r assms(1-5,7) c by (simp_all add: e in_section_def page_set_def)
qed

text \<open>The first page of a section moves to the section before it.\<close>

lemma page_set_to_prev:
  assumes "tiles 0 (xs @ w # x # zs)"
    and "unat (sec_start v) = unat (sec_start w)" "unat (sec_pages v) = Suc (unat (sec_pages w))"
    and "sec_free v = sec_free w"
    and "unat (sec_start y) = unat (sec_start x) + 4096"
    and "Suc (unat (sec_pages y)) = unat (sec_pages x)" "sec_free y = sec_free x"
  shows "page_state (xs @ v # y # zs) =
      page_set (page_state (xs @ w # x # zs)) (unat (sec_start x)) (sec_free w)"
    and "tiles 0 (xs @ v # y # zs)"
proof -
  have c: "chain 0 (xs @ [w, x])" using assms by (simp add: tiles_def)
  have e: "unat (sec_pages x) = 1 + unat (sec_pages y)" using assms by simp
  note r = page_set_replace [of xs "[w, x]" zs "[v, y]" "unat (sec_start x)" "sec_free w"]
  show "page_state (xs @ v # y # zs) =
      page_set (page_state (xs @ w # x # zs)) (unat (sec_start x)) (sec_free w)"
    and "tiles 0 (xs @ v # y # zs)"
    using r assms(1-5,7) c by (simp_all add: e in_section_def page_set_def)
qed

text \<open>The last page of a section moves to the section behind it.\<close>

lemma page_set_to_next:
  assumes "tiles 0 (xs @ x # w # zs)"
    and "unat (sec_start y) = unat (sec_start x)" "Suc (unat (sec_pages y)) = unat (sec_pages x)"
    and "sec_free y = sec_free x"
    and "unat (sec_start v) + 4096 = unat (sec_start w)"
    and "unat (sec_pages v) = Suc (unat (sec_pages w))" "sec_free v = sec_free w"
  shows "page_state (xs @ y # v # zs) =
      page_set (page_state (xs @ x # w # zs)) (unat (sec_start v)) (sec_free w)"
    and "tiles 0 (xs @ y # v # zs)"
proof -
  have c: "chain 0 (xs @ [x, w])" using assms by (simp add: tiles_def)
  have e: "unat (sec_pages x) = 1 + unat (sec_pages y)" using assms by simp
  have e': "unat (sec_start w) = unat (sec_start v) + 4096" using assms by simp
  note r = page_set_replace [of xs "[x, w]" zs "[y, v]" "unat (sec_start v)" "sec_free w"]
  show "page_state (xs @ y # v # zs) =
      page_set (page_state (xs @ x # w # zs)) (unat (sec_start v)) (sec_free w)"
    and "tiles 0 (xs @ y # v # zs)"
    using r assms(1,2,4,6-) c by (simp_all add: e e' in_section_def page_set_def)
qed

text \<open>A page inside a section becomes a section of its own; what is behind it may be empty.\<close>

lemma page_set_middle:
  assumes "tiles 0 (xs @ x # zs)"
    and "unat (sec_start y) = unat (sec_start x)" "sec_free y = sec_free x"
    and "unat (sec_start z) = unat (sec_start x) + 4096 * unat (sec_pages y)"
    and "unat (sec_pages z) = 1" "sec_free z = f"
    and "chain (unat (sec_start z) + 4096) w" "\<forall>u \<in> set w. sec_free u = sec_free x"
    and "unat (sec_start z) + 4096 + 4096 * (\<Sum>u \<leftarrow> w. unat (sec_pages u)) =
      unat (sec_start x) + 4096 * unat (sec_pages x)"
  shows "page_state (xs @ y # z # w @ zs) = page_set (page_state (xs @ x # zs)) (unat (sec_start z)) f"
    and "tiles 0 (xs @ y # z # w @ zs)"
proof -
  have c: "chain 0 (xs @ [x])" using assms by (simp add: tiles_def)
  have ce: "chain_end (unat (sec_start z) + 4096) w = unat (sec_start x) + 4096 * unat (sec_pages x)"
    using assms(9) by (simp add: chain_end_total)
  have w: "page_state w a = Some (sec_free x)"
    if "unat (sec_start z) + 4096 \<le> a" "a < unat (sec_start x) + 4096 * unat (sec_pages x)" for a
  proof -
    have "page_state w a \<noteq> None"
      using page_state_None_iff [OF assms(7), of a] that ce by simp
    then obtain g where g: "page_state w a = Some g" by auto
    then show ?thesis using page_state_in_set [OF g] assms(8) by auto
  qed
  have ge: "unat (sec_start z) + 4096 \<le> unat (sec_start x) + 4096 * unat (sec_pages x)"
    using assms(9) by linarith
  note r = page_set_replace [of xs "[x]" zs "y # z # w" "unat (sec_start z)" f]
  show "page_state (xs @ y # z # w @ zs) = page_set (page_state (xs @ x # zs)) (unat (sec_start z)) f"
    and "tiles 0 (xs @ y # z # w @ zs)"
    using r assms(1-7) c ce w ge by (simp_all add: in_section_def page_set_def)
qed

section \<open>A small machine\<close>

text \<open>
  The first MiB, eight free pages, and one page that is out of use: an instance on which the
  hypotheses of the theorems about the manager hold.
\<close>

definition small_slots :: "nat \<Rightarrow> pmm_section" where
  "small_slots i =
     (if i = 0 then \<lparr>sec_prev = None, sec_next = Some 1, sec_start = 0, sec_pages = 256,
        sec_free = PMM_SECTION_BAD\<rparr>
      else if i = 1 then \<lparr>sec_prev = Some 0, sec_next = Some 2, sec_start = 0x100000, sec_pages = 8,
        sec_free = PMM_SECTION_FREE\<rparr>
      else if i = 2 then \<lparr>sec_prev = Some 1, sec_next = None, sec_start = 0x108000, sec_pages = 1,
        sec_free = PMM_SECTION_BAD\<rparr>
      else zero_section)"

definition small_memory :: pmm_state where
  "small_memory = \<lparr>pfa_allowing_allocations = True, free_memory = 0x8000, pmm_sections = Some 0,
     pmm_base = 0x100000, pmm_section_head = 3, pmm_data_size = 4000, estimated_total_memory = 0x4000000,
     slots = small_slots\<rparr>"

lemma small_memory_wf: "pmm_wf [0, 1, 2] small_memory"
  by (auto simp: pmm_wf_def pmm_links_def small_memory_def small_slots_def pmm_room_def tiles_def
      first_mib_def guarded_def bare_def zero_section_def)

end
