(* ===== verification/Pmm_Alloc.thy ===== *)
theory Pmm_Alloc
  imports Pmm_Inv
begin

text \<open>
  Taking a page: \<open>pmm_alloc_page\<close> keeps the section list well formed and returns the lowest free
  page of the memory map.
\<close>

section \<open>Changing a section in place\<close>

lemma pmm_links_fields:
  assumes "pmm_links is s"
    and "\<And>i. sec_prev (h i) = sec_prev (slots s i) \<and> sec_next (h i) = sec_next (slots s i)"
  shows "pmm_links is (s\<lparr>slots := h\<rparr>)"
  using assms dseg_cong [of "is" h "slots s" None None]
  by (simp add: pmm_links_def pmm_room_def)

lemma pmm_room_upd [simp]: "pmm_room k (s\<lparr>slots := h\<rparr>) = pmm_room k s"
  by (simp add: pmm_room_def)

lemma pmm_links_free_memory [simp]: "pmm_links is (s\<lparr>free_memory := m\<rparr>) = pmm_links is s"
  by (simp add: pmm_links_def pmm_room_def)

lemma pmm_wf_free_memory [simp]: "pmm_wf is (s\<lparr>free_memory := m\<rparr>) = pmm_wf is s"
  by (simp add: pmm_wf_def)

lemma pmm_room_free_memory [simp]: "pmm_room k (s\<lparr>free_memory := m\<rparr>) = pmm_room k s"
  by (simp add: pmm_room_def)

text \<open>An empty section between two others is unlinked and cleared.\<close>

lemma pmm_unlink_empty_run:
  assumes "pmm_links (as @ x # bs) s" and "as \<noteq> []" and "bs \<noteq> []"
  shows "\<exists>s'. pmm_unlink_empty (Some x) s = Some (Some (last as), s') \<and> pmm_links (as @ bs) s' \<and>
    pmm_frame s s' \<and> free_memory s' = free_memory s \<and>
    pmm_section_head s' = pmm_section_head s \<and>
    secs (slots s') as = secs (slots s) as \<and> secs (slots s') bs = secs (slots s) bs \<and>
    sec_next (slots s' (last as)) = hd_ptr bs None"
proof -
  obtain as' w where as: "as = as' @ [w]" using assms(2) by (cases as rule: rev_cases) auto
  obtain y bs' where bs: "bs = y # bs'" using assms(3) by (cases bs) auto
  show ?thesis
    using assms(1) unfolding as bs
    by (simp add: pmm_unlink_empty_def pmm_delete_section_def zero_section_def pmm_links_def
        pmm_room_def) 
qed

section \<open>Taking the first page of a free section\<close>

lemma unat_Suc_word:
  fixes p :: u64
  assumes "unat p + 1 < 2 ^ 64"
  shows "unat (p + 1) = Suc (unat p)"
  using unat_plus_nowrap [of p 1] assms by simp

lemma unat_page_after:
  fixes a :: u64
  assumes "unat a + 4096 < 2 ^ 64"
  shows "unat (a + 4096) = unat a + 4096"
  using unat_plus_nowrap [of a 4096] assms by simp

text \<open>The first free section of the list has \<open>n\<close> pages from \<open>a\<close> on.\<close>

definition first_free :: "nat list \<Rightarrow> 'z pmm_state_scheme \<Rightarrow> u64 \<Rightarrow> u64 \<Rightarrow> bool" where
  "first_free is s a n \<longleftrightarrow> (\<exists>i. List.find (\<lambda>i. sec_free (slots s i) = PMM_SECTION_FREE) is = Some i \<and>
     sec_start (slots s i) = a \<and> sec_pages (slots s i) = n)"

lemma first_freeI:
  "\<forall>y \<in> set (secs (slots s) as). sec_free y \<noteq> PMM_SECTION_FREE \<Longrightarrow> sec_free (slots s x) = PMM_SECTION_FREE \<Longrightarrow>
   first_free (as @ x # bs) s (sec_start (slots s x)) (sec_pages (slots s x))"
  unfolding first_free_def by (induction as) auto

lemma pmm_take_first_run:
  assumes wf: "pmm_wf (as @ x # bs) s" and room: "pmm_room (Suc r) s" and as: "as \<noteq> []"
    and bs: "bs \<noteq> []" and pages: "sec_pages (slots s x) \<noteq> 0"
  shows "\<exists>s' is'. pmm_take_first (Some x) s = Some (sec_start (slots s x), s') \<and> pmm_wf is' s' \<and>
    pmm_frame s s' \<and> pmm_room r s' \<and> free_memory s' = free_memory s \<and>
    page_state (secs (slots s') is') = page_set (page_state (secs (slots s) (as @ x # bs)))
      (unat (sec_start (slots s x))) PMM_SECTION_USED \<and>
    hd (secs (slots s') is') = hd (secs (slots s) as) \<and>
    last (secs (slots s') is') = last (secs (slots s) bs) \<and>
    (tight (as @ x # bs) s \<and> sec_pages (slots s x) \<noteq> 1 \<longrightarrow> tight is' s') \<and>
    (sec_pages (slots s x) \<noteq> 1 \<and> sec_free (slots s x) = PMM_SECTION_FREE \<and>
       (\<forall>y \<in> set (secs (slots s) as). sec_free y \<noteq> PMM_SECTION_FREE) \<longrightarrow>
     first_free is' s' (sec_start (slots s x) + 4096) (sec_pages (slots s x) - 1))"
proof -
  let ?x = "slots s x"
  obtain as' w where as': "as = as' @ [w]" using as by (cases as rule: rev_cases) auto
  have links: "pmm_links (as @ x # bs) s"
    and T: "tiles 0 (secs (slots s) as' @ bare (slots s w) # bare ?x # secs (slots s) bs)"
    and T': "tiles 0 (secs (slots s) as @ bare ?x # secs (slots s) bs)"
    and G: "first_mib (hd (secs (slots s) as))" "guarded (last (secs (slots s) bs))"
    using wf as' bs by (auto simp: pmm_wf_def hd_append)
  have d: "w \<notin> set as'" "x \<notin> set as'" "w \<noteq> x" "w \<notin> set bs" "x \<notin> set bs" "sec_prev ?x = Some w"
    using links as' by (auto simp: pmm_links_def)
  note t = tiles_at(1,2) [OF T', unfolded bare_sel] 
  note tw = tiles_at(1,2) [OF T, unfolded bare_sel] 
  have p0: "0 < unat (sec_pages ?x)" using pages by (simp add: unat_gt_0)
  have next_page: "unat (sec_start ?x + 4096) = unat (sec_start ?x) + 4096"
    by (rule unat_page_after) (use t p0 in linarith)
  show ?thesis
  proof (cases "sec_free (slots s w) = PMM_SECTION_USED")
    case True
    define h where "h = (slots s)(w := sec_pages_update (\<lambda>p. p + 1) (slots s w),
      x := sec_start_update (\<lambda>a. a + 4096) (sec_pages_update (\<lambda>p. p - 1) ?x))"
    have run: "pmm_take_first (Some x) s = Some (sec_start ?x, s\<lparr>slots := h\<rparr>)"
      using True d by (simp add: pmm_take_first_def h_def fun_upd_twist)
    have l: "pmm_links (as @ x # bs) (s\<lparr>slots := h\<rparr>)"
      by (rule pmm_links_fields [OF links]) (simp add: h_def)
    have e: "secs h as = secs (slots s) as' @ [sec_pages_update (\<lambda>p. p + 1) (bare (slots s w))]"
      "bare (h x) = sec_start_update (\<lambda>a. a + 4096) (sec_pages_update (\<lambda>p. p - 1) (bare ?x))"
      "secs h bs = secs (slots s) bs"
      using d unfolding as' h_def by simp_all
    have u: "unat (sec_pages (slots s w) + 1) = Suc (unat (sec_pages (slots s w)))"
      "unat (sec_start ?x + 4096) = unat (sec_start ?x) + 4096"
      "Suc (unat (sec_pages ?x - 1)) = unat (sec_pages ?x)"
      using tw p0 next_page by (auto intro!: unat_Suc_word simp: unat_pred pages)
    have S: "page_state (secs h (as @ x # bs)) = page_set (page_state (secs (slots s) (as @ x # bs)))
        (unat (sec_start ?x)) PMM_SECTION_USED"
      and Th: "tiles 0 (secs h (as @ x # bs))"
      using page_set_to_prev [OF T, of "sec_pages_update (\<lambda>p. p + 1) (bare (slots s w))"
          "sec_start_update (\<lambda>a. a + 4096) (sec_pages_update (\<lambda>p. p - 1) (bare ?x))"] u True
      by (simp_all add: e) (simp_all add: as')
    have "as' \<noteq> []" using G(1) True as' by (auto simp: first_mib_def)
    then have hd: "hd (secs h as) = hd (secs (slots s) as)"
      unfolding e unfolding as' by simp
    have "pmm_wf (as @ x # bs) (s\<lparr>slots := h\<rparr>)"
      using l Th G bs as by (simp add: pmm_wf_def hd_append hd) (simp add: e)
    moreover have "tight (as @ x # bs) (s\<lparr>slots := h\<rparr>)"
      if "tight (as @ x # bs) s" "sec_pages ?x \<noteq> 1"
      using that u(1) by (simp add: tight_def e) (auto simp: as' unat_eq_zero)
    moreover have "first_free (as @ x # bs) (s\<lparr>slots := h\<rparr>) (sec_start ?x + 4096) (sec_pages ?x - 1)"
      if "sec_free ?x = PMM_SECTION_FREE" "\<forall>y \<in> set (secs (slots s) as). sec_free y \<noteq> PMM_SECTION_FREE"
      using that first_freeI [of "s\<lparr>slots := h\<rparr>" as x bs] True by (simp add: e(1)) (simp add: as' h_def)
    ultimately show ?thesis using run S room as bs
      by (intro exI [of _ "s\<lparr>slots := h\<rparr>"] exI [of _ "as @ x # bs"])
         (simp add: pmm_room_def hd_append hd e(3))
  next
    case False
    show ?thesis
    proof (cases "sec_pages ?x = 1")
      case True
      define h where "h = (slots s)(x := ?x\<lparr>sec_free := PMM_SECTION_USED\<rparr>)"
      have "sec_start ?x + PAGING_PAGE_SIZE \<ge> sec_start ?x + sec_pages ?x * PAGING_PAGE_SIZE"
        using True by simp
      then have run: "pmm_take_first (Some x) s = Some (sec_start ?x, s\<lparr>slots := h\<rparr>)"
        using False d by (simp add: pmm_take_first_def pmm_section_split_def h_def)
      have l: "pmm_links (as @ x # bs) (s\<lparr>slots := h\<rparr>)"
        by (rule pmm_links_fields [OF links]) (simp add: h_def)
      have e: "secs h as = secs (slots s) as" "bare (h x) = bare ?x\<lparr>sec_free := PMM_SECTION_USED\<rparr>"
        "secs h bs = secs (slots s) bs"
        using d as' unfolding h_def by simp_all
      have S: "page_state (secs h (as @ x # bs)) = page_set (page_state (secs (slots s) (as @ x # bs)))
          (unat (sec_start ?x)) PMM_SECTION_USED"
        and Th: "tiles 0 (secs h (as @ x # bs))"
        using page_set_single [OF T', of PMM_SECTION_USED] True by (simp_all add: e)
      have "pmm_wf (as @ x # bs) (s\<lparr>slots := h\<rparr>)"
        using l Th G bs as by (simp add: pmm_wf_def e hd_append)
      then show ?thesis using run S room True as bs
        by (intro exI [of _ "s\<lparr>slots := h\<rparr>"] exI [of _ "as @ x # bs"])
           (simp add: pmm_room_def hd_append e(1,3))
    next
      case more: False
      let ?n = "unat (pmm_section_head s)"
      have "unat (sec_pages ?x) \<noteq> 1" using more by (metis unat_1 word_unat_eq_iff)
      then have k: "1 < unat (sec_pages ?x)" using p0 by linarith
      have le: "unat (sec_start ?x) + 4096 * unat (sec_pages ?x) < 2 ^ 64" using t by simp
      have at: "unat (sec_start ?x + 4096) = unat (sec_start ?x) + 4096 * 1"
        using next_page by simp
      from pmm_section_split_run [OF links room le at k] obtain s1 where
        split: "pmm_section_split (Some x) (sec_start ?x + PAGING_PAGE_SIZE) s = Some s1"
        and l1: "pmm_links (as @ x # ?n # bs) s1" and f1: "pmm_frame s s1" "pmm_room r s1"
          "free_memory s1 = free_memory s"
        and e1: "secs (slots s1) as = secs (slots s) as" "secs (slots s1) bs = secs (slots s) bs"
          "bare (slots s1 x) = bare ?x\<lparr>sec_pages := 1\<rparr>"
          "bare (slots s1 ?n) = bare ?x\<lparr>sec_start := sec_start ?x + 4096,
            sec_pages := sec_pages ?x - 1\<rparr>"
        by auto
      define h where "h = (slots s1)(x := (slots s1 x)\<lparr>sec_free := PMM_SECTION_USED\<rparr>)"
      have run: "pmm_take_first (Some x) s = Some (sec_start ?x, s1\<lparr>slots := h\<rparr>)"
        using False d split by (simp add: pmm_take_first_def h_def)
      have l: "pmm_links (as @ x # ?n # bs) (s1\<lparr>slots := h\<rparr>)"
        by (rule pmm_links_fields [OF l1]) (simp add: h_def)
      have d1: "x \<notin> set as" "x \<noteq> ?n" "x \<notin> set bs" using l1 by (auto simp: pmm_links_def)
      have e: "secs h as = secs (slots s) as"
        "bare (h x) = bare ?x\<lparr>sec_pages := 1, sec_free := PMM_SECTION_USED\<rparr>"
        "bare (h ?n) = bare ?x\<lparr>sec_start := sec_start ?x + 4096, sec_pages := sec_pages ?x - 1\<rparr>"
        "secs h bs = secs (slots s) bs"
        using d1 e1 unfolding h_def by simp_all
      have S: "page_state (secs h (as @ x # ?n # bs)) =
          page_set (page_state (secs (slots s) (as @ x # bs))) (unat (sec_start ?x)) PMM_SECTION_USED"
        and Th: "tiles 0 (secs h (as @ x # ?n # bs))"
        using page_set_first [OF T', of "bare ?x\<lparr>sec_pages := 1, sec_free := PMM_SECTION_USED\<rparr>"
            PMM_SECTION_USED "bare ?x\<lparr>sec_start := sec_start ?x + 4096, sec_pages := sec_pages ?x - 1\<rparr>"]
          at k pages by (simp_all add: e unat_pred)
      have "pmm_wf (as @ x # ?n # bs) (s1\<lparr>slots := h\<rparr>)"
        using l Th G bs as by (simp add: pmm_wf_def e hd_append)
      moreover have "tight (as @ x # ?n # bs) (s1\<lparr>slots := h\<rparr>)" if "tight (as @ x # bs) s"
        using that more unfolding tight_def by (auto simp: e)
      moreover have "first_free (as @ x # ?n # bs) (s1\<lparr>slots := h\<rparr>) (sec_start ?x + 4096) (sec_pages ?x - 1)"
        if "sec_free ?x = PMM_SECTION_FREE" "\<forall>y \<in> set (secs (slots s) as). sec_free y \<noteq> PMM_SECTION_FREE"
        using that first_freeI [of "s1\<lparr>slots := h\<rparr>" "as @ [x]" ?n bs] bare_sel [of "h ?n"]
        by (simp add: e)
      ultimately show ?thesis using run S f1 as bs
        by (intro exI [of _ "s1\<lparr>slots := h\<rparr>"] exI [of _ "as @ x # ?n # bs"])
           (simp add: hd_append e(1,4))
    qed
  qed
qed

section \<open>Taking a page\<close>

text \<open>
  The page at \<open>base\<close> was the lowest free one and is used now; every other address is as before.
  When no page is free the result is NULL and the map is unchanged.
\<close>

definition took_page :: "u64 \<Rightarrow> (nat \<Rightarrow> u64 option) \<Rightarrow> (nat \<Rightarrow> u64 option) \<Rightarrow> bool" where
  "took_page base m m' \<longleftrightarrow>
     (if base = 0 then m' = m \<and> (\<forall>a. m a \<noteq> Some PMM_SECTION_FREE)
      else m' = page_set m (unat base) PMM_SECTION_USED \<and>
        (\<forall>a. unat base \<le> a \<and> a < unat base + 4096 \<longrightarrow> m a = Some PMM_SECTION_FREE) \<and>
        (\<forall>a < unat base. m a \<noteq> Some PMM_SECTION_FREE))"

lemma page_state_nonfree:
  assumes "\<forall>x \<in> set xs. sec_free x \<noteq> PMM_SECTION_FREE"
  shows "page_state xs a \<noteq> Some PMM_SECTION_FREE"
  using assms page_state_in_set [of xs a PMM_SECTION_FREE] by auto

lemma page_state_first_free:
  assumes T: "tiles 0 (xs @ x # ys)" and "\<forall>w \<in> set xs. sec_free w \<noteq> PMM_SECTION_FREE"
    and "sec_free x = PMM_SECTION_FREE" and "sec_pages x \<noteq> 0"
  shows "unat (sec_start x) \<le> a \<and> a < unat (sec_start x) + 4096 \<longrightarrow>
      page_state (xs @ x # ys) a = Some PMM_SECTION_FREE"
    and "a < unat (sec_start x) \<Longrightarrow> page_state (xs @ x # ys) a \<noteq> Some PMM_SECTION_FREE"
proof -
  have c: "chain 0 xs" "unat (sec_start x) = chain_end 0 xs" using T by (simp_all add: tiles_def)
  have p: "0 < unat (sec_pages x)" using assms(4) by (simp add: unat_gt_0)
  show "unat (sec_start x) \<le> a \<and> a < unat (sec_start x) + 4096 \<longrightarrow>
      page_state (xs @ x # ys) a = Some PMM_SECTION_FREE"
    using c p assms(3) page_state_None_iff [OF c(1), of a]
    by (auto simp: page_state_append in_section_def)
  show "page_state (xs @ x # ys) a \<noteq> Some PMM_SECTION_FREE" if "a < unat (sec_start x)"
    using that c page_state_None_iff [OF c(1), of a] page_state_nonfree [OF assms(2), of a]
    by (auto simp: page_state_append split: option.splits)
qed

lemma chain_end_pos: "xs \<noteq> [] \<Longrightarrow> sec_pages (hd xs) \<noteq> 0 \<Longrightarrow> b < chain_end b xs"
  by (cases xs) (auto simp: chain_end_total unat_gt_0)

lemma pmm_alloc_scan_run:
  assumes "pmm_wf (as @ bs) s" and "pmm_room (Suc r) s" and "as \<noteq> []"
    and "\<forall>x \<in> set (secs (slots s) as). sec_free x \<noteq> PMM_SECTION_FREE"
  shows "\<exists>base s' is'. pmm_alloc_scan (hd_ptr bs None) s = Some (base, s') \<and> pmm_wf is' s' \<and>
    pmm_frame s s' \<and> pmm_room r s' \<and> free_memory s' = free_memory s \<and>
    took_page base (page_state (secs (slots s) (as @ bs))) (page_state (secs (slots s') is'))"
  using assms
proof (induction bs arbitrary: as s)
  case Nil
  then have "pmm_room r s" by (simp add: pmm_room_def)
  then show ?case
    using Nil page_state_nonfree [OF Nil.prems(4)]
    by (intro exI [of _ 0] exI [of _ s] exI [of _ as])
       (simp add: pmm_alloc_scan.simps took_page_def)
next
  case (Cons x bs)
  let ?x = "slots s x"
  have links: "pmm_links (as @ x # bs) s"
    and T: "tiles 0 (secs (slots s) as @ bare ?x # secs (slots s) bs)"
    using Cons.prems(1) by (simp_all add: pmm_wf_def)
  show ?case
  proof (cases "sec_pages ?x = 0")
    case True
    then have bs: "bs \<noteq> []"
      using Cons.prems(1) by (auto simp: pmm_wf_def guarded_def)
    from pmm_unlink_empty_run [OF links Cons.prems(3) bs] obtain s1 where
      run: "pmm_unlink_empty (Some x) s = Some (Some (last as), s1)"
      and l1: "pmm_links (as @ bs) s1" "pmm_frame s s1" "free_memory s1 = free_memory s"
        "pmm_section_head s1 = pmm_section_head s"
      and e: "secs (slots s1) as = secs (slots s) as" "secs (slots s1) bs = secs (slots s) bs"
      and nx: "sec_next (slots s1 (last as)) = hd_ptr bs None"
      by blast
    have "page_state (secs (slots s) (as @ x # bs)) = page_state (secs (slots s) (as @ bs))"
      using True by (auto simp: fun_eq_iff page_state_append in_section_def split: option.splits)
    moreover have "tiles 0 (secs (slots s1) (as @ bs))"
      using T True by (simp add: tiles_def e)
    moreover have "first_mib (hd (secs (slots s1) (as @ bs)))" "guarded (last (secs (slots s1) (as @ bs)))"
      using Cons.prems(1,3) bs by (simp_all add: pmm_wf_def hd_append e)
    moreover have "pmm_room (Suc r) s1"
      using Cons.prems(2) l1 by (simp add: pmm_room_def pmm_frame_def)
    ultimately show ?thesis
      using Cons.IH [of as s1] Cons.prems(3,4) l1 run nx True e pmm_frame_trans [OF l1(2)]
      by (auto simp: pmm_wf_def pmm_alloc_scan.simps [of "Some x"])
  next
    case pages: False
    show ?thesis
    proof (cases "sec_free ?x = PMM_SECTION_FREE")
      case True
      have "bs \<noteq> []"
        using Cons.prems(1) True by (auto simp: pmm_wf_def guarded_def)
      from pmm_take_first_run [OF Cons.prems(1-3) this pages] obtain s' is' where
        r: "pmm_take_first (Some x) s = Some (sec_start ?x, s')" "pmm_wf is' s'" "pmm_frame s s'"
          "pmm_room r s'" "free_memory s' = free_memory s"
        and S: "page_state (secs (slots s') is') = page_set (page_state (secs (slots s) (as @ x # bs)))
          (unat (sec_start ?x)) PMM_SECTION_USED"
        by blast
      have "unat (sec_start ?x) \<noteq> 0"
        using tiles_at(1) [OF T] chain_end_pos [of "secs (slots s) as" 0] Cons.prems(1,3)
        by (auto simp: pmm_wf_def hd_append first_mib_def)
      then have "sec_start ?x \<noteq> 0" by auto
      then have "took_page (sec_start ?x) (page_state (secs (slots s) (as @ x # bs)))
          (page_state (secs (slots s') is'))"
        using page_state_first_free [OF T Cons.prems(4)] True pages S
        by (simp add: took_page_def)
      then show ?thesis
        using r pages True by (auto simp: pmm_alloc_scan.simps [of "Some x"])
    next
      case False
      have "pmm_wf ((as @ [x]) @ bs) s" using Cons.prems(1) by simp
      from Cons.IH [OF this Cons.prems(2)] show ?thesis
        using Cons.prems(4) False pages links by (simp add: pmm_alloc_scan.simps [of "Some x"] pmm_links_def)
    qed
  qed
qed

lemma pmm_alloc_page_run:
  assumes "pmm_wf is s" and "pmm_room (Suc r) s" and "pfa_allowing_allocations s"
  shows "\<exists>base s' is'. pmm_alloc_page s = Some (base, s') \<and> pmm_wf is' s' \<and> pmm_frame s s' \<and>
    pmm_room r s' \<and>
    free_memory s' = (if base = 0 then free_memory s else free_memory s - PAGING_PAGE_SIZE) \<and>
    took_page base (page_state (secs (slots s) is)) (page_state (secs (slots s') is'))"
proof -
  obtain i js where i: "is = i # js" using assms(1) by (cases "is") (auto simp: pmm_wf_def pmm_links_def)
  have g: "first_mib (bare (slots s i))" and l: "pmm_links (i # js) s"
    using assms(1) i by (simp_all add: pmm_wf_def)
  have "pmm_wf ([i] @ js) s" using assms(1) i by simp
  from pmm_alloc_scan_run [OF this assms(2)] g obtain base s' is' where
    "pmm_alloc_scan (hd_ptr js None) s = Some (base, s')" "pmm_wf is' s'" "pmm_frame s s'"
    "pmm_room r s'" "free_memory s' = free_memory s"
    "took_page base (page_state (secs (slots s) is)) (page_state (secs (slots s') is'))"
    by (auto simp: first_mib_def i)
  then show ?thesis
    using assms(3) g l
    by (simp add: pmm_alloc_page_def pmm_links_def first_mib_def pmm_alloc_scan.simps [of "Some i"])
       (metis pmm_frame_upd(3) pmm_wf_free_memory pmm_room_free_memory)
qed

text \<open>Without empty sections, a page comes from the start of the first free one, and no section becomes empty.\<close>

lemma pmm_alloc_scan_tight:
  assumes "pmm_links (as @ bs) s" "tight (as @ bs) s" "as \<noteq> []"
    and "List.find (\<lambda>i. sec_free (slots s i) = PMM_SECTION_FREE) bs = Some x"
  shows "pmm_alloc_scan (hd_ptr bs None) s = pmm_take_first (Some x) s"
  using assms
proof (induction bs arbitrary: as)
  case (Cons y bs)
  have y: "sec_pages (slots s y) \<noteq> 0" using Cons.prems(2) by (auto simp: tight_def)
  show ?case
  proof (cases "sec_free (slots s y) = PMM_SECTION_FREE")
    case True
    then show ?thesis using Cons.prems(4) y by (simp add: pmm_alloc_scan.simps [of "Some x"])
  next
    case False
    then have "pmm_alloc_scan (hd_ptr bs None) s = pmm_take_first (Some x) s"
      using Cons.IH [of "as @ [y]"] Cons.prems by simp
    moreover have "sec_next (slots s y) = hd_ptr bs None" using Cons.prems(1) by (simp add: pmm_links_def)
    ultimately show ?thesis using False y by (simp add: pmm_alloc_scan.simps [of "Some y"])
  qed
qed simp

lemma pmm_alloc_page_first:
  assumes wf: "pmm_wf is s" "tight is s" "pmm_room (Suc r) s" "pfa_allowing_allocations s"
    and ff: "first_free is s a n" and n: "n \<noteq> 1"
  shows "\<exists>s' is'. pmm_alloc_page s = Some (a, s') \<and> pmm_wf is' s' \<and> tight is' s' \<and> pmm_frame s s' \<and> pmm_room r s' \<and>
    page_state (secs (slots s') is') = page_set (page_state (secs (slots s) is)) (unat a) PMM_SECTION_USED \<and>
    first_free is' s' (a + 4096) (n - 1)"
proof -
  obtain x where x: "List.find (\<lambda>i. sec_free (slots s i) = PMM_SECTION_FREE) is = Some x"
      "sec_start (slots s x) = a" "sec_pages (slots s x) = n" using ff by (auto simp: first_free_def)
  from find_split [OF x(1)] obtain as bs where sp: "is = as @ x # bs" "sec_free (slots s x) = PMM_SECTION_FREE"
      "\<forall>i \<in> set as. sec_free (slots s i) \<noteq> PMM_SECTION_FREE" by blast
  have n0: "n \<noteq> 0" using wf(2) x(3) by (auto simp: tight_def sp(1))
  have as: "as \<noteq> []" and bs: "bs \<noteq> []" using wf(1) sp(2) by (auto simp: sp(1) pmm_wf_def first_mib_def guarded_def)
  from pmm_take_first_run [OF wf(1) [unfolded sp(1)] wf(3) as bs] n0 obtain s' is' where
    r: "pmm_take_first (Some x) s = Some (a, s')" "pmm_wf is' s'" "pmm_frame s s'" "pmm_room r s'"
      "page_state (secs (slots s') is') = page_set (page_state (secs (slots s) is)) (unat a) PMM_SECTION_USED"
      "tight is s \<and> n \<noteq> 1 \<longrightarrow> tight is' s'"
      "n \<noteq> 1 \<and> (\<forall>y \<in> set (secs (slots s) as). sec_free y \<noteq> PMM_SECTION_FREE) \<longrightarrow> first_free is' s' (a + 4096) (n - 1)"
    unfolding x(2,3) sp(1) by (auto simp: sp(2))
  have links: "pmm_links ([] @ is) s" using wf(1) by (simp add: pmm_wf_def)
  obtain w as' where w: "as = w # as'" using as by (cases as) auto
  have "pmm_alloc_scan (pmm_sections s) s = pmm_take_first (Some x) s"
  proof -
    have 1: "sec_pages (slots s w) \<noteq> 0" "sec_free (slots s w) \<noteq> PMM_SECTION_FREE"
      using wf(2) sp(3) w by (auto simp: tight_def sp(1))
    have 2: "sec_next (slots s w) = hd_ptr (as' @ x # bs) None" "pmm_sections s = Some w"
      using links by (simp_all add: pmm_links_def sp(1) w)
    have "pmm_alloc_scan (hd_ptr (as' @ x # bs) None) s = pmm_take_first (Some x) s"
      using links wf(2) x(1) 1(2) by (intro pmm_alloc_scan_tight [of "[w]"]) (auto simp: sp(1) w)
    then show ?thesis using 1 2 by (simp add: pmm_alloc_scan.simps [of "Some w"])
  qed
  moreover have "a \<noteq> 0"
  proof -
    have "unat a = chain_end 0 (secs (slots s) as)" using wf(1) x(2) by (simp add: pmm_wf_def tiles_def sp(1))
    moreover have "0 < chain_end 0 (secs (slots s) as)"
      using wf(1) by (intro chain_end_pos) (simp_all add: pmm_wf_def first_mib_def sp(1) w)
    ultimately show ?thesis by auto
  qed
  ultimately have "pmm_alloc_page s = Some (a, s'\<lparr>free_memory := free_memory s' - PAGING_PAGE_SIZE\<rparr>)"
    using r(1) wf(4) by (simp add: pmm_alloc_page_def)
  moreover have "tight is' (s'\<lparr>free_memory := f\<rparr>) = tight is' s'" "first_free is' (s'\<lparr>free_memory := f\<rparr>) b k = first_free is' s' b k" for f b k
    by (simp_all add: tight_def first_free_def)
  ultimately show ?thesis
    using r wf(2) n sp(3) by (intro exI [of _ "s'\<lparr>free_memory := free_memory s' - PAGING_PAGE_SIZE\<rparr>"] exI [of _ is']) auto
qed

text \<open>C3:
  \<open>pmm_alloc_page\<close> on a well-formed section list with room for one more section returns: with the
  lowest free page of the memory map, which is marked as used and subtracted from
  \<open>free_memory\<close>, or with NULL and an unchanged map when there is none. All other pages keep their
  state and the list stays well formed.
\<close>

theorem pmm_alloc_page_takes_lowest:
  assumes "pmm_wf is s" and "pmm_room (Suc r) s" and "pfa_allowing_allocations s"
  shows "\<exists>base s' is'. pmm_alloc_page s = Some (base, s') \<and> pmm_wf is' s' \<and> pmm_frame s s' \<and>
    pmm_room r s' \<and>
    free_memory s' = (if base = 0 then free_memory s else free_memory s - PAGING_PAGE_SIZE) \<and>
    took_page base (page_state (secs (slots s) is)) (page_state (secs (slots s') is'))"
  using pmm_alloc_page_run [OF assms] .

lemma pmm_alloc_page_takes_lowest_witness:
  "\<exists>base s'. pmm_alloc_page small_memory = Some (base, s') \<and> base = 0x100000"
proof -
  have "\<exists>base s' is'. pmm_alloc_page small_memory = Some (base, s') \<and> pmm_wf is' s' \<and>
    pmm_frame small_memory s' \<and> pmm_room 0 s' \<and> free_memory s' = (if base = 0
      then free_memory small_memory else free_memory small_memory - PAGING_PAGE_SIZE) \<and>
    took_page base (page_state (secs (slots small_memory) [0, 1, 2])) (page_state (secs (slots s') is'))"
    by (rule pmm_alloc_page_takes_lowest [OF small_memory_wf])
       (simp_all add: small_memory_def pmm_room_def)
  then obtain base s' where run: "pmm_alloc_page small_memory = Some (base, s')" by blast
  moreover have "base = 0x100000"
    using run by (auto simp: pmm_alloc_page_def small_memory_def small_slots_def
        pmm_alloc_scan.simps pmm_take_first_def bind_eq_Some_conv)
  ultimately show ?thesis by blast
qed

end
