(* ===== verification/Pmm_Lock.thy ===== *)
theory Pmm_Lock
  imports Pmm_Alloc
begin

text \<open>
  Marking pages as used: \<open>pmm_lock_page\<close> and \<open>pmm_lock_pages\<close> change the state of exactly the pages
  they are given.
\<close>

section \<open>Combining neighbours\<close>

lemma page_state_merge:
  assumes "tiles 0 (xs @ x # y # zs)" and "sec_free x = sec_free y"
    and "unat (sec_start z) = unat (sec_start x)" "sec_free z = sec_free y"
    and "unat (sec_pages z) = unat (sec_pages x) + unat (sec_pages y)"
  shows "page_state (xs @ z # zs) = page_state (xs @ x # y # zs)" and "tiles 0 (xs @ z # zs)"
proof -
  have c: "chain 0 (xs @ [x, y] @ zs)" and c2: "chain 0 (xs @ [x, y])"
    using assms by (simp_all add: tiles_def)
  have cz: "chain (chain_end 0 xs) [z]"
    "chain_end (chain_end 0 xs) [z] = chain_end (chain_end 0 xs) [x, y]"
    using assms c2 by simp_all
  have c3: "chain (chain_end 0 xs) [x, y]" using c2 by simp
  have same: "page_state [z] a = page_state [x, y] a" for a
    using assms(2-5) c3 by (auto simp: in_section_def)
  have "page_state (xs @ [z] @ zs) a = page_state (xs @ [x, y] @ zs) a" for a
    using page_state_replace [OF c cz, of a] page_state_replace [OF c c3 refl, of a] same [of a]
    by (metis (full_types))
  then show "page_state (xs @ z # zs) = page_state (xs @ x # y # zs)"
    by (simp add: fun_eq_iff)
  show "tiles 0 (xs @ z # zs)"
    using tiles_replace [of 0 xs "[x, y]" zs "[z]"] assms(1) cz by simp
qed

lemma tiles_pages_add:
  assumes "tiles 0 (xs @ x # y # zs)"
  shows "unat (sec_pages x + sec_pages y) = unat (sec_pages x) + unat (sec_pages y)"
    and "unat (sec_pages y + sec_pages x) = unat (sec_pages x) + unat (sec_pages y)"
proof -
  have "4096 * (unat (sec_pages x) + unat (sec_pages y)) < 2 ^ 64"
    using assms tiles_at(2) [of 0 "xs @ [x]" y zs] by simp
  then have "unat (sec_pages x) + unat (sec_pages y) < 2 ^ LENGTH(64)" by simp
  from unat_plus_nowrap [OF this]
  show "unat (sec_pages x + sec_pages y) = unat (sec_pages x) + unat (sec_pages y)"
    and "unat (sec_pages y + sec_pages x) = unat (sec_pages x) + unat (sec_pages y)"
    by (simp_all add: add.commute)
qed

text \<open>
  A section is absorbed by the one behind it. It needs a section before it, whose link is written
  without a test.
\<close>

lemma pmm_combine_next_run:
  assumes "pmm_links (as @ x # y # bs) s" and "as \<noteq> []"
    and "sec_free (slots s x) = sec_free (slots s y)"
  shows "\<exists>s'. pmm_section_combine_next (Some x) s = Some s' \<and> pmm_links (as @ y # bs) s' \<and>
    pmm_frame s s' \<and> free_memory s' = free_memory s \<and>
    pmm_section_head s' = pmm_section_head s \<and>
    secs (slots s') as = secs (slots s) as \<and> secs (slots s') bs = secs (slots s) bs \<and>
    bare (slots s' y) = bare (slots s y)\<lparr>sec_start := sec_start (slots s x),
      sec_pages := sec_pages (slots s y) + sec_pages (slots s x)\<rparr>"
proof -
  obtain as' w where as: "as = as' @ [w]" using assms(2) by (cases as rule: rev_cases) auto
  show ?thesis
    using assms(1,3) unfolding as
    by (simp add: pmm_section_combine_next_def pmm_delete_section_def zero_section_def
        pmm_links_def pmm_room_def bare_def)
qed

lemma pmm_combine_prev_run:
  assumes "pmm_links (as @ w # x # bs) s" and "bs \<noteq> []"
    and "sec_free (slots s x) = sec_free (slots s w)"
  shows "\<exists>s'. pmm_section_combine_prev (Some x) s = Some s' \<and> pmm_links (as @ w # bs) s' \<and>
    pmm_frame s s' \<and> free_memory s' = free_memory s \<and>
    pmm_section_head s' = pmm_section_head s \<and>
    secs (slots s') as = secs (slots s) as \<and> secs (slots s') bs = secs (slots s) bs \<and>
    bare (slots s' w) = bare (slots s w)\<lparr>sec_pages := sec_pages (slots s w) + sec_pages (slots s x)\<rparr>"
proof -
  obtain y bs' where bs: "bs = y # bs'" using assms(2) by (cases bs) auto
  show ?thesis
    using assms(1,3) unfolding bs
    by (simp add: pmm_section_combine_prev_def pmm_delete_section_def zero_section_def
        pmm_links_def pmm_room_def bare_def)
qed

lemma pmm_combine_next_keeps:
  assumes wf: "pmm_wf (as @ x # y # bs) s" and "tight (as @ x # y # bs) s" and as: "as \<noteq> []"
    and free: "sec_free (slots s x) = sec_free (slots s y)" and "pmm_room r s"
  shows "\<exists>s'. pmm_section_combine_next (Some x) s = Some s' \<and> pmm_wf (as @ y # bs) s' \<and>
    tight (as @ y # bs) s' \<and> pmm_frame s s' \<and> pmm_room r s' \<and> free_memory s' = free_memory s \<and>
    page_state (secs (slots s') (as @ y # bs)) = page_state (secs (slots s) (as @ x # y # bs)) \<and>
    secs (slots s') as = secs (slots s) as \<and> secs (slots s') bs = secs (slots s) bs \<and>
    sec_free (slots s' y) = sec_free (slots s y)"
proof -
  have T: "tiles 0 (secs (slots s) as @ bare (slots s x) # bare (slots s y) # secs (slots s) bs)"
    and links: "pmm_links (as @ x # y # bs) s"
    using wf by (simp_all add: pmm_wf_def)
  from pmm_combine_next_run [OF links as free] obtain s' where
    r: "pmm_section_combine_next (Some x) s = Some s'" "pmm_links (as @ y # bs) s'"
      "pmm_frame s s'" "free_memory s' = free_memory s" "pmm_section_head s' = pmm_section_head s"
    and e: "secs (slots s') as = secs (slots s) as" "secs (slots s') bs = secs (slots s) bs"
      "bare (slots s' y) = bare (slots s y)\<lparr>sec_start := sec_start (slots s x),
        sec_pages := sec_pages (slots s y) + sec_pages (slots s x)\<rparr>"
    by blast
  have f: "sec_free (slots s' y) = sec_free (slots s y)"
    using arg_cong [OF e(3), of sec_free] by simp
  note add = tiles_pages_add(2) [OF T, simplified]
  have p: "sec_pages (slots s y) \<noteq> 0" "sec_pages (slots s y) + sec_pages (slots s x) \<noteq> 0"
    using assms(2) add by (auto simp: tight_def unat_eq_zero)
  note m = page_state_merge [OF T, of "bare (slots s' y)"]
  have "pmm_wf (as @ y # bs) s'"
    using m r e free add p wf as by (auto simp: pmm_wf_def hd_append guarded_def)
  moreover have "tight (as @ y # bs) s'"
    unfolding tight_def secs_simps e using assms(2) p by (simp add: tight_def)
  moreover have "page_state (secs (slots s') (as @ y # bs)) =
      page_state (secs (slots s) (as @ x # y # bs))"
    using m free add by (simp add: e)
  ultimately show ?thesis
    using r e(1,2) f assms(5) by (simp add: pmm_room_def pmm_frame_def)
qed

lemma pmm_combine_prev_keeps:
  assumes wf: "pmm_wf (as @ w # x # bs) s" and "tight (as @ w # x # bs) s" and bs: "bs \<noteq> []"
    and as: "as \<noteq> []" and free: "sec_free (slots s x) = sec_free (slots s w)" and "pmm_room r s"
  shows "\<exists>s'. pmm_section_combine_prev (Some x) s = Some s' \<and> pmm_wf (as @ w # bs) s' \<and>
    tight (as @ w # bs) s' \<and> pmm_frame s s' \<and> pmm_room r s' \<and> free_memory s' = free_memory s \<and>
    page_state (secs (slots s') (as @ w # bs)) = page_state (secs (slots s) (as @ w # x # bs)) \<and>
    secs (slots s') as = secs (slots s) as \<and> secs (slots s') bs = secs (slots s) bs"
proof -
  have T: "tiles 0 (secs (slots s) as @ bare (slots s w) # bare (slots s x) # secs (slots s) bs)"
    and links: "pmm_links (as @ w # x # bs) s"
    using wf by (simp_all add: pmm_wf_def)
  from pmm_combine_prev_run [OF links bs free] obtain s' where
    r: "pmm_section_combine_prev (Some x) s = Some s'" "pmm_links (as @ w # bs) s'"
      "pmm_frame s s'" "free_memory s' = free_memory s" "pmm_section_head s' = pmm_section_head s"
    and e: "secs (slots s') as = secs (slots s) as" "secs (slots s') bs = secs (slots s) bs"
      "bare (slots s' w) = bare (slots s w)\<lparr>sec_pages := sec_pages (slots s w) + sec_pages (slots s x)\<rparr>"
    by blast
  note add = tiles_pages_add(1) [OF T, simplified]
  have p: "sec_pages (slots s w) \<noteq> 0" "sec_pages (slots s w) + sec_pages (slots s x) \<noteq> 0"
    using assms(2) add by (auto simp: tight_def unat_eq_zero)
  note m = page_state_merge [OF T, of "bare (slots s' w)"]
  have "pmm_wf (as @ w # bs) s'"
    using m r e free add p wf as bs by (auto simp: pmm_wf_def hd_append guarded_def)
  moreover have "tight (as @ w # bs) s'"
    unfolding tight_def secs_simps e using assms(2) p by (simp add: tight_def)
  moreover have "page_state (secs (slots s') (as @ w # bs)) =
      page_state (secs (slots s) (as @ w # x # bs))"
    using m free add by (simp add: e)
  ultimately show ?thesis
    using r e(1,2) assms(6) by (simp add: pmm_room_def pmm_frame_def)
qed

section \<open>One page of its own\<close>

text \<open>What locking a page achieves; only the last section's start can move, to a page before it.\<close>

definition page_locked ::
    "u64 \<Rightarrow> nat \<Rightarrow> nat list \<Rightarrow> 'z pmm_state_scheme \<Rightarrow> nat list \<Rightarrow> 'z pmm_state_scheme \<Rightarrow> bool" where
  "page_locked page r is s is' s' \<longleftrightarrow>
     pmm_wf is' s' \<and> tight is' s' \<and> pmm_frame s s' \<and> pmm_room r s' \<and>
     free_memory s' = free_memory s \<and>
     page_state (secs (slots s') is') =
       page_set (page_state (secs (slots s) is)) (unat page) PMM_SECTION_USED \<and>
     hd (secs (slots s') is') = hd (secs (slots s) is) \<and>
     (sec_start (last (secs (slots s') is')) = sec_start (last (secs (slots s) is)) \<or>
      unat page + 4096 = unat (sec_start (last (secs (slots s) is))))"

lemma pmm_lock_single_run:
  assumes wf: "pmm_wf (as @ x # bs) s" and ti: "tight (as @ x # bs) s" and room: "pmm_room r s"
    and as: "as \<noteq> []" and bs: "bs \<noteq> []" and one: "sec_pages (slots s x) = 1"
  shows "\<exists>s' is'. pmm_lock_single (Some x) s = Some s' \<and>
    page_locked (sec_start (slots s x)) r (as @ x # bs) s is' s'"
proof -
  let ?x = "slots s x"
  obtain as' w where as': "as = as' @ [w]" using as by (cases as rule: rev_cases) auto
  obtain y bs' where bs': "bs = y # bs'" using bs by (cases bs) auto
  have links: "pmm_links (as @ x # bs) s"
    and T: "tiles 0 (secs (slots s) as @ bare ?x # secs (slots s) bs)"
    using wf by (simp_all add: pmm_wf_def)
  have d: "w \<noteq> x" "x \<noteq> y" "x \<notin> set as" "x \<notin> set bs" "sec_prev ?x = Some w" "sec_next ?x = Some y"
    using links as' bs' by (auto simp: pmm_links_def)
  define s0 where "s0 = s\<lparr>slots := (slots s)(x := ?x\<lparr>sec_free := PMM_SECTION_USED\<rparr>)\<rparr>"
  have e: "secs (slots s0) as = secs (slots s) as" "secs (slots s0) bs = secs (slots s) bs"
    "bare (slots s0 x) = bare ?x\<lparr>sec_free := PMM_SECTION_USED\<rparr>"
    using d by (simp_all add: s0_def)
  have l0: "pmm_links (as @ x # bs) s0"
    unfolding s0_def by (rule pmm_links_fields [OF links]) simp
  have S: "page_state (secs (slots s0) (as @ x # bs)) =
      page_set (page_state (secs (slots s) (as @ x # bs))) (unat (sec_start ?x)) PMM_SECTION_USED"
    and T0: "tiles 0 (secs (slots s0) (as @ x # bs))"
    using page_set_single [OF T, of PMM_SECTION_USED] one by (simp_all add: e)
  have wf0: "pmm_wf (as @ x # bs) s0"
    using l0 T0 wf as bs by (simp add: pmm_wf_def e hd_append)
  have ti0: "tight (as @ x # bs) s0"
    unfolding tight_def secs_simps e using ti one by (simp add: tight_def)
  have f0: "pmm_frame s s0" "free_memory s0 = free_memory s" "pmm_room r s0"
    using room by (simp_all add: s0_def)
  have last_y: "bs' = [] \<Longrightarrow> unat (sec_start ?x) + 4096 = unat (sec_start (slots s y))"
    using T one by (simp add: bs' tiles_def)
  have head_w: "as' \<noteq> []" if "sec_free (slots s w) = PMM_SECTION_USED"
    using wf that as' by (auto simp: pmm_wf_def first_mib_def)
  have free0: "sec_free (slots s0 x) = PMM_SECTION_USED" "sec_free (slots s0 y) = sec_free (slots s y)"
    "sec_free (slots s0 w) = sec_free (slots s w)"
    using d by (simp_all add: s0_def)
  have p0: "sec_prev (slots s0 x) = Some w" "sec_next (slots s0 x) = Some y"
    using d by (simp_all add: s0_def)
  have step: "pmm_lock_single (Some x) s =
      (if sec_free (slots s w) = PMM_SECTION_USED \<and> sec_free (slots s y) = PMM_SECTION_USED
       then pmm_section_combine_next (Some x) s0 \<bind> pmm_section_combine_next (Some w)
       else if sec_free (slots s w) = PMM_SECTION_USED then pmm_section_combine_prev (Some x) s0
       else if sec_free (slots s y) = PMM_SECTION_USED then pmm_section_combine_next (Some x) s0
       else Some s0)"
    using free0 p0 by (simp add: pmm_lock_single_def s0_def [symmetric])
  have kept: "page_locked (sec_start ?x) r (as @ x # bs) s js s'"
    if "pmm_wf js s'" "tight js s'" "pmm_frame s0 s'" "pmm_room r s'" "free_memory s' = free_memory s0"
      "page_state (secs (slots s') js) = page_state (secs (slots s0) (as @ x # bs))"
      "hd (secs (slots s') js) = hd (secs (slots s0) as)"
      "bs' \<noteq> [] \<Longrightarrow> last (secs (slots s') js) = last (secs (slots s0) bs')" for js s'
    using that S f0 last_y e as bs pmm_frame_trans [of s s0 s']
    by (cases "bs' = []") (auto simp: page_locked_def bs' hd_append)
  show ?thesis
  proof (cases "sec_free (slots s w) = PMM_SECTION_USED")
    case w: True
    then have as'0: "as' \<noteq> []" by (rule head_w)
    show ?thesis
    proof (cases "sec_free (slots s y) = PMM_SECTION_USED")
      case y: True
      have "sec_free (slots s0 x) = sec_free (slots s0 y)" using free0 y by simp
      from pmm_combine_next_keeps [OF wf0 [unfolded bs'] ti0 [unfolded bs'] as this f0(3)]
      obtain s1 where c1: "pmm_section_combine_next (Some x) s0 = Some s1" "pmm_wf (as @ y # bs') s1"
          "tight (as @ y # bs') s1" "pmm_frame s0 s1" "pmm_room r s1" "free_memory s1 = free_memory s0"
          "page_state (secs (slots s1) (as @ y # bs')) = page_state (secs (slots s0) (as @ x # bs))"
        and e1: "secs (slots s1) as = secs (slots s0) as" "secs (slots s1) bs' = secs (slots s0) bs'"
          "sec_free (slots s1 y) = sec_free (slots s0 y)"
        unfolding bs' by blast
      have e1': "secs (slots s1) as' = secs (slots s0) as'" "bare (slots s1 w) = bare (slots s0 w)"
        using e1(1) by (simp_all add: as')
      have "sec_free (slots s1 w) = sec_free (slots s1 y)"
        using arg_cong [OF e1'(2), of sec_free] e1(3) free0 w y by simp
      from pmm_combine_next_keeps [OF c1(2) [unfolded as' append_assoc append_Cons append_Nil]
          c1(3) [unfolded as' append_assoc append_Cons append_Nil] as'0 this c1(5)]
      obtain s2 where c2: "pmm_section_combine_next (Some w) s1 = Some s2" "pmm_wf (as' @ y # bs') s2"
          "tight (as' @ y # bs') s2" "pmm_frame s1 s2" "pmm_room r s2" "free_memory s2 = free_memory s1"
          "page_state (secs (slots s2) (as' @ y # bs')) = page_state (secs (slots s1) (as @ y # bs'))"
        and e2: "secs (slots s2) as' = secs (slots s1) as'" "secs (slots s2) bs' = secs (slots s1) bs'"
        unfolding as' append_assoc append_Cons append_Nil by blast
      have "page_locked (sec_start ?x) r (as @ x # bs) s (as' @ y # bs') s2"
        by (rule kept) (use c1 c2 e1 e1' e2 as'0 pmm_frame_trans [OF c1(4) c2(4)] in
            \<open>simp_all add: hd_append as'\<close>)
      then show ?thesis using step w y c1(1) c2(1) by auto
    next
      case y: False
      have "sec_free (slots s0 x) = sec_free (slots s0 w)" using free0 w by simp
      from pmm_combine_prev_keeps [OF wf0 [unfolded as' append_assoc append_Cons append_Nil]
          ti0 [unfolded as' append_assoc append_Cons append_Nil] bs as'0 this f0(3)]
      obtain s1 where c1: "pmm_section_combine_prev (Some x) s0 = Some s1" "pmm_wf (as' @ w # bs) s1"
          "tight (as' @ w # bs) s1" "pmm_frame s0 s1" "pmm_room r s1" "free_memory s1 = free_memory s0"
          "page_state (secs (slots s1) (as' @ w # bs)) = page_state (secs (slots s0) (as @ x # bs))"
        and e1: "secs (slots s1) as' = secs (slots s0) as'" "secs (slots s1) bs = secs (slots s0) bs"
        unfolding as' append_assoc append_Cons append_Nil by blast
      have "page_locked (sec_start ?x) r (as @ x # bs) s (as' @ w # bs) s1"
        by (rule kept) (use c1 e1 as'0 bs' in \<open>simp_all add: hd_append as'\<close>)
      then show ?thesis using step w y c1(1) by auto
    qed
  next
    case w: False
    show ?thesis
    proof (cases "sec_free (slots s y) = PMM_SECTION_USED")
      case y: True
      have "sec_free (slots s0 x) = sec_free (slots s0 y)" using free0 y by simp
      from pmm_combine_next_keeps [OF wf0 [unfolded bs'] ti0 [unfolded bs'] as this f0(3)]
      obtain s1 where c1: "pmm_section_combine_next (Some x) s0 = Some s1" "pmm_wf (as @ y # bs') s1"
          "tight (as @ y # bs') s1" "pmm_frame s0 s1" "pmm_room r s1" "free_memory s1 = free_memory s0"
          "page_state (secs (slots s1) (as @ y # bs')) = page_state (secs (slots s0) (as @ x # bs))"
        and e1: "secs (slots s1) as = secs (slots s0) as" "secs (slots s1) bs' = secs (slots s0) bs'"
        unfolding bs' by blast
      have "page_locked (sec_start ?x) r (as @ x # bs) s (as @ y # bs') s1"
        by (rule kept) (use c1 e1 as in \<open>simp_all add: hd_append\<close>)
      then show ?thesis using step w y c1(1) by auto
    next
      case y: False
      have "page_locked (sec_start ?x) r (as @ x # bs) s (as @ x # bs) s0"
        by (rule kept) (use wf0 ti0 f0 as bs' in \<open>simp_all add: hd_append\<close>)
      then show ?thesis using step w y by auto
    qed
  qed
qed

section \<open>The first page of a longer section\<close>

lemma page_set_noop:
  assumes "\<And>b. a \<le> b \<Longrightarrow> b < a + 4096 \<Longrightarrow> m b = Some f"
  shows "page_set m a f = m"
  using assms by (auto simp: page_set_def)

lemma page_state_at:
  assumes "tiles 0 (xs @ x # ys)" and "in_section x a"
  shows "page_state (xs @ x # ys) a = Some (sec_free x)"
proof -
  have c: "chain 0 xs" and "chain_end 0 xs \<le> a"
    using assms by (auto simp: tiles_def in_section_def)
  then show ?thesis using assms(2) page_state_None_iff [OF c, of a]
    by (auto simp: page_state_append split: option.splits)
qed

lemma pmm_lock_at_start_take:
  "pmm_lock_at_start (Some x) s =
     (if sec_free (slots s x) = PMM_SECTION_USED then Some s
      else map_option snd (pmm_take_first (Some x) s))"
  by (simp add: pmm_lock_at_start_def pmm_take_first_def Option.map_conv_bind_option o_def cong: if_cong)

lemma pmm_room_mono: "pmm_room k s \<Longrightarrow> j \<le> k \<Longrightarrow> pmm_room j s"
  by (simp add: pmm_room_def)

lemma pmm_lock_at_start_run:
  assumes wf: "pmm_wf (as @ x # bs) s" and ti: "tight (as @ x # bs) s" and room: "pmm_room (Suc r) s"
    and as: "as \<noteq> []" and bs: "bs \<noteq> []" and more: "sec_pages (slots s x) \<noteq> 1"
  shows "\<exists>s' is'. pmm_lock_at_start (Some x) s = Some s' \<and>
    page_locked (sec_start (slots s x)) r (as @ x # bs) s is' s'"
proof (cases "sec_free (slots s x) = PMM_SECTION_USED")
  case True
  have T: "tiles 0 (secs (slots s) as @ bare (slots s x) # secs (slots s) bs)"
    using wf by (simp add: pmm_wf_def)
  have p: "0 < unat (sec_pages (slots s x))" using ti by (simp add: tight_def unat_gt_0)
  have "page_set (page_state (secs (slots s) (as @ x # bs))) (unat (sec_start (slots s x)))
      PMM_SECTION_USED = page_state (secs (slots s) (as @ x # bs))"
    using page_state_at [OF T] True p by (intro page_set_noop) (simp add: in_section_def)
  then have "page_locked (sec_start (slots s x)) r (as @ x # bs) s (as @ x # bs) s"
    using wf ti pmm_room_mono [OF room, of r] by (simp add: page_locked_def)
  then show ?thesis using True by (auto simp: pmm_lock_at_start_take)
next
  case False
  have "sec_pages (slots s x) \<noteq> 0" using ti by (simp add: tight_def)
  from pmm_take_first_run [OF wf room as bs this] obtain s' is' where
    t: "pmm_take_first (Some x) s = Some (sec_start (slots s x), s')" "pmm_wf is' s'"
      "pmm_frame s s'" "pmm_room r s'" "free_memory s' = free_memory s"
      "page_state (secs (slots s') is') = page_set (page_state (secs (slots s) (as @ x # bs)))
        (unat (sec_start (slots s x))) PMM_SECTION_USED"
      "hd (secs (slots s') is') = hd (secs (slots s) as)"
      "last (secs (slots s') is') = last (secs (slots s) bs)" "tight is' s'"
    using ti more by blast
  have "page_locked (sec_start (slots s x)) r (as @ x # bs) s is' s'"
    using t as bs by (simp add: page_locked_def hd_append)
  with t(1) show ?thesis using False by (auto simp: pmm_lock_at_start_take)
qed

section \<open>A page inside a section\<close>

lemma pmm_lock_scan_past:
  assumes "dseg (slots s) p rest None" and "\<forall>i \<in> set rest. page < sec_start (slots s i)"
  shows "pmm_lock_scan (hd_ptr rest None) page s = Some s"
  using assms
proof (induction rest arbitrary: p)
  case Nil
  then show ?case by (simp add: pmm_lock_scan.simps)
next
  case (Cons i rest)
  have "sec_start (slots s i) \<noteq> page" "\<not> sec_start (slots s i) < page" using Cons.prems by auto
  then show ?case using Cons
    by (auto simp: pmm_lock_scan.simps [of "Some i"] pmm_page_inside_def)
qed

lemma starts_after:
  assumes "pmm_wf (as @ x # bs) s" and "i \<in> set bs"
  shows "unat (sec_start (slots s x)) + 4096 * unat (sec_pages (slots s x)) \<le>
    unat (sec_start (slots s i))"
proof -
  obtain us vs where bs: "bs = us @ i # vs" using assms(2) split_list by metis
  have T: "tiles 0 ((secs (slots s) as @ [bare (slots s x)] @ secs (slots s) us) @
      bare (slots s i) # secs (slots s) vs)"
    using assms(1) by (simp add: pmm_wf_def bs)
  have "unat (sec_start (slots s x)) = chain_end 0 (secs (slots s) as)"
    using T by (simp add: tiles_def)
  then show ?thesis using tiles_at(1) [OF T] by (simp add: chain_end_ge)
qed

text \<open>What the code does after a page inside a section: it walks on to the end of the list.\<close>

definition inside_done ::
    "u64 \<Rightarrow> nat \<Rightarrow> nat list \<Rightarrow> 'z pmm_state_scheme \<Rightarrow> nat option \<Rightarrow> 'z pmm_state_scheme \<Rightarrow> bool" where
  "inside_done page r is s sel s' \<longleftrightarrow>
     (\<exists>is'. page_locked page r is s is' s') \<and>
     (\<exists>i. sel = Some i \<and> pmm_lock_scan (sec_next (slots s' i)) page s' = Some s')"

lemma pmm_lock_inside_to_next:
  assumes wf: "pmm_wf (as @ x # y # bs) s" and ti: "tight (as @ x # y # bs) s"
    and room: "pmm_room r s" and as: "as \<noteq> []"
    and at: "unat page = unat (sec_start (slots s x)) + 4096 * k"
    and k: "0 < k" "Suc k = unat (sec_pages (slots s x))"
    and free: "sec_free (slots s y) = PMM_SECTION_USED"
  shows "\<exists>sel s'. pmm_lock_inside (Some x) page s = Some (sel, s') \<and>
    inside_done page r (as @ x # y # bs) s sel s'"
proof -
  let ?x = "slots s x" and ?y = "slots s y"
  have links: "pmm_links (as @ x # y # bs) s"
    and T: "tiles 0 (secs (slots s) as @ bare ?x # bare ?y # secs (slots s) bs)"
    using wf by (simp_all add: pmm_wf_def)
  have d: "x \<noteq> y" "x \<notin> set as" "x \<notin> set bs" "y \<notin> set as" "y \<notin> set bs" "sec_next ?x = Some y"
    "sec_next ?y = hd_ptr bs None"
    using links by (auto simp: pmm_links_def)
  have ys: "unat (sec_start ?y) = unat page + 4096"
    using T at k(2) [symmetric] by (simp add: tiles_def)
  have yp: "unat (sec_start ?y - 4096) = unat page"
    using ys by (subst unat_minus_nowrap) simp_all
  then have yp': "sec_start ?y - 4096 = page" by (simp only: word_unat_eq_iff)
  have ps: "Suc (unat (sec_pages ?x - 1)) = unat (sec_pages ?x)"
    using k by (subst unat_pred) auto
  have pa: "unat (sec_pages ?y + 1) = Suc (unat (sec_pages ?y))"
    using tiles_at(2) [of 0 "secs (slots s) as @ [bare ?x]" "bare ?y" "secs (slots s) bs"] T
    by (intro unat_Suc_word) simp
  define h where "h = (slots s)(y := sec_pages_update (\<lambda>p. p + 1)
      (sec_start_update (\<lambda>a. a - 4096) ?y), x := sec_pages_update (\<lambda>p. p - 1) ?x)"
  have run: "pmm_lock_inside (Some x) page s = Some (Some x, s\<lparr>slots := h\<rparr>)"
    using d yp' free by (simp add: pmm_lock_inside_def h_def fun_upd_twist)
  have e: "secs h as = secs (slots s) as" "secs h bs = secs (slots s) bs"
    "bare (h x) = sec_pages_update (\<lambda>p. p - 1) (bare ?x)"
    "bare (h y) = sec_pages_update (\<lambda>p. p + 1) (sec_start_update (\<lambda>a. a - 4096) (bare ?y))"
    using d by (simp_all add: h_def)
  have l: "pmm_links (as @ x # y # bs) (s\<lparr>slots := h\<rparr>)"
    by (rule pmm_links_fields [OF links]) (simp add: h_def)
  have yp0: "sec_pages ?y + 1 \<noteq> 0" "sec_pages ?y + 1 \<noteq> 1" "sec_pages ?x - 1 \<noteq> 0"
    using pa ps k ti by (auto simp: tight_def unat_eq_zero)
  have S: "page_state (secs h (as @ x # y # bs)) =
      page_set (page_state (secs (slots s) (as @ x # y # bs))) (unat page) PMM_SECTION_USED"
    and Th: "tiles 0 (secs h (as @ x # y # bs))"
    using page_set_to_next [OF T, of "bare (h x)" "bare (h y)"] ps pa yp ys free
    by (simp_all add: e)
  have "pmm_wf (as @ x # y # bs) (s\<lparr>slots := h\<rparr>)"
    using l Th wf as yp0 by (auto simp: pmm_wf_def e hd_append guarded_def)
  moreover have "tight (as @ x # y # bs) (s\<lparr>slots := h\<rparr>)"
    using ti yp0 by (simp add: tight_def e del: set_secs)
  ultimately have "page_locked page r (as @ x # y # bs) s (as @ x # y # bs) (s\<lparr>slots := h\<rparr>)"
    using S room as ys by (auto simp: page_locked_def hd_append e)
  moreover have "pmm_lock_scan (Some y) page (s\<lparr>slots := h\<rparr>) = Some (s\<lparr>slots := h\<rparr>)"
    using yp' free yp0 d by (simp add: pmm_lock_scan.simps [of "Some y"] h_def pmm_lock_at_start_def)
  ultimately show ?thesis
    using run d by (auto simp: inside_done_def h_def)
qed

lemma inside_doneI:
  assumes "page_locked page r is s (us @ i # rest) s'"
    and "\<forall>j \<in> set rest. page < sec_start (slots s' j)"
  shows "inside_done page r is s (Some i) s'"
proof -
  have l: "dseg (slots s') None (us @ i # rest) None"
    using assms(1) by (simp add: page_locked_def pmm_wf_def pmm_links_def)
  then have "dseg (slots s') (Some i) rest None" and "sec_next (slots s' i) = hd_ptr rest None"
    by simp_all
  with pmm_lock_scan_past [OF this(1) assms(2)] assms(1) show ?thesis
    by (auto simp: inside_done_def)
qed

lemma pmm_lock_inside_last:
  assumes wf: "pmm_wf (as @ x # y # bs) s" and ti: "tight (as @ x # y # bs) s"
    and room: "pmm_room (Suc r) s" and as: "as \<noteq> []"
    and at: "unat page = unat (sec_start (slots s x)) + 4096 * k"
    and k: "0 < k" "Suc k = unat (sec_pages (slots s x))"
    and free: "sec_free (slots s y) \<noteq> PMM_SECTION_USED"
  shows "\<exists>sel s'. pmm_lock_inside (Some x) page s = Some (sel, s') \<and>
    inside_done page r (as @ x # y # bs) s sel s'"
proof -
  let ?x = "slots s x" and ?n = "unat (pmm_section_head s)"
  have links: "pmm_links (as @ x # y # bs) s"
    and T: "tiles 0 (secs (slots s) as @ bare ?x # secs (slots s) (y # bs))"
    using wf by (simp_all add: pmm_wf_def)
  have nx: "sec_next ?x = Some y"
    using links by (auto simp: pmm_links_def)
  have ys: "unat (sec_start (slots s y)) = unat page + 4096"
    using T at k(2) [symmetric] by (simp add: tiles_def)
  then have "unat (sec_start (slots s y) - 4096) = unat page"
    by (subst unat_minus_nowrap) simp_all
  then have yp: "sec_start (slots s y) - 4096 = page" by (simp only: word_unat_eq_iff)
  have le: "unat (sec_start ?x) + 4096 * unat (sec_pages ?x) < 2 ^ 64"
    using tiles_at(1,2) [OF T] by simp
  have kp: "k < unat (sec_pages ?x)" using k by simp
  note w = split_words(5,6) [OF le at kp]
  from pmm_section_split_run [OF links room le at kp] obtain s1 where
    split: "pmm_section_split (Some x) page s = Some s1"
    and l1: "pmm_links (as @ x # ?n # y # bs) s1" and f1: "pmm_frame s s1" "pmm_room r s1"
      "free_memory s1 = free_memory s"
    and e1: "secs (slots s1) as = secs (slots s) as"
      "secs (slots s1) (y # bs) = secs (slots s) (y # bs)"
      "bare (slots s1 x) = bare ?x\<lparr>sec_pages := of_nat k\<rparr>"
      "bare (slots s1 ?n) = bare ?x\<lparr>sec_start := page, sec_pages := sec_pages ?x - of_nat k\<rparr>"
    by blast
  have n1: "sec_next (slots s1 x) = Some ?n" and d1: "?n \<notin> set as" "x \<noteq> ?n" "y \<noteq> ?n" "?n \<notin> set bs"
    using l1 by (auto simp: pmm_links_def)
  define h where "h = (slots s1)(?n := (slots s1 ?n)\<lparr>sec_free := PMM_SECTION_USED\<rparr>)"
  have run: "pmm_lock_inside (Some x) page s = Some (Some ?n, s1\<lparr>slots := h\<rparr>)"
    using nx yp free split n1 by (simp add: pmm_lock_inside_def h_def)
  have l: "pmm_links (as @ x # ?n # y # bs) (s1\<lparr>slots := h\<rparr>)"
    by (rule pmm_links_fields [OF l1]) (simp add: h_def)
  have e: "secs h as = secs (slots s) as" "secs h bs = secs (slots s) bs"
    "bare (h y) = bare (slots s y)" "bare (h x) = bare ?x\<lparr>sec_pages := of_nat k\<rparr>"
    "bare (h ?n) = bare ?x\<lparr>sec_start := page, sec_pages := sec_pages ?x - of_nat k,
      sec_free := PMM_SECTION_USED\<rparr>"
    using d1 e1 unfolding h_def by simp_all
  have k0: "of_nat k \<noteq> (0 :: u64)" "sec_pages ?x - of_nat k \<noteq> 0"
    using w k by (auto simp: unat_eq_zero [symmetric])
  have S: "page_state (secs h (as @ x # ?n # y # bs)) =
      page_set (page_state (secs (slots s) (as @ x # y # bs))) (unat page) PMM_SECTION_USED"
    and Th: "tiles 0 (secs h (as @ x # ?n # y # bs))"
    using page_set_middle [OF T, of "bare (h x)" "bare (h ?n)" PMM_SECTION_USED "[]"] w at k
    by (simp_all add: e)
  have "pmm_wf (as @ x # ?n # y # bs) (s1\<lparr>slots := h\<rparr>)"
    using l Th wf as by (simp add: pmm_wf_def e hd_append)
  moreover have "tight (as @ x # ?n # y # bs) (s1\<lparr>slots := h\<rparr>)"
    using ti k0 by (simp add: tight_def e del: set_secs)
  ultimately have "page_locked page r (as @ x # y # bs) s ((as @ [x]) @ ?n # y # bs) (s1\<lparr>slots := h\<rparr>)"
    using S f1 as by (simp add: page_locked_def hd_append e)
  moreover have "page < sec_start (h j)" if "j \<in> set (y # bs)" for j
  proof -
    have "j \<noteq> ?n" using that d1 by auto
    have "bare (slots s1 j) = bare (slots s j)"
      using that e1(2) by (auto simp: secs_def)
    from arg_cong [OF this, of sec_start] have "sec_start (h j) = sec_start (slots s j)"
      using \<open>j \<noteq> ?n\<close> by (simp add: h_def)
    then show ?thesis using starts_after [OF wf that] at kp by (simp add: word_less_nat_alt)
  qed
  ultimately show ?thesis
    using run inside_doneI [of page r "as @ x # y # bs" s "as @ [x]" ?n "y # bs"] by auto
qed

lemma pmm_lock_inside_middle:
  assumes wf: "pmm_wf (as @ x # y # bs) s" and ti: "tight (as @ x # y # bs) s"
    and room: "pmm_room (Suc (Suc r)) s" and as: "as \<noteq> []"
    and at: "unat page = unat (sec_start (slots s x)) + 4096 * k"
    and k: "0 < k" "Suc k < unat (sec_pages (slots s x))"
  shows "\<exists>sel s'. pmm_lock_inside (Some x) page s = Some (sel, s') \<and>
    inside_done page r (as @ x # y # bs) s sel s'"
proof -
  let ?x = "slots s x" and ?n = "unat (pmm_section_head s)"
  have links: "pmm_links (as @ x # y # bs) s"
    and T: "tiles 0 (secs (slots s) as @ bare ?x # secs (slots s) (y # bs))"
    using wf by (simp_all add: pmm_wf_def)
  have nx: "sec_next ?x = Some y"
    using links by (auto simp: pmm_links_def)
  have ys: "unat (sec_start (slots s y)) = unat (sec_start ?x) + 4096 * unat (sec_pages ?x)"
    using T by (simp add: tiles_def)
  then have "unat (sec_start (slots s y) - 4096) \<noteq> unat page"
    using at k by (subst unat_minus_nowrap) auto
  then have yp: "sec_start (slots s y) - 4096 \<noteq> page" by auto
  have le: "unat (sec_start ?x) + 4096 * unat (sec_pages ?x) < 2 ^ 64"
    using tiles_at(1,2) [OF T] by simp
  have kp: "k < unat (sec_pages ?x)" using k by simp
  note w = split_words(5,6) [OF le at kp]
  from pmm_section_split_run [OF links room le at kp] obtain s1 where
    split: "pmm_section_split (Some x) page s = Some s1"
    and l1: "pmm_links (as @ x # ?n # y # bs) s1" and f1: "pmm_frame s s1" "pmm_room (Suc r) s1"
      "free_memory s1 = free_memory s"
    and e1: "secs (slots s1) as = secs (slots s) as"
      "secs (slots s1) (y # bs) = secs (slots s) (y # bs)"
      "bare (slots s1 x) = bare ?x\<lparr>sec_pages := of_nat k\<rparr>"
      "bare (slots s1 ?n) = bare ?x\<lparr>sec_start := page, sec_pages := sec_pages ?x - of_nat k\<rparr>"
    by blast
  let ?m = "unat (pmm_section_head s1)"
  have n1: "sec_start (slots s1 ?n) = page" "sec_pages (slots s1 ?n) = sec_pages ?x - of_nat k"
    "sec_free (slots s1 ?n) = sec_free ?x"
    using arg_cong [OF e1(4), of sec_start] arg_cong [OF e1(4), of sec_pages]
      arg_cong [OF e1(4), of sec_free] by simp_all
  have nx1: "sec_next (slots s1 x) = Some ?n"
    using l1 by (auto simp: pmm_links_def)
  have l1': "pmm_links ((as @ [x]) @ ?n # y # bs) s1" using l1 by simp
  have le1: "unat (sec_start (slots s1 ?n)) + 4096 * unat (sec_pages (slots s1 ?n)) < 2 ^ 64"
    using le at w(2) kp by (simp add: n1)
  have pa: "unat (page + 4096) = unat page + 4096"
    using le at k by (intro unat_page_after) linarith
  have at1: "unat (page + 4096) = unat (sec_start (slots s1 ?n)) + 4096 * 1"
    using pa by (simp add: n1)
  have kp1: "1 < unat (sec_pages (slots s1 ?n))"
    using k w(2) by (simp add: n1)
  note w1 = split_words(5,6) [OF le1 at1 kp1]
  from pmm_section_split_run [OF l1' f1(2) le1 at1 kp1] obtain s2 where
    split2: "pmm_section_split (Some ?n) (page + 4096) s1 = Some s2"
    and l2: "pmm_links (as @ x # ?n # ?m # y # bs) s2" and f2: "pmm_frame s1 s2" "pmm_room r s2"
      "free_memory s2 = free_memory s1"
    and e2: "secs (slots s2) as = secs (slots s1) as" "bare (slots s2 x) = bare (slots s1 x)"
      "secs (slots s2) (y # bs) = secs (slots s1) (y # bs)"
      "bare (slots s2 ?n) = bare (slots s1 ?n)\<lparr>sec_pages := 1\<rparr>"
      "bare (slots s2 ?m) = bare (slots s1 ?n)\<lparr>sec_start := page + 4096,
        sec_pages := sec_pages (slots s1 ?n) - 1\<rparr>"
    by auto
  have d2: "?n \<notin> set as" "x \<noteq> ?n" "?n \<noteq> ?m" "y \<noteq> ?n" "?n \<notin> set bs"
    using l2 by (auto simp: pmm_links_def)
  define h where "h = (slots s2)(?n := (slots s2 ?n)\<lparr>sec_free := PMM_SECTION_USED\<rparr>)"
  have run: "pmm_lock_inside (Some x) page s = Some (Some ?n, s2\<lparr>slots := h\<rparr>)"
    using nx yp split nx1 n1 split2 by (simp add: pmm_lock_inside_def h_def)
  have l: "pmm_links (as @ x # ?n # ?m # y # bs) (s2\<lparr>slots := h\<rparr>)"
    by (rule pmm_links_fields [OF l2]) (simp add: h_def)
  have e: "secs h as = secs (slots s) as" "secs h bs = secs (slots s) bs"
    "bare (h y) = bare (slots s y)" "bare (h x) = bare ?x\<lparr>sec_pages := of_nat k\<rparr>"
    "bare (h ?n) = bare ?x\<lparr>sec_start := page, sec_pages := 1, sec_free := PMM_SECTION_USED\<rparr>"
    "bare (h ?m) = bare ?x\<lparr>sec_start := page + 4096, sec_pages := sec_pages ?x - of_nat k - 1\<rparr>"
    using d2 e1 e2 n1 unfolding h_def by simp_all
  have wm: "unat (sec_pages ?x - of_nat k - 1) = unat (sec_pages ?x) - k - 1"
    using w1(2) w(2) n1(2) by simp
  have k0: "of_nat k \<noteq> (0 :: u64)" "sec_pages ?x - of_nat k - 1 \<noteq> 0"
    using w wm k by (auto simp: unat_eq_zero [symmetric])
  have S: "page_state (secs h (as @ x # ?n # ?m # y # bs)) =
      page_set (page_state (secs (slots s) (as @ x # y # bs))) (unat page) PMM_SECTION_USED"
    and Th: "tiles 0 (secs h (as @ x # ?n # ?m # y # bs))"
    using page_set_middle [OF T, of "bare (h x)" "bare (h ?n)" PMM_SECTION_USED "[bare (h ?m)]"]
      w wm at k pa by (simp_all add: e)
  have "pmm_wf (as @ x # ?n # ?m # y # bs) (s2\<lparr>slots := h\<rparr>)"
    using l Th wf as by (simp add: pmm_wf_def e hd_append)
  moreover have "tight (as @ x # ?n # ?m # y # bs) (s2\<lparr>slots := h\<rparr>)"
    using ti k0 by (simp add: tight_def e del: set_secs)
  ultimately have "page_locked page r (as @ x # y # bs) s ((as @ [x]) @ ?n # ?m # y # bs)
      (s2\<lparr>slots := h\<rparr>)"
    using S f1 f2 as pmm_frame_trans [OF f1(1) f2(1)] by (simp add: page_locked_def hd_append e)
  moreover have "page < sec_start (h j)" if "j \<in> set (?m # y # bs)" for j
  proof (cases "j = ?m")
    case True
    then show ?thesis using arg_cong [OF e(6), of sec_start] pa by (simp add: word_less_nat_alt)
  next
    case False
    then have j: "j \<in> set (y # bs)" using that by simp
    then have "bare (h j) = bare (slots s j)"
      using e(2,3) by (auto simp: secs_def)
    from arg_cong [OF this, of sec_start] show ?thesis
      using starts_after [OF wf j] at kp by (simp add: word_less_nat_alt)
  qed
  ultimately show ?thesis
    using run inside_doneI [of page r "as @ x # y # bs" s "as @ [x]" ?n "?m # y # bs"] by auto
qed

section \<open>Walking to the page\<close>

lemma pmm_lock_scan_at:
  assumes wf: "pmm_wf (as @ x # bs) s" and ti: "tight (as @ x # bs) s"
    and room: "pmm_room (Suc (Suc r)) s" and as: "as \<noteq> []" and bs: "bs \<noteq> []"
    and at: "unat page = unat (sec_start (slots s x)) + 4096 * k"
    and k: "k < unat (sec_pages (slots s x))"
  shows "\<exists>s' is'. pmm_lock_scan (Some x) page s = Some s' \<and> page_locked page r (as @ x # bs) s is' s'"
proof -
  have room1: "pmm_room (Suc r) s" and room0: "pmm_room r s"
    by (rule pmm_room_mono [OF room], simp)+
  show ?thesis
  proof (cases "k = 0")
    case True
    then have p: "sec_start (slots s x) = page" using at by (simp add: word_unat_eq_iff)
    show ?thesis
      using pmm_lock_single_run [OF wf ti room0 as bs] pmm_lock_at_start_run [OF wf ti room1 as bs] p
      by (cases "sec_pages (slots s x) = 1") (auto simp: pmm_lock_scan.simps [of "Some x"])
  next
    case False
    then have "sec_start (slots s x) \<noteq> page" and lt: "sec_start (slots s x) < page"
      using at by (auto simp: word_less_nat_alt)
    moreover obtain y bs' where bs': "bs = y # bs'" using bs by (cases bs) auto
    have T: "tiles 0 (secs (slots s) as @ bare (slots s x) # bare (slots s y) # secs (slots s) bs')"
      and nx: "sec_next (slots s x) = Some y"
      using wf by (auto simp: pmm_wf_def pmm_links_def bs')
    have "unat (sec_start (slots s y)) =
        unat (sec_start (slots s x)) + 4096 * unat (sec_pages (slots s x))"
      using T by (simp add: tiles_def)
    then have ny: "sec_start (slots s y) > page" using at k by (simp add: word_less_nat_alt)
    ultimately have step: "pmm_lock_scan (Some x) page s =
        (if sec_free (slots s x) = PMM_SECTION_USED then Some s
         else pmm_lock_inside (Some x) page s \<bind>
           (\<lambda>(sel, s). ld sec_next sel s \<bind> (\<lambda>nx. pmm_lock_scan nx page s)))"
      by (simp add: pmm_lock_scan.simps [of "Some x"] pmm_page_inside_def nx)
    show ?thesis
    proof (cases "sec_free (slots s x) = PMM_SECTION_USED")
      case True
      have "page_set (page_state (secs (slots s) (as @ x # bs))) (unat page) PMM_SECTION_USED =
          page_state (secs (slots s) (as @ x # bs))"
        using page_state_at [OF T] True at k bs' by (intro page_set_noop) (simp add: in_section_def)
      then have "page_locked page r (as @ x # bs) s (as @ x # bs) s"
        using wf ti room0 by (simp add: page_locked_def)
      then show ?thesis using step True by auto
    next
      case used: False
      have "\<exists>sel s'. pmm_lock_inside (Some x) page s = Some (sel, s') \<and>
          inside_done page r (as @ x # y # bs') s sel s'"
      proof (cases "Suc k = unat (sec_pages (slots s x))")
        case True
        then show ?thesis
          using pmm_lock_inside_to_next [OF wf [unfolded bs'] ti [unfolded bs'] room0 as at]
            pmm_lock_inside_last [OF wf [unfolded bs'] ti [unfolded bs'] room1 as at] False
          by (cases "sec_free (slots s y) = PMM_SECTION_USED") simp_all
      next
        case n: False
        then show ?thesis
          using pmm_lock_inside_middle [OF wf [unfolded bs'] ti [unfolded bs'] room as at] False k
          by simp
      qed
      then obtain sel s' where "pmm_lock_inside (Some x) page s = Some (sel, s')"
        and i: "inside_done page r (as @ x # y # bs') s sel s'" by blast
      then have "pmm_lock_scan (Some x) page s = Some s'"
        using step used by (auto simp: inside_done_def)
      then show ?thesis using i bs' by (auto simp: inside_done_def)
    qed
  qed
qed

lemma pmm_lock_scan_run:
  assumes wf: "pmm_wf (us @ cs @ x # bs) s" and ti: "tight (us @ cs @ x # bs) s"
    and room: "pmm_room (Suc (Suc r)) s" and "us @ cs \<noteq> []" and bs: "bs \<noteq> []"
    and at: "unat page = unat (sec_start (slots s x)) + 4096 * k"
    and k: "k < unat (sec_pages (slots s x))"
  shows "\<exists>s' is'. pmm_lock_scan (hd_ptr (cs @ x # bs) None) page s = Some s' \<and>
    page_locked page r (us @ cs @ x # bs) s is' s'"
  using wf ti assms(4)
proof (induction cs arbitrary: us)
  case Nil
  then show ?case using pmm_lock_scan_at [of us x bs s r page k] room bs at k by simp
next
  case (Cons c cs)
  let ?j = "hd (cs @ x # bs)"
  have nx: "sec_next (slots s c) = Some ?j"
    using Cons.prems(1) by (cases cs) (auto simp: pmm_wf_def pmm_links_def)
  have wf': "pmm_wf (us @ c # (cs @ x # bs)) s" using Cons.prems(1) by simp
  have lt: "unat (sec_start (slots s c)) < unat (sec_start (slots s i))" if "i \<in> set (cs @ x # bs)" for i
    using starts_after [OF wf' that] Cons.prems(2) by (fastforce simp: tight_def word_neq_0_conv word_less_nat_alt)
  have "unat (sec_start (slots s ?j)) \<le> unat (sec_start (slots s x))"
  proof (cases cs)
    case (Cons d ds)
    then have "pmm_wf ((us @ [c]) @ d # (ds @ x # bs)) s" using wf' by simp
    from starts_after [OF this, of x] show ?thesis using Cons by simp
  qed simp
  then have "\<not> sec_start (slots s ?j) > page" "sec_start (slots s c) \<noteq> page" "sec_start (slots s c) < page"
    using lt [of x] at by (auto simp: word_less_nat_alt)
  then have "pmm_lock_scan (Some c) page s = pmm_lock_scan (Some ?j) page s"
    using nx by (simp add: pmm_lock_scan.simps [of "Some c"] pmm_page_inside_def)
  moreover have "hd_ptr (cs @ x # bs) None = Some ?j" by (cases cs) auto
  ultimately show ?case
    using Cons.IH [of "us @ [c]"] Cons.prems by simp
qed

section \<open>The page and the run of pages\<close>

text \<open>Addresses behind the first section and before the last one.\<close>

definition managed :: "nat list \<Rightarrow> 'z pmm_state_scheme \<Rightarrow> nat \<Rightarrow> bool" where
  "managed is s a \<longleftrightarrow> 4096 * unat (sec_pages (hd (secs (slots s) is))) \<le> a \<and>
     a < unat (sec_start (last (secs (slots s) is)))"

lemma managed_section:
  assumes wf: "pmm_wf is s" and m: "managed is s a"
  shows "\<exists>us x bs. is = us @ x # bs \<and> us \<noteq> [] \<and> bs \<noteq> [] \<and> in_section (slots s x) a"
proof -
  have ne: "is \<noteq> []" using wf by (auto simp: pmm_wf_def pmm_links_def)
  obtain js z where js: "is = js @ [z]" using ne by (cases "is" rule: rev_cases) auto
  have c: "chain 0 (secs (slots s) js)"
    and z: "unat (sec_start (slots s z)) = chain_end 0 (secs (slots s) js)"
    using wf js by (auto simp: pmm_wf_def tiles_def)
  have "page_state (secs (slots s) js) a \<noteq> None"
    using page_state_range [OF c] m z js by (simp add: managed_def)
  then obtain f where "page_state (secs (slots s) js) a = Some f" by auto
  from page_state_in_set [OF this] obtain x where x: "x \<in> set js" "in_section (slots s x) a"
    by (auto simp: in_section_def)
  then obtain us vs where uv: "js = us @ x # vs" by (metis split_list)
  have "us \<noteq> []"
  proof
    assume "us = []"
    then have "unat (sec_start (slots s x)) = 0" using c uv by simp
    then show False using x(2) m uv js \<open>us = []\<close> by (simp add: managed_def in_section_def)
  qed
  then show ?thesis using uv js x by (intro exI [of _ us] exI [of _ x] exI [of _ "vs @ [z]"]) simp
qed

lemma pmm_lock_page_run:
  assumes wf: "pmm_wf is s" and "tight is s" and "pmm_room (Suc (Suc r)) s"
    and on: "pfa_allowing_allocations s" and m: "managed is s (unat page)" and al: "4096 dvd unat page"
  shows "\<exists>s' is'. pmm_lock_page page s = Some s' \<and> page_locked page r is s is' s'"
proof -
  obtain us x bs where l: "is = us @ x # bs" "us \<noteq> []" "bs \<noteq> []" "in_section (slots s x) (unat page)"
    using managed_section [OF wf m] by blast
  have T: "tiles 0 (secs (slots s) us @ bare (slots s x) # secs (slots s) bs)"
    using wf l by (simp add: pmm_wf_def)
  have "4096 dvd unat (sec_start (slots s x))"
    using tiles_at(1) [OF T] by (simp add: chain_end_total)
  then have "4096 dvd unat page - unat (sec_start (slots s x))"
    using al by (simp add: dvd_diff_nat)
  then obtain k where "unat page - unat (sec_start (slots s x)) = 4096 * k" by (auto elim: dvdE)
  then have at: "unat page = unat (sec_start (slots s x)) + 4096 * k" "k < unat (sec_pages (slots s x))"
    using l(4) by (auto simp: in_section_def)
  have "pmm_sections s = hd_ptr (us @ x # bs) None"
    using wf l by (simp add: pmm_wf_def pmm_links_def)
  then show ?thesis
    using pmm_lock_scan_run [of "[]" us x bs s r page k] assms(1-4) l at by (simp add: pmm_lock_page_def)
qed

definition set_pages :: "(nat \<Rightarrow> u64 option) \<Rightarrow> nat \<Rightarrow> nat \<Rightarrow> u64 \<Rightarrow> nat \<Rightarrow> u64 option" where
  "set_pages m a n f = (\<lambda>b. if a \<le> b \<and> b < a + 4096 * n then Some f else m b)"

lemma set_pages_0 [simp]: "set_pages m a 0 f = m"
  by (auto simp: set_pages_def fun_eq_iff)

lemma set_pages_Suc: "set_pages (page_set m a f) (a + 4096) n f = set_pages m a (Suc n) f"
  by (auto simp: set_pages_def page_set_def fun_eq_iff)

lemma for_pages_lock_run:
  assumes "pmm_wf is s" and "tight is s" and "pmm_room (r + 2 * n) s"
    and "pfa_allowing_allocations s" and "4096 dvd unat page"
    and "4096 * unat (sec_pages (hd (secs (slots s) is))) \<le> unat page"
    and "unat page + 4096 * n \<le> unat (sec_start (last (secs (slots s) is)))"
  shows "\<exists>s' is'. for_pages pmm_lock_page page n s = Some s' \<and> pmm_wf is' s' \<and> tight is' s' \<and>
    pmm_frame s s' \<and> pmm_room r s' \<and> free_memory s' = free_memory s \<and>
    page_state (secs (slots s') is') =
      set_pages (page_state (secs (slots s) is)) (unat page) n PMM_SECTION_USED"
  using assms
proof (induction n arbitrary: "is" s page)
  case 0
  then show ?case by auto
next
  case (Suc n)
  have m: "managed is s (unat page)"
    using Suc.prems by (simp add: managed_def)
  have room: "pmm_room (Suc (Suc (r + 2 * n))) s"
    using Suc.prems(3) by simp
  from pmm_lock_page_run [OF Suc.prems(1,2) room Suc.prems(4) m Suc.prems(5)] obtain s1 is1 where
    run: "pmm_lock_page page s = Some s1" and k: "page_locked page (r + 2 * n) is s is1 s1"
    by blast
  note k' = k [unfolded page_locked_def]
  have "unat (sec_start (last (secs (slots s) is))) < 2 ^ LENGTH(64)"
    by (rule unsigned_less)
  then have next_page: "unat (page + 4096) = unat page + 4096"
    using Suc.prems(7) by (intro unat_page_after) simp
  show ?case
  proof (cases n)
    case 0
    then show ?thesis using run k' set_pages_Suc [of "page_state (secs (slots s) is)" "unat page" _ 0]
      by auto
  next
    case n: (Suc n')
    have "sec_start (last (secs (slots s1) is1)) = sec_start (last (secs (slots s) is))"
      using k' Suc.prems(7) n by auto
    then have "\<exists>s' is'. for_pages pmm_lock_page (page + 4096) n s1 = Some s' \<and> pmm_wf is' s' \<and>
        tight is' s' \<and> pmm_frame s1 s' \<and> pmm_room r s' \<and> free_memory s' = free_memory s1 \<and>
        page_state (secs (slots s') is') =
          set_pages (page_state (secs (slots s1) is1)) (unat (page + 4096)) n PMM_SECTION_USED"
      using k' Suc.prems next_page by (intro Suc.IH) (auto simp: pmm_frame_def)
    then show ?thesis
      using run k' next_page pmm_frame_trans [of s s1] by (auto simp: set_pages_Suc)
  qed
qed

text \<open>C14:
  \<open>pmm_lock_pages\<close> on a run of \<open>count\<close> pages of the managed area (behind the first section, before
  the last one) returns with exactly those pages marked as used in the memory map, whatever their
  state was. The section list stays well formed and without empty sections and takes at most two
  more slots per page; \<open>free_memory\<close> is not adjusted.
\<close>

theorem pmm_lock_pages_marks_used:
  assumes "pmm_wf is s" and "tight is s" and "pmm_room (r + 2 * unat count) s"
    and "pfa_allowing_allocations s" and "4096 dvd unat page"
    and "4096 * unat (sec_pages (hd (secs (slots s) is))) \<le> unat page"
    and "unat page + 4096 * unat count \<le> unat (sec_start (last (secs (slots s) is)))"
  shows "\<exists>s' is'. pmm_lock_pages page count s = Some s' \<and> pmm_wf is' s' \<and> tight is' s' \<and>
    pmm_frame s s' \<and> pmm_room r s' \<and> free_memory s' = free_memory s \<and>
    page_state (secs (slots s') is') =
      set_pages (page_state (secs (slots s) is)) (unat page) (unat count) PMM_SECTION_USED"
  using for_pages_lock_run [OF assms] assms(4) by (simp add: pmm_lock_pages_def)


lemma pmm_lock_pages_marks_used_witness:
  "\<exists>s'. pmm_lock_pages 0x102000 2 small_memory = Some s' \<and>
    free_memory s' = free_memory small_memory"
proof -
  have "\<exists>s' is'. pmm_lock_pages 0x102000 2 small_memory = Some s' \<and> pmm_wf is' s' \<and> tight is' s' \<and>
    pmm_frame small_memory s' \<and> pmm_room 0 s' \<and> free_memory s' = free_memory small_memory \<and>
    page_state (secs (slots s') is') = set_pages (page_state (secs (slots small_memory) [0, 1, 2]))
      (unat (0x102000 :: u64)) (unat (2 :: u64)) PMM_SECTION_USED"
    by (rule pmm_lock_pages_marks_used [OF small_memory_wf])
       (simp_all add: tight_def small_memory_def small_slots_def pmm_room_def bare_def)
  then show ?thesis by blast
qed

end
