(* ===== verification/Pmm_Free.thy ===== *)
theory Pmm_Free
  imports Pmm_Lock
begin

text \<open>
  Giving pages back and recombining the list. \<open>pmm_free_page\<close> does not do what its callers expect
  for two kinds of page: a section of one page next to a free one is left as it is (the sections
  are only combined when their states agree already), and a page inside a section is not freed
  although the free memory is counted up.
\<close>

section \<open>Walking to the page\<close>

lemma pmm_free_scan_walk:
  assumes wf: "pmm_wf (us @ cs @ x # bs) s" and ti: "tight (us @ cs @ x # bs) s"
    and at: "sec_start (slots s x) \<le> page"
  shows "pmm_free_scan (hd_ptr (cs @ x # bs) None) page s = pmm_free_scan (Some x) page s"
  using wf ti
proof (induction cs arbitrary: us)
  case Nil
  then show ?case by simp
next
  case (Cons c cs)
  let ?j = "hd (cs @ x # bs)"
  have nx: "sec_next (slots s c) = Some ?j"
    using Cons.prems(1) by (cases cs) (auto simp: pmm_wf_def pmm_links_def)
  have wf': "pmm_wf (us @ c # (cs @ x # bs)) s" using Cons.prems(1) by simp
  have "unat (sec_start (slots s c)) < unat (sec_start (slots s x))"
    using starts_after [OF wf', of x] Cons.prems(2)
    by (fastforce simp: tight_def word_neq_0_conv word_less_nat_alt)
  moreover have "unat (sec_start (slots s ?j)) \<le> unat (sec_start (slots s x))"
  proof (cases cs)
    case (Cons d ds)
    then have "pmm_wf ((us @ [c]) @ d # (ds @ x # bs)) s" using wf' by simp
    from starts_after [OF this, of x] show ?thesis using Cons by simp
  qed simp
  ultimately have "\<not> sec_start (slots s ?j) > page" "sec_start (slots s c) \<noteq> page"
    "sec_start (slots s c) < page"
    using at by (auto simp: word_less_nat_alt word_le_nat_alt)
  then have "pmm_free_scan (Some c) page s = pmm_free_scan (Some ?j) page s"
    using nx by (simp add: pmm_free_scan.simps [of "Some c"] pmm_page_inside_def)
  moreover have "hd_ptr (cs @ x # bs) None = Some ?j" by (cases cs) auto
  ultimately show ?case
    using Cons.IH [of "us @ [c]"] Cons.prems by simp
qed

lemma pmm_free_scan_past:
  assumes "dseg (slots s) p rest None" and "\<forall>i \<in> set rest. page < sec_start (slots s i)"
  shows "pmm_free_scan (hd_ptr rest None) page s = Some (False, s)"
  using assms
proof (induction rest arbitrary: p)
  case Nil
  then show ?case by (simp add: pmm_free_scan.simps)
next
  case (Cons i rest)
  have "sec_start (slots s i) \<noteq> page" "\<not> sec_start (slots s i) < page" using Cons.prems by auto
  then show ?case using Cons
    by (auto simp: pmm_free_scan.simps [of "Some i"] pmm_page_inside_def)
qed

lemma pmm_free_page_walk:
  assumes wf: "pmm_wf (as @ x # bs) s" and ti: "tight (as @ x # bs) s"
    and "pfa_allowing_allocations s" and "sec_start (slots s x) \<le> page"
  shows "pmm_free_page page s = do {
    (returned, s) \<leftarrow> pmm_free_scan (Some x) page s;
    Some (if returned then s else s\<lparr>free_memory := free_memory s + PAGING_PAGE_SIZE\<rparr>) }"
proof -
  have "pmm_sections s = hd_ptr (as @ x # bs) None"
    using wf by (simp add: pmm_wf_def pmm_links_def)
  then show ?thesis
    using pmm_free_scan_walk [of "[]" as x bs s page] assms by (simp add: pmm_free_page_def)
qed

text \<open>C36:
  \<open>pmm_free_page\<close> on a used section of one page: when a neighbour is free the call changes nothing
  at all, and the page stays used; only between two sections that are not free does it
  become free. In neither case is \<open>free_memory\<close> adjusted.
\<close>

theorem pmm_free_page_single:
  assumes wf: "pmm_wf (as @ w # x # y # bs) s" and ti: "tight (as @ w # x # y # bs) s"
    and on: "pfa_allowing_allocations s"
    and one: "sec_pages (slots s x) = 1" and used: "sec_free (slots s x) = PMM_SECTION_USED"
  shows "pmm_free_page (sec_start (slots s x)) s = Some
    (if sec_free (slots s w) = PMM_SECTION_FREE \<or> sec_free (slots s y) = PMM_SECTION_FREE then s
     else s\<lparr>slots := (slots s)(x := (slots s x)\<lparr>sec_free := PMM_SECTION_FREE\<rparr>)\<rparr>)"
proof -
  have walk: "pmm_free_page (sec_start (slots s x)) s = do {
      (returned, s) \<leftarrow> pmm_free_scan (Some x) (sec_start (slots s x)) s;
      Some (if returned then s else s\<lparr>free_memory := free_memory s + PAGING_PAGE_SIZE\<rparr>) }"
    using pmm_free_page_walk [of "as @ [w]" x "y # bs" s] assms by simp
  have p: "sec_prev (slots s x) = Some w" "sec_next (slots s x) = Some y"
      "sec_next (slots s w) = Some x"
    using wf by (auto simp: pmm_wf_def pmm_links_def)
  show ?thesis
    using p one used unfolding walk
    by (simp add: pmm_free_scan.simps [of "Some x"] pmm_free_at_start_def
        pmm_section_combine_next_def pmm_section_combine_prev_def)
qed

text \<open>C37:
  \<open>pmm_free_page\<close> on a page inside a used section, neither its first nor its last: the section list
  is unchanged, the page stays used, and still \<open>free_memory\<close> grows by a page.
\<close>

theorem pmm_free_page_middle:
  assumes wf: "pmm_wf (as @ x # y # bs) s" and ti: "tight (as @ x # y # bs) s"
    and on: "pfa_allowing_allocations s" and used: "sec_free (slots s x) = PMM_SECTION_USED"
    and lo: "sec_start (slots s x) < page" and hi: "page < sec_start (slots s y) - PAGING_PAGE_SIZE"
  shows "pmm_free_page page s = Some (s\<lparr>free_memory := free_memory s + PAGING_PAGE_SIZE\<rparr>)"
proof -
  have T: "tiles 0 (secs (slots s) as @ bare (slots s x) # bare (slots s y) # secs (slots s) bs)"
    and nx: "sec_next (slots s x) = Some y" and l: "dseg (slots s) (Some x) (y # bs) None"
    using wf by (auto simp: pmm_wf_def pmm_links_def)
  have "0 < unat (sec_pages (slots s x))" using ti by (simp add: tight_def unat_gt_0)
  then have "4096 \<le> unat (sec_start (slots s y))" using T by (simp add: tiles_def)
  then have "unat (sec_start (slots s y) - PAGING_PAGE_SIZE) = unat (sec_start (slots s y)) - 4096"
    by (subst unat_minus_nowrap) simp_all
  then have py: "unat page < unat (sec_start (slots s y))"
    using hi by (simp add: word_less_nat_alt)
  have "\<forall>i \<in> set (y # bs). page < sec_start (slots s i)"
  proof
    fix i assume "i \<in> set (y # bs)"
    moreover have "unat (sec_start (slots s y)) \<le> unat (sec_start (slots s i))" if "i \<in> set bs"
      using starts_after [of "as @ [x]" y bs s i] wf that by simp
    ultimately show "page < sec_start (slots s i)" using py by (auto simp: word_less_nat_alt)
  qed
  from pmm_free_scan_past [OF l this] have past: "pmm_free_scan (Some y) page s = Some (False, s)"
    by simp
  have "pmm_free_scan (Some x) page s = Some (False, s)"
    using lo hi py used nx past
    by (auto simp: pmm_free_scan.simps [of "Some x"] pmm_page_inside_def pmm_free_inside_def
        word_less_nat_alt)
  then show ?thesis
    using pmm_free_page_walk [OF wf ti on, of page] lo by simp
qed

text \<open>The small machine with one section of \<open>p\<close> used pages instead of the eight free ones.\<close>

definition small_used :: "u64 \<Rightarrow> pmm_state" where
  "small_used p = small_memory\<lparr>slots := small_slots(
     1 := (small_slots 1)\<lparr>sec_pages := p, sec_free := PMM_SECTION_USED\<rparr>,
     2 := (small_slots 2)\<lparr>sec_start := 0x100000 + p * 4096\<rparr>)\<rparr>"

lemma small_used_wf:
  assumes "p = 1 \<or> p = 8"
  shows "pmm_wf ([0] @ 1 # 2 # []) (small_used p)" and "tight ([0] @ 1 # 2 # []) (small_used p)"
    and "pmm_wf ([] @ 0 # 1 # 2 # []) (small_used p)" and "tight ([] @ 0 # 1 # 2 # []) (small_used p)"
  using assms by (auto simp: pmm_wf_def pmm_links_def small_used_def small_memory_def small_slots_def
      pmm_room_def tiles_def first_mib_def guarded_def tight_def bare_def zero_section_def)

lemma pmm_free_page_single_witness:
  "pmm_free_page 0x100000 (small_used 1) = Some ((small_used 1)\<lparr>slots :=
     (slots (small_used 1))(1 := (slots (small_used 1) 1)\<lparr>sec_free := PMM_SECTION_FREE\<rparr>)\<rparr>)"
proof -
  have st: "sec_start (slots (small_used 1) 1) = 0x100000"
    by (simp add: small_used_def small_slots_def)
  show ?thesis
    using pmm_free_page_single [OF small_used_wf(3,4) [of 1]]
    by (simp add: st [simplified] small_used_def small_memory_def small_slots_def)
qed

lemma pmm_free_page_middle_witness:
  "pmm_free_page 0x102000 (small_used 8) =
     Some ((small_used 8)\<lparr>free_memory := 0x8000 + PAGING_PAGE_SIZE\<rparr>)"
proof -
  have "pmm_free_page 0x102000 (small_used 8) =
     Some ((small_used 8)\<lparr>free_memory := free_memory (small_used 8) + PAGING_PAGE_SIZE\<rparr>)"
    by (rule pmm_free_page_middle [OF small_used_wf(1,2) [of 8]])
       (simp_all add: small_used_def small_memory_def small_slots_def)
  then show ?thesis by (simp add: small_used_def small_memory_def)
qed

end
