(* ===== verification/Pmm_Recombine.thy ===== *)
theory Pmm_Recombine
  imports Pmm_Lock
begin

text \<open>
  \<open>pmm_recombine\<close> repeats a pass over the section list until a pass combines nothing. Each combining
  pass shortens the list, so it ends; it keeps the memory map and leaves no two neighbours with
  equal states.
\<close>

fun no_twins :: "pmm_section list \<Rightarrow> bool" where
  "no_twins (x # y # zs) \<longleftrightarrow> sec_free x \<noteq> sec_free y \<and> no_twins (y # zs)"
| "no_twins xs \<longleftrightarrow> True"

text \<open>What one pass over the rest \<open>bs\<close> of the list \<open>as @ bs\<close> achieves.\<close>

definition pass_done ::
    "nat list \<Rightarrow> nat list \<Rightarrow> bool \<Rightarrow> bool \<Rightarrow> 'z pmm_state_scheme \<Rightarrow> 'z pmm_state_scheme \<Rightarrow> bool" where
  "pass_done as bs detected detected' s s' \<longleftrightarrow>
     (\<exists>cs. pmm_wf (as @ cs) s' \<and> pmm_frame s s' \<and> (tight (as @ bs) s \<longrightarrow> tight (as @ cs) s') \<and>
       page_state (secs (slots s') (as @ cs)) = page_state (secs (slots s) (as @ bs)) \<and>
       free_memory s' = free_memory s \<and> pmm_section_head s' = pmm_section_head s \<and>
       length cs \<le> length bs \<and> (\<not> detected' \<longrightarrow> \<not> detected \<and> s' = s \<and> no_twins (secs (slots s) bs)) \<and>
       (detected' \<longrightarrow> detected \<or> length cs < length bs))"

lemma pmm_recombine_merge:
  assumes "pmm_links (as @ x # y # bs) s" and "sec_free (slots s x) = sec_free (slots s y)"
  shows "\<exists>s1. pmm_recombine_pass (Some x) d s = pmm_recombine_pass (hd_ptr bs None) True s1 \<and>
    pmm_links (as @ x # bs) s1 \<and> pmm_frame s s1 \<and> free_memory s1 = free_memory s \<and>
    pmm_section_head s1 = pmm_section_head s \<and>
    secs (slots s1) as = secs (slots s) as \<and> secs (slots s1) bs = secs (slots s) bs \<and>
    bare (slots s1 x) = bare (slots s x)\<lparr>sec_pages := sec_pages (slots s x) + sec_pages (slots s y)\<rparr>"
proof (cases bs)
  case Nil
  define h where "h = (slots s)(x := (sec_pages_update
    (\<lambda>p. p + sec_pages (slots s y)) (slots s x))\<lparr>sec_next := None\<rparr>, y := zero_section)"
  have "pmm_recombine_pass (Some x) d s = pmm_recombine_pass (hd_ptr bs None) True (s\<lparr>slots := h\<rparr>)"
    using assms Nil by (auto simp: pmm_recombine_pass.simps [of "Some x"] pmm_links_def
        pmm_delete_section_def h_def fun_upd_twist bare_def)
  then show ?thesis
    using assms Nil by (intro exI [of _ "s\<lparr>slots := h\<rparr>"])
      (auto simp: h_def pmm_links_def pmm_room_def zero_section_def)
next
  case (Cons z zs)
  define h where "h = (slots s)(x := (sec_pages_update
    (\<lambda>p. p + sec_pages (slots s y)) (slots s x))\<lparr>sec_next := Some z\<rparr>, y := zero_section,
    z := (slots s z)\<lparr>sec_prev := Some x\<rparr>)"
  have "pmm_recombine_pass (Some x) d s = pmm_recombine_pass (hd_ptr bs None) True (s\<lparr>slots := h\<rparr>)"
    using assms Cons by (auto simp: pmm_recombine_pass.simps [of "Some x"] pmm_links_def
        pmm_delete_section_def h_def fun_upd_twist)
  then show ?thesis
    using assms Cons by (intro exI [of _ "s\<lparr>slots := h\<rparr>"])
      (auto simp: h_def pmm_links_def pmm_room_def zero_section_def)
qed

lemma pmm_recombine_pass_run:
  assumes "pmm_wf (as @ bs) s"
  shows "\<exists>d' s'. pmm_recombine_pass (hd_ptr bs None) d s = Some (d', s') \<and> pass_done as bs d d' s s'"
  using assms
proof (induction "length bs" arbitrary: as bs s d rule: less_induct)
  case less
  have keep: ?case if "bs = [] \<or> (\<exists>x. bs = [x])"
    using that less.prems
    by (auto simp: pmm_recombine_pass.simps pmm_wf_def pmm_links_def pass_done_def intro!: exI [of _ bs])
  show ?case
  proof (cases "bs = [] \<or> (\<exists>x. bs = [x])")
    case True
    then show ?thesis by (rule keep)
  next
    case False
    then obtain x y cs where bs: "bs = x # y # cs" by (metis neq_Nil_conv)
    have links: "pmm_links (as @ x # y # cs) s"
      and T: "tiles 0 (secs (slots s) as @ bare (slots s x) # bare (slots s y) # secs (slots s) cs)"
      using less.prems by (simp_all add: pmm_wf_def bs)
    have nx: "sec_next (slots s x) = Some y" using links by (simp add: pmm_links_def)
    show ?thesis
    proof (cases "sec_free (slots s x) = sec_free (slots s y)")
      case False
      then have "pmm_recombine_pass (hd_ptr bs None) d s = pmm_recombine_pass (Some y) d s"
        by (simp add: bs pmm_recombine_pass.simps [of "Some x"] nx)
      moreover have "\<exists>d' s'. pmm_recombine_pass (hd_ptr (y # cs) None) d s = Some (d', s') \<and>
          pass_done (as @ [x]) (y # cs) d d' s s'"
        using less.prems by (intro less.hyps) (simp_all add: bs)
      then obtain d' s' js where "pmm_recombine_pass (Some y) d s = Some (d', s')"
        and "pmm_wf ((as @ [x]) @ js) s'" "pmm_frame s s'"
          "tight ((as @ [x]) @ y # cs) s \<longrightarrow> tight ((as @ [x]) @ js) s'"
        and "page_state (secs (slots s') ((as @ [x]) @ js)) = page_state (secs (slots s) ((as @ [x]) @ y # cs))"
        and "free_memory s' = free_memory s" "pmm_section_head s' = pmm_section_head s"
        and "length js \<le> length (y # cs)"
        and "\<not> d' \<longrightarrow> \<not> d \<and> s' = s \<and> no_twins (secs (slots s) (y # cs))"
        and "d' \<longrightarrow> d \<or> length js < length (y # cs)"
        unfolding pass_done_def hd_ptr_simps by blast
      ultimately show ?thesis
        using False by (auto simp: bs pass_done_def intro!: exI [of _ "x # js"])
    next
      case True
      from pmm_recombine_merge [OF links True, of d] obtain s1 where
        run: "pmm_recombine_pass (Some x) d s = pmm_recombine_pass (hd_ptr cs None) True s1"
        and l1: "pmm_links (as @ x # cs) s1" and f1: "pmm_frame s s1" "free_memory s1 = free_memory s"
          "pmm_section_head s1 = pmm_section_head s"
        and e: "secs (slots s1) as = secs (slots s) as" "secs (slots s1) cs = secs (slots s) cs"
          "bare (slots s1 x) =
            bare (slots s x)\<lparr>sec_pages := sec_pages (slots s x) + sec_pages (slots s y)\<rparr>"
        by blast
      note add = tiles_pages_add(1) [OF T, simplified]
      define z where "z = bare (slots s1 x)"
      have z: "sec_free (bare (slots s x)) = sec_free (bare (slots s y))"
        "unat (sec_start z) = unat (sec_start (bare (slots s x)))"
        "sec_free z = sec_free (bare (slots s y))"
        "unat (sec_pages z) = unat (sec_pages (bare (slots s x))) + unat (sec_pages (bare (slots s y)))"
        using add True by (simp_all add: z_def e(3))
      note m = page_state_merge [OF T z]
      have S1: "page_state (secs (slots s1) (as @ x # cs)) = page_state (secs (slots s) (as @ bs))"
        and T1: "tiles 0 (secs (slots s1) (as @ x # cs))"
        using m by (simp_all only: bs secs_simps e(1,2) z_def [symmetric])
      have nz: "sec_pages (slots s x) + sec_pages (slots s y) \<noteq> 0"
        if "sec_pages (slots s x) \<noteq> 0 \<or> sec_pages (slots s y) \<noteq> 0"
        using that add by (auto simp: unat_eq_zero)
      have G: "first_mib (hd (secs (slots s) (as @ bs)))" "guarded (last (secs (slots s) (as @ bs)))"
        using less.prems by (simp_all only: pmm_wf_def)
      have hd0: "hd (secs (slots s) (as @ bs)) =
          (if as = [] then bare (slots s x) else hd (secs (slots s) as))"
        and hd1: "hd (secs (slots s1) (as @ x # cs)) =
          (if as = [] then bare (slots s1 x) else hd (secs (slots s) as))"
        by (simp_all add: hd_append bs e(1))
      have "first_mib (hd (secs (slots s1) (as @ x # cs)))"
        using G(1) nz unfolding hd0 hd1 by (auto simp: first_mib_def e(3) split: if_splits)
      moreover
      have last0: "last (secs (slots s) (as @ bs)) =
          (if cs = [] then bare (slots s y) else last (secs (slots s) cs))"
        and last1: "last (secs (slots s1) (as @ x # cs)) =
          (if cs = [] then bare (slots s1 x) else last (secs (slots s) cs))"
        by (simp_all add: bs e(2))
      have "guarded (last (secs (slots s1) (as @ x # cs)))"
        using G(2) nz True unfolding last0 last1 by (auto simp: guarded_def e(3) split: if_splits)
      ultimately have "pmm_wf ((as @ [x]) @ cs) s1"
        using l1 T1 by (simp add: pmm_wf_def)
      then have "\<exists>d' s'. pmm_recombine_pass (hd_ptr cs None) True s1 = Some (d', s') \<and>
          pass_done (as @ [x]) cs True d' s1 s'"
        by (intro less.hyps) (simp_all add: bs)
      then obtain d' s' js where r1: "pmm_recombine_pass (hd_ptr cs None) True s1 = Some (d', s')"
        and t': "tight ((as @ [x]) @ cs) s1 \<longrightarrow> tight ((as @ [x]) @ js) s'"
        and p: "pmm_wf ((as @ [x]) @ js) s'" "pmm_frame s1 s'"
          "page_state (secs (slots s') ((as @ [x]) @ js)) = page_state (secs (slots s1) ((as @ [x]) @ cs))"
          "free_memory s' = free_memory s1" "pmm_section_head s' = pmm_section_head s1"
          "length js \<le> length cs" "d'"
        unfolding pass_done_def by blast
      have "tight ((as @ [x]) @ cs) s1" if t: "tight (as @ bs) s"
        using t nz unfolding tight_def bs append.assoc append_Cons append_Nil secs_simps e set_append
        by simp
      then have tt: "tight (as @ bs) s \<longrightarrow> tight (as @ x # js) s'" using t' by simp
      have "page_state (secs (slots s') (as @ x # js)) = page_state (secs (slots s) (as @ bs))"
        using p(3) unfolding S1 [symmetric] by simp
      moreover have "length (x # js) < length bs"
        using p(6) by (simp add: bs)
      ultimately have "pass_done as bs d d' s s'"
        unfolding pass_done_def using p(1,7) tt pmm_frame_trans [OF f1(1) p(2)] p(4,5) f1(2,3)
        by (intro exI [of _ "x # js"]) simp
      then show ?thesis
        using run r1 by (simp add: bs)
    qed
  qed
qed

lemma pmm_recombine_run:
  assumes "pmm_wf is s"
  shows "\<exists>s' is'. pmm_recombine s = Some s' \<and> pmm_wf is' s' \<and> pmm_frame s s' \<and> (tight is s \<longrightarrow> tight is' s') \<and>
    no_twins (secs (slots s') is') \<and> length is' \<le> length is \<and>
    page_state (secs (slots s') is') = page_state (secs (slots s) is) \<and>
    free_memory s' = free_memory s \<and> pmm_section_head s' = pmm_section_head s"
  using assms
proof (induction "length is" arbitrary: "is" s rule: less_induct)
  case less
  have h: "pmm_sections s = hd_ptr is None"
    using less.prems by (simp add: pmm_wf_def pmm_links_def)
  from pmm_recombine_pass_run [of "[]" "is" s False] less.prems obtain d' s1 cs where
    run: "pmm_recombine_pass (hd_ptr is None) False s = Some (d', s1)"
    and t1: "tight is s \<longrightarrow> tight cs s1"
    and p: "pmm_wf cs s1" "pmm_frame s s1" "page_state (secs (slots s1) cs) = page_state (secs (slots s) is)"
      "free_memory s1 = free_memory s" "pmm_section_head s1 = pmm_section_head s"
      "length cs \<le> length is" "\<not> d' \<longrightarrow> s1 = s \<and> no_twins (secs (slots s) is)"
      "d' \<longrightarrow> length cs < length is"
    unfolding pass_done_def append_Nil by blast
  show ?case
  proof (cases d')
    case False
    then show ?thesis
      using run p less.prems h by (auto simp: pmm_recombine.simps [of s])
  next
    case True
    then have "\<exists>s' is'. pmm_recombine s1 = Some s' \<and> pmm_wf is' s' \<and> pmm_frame s1 s' \<and> (tight cs s1 \<longrightarrow> tight is' s') \<and>
      no_twins (secs (slots s') is') \<and> length is' \<le> length cs \<and>
      page_state (secs (slots s') is') = page_state (secs (slots s1) cs) \<and>
      free_memory s' = free_memory s1 \<and> pmm_section_head s' = pmm_section_head s1"
      using p by (intro less.hyps) simp_all
    moreover have "pmm_recombine s = pmm_recombine s1"
      using run True h by (simp add: pmm_recombine.simps [of s])
    ultimately show ?thesis
      using p t1 pmm_frame_trans [OF p(2)] by fastforce
  qed
qed

text \<open>C19:
  \<open>pmm_recombine\<close> ends on every well-formed section list. It leaves the memory map, the free memory
  and the used slots as they are, and no two neighbouring sections of the result have the
  same state.
\<close>

theorem pmm_recombine_ends:
  assumes "pmm_wf is s"
  shows "\<exists>s' is'. pmm_recombine s = Some s' \<and> pmm_wf is' s' \<and> pmm_frame s s' \<and>
    no_twins (secs (slots s') is') \<and> length is' \<le> length is \<and>
    page_state (secs (slots s') is') = page_state (secs (slots s) is) \<and>
    free_memory s' = free_memory s \<and> pmm_section_head s' = pmm_section_head s"
  using pmm_recombine_run [OF assms] by blast

lemma pmm_recombine_ends_witness:
  "\<exists>s'. pmm_recombine small_memory = Some s' \<and> free_memory s' = 0x8000"
  using pmm_recombine_ends [OF small_memory_wf] by (auto simp: small_memory_def)

end
