(* ===== verification/Pmm_Start.thy ===== *)
theory Pmm_Start
  imports Pfa
begin

text \<open>
  Building the section list from the boot loader's memory map: \<open>pmm_start\<close> of \<open>pmm.c\<close>, with the
  memory map of \<open>boot/protocol.h\<close> as a list of entries.
\<close>

section \<open>The memory map\<close>

record memory_map_entry =
  me_base :: u64
  me_length :: u64
  me_signal :: u64

abbreviation MEMORY_MAP_FREE :: u64 where "MEMORY_MAP_FREE \<equiv> 0"
abbreviation MEMORY_MAP_BUSY :: u64 where "MEMORY_MAP_BUSY \<equiv> 1"
abbreviation MEMORY_MAP_MMIO :: u64 where "MEMORY_MAP_MMIO \<equiv> 2"
abbreviation MEMORY_MAP_NOUSE :: u64 where "MEMORY_MAP_NOUSE \<equiv> 3"

abbreviation MEGABYTE :: u64 where "MEGABYTE \<equiv> 0x100000"
abbreviation ROUND_OFF :: u64 where "ROUND_OFF \<equiv> 64"
abbreviation MAX_PMM_HEADER_PROPORTION :: u64 where "MAX_PMM_HEADER_PROPORTION \<equiv> 64"

definition pmm_interpret_signal :: "u64 \<Rightarrow> u64" where
  "pmm_interpret_signal signal =
     (if signal = MEMORY_MAP_BUSY then PMM_SECTION_USED
      else if signal = MEMORY_MAP_FREE then PMM_SECTION_FREE
      else PMM_SECTION_BAD)"

text \<open>\<open>memtype_string\<close> of \<open>pmm.h\<close> and \<open>__memstate_string\<close> of \<open>pmm.c\<close>.\<close>

definition memtype_string :: "u32 \<Rightarrow> string" where
  "memtype_string type =
     (if type = 0 then ''free'' else if type = 1 then ''used'' else if type = 2 then ''mmio''
      else if type = 3 then ''bad'' else ''unidentifiable'')"

definition memstate_string :: "u64 \<Rightarrow> string" where
  "memstate_string state =
     (if state = PMM_SECTION_FREE then ''FREE'' else if state = PMM_SECTION_USED then ''USED''
      else if state = PMM_SECTION_BAD then ''BAD.'' else ''ERR!'')"

section \<open>Sizes\<close>

definition pmm_usable_memory :: "memory_map_entry list \<Rightarrow> u64" where
  "pmm_usable_memory entries =
     foldl (\<lambda>n e. if me_signal e = MEMORY_MAP_FREE then n + me_length e else n) 0 entries"

text \<open>Rounded up to a multiple of 64 MiB.\<close>

definition pmm_estimate :: "u64 \<Rightarrow> u64" where
  "pmm_estimate free =
     (let n = free div (ROUND_OFF * MEGABYTE);
          n = (if free mod (ROUND_OFF * MEGABYTE) \<noteq> 0 then n + 1 else n)
      in n * (ROUND_OFF * MEGABYTE))"

definition pages_of :: "u64 \<Rightarrow> u64" where
  "pages_of bytes = bytes div PAGING_PAGE_SIZE + (if bytes mod PAGING_PAGE_SIZE \<noteq> 0 then 1 else 0)"

text \<open>The area of the section slots: the first free entry that is large enough.\<close>

definition pmm_find_area :: "u64 \<Rightarrow> memory_map_entry list \<Rightarrow> u64 option" where
  "pmm_find_area bytes entries =
     map_option me_base (find (\<lambda>e. me_signal e = MEMORY_MAP_FREE \<and> me_length e \<ge> bytes) entries)"

section \<open>Building the list\<close>

definition pmm_first_section :: "'z pmm_state_scheme \<Rightarrow> 'z pmm_state_scheme option" where
  "pmm_first_section s = st (\<lambda>_. \<lparr>sec_prev = None, sec_next = None, sec_start = 0,
     sec_pages = MEGABYTE div PAGING_PAGE_SIZE, sec_free = PMM_SECTION_BAD\<rparr>) (pmm_sections s) s"

text \<open>A bad section that fills the gap between \<open>current->prev\<close> and \<open>current\<close>.\<close>

definition pmm_fill_gap :: "nat option \<Rightarrow> 'z pmm_state_scheme \<Rightarrow> 'z pmm_state_scheme option" where
  "pmm_fill_gap current s = do {
     prev \<leftarrow> ld sec_prev current s;
     p_start \<leftarrow> ld sec_start prev s;
     p_pages \<leftarrow> ld sec_pages prev s;
     c_start \<leftarrow> ld sec_start current s;
     if p_start + p_pages * PAGING_PAGE_SIZE = c_start then Some s
     else do {
       (new, s) \<leftarrow> pmm_new_section s;
       s \<leftarrow> st (sec_next_update (\<lambda>_. new)) prev s;
       s \<leftarrow> st (sec_prev_update (\<lambda>_. prev)) new s;
       s \<leftarrow> st (sec_next_update (\<lambda>_. current)) new s;
       p_start \<leftarrow> ld sec_start prev s;
       p_pages \<leftarrow> ld sec_pages prev s;
       s \<leftarrow> st (sec_start_update (\<lambda>_. p_start + p_pages * PAGING_PAGE_SIZE)) new s;
       n_start \<leftarrow> ld sec_start new s;
       s \<leftarrow> st (sec_pages_update (\<lambda>_. pages_of (c_start - n_start))) new s;
       s \<leftarrow> st (sec_free_update (\<lambda>_. PMM_SECTION_BAD)) new s;
       st (sec_prev_update (\<lambda>_. new)) current s } }"

definition pmm_place_entry ::
    "nat option \<Rightarrow> memory_map_entry \<Rightarrow> 'z pmm_state_scheme \<Rightarrow>
      (nat option \<times> 'z pmm_state_scheme) option" where
  "pmm_place_entry current e s = do {
     c_start \<leftarrow> ld sec_start current s;
     if me_base e = c_start then Some (current, s)
     else do {
       (new, s) \<leftarrow> pmm_new_section s;
       s \<leftarrow> st (sec_next_update (\<lambda>_. new)) current s;
       s \<leftarrow> st (\<lambda>x. x\<lparr>sec_prev := current, sec_next := None, sec_start := me_base e,
              sec_free := pmm_interpret_signal (me_signal e),
              sec_pages := pages_of (me_length e)\<rparr>) new s;
       s \<leftarrow> pmm_fill_gap new s;
       Some (new, s) } }"

fun pmm_place_entries ::
    "nat option \<Rightarrow> memory_map_entry list \<Rightarrow> 'z pmm_state_scheme \<Rightarrow> 'z pmm_state_scheme option" where
  "pmm_place_entries current [] s = Some s"
| "pmm_place_entries current (e # es) s = do {
     (current, s) \<leftarrow> pmm_place_entry current e s;
     pmm_place_entries current es s }"

definition pmm_start ::
    "memory_map_entry list \<Rightarrow> 'z pmm_state_scheme \<Rightarrow> 'z pmm_state_scheme option" where
  "pmm_start entries s =
     (if pfa_allowing_allocations s then Some s
      else do {
        let total = pmm_estimate (pmm_usable_memory entries);
        let bytes = total div MAX_PMM_HEADER_PROPORTION;
        let s = s\<lparr>free_memory := pmm_usable_memory entries, pmm_section_head := 0,
                 estimated_total_memory := total, pmm_data_size := bytes\<rparr>;
        let s = (case pmm_find_area bytes entries of
                   None \<Rightarrow> s | Some base \<Rightarrow> pmm_section_manager_create base s);
        s \<leftarrow> pmm_first_section s;
        s \<leftarrow> pmm_place_entries (pmm_sections s) entries s;
        s \<leftarrow> pmm_recombine s;
        s \<leftarrow> pmm_recalculate_free_memory s;
        let s = s\<lparr>pfa_allowing_allocations := True\<rparr>;
        pmm_lock_pages (pmm_base s) (pages_of (pmm_data_size s)) s })"

end
