(* ===== verification/Paging.thy ===== *)
theory Paging
  imports Pmm_Start
begin

text \<open>
  The four-level page tables: \<open>kernel/src/mem/paging/paging.h\<close>, \<open>paging.c\<close> and \<open>reload.c\<close>. The
  kernel reaches a table at its physical address, so the tables are a store from the physical
  address of an entry to the entry. The operations allocate tables from the physical memory
  manager; its NULL result is written through and faults (page 0 is never mapped).
\<close>

section \<open>Descriptors\<close>

abbreviation PAGING_FLAG_PRESENT :: u64 where "PAGING_FLAG_PRESENT \<equiv> 0x001"
abbreviation PAGING_FLAGS_KERNEL_PAGE :: u16 where "PAGING_FLAGS_KERNEL_PAGE \<equiv> 0x003"
abbreviation PAGING_FLAGS_USER_PAGE :: u16 where "PAGING_FLAGS_USER_PAGE \<equiv> 0x007"
abbreviation PAGING_FLAGS_MMIO_PAGE :: u16 where "PAGING_FLAGS_MMIO_PAGE \<equiv> 0x01b"
abbreviation PAGING_VIRTUAL_OFFSET :: u64 where "PAGING_VIRTUAL_OFFSET \<equiv> 0xffff800000000000"

type_synonym paging_desc = u64

definition paging_desc_set_address :: "u64 \<Rightarrow> paging_desc \<Rightarrow> paging_desc" where
  "paging_desc_set_address address d = d OR (address AND 0xffffffffff000)"

definition paging_desc_get_address :: "paging_desc \<Rightarrow> u64" where
  "paging_desc_get_address d = d AND 0xffffffffff000"

definition paging_desc_get_flag :: "u64 \<Rightarrow> paging_desc \<Rightarrow> bool" where
  "paging_desc_get_flag flag d \<longleftrightarrow> d AND flag \<noteq> 0"

definition paging_desc_set_flag :: "u64 \<Rightarrow> bool \<Rightarrow> paging_desc \<Rightarrow> paging_desc" where
  "paging_desc_set_flag flag v d =
     (let d = d AND NOT flag in if v then d OR flag else d)"

definition paging_desc_set_flags :: "u64 \<Rightarrow> paging_desc \<Rightarrow> paging_desc" where
  "paging_desc_set_flags flags d = (d AND NOT 0x0fff) OR flags"

record paging_indexer =
  ix_pml4 :: u16
  ix_pml3 :: u16
  ix_pml2 :: u16
  ix_pml1 :: u16

definition paging_indexer_assign :: "u64 \<Rightarrow> paging_indexer" where
  "paging_indexer_assign address =
     (let a = drop_bit 12 address; b = drop_bit 9 a; c = drop_bit 9 b; d = drop_bit 9 c
      in \<lparr>ix_pml4 = ucast (d AND 0x1ff), ix_pml3 = ucast (c AND 0x1ff),
          ix_pml2 = ucast (b AND 0x1ff), ix_pml1 = ucast (a AND 0x1ff)\<rparr>)"

section \<open>Tables\<close>

record paging_state = pmm_state +
  pml4 :: u64
  table_mem :: "u64 \<Rightarrow> paging_desc"

text \<open>\<open>&table->entries[i]\<close>\<close>

definition entry_at :: "u64 \<Rightarrow> u16 \<Rightarrow> u64" where
  "entry_at table i = table + 8 * ucast i"

definition get_entry :: "u64 \<Rightarrow> u16 \<Rightarrow> 'z paging_state_scheme \<Rightarrow> paging_desc" where
  "get_entry table i s = table_mem s (entry_at table i)"

definition set_entry ::
    "u64 \<Rightarrow> u16 \<Rightarrow> paging_desc \<Rightarrow> 'z paging_state_scheme \<Rightarrow> 'z paging_state_scheme" where
  "set_entry table i d s = s\<lparr>table_mem := (table_mem s)(entry_at table i := d)\<rparr>"

text \<open>\<open>memset(table, 0, PAGING_PAGE_SIZE)\<close>\<close>

definition zero_table :: "u64 \<Rightarrow> 'z paging_state_scheme \<Rightarrow> 'z paging_state_scheme option" where
  "zero_table table s =
     (if table = 0 then None
      else Some (s\<lparr>table_mem := (\<lambda>a. if unat (a - table) < 4096 then 0 else table_mem s a)\<rparr>))"

section \<open>Mapping a page\<close>

text \<open>
  One level of the walk of \<open>paging_map_page\<close>: the table behind the entry, which is created when it
  is missing. \<open>map_self\<close> is the recursive call, which maps the new table at its own address.
\<close>

definition paging_descend ::
    "(u64 \<Rightarrow> 'z paging_state_scheme \<Rightarrow> 'z paging_state_scheme option) \<Rightarrow> u64 \<Rightarrow> u16 \<Rightarrow> u16 \<Rightarrow>
      'z paging_state_scheme \<Rightarrow> (u64 \<times> 'z paging_state_scheme) option" where
  "paging_descend map_self table i flags s = do {
     let pde = get_entry table i s;
     if \<not> paging_desc_get_flag PAGING_FLAG_PRESENT pde
     then do {
       (new_table, s) \<leftarrow> pmm_alloc_page s;
       s \<leftarrow> zero_table new_table s;
       let pde = paging_desc_set_address new_table pde;
       let pde = paging_desc_set_flag PAGING_FLAG_PRESENT True pde;
       let pde = pde OR ucast flags;
       s \<leftarrow> map_self new_table (set_entry table i pde s);
       Some (new_table, s) }
     else Some (paging_desc_get_address pde,
                set_entry table i (get_entry table i s OR ucast flags) s) }"

lemma paging_descend_mono [partial_function_mono]:
  assumes "\<And>t s. mono_option (\<lambda>f. g f t s)"
  shows "mono_option (\<lambda>f. paging_descend (g f) table i flags s)"
  unfolding paging_descend_def Let_def
  by (intro partial_function_mono assms) (auto split: prod.split intro!: partial_function_mono assms)

partial_function (option) paging_map_page ::
    "u64 \<Rightarrow> u64 \<Rightarrow> u16 \<Rightarrow> 'z paging_state_scheme \<Rightarrow> 'z paging_state_scheme option" where
  "paging_map_page virt phys flags0 s = do {
     let flags = flags0 AND 0x0fff;
     let ix = paging_indexer_assign virt;
     (pdp, s) \<leftarrow> paging_descend (\<lambda>t s. paging_map_page t t PAGING_FLAGS_KERNEL_PAGE s)
                   (pml4 s) (ix_pml4 ix) flags s;
     (pd, s) \<leftarrow> paging_descend (\<lambda>t s. paging_map_page t t PAGING_FLAGS_KERNEL_PAGE s)
                   pdp (ix_pml3 ix) flags s;
     (pt, s) \<leftarrow> paging_descend (\<lambda>t s. paging_map_page t t PAGING_FLAGS_KERNEL_PAGE s)
                   pd (ix_pml2 ix) flags s;
     let pde = get_entry pt (ix_pml1 ix) s;
     let pde = paging_desc_set_address phys pde;
     let pde = paging_desc_set_flag PAGING_FLAG_PRESENT True pde;
     let pde = paging_desc_set_flags (ucast flags) pde;
     Some (set_entry pt (ix_pml1 ix) pde s) }"

section \<open>Reading and changing a mapping\<close>

text \<open>The walk to the lowest table; \<open>None\<close> when an entry on the way is not present.\<close>

definition paging_find_pt :: "u64 \<Rightarrow> 'z paging_state_scheme \<Rightarrow> u64 option" where
  "paging_find_pt virt s = (
     let ix = paging_indexer_assign virt; pde = get_entry (pml4 s) (ix_pml4 ix) s
     in if \<not> paging_desc_get_flag PAGING_FLAG_PRESENT pde then None
     else let pdp = paging_desc_get_address pde; pde = get_entry pdp (ix_pml3 ix) s
     in if \<not> paging_desc_get_flag PAGING_FLAG_PRESENT pde then None
     else let pd = paging_desc_get_address pde; pde = get_entry pd (ix_pml2 ix) s
     in if \<not> paging_desc_get_flag PAGING_FLAG_PRESENT pde then None
     else Some (paging_desc_get_address pde))"

definition paging_walk_page :: "u64 \<Rightarrow> 'z paging_state_scheme \<Rightarrow> u64" where
  "paging_walk_page virt s =
     (case paging_find_pt virt s of None \<Rightarrow> 0
      | Some pt \<Rightarrow>
          paging_desc_get_address (get_entry pt (ix_pml1 (paging_indexer_assign virt)) s))"

text \<open>\<open>paging_unmap_page\<close>; \<open>invlpg\<close> has no counterpart in the model.\<close>

definition paging_unmap_page :: "u64 \<Rightarrow> 'z paging_state_scheme \<Rightarrow> 'z paging_state_scheme" where
  "paging_unmap_page virt s =
     (case paging_find_pt virt s of None \<Rightarrow> s
      | Some pt \<Rightarrow> set_entry pt (ix_pml1 (paging_indexer_assign virt)) 0 s)"

text \<open>Entries on the way are taken without a test whether they are present.\<close>

definition paging_edit_page ::
    "u64 \<Rightarrow> u16 \<Rightarrow> 'z paging_state_scheme \<Rightarrow> 'z paging_state_scheme" where
  "paging_edit_page virt flags s =
     (let ix = paging_indexer_assign virt;
          pde = get_entry (pml4 s) (ix_pml4 ix) s;
          s = set_entry (pml4 s) (ix_pml4 ix) (get_entry (pml4 s) (ix_pml4 ix) s OR ucast flags) s;
          pdp = paging_desc_get_address pde;
          s = set_entry pdp (ix_pml3 ix) (get_entry pdp (ix_pml3 ix) s OR ucast flags) s;
          pde = get_entry pdp (ix_pml3 ix) s;
          pd = paging_desc_get_address pde;
          s = set_entry pd (ix_pml2 ix) (get_entry pd (ix_pml2 ix) s OR ucast flags) s;
          pde = get_entry pd (ix_pml2 ix) s;
          pt = paging_desc_get_address pde
      in set_entry pt (ix_pml1 ix)
           (paging_desc_set_flags (ucast flags) (get_entry pt (ix_pml1 ix) s)) s)"

text \<open>
  \<open>paging_map_page(new, paging_desc_get_address(&old_pde), old_pde &= 0x0fff)\<close>: C leaves open which
  argument is evaluated first. \<open>flags_first\<close> says that the assignment in the last argument happens
  before the address is read from \<open>old_pde\<close>. The result is NULL (0) or the new address.
\<close>

definition paging_remap_page ::
    "bool \<Rightarrow> u64 \<Rightarrow> u64 \<Rightarrow> 'z paging_state_scheme \<Rightarrow> (u64 \<times> 'z paging_state_scheme) option" where
  "paging_remap_page flags_first old new s =
     (case paging_find_pt old s of None \<Rightarrow> Some (0, s)
      | Some pt \<Rightarrow> do {
          let old_pde = get_entry pt (ix_pml1 (paging_indexer_assign old)) s;
          let s = paging_unmap_page old s;
          let flags = old_pde AND 0x0fff;
          let phys = paging_desc_get_address (if flags_first then flags else old_pde);
          s \<leftarrow> paging_map_page new phys (ucast flags) s;
          Some (new, s) })"

definition paging_load_pml4 :: "u64 \<Rightarrow> 'z paging_state_scheme \<Rightarrow> 'z paging_state_scheme" where
  "paging_load_pml4 new s = s\<lparr>pml4 := new\<rparr>"

definition paging_get_pml4 :: "'z paging_state_scheme \<Rightarrow> u64" where
  "paging_get_pml4 s = pml4 s"

section \<open>Reloading the kernel's map\<close>

text \<open>\<open>for (t = first; t < stop; t += PAGING_PAGE_SIZE) body\<close>; the counter can wrap.\<close>

partial_function (option) for_page_range ::
    "(u64 \<Rightarrow> 'z paging_state_scheme \<Rightarrow> 'z paging_state_scheme option) \<Rightarrow> u64 \<Rightarrow> u64 \<Rightarrow>
      'z paging_state_scheme \<Rightarrow> 'z paging_state_scheme option" where
  "for_page_range body t stop s =
     (if t < stop then do { s \<leftarrow> body t s; for_page_range body (t + PAGING_PAGE_SIZE) stop s }
      else Some s)"

fun paging_map_entries ::
    "memory_map_entry list \<Rightarrow> 'z paging_state_scheme \<Rightarrow> 'z paging_state_scheme option" where
  "paging_map_entries [] s = Some s"
| "paging_map_entries (e # es) s = do {
     s \<leftarrow> (if me_signal e \<noteq> MEMORY_MAP_NOUSE
           then for_page_range (\<lambda>t s. do {
                  s \<leftarrow> paging_map_page t t PAGING_FLAGS_KERNEL_PAGE s;
                  paging_map_page (t + PAGING_VIRTUAL_OFFSET) t PAGING_FLAGS_KERNEL_PAGE s })
                (me_base e) (me_base e + me_length e) s
           else Some s);
     paging_map_entries es s }"

text \<open>
  \<open>load_max\<close> is the address of the linker's symbol \<open>__load_max\<close>. The value loaded into CR3 is the
  physical address the new tables give for \<open>pml4\<close>.
\<close>

definition paging_reload_kernel_map ::
    "memory_map_entry list \<Rightarrow> u64 \<Rightarrow> u64 \<Rightarrow> u64 \<Rightarrow> 'z paging_state_scheme \<Rightarrow>
      (u64 \<times> 'z paging_state_scheme) option" where
  "paging_reload_kernel_map entries kernel_phys virtual_offset load_max s = do {
     (table, s) \<leftarrow> pmm_alloc_page s;
     s \<leftarrow> zero_table table (s\<lparr>pml4 := table\<rparr>);
     s \<leftarrow> paging_map_entries entries s;
     s \<leftarrow> for_page_range (\<lambda>t s. paging_map_page (kernel_phys + virtual_offset + t) (kernel_phys + t)
            PAGING_FLAGS_KERNEL_PAGE s)
          0 (load_max - (kernel_phys + virtual_offset)) s;
     Some (paging_walk_page (pml4 s) s, s) }"

end
