(* ===== verification/Paging_Props.thy ===== *)
theory Paging_Props
  imports Paging Pmm_Inv
begin

text \<open>
  What the page table operations guarantee when the tables of an address exist. Only the entry of
  the lowest table changes its address; on the way down flags are added to entries that are
  present already, which neither moves nor hides a table, whatever tables are shared.
\<close>

section \<open>Descriptors\<close>

lemma address_mask: "(0xffffffffff000 :: u64) = push_bit 12 (mask 40)"
  by (simp add: mask_eq_exp_minus_1)

lemma low_mask: "(0x0fff :: u64) = mask 12" "(0x0fff :: u16) = mask 12"
  by (simp_all add: mask_eq_exp_minus_1)

lemma get_address_or_flags:
  fixes f :: u16
  shows "paging_desc_get_address (d OR ucast (f AND 0x0fff)) = paging_desc_get_address d"
  unfolding paging_desc_get_address_def address_mask low_mask
  by (rule bit_eqI) (auto simp: bit_simps)

lemma present_iff: "paging_desc_get_flag PAGING_FLAG_PRESENT d \<longleftrightarrow> bit d 0"
  by (simp add: paging_desc_get_flag_def and_one_eq mod_2_eq_odd bit_0)

lemma present_or:
  "paging_desc_get_flag PAGING_FLAG_PRESENT d \<Longrightarrow> paging_desc_get_flag PAGING_FLAG_PRESENT (d OR e)"
  by (simp add: present_iff bit_simps)

lemma leaf_address:
  fixes f :: u16
  shows "paging_desc_get_address (paging_desc_set_flags (ucast (f AND 0x0fff))
      (paging_desc_set_flag PAGING_FLAG_PRESENT True (paging_desc_set_address p d))) =
    paging_desc_get_address d OR (p AND 0xffffffffff000)"
  unfolding paging_desc_get_address_def paging_desc_set_flags_def paging_desc_set_flag_def
    paging_desc_set_address_def address_mask low_mask Let_def
  by (rule bit_eqI) (auto simp: bit_simps)

section \<open>The four indices\<close>

lemma index_field:
  fixes a :: u64
  assumes "k + 9 \<le> 48"
  shows "push_bit k (ucast (ucast (drop_bit k a AND mask 9) :: u16)) = a AND push_bit k (mask 9)"
proof (rule bit_eqI)
  fix n
  assume n: "possible_bit TYPE(64 word) n"
  have "bit a (k + (n - k)) = bit a n" if "k \<le> n" using that by simp
  moreover have "n - k < 16" "n - k < 64" "n < 64" if "n - k < 9" "k \<le> n" using that assms by simp_all
  ultimately show "bit (push_bit k (ucast (ucast (drop_bit k a AND mask 9) :: u16)) :: u64) n =
      bit (a AND push_bit k (mask 9)) n"
    using n by (auto simp: bit_simps)
qed

text \<open>
  \<open>paging_indexer_assign\<close> loses nothing of a page's address: the four indices are below 512, and
  together with the offset they give back the low 48 bits of the address.
\<close>

theorem paging_indexer_roundtrip:
  "unat (ix_pml4 (paging_indexer_assign a)) < 512 \<and> unat (ix_pml3 (paging_indexer_assign a)) < 512 \<and>
   unat (ix_pml2 (paging_indexer_assign a)) < 512 \<and> unat (ix_pml1 (paging_indexer_assign a)) < 512 \<and>
   push_bit 39 (ucast (ix_pml4 (paging_indexer_assign a))) OR
   push_bit 30 (ucast (ix_pml3 (paging_indexer_assign a))) OR
   push_bit 21 (ucast (ix_pml2 (paging_indexer_assign a))) OR
   push_bit 12 (ucast (ix_pml1 (paging_indexer_assign a))) OR (a AND 0xfff) = a AND mask 48"
proof -
  have m: "(0x1ff :: u64) = mask 9" by (simp add: mask_eq_exp_minus_1)
  have lt: "unat (ucast (d AND 0x1ff) :: u16) < 512" for d :: u64
  proof -
    have "(ucast (d AND 0x1ff) :: u16) = ucast d AND mask 9"
      unfolding m by (rule bit_eqI) (auto simp: bit_simps)
    then show ?thesis
      using and_mask_less_size [of 9 "ucast d :: u16"] by (simp add: word_less_nat_alt word_size)
  qed
  have d: "drop_bit 9 (drop_bit 12 a) = drop_bit 21 a" "drop_bit 9 (drop_bit 21 a) = drop_bit 30 a"
    "drop_bit 9 (drop_bit 30 a) = drop_bit 39 a"
    by (simp_all add: drop_bit_drop_bit)
  have c: "push_bit 39 (mask 9) OR (push_bit 30 (mask 9) OR (push_bit 21 (mask 9) OR
      (push_bit 12 (mask 9) OR 0xfff))) = (mask 48 :: u64)"
    by (simp add: mask_eq_exp_minus_1)
  have "a AND push_bit 39 (mask 9) OR a AND push_bit 30 (mask 9) OR a AND push_bit 21 (mask 9) OR
      a AND push_bit 12 (mask 9) OR a AND 0xfff = a AND mask 48"
    unfolding c [symmetric] by (simp only: bit.conj_disj_distrib or.assoc)
  then show ?thesis
    using lt unfolding paging_indexer_assign_def Let_def m paging_indexer.simps d
    by (simp only: index_field)
qed

section \<open>The walk\<close>

text \<open>The addresses of the four entries that the walk for \<open>v\<close> reads, from the top.\<close>

definition walk_entries :: "u64 \<Rightarrow> (u64 \<Rightarrow> paging_desc) \<Rightarrow> u64 \<Rightarrow> u64 list" where
  "walk_entries root t v =
     (let ix = paging_indexer_assign v;
          e4 = entry_at root (ix_pml4 ix);
          e3 = entry_at (paging_desc_get_address (t e4)) (ix_pml3 ix);
          e2 = entry_at (paging_desc_get_address (t e3)) (ix_pml2 ix);
          e1 = entry_at (paging_desc_get_address (t e2)) (ix_pml1 ix)
      in [e4, e3, e2, e1])"

definition leaf_entry :: "u64 \<Rightarrow> (u64 \<Rightarrow> paging_desc) \<Rightarrow> u64 \<Rightarrow> u64" where
  "leaf_entry root t v = walk_entries root t v ! 3"

definition tables_present :: "u64 \<Rightarrow> (u64 \<Rightarrow> paging_desc) \<Rightarrow> u64 \<Rightarrow> bool" where
  "tables_present root t v \<longleftrightarrow>
     (\<forall>e \<in> set (take 3 (walk_entries root t v)). paging_desc_get_flag PAGING_FLAG_PRESENT (t e))"

lemma paging_find_pt_walk:
  "paging_find_pt v s =
     (if tables_present (pml4 s) (table_mem s) v
      then Some (paging_desc_get_address (table_mem s (walk_entries (pml4 s) (table_mem s) v ! 2)))
      else None)"
  by (simp add: paging_find_pt_def tables_present_def walk_entries_def get_entry_def Let_def)

lemma paging_walk_page_leaf:
  "paging_walk_page v s =
     (if tables_present (pml4 s) (table_mem s) v
      then paging_desc_get_address (table_mem s (leaf_entry (pml4 s) (table_mem s) v)) else 0)"
  by (simp add: paging_walk_page_def paging_find_pt_walk leaf_entry_def walk_entries_def
      get_entry_def Let_def numeral_eq_Suc)

text \<open>Tables that agree in presence and address everywhere but in the entry \<open>x\<close>.\<close>

definition agree_but :: "u64 \<Rightarrow> (u64 \<Rightarrow> paging_desc) \<Rightarrow> (u64 \<Rightarrow> paging_desc) \<Rightarrow> bool" where
  "agree_but x t t' \<longleftrightarrow> (\<forall>e. e \<noteq> x \<longrightarrow>
     paging_desc_get_address (t' e) = paging_desc_get_address (t e) \<and>
     paging_desc_get_flag PAGING_FLAG_PRESENT (t' e) = paging_desc_get_flag PAGING_FLAG_PRESENT (t e))"

lemma walk_entries_agree:
  assumes "agree_but x t t'" and "x \<notin> set (take 3 (walk_entries root t v))"
  shows "walk_entries root t' v = walk_entries root t v"
    and "tables_present root t' v = tables_present root t v"
  using assms by (auto simp: walk_entries_def tables_present_def agree_but_def Let_def)

lemma agree_but_flags:
  fixes f :: u16
  assumes "paging_desc_get_flag PAGING_FLAG_PRESENT (t e)"
  shows "agree_but x t (t(e := t e OR ucast (f AND 0x0fff)))"
  using assms present_or [OF assms]
  by (auto simp: agree_but_def get_address_or_flags)

lemma agree_but_upd: "agree_but x t t' \<Longrightarrow> agree_but x t (t'(x := d))"
  by (auto simp: agree_but_def)

lemma agree_but_trans: "agree_but x t t' \<Longrightarrow> agree_but x t' t'' \<Longrightarrow> agree_but x t t''"
  by (auto simp: agree_but_def)

section \<open>Mapping\<close>

lemma paging_descend_present:
  assumes "paging_desc_get_flag PAGING_FLAG_PRESENT (get_entry table i s)"
  shows "paging_descend m table i flags s = Some (paging_desc_get_address (get_entry table i s),
    set_entry table i (get_entry table i s OR ucast flags) s)"
  using assms by (simp add: paging_descend_def Let_def)

lemma paging_map_page_present:
  assumes present: "tables_present (pml4 s) (table_mem s) v"
    and x: "x = leaf_entry (pml4 s) (table_mem s) v"
  shows "\<exists>t. paging_map_page v p f s = Some (s\<lparr>table_mem := t(x :=
      paging_desc_set_flags (ucast (f AND 0x0fff))
        (paging_desc_set_flag PAGING_FLAG_PRESENT True (paging_desc_set_address p (t x))))\<rparr>) \<and>
    (\<forall>y. agree_but y (table_mem s) t)"
proof -
  let ?t = "table_mem s" and ?f = "\<lambda>d. d OR ucast (f AND 0x0fff)"
  define ix where "ix = paging_indexer_assign v"
  define e4 where "e4 = entry_at (pml4 s) (ix_pml4 ix)"
  define e3 where "e3 = entry_at (paging_desc_get_address (?t e4)) (ix_pml3 ix)"
  define e2 where "e2 = entry_at (paging_desc_get_address (?t e3)) (ix_pml2 ix)"
  have x: "x = entry_at (paging_desc_get_address (?t e2)) (ix_pml1 ix)"
    unfolding x leaf_entry_def walk_entries_def Let_def e4_def e3_def e2_def ix_def by simp
  have p: "paging_desc_get_flag PAGING_FLAG_PRESENT (?t e4)"
    "paging_desc_get_flag PAGING_FLAG_PRESENT (?t e3)"
    "paging_desc_get_flag PAGING_FLAG_PRESENT (?t e2)"
    using present unfolding tables_present_def walk_entries_def Let_def e4_def e3_def e2_def ix_def
    by simp_all
  define t1 where "t1 = ?t(e4 := ?f (?t e4))"
  define t2 where "t2 = t1(e3 := ?f (t1 e3))"
  define t3 where "t3 = t2(e2 := ?f (t2 e2))"
  have a1: "agree_but z ?t t1" for z unfolding t1_def by (rule agree_but_flags) (rule p(1))
  have p1: "paging_desc_get_flag PAGING_FLAG_PRESENT (t1 e)
      = paging_desc_get_flag PAGING_FLAG_PRESENT (?t e)"
    "paging_desc_get_address (t1 e) = paging_desc_get_address (?t e)" for e
    using a1 [of "e + 1"] by (simp_all add: agree_but_def)
  have a2: "agree_but z t1 t2" for z
    unfolding t2_def by (rule agree_but_flags) (simp add: p1 p)
  have p2: "paging_desc_get_flag PAGING_FLAG_PRESENT (t2 e)
      = paging_desc_get_flag PAGING_FLAG_PRESENT (?t e)"
    "paging_desc_get_address (t2 e) = paging_desc_get_address (?t e)" for e
    using a2 [of "e + 1"] p1 by (simp_all add: agree_but_def)
  have a3: "agree_but z t2 t3" for z
    unfolding t3_def by (rule agree_but_flags) (simp add: p2 p)
  have run: "paging_map_page v p f s = Some (s\<lparr>table_mem := t3(x :=
      paging_desc_set_flags (ucast (f AND 0x0fff))
        (paging_desc_set_flag PAGING_FLAG_PRESENT True (paging_desc_set_address p (t3 x))))\<rparr>)"
    unfolding paging_map_page.simps [of v p f s] Let_def ix_def [symmetric]
    by (simp add: paging_descend_present get_entry_def set_entry_def e4_def [symmetric]
        e3_def [symmetric] e2_def [symmetric] t1_def [symmetric] t2_def [symmetric]
        t3_def [symmetric] p p1 p2 x [symmetric])
  show ?thesis
    using run agree_but_trans [OF a1 agree_but_trans [OF a2 a3]] by blast
qed

text \<open>
  The lowest entry of \<open>v\<close> is not on the way of the walk for \<open>w\<close>. For \<open>w = v\<close> this says that the
  lowest table is not also one of the upper tables.
\<close>

definition off_path :: "u64 \<Rightarrow> u64 \<Rightarrow> 'z paging_state_scheme \<Rightarrow> bool" where
  "off_path v w s \<longleftrightarrow> leaf_entry (pml4 s) (table_mem s) v \<notin>
     set (take 3 (walk_entries (pml4 s) (table_mem s) w))"

lemma paging_walk_page_agree:
  assumes "agree_but x (table_mem s) t" and "x \<notin> set (take 3 (walk_entries (pml4 s) (table_mem s) w))"
  shows "paging_walk_page w (s\<lparr>table_mem := t\<rparr>) =
    (if tables_present (pml4 s) (table_mem s) w
     then paging_desc_get_address (t (leaf_entry (pml4 s) (table_mem s) w)) else 0)"
  using walk_entries_agree [OF assms] by (simp add: paging_walk_page_leaf leaf_entry_def)

lemma paging_map_page_run:
  assumes present: "tables_present (pml4 s) (table_mem s) v" and off: "off_path v v s"
  shows "\<exists>s'. paging_map_page v p f s = Some s' \<and>
    paging_walk_page v s' = paging_walk_page v s OR (p AND 0xffffffffff000) \<and>
    (\<forall>w. off_path v w s \<and> leaf_entry (pml4 s) (table_mem s) w \<noteq> leaf_entry (pml4 s) (table_mem s) v
      \<longrightarrow> paging_walk_page w s' = paging_walk_page w s)"
proof -
  define x where "x = leaf_entry (pml4 s) (table_mem s) v"
  from paging_map_page_present [OF present x_def, of p f] obtain t where
    run: "paging_map_page v p f s = Some (s\<lparr>table_mem := t(x :=
      paging_desc_set_flags (ucast (f AND 0x0fff))
        (paging_desc_set_flag PAGING_FLAG_PRESENT True (paging_desc_set_address p (t x))))\<rparr>)"
    and a: "\<forall>y. agree_but y (table_mem s) t" by blast
  have a0: "agree_but x (table_mem s) (t(x := d))" for d
    using a by (intro agree_but_upd) simp
  have tx: "paging_desc_get_address (t x) = paging_desc_get_address (table_mem s x)"
    using spec [OF a, of "x + 1"] by (simp add: agree_but_def)
  have "off_path v w s \<Longrightarrow> x \<notin> set (take 3 (walk_entries (pml4 s) (table_mem s) w))" for w
    by (simp add: off_path_def x_def)
  note walk = paging_walk_page_agree [OF a0 this]
  have other: "paging_desc_get_address (t e) = paging_desc_get_address (table_mem s e)" if "e \<noteq> x" for e
    using a0 [of "t x"] that by (simp add: agree_but_def)
  show ?thesis
    using run walk [OF off] walk present tx other
    by (simp add: leaf_address paging_walk_page_leaf x_def [symmetric])
qed

text \<open>
  Mapping a page whose three tables exist returns, and makes the walk for the page yield the new
  frame number OR-ed with the one the entry held before (the entry is not cleared first, so
  mapping a page again does not replace its frame). The walk for every other page is unchanged,
  unless it goes through the very entry that was written.
\<close>

theorem paging_map_then_walk:
  assumes present: "tables_present (pml4 s) (table_mem s) v" and off: "off_path v v s"
  shows "\<exists>s'. paging_map_page v p f s = Some s' \<and>
    paging_walk_page v s' = paging_walk_page v s OR (p AND 0xffffffffff000) \<and>
    (\<forall>w. off_path v w s \<and> leaf_entry (pml4 s) (table_mem s) w \<noteq> leaf_entry (pml4 s) (table_mem s) v
      \<longrightarrow> paging_walk_page w s' = paging_walk_page w s)"
  by (rule paging_map_page_run [OF assms])

section \<open>Unmapping\<close>

lemma paging_unmap_page_run:
  assumes off: "off_path v v s"
  shows "paging_walk_page v (paging_unmap_page v s) = 0 \<and>
    (\<forall>w. off_path v w s \<and> leaf_entry (pml4 s) (table_mem s) w \<noteq> leaf_entry (pml4 s) (table_mem s) v
      \<longrightarrow> paging_walk_page w (paging_unmap_page v s) = paging_walk_page w s)"
proof (cases "tables_present (pml4 s) (table_mem s) v")
  case False
  then show ?thesis by (simp add: paging_unmap_page_def paging_find_pt_walk paging_walk_page_leaf)
next
  case True
  define x where "x = leaf_entry (pml4 s) (table_mem s) v"
  have u: "paging_unmap_page v s = s\<lparr>table_mem := (table_mem s)(x := 0)\<rparr>"
    using True by (simp add: paging_unmap_page_def paging_find_pt_walk set_entry_def x_def
        leaf_entry_def walk_entries_def Let_def numeral_eq_Suc)
  have a: "agree_but x (table_mem s) ((table_mem s)(x := 0))"
    by (simp add: agree_but_def)
  have "off_path v w s \<Longrightarrow> x \<notin> set (take 3 (walk_entries (pml4 s) (table_mem s) w))" for w
    by (simp add: off_path_def x_def)
  note walk = paging_walk_page_agree [OF a this]
  show ?thesis
    unfolding u using walk [OF off] walk
    by (simp add: x_def [symmetric] paging_walk_page_leaf) (simp add: paging_desc_get_address_def)
qed

text \<open>
  After \<open>paging_unmap_page\<close> the walk for the page is NULL, whether its tables existed or not, and the
  walk for every other page is unchanged unless it goes through the cleared entry.
\<close>

theorem paging_unmap_then_walk:
  assumes off: "off_path v v s"
  shows "paging_walk_page v (paging_unmap_page v s) = 0 \<and>
    (\<forall>w. off_path v w s \<and> leaf_entry (pml4 s) (table_mem s) w \<noteq> leaf_entry (pml4 s) (table_mem s) v
      \<longrightarrow> paging_walk_page w (paging_unmap_page v s) = paging_walk_page w s)"
  by (rule paging_unmap_page_run [OF assms])

section \<open>Remapping\<close>

lemma u16_of_low: "(ucast (d AND 0x0fff) :: u16) AND 0x0fff = ucast (d AND (0x0fff :: u64))"
  unfolding low_mask by (rule bit_eqI) (auto simp: bit_simps)

text \<open>
  \<open>paging_remap_page\<close> depends on the order in which the compiler evaluates the arguments of its
  call to \<open>paging_map_page\<close>. When the frame address is read first the new page gets the frame of the
  old one (OR-ed with what its entry held); when the assignment \<open>old_pde &= 0x0fff\<close> comes
  first the frame is lost and the new page keeps only what its entry held before.
\<close>

theorem paging_remap_depends_on_order:
  assumes old: "tables_present (pml4 s) (table_mem s) old" "off_path old old s" "off_path old new s"
    and new: "tables_present (pml4 s) (table_mem s) new" "off_path new new s"
    and ne: "leaf_entry (pml4 s) (table_mem s) new \<noteq> leaf_entry (pml4 s) (table_mem s) old"
  shows "\<exists>s'. paging_remap_page flags_first old new s = Some (new, s') \<and>
    paging_walk_page new s' = paging_walk_page new s OR
      (if flags_first then 0 else paging_walk_page old s)"
proof -
  let ?u = "paging_unmap_page old s"
  define x where "x = leaf_entry (pml4 s) (table_mem s) old"
  have u: "?u = s\<lparr>table_mem := (table_mem s)(x := 0)\<rparr>"
    using old(1) by (simp add: paging_unmap_page_def paging_find_pt_walk set_entry_def x_def
        leaf_entry_def walk_entries_def Let_def numeral_eq_Suc)
  have a: "agree_but x (table_mem s) ((table_mem s)(x := 0))"
    by (simp add: agree_but_def)
  have x: "x \<notin> set (take 3 (walk_entries (pml4 s) (table_mem s) new))"
    using old(3) by (simp add: off_path_def x_def)
  have new': "tables_present (pml4 ?u) (table_mem ?u) new" "off_path new new ?u"
    using walk_entries_agree [OF a x] new by (simp_all add: u off_path_def leaf_entry_def)
  have w: "paging_walk_page new ?u = paging_walk_page new s"
    using paging_unmap_page_run [OF old(2)] old(3) ne by blast
  define d where "d = table_mem s x"
  define phys where "phys = paging_desc_get_address (if flags_first then d AND 0x0fff else d)"
  have run: "paging_remap_page flags_first old new s =
      paging_map_page new phys (ucast (d AND 0x0fff)) ?u \<bind> (\<lambda>s'. Some (new, s'))"
    using old(1) by (simp add: paging_remap_page_def paging_find_pt_walk Let_def get_entry_def
        x_def leaf_entry_def walk_entries_def numeral_eq_Suc d_def phys_def)
  from paging_map_page_run [OF new', of phys "ucast (d AND 0x0fff)"] obtain s' where
    "paging_map_page new phys (ucast (d AND 0x0fff)) ?u = Some s'"
    "paging_walk_page new s' = paging_walk_page new ?u OR (phys AND 0xffffffffff000)" by blast
  moreover have "phys AND 0xffffffffff000 = (if flags_first then 0 else paging_walk_page old s)"
  proof -
    have "(d AND 0x0fff) AND 0xffffffffff000 = 0"
      unfolding address_mask low_mask by (rule bit_eqI) (auto simp: bit_simps)
    then show ?thesis
      using old(1) by (simp add: phys_def paging_desc_get_address_def paging_walk_page_leaf
          d_def x_def and.assoc)
  qed
  ultimately show ?thesis using run w by simp
qed

section \<open>Small page tables\<close>

text \<open>
  Four tables at 0x1000 to 0x4000 that map the page at 0x5000 to the frame at 0xa000.
\<close>

definition small_tables :: "u64 \<Rightarrow> paging_desc" where
  "small_tables a =
     (if a = 0x1000 then 0x2003 else if a = 0x2000 then 0x3003 else if a = 0x3000 then 0x4003
      else if a = 0x4028 then 0xa003 else 0)"

definition small_paging :: paging_state where
  "small_paging = pmm_state.extend small_memory \<lparr>pml4 = 0x1000, table_mem = small_tables\<rparr>"

lemma small_paging_sel [simp]: "pml4 small_paging = 0x1000" "table_mem small_paging = small_tables"
  by (simp_all add: small_paging_def pmm_state.defs)

lemma small_paging_present:
  "tables_present 0x1000 small_tables 0x5000" "tables_present 0x1000 small_tables 0x6000"
  by code_simp+

lemma small_paging_leaf:
  "leaf_entry 0x1000 small_tables 0x5000 = 0x4028" "leaf_entry 0x1000 small_tables 0x6000 = 0x4030"
  by code_simp+

lemma small_paging_off:
  "off_path 0x5000 0x5000 small_paging" "off_path 0x6000 0x6000 small_paging"
  "off_path 0x5000 0x6000 small_paging" "off_path 0x6000 0x5000 small_paging"
  by (simp_all add: off_path_def small_paging_leaf) code_simp+

lemma paging_map_then_walk_witness:
  "\<exists>s'. paging_map_page 0x6000 0xb000 3 small_paging = Some s' \<and>
    paging_walk_page 0x6000 s' = 0xb000 \<and> paging_walk_page 0x5000 s' = 0xa000"
proof -
  have w: "paging_walk_page 0x5000 small_paging = 0xa000" "paging_walk_page 0x6000 small_paging = 0"
    by (simp_all add: paging_walk_page_leaf small_paging_present small_paging_leaf small_tables_def
        paging_desc_get_address_def)
  have p: "tables_present (pml4 small_paging) (table_mem small_paging) 0x6000"
    by (simp add: small_paging_present)
  show ?thesis
    using paging_map_then_walk [OF p small_paging_off(2), of "0xb000" 3] small_paging_off(4)
    by (fastforce simp: w small_paging_leaf)
qed

lemma paging_unmap_then_walk_witness:
  "paging_walk_page 0x5000 (paging_unmap_page 0x5000 small_paging) = 0"
  using paging_unmap_then_walk [OF small_paging_off(1)] by blast

lemma paging_remap_depends_on_order_witness:
  "\<exists>s'. paging_remap_page True 0x5000 0x6000 small_paging = Some (0x6000, s') \<and>
    paging_walk_page 0x6000 s' = paging_walk_page 0x6000 small_paging OR 0"
  using paging_remap_depends_on_order [of small_paging "0x5000" "0x6000" True]
  by (simp add: small_paging_present small_paging_leaf small_paging_off)

end
