(* ===== verification/Heap.thy ===== *)
theory Heap
  imports Paging
begin

text \<open>
  The kernel heap, \<open>kernel/src/mem/heap/allocator.c\<close>: a doubly linked list of segments, each with a
  header of 32 bytes in front of it, that starts at \<open>heap_start\<close> and grows at \<open>heap_end\<close>.

  The headers are a store from their addresses to their fields and the payload is a store of
  bytes; pointers are addresses with 0 for NULL, and using NULL as a header is \<open>None\<close>. That headers
  and payloads do not overlap is what the lemmas of \<open>Heap_Inv\<close> show of every well-formed heap.
\<close>

section \<open>Headers\<close>

abbreviation sizeof_header :: u64 where "sizeof_header \<equiv> 0x20"

record heap_seg_header =
  seg_length :: u64
  seg_next :: u64
  seg_last :: u64
  seg_free :: bool

record heap_state = paging_state +
  heap_initialized :: bool
  heap_start :: u64
  heap_end :: u64
  last_header :: u64
  headers :: "u64 \<Rightarrow> heap_seg_header"
  heap_bytes :: mem

definition hget :: "(heap_seg_header \<Rightarrow> 'v) \<Rightarrow> u64 \<Rightarrow> 'z heap_state_scheme \<Rightarrow> 'v option" where
  "hget fld p s = (if p = 0 then None else Some (fld (headers s p)))"

definition hput :: "(heap_seg_header \<Rightarrow> heap_seg_header) \<Rightarrow> u64 \<Rightarrow> 'z heap_state_scheme \<Rightarrow>
    'z heap_state_scheme option" where
  "hput upd p s =
     (if p = 0 then None else Some (s\<lparr>headers := (headers s)(p := upd (headers s p))\<rparr>))"

section \<open>Splitting and combining segments\<close>

text \<open>The remaining length is computed modulo \<open>2 ^ 64\<close> and then compared as a signed number.\<close>

definition header_split ::
    "u64 \<Rightarrow> u64 \<Rightarrow> 'z heap_state_scheme \<Rightarrow> (u64 \<times> 'z heap_state_scheme) option" where
  "header_split segment split_length s =
     (if split_length < 0x10 then Some (0, s)
      else do {
        len \<leftarrow> hget seg_length segment s;
        let rest = len - split_length - sizeof_header;
        if sint rest < 0x10 then Some (0, s)
        else do {
          let new_header = segment + split_length + sizeof_header;
          nx \<leftarrow> hget seg_next segment s;
          s \<leftarrow> (if nx \<noteq> 0 then hput (seg_last_update (\<lambda>_. new_header)) nx s else Some s);
          nx \<leftarrow> hget seg_next segment s;
          s \<leftarrow> hput (seg_next_update (\<lambda>_. nx)) new_header s;
          s \<leftarrow> hput (seg_next_update (\<lambda>_. new_header)) segment s;
          s \<leftarrow> hput (seg_last_update (\<lambda>_. segment)) new_header s;
          s \<leftarrow> hput (seg_length_update (\<lambda>_. rest)) new_header s;
          free \<leftarrow> hget seg_free segment s;
          s \<leftarrow> hput (seg_free_update (\<lambda>_. free)) new_header s;
          s \<leftarrow> hput (seg_length_update (\<lambda>_. split_length)) segment s;
          Some (new_header,
                if last_header s = segment then s\<lparr>last_header := new_header\<rparr> else s) } })"

definition header_combine_forward :: "u64 \<Rightarrow> 'z heap_state_scheme \<Rightarrow> 'z heap_state_scheme option" where
  "header_combine_forward segment s = do {
     nx \<leftarrow> hget seg_next segment s;
     if nx = 0 then Some s
     else do {
       nfree \<leftarrow> hget seg_free nx s;
       if \<not> nfree then Some s
       else do {
         let s = (if nx = last_header s then s\<lparr>last_header := segment\<rparr> else s);
         nn \<leftarrow> hget seg_next nx s;
         s \<leftarrow> (if nn \<noteq> 0 then hput (seg_last_update (\<lambda>_. segment)) nn s else Some s);
         nx \<leftarrow> hget seg_next segment s;
         nlen \<leftarrow> hget seg_length nx s;
         s \<leftarrow> hput (seg_length_update (\<lambda>n. n + nlen + sizeof_header)) segment s;
         nn \<leftarrow> hget seg_next nx s;
         hput (seg_next_update (\<lambda>_. nn)) segment s } } }"

definition header_combine_backward :: "u64 \<Rightarrow> 'z heap_state_scheme \<Rightarrow> 'z heap_state_scheme option" where
  "header_combine_backward segment s = do {
     lst \<leftarrow> hget seg_last segment s;
     if lst = 0 then Some s
     else do {
       lfree \<leftarrow> hget seg_free lst s;
       if lfree then header_combine_forward lst s else Some s } }"

section \<open>Growing the heap\<close>

text \<open>\<open>paging_map_page(pos, pmm_alloc_page(), PAGING_FLAGS_KERNEL_PAGE)\<close> for a run of pages.\<close>

fun heap_map_pages :: "u64 \<Rightarrow> nat \<Rightarrow> 'z heap_state_scheme \<Rightarrow> 'z heap_state_scheme option" where
  "heap_map_pages pos 0 s = Some s"
| "heap_map_pages pos (Suc n) s = do {
     (page, s) \<leftarrow> pmm_alloc_page s;
     s \<leftarrow> paging_map_page pos page PAGING_FLAGS_KERNEL_PAGE s;
     heap_map_pages (pos + 0x1000) n s }"

definition heap_initialize :: "u64 \<Rightarrow> u64 \<Rightarrow> 'z heap_state_scheme \<Rightarrow> 'z heap_state_scheme option" where
  "heap_initialize address pages s = do {
     s \<leftarrow> heap_map_pages address (unat pages) s;
     let len = pages * 0x1000;
     let s = s\<lparr>heap_start := address, heap_end := address + len\<rparr>;
     s \<leftarrow> hput (\<lambda>_. \<lparr>seg_length = len - sizeof_header, seg_next = 0, seg_last = 0,
                     seg_free = True\<rparr>) address s;
     Some (s\<lparr>last_header := address, heap_initialized := True\<rparr>) }"

definition heap_round_page :: "u64 \<Rightarrow> u64" where
  "heap_round_page len =
     (if len mod 0x1000 \<noteq> 0 then len - len mod 0x1000 + 0x1000 else len)"

definition heap_expand :: "u64 \<Rightarrow> 'z heap_state_scheme \<Rightarrow> 'z heap_state_scheme option" where
  "heap_expand len0 s = do {
     let len = heap_round_page len0;
     let pages = len div 0x1000;
     let new_segment = heap_end s;
     s \<leftarrow> heap_map_pages (heap_end s) (unat pages) s;
     let s = s\<lparr>heap_end := new_segment + pages * 0x1000\<rparr>;
     s \<leftarrow> hput (seg_free_update (\<lambda>_. True)) new_segment s;
     s \<leftarrow> hput (seg_last_update (\<lambda>_. last_header s)) new_segment s;
     s \<leftarrow> hput (seg_next_update (\<lambda>_. new_segment)) (last_header s) s;
     let s = s\<lparr>last_header := new_segment\<rparr>;
     s \<leftarrow> hput (seg_next_update (\<lambda>_. 0)) new_segment s;
     s \<leftarrow> hput (seg_length_update (\<lambda>_. len - sizeof_header)) new_segment s;
     header_combine_backward new_segment s }"

section \<open>The allocator's interface\<close>

definition heap_free :: "u64 \<Rightarrow> 'z heap_state_scheme \<Rightarrow> 'z heap_state_scheme option" where
  "heap_free address s = do {
     let segment = address - sizeof_header;
     s \<leftarrow> hput (seg_free_update (\<lambda>_. True)) segment s;
     s \<leftarrow> header_combine_forward segment s;
     header_combine_backward segment s }"

definition heap_round_size :: "u64 \<Rightarrow> u64" where
  "heap_round_size n = (if n mod 0x10 > 0 then n - n mod 0x10 + 0x10 else n)"

text \<open>
  The search for the first free segment that is large enough: \<open>Inl\<close> is the address of the block,
  already taken, \<open>Inr\<close> the state when there is none.
\<close>

partial_function (option) heap_search ::
    "u64 \<Rightarrow> u64 \<Rightarrow> 'z heap_state_scheme \<Rightarrow>
      ((u64 \<times> 'z heap_state_scheme) + 'z heap_state_scheme) option" where
  "heap_search current n s = do {
     free \<leftarrow> hget seg_free current s;
     len \<leftarrow> hget seg_length current s;
     if free \<and> len > n
     then do {
       (h, s) \<leftarrow> header_split current n s;
       s \<leftarrow> hput (seg_free_update (\<lambda>_. False)) current s;
       Some (Inl (current + sizeof_header, s)) }
     else if free \<and> len = n
     then do {
       s \<leftarrow> hput (seg_free_update (\<lambda>_. False)) current s;
       Some (Inl (current + sizeof_header, s)) }
     else do {
       nx \<leftarrow> hget seg_next current s;
       if nx = 0 then Some (Inr s) else heap_search nx n s } }"

partial_function (option) heap_malloc ::
    "u64 \<Rightarrow> 'z heap_state_scheme \<Rightarrow> (u64 \<times> 'z heap_state_scheme) option" where
  "heap_malloc n0 s = do {
     s \<leftarrow> (if \<not> heap_initialized s then heap_initialize 0x7f0000000000 256 s else Some s);
     let n = heap_round_size n0;
     if n = 0 then Some (0, s)
     else do {
       r \<leftarrow> heap_search (heap_start s) n s;
       case r of
         Inl found \<Rightarrow> Some found
       | Inr s \<Rightarrow> do { s \<leftarrow> heap_expand n s; heap_malloc n s } } }"

text \<open>\<open>realloc\<close> copies as many bytes as the new block has, not as many as the old one.\<close>

definition heap_realloc ::
    "u64 \<Rightarrow> u64 \<Rightarrow> 'z heap_state_scheme \<Rightarrow> (u64 \<times> 'z heap_state_scheme) option" where
  "heap_realloc pointer n s = do {
     copy_size \<leftarrow> hget seg_length (pointer - sizeof_header) s;
     (new, s) \<leftarrow> heap_malloc n s;
     let s = s\<lparr>heap_bytes := memcpy (heap_bytes s) new pointer n\<rparr>;
     s \<leftarrow> heap_free pointer s;
     Some (new, s) }"

definition heap_calloc ::
    "u64 \<Rightarrow> u64 \<Rightarrow> 'z heap_state_scheme \<Rightarrow> (u64 \<times> 'z heap_state_scheme) option" where
  "heap_calloc elements n s = do {
     let real_size = elements * n;
     (alloc, s) \<leftarrow> heap_malloc real_size s;
     Some (alloc, s\<lparr>heap_bytes := memset (heap_bytes s) alloc 0 real_size\<rparr>) }"

end
