(* ===== verification/Heap_Inv.thy ===== *)
theory Heap_Inv
  imports Heap
begin

text \<open>
  Well-formed heaps: the segments are linked in address order, tile the range from \<open>heap_start\<close> to
  \<open>heap_end\<close>, have payloads that are non-empty multiples of 16 bytes, and no two neighbours are
  both free. Every operation of the allocator keeps this.
\<close>

section \<open>Linked headers\<close>

definition hd0 :: "u64 list \<Rightarrow> u64 \<Rightarrow> u64" where
  "hd0 as n = (case as of [] \<Rightarrow> n | a # _ \<Rightarrow> a)"

definition last0 :: "u64 \<Rightarrow> u64 list \<Rightarrow> u64" where
  "last0 p as = (if as = [] then p else last as)"

lemma hd0_simps [simp]: "hd0 [] n = n" "hd0 (a # as) n = a"
  by (simp_all add: hd0_def)

lemma last0_simps [simp]: "last0 p [] = p" "last0 p (a # as) = last0 a as" "last0 p (as @ [a]) = a"
  by (simp_all add: last0_def)

lemma hd0_append [simp]: "hd0 (as @ bs) n = hd0 as (hd0 bs n)"
  by (cases as) auto

lemma last0_append [simp]: "last0 p (as @ bs) = last0 (last0 p as) bs"
  by (induction as arbitrary: p) auto

fun hlinks :: "(u64 \<Rightarrow> heap_seg_header) \<Rightarrow> u64 \<Rightarrow> u64 list \<Rightarrow> u64 \<Rightarrow> bool" where
  "hlinks h p [] n = True"
| "hlinks h p (a # as) n = (seg_last (h a) = p \<and> seg_next (h a) = hd0 as n \<and> hlinks h a as n)"

lemma hlinks_append [simp]:
  "hlinks h p (as @ bs) n \<longleftrightarrow> hlinks h p as (hd0 bs n) \<and> hlinks h (last0 p as) bs n"
  by (induction as arbitrary: p) auto

lemma hlinks_upd [simp]: "x \<notin> set as \<Longrightarrow> hlinks (h(x := v)) p as n = hlinks h p as n"
  by (induction as arbitrary: p) auto

section \<open>Tiling and flags\<close>

fun hchain :: "(u64 \<Rightarrow> heap_seg_header) \<Rightarrow> nat \<Rightarrow> u64 list \<Rightarrow> bool" where
  "hchain h b [] = True"
| "hchain h b (a # as) = (unat a = b \<and> hchain h (b + 32 + unat (seg_length (h a))) as)"

fun hend :: "(u64 \<Rightarrow> heap_seg_header) \<Rightarrow> nat \<Rightarrow> u64 list \<Rightarrow> nat" where
  "hend h b [] = b"
| "hend h b (a # as) = hend h (b + 32 + unat (seg_length (h a))) as"

lemma hchain_append [simp]: "hchain h b (as @ bs) \<longleftrightarrow> hchain h b as \<and> hchain h (hend h b as) bs"
  by (induction as arbitrary: b) auto

lemma hend_append [simp]: "hend h b (as @ bs) = hend h (hend h b as) bs"
  by (induction as arbitrary: b) auto

lemma hchain_upd [simp]: "x \<notin> set as \<Longrightarrow> hchain (h(x := v)) b as = hchain h b as"
  by (induction as arbitrary: b) auto

lemma hend_upd [simp]: "x \<notin> set as \<Longrightarrow> hend (h(x := v)) b as = hend h b as"
  by (induction as arbitrary: b) auto

lemma hchain_cong:
  assumes "\<And>c. c \<in> set as \<Longrightarrow> seg_length (h' c) = seg_length (h c)"
  shows "hchain h' b as = hchain h b as" and "hend h' b as = hend h b as"
  using assms by (induction as arbitrary: b) auto

lemma hend_ge: "b + 32 * length as \<le> hend h b as"
proof (induction as arbitrary: b)
  case (Cons a as)
  show ?case using Cons [of "b + 32 + unat (seg_length (h a))"] by simp
qed simp

lemma hchain_range: "hchain h b as \<Longrightarrow> a \<in> set as \<Longrightarrow>
    b \<le> unat a \<and> unat a + 32 + unat (seg_length (h a)) \<le> hend h b as"
proof (induction as arbitrary: b)
  case (Cons c as)
  show ?case
  proof (cases "a = c")
    case True
    then show ?thesis using Cons.prems hend_ge [of "b + 32 + unat (seg_length (h c))" as h] by simp
  next
    case False
    then show ?thesis using Cons.IH [of "b + 32 + unat (seg_length (h c))"] Cons.prems by simp
  qed
qed simp

lemma hchain_distinct: "hchain h b as \<Longrightarrow> distinct as"
proof (induction as arbitrary: b)
  case (Cons c as)
  then show ?case using hchain_range [of h "b + 32 + unat (seg_length (h c))" as c] by auto
qed simp

text \<open>\<open>no_free_pair fs\<close>: no two neighbours of a list of flags are both set.\<close>

fun no_free_pair :: "bool list \<Rightarrow> bool" where
  "no_free_pair (x # y # zs) \<longleftrightarrow> \<not> (x \<and> y) \<and> no_free_pair (y # zs)"
| "no_free_pair xs \<longleftrightarrow> True"

lemma no_free_pair_Cons: "no_free_pair (x # xs) \<longleftrightarrow> (xs \<noteq> [] \<longrightarrow> \<not> (x \<and> hd xs)) \<and> no_free_pair xs"
  by (cases xs) auto

lemma no_free_pair_append:
  "no_free_pair (xs @ ys) \<longleftrightarrow> no_free_pair xs \<and> no_free_pair ys \<and>
    (xs \<noteq> [] \<and> ys \<noteq> [] \<longrightarrow> \<not> (last xs \<and> hd ys))"
  by (induction xs) (auto simp: no_free_pair_Cons)

definition frees :: "(u64 \<Rightarrow> heap_seg_header) \<Rightarrow> u64 list \<Rightarrow> bool list" where
  "frees h as = map (\<lambda>a. seg_free (h a)) as"

lemma frees_simps [simp]:
  "frees h [] = []" "frees h (a # as) = seg_free (h a) # frees h as"
  "frees h (as @ bs) = frees h as @ frees h bs" "frees h as = [] \<longleftrightarrow> as = []"
  by (simp_all add: frees_def)

lemma frees_upd [simp]: "x \<notin> set as \<Longrightarrow> frees (h(x := v)) as = frees h as"
  by (simp add: frees_def)

lemma frees_cong:
  assumes "\<And>c. c \<in> set as \<Longrightarrow> seg_free (h' c) = seg_free (h c)"
  shows "frees h' as = frees h as"
  using assms by (simp add: frees_def)

lemma last_frees: "as \<noteq> [] \<Longrightarrow> last (frees h as) = seg_free (h (last as))"
  by (simp add: frees_def last_map)

lemma hd_frees: "as \<noteq> [] \<Longrightarrow> hd (frees h as) = seg_free (h (hd as))"
  by (simp add: frees_def hd_map)

section \<open>The invariant\<close>

definition seg_ok :: "heap_seg_header \<Rightarrow> bool" where
  "seg_ok x \<longleftrightarrow> 16 \<le> unat (seg_length x) \<and> 16 dvd unat (seg_length x)"

text \<open>All but the flags, which are in transition while a segment is being freed.\<close>

definition heap_tiled :: "u64 list \<Rightarrow> 'z heap_state_scheme \<Rightarrow> bool" where
  "heap_tiled segs s \<longleftrightarrow> heap_initialized s \<and> segs \<noteq> [] \<and> hd0 segs 0 = heap_start s \<and>
     last0 0 segs = last_header s \<and> heap_start s \<noteq> 0 \<and> 16 dvd unat (heap_start s) \<and>
     hlinks (headers s) 0 segs 0 \<and> hchain (headers s) (unat (heap_start s)) segs \<and>
     hend (headers s) (unat (heap_start s)) segs = unat (heap_end s) \<and>
     unat (heap_end s) < 2 ^ 63 \<and>
     (\<forall>a \<in> set segs. seg_ok (headers s a))"

definition heap_wf :: "u64 list \<Rightarrow> 'z heap_state_scheme \<Rightarrow> bool" where
  "heap_wf segs s \<longleftrightarrow> heap_tiled segs s \<and> no_free_pair (frees (headers s) segs)"

text \<open>The blocks in use, as pairs of an address and a length.\<close>

definition used_blocks :: "u64 list \<Rightarrow> 'z heap_state_scheme \<Rightarrow> (nat \<times> nat) set" where
  "used_blocks segs s = (\<lambda>a. (unat a + 32, unat (seg_length (headers s a)))) `
     {a \<in> set segs. \<not> seg_free (headers s a)}"

text \<open>What the list operations on the heap leave alone.\<close>

definition heap_frame :: "'z heap_state_scheme \<Rightarrow> 'z heap_state_scheme \<Rightarrow> bool" where
  "heap_frame s s' \<longleftrightarrow> heap_bytes s' = heap_bytes s \<and> heap_start s' = heap_start s \<and>
     heap_end s' = heap_end s \<and> heap_initialized s' = heap_initialized s \<and>
     heap_state.more s' = heap_state.more s \<and> pml4 s' = pml4 s \<and> table_mem s' = table_mem s \<and>
     slots s' = slots s \<and> pmm_section_head s' = pmm_section_head s \<and>
     free_memory s' = free_memory s \<and> pmm_sections s' = pmm_sections s \<and>
     pfa_allowing_allocations s' = pfa_allowing_allocations s \<and> pmm_data_size s' = pmm_data_size s \<and>
     pmm_base s' = pmm_base s \<and> estimated_total_memory s' = estimated_total_memory s"

lemma heap_tiled_distinct: "heap_tiled segs s \<Longrightarrow> distinct segs"
  by (auto simp: heap_tiled_def intro: hchain_distinct)

lemma heap_tiled_nonzero: "heap_tiled segs s \<Longrightarrow> a \<in> set segs \<Longrightarrow> a \<noteq> 0"
  using hchain_range [of "headers s" "unat (heap_start s)" segs a]
  by (auto simp: heap_tiled_def unat_gt_0 [symmetric])

section \<open>Blocks do not overlap\<close>

lemma hchain_disjoint:
  assumes "hchain h b as" and "a \<in> set as" and "c \<in> set as" and "a \<noteq> c"
  shows "unat a + 32 + unat (seg_length (h a)) \<le> unat c \<or>
    unat c + 32 + unat (seg_length (h c)) \<le> unat a"
proof -
  obtain us vs where as: "as = us @ a # vs" using assms(2) by (metis split_list)
  have "c \<in> set us \<or> c \<in> set vs" using assms(3,4) as by auto
  then show ?thesis
    using assms(1) as hchain_range [of h b us c]
      hchain_range [of h "hend h b us + 32 + unat (seg_length (h a))" vs c] by auto
qed

lemma used_blocks_disjoint:
  assumes "heap_tiled segs s" and "(p, l) \<in> used_blocks segs s" and "(q, m) \<in> used_blocks segs s"
    and "(p, l) \<noteq> (q, m)"
  shows "p + l + 32 \<le> q \<or> q + m + 32 \<le> p"
  using assms hchain_disjoint [of "headers s" "unat (heap_start s)" segs]
  by (fastforce simp: used_blocks_def heap_tiled_def)

section \<open>The signed comparison of \<open>header_split\<close>\<close>

lemma sint_word64:
  fixes w :: u64
  shows "sint w = (if unat w < 2 ^ 63 then int (unat w) else int (unat w) - 2 ^ 64)"
proof -
  have lt: "uint w < 2 ^ 64" using uint_lt2p [of w] by simp
  have "sint w = take_bit 64 (uint w) - 2 ^ 64 * of_bool (bit (uint w) 63)"
    by (simp add: sint_uint signed_take_bit_eq_take_bit_minus)
  moreover have "take_bit 64 (uint w) = uint w"
    using lt by (simp add: take_bit_int_eq_self)
  moreover have "bit (uint w) 63 \<longleftrightarrow> \<not> uint w < 2 ^ 63"
  proof (cases "uint w < 2 ^ 63")
    case True
    then show ?thesis by (simp add: bit_iff_odd)
  next
    case False
    then have "uint w div 2 ^ 63 = 1" using lt by (intro int_div_pos_eq [where r = "uint w - 2 ^ 63"]) simp_all
    then show ?thesis using False by (simp add: bit_iff_odd)
  qed
  moreover have "unat w < 2 ^ 63 \<longleftrightarrow> int (unat w) < int (2 ^ 63)"
    by (rule of_nat_less_iff [symmetric])
  ultimately show ?thesis by simp
qed

lemma signed_small:
  "k < 2 ^ 64 \<Longrightarrow> \<not> (if k < 2 ^ 63 then int k else int k - 2 ^ 64) < 16 \<Longrightarrow> k < 2 ^ 63 \<and> 16 \<le> k"
  by (auto split: if_splits)

lemma split_rest:
  fixes len n :: u64
  assumes "n < len" and "\<not> sint (len - n - sizeof_header) < 0x10"
  shows "unat n + 48 \<le> unat len" and "unat (len - n - sizeof_header) = unat len - unat n - 32"
proof -
  let ?r = "len - n - sizeof_header"
  have lt: "unat n < unat len" using assms(1) by (simp add: word_less_nat_alt)
  have d: "unat (len - n) = unat len - unat n" using lt by (subst unat_minus_nowrap) simp_all
  have "unat ?r < 2 ^ LENGTH(64)" by (rule unsigned_less)
  then have rl: "unat ?r < 2 ^ 64" by simp
  have small: "unat ?r < 2 ^ 63" "16 \<le> unat ?r"
    using signed_small [OF rl assms(2) [unfolded sint_word64]] by simp_all
  have "32 \<le> unat (len - n)"
  proof (rule ccontr)
    assume "\<not> 32 \<le> unat (len - n)"
    then have "unat ?r = unat (len - n) + 2 ^ 64 - 32" by (simp add: unat_sub_if')
    then show False using small by simp
  qed
  then have "unat ?r = unat (len - n) - 32" by (subst unat_minus_nowrap) simp_all
  then show e: "unat ?r = unat len - unat n - 32" using d by simp
  show "unat n + 48 \<le> unat len" using e small by simp
qed

section \<open>Splitting\<close>

lemma hget_nz [simp]: "p \<noteq> 0 \<Longrightarrow> hget fld p s = Some (fld (headers s p))"
  by (simp add: hget_def)

lemma hput_nz [simp]: "p \<noteq> 0 \<Longrightarrow>
    hput upd p s = Some (s\<lparr>headers := (headers s)(p := upd (headers s p))\<rparr>)"
  by (simp add: hput_def)

lemma no_split_rest:
  fixes len n :: u64
  assumes "sint (len - n - sizeof_header) < 0x10" and "unat len < 2 ^ 63" and "n \<le> len"
  shows "unat len < unat n + 48"
proof (rule ccontr)
  assume "\<not> unat len < unat n + 48"
  then have big: "unat n + 48 \<le> unat len" by simp
  have "unat (len - n) = unat len - unat n"
    using big by (subst unat_minus_nowrap) simp_all
  then have r: "unat (len - n - sizeof_header) = unat len - unat n - 32"
    using big by (subst unat_minus_nowrap) simp_all
  then have small: "unat (len - n - sizeof_header) < 2 ^ 63" using assms(2) by simp
  have "int (unat (len - n - sizeof_header)) < 16"
    using assms(1) [unfolded sint_word64 if_P [OF small]] .
  then show False using r big by linarith
qed

lemma segment_below:
  assumes "heap_tiled (as @ a # bs) s"
  shows "unat a + 32 + unat (seg_length (headers s a)) \<le> unat (heap_end s)" and "unat (heap_end s) < 2 ^ 63"
proof -
  have c: "hchain (headers s) (unat (heap_start s)) (as @ a # bs)"
    and e: "hend (headers s) (unat (heap_start s)) (as @ a # bs) = unat (heap_end s)"
    and l: "unat (heap_end s) < 2 ^ 63"
    using assms unfolding heap_tiled_def by blast+
  show "unat a + 32 + unat (seg_length (headers s a)) \<le> unat (heap_end s)"
    using hchain_range [OF c, of a] e by simp
  show "unat (heap_end s) < 2 ^ 63" by (rule l)
qed

lemma hend_aligned:
  "16 dvd b \<Longrightarrow> \<forall>c \<in> set as. seg_ok (h c) \<Longrightarrow> 16 dvd hend h b as"
  by (induction as arbitrary: b) (simp_all add: seg_ok_def)

lemma segment_aligned:
  assumes "heap_tiled (as @ a # bs) s"
  shows "16 dvd unat a"
  using assms hend_aligned [of "unat (heap_start s)" as "headers s"] by (simp add: heap_tiled_def)

lemma split_address:
  assumes t: "heap_tiled (as @ a # bs) s" and n: "unat n + 32 < unat (seg_length (headers s a))"
  shows "unat (a + n + 0x20) = unat a + unat n + 32" and "a + n + 0x20 \<notin> set (as @ a # bs)"
    and "a + n + 0x20 \<noteq> 0" and "16 dvd unat a"
proof -
  have c: "hchain (headers s) (unat (heap_start s)) (as @ a # bs)"
    and e: "hend (headers s) (unat (heap_start s)) (as @ a # bs) = unat (heap_end s)"
    using t unfolding heap_tiled_def by blast+
  have "unat a + 32 + unat (seg_length (headers s a)) \<le> unat (heap_end s)"
    using hchain_range [OF c, of a] e by simp
  moreover have "unat (heap_end s) < 2 ^ LENGTH(64)" by (rule unsigned_less)
  ultimately have lt: "unat a + 32 + unat (seg_length (headers s a)) < 2 ^ 64" by simp
  have "unat (a + n) = unat a + unat n"
    using lt n by (intro unat_plus_nowrap) simp
  then show u: "unat (a + n + 0x20) = unat a + unat n + 32"
    using lt n unat_plus_nowrap [of "a + n" "0x20"] by simp
  show "a + n + 0x20 \<notin> set (as @ a # bs)"
  proof
    assume m: "a + n + 0x20 \<in> set (as @ a # bs)"
    have "a \<noteq> a + n + 0x20" using u by (metis add_gr_0 less_irrefl_nat less_add_same_cancel1 add.assoc zero_less_numeral)
    from hchain_disjoint [OF c _ m this] u n show False by auto
  qed
  show "a + n + 0x20 \<noteq> 0" using u by auto
  show "16 dvd unat a" by (rule segment_aligned [OF t])
qed

lemma header_split_run:
  assumes t: "heap_tiled (as @ a # bs) s" and n: "16 \<le> unat n" "16 dvd unat n"
    and big: "n < seg_length (headers s a)"
    and rest: "\<not> sint (seg_length (headers s a) - n - sizeof_header) < 0x10"
  defines "new \<equiv> a + n + 0x20"
  shows "\<exists>s'. header_split a n s = Some (new, s') \<and> heap_tiled (as @ a # new # bs) s' \<and>
    heap_frame s s' \<and> seg_length (headers s' a) = n \<and>
    seg_free (headers s' a) = seg_free (headers s a) \<and>
    seg_free (headers s' new) = seg_free (headers s a) \<and> new \<notin> set (as @ a # bs) \<and>
    (\<forall>c \<in> set as \<union> set bs. seg_length (headers s' c) = seg_length (headers s c) \<and>
      seg_free (headers s' c) = seg_free (headers s c))"
proof -
  let ?l = "seg_length (headers s a)"
  note r = split_rest [OF big rest]
  have n32: "unat n + 32 < unat ?l" using r by simp
  note A = split_address [OF t n32, folded new_def]
  have a0: "a \<noteq> 0" using heap_tiled_nonzero [OF t] by simp
  have d: "distinct (as @ a # bs)" using heap_tiled_distinct [OF t] .
  have nl: "\<not> n < 0x10" using n by (simp add: word_less_nat_alt)
  have "16 dvd unat ?l" using t by (simp add: heap_tiled_def seg_ok_def)
  then have rok: "16 \<le> unat (?l - n - sizeof_header)" "16 dvd unat (?l - n - sizeof_header)"
    using r n by (simp_all add: dvd_diff_nat)
  have len: "unat a + 32 + unat n + 32 + unat (?l - n - sizeof_header) = unat a + 32 + unat ?l"
    using r by simp
  let ?r = "?l - n - sizeof_header"
  define h where "h = (headers s)(a := (headers s a)\<lparr>seg_next := new, seg_length := n\<rparr>,
    new := (headers s new)\<lparr>seg_next := hd0 bs 0, seg_last := a, seg_length := ?r,
      seg_free := seg_free (headers s a)\<rparr>)"
  define h' where "h' = (if bs = [] then h else h(hd bs := (headers s (hd bs))\<lparr>seg_last := new\<rparr>))"
  define s' where "s' = s\<lparr>headers := h', last_header := last0 0 (as @ a # new # bs)\<rparr>"
  have lh: "last_header s = last0 a bs" and nx: "seg_next (headers s a) = hd0 bs 0"
    using t by (simp_all add: heap_tiled_def)
  have na: "a \<noteq> new" "new \<notin> set as" "new \<notin> set bs" using A(2) by auto
  have run: "header_split a n s = Some (new, s')"
  proof (cases bs)
    case Nil
    then show ?thesis using a0 nl rest A na lh nx
      by (simp add: header_split_def Let_def s'_def h'_def h_def fun_upd_twist new_def [symmetric])
  next
    case (Cons b cs)
    have b0: "b \<noteq> 0" "b \<noteq> a" "b \<noteq> new" using heap_tiled_nonzero [OF t] Cons d A by auto
    have "last0 b cs \<noteq> a" using d Cons by (cases cs rule: rev_cases) auto
    then show ?thesis using a0 b0 nl rest A na lh nx Cons
      by (simp add: header_split_def Let_def s'_def h'_def h_def fun_upd_twist new_def [symmetric])
  qed
  have hl: "hlinks (headers s) 0 (as @ a # bs) 0" using t unfolding heap_tiled_def by blast
  have links: "hlinks h' 0 (as @ a # new # bs) 0"
    using hl d na by (cases bs) (simp_all add: h'_def h_def)
  have fields: "seg_length (h' c) = (if c = a then n else if c = new then ?r else seg_length (headers s c))"
    "seg_free (h' c) = (if c = new then seg_free (headers s a) else seg_free (headers s c))" for c
    using d na by (auto simp: h'_def h_def)
  have st: "hd0 (as @ a # new # bs) 0 = hd0 (as @ a # bs) 0"
    by (cases as) simp_all
  have c: "hchain (headers s) (unat (heap_start s)) as"
    "unat a = hend (headers s) (unat (heap_start s)) as"
    "hchain (headers s) (unat a + 32 + unat ?l) bs"
    "hend (headers s) (unat a + 32 + unat ?l) bs = unat (heap_end s)"
    using t by (simp_all add: heap_tiled_def)
  have same: "hchain h' e as = hchain (headers s) e as" "hend h' e as = hend (headers s) e as"
    "hchain h' e bs = hchain (headers s) e bs" "hend h' e bs = hend (headers s) e bs" for e
    using d na by (intro hchain_cong; auto simp: fields)+
  have tl: "hchain h' (unat (heap_start s)) (as @ a # new # bs)"
    "hend h' (unat (heap_start s)) (as @ a # new # bs) = unat (heap_end s)"
    using c na A(1) r(2) n32 by (simp_all add: same fields ac_simps)
  have ok: "\<forall>c \<in> set (as @ a # new # bs). seg_ok (h' c)"
    using t n rok d na by (auto simp: heap_tiled_def seg_ok_def fields)
  have "heap_tiled (as @ a # new # bs) s'"
    unfolding heap_tiled_def
  proof (intro conjI)
    show "hd0 (as @ a # new # bs) 0 = heap_start s'"
      using t st by (simp add: heap_tiled_def s'_def)
  qed (use t links tl ok in \<open>simp_all add: s'_def heap_tiled_def\<close>)
  moreover have "heap_frame s s'"
    by (simp add: s'_def heap_frame_def)
  moreover have "headers s' = h'" by (simp add: s'_def)
  moreover have "\<forall>c \<in> set as \<union> set bs. seg_length (h' c) = seg_length (headers s c) \<and>
      seg_free (h' c) = seg_free (headers s c)"
    using d na fields by auto
  ultimately show ?thesis
    using run na(1) A(2) fields [of a] fields [of new] by (intro exI [of _ s']) simp
qed

section \<open>Changing flags\<close>

lemma hlinks_cong:
  assumes "\<And>c. c \<in> set as \<Longrightarrow> seg_last (h' c) = seg_last (h c) \<and> seg_next (h' c) = seg_next (h c)"
  shows "hlinks h' p as n = hlinks h p as n"
  using assms by (induction as arbitrary: p) auto

lemma heap_tiled_flags:
  assumes "heap_tiled segs s"
  shows "heap_tiled segs (s\<lparr>headers := (headers s)(a := (headers s a)\<lparr>seg_free := f\<rparr>)\<rparr>)"
proof -
  let ?h = "(headers s)(a := (headers s a)\<lparr>seg_free := f\<rparr>)"
  have "hlinks ?h p segs n = hlinks (headers s) p segs n" for p n
    by (rule hlinks_cong) simp
  moreover have "hchain ?h b segs = hchain (headers s) b segs" "hend ?h b segs = hend (headers s) b segs" for b
    by (rule hchain_cong; simp)+
  ultimately show ?thesis using assms by (auto simp: heap_tiled_def seg_ok_def)
qed

lemma heap_frame_refl [simp]: "heap_frame s s"
  by (simp add: heap_frame_def)

lemma heap_frame_headers [simp]:
  "heap_frame s (t\<lparr>headers := h\<rparr>) = heap_frame s t"
  "heap_frame s (t\<lparr>last_header := l\<rparr>) = heap_frame s t"
  by (simp_all add: heap_frame_def)

lemma heap_frame_trans: "heap_frame s t \<Longrightarrow> heap_frame t u \<Longrightarrow> heap_frame s u"
  by (simp add: heap_frame_def)

section \<open>Taking a segment\<close>

lemma used_blocks_append:
  "used_blocks (as @ bs) s = used_blocks as s \<union> used_blocks bs s"
  by (auto simp: used_blocks_def)

lemma used_blocks_Cons:
  "used_blocks (a # as) s = (if seg_free (headers s a) then {}
     else {(unat a + 32, unat (seg_length (headers s a)))}) \<union> used_blocks as s"
  by (auto simp: used_blocks_def)

lemma used_blocks_Nil [simp]: "used_blocks [] s = {}"
  by (simp add: used_blocks_def)

lemma used_blocks_cong:
  assumes "\<And>c. c \<in> set as \<Longrightarrow> seg_length (headers s' c) = seg_length (headers s c) \<and>
      seg_free (headers s' c) = seg_free (headers s c)"
  shows "used_blocks as s' = used_blocks as s"
  unfolding used_blocks_def using assms by (auto simp: image_iff)

lemma used_blocks_upd:
  assumes "a \<notin> set as" and "\<forall>c \<in> set as. seg_length (headers s1 c) = seg_length (headers s c) \<and>
      seg_free (headers s1 c) = seg_free (headers s c)"
  shows "used_blocks as (s1\<lparr>headers := (headers s1)(a := v)\<rparr>) = used_blocks as s"
proof (rule used_blocks_cong)
  fix c assume "c \<in> set as"
  then show "seg_length (headers (s1\<lparr>headers := (headers s1)(a := v)\<rparr>) c) = seg_length (headers s c) \<and>
      seg_free (headers (s1\<lparr>headers := (headers s1)(a := v)\<rparr>) c) = seg_free (headers s c)"
    using assms by (cases "c = a") simp_all
qed

definition took_block ::
    "u64 \<Rightarrow> u64 \<Rightarrow> u64 list \<Rightarrow> 'z heap_state_scheme \<Rightarrow> u64 list \<Rightarrow> 'z heap_state_scheme \<Rightarrow> bool" where
  "took_block p n segs s segs' s' \<longleftrightarrow> heap_wf segs' s' \<and> heap_frame s s' \<and>
     (\<exists>m. unat n \<le> m \<and> m < unat n + 48 \<and> (unat p, m) \<notin> used_blocks segs s \<and>
       used_blocks segs' s' = insert (unat p, m) (used_blocks segs s))"

lemma heap_search_skip:
  assumes "hlinks (headers s) p (us @ a # vs) 0" and "0 \<notin> set (us @ a # vs)"
    and "\<forall>u \<in> set us. \<not> (seg_free (headers s u) \<and> n \<le> seg_length (headers s u))"
  shows "heap_search (hd0 (us @ a # vs) 0) n s = heap_search a n s"
  using assms
proof (induction us arbitrary: p)
  case (Cons u us)
  have "hd0 us a \<noteq> 0" using Cons.prems(2) by (cases us) auto
  then have "heap_search u n s = heap_search (hd0 us a) n s"
    using Cons.prems by (auto simp: heap_search.simps [of u] not_le)
  then show ?case using Cons.IH [of u] Cons.prems by simp
qed simp

lemma took_blockI:
  assumes "heap_wf segs' s'" and "heap_frame s s'"
    and "unat n \<le> m" and "m < unat n + 48" and "(unat p, m) \<notin> used_blocks segs s"
    and "used_blocks segs' s' = insert (unat p, m) (used_blocks segs s)"
  shows "took_block p n segs s segs' s'"
  using assms by (auto simp: took_block_def)

lemma segment_payload:
  assumes "heap_tiled (as @ a # bs) s"
  shows "unat (a + 0x20) = unat a + 32"
    and "(unat a + 32, m) \<notin> used_blocks as s" and "(unat a + 32, m) \<notin> used_blocks bs s"
proof -
  have c: "hchain (headers s) (unat (heap_start s)) (as @ a # bs)"
    and e: "hend (headers s) (unat (heap_start s)) (as @ a # bs) = unat (heap_end s)"
    using assms unfolding heap_tiled_def by blast+
  have "unat (heap_end s) < 2 ^ LENGTH(64)" by (rule unsigned_less)
  moreover have "unat a + 32 + unat (seg_length (headers s a)) \<le> unat (heap_end s)"
    using hchain_range [OF c, of a] e by simp
  ultimately show "unat (a + 0x20) = unat a + 32"
    using unat_plus_nowrap [of a "0x20"] by simp
  have "a \<notin> set as" "a \<notin> set bs" using heap_tiled_distinct [OF assms] by auto
  then show "(unat a + 32, m) \<notin> used_blocks as s" "(unat a + 32, m) \<notin> used_blocks bs s"
    by (auto simp: used_blocks_def dest!: unsigned_word_eqI)
qed

text \<open>The whole segment is taken.\<close>

lemma take_whole:
  assumes wf: "heap_wf (as @ a # bs) s" and free: "seg_free (headers s a)"
    and n: "unat n \<le> unat (seg_length (headers s a))" "unat (seg_length (headers s a)) < unat n + 48"
  shows "took_block (a + 0x20) n (as @ a # bs) s (as @ a # bs)
    (s\<lparr>headers := (headers s)(a := (headers s a)\<lparr>seg_free := False\<rparr>)\<rparr>)"
proof -
  let ?s = "s\<lparr>headers := (headers s)(a := (headers s a)\<lparr>seg_free := False\<rparr>)\<rparr>"
  have t: "heap_tiled (as @ a # bs) s" using wf by (simp add: heap_wf_def)
  have d: "a \<notin> set as" "a \<notin> set bs" using heap_tiled_distinct [OF t] by auto
  have p: "no_free_pair (frees (headers s) as @ True # frees (headers s) bs)"
    using wf free by (simp add: heap_wf_def)
  have "no_free_pair (frees (headers s) as @ False # frees (headers s) bs)"
    using p by (simp add: no_free_pair_append no_free_pair_Cons)
  then have "heap_wf (as @ a # bs) ?s"
    using heap_tiled_flags [OF t] d by (simp add: heap_wf_def)
  moreover have same: "used_blocks as ?s = used_blocks as s" "used_blocks bs ?s = used_blocks bs s"
    using d by (simp_all add: used_blocks_upd)
  ultimately show ?thesis
    using free n segment_payload [OF t]
    by (intro took_blockI [where m = "unat (seg_length (headers s a))"])
       (simp_all add: used_blocks_append used_blocks_Cons)
qed

lemma heap_search_take:
  assumes wf: "heap_wf (as @ a # bs) s" and free: "seg_free (headers s a)"
    and n: "16 \<le> unat n" "16 dvd unat n" and le: "n \<le> seg_length (headers s a)"
  shows "\<exists>s' segs'. heap_search a n s = Some (Inl (a + 0x20, s')) \<and>
    took_block (a + 0x20) n (as @ a # bs) s segs' s'"
proof -
  let ?l = "seg_length (headers s a)"
  let ?take = "\<lambda>s. s\<lparr>headers := (headers s)(a := (headers s a)\<lparr>seg_free := False\<rparr>)\<rparr>"
  have t: "heap_tiled (as @ a # bs) s" using wf by (simp add: heap_wf_def)
  have a0: "a \<noteq> 0" using heap_tiled_nonzero [OF t] by simp
  have nl: "\<not> n < 0x10" using n by (simp add: word_less_nat_alt)
  have le': "unat n \<le> unat ?l" using le by (simp add: word_le_nat_alt)
  show ?thesis
  proof (cases "n < ?l \<and> \<not> sint (?l - n - sizeof_header) < 0x10")
    case False
    have l63: "unat ?l < 2 ^ 63" using segment_below [OF t] by simp
    have "unat ?l < unat n + 48"
    proof (cases "n < ?l")
      case True
      then show ?thesis using False no_split_rest [OF _ l63 le] by simp
    next
      case False
      then show ?thesis by (simp add: word_less_nat_alt)
    qed
    moreover have "heap_search a n s = Some (Inl (a + 0x20, ?take s))"
      using False free a0 le nl
      by (cases "n < ?l") (auto simp: heap_search.simps [of a] header_split_def Let_def)
    ultimately show ?thesis
      using take_whole [OF wf free le'] by blast
  next
    case True
    let ?new = "a + n + 0x20"
    from header_split_run [OF t n] True obtain s1 where
      split: "header_split a n s = Some (?new, s1)"
      and t1: "heap_tiled (as @ a # ?new # bs) s1" and f1: "heap_frame s s1"
      and e: "seg_length (headers s1 a) = n" "seg_free (headers s1 a)" "seg_free (headers s1 ?new)"
        "?new \<notin> set (as @ a # bs)"
        "\<forall>c \<in> set as \<union> set bs. seg_length (headers s1 c) = seg_length (headers s c) \<and>
          seg_free (headers s1 c) = seg_free (headers s c)"
      using free by auto
    have run: "heap_search a n s = Some (Inl (a + 0x20, ?take s1))"
      using True free a0 split by (simp add: heap_search.simps [of a])
    have d: "a \<notin> set as" "a \<notin> set bs" "?new \<noteq> a" using heap_tiled_distinct [OF t1] by auto
    have fr: "frees (headers (?take s1)) as = frees (headers s) as"
      "frees (headers (?take s1)) bs = frees (headers s) bs"
      using d e(5) by (auto intro!: frees_cong)
    have p: "no_free_pair (frees (headers s) as @ True # frees (headers s) bs)"
      using wf free by (simp add: heap_wf_def)
    have "no_free_pair (frees (headers s) as @ False # True # frees (headers s) bs)"
      using p by (simp add: no_free_pair_append no_free_pair_Cons)
    then have "heap_wf (as @ a # ?new # bs) (?take s1)"
      using heap_tiled_flags [OF t1] fr e(3) d by (simp add: heap_wf_def)
    moreover have ub: "used_blocks as (?take s1) = used_blocks as s" "used_blocks bs (?take s1) = used_blocks bs s"
      using d(1,2) e(5) by (simp_all add: used_blocks_upd)
    have "used_blocks (as @ a # ?new # bs) (?take s1) =
        insert (unat (a + 0x20), unat n) (used_blocks (as @ a # bs) s)"
      using free e(1,3) d(3) segment_payload(1) [OF t] by (simp add: used_blocks_append used_blocks_Cons ub)
    moreover have "(unat (a + 0x20), unat n) \<notin> used_blocks (as @ a # bs) s"
      using free segment_payload [OF t] by (simp add: used_blocks_append used_blocks_Cons)
    moreover have "heap_frame s (?take s1)" using f1 by simp
    ultimately have "took_block (a + 0x20) n (as @ a # bs) s (as @ a # ?new # bs) (?take s1)"
      by (intro took_blockI [where m = "unat n"]) simp_all
    then show ?thesis using run by blast
  qed
qed

section \<open>Combining\<close>

lemma header_combine_forward_run:
  assumes t: "heap_tiled (as @ a # b # bs) s" and fb: "seg_free (headers s b)"
  shows "\<exists>s'. header_combine_forward a s = Some s' \<and> heap_tiled (as @ a # bs) s' \<and> heap_frame s s' \<and>
    seg_free (headers s' a) = seg_free (headers s a) \<and>
    (\<forall>c \<in> set as \<union> set bs. seg_length (headers s' c) = seg_length (headers s c) \<and>
      seg_free (headers s' c) = seg_free (headers s c))"
proof -
  let ?la = "seg_length (headers s a)" and ?lb = "seg_length (headers s b)"
  have a0: "a \<noteq> 0" "b \<noteq> 0" using heap_tiled_nonzero [OF t] by auto
  have d: "a \<noteq> b" "a \<notin> set as" "a \<notin> set bs" "b \<notin> set as" "b \<notin> set bs" "distinct bs"
    "set as \<inter> set bs = {}"
    using heap_tiled_distinct [OF t] by auto
  have hl: "hlinks (headers s) 0 (as @ a # b # bs) 0" using t unfolding heap_tiled_def by blast
  define h where "h = (headers s)(a := (headers s a)\<lparr>seg_length := ?la + ?lb + sizeof_header,
    seg_next := hd0 bs 0\<rparr>)"
  define h' where "h' = (if bs = [] then h else h(hd bs := (headers s (hd bs))\<lparr>seg_last := a\<rparr>))"
  define s' where "s' = s\<lparr>headers := h', last_header := last0 a bs\<rparr>"
  have lh: "last_header s = last0 b bs" using t by (simp add: heap_tiled_def)
  have nx: "seg_next (headers s a) = b" "seg_next (headers s b) = hd0 bs 0" using hl by simp_all
  have run: "header_combine_forward a s = Some s'"
  proof (cases bs)
    case Nil
    then show ?thesis using a0 fb lh nx d(1)
      by (cases "headers s a") (simp add: header_combine_forward_def Let_def s'_def h'_def h_def)
  next
    case (Cons c cs)
    have c: "c \<noteq> 0" "c \<noteq> a" "c \<noteq> b" using heap_tiled_nonzero [OF t] Cons d by auto
    have "b \<noteq> last0 c cs" using d(5) Cons by (cases cs rule: rev_cases) auto
    then show ?thesis using a0 c fb lh nx Cons d(1)
      by (cases "headers s a") (simp add: header_combine_forward_def Let_def s'_def h'_def h_def fun_upd_twist)
  qed
  have links: "hlinks h' 0 (as @ a # bs) 0"
    using hl d by (cases bs) (simp_all add: h'_def h_def)
  have fields: "seg_length (h' c) = (if c = a then ?la + ?lb + sizeof_header else seg_length (headers s c))"
    "seg_free (h' c) = seg_free (headers s c)" for c
    using d by (auto simp: h'_def h_def)
  have c: "hchain (headers s) (unat (heap_start s)) as"
    "unat a = hend (headers s) (unat (heap_start s)) as"
    "unat b = unat a + 32 + unat ?la"
    "hchain (headers s) (unat b + 32 + unat ?lb) bs"
    "hend (headers s) (unat b + 32 + unat ?lb) bs = unat (heap_end s)"
    using t by (simp_all add: heap_tiled_def)
  have "unat b + 32 + unat ?lb \<le> unat (heap_end s)" "unat (heap_end s) < 2 ^ 63"
    using segment_below [of "as @ [a]" b bs s] t by simp_all
  then have lt: "unat ?la + unat ?lb + 32 < 2 ^ 64" using c(3) by simp
  have "unat (?la + ?lb) = unat ?la + unat ?lb"
    using lt by (intro unat_plus_nowrap) simp
  then have len: "unat (?la + ?lb + sizeof_header) = unat ?la + unat ?lb + 32"
    using lt by (subst unat_plus_nowrap) simp_all
  have same: "hchain h' e as = hchain (headers s) e as" "hend h' e as = hend (headers s) e as"
    "hchain h' e bs = hchain (headers s) e bs" "hend h' e bs = hend (headers s) e bs" for e
    using d by (intro hchain_cong; auto simp: fields)+
  have tl: "hchain h' (unat (heap_start s)) (as @ a # bs)"
    "hend h' (unat (heap_start s)) (as @ a # bs) = unat (heap_end s)"
    using c len by (simp_all add: same fields ac_simps)
  have "seg_ok (headers s a)" "seg_ok (headers s b)" using t by (auto simp: heap_tiled_def)
  then have ok: "\<forall>c \<in> set (as @ a # bs). seg_ok (h' c)"
    using t len by (auto simp: heap_tiled_def seg_ok_def fields)
  have "heap_tiled (as @ a # bs) s'"
    unfolding heap_tiled_def
  proof (intro conjI)
    show "hd0 (as @ a # bs) 0 = heap_start s'"
      using t by (cases as) (simp_all add: heap_tiled_def s'_def)
  qed (use t links tl ok in \<open>simp_all add: s'_def heap_tiled_def\<close>)
  moreover have "heap_frame s s'" by (simp add: s'_def)
  moreover have "headers s' = h'" by (simp add: s'_def)
  moreover have "\<forall>c \<in> set as \<union> set bs. seg_length (h' c) = seg_length (headers s c) \<and>
      seg_free (h' c) = seg_free (headers s c)"
    using d fields by auto
  ultimately show ?thesis
    using run fields(2) [of a] by (intro exI [of _ s']) simp
qed

lemma combine_forward_step:
  assumes t: "heap_tiled (as @ a # bs) s" and f: "seg_free (headers s a)"
    and p: "no_free_pair (frees (headers s) bs)"
  shows "\<exists>s' bs'. header_combine_forward a s = Some s' \<and> heap_tiled (as @ a # bs') s' \<and>
    heap_frame s s' \<and> seg_free (headers s' a) \<and> frees (headers s') as = frees (headers s) as \<and>
    no_free_pair (True # frees (headers s') bs') \<and>
    used_blocks as s' = used_blocks as s \<and> used_blocks bs' s' = used_blocks bs s"
proof -
  have a0: "a \<noteq> 0" using heap_tiled_nonzero [OF t] by simp
  have nx: "seg_next (headers s a) = hd0 bs 0" using t by (simp add: heap_tiled_def)
  show ?thesis
  proof (cases "bs \<noteq> [] \<and> seg_free (headers s (hd bs))")
    case False
    have "header_combine_forward a s = Some s"
    proof (cases bs)
      case (Cons b cs)
      then have "b \<noteq> 0" using heap_tiled_nonzero [OF t] by auto
      then show ?thesis using a0 nx False Cons by (simp add: header_combine_forward_def)
    qed (use a0 nx in \<open>simp add: header_combine_forward_def\<close>)
    moreover have "no_free_pair (True # frees (headers s) bs)"
      using p False by (auto simp: no_free_pair_Cons hd_frees)
    ultimately show ?thesis using t f by (intro exI [of _ s] exI [of _ bs]) simp
  next
    case True
    then obtain b cs where bs: "bs = b # cs" and fb: "seg_free (headers s b)" by (cases bs) auto
    from header_combine_forward_run [OF t [unfolded bs] fb] obtain s' where
      r: "header_combine_forward a s = Some s'" "heap_tiled (as @ a # cs) s'" "heap_frame s s'"
        "seg_free (headers s' a) = seg_free (headers s a)"
      and same: "\<forall>c \<in> set as \<union> set cs. seg_length (headers s' c) = seg_length (headers s c) \<and>
        seg_free (headers s' c) = seg_free (headers s c)"
      by blast
    have fr: "frees (headers s') as = frees (headers s) as" "frees (headers s') cs = frees (headers s) cs"
      using same by (auto intro: frees_cong)
    have "used_blocks as s' = used_blocks as s" "used_blocks cs s' = used_blocks cs s"
      using same by (auto intro!: used_blocks_cong)
    moreover have "no_free_pair (True # frees (headers s') cs)"
      using p fb unfolding fr bs by simp
    ultimately show ?thesis
      using r f fr fb bs by (intro exI [of _ s'] exI [of _ cs]) (simp add: used_blocks_Cons)
  qed
qed

lemma combine_backward_step:
  assumes t: "heap_tiled (as @ a # bs) s" and f: "seg_free (headers s a)"
    and p: "no_free_pair (frees (headers s) as)" "no_free_pair (True # frees (headers s) bs)"
  shows "\<exists>s' segs'. header_combine_backward a s = Some s' \<and> heap_wf segs' s' \<and> heap_frame s s' \<and>
    used_blocks segs' s' = used_blocks as s \<union> used_blocks bs s"
proof -
  have a0: "a \<noteq> 0" using heap_tiled_nonzero [OF t] by simp
  have pv: "seg_last (headers s a) = last0 0 as" using t by (simp add: heap_tiled_def)
  show ?thesis
  proof (cases "as \<noteq> [] \<and> seg_free (headers s (last as))")
    case False
    have "header_combine_backward a s = Some s"
    proof (cases as rule: rev_cases)
      case (snoc us w)
      then have "w \<noteq> 0" using heap_tiled_nonzero [OF t] by auto
      then show ?thesis using a0 pv False snoc by (simp add: header_combine_backward_def)
    qed (use a0 pv in \<open>simp add: header_combine_backward_def\<close>)
    moreover have "no_free_pair (frees (headers s) (as @ a # bs))"
      using p f False by (auto simp: no_free_pair_append last_frees)
    ultimately show ?thesis
      using t f by (intro exI [of _ s] exI [of _ "as @ a # bs"])
        (simp add: heap_wf_def used_blocks_append used_blocks_Cons)
  next
    case True
    then obtain us w where as: "as = us @ [w]" and fw: "seg_free (headers s w)"
      by (cases as rule: rev_cases) auto
    have w0: "w \<noteq> 0" using heap_tiled_nonzero [OF t] as by auto
    have t': "heap_tiled (us @ w # a # bs) s" using t as by simp
    from header_combine_forward_run [OF t' f] obtain s' where
      r: "header_combine_forward w s = Some s'" "heap_tiled (us @ w # bs) s'" "heap_frame s s'"
        "seg_free (headers s' w) = seg_free (headers s w)"
      and same: "\<forall>c \<in> set us \<union> set bs. seg_length (headers s' c) = seg_length (headers s c) \<and>
        seg_free (headers s' c) = seg_free (headers s c)"
      by blast
    have fr: "frees (headers s') us = frees (headers s) us" "frees (headers s') bs = frees (headers s) bs"
      using same by (auto intro: frees_cong)
    have ub: "used_blocks us s' = used_blocks us s" "used_blocks bs s' = used_blocks bs s"
      using same by (auto intro!: used_blocks_cong)
    have "no_free_pair (frees (headers s) us @ [True])" using p(1) as fw by simp
    then have "no_free_pair (frees (headers s') (us @ w # bs))"
      using p(2) fw r(4) by (simp add: fr no_free_pair_append no_free_pair_Cons)
    moreover have "header_combine_backward a s = Some s'"
      using a0 w0 pv as fw r(1) by (simp add: header_combine_backward_def)
    ultimately show ?thesis
      using r fw as ub by (intro exI [of _ s'] exI [of _ "us @ w # bs"])
        (simp add: heap_wf_def used_blocks_append used_blocks_Cons)
  qed
qed

end
