(* ===== verification/Heap_Props.thy ===== *)
theory Heap_Props
  imports Heap_Inv Paging_Props
begin

text \<open>
  What \<open>malloc\<close> and \<open>free\<close> of the kernel heap promise on a well-formed heap.
\<close>

section \<open>Sizes\<close>

lemma heap_round_size:
  "16 dvd unat (heap_round_size n)"
  "heap_round_size n \<noteq> 0 \<Longrightarrow> n \<le> heap_round_size n \<and> unat (heap_round_size n) < unat n + 16"
proof -
  have m: "unat (n mod 0x10) = unat n mod 16" by (simp add: unat_mod)
  then have d: "unat (n - n mod 0x10) = unat n - unat n mod 16"
    by (subst unat_minus_nowrap) simp_all
  have "k + 16 - k mod 16 = 16 * (k div 16 + 1)" for k :: nat by presburger
  note e = this
  have lt: "\<not> 16 dvd k \<Longrightarrow> k + 16 - k mod 16 < k + 16" for k :: nat by presburger
  from e [of "unat n"] have dvd: "16 dvd unat n + 16 - unat n mod 16" by simp
  have "unat (n - n mod 0x10 + 0x10) = unat n - unat n mod 16 + 16 \<or> n - n mod 0x10 + 0x10 = 0"
  proof (cases "unat n - unat n mod 16 + 16 < 2 ^ 64")
    case True
    then show ?thesis using d unat_plus_nowrap [of "n - n mod 0x10" "0x10"] by simp
  next
    case False
    have "unat n < 2 ^ LENGTH(64)" by (rule unsigned_less)
    then have "unat n div 16 < 2 ^ 60" by (intro less_mult_imp_div_less) simp
    then have "unat n - unat n mod 16 + 16 \<le> 2 ^ 64" by (simp add: minus_mod_eq_mult_div)
    then have "unat (n - n mod 0x10) + 16 = 2 ^ 64" using d False by simp
    then have "unat (n - n mod 0x10 + 0x10) = 0" by (simp add: unat_word_ariths)
    then show ?thesis by (simp add: unat_eq_zero)
  qed
  moreover have "n mod 0x10 > 0 \<longleftrightarrow> unat n mod 16 \<noteq> 0" by (simp add: word_less_nat_alt m)
  ultimately show "16 dvd unat (heap_round_size n)"
    and "heap_round_size n \<noteq> 0 \<Longrightarrow> n \<le> heap_round_size n \<and> unat (heap_round_size n) < unat n + 16"
    using dvd lt [of "unat n"] by (auto simp: heap_round_size_def word_le_nat_alt mod_eq_0_iff_dvd)
qed

lemma heap_round_page_bounds:
  assumes "unat n + 4096 < 2 ^ 64"
  shows "4096 dvd unat (heap_round_page n)" "unat n \<le> unat (heap_round_page n)"
    "unat (heap_round_page n) < unat n + 4096"
proof -
  have m: "unat (n mod 0x1000) = unat n mod 4096" by (simp add: unat_mod)
  then have d: "unat (n - n mod 0x1000) = unat n - unat n mod 4096" by (subst unat_minus_nowrap) simp_all
  have u: "unat (n - n mod 0x1000 + 0x1000) = unat n - unat n mod 4096 + 4096"
    using assms d unat_plus_nowrap [of "n - n mod 0x1000" "0x1000"] by simp
  have z: "n mod 0x1000 = 0 \<longleftrightarrow> unat n mod 4096 = 0" using m by (metis unat_eq_zero)
  have "4096 dvd k - k mod 4096" for k :: nat by (rule dvd_minus_mod)
  then have "4096 dvd k - k mod 4096 + 4096" for k :: nat by (intro dvd_add) simp_all
  moreover have "k mod 4096 \<noteq> 0 \<Longrightarrow> k - k mod 4096 + 4096 < k + 4096" "k \<le> k - k mod 4096 + 4096" for k :: nat
    using mod_less_divisor [of 4096 k] mod_less_eq_dividend [of k 4096] by linarith+
  ultimately show "4096 dvd unat (heap_round_page n)" "unat n \<le> unat (heap_round_page n)"
    "unat (heap_round_page n) < unat n + 4096"
    using u z by (auto simp: heap_round_page_def mod_eq_0_iff_dvd)
qed

lemma pages_of_round:
  fixes r :: u64
  assumes "4096 dvd unat r"
  shows "r div 0x1000 * 0x1000 = r"
proof -
  have "unat (r div 0x1000) = unat r div 4096" by (simp add: unat_div)
  moreover have "unat r < 2 ^ LENGTH(64)" by (rule unsigned_less)
  ultimately have "unat (r div 0x1000 * 0x1000) = unat r"
    using assms by (subst unat_times_nowrap) auto
  then show ?thesis by (rule unsigned_word_eqI)
qed

lemma heap_round_room:
  assumes "unat n + 16 < 2 ^ 63"
  shows "16 dvd unat (heap_round_size n)" "unat (heap_round_size n) < unat n + 16"
    "heap_round_size n \<noteq> 0 \<Longrightarrow> 16 \<le> unat (heap_round_size n) \<and> unat n \<le> unat (heap_round_size n)"
    "heap_round_size n = 0 \<longleftrightarrow> n = 0"
proof -
  note r = heap_round_size [of n]
  show dvd: "16 dvd unat (heap_round_size n)" by (rule r(1))
  show "unat (heap_round_size n) < unat n + 16"
    using r(2) by (cases "heap_round_size n = 0") simp_all
  show "heap_round_size n \<noteq> 0 \<Longrightarrow> 16 \<le> unat (heap_round_size n) \<and> unat n \<le> unat (heap_round_size n)"
    using r dvd by (auto simp: word_le_nat_alt unat_gt_0 dest!: dvd_imp_le)
  show "heap_round_size n = 0 \<longleftrightarrow> n = 0"
  proof
    assume z: "heap_round_size n = 0"
    show "n = 0"
    proof (rule ccontr)
      assume "n \<noteq> 0"
      then have "n mod 0x10 > 0" using z by (auto simp: heap_round_size_def split: if_splits)
      moreover have "unat (n - n mod 0x10) \<le> unat n" by (simp add: unat_mod unat_minus_nowrap)
      then have "unat (n - n mod 0x10 + 0x10) = unat (n - n mod 0x10) + 16"
        using assms by (subst unat_plus_nowrap) simp_all
      ultimately show False using z by (simp add: heap_round_size_def)
    qed
  qed (simp add: heap_round_size_def)
qed

lemma heap_round_size_idem: "16 dvd unat m \<Longrightarrow> heap_round_size m = m"
proof -
  assume "16 dvd unat m"
  then have "unat (m mod 0x10) = 0" by (simp add: unat_mod)
  then have "m mod 0x10 = 0" by (simp only: unat_eq_zero)
  then show ?thesis by (simp add: heap_round_size_def)
qed

text \<open>
  \<open>malloc\<close> on a well-formed heap with a free segment that is large enough returns a block that is
  aligned to 16 bytes, at least as long as asked for and less than 64 bytes longer, and that does
  not touch any block in use nor its header; the blocks in use are the old ones and this one,
  the heap stays well formed and no payload byte changes.
\<close>

theorem malloc_returns_fresh_block:
  assumes wf: "heap_wf segs s" and fit: "a \<in> set segs" "seg_free (headers s a)"
    "heap_round_size n \<le> seg_length (headers s a)" and n: "heap_round_size n \<noteq> 0"
  shows "\<exists>p s' segs' m. heap_malloc n s = Some (p, s') \<and> heap_wf segs' s' \<and> heap_frame s s' \<and>
    16 dvd unat p \<and> unat n \<le> m \<and> m < unat n + 64 \<and>
    used_blocks segs' s' = insert (unat p, m) (used_blocks segs s) \<and>
    (\<forall>(q, l) \<in> used_blocks segs s. unat p + m + 32 \<le> q \<or> q + l + 32 \<le> unat p)"
proof -
  let ?n = "heap_round_size n"
  have t: "heap_tiled segs s" using wf by (simp add: heap_wf_def)
  define P where "P = (\<lambda>u. seg_free (headers s u) \<and> ?n \<le> seg_length (headers s u))"
  obtain us b vs where segs: "segs = us @ b # vs" and b: "P b" and us: "\<forall>u \<in> set us. \<not> P u"
    using split_list_first_prop [of segs P] fit by (auto simp: P_def)
  have n16: "16 \<le> unat ?n" "16 dvd unat ?n"
    using heap_round_size(1) [of n] n by (auto simp: unat_eq_zero dvd_imp_le unat_gt_0)
  have start: "hd0 (us @ b # vs) 0 = heap_start s" "heap_initialized s"
    and links: "hlinks (headers s) 0 (us @ b # vs) 0"
    using t segs unfolding heap_tiled_def by blast+
  have "0 \<notin> set (us @ b # vs)" using heap_tiled_nonzero [OF t] segs by blast
  from heap_search_skip [OF links this, of ?n] us
  have skip: "heap_search (heap_start s) ?n s = heap_search b ?n s"
    unfolding start(1) P_def by blast
  from heap_search_take [OF wf [unfolded segs] _ n16] b obtain s' segs' where
    take: "heap_search b ?n s = Some (Inl (b + 0x20, s'))" "took_block (b + 0x20) ?n segs s segs' s'"
    unfolding P_def segs by blast
  then obtain m where m: "unat ?n \<le> m" "m < unat ?n + 48" "(unat (b + 0x20), m) \<notin> used_blocks segs s"
    "used_blocks segs' s' = insert (unat (b + 0x20), m) (used_blocks segs s)"
    and wf': "heap_wf segs' s'" "heap_frame s s'"
    unfolding took_block_def by blast
  have run: "heap_malloc n s = Some (b + 0x20, s')"
    using start(2) n skip take(1) by (simp add: heap_malloc.simps [of n s] Let_def)
  have t': "heap_tiled segs' s'" using wf'(1) by (simp add: heap_wf_def)
  have tb: "heap_tiled (us @ b # vs) s" using t segs by simp
  have "16 dvd unat (b + 0x20)"
    using segment_aligned [OF tb] segment_payload(1) [OF tb] by simp
  moreover have "unat (b + 0x20) + m + 32 \<le> q \<or> q + l + 32 \<le> unat (b + 0x20)"
    if "(q, l) \<in> used_blocks segs s" for q l
    using used_blocks_disjoint [OF t', of "unat (b + 0x20)" m q l] m that by auto
  moreover have "unat n \<le> m" "m < unat n + 64"
    using m heap_round_size(2) [OF n] by (simp_all add: word_le_nat_alt)
  ultimately show ?thesis using run wf' m(4) by blast
qed

lemma heap_free_run:
  assumes wf: "heap_wf segs s" and used: "(unat p, m) \<in> used_blocks segs s"
  shows "\<exists>s' segs'. heap_free p s = Some s' \<and> heap_wf segs' s' \<and> heap_frame s s' \<and>
    used_blocks segs' s' = used_blocks segs s - {(unat p, m)}"
proof -
  have t: "heap_tiled segs s" using wf by (simp add: heap_wf_def)
  obtain a where a: "a \<in> set segs" "\<not> seg_free (headers s a)" "unat p = unat a + 32"
    "m = unat (seg_length (headers s a))"
    using used by (auto simp: used_blocks_def)
  then obtain as bs where segs: "segs = as @ a # bs" by (metis split_list)
  have t': "heap_tiled (as @ a # bs) s" using t segs by simp
  have "unat p = unat (a + 0x20)" using a(3) segment_payload(1) [OF t'] by simp
  then have p: "p - sizeof_header = a" by (simp add: word_unat_eq_iff [symmetric])
  have a0: "a \<noteq> 0" using heap_tiled_nonzero [OF t] a(1) by simp
  have d: "a \<notin> set as" "a \<notin> set bs" using heap_tiled_distinct [OF t'] by auto
  define s1 where "s1 = s\<lparr>headers := (headers s)(a := (headers s a)\<lparr>seg_free := True\<rparr>)\<rparr>"
  have t1: "heap_tiled (as @ a # bs) s1" unfolding s1_def by (rule heap_tiled_flags [OF t'])
  have f1: "seg_free (headers s1 a)" "frees (headers s1) as = frees (headers s) as"
    "frees (headers s1) bs = frees (headers s) bs" "heap_frame s s1"
    "used_blocks as s1 = used_blocks as s" "used_blocks bs s1 = used_blocks bs s"
    using d by (simp_all add: s1_def used_blocks_upd)
  have pairs: "no_free_pair (frees (headers s) as)" "no_free_pair (frees (headers s) bs)"
    using wf segs by (auto simp: heap_wf_def no_free_pair_append no_free_pair_Cons)
  from combine_forward_step [OF t1 f1(1)] pairs f1 obtain s2 cs where
    r2: "header_combine_forward a s1 = Some s2" "heap_tiled (as @ a # cs) s2" "heap_frame s1 s2"
      "seg_free (headers s2 a)" "frees (headers s2) as = frees (headers s1) as"
      "no_free_pair (True # frees (headers s2) cs)" "used_blocks as s2 = used_blocks as s1"
      "used_blocks cs s2 = used_blocks bs s1"
    by auto
  from combine_backward_step [OF r2(2,4) _ r2(6)] pairs f1 r2(5) obtain s3 segs' where
    r3: "header_combine_backward a s2 = Some s3" "heap_wf segs' s3" "heap_frame s2 s3"
      "used_blocks segs' s3 = used_blocks as s2 \<union> used_blocks cs s2"
    by auto
  have "heap_free p s = Some s3"
    using a0 p r2(1) r3(1) by (simp add: heap_free_def Let_def s1_def)
  moreover have "heap_frame s s3"
    using f1(4) r2(3) r3(3) heap_frame_trans by blast
  moreover have "used_blocks segs' s3 = used_blocks segs s - {(unat p, m)}"
    using segment_payload(2,3) [OF t', of m] a f1 r2 r3(4)
    by (auto simp: segs used_blocks_append used_blocks_Cons)
  ultimately show ?thesis using r3(2) by blast
qed

text \<open>C12:
  \<open>free\<close> on the address of a block in use returns; that block is not in use any more, every other
  block still is, and the heap is well formed again: the freed segment is combined with
  whichever neighbours are free. No payload byte changes.
\<close>

theorem free_releases_block:
  assumes wf: "heap_wf segs s" and used: "(unat p, m) \<in> used_blocks segs s"
  shows "\<exists>s' segs'. heap_free p s = Some s' \<and> heap_wf segs' s' \<and> heap_frame s s' \<and>
    used_blocks segs' s' = used_blocks segs s - {(unat p, m)}"
  using heap_free_run [OF assms] .

section \<open>A small heap\<close>

text \<open>One block of 0x100 bytes in use and a free segment behind it.\<close>

definition small_headers :: "u64 \<Rightarrow> heap_seg_header" where
  "small_headers a =
     (if a = 0x10000 then \<lparr>seg_length = 0x100, seg_next = 0x10120, seg_last = 0, seg_free = False\<rparr>
      else \<lparr>seg_length = 0xec0, seg_next = 0, seg_last = 0x10000, seg_free = True\<rparr>)"

definition small_heap :: heap_state where
  "small_heap = paging_state.extend small_paging \<lparr>heap_initialized = True, heap_start = 0x10000,
     heap_end = 0x11000, last_header = 0x10120, headers = small_headers, heap_bytes = (\<lambda>_. 0)\<rparr>"

lemma small_heap_sel [simp]:
  "heap_initialized small_heap" "heap_start small_heap = 0x10000" "heap_end small_heap = 0x11000"
  "last_header small_heap = 0x10120" "headers small_heap = small_headers"
  by (simp_all add: small_heap_def paging_state.defs)

lemma small_heap_wf: "heap_wf [0x10000, 0x10120] small_heap"
  by (simp add: heap_wf_def heap_tiled_def small_headers_def seg_ok_def)

lemma malloc_returns_fresh_block_witness:
  "\<exists>p s'. heap_malloc 100 small_heap = Some (p, s') \<and> 16 dvd unat p"
  using malloc_returns_fresh_block [OF small_heap_wf, of "0x10120" 100]
  by (fastforce simp: small_headers_def heap_round_size_def)

lemma free_releases_block_witness:
  "\<exists>s' segs'. heap_free 0x10020 small_heap = Some s' \<and> used_blocks segs' s' = {}"
proof -
  have u: "used_blocks [0x10000, 0x10120] small_heap = {(unat (0x10020 :: u64), 0x100)}"
    by (simp add: used_blocks_Cons small_headers_def)
  then have "(unat (0x10020 :: u64), 0x100) \<in> used_blocks [0x10000, 0x10120] small_heap" by simp
  from free_releases_block [OF small_heap_wf this] show ?thesis unfolding u by auto
qed

end
