(* ===== verification/Descriptors.thy ===== *)
theory Descriptors
  imports Glass_Prelude
begin

text \<open>
  The segment and interrupt descriptor tables: \<open>kernel/src/cpu/gdt/gdt.c\<close> and
  \<open>kernel/src/cpu/interrupts/idt.c\<close>. A table is a map from indices to descriptors, so that a write
  behind its last entry is visible in the model. Loading the table registers is assembly and has
  no counterpart; the addresses of the interrupt stubs are a parameter.
\<close>

section \<open>The global descriptor table\<close>

abbreviation GDT_MAX_DESCRIPTORS :: nat where "GDT_MAX_DESCRIPTORS \<equiv> 0x2000"
abbreviation GDT_DESCRIPTOR_SIZE :: u16 where "GDT_DESCRIPTOR_SIZE \<equiv> 0x08"
abbreviation GDT_DESCRIPTOR_ACCESS :: u8 where "GDT_DESCRIPTOR_ACCESS \<equiv> 0x01"
abbreviation GDT_DESCRIPTOR_EXECUTABLE :: u8 where "GDT_DESCRIPTOR_EXECUTABLE \<equiv> 0x08"
abbreviation GDT_DESCRIPTOR_DPL :: u8 where "GDT_DESCRIPTOR_DPL \<equiv> 0x60"
abbreviation GDT_DESCRIPTOR_PRESENT :: u8 where "GDT_DESCRIPTOR_PRESENT \<equiv> 0x80"
abbreviation GDT_BASIC_DESCRIPTOR :: u8 where "GDT_BASIC_DESCRIPTOR \<equiv> 0x92"
abbreviation GDT_BASIC_GRANULARITY :: u8 where "GDT_BASIC_GRANULARITY \<equiv> 0xa0"

record gdt_desc =
  gd_limit :: u16
  gd_base_low :: u16
  gd_base_mid :: u8
  gd_flags :: u8
  gd_granularity :: u8
  gd_base_high :: u8

text \<open>
  A task state descriptor takes two entries; the second one is read as a plain descriptor only by
  the dump, so the upper half is kept as its two 32-bit fields.
\<close>

datatype gdt_entry = Seg gdt_desc | Tss_High (tss_addr_3: u32) (tss_reserved: u32)

record gdt_state =
  gdt :: "nat \<Rightarrow> gdt_entry"
  gindex :: u16

definition gdt_add_descriptor ::
    "u64 \<Rightarrow> u16 \<Rightarrow> u8 \<Rightarrow> u8 \<Rightarrow> gdt_state \<Rightarrow> gdt_state" where
  "gdt_add_descriptor base limit access granularity s =
     (if unat (gindex s) \<ge> GDT_MAX_DESCRIPTORS then s
      else s\<lparr>gdt := (gdt s)(unat (gindex s) := Seg
               \<lparr>gd_limit = limit, gd_base_low = ucast (base AND 0xFFFF),
                gd_base_mid = ucast (drop_bit 16 base AND 0xFF), gd_flags = access,
                gd_granularity = granularity, gd_base_high = ucast (drop_bit 24 base AND 0xFF)\<rparr>),
             gindex := gindex s + 1\<rparr>)"

definition gdt_assemble :: "gdt_state \<Rightarrow> gdt_state" where
  "gdt_assemble s =
     (let s = gdt_add_descriptor 0 0 0 0 s;
          s = gdt_add_descriptor 0 0xFFFF (GDT_BASIC_DESCRIPTOR OR GDT_DESCRIPTOR_EXECUTABLE)
                GDT_BASIC_GRANULARITY s;
          s = gdt_add_descriptor 0 0xFFFF GDT_BASIC_DESCRIPTOR GDT_BASIC_GRANULARITY s;
          s = gdt_add_descriptor 0 0xFFFF (GDT_BASIC_DESCRIPTOR OR GDT_DESCRIPTOR_DPL)
                GDT_BASIC_GRANULARITY s;
          s = gdt_add_descriptor 0 0xFFFF
                (GDT_BASIC_DESCRIPTOR OR GDT_DESCRIPTOR_DPL OR GDT_DESCRIPTOR_EXECUTABLE)
                GDT_BASIC_GRANULARITY s
      in gdt_add_descriptor 0 0 0 0 s)"

abbreviation TSS_SIZE :: u32 where "TSS_SIZE \<equiv> 0x70"

text \<open>
  The fields of \<open>gdt_tss_desc_t\<close> lie over those of the descriptor: \<open>limit_0\<close> over \<open>limit\<close>,
  \<open>addr_0\<close> over \<open>base_low\<close>, \<open>addr_1\<close> over \<open>base_mid\<close>, \<open>type_0\<close> over \<open>flags\<close>, \<open>limit_1\<close> over
  \<open>granularity\<close> and \<open>addr_2\<close> over \<open>base_high\<close>.
\<close>

definition gdt_install_tss :: "u64 \<Rightarrow> gdt_state \<Rightarrow> u16 \<times> gdt_state" where
  "gdt_install_tss tss s =
     (if unat (gindex s) \<ge> GDT_MAX_DESCRIPTORS then (0, s)
      else
        let i = unat (gindex s);
            low = Seg \<lparr>gd_limit = ucast (TSS_SIZE AND 0xFFFF), gd_base_low = ucast (tss AND 0xFFFF),
                       gd_base_mid = ucast (drop_bit 16 (tss AND 0xFF0000)),
                       gd_flags = GDT_DESCRIPTOR_ACCESS OR GDT_DESCRIPTOR_EXECUTABLE OR
                         GDT_DESCRIPTOR_PRESENT,
                       gd_granularity = ucast (drop_bit 16 (TSS_SIZE AND 0xF0000)),
                       gd_base_high = ucast (drop_bit 24 (tss AND 0xFF000000))\<rparr>;
            s = s\<lparr>gdt := (gdt s)(i := low, Suc i := Tss_High (ucast (drop_bit 32 tss)) 0),
                 gindex := gindex s + 2\<rparr>
        in ((gindex s - 2) * GDT_DESCRIPTOR_SIZE, s))"

text \<open>The base that \<open>__uartsh_gdt_dump\<close> prints for a descriptor.\<close>

definition gdt_dump_base :: "gdt_desc \<Rightarrow> u64" where
  "gdt_dump_base d =
     ucast (gd_base_low d) OR push_bit 16 (ucast (gd_base_mid d)) OR
     push_bit 32 (ucast (gd_base_high d))"

section \<open>The interrupt descriptor table\<close>

abbreviation IDT_CPU_EXCEPTION_COUNT :: u8 where "IDT_CPU_EXCEPTION_COUNT \<equiv> 32"
abbreviation IDT_DESCRIPTOR_EXCEPTION :: u8 where "IDT_DESCRIPTOR_EXCEPTION \<equiv> 0x8e"
abbreviation IDT_DESCRIPTOR_EXTERNAL :: u8 where "IDT_DESCRIPTOR_EXTERNAL \<equiv> 0x8e"
abbreviation TSS_IST_EXCEPTION :: u8 where "TSS_IST_EXCEPTION \<equiv> 1"
abbreviation TSS_IST_ROUTINE :: u8 where "TSS_IST_ROUTINE \<equiv> 2"
abbreviation GDT_OFFSET_KERNEL_CODE :: u16 where "GDT_OFFSET_KERNEL_CODE \<equiv> 0x08"

record idt_desc =
  id_base_low :: u16
  id_cs :: u16
  id_ist :: u8
  id_attributes :: u8
  id_base_mid :: u16
  id_base_high :: u32
  id_rsv0 :: u32

record idt_state =
  idt :: "u8 \<Rightarrow> idt_desc"
  vectors :: "u8 \<Rightarrow> bool"
  routine_handlers :: "u8 \<Rightarrow> u64"

definition idt_set_descriptor :: "u8 \<Rightarrow> u64 \<Rightarrow> u8 \<Rightarrow> u8 \<Rightarrow> idt_state \<Rightarrow> idt_state" where
  "idt_set_descriptor vector isr flags ist s =
     s\<lparr>idt := (idt s)(vector :=
        \<lparr>id_base_low = ucast (isr AND 0xFFFF), id_cs = GDT_OFFSET_KERNEL_CODE, id_ist = ist,
         id_attributes = flags, id_base_mid = ucast (drop_bit 16 isr AND 0xFFFF),
         id_base_high = ucast (drop_bit 32 isr AND 0xFFFFFFFF), id_rsv0 = 0\<rparr>)\<rparr>"

definition idt_install_irq_handler ::
    "(u8 \<Rightarrow> u64) \<Rightarrow> u8 \<Rightarrow> u64 \<Rightarrow> idt_state \<Rightarrow> idt_state" where
  "idt_install_irq_handler isr_stub_table vector handler s =
     idt_set_descriptor vector (isr_stub_table vector) IDT_DESCRIPTOR_EXTERNAL TSS_IST_ROUTINE
       (s\<lparr>routine_handlers := (routine_handlers s)(vector := handler)\<rparr>)"

text \<open>\<open>for (uint8_t vector = 0; vector < IDT_CPU_EXCEPTION_COUNT; vector++)\<close>\<close>

definition idt_assemble :: "(u8 \<Rightarrow> u64) \<Rightarrow> idt_state \<Rightarrow> idt_state" where
  "idt_assemble isr_stub_table s =
     foldl (\<lambda>s vector.
        let s = idt_set_descriptor vector (isr_stub_table vector) IDT_DESCRIPTOR_EXCEPTION
                  TSS_IST_EXCEPTION s
        in s\<lparr>vectors := (vectors s)(vector := True)\<rparr>)
       s (map of_nat [0..<unat IDT_CPU_EXCEPTION_COUNT])"

definition idt_allocate_vector :: "idt_state \<Rightarrow> u8 \<times> idt_state" where
  "idt_allocate_vector s =
     (case find (\<lambda>i. \<not> vectors s (of_nat i)) [0..<256] of
        None \<Rightarrow> (0, s)
      | Some i \<Rightarrow> (of_nat i, s\<lparr>vectors := (vectors s)(of_nat i := True)\<rparr>))"

definition idt_free_vector :: "u8 \<Rightarrow> idt_state \<Rightarrow> idt_state" where
  "idt_free_vector vector s =
     (let s = idt_set_descriptor vector 0 0 0 s
      in s\<lparr>routine_handlers := (routine_handlers s)(vector := 0),
           vectors := (vectors s)(vector := False)\<rparr>)"

text \<open>The address that \<open>__uartsh_idt_dump\<close> reads back from a descriptor.\<close>

definition idt_dump_isr :: "idt_desc \<Rightarrow> u64" where
  "idt_dump_isr d =
     ucast (id_base_low d) OR push_bit 16 (ucast (id_base_mid d)) OR
     push_bit 32 (ucast (id_base_high d))"

section \<open>Handing out vectors\<close>

text \<open>
  What the device drivers rely on when they ask for an interrupt vector: an identifier that nobody
  holds, until they give it back. \<open>inv\<close> is what the provider keeps.
\<close>

locale id_pool =
  fixes alloc :: "'s \<Rightarrow> 'i \<times> 's"
    and release :: "'i \<Rightarrow> 's \<Rightarrow> 's"
    and held :: "'s \<Rightarrow> 'i set"
    and inv :: "'s \<Rightarrow> bool"
    and avail :: "'s \<Rightarrow> bool"
  assumes alloc_fresh: "\<lbrakk>inv s; avail s; alloc s = (i, s')\<rbrakk> \<Longrightarrow>
      i \<notin> held s \<and> held s' = insert i (held s) \<and> inv s'"
    and release_held: "\<lbrakk>inv s; i \<in> held s\<rbrakk> \<Longrightarrow> held (release i s) = held s - {i}"
begin

lemma alloc_twice_distinct:
  assumes "inv s" and "avail s" and "alloc s = (i, s1)" and "avail s1" and "alloc s1 = (j, s2)"
  shows "i \<noteq> j" and "held s2 = insert j (insert i (held s))"
proof -
  note a = alloc_fresh [OF assms(1-3)]
  note b = alloc_fresh [OF conjunct2 [OF conjunct2 [OF a]] assms(4,5)]
  show "i \<noteq> j" using a b by auto
  show "held s2 = insert j (insert i (held s))" using a b by simp
qed

lemma alloc_release:
  assumes "inv s" and "avail s" and "alloc s = (i, s')"
  shows "held (release i s') = held s"
  using alloc_fresh [OF assms] release_held [of s' i] by auto

end

section \<open>The vectors of the interrupt table\<close>

lemma idt_set_descriptor_sel [simp]:
  "vectors (idt_set_descriptor v isr f i s) = vectors s"
  "routine_handlers (idt_set_descriptor v isr f i s) = routine_handlers s"
  by (simp_all add: idt_set_descriptor_def)

lemma idt_allocate_vector_least:
  assumes "\<not> vectors s v" and "idt_allocate_vector s = (i, s')"
  shows "\<not> vectors s i" and "\<forall>j < i. vectors s j"
    and "s' = s\<lparr>vectors := (vectors s)(i := True)\<rparr>"
proof -
  let ?P = "\<lambda>k. \<not> vectors s (of_nat k)"
  have v: "unat v < 256" using unsigned_less [of v, where ?'a = nat] by simp
  have "find ?P [0..<256] \<noteq> None"
    using assms(1) v by (auto simp: find_None_iff intro!: bexI [of _ "unat v"])
  then obtain k where k: "find ?P [0..<256] = Some k" by auto
  then obtain n where n: "n < 256" "?P n" "k = n" "\<forall>j < n. \<not> ?P j"
    by (auto simp: find_Some_iff)
  have i: "i = of_nat n" "s' = s\<lparr>vectors := (vectors s)(of_nat n := True)\<rparr>"
    using assms(2) k n(3) by (auto simp: idt_allocate_vector_def)
  show "\<not> vectors s i" using i n by simp
  show "s' = s\<lparr>vectors := (vectors s)(i := True)\<rparr>" using i by simp
  show "\<forall>j < i. vectors s j"
  proof (intro allI impI)
    fix j :: u8 assume "j < i"
    then have "unat j < n" using n(1) i by (simp add: word_less_nat_alt unat_of_nat)
    then have "vectors s (of_nat (unat j))" using n(4) by blast
    then show "vectors s j" by simp
  qed
qed

interpretation idt_vectors: id_pool idt_allocate_vector idt_free_vector
  "\<lambda>s. {v. vectors s v}" "\<lambda>_. True" "\<lambda>s. \<exists>v. \<not> vectors s v"
proof
  fix s s' :: idt_state and i
  assume "\<exists>v. \<not> vectors s v" and "idt_allocate_vector s = (i, s')"
  then obtain v where v: "\<not> vectors s v" by blast
  show "i \<notin> {v. vectors s v} \<and> {v. vectors s' v} = insert i {v. vectors s v} \<and> True"
    using idt_allocate_vector_least [OF v \<open>idt_allocate_vector s = (i, s')\<close>] by auto
next
  fix s :: idt_state and i
  show "{v. vectors (idt_free_vector i s) v} = {v. vectors s v} - {i}"
    by (auto simp: idt_free_vector_def Let_def)
qed

lemma idt_assemble_vectors:
  "vectors (idt_assemble stubs s) v \<longleftrightarrow> v < 32 \<or> vectors s v"
proof -
  have "vectors (foldl (\<lambda>s vector. let s = idt_set_descriptor vector (stubs vector) f ist s
        in s\<lparr>vectors := (vectors s)(vector := True)\<rparr>) s (map of_nat [0..<n])) v \<longleftrightarrow>
      v \<in> of_nat ` {0..<n} \<or> vectors s v" for n f ist
    by (induction n) (auto simp: Let_def atLeastLessThanSuc)
  moreover have "v \<in> of_nat ` {0..<32} \<longleftrightarrow> v < 32"
  proof
    assume "v < 32"
    then have "unat v < 32" by (simp add: word_less_nat_alt)
    then show "v \<in> of_nat ` {0..<32}" by (intro image_eqI [of _ _ "unat v"]) simp_all
  qed (auto simp: word_less_nat_alt unat_of_nat)
  ultimately show ?thesis by (simp add: idt_assemble_def)
qed

text \<open>C34:
  After \<open>idt_assemble\<close>, two drivers that ask for vectors while some are free get different ones,
  neither of which belongs to a processor exception nor was held before; each is the lowest free
  one; and giving the second back leaves exactly the first in addition to what was held.
\<close>

theorem idt_vectors_are_distinct:
  assumes "s = idt_assemble stubs s0"
    and "\<not> vectors s v" and "idt_allocate_vector s = (i, s1)"
    and "\<not> vectors s1 w" and "idt_allocate_vector s1 = (j, s2)"
  shows "i \<noteq> j \<and> 32 \<le> i \<and> 32 \<le> j \<and> \<not> vectors s i \<and> (\<forall>k < i. vectors s k) \<and>
    \<not> vectors s1 j \<and> (\<forall>k < j. vectors s1 k) \<and>
    {k. vectors s2 k} = insert j (insert i {k. vectors s k}) \<and>
    {k. vectors (idt_free_vector j s2) k} = insert i {k. vectors s k}"
proof -
  have ex: "\<exists>v. \<not> vectors s v" "\<exists>v. \<not> vectors s1 v" using assms by blast+
  note d = idt_vectors.alloc_twice_distinct [OF TrueI ex(1) assms(3) ex(2) assms(5)]
  note r = idt_vectors.alloc_release [OF TrueI ex(2) assms(5)]
  note i = idt_allocate_vector_least [OF assms(2,3)]
  note j = idt_allocate_vector_least [OF assms(4,5)]
  have "32 \<le> i" using i(1) unfolding assms(1) idt_assemble_vectors by (simp add: not_less)
  moreover have "\<not> vectors s j" using j(1) i(3) by (auto split: if_splits)
  then have "32 \<le> j" unfolding assms(1) idt_assemble_vectors by (simp add: not_less)
  moreover have "{k. vectors s1 k} = insert i {k. vectors s k}" using i(3) by auto
  moreover note j(1,2)
  ultimately show ?thesis using d r i(1,2) by blast
qed

lemma idt_vectors_are_distinct_witness:
  "\<exists>i s1 j s2. idt_allocate_vector (idt_assemble (\<lambda>_. 0) \<lparr>idt = \<lambda>_. undefined, vectors = \<lambda>_. False,
     routine_handlers = \<lambda>_. 0\<rparr>) = (i, s1) \<and> idt_allocate_vector s1 = (j, s2) \<and> i \<noteq> j \<and> 32 \<le> i"
proof -
  let ?s = "idt_assemble (\<lambda>_. 0) \<lparr>idt = \<lambda>_. undefined, vectors = \<lambda>_. False, routine_handlers = \<lambda>_. 0\<rparr>"
  obtain i s1 where a: "idt_allocate_vector ?s = (i, s1)" by force
  obtain j s2 where b: "idt_allocate_vector s1 = (j, s2)" by force
  have v: "\<not> vectors ?s 200" "\<not> vectors ?s 201" by (simp_all add: idt_assemble_vectors)
  then have "\<not> vectors s1 200 \<or> \<not> vectors s1 201"
    using idt_allocate_vector_least(3) [OF v(1) a] by auto
  then have "\<not> vectors s1 (if vectors s1 200 then 201 else 200)" by auto
  from idt_vectors_are_distinct [OF refl v(1) a this b] show ?thesis using a b by blast
qed

section \<open>Addresses in descriptors\<close>

lemma word_split_64:
  fixes a :: u64
  shows "ucast (ucast (a AND 0xFFFF) :: u16) OR push_bit 16 (ucast (ucast (drop_bit 16 a AND 0xFFFF) :: u16)) OR
    push_bit 32 (ucast (ucast (drop_bit 32 a AND 0xFFFFFFFF) :: u32)) = a"
proof -
  have m: "(0xFFFF :: u64) = mask 16" "(0xFFFFFFFF :: u64) = mask 32"
    by (simp_all add: mask_eq_exp_minus_1)
  show ?thesis
    unfolding m
  proof (rule bit_word_eqI)
    fix n assume n: "n < LENGTH(64)"
    consider "n < 16" | "16 \<le> n" "n < 32" | "32 \<le> n" by linarith
    then show "bit (ucast (ucast (a AND mask 16) :: u16) OR
        push_bit 16 (ucast (ucast (drop_bit 16 a AND mask 16) :: u16)) OR
        push_bit 32 (ucast (ucast (drop_bit 32 a AND mask 32) :: u32)) :: u64) n = bit a n"
      using n by cases (auto simp: bit_simps)
  qed
qed

text \<open>
  \<open>idt_set_descriptor\<close> and the decoding of \<open>__uartsh_idt_dump\<close> are inverse: the three base fields
  give back the 64-bit address of the handler, for every address; the gate uses the kernel code
  segment and no other descriptor changes.
\<close>

theorem idt_descriptor_roundtrip:
  "idt_dump_isr (idt (idt_set_descriptor v isr flags ist s) v) = isr \<and>
   id_cs (idt (idt_set_descriptor v isr flags ist s) v) = GDT_OFFSET_KERNEL_CODE \<and>
   id_ist (idt (idt_set_descriptor v isr flags ist s) v) = ist \<and>
   id_attributes (idt (idt_set_descriptor v isr flags ist s) v) = flags \<and>
   (idt (idt_set_descriptor v isr flags ist s))(v := d) = (idt s)(v := d)"
  by (simp add: idt_set_descriptor_def idt_dump_isr_def word_split_64)

section \<open>The segments of the kernel\<close>

text \<open>The 64-bit base of the task state descriptor whose low half is entry \<open>i\<close>.\<close>

definition tss_base :: "gdt_state \<Rightarrow> nat \<Rightarrow> u64" where
  "tss_base s i =
     (case (gdt s i, gdt s (Suc i)) of
        (Seg d, Tss_High a r) \<Rightarrow>
          ucast (gd_base_low d) OR push_bit 16 (ucast (gd_base_mid d)) OR
          push_bit 24 (ucast (gd_base_high d)) OR push_bit 32 (ucast a)
      | _ \<Rightarrow> 0)"

lemma word_split_base:
  fixes a :: u64
  shows "ucast (ucast (a AND 0xFFFF) :: u16) OR push_bit 16 (ucast (ucast (drop_bit 16 a AND 0xFF) :: u8)) OR
    push_bit 24 (ucast (ucast (drop_bit 24 a AND 0xFF) :: u8)) OR
    push_bit 32 (ucast (ucast (drop_bit 32 a) :: u32)) = a"
proof -
  have m: "(0xFFFF :: u64) = mask 16" "(0xFF :: u64) = mask 8"
    by (simp_all add: mask_eq_exp_minus_1)
  show ?thesis
    unfolding m
  proof (rule bit_word_eqI)
    fix n assume n: "n < LENGTH(64)"
    consider "n < 16" | "16 \<le> n" "n < 24" | "24 \<le> n" "n < 32" | "32 \<le> n" by linarith
    then show "bit (ucast (ucast (a AND mask 16) :: u16) OR
        push_bit 16 (ucast (ucast (drop_bit 16 a AND mask 8) :: u8)) OR
        push_bit 24 (ucast (ucast (drop_bit 24 a AND mask 8) :: u8)) OR
        push_bit 32 (ucast (ucast (drop_bit 32 a) :: u32)) :: u64) n = bit a n"
      using n by cases (auto simp: bit_simps)
  qed
qed

text \<open>
  Loading the kernel's segments and then its task state segment into an empty table: the task
  state selector is 0x30, its two entries hold the full 64-bit address of the segment, entry 1 is
  the ring 0 code segment that \<open>GDT_OFFSET_KERNEL_CODE\<close> names, entries 2 to 4 are kernel data, user
  data and user code, and nothing behind entry 7 is written.
\<close>

theorem gdt_kernel_layout:
  assumes "gindex s0 = 0" and "gdt_install_tss tss (gdt_assemble s0) = (sel, s)"
  shows "sel = 0x30 \<and> gindex s = 8 \<and> tss_base s 6 = tss \<and>
    (\<exists>d. gdt s (unat (GDT_OFFSET_KERNEL_CODE div 8)) = Seg d \<and> gd_flags d = 0x9a) \<and>
    (\<exists>d. gdt s 2 = Seg d \<and> gd_flags d = 0x92) \<and>
    (\<exists>d. gdt s 3 = Seg d \<and> gd_flags d = 0xf2) \<and> (\<exists>d. gdt s 4 = Seg d \<and> gd_flags d = 0xfa) \<and>
    (\<forall>i \<ge> 8. gdt s i = gdt s0 i)"
proof -
  define s5 where "s5 = gdt_assemble s0"
  have s5: "gindex s5 = 6" "\<exists>d. gdt s5 1 = Seg d \<and> gd_flags d = 0x9a"
    "\<exists>d. gdt s5 2 = Seg d \<and> gd_flags d = 0x92" "\<exists>d. gdt s5 3 = Seg d \<and> gd_flags d = 0xf2"
    "\<exists>d. gdt s5 4 = Seg d \<and> gd_flags d = 0xfa" "\<forall>i \<ge> 8. gdt s5 i = gdt s0 i"
    using assms(1) by (simp_all add: s5_def gdt_assemble_def gdt_add_descriptor_def Let_def)
  have sel: "sel = 0x30" "gindex s = 8"
    using assms(2) s5(1) by (auto simp: s5_def [symmetric] gdt_install_tss_def Let_def)
  have g: "tss_base s 6 = tss" "\<forall>i. i \<noteq> 6 \<and> i \<noteq> 7 \<longrightarrow> gdt s i = gdt s5 i"
    using assms(2) s5(1)
    by (auto simp: s5_def [symmetric] gdt_install_tss_def Let_def tss_base_def word_split_base)
  show ?thesis using sel g s5 by simp
qed

lemma gdt_kernel_layout_witness:
  "\<exists>sel s. gdt_install_tss 0xFFFF800012345678 (gdt_assemble \<lparr>gdt = \<lambda>_. Tss_High 0 0, gindex = 0\<rparr>) = (sel, s) \<and>
     sel = 0x30 \<and> tss_base s 6 = 0xFFFF800012345678"
proof -
  let ?s0 = "\<lparr>gdt = \<lambda>_. Tss_High 0 0, gindex = 0\<rparr>"
  obtain sel s where r: "gdt_install_tss 0xFFFF800012345678 (gdt_assemble ?s0) = (sel, s)" by force
  have "gindex ?s0 = 0" by simp
  from gdt_kernel_layout [OF this r] show ?thesis using r by blast
qed

text \<open>
  \<open>gdt_install_tss\<close> checks that one entry is free and writes two: with one entry left it writes the
  upper half of the task state descriptor to index 0x2000, behind the table of 0x2000 descriptors,
  and from then on the table accepts nothing.
\<close>

theorem gdt_install_tss_overruns:
  assumes "gindex s = 0x1FFF" and "gdt_install_tss tss s = (sel, s')"
  shows "gdt s' GDT_MAX_DESCRIPTORS = Tss_High (ucast (drop_bit 32 tss)) 0 \<and>
    gdt_add_descriptor b l a g s' = s'"
  using assms by (auto simp: gdt_install_tss_def gdt_add_descriptor_def Let_def)

lemma gdt_install_tss_overruns_witness:
  "gdt (snd (gdt_install_tss 0 \<lparr>gdt = \<lambda>_. Seg undefined, gindex = 0x1FFF\<rparr>)) 0x2000 = Tss_High 0 0"
proof -
  let ?s = "\<lparr>gdt = \<lambda>_. Seg undefined, gindex = 0x1FFF\<rparr>"
  obtain sel s' where r: "gdt_install_tss 0 ?s = (sel, s')" by force
  from gdt_install_tss_overruns [OF _ r, of 0 0 0 0] show ?thesis using r by simp
qed

text \<open>The bits that the dump shows, at the places where it shows them.\<close>

lemma gdt_dump_bits:
  fixes base :: u64
  defines "v \<equiv> ucast (ucast (base AND 0xFFFF) :: u16) OR
      push_bit 16 (ucast (ucast (drop_bit 16 base AND 0xFF) :: u8)) OR
      push_bit 32 (ucast (ucast (drop_bit 24 base AND 0xFF) :: u8)) :: u64"
  shows "v = base \<longleftrightarrow> base < 0x1000000"
proof -
  have m: "(0xFFFF :: u64) = mask 16" "(0xFF :: u64) = mask 8"
    by (simp_all add: mask_eq_exp_minus_1)
  have v: "bit v n \<longleftrightarrow> (if n < 24 then bit base n else 32 \<le> n \<and> n < 40 \<and> bit base (n - 8))"
    if "n < 64" for n
  proof -
    consider "n < 16" | "16 \<le> n" "n < 24" | "24 \<le> n" "n < 32" | "32 \<le> n" by linarith
    then show ?thesis using that unfolding v_def m by cases (auto simp: bit_simps)
  qed
  have "base < 0x1000000 \<longleftrightarrow> take_bit 24 base = base"
  proof
    assume "take_bit 24 base = base"
    then have "base mod 2 ^ 24 = base" by (simp add: take_bit_eq_mod)
    moreover have "base mod 2 ^ 24 < 2 ^ 24" by (rule word_mod_less_divisor) simp
    ultimately show "base < 0x1000000" by simp
  next
    assume "base < 0x1000000"
    then have "take_bit 24 (unat base) = unat base"
      by (simp add: word_less_nat_alt take_bit_nat_eq_self_iff)
    then show "take_bit 24 base = base" by (metis unsigned_take_bit_eq unsigned_word_eqI)
  qed
  also have "\<dots> \<longleftrightarrow> (\<forall>n. 24 \<le> n \<and> n < 64 \<longrightarrow> \<not> bit base n)"
    by (auto simp: bit_eq_iff bit_simps not_less)
  finally have small: "base < 0x1000000 \<longleftrightarrow> (\<forall>n. 24 \<le> n \<and> n < 64 \<longrightarrow> \<not> bit base n)" .
  show ?thesis
  proof
    assume eq: "v = base"
    have mid: "\<not> bit base n" if "24 \<le> n" "n < 32" for n using v [of n] eq that by simp
    have "\<not> bit base n" if "24 \<le> n" "n < 64" for n
    proof (cases "n < 32 \<or> 40 \<le> n")
      case True
      then show ?thesis using v [of n] mid [of n] eq that by auto
    next
      case False
      then have "\<not> bit base (n - 8)" by (intro mid) auto
      then show ?thesis using False v [of n] eq that by simp
    qed
    then show "base < 0x1000000" using small by blast
  next
    assume "base < 0x1000000"
    then have z: "\<not> bit base n" if "24 \<le> n" "n < 64" for n using small that by blast
    show "v = base"
    proof (rule bit_word_eqI)
      fix n assume "n < LENGTH(64)"
      then show "bit v n = bit base n" using v [of n] z [of n] z [of "n - 8"] by auto
    qed
  qed
qed

text \<open>
  The debug dump puts the upper base byte of a descriptor at bit 32 instead of bit 24: it shows
  the base that \<open>gdt_add_descriptor\<close> was given exactly when that base is below 16 MiB.
\<close>

theorem gdt_dump_shows_low_bases:
  assumes "unat (gindex s) < GDT_MAX_DESCRIPTORS"
  shows "\<exists>d. gdt (gdt_add_descriptor base limit access granularity s) (unat (gindex s)) = Seg d \<and>
    (gdt_dump_base d = base \<longleftrightarrow> base < 0x1000000)"
  using assms gdt_dump_bits [of base] by (simp add: gdt_add_descriptor_def gdt_dump_base_def)

lemma gdt_dump_shows_low_bases_witness:
  "\<exists>d. gdt (gdt_add_descriptor 0x12345678 0xFFFF 0x92 0xa0 \<lparr>gdt = \<lambda>_. Tss_High 0 0, gindex = 0\<rparr>) 0 =
     Seg d \<and> gdt_dump_base d \<noteq> 0x12345678"
  using gdt_dump_shows_low_bases [of "\<lparr>gdt = \<lambda>_. Tss_High 0 0, gindex = 0\<rparr>" "0x12345678" "0xFFFF" "0x92" "0xa0"]
  by simp

end
