(* ===== verification/Machine.thy ===== *)
theory Machine
  imports Heap Descriptors
begin

text \<open>
  The machine as the drivers see it (\<open>kernel/src/iodev/io.h\<close> and the memory-mapped registers).

  Devices are outside the source. Every access to a port or to a device register is an event of
  \<open>io_log\<close>, oldest first, and what the \<open>n\<close>-th access reads is \<open>io_env n\<close>, an arbitrary function: a
  lemma for every \<open>io_env\<close> holds for every behaviour of the hardware. The two model specific
  registers that the kernel uses are storage. The descriptor tables are fields of the state, with
  \<open>on_idt\<close> lifting their operations.
\<close>

datatype io_event =
    In8 u16 u8 | Out8 u16 u8
  | In16 u16 u16 | Out16 u16 u16
  | In32 u16 u32 | Out32 u16 u32
  | Rd32 u64 u32 | Wr32 u64 u32

record machine_state = heap_state +
  io_env :: "nat \<Rightarrow> u64"
  io_log :: "io_event list"
  msr :: "u64 \<Rightarrow> u64"
  idt_tab :: idt_state

definition io_next :: "'z machine_state_scheme \<Rightarrow> u64" where
  "io_next s = io_env s (length (io_log s))"

definition io_emit :: "io_event \<Rightarrow> 'z machine_state_scheme \<Rightarrow> 'z machine_state_scheme" where
  "io_emit e s = s\<lparr>io_log := io_log s @ [e]\<rparr>"

section \<open>Ports\<close>

definition outb :: "u16 \<Rightarrow> u8 \<Rightarrow> 'z machine_state_scheme \<Rightarrow> 'z machine_state_scheme" where
  "outb port val s = io_emit (Out8 port val) s"

definition outc :: "u16 \<Rightarrow> u8 \<Rightarrow> 'z machine_state_scheme \<Rightarrow> 'z machine_state_scheme" where
  "outc port val s = io_emit (Out8 port val) s"

definition inb :: "u16 \<Rightarrow> 'z machine_state_scheme \<Rightarrow> u8 \<times> 'z machine_state_scheme" where
  "inb port s = (let v = ucast (io_next s) in (v, io_emit (In8 port v) s))"

definition outw :: "u16 \<Rightarrow> u16 \<Rightarrow> 'z machine_state_scheme \<Rightarrow> 'z machine_state_scheme" where
  "outw port val s = io_emit (Out16 port val) s"

definition inw :: "u16 \<Rightarrow> 'z machine_state_scheme \<Rightarrow> u16 \<times> 'z machine_state_scheme" where
  "inw port s = (let v = ucast (io_next s) in (v, io_emit (In16 port v) s))"

definition outl :: "u16 \<Rightarrow> u32 \<Rightarrow> 'z machine_state_scheme \<Rightarrow> 'z machine_state_scheme" where
  "outl port val s = io_emit (Out32 port val) s"

definition inl :: "u16 \<Rightarrow> 'z machine_state_scheme \<Rightarrow> u32 \<times> 'z machine_state_scheme" where
  "inl port s = (let v = ucast (io_next s) in (v, io_emit (In32 port v) s))"

section \<open>Device registers in memory\<close>

definition mmio_write :: "u64 \<Rightarrow> u32 \<Rightarrow> 'z machine_state_scheme \<Rightarrow> 'z machine_state_scheme" where
  "mmio_write addr val s = io_emit (Wr32 addr val) s"

definition mmio_read :: "u64 \<Rightarrow> 'z machine_state_scheme \<Rightarrow> u32 \<times> 'z machine_state_scheme" where
  "mmio_read addr s = (let v = ucast (io_next s) in (v, io_emit (Rd32 addr v) s))"

section \<open>Model specific registers\<close>

abbreviation IA32_KERNEL_GS_BASE :: u64 where "IA32_KERNEL_GS_BASE \<equiv> 0xC0000102"
abbreviation IA32_GS_BASE :: u64 where "IA32_GS_BASE \<equiv> 0xC0000101"

text \<open>The value is passed in two halves, in EDX and EAX.\<close>

definition wrmsr :: "u64 \<Rightarrow> u64 \<Rightarrow> 'z machine_state_scheme \<Rightarrow> 'z machine_state_scheme" where
  "wrmsr r value s =
     (let eax = ucast (value AND 0xFFFFFFFF) :: u32; edx = ucast (drop_bit 0x20 value) :: u32
      in s\<lparr>msr := (msr s)(r := push_bit 32 (ucast edx) OR ucast eax)\<rparr>)"

definition rdmsr :: "u64 \<Rightarrow> 'z machine_state_scheme \<Rightarrow> u64" where
  "rdmsr r s =
     (let eax = ucast (msr s r) :: u32; edx = ucast (drop_bit 32 (msr s r)) :: u32
      in ucast eax OR push_bit 0x20 (ucast edx))"

section \<open>The interrupt descriptor table in the state\<close>

definition on_idt :: "(idt_state \<Rightarrow> idt_state) \<Rightarrow> 'z machine_state_scheme \<Rightarrow> 'z machine_state_scheme" where
  "on_idt f s = s\<lparr>idt_tab := f (idt_tab s)\<rparr>"

definition idt_new_vector :: "'z machine_state_scheme \<Rightarrow> u8 \<times> 'z machine_state_scheme" where
  "idt_new_vector s = (let (v, t) = idt_allocate_vector (idt_tab s) in (v, s\<lparr>idt_tab := t\<rparr>))"

section \<open>What the accesses change\<close>

lemma io_emit_simps [simp]:
  "io_log (io_emit e s) = io_log s @ [e]" "io_env (io_emit e s) = io_env s"
  "msr (io_emit e s) = msr s" "idt_tab (io_emit e s) = idt_tab s"
  by (simp_all add: io_emit_def)

lemma split_halves: "push_bit 32 (ucast (ucast (drop_bit 32 a) :: u32)) OR ucast (ucast a :: u32) = (a :: u64)"
proof (rule bit_word_eqI)
  fix n assume "n < LENGTH(64)"
  then show "bit (push_bit 32 (ucast (ucast (drop_bit 32 a) :: u32)) OR ucast (ucast a :: u32) :: u64) n =
      bit a n"
    by (cases "n < 32") (auto simp: bit_simps)
qed

lemma low_half: "ucast (a AND 0xFFFFFFFF) = (ucast (a :: u64) :: u32)"
proof -
  have m: "(0xFFFFFFFF :: u64) = mask 32" by (simp add: mask_eq_exp_minus_1)
  show ?thesis unfolding m by (intro bit_word_eqI) (auto simp: bit_simps)
qed

lemma rdmsr_eq: "rdmsr r s = msr s r"
  using split_halves [of "msr s r"] by (simp add: rdmsr_def Let_def or.commute)

lemma wrmsr_eq: "wrmsr r v s = s\<lparr>msr := (msr s)(r := v)\<rparr>"
  by (simp add: wrmsr_def Let_def low_half split_halves)

section \<open>Devices\<close>

text \<open>
  A device is described by how an event changes its state; \<open>None\<close> is an event that the device does
  not produce (a read of another value than it holds). \<open>device_run\<close> replays a log: it is the state
  of the device, when the log is one of that device.
\<close>

fun device_run :: "('d \<Rightarrow> io_event \<Rightarrow> 'd option) \<Rightarrow> 'd \<Rightarrow> io_event list \<Rightarrow> 'd option" where
  "device_run step d [] = Some d"
| "device_run step d (e # es) = Option.bind (step d e) (\<lambda>d. device_run step d es)"

lemma device_run_append [simp]:
  "device_run step d (xs @ ys) = Option.bind (device_run step d xs) (\<lambda>d. device_run step d ys)"
  by (induction xs arbitrary: d) (auto split: Option.bind_split)

text \<open>Byte registers at ports: reading gives the byte written last.\<close>

definition port_step :: "(u16 \<Rightarrow> u8) \<Rightarrow> io_event \<Rightarrow> (u16 \<Rightarrow> u8) option" where
  "port_step f e =
     (case e of
        In8 p v \<Rightarrow> if v = f p then Some f else None
      | Out8 p v \<Rightarrow> Some (f(p := v))
      | _ \<Rightarrow> Some f)"

text \<open>
  An index register at \<open>base\<close> and a data register at \<open>base + 0x10\<close>, through which the register
  that the index names is read and written.
\<close>

definition window_step ::
    "u64 \<Rightarrow> u32 \<times> (u32 \<Rightarrow> u32) \<Rightarrow> io_event \<Rightarrow> (u32 \<times> (u32 \<Rightarrow> u32)) option" where
  "window_step base d e =
     (case e of
        Wr32 a v \<Rightarrow> Some (if a = base then (v, snd d)
                          else if a = base + 0x10 then (fst d, (snd d)(fst d := v)) else d)
      | Rd32 a v \<Rightarrow> if a = base + 0x10 \<and> v \<noteq> snd d (fst d) then None else Some d
      | _ \<Rightarrow> Some d)"

section \<open>Registers that are read back and changed\<close>

text \<open>
  What the drivers rely on when they change some bits of a device register: a write changes that
  register only, and a read, if it comes from the device at all, returns the register.
  \<open>regs s\<close> is the register file, \<open>None\<close> when the log is not one of the device.
\<close>

locale register_file =
  fixes wr :: "'r \<Rightarrow> 'v \<Rightarrow> 's \<Rightarrow> 's"
    and rd :: "'r \<Rightarrow> 's \<Rightarrow> 'v \<times> 's"
    and regs :: "'s \<Rightarrow> ('r \<Rightarrow> 'v) option"
  assumes regs_wr: "regs (wr r v s) = map_option (\<lambda>f. f(r := v)) (regs s)"
    and regs_rd: "rd r s = (v, s') \<Longrightarrow>
      regs s' = (case regs s of None \<Rightarrow> None | Some f \<Rightarrow> if v = f r then Some f else None)"
begin

lemma rd_value:
  assumes "rd r s = (v, s')" and "regs s' = Some f"
  shows "regs s = Some f" and "v = f r"
  using regs_rd [OF assms(1)] assms(2) by (auto split: option.splits if_splits)

text \<open>Read, modify, write.\<close>

lemma rmw:
  assumes "rd r s = (v, s')" and "regs (wr r (g v) s') = Some f"
  shows "\<exists>f0. regs s = Some f0 \<and> f = f0(r := g (f0 r))"
proof -
  obtain f1 where f1: "regs s' = Some f1" "f = f1(r := g v)"
    using assms(2) by (auto simp: regs_wr)
  from rd_value [OF assms(1) f1(1)] show ?thesis using f1(2) by auto
qed

text \<open>Bits set by one read-modify-write and cleared by the next: the rest is as before.\<close>

lemma rmw_twice:
  assumes "rd r s = (v, s1)" and "rd r (wr r (g v) s1) = (w, s2)"
    and "regs (wr r (h w) s2) = Some f"
  shows "\<exists>f0. regs s = Some f0 \<and> f = f0(r := h (g (f0 r)))"
proof -
  obtain f1 where f1: "regs (wr r (g v) s1) = Some f1" "f = f1(r := h (f1 r))"
    using rmw [where g = h, OF assms(2,3)] by blast
  then obtain f0 where "regs s = Some f0" "f1 = f0(r := g (f0 r))"
    using rmw [where g = g, OF assms(1)] by blast
  then show ?thesis using f1(2) by auto
qed

end

interpretation ports: register_file outb inb "\<lambda>s. device_run port_step f0 (io_log s)" for f0
proof
  fix r v and s :: "'a machine_state_scheme"
  show "device_run port_step f0 (io_log (outb r v s)) =
      map_option (\<lambda>f. f(r := v)) (device_run port_step f0 (io_log s))"
    by (cases "device_run port_step f0 (io_log s)") (simp_all add: outb_def port_step_def)
next
  fix r v and s s' :: "'a machine_state_scheme"
  assume "inb r s = (v, s')"
  then show "device_run port_step f0 (io_log s') =
      (case device_run port_step f0 (io_log s) of None \<Rightarrow> None
       | Some f \<Rightarrow> if v = f r then Some f else None)"
    by (cases "device_run port_step f0 (io_log s)") (auto simp: inb_def Let_def port_step_def)
qed

text \<open>The registers behind an index and a data register.\<close>

definition window_write :: "u64 \<Rightarrow> u32 \<Rightarrow> u32 \<Rightarrow> 'z machine_state_scheme \<Rightarrow> 'z machine_state_scheme" where
  "window_write base r v s = mmio_write (base + 0x10) v (mmio_write (base + 0) r s)"

definition window_read :: "u64 \<Rightarrow> u32 \<Rightarrow> 'z machine_state_scheme \<Rightarrow> u32 \<times> 'z machine_state_scheme" where
  "window_read base r s = mmio_read (base + 0x10) (mmio_write (base + 0) r s)"

interpretation window: register_file "window_write base" "window_read base"
  "\<lambda>s. map_option snd (device_run (window_step base) d0 (io_log s))" for base d0
proof
  fix r v and s :: "'a machine_state_scheme"
  show "map_option snd (device_run (window_step base) d0 (io_log (window_write base r v s))) =
      map_option (\<lambda>f. f(r := v)) (map_option snd (device_run (window_step base) d0 (io_log s)))"
    by (cases "device_run (window_step base) d0 (io_log s)")
      (simp_all add: window_write_def mmio_write_def window_step_def)
next
  fix r v and s s' :: "'a machine_state_scheme"
  assume "window_read base r s = (v, s')"
  then show "map_option snd (device_run (window_step base) d0 (io_log s')) =
      (case map_option snd (device_run (window_step base) d0 (io_log s)) of None \<Rightarrow> None
       | Some f \<Rightarrow> if v = f r then Some f else None)"
    by (cases "device_run (window_step base) d0 (io_log s)")
      (auto simp: window_read_def mmio_read_def mmio_write_def Let_def window_step_def)
qed

end
