(* ===== verification/Keycodes.thy ===== *)
theory Keycodes
  imports Glass_Prelude
begin

text \<open>
  The kernel's key codes (\<open>kernel/src/iodev/hid/kbd.h\<close>, the same enumeration as
  \<open>apps/frames/prism/src/kbd/kbd.h\<close>) and the translation of PS/2 scan codes of set 2 to them
  (\<open>ps2_translate_keycode\<close> in \<open>kernel/src/iodev/hid/ps2/ps2_kbd.c\<close>). A key code is a byte whose
  highest bit says that the key was released.
\<close>

type_synonym hid_keycode = u8

section \<open>The enumeration\<close>

abbreviation HID_KEYCODE_NULL :: hid_keycode where "HID_KEYCODE_NULL \<equiv> 0x00"
abbreviation HID_KEYCODE_BACKTICK :: hid_keycode where "HID_KEYCODE_BACKTICK \<equiv> 0x01"
abbreviation HID_KEYCODE_NUM1 :: hid_keycode where "HID_KEYCODE_NUM1 \<equiv> 0x02"
abbreviation HID_KEYCODE_NUM2 :: hid_keycode where "HID_KEYCODE_NUM2 \<equiv> 0x03"
abbreviation HID_KEYCODE_NUM3 :: hid_keycode where "HID_KEYCODE_NUM3 \<equiv> 0x04"
abbreviation HID_KEYCODE_NUM4 :: hid_keycode where "HID_KEYCODE_NUM4 \<equiv> 0x05"
abbreviation HID_KEYCODE_NUM5 :: hid_keycode where "HID_KEYCODE_NUM5 \<equiv> 0x06"
abbreviation HID_KEYCODE_NUM6 :: hid_keycode where "HID_KEYCODE_NUM6 \<equiv> 0x07"
abbreviation HID_KEYCODE_NUM7 :: hid_keycode where "HID_KEYCODE_NUM7 \<equiv> 0x08"
abbreviation HID_KEYCODE_NUM8 :: hid_keycode where "HID_KEYCODE_NUM8 \<equiv> 0x09"
abbreviation HID_KEYCODE_NUM9 :: hid_keycode where "HID_KEYCODE_NUM9 \<equiv> 0x0A"
abbreviation HID_KEYCODE_NUM0 :: hid_keycode where "HID_KEYCODE_NUM0 \<equiv> 0x0B"
abbreviation HID_KEYCODE_MINUS :: hid_keycode where "HID_KEYCODE_MINUS \<equiv> 0x0C"
abbreviation HID_KEYCODE_EQUALS :: hid_keycode where "HID_KEYCODE_EQUALS \<equiv> 0x0D"
abbreviation HID_KEYCODE_CHAR_Q :: hid_keycode where "HID_KEYCODE_CHAR_Q \<equiv> 0x0E"
abbreviation HID_KEYCODE_CHAR_W :: hid_keycode where "HID_KEYCODE_CHAR_W \<equiv> 0x0F"
abbreviation HID_KEYCODE_CHAR_E :: hid_keycode where "HID_KEYCODE_CHAR_E \<equiv> 0x10"
abbreviation HID_KEYCODE_CHAR_R :: hid_keycode where "HID_KEYCODE_CHAR_R \<equiv> 0x11"
abbreviation HID_KEYCODE_CHAR_T :: hid_keycode where "HID_KEYCODE_CHAR_T \<equiv> 0x12"
abbreviation HID_KEYCODE_CHAR_Y :: hid_keycode where "HID_KEYCODE_CHAR_Y \<equiv> 0x13"
abbreviation HID_KEYCODE_CHAR_U :: hid_keycode where "HID_KEYCODE_CHAR_U \<equiv> 0x14"
abbreviation HID_KEYCODE_CHAR_I :: hid_keycode where "HID_KEYCODE_CHAR_I \<equiv> 0x15"
abbreviation HID_KEYCODE_CHAR_O :: hid_keycode where "HID_KEYCODE_CHAR_O \<equiv> 0x16"
abbreviation HID_KEYCODE_CHAR_P :: hid_keycode where "HID_KEYCODE_CHAR_P \<equiv> 0x17"
abbreviation HID_KEYCODE_LBRACKET :: hid_keycode where "HID_KEYCODE_LBRACKET \<equiv> 0x18"
abbreviation HID_KEYCODE_RBRACKET :: hid_keycode where "HID_KEYCODE_RBRACKET \<equiv> 0x19"
abbreviation HID_KEYCODE_BACKSLASH :: hid_keycode where "HID_KEYCODE_BACKSLASH \<equiv> 0x1A"
abbreviation HID_KEYCODE_CHAR_A :: hid_keycode where "HID_KEYCODE_CHAR_A \<equiv> 0x1B"
abbreviation HID_KEYCODE_CHAR_S :: hid_keycode where "HID_KEYCODE_CHAR_S \<equiv> 0x1C"
abbreviation HID_KEYCODE_CHAR_D :: hid_keycode where "HID_KEYCODE_CHAR_D \<equiv> 0x1D"
abbreviation HID_KEYCODE_CHAR_F :: hid_keycode where "HID_KEYCODE_CHAR_F \<equiv> 0x1E"
abbreviation HID_KEYCODE_CHAR_G :: hid_keycode where "HID_KEYCODE_CHAR_G \<equiv> 0x1F"
abbreviation HID_KEYCODE_CHAR_H :: hid_keycode where "HID_KEYCODE_CHAR_H \<equiv> 0x20"
abbreviation HID_KEYCODE_CHAR_J :: hid_keycode where "HID_KEYCODE_CHAR_J \<equiv> 0x21"
abbreviation HID_KEYCODE_CHAR_K :: hid_keycode where "HID_KEYCODE_CHAR_K \<equiv> 0x22"
abbreviation HID_KEYCODE_CHAR_L :: hid_keycode where "HID_KEYCODE_CHAR_L \<equiv> 0x23"
abbreviation HID_KEYCODE_SEMICOLON :: hid_keycode where "HID_KEYCODE_SEMICOLON \<equiv> 0x24"
abbreviation HID_KEYCODE_SINGLEQUOTE :: hid_keycode where "HID_KEYCODE_SINGLEQUOTE \<equiv> 0x25"
abbreviation HID_KEYCODE_CHAR_Z :: hid_keycode where "HID_KEYCODE_CHAR_Z \<equiv> 0x26"
abbreviation HID_KEYCODE_CHAR_X :: hid_keycode where "HID_KEYCODE_CHAR_X \<equiv> 0x27"
abbreviation HID_KEYCODE_CHAR_C :: hid_keycode where "HID_KEYCODE_CHAR_C \<equiv> 0x28"
abbreviation HID_KEYCODE_CHAR_V :: hid_keycode where "HID_KEYCODE_CHAR_V \<equiv> 0x29"
abbreviation HID_KEYCODE_CHAR_B :: hid_keycode where "HID_KEYCODE_CHAR_B \<equiv> 0x2A"
abbreviation HID_KEYCODE_CHAR_N :: hid_keycode where "HID_KEYCODE_CHAR_N \<equiv> 0x2B"
abbreviation HID_KEYCODE_CHAR_M :: hid_keycode where "HID_KEYCODE_CHAR_M \<equiv> 0x2C"
abbreviation HID_KEYCODE_COMMA :: hid_keycode where "HID_KEYCODE_COMMA \<equiv> 0x2D"
abbreviation HID_KEYCODE_PERIOD :: hid_keycode where "HID_KEYCODE_PERIOD \<equiv> 0x2E"
abbreviation HID_KEYCODE_SLASH :: hid_keycode where "HID_KEYCODE_SLASH \<equiv> 0x2F"
abbreviation HID_KEYCODE_SPACE :: hid_keycode where "HID_KEYCODE_SPACE \<equiv> 0x30"
abbreviation HID_KEYCODE_KP_SLASH :: hid_keycode where "HID_KEYCODE_KP_SLASH \<equiv> 0x31"
abbreviation HID_KEYCODE_KP_ASTERISK :: hid_keycode where "HID_KEYCODE_KP_ASTERISK \<equiv> 0x32"
abbreviation HID_KEYCODE_KP_MINUS :: hid_keycode where "HID_KEYCODE_KP_MINUS \<equiv> 0x33"
abbreviation HID_KEYCODE_KP_PLUS :: hid_keycode where "HID_KEYCODE_KP_PLUS \<equiv> 0x33"
abbreviation HID_KEYCODE_KP_7 :: hid_keycode where "HID_KEYCODE_KP_7 \<equiv> 0x34"
abbreviation HID_KEYCODE_KP_8 :: hid_keycode where "HID_KEYCODE_KP_8 \<equiv> 0x35"
abbreviation HID_KEYCODE_KP_9 :: hid_keycode where "HID_KEYCODE_KP_9 \<equiv> 0x36"
abbreviation HID_KEYCODE_KP_4 :: hid_keycode where "HID_KEYCODE_KP_4 \<equiv> 0x37"
abbreviation HID_KEYCODE_KP_5 :: hid_keycode where "HID_KEYCODE_KP_5 \<equiv> 0x38"
abbreviation HID_KEYCODE_KP_6 :: hid_keycode where "HID_KEYCODE_KP_6 \<equiv> 0x39"
abbreviation HID_KEYCODE_KP_1 :: hid_keycode where "HID_KEYCODE_KP_1 \<equiv> 0x3A"
abbreviation HID_KEYCODE_KP_2 :: hid_keycode where "HID_KEYCODE_KP_2 \<equiv> 0x3B"
abbreviation HID_KEYCODE_KP_3 :: hid_keycode where "HID_KEYCODE_KP_3 \<equiv> 0x3C"
abbreviation HID_KEYCODE_KP_0 :: hid_keycode where "HID_KEYCODE_KP_0 \<equiv> 0x3D"
abbreviation HID_KEYCODE_KP_PERIOD :: hid_keycode where "HID_KEYCODE_KP_PERIOD \<equiv> 0x3E"
abbreviation HID_KEYCODE_KP_ENTER :: hid_keycode where "HID_KEYCODE_KP_ENTER \<equiv> 0x3F"
abbreviation HID_KEYCODE_ENTER :: hid_keycode where "HID_KEYCODE_ENTER \<equiv> 0x40"
abbreviation HID_KEYCODE_TAB :: hid_keycode where "HID_KEYCODE_TAB \<equiv> 0x41"
abbreviation HID_KEYCODE_BACKSPACE :: hid_keycode where "HID_KEYCODE_BACKSPACE \<equiv> 0x42"
abbreviation HID_KEYCODE_ESCAPE :: hid_keycode where "HID_KEYCODE_ESCAPE \<equiv> 0x43"
abbreviation HID_KEYCODE_MEDIA_MYPC :: hid_keycode where "HID_KEYCODE_MEDIA_MYPC \<equiv> 0x44"
abbreviation HID_KEYCODE_LEFT_SHIFT :: hid_keycode where "HID_KEYCODE_LEFT_SHIFT \<equiv> 0x45"
abbreviation HID_KEYCODE_RIGHT_SHIFT :: hid_keycode where "HID_KEYCODE_RIGHT_SHIFT \<equiv> 0x46"
abbreviation HID_KEYCODE_LEFT_CTRL :: hid_keycode where "HID_KEYCODE_LEFT_CTRL \<equiv> 0x47"
abbreviation HID_KEYCODE_RIGHT_CTRL :: hid_keycode where "HID_KEYCODE_RIGHT_CTRL \<equiv> 0x48"
abbreviation HID_KEYCODE_LEFT_ALT :: hid_keycode where "HID_KEYCODE_LEFT_ALT \<equiv> 0x49"
abbreviation HID_KEYCODE_RIGHT_ALT :: hid_keycode where "HID_KEYCODE_RIGHT_ALT \<equiv> 0x4A"
abbreviation HID_KEYCODE_CAPSLOCK :: hid_keycode where "HID_KEYCODE_CAPSLOCK \<equiv> 0x4B"
abbreviation HID_KEYCODE_SCROLLLOCK :: hid_keycode where "HID_KEYCODE_SCROLLLOCK \<equiv> 0x4C"
abbreviation HID_KEYCODE_NUMLOCK :: hid_keycode where "HID_KEYCODE_NUMLOCK \<equiv> 0x4D"
abbreviation HID_KEYCODE_INSERT :: hid_keycode where "HID_KEYCODE_INSERT \<equiv> 0x4E"
abbreviation HID_KEYCODE_HOME :: hid_keycode where "HID_KEYCODE_HOME \<equiv> 0x4F"
abbreviation HID_KEYCODE_PAGEUP :: hid_keycode where "HID_KEYCODE_PAGEUP \<equiv> 0x50"
abbreviation HID_KEYCODE_DELETE :: hid_keycode where "HID_KEYCODE_DELETE \<equiv> 0x51"
abbreviation HID_KEYCODE_END :: hid_keycode where "HID_KEYCODE_END \<equiv> 0x52"
abbreviation HID_KEYCODE_PAGEDOWN :: hid_keycode where "HID_KEYCODE_PAGEDOWN \<equiv> 0x53"
abbreviation HID_KEYCODE_UP :: hid_keycode where "HID_KEYCODE_UP \<equiv> 0x54"
abbreviation HID_KEYCODE_LEFT :: hid_keycode where "HID_KEYCODE_LEFT \<equiv> 0x55"
abbreviation HID_KEYCODE_DOWN :: hid_keycode where "HID_KEYCODE_DOWN \<equiv> 0x56"
abbreviation HID_KEYCODE_RIGHT :: hid_keycode where "HID_KEYCODE_RIGHT \<equiv> 0x57"
abbreviation HID_KEYCODE_F1 :: hid_keycode where "HID_KEYCODE_F1 \<equiv> 0x58"
abbreviation HID_KEYCODE_F2 :: hid_keycode where "HID_KEYCODE_F2 \<equiv> 0x59"
abbreviation HID_KEYCODE_F3 :: hid_keycode where "HID_KEYCODE_F3 \<equiv> 0x5A"
abbreviation HID_KEYCODE_F4 :: hid_keycode where "HID_KEYCODE_F4 \<equiv> 0x5B"
abbreviation HID_KEYCODE_F5 :: hid_keycode where "HID_KEYCODE_F5 \<equiv> 0x5C"
abbreviation HID_KEYCODE_F6 :: hid_keycode where "HID_KEYCODE_F6 \<equiv> 0x5D"
abbreviation HID_KEYCODE_F7 :: hid_keycode where "HID_KEYCODE_F7 \<equiv> 0x5E"
abbreviation HID_KEYCODE_F8 :: hid_keycode where "HID_KEYCODE_F8 \<equiv> 0x5F"
abbreviation HID_KEYCODE_F9 :: hid_keycode where "HID_KEYCODE_F9 \<equiv> 0x60"
abbreviation HID_KEYCODE_F10 :: hid_keycode where "HID_KEYCODE_F10 \<equiv> 0x61"
abbreviation HID_KEYCODE_F11 :: hid_keycode where "HID_KEYCODE_F11 \<equiv> 0x62"
abbreviation HID_KEYCODE_F12 :: hid_keycode where "HID_KEYCODE_F12 \<equiv> 0x63"
abbreviation HID_KEYCODE_PRINTSCREEN :: hid_keycode where "HID_KEYCODE_PRINTSCREEN \<equiv> 0x64"
abbreviation HID_KEYCODE_PAUSE :: hid_keycode where "HID_KEYCODE_PAUSE \<equiv> 0x65"
abbreviation HID_KEYCODE_SUPER :: hid_keycode where "HID_KEYCODE_SUPER \<equiv> 0x66"
abbreviation HID_KEYCODE_MENU :: hid_keycode where "HID_KEYCODE_MENU \<equiv> 0x67"
abbreviation HID_KEYCODE_MEDIA_WWW :: hid_keycode where "HID_KEYCODE_MEDIA_WWW \<equiv> 0x68"
abbreviation HID_KEYCODE_TRACK_PREV :: hid_keycode where "HID_KEYCODE_TRACK_PREV \<equiv> 0x69"
abbreviation HID_KEYCODE_TRACK_NEXT :: hid_keycode where "HID_KEYCODE_TRACK_NEXT \<equiv> 0x6A"
abbreviation HID_KEYCODE_MEDIA_FAVS :: hid_keycode where "HID_KEYCODE_MEDIA_FAVS \<equiv> 0x6B"
abbreviation HID_KEYCODE_VOLUME_DOWN :: hid_keycode where "HID_KEYCODE_VOLUME_DOWN \<equiv> 0x6C"
abbreviation HID_KEYCODE_VOLUME_UP :: hid_keycode where "HID_KEYCODE_VOLUME_UP \<equiv> 0x6D"
abbreviation HID_KEYCODE_MEDIA_MUTE :: hid_keycode where "HID_KEYCODE_MEDIA_MUTE \<equiv> 0x6E"
abbreviation HID_KEYCODE_MEDIA_PLAYPAUSE :: hid_keycode where "HID_KEYCODE_MEDIA_PLAYPAUSE \<equiv> 0x6F"
abbreviation HID_KEYCODE_MEDIA_STOP :: hid_keycode where "HID_KEYCODE_MEDIA_STOP \<equiv> 0x70"
abbreviation HID_KEYCODE_WWW_FORWARD :: hid_keycode where "HID_KEYCODE_WWW_FORWARD \<equiv> 0x71"
abbreviation HID_KEYCODE_WWW_BACK :: hid_keycode where "HID_KEYCODE_WWW_BACK \<equiv> 0x72"
abbreviation HID_KEYCODE_WWW_HOME :: hid_keycode where "HID_KEYCODE_WWW_HOME \<equiv> 0x73"
abbreviation HID_KEYCODE_WWW_STOP :: hid_keycode where "HID_KEYCODE_WWW_STOP \<equiv> 0x74"
abbreviation HID_KEYCODE_WWW_REFRESH :: hid_keycode where "HID_KEYCODE_WWW_REFRESH \<equiv> 0x75"
abbreviation HID_KEYCODE_MEDIA_CALC :: hid_keycode where "HID_KEYCODE_MEDIA_CALC \<equiv> 0x76"
abbreviation HID_KEYCODE_MEDIA_MAIL :: hid_keycode where "HID_KEYCODE_MEDIA_MAIL \<equiv> 0x77"
abbreviation HID_KEYCODE_MEDIA_SELECT :: hid_keycode where "HID_KEYCODE_MEDIA_SELECT \<equiv> 0x78"
abbreviation HID_KEYCODE_MEDIA_APPS :: hid_keycode where "HID_KEYCODE_MEDIA_APPS \<equiv> 0x79"
abbreviation HID_KEYCODE_MEDIA_SEARCH :: hid_keycode where "HID_KEYCODE_MEDIA_SEARCH \<equiv> 0x7A"
abbreviation HID_KEYCODE_ACPI_POWER :: hid_keycode where "HID_KEYCODE_ACPI_POWER \<equiv> 0x7B"
abbreviation HID_KEYCODE_ACPI_SLEEP :: hid_keycode where "HID_KEYCODE_ACPI_SLEEP \<equiv> 0x7C"
abbreviation HID_KEYCODE_ACPI_WAKE :: hid_keycode where "HID_KEYCODE_ACPI_WAKE \<equiv> 0x7D"
abbreviation HID_KEYCODE_RESERVED_LOW :: hid_keycode where "HID_KEYCODE_RESERVED_LOW \<equiv> 0x7E"
abbreviation HID_KEYCODE_RESERVED_HIGH :: hid_keycode where "HID_KEYCODE_RESERVED_HIGH \<equiv> 0x7F"

text \<open>The enumerators in the order of the header.\<close>

definition HID_KERNEL_KEYCODE :: "hid_keycode list" where
  "HID_KERNEL_KEYCODE = [
     HID_KEYCODE_NULL,
     HID_KEYCODE_BACKTICK,
     HID_KEYCODE_NUM1,
     HID_KEYCODE_NUM2,
     HID_KEYCODE_NUM3,
     HID_KEYCODE_NUM4,
     HID_KEYCODE_NUM5,
     HID_KEYCODE_NUM6,
     HID_KEYCODE_NUM7,
     HID_KEYCODE_NUM8,
     HID_KEYCODE_NUM9,
     HID_KEYCODE_NUM0,
     HID_KEYCODE_MINUS,
     HID_KEYCODE_EQUALS,
     HID_KEYCODE_CHAR_Q,
     HID_KEYCODE_CHAR_W,
     HID_KEYCODE_CHAR_E,
     HID_KEYCODE_CHAR_R,
     HID_KEYCODE_CHAR_T,
     HID_KEYCODE_CHAR_Y,
     HID_KEYCODE_CHAR_U,
     HID_KEYCODE_CHAR_I,
     HID_KEYCODE_CHAR_O,
     HID_KEYCODE_CHAR_P,
     HID_KEYCODE_LBRACKET,
     HID_KEYCODE_RBRACKET,
     HID_KEYCODE_BACKSLASH,
     HID_KEYCODE_CHAR_A,
     HID_KEYCODE_CHAR_S,
     HID_KEYCODE_CHAR_D,
     HID_KEYCODE_CHAR_F,
     HID_KEYCODE_CHAR_G,
     HID_KEYCODE_CHAR_H,
     HID_KEYCODE_CHAR_J,
     HID_KEYCODE_CHAR_K,
     HID_KEYCODE_CHAR_L,
     HID_KEYCODE_SEMICOLON,
     HID_KEYCODE_SINGLEQUOTE,
     HID_KEYCODE_CHAR_Z,
     HID_KEYCODE_CHAR_X,
     HID_KEYCODE_CHAR_C,
     HID_KEYCODE_CHAR_V,
     HID_KEYCODE_CHAR_B,
     HID_KEYCODE_CHAR_N,
     HID_KEYCODE_CHAR_M,
     HID_KEYCODE_COMMA,
     HID_KEYCODE_PERIOD,
     HID_KEYCODE_SLASH,
     HID_KEYCODE_SPACE,
     HID_KEYCODE_KP_SLASH,
     HID_KEYCODE_KP_ASTERISK,
     HID_KEYCODE_KP_MINUS,
     HID_KEYCODE_KP_PLUS,
     HID_KEYCODE_KP_7,
     HID_KEYCODE_KP_8,
     HID_KEYCODE_KP_9,
     HID_KEYCODE_KP_4,
     HID_KEYCODE_KP_5,
     HID_KEYCODE_KP_6,
     HID_KEYCODE_KP_1,
     HID_KEYCODE_KP_2,
     HID_KEYCODE_KP_3,
     HID_KEYCODE_KP_0,
     HID_KEYCODE_KP_PERIOD,
     HID_KEYCODE_KP_ENTER,
     HID_KEYCODE_ENTER,
     HID_KEYCODE_TAB,
     HID_KEYCODE_BACKSPACE,
     HID_KEYCODE_ESCAPE,
     HID_KEYCODE_MEDIA_MYPC,
     HID_KEYCODE_LEFT_SHIFT,
     HID_KEYCODE_RIGHT_SHIFT,
     HID_KEYCODE_LEFT_CTRL,
     HID_KEYCODE_RIGHT_CTRL,
     HID_KEYCODE_LEFT_ALT,
     HID_KEYCODE_RIGHT_ALT,
     HID_KEYCODE_CAPSLOCK,
     HID_KEYCODE_SCROLLLOCK,
     HID_KEYCODE_NUMLOCK,
     HID_KEYCODE_INSERT,
     HID_KEYCODE_HOME,
     HID_KEYCODE_PAGEUP,
     HID_KEYCODE_DELETE,
     HID_KEYCODE_END,
     HID_KEYCODE_PAGEDOWN,
     HID_KEYCODE_UP,
     HID_KEYCODE_LEFT,
     HID_KEYCODE_DOWN,
     HID_KEYCODE_RIGHT,
     HID_KEYCODE_F1,
     HID_KEYCODE_F2,
     HID_KEYCODE_F3,
     HID_KEYCODE_F4,
     HID_KEYCODE_F5,
     HID_KEYCODE_F6,
     HID_KEYCODE_F7,
     HID_KEYCODE_F8,
     HID_KEYCODE_F9,
     HID_KEYCODE_F10,
     HID_KEYCODE_F11,
     HID_KEYCODE_F12,
     HID_KEYCODE_PRINTSCREEN,
     HID_KEYCODE_PAUSE,
     HID_KEYCODE_SUPER,
     HID_KEYCODE_MENU,
     HID_KEYCODE_MEDIA_WWW,
     HID_KEYCODE_TRACK_PREV,
     HID_KEYCODE_TRACK_NEXT,
     HID_KEYCODE_MEDIA_FAVS,
     HID_KEYCODE_VOLUME_DOWN,
     HID_KEYCODE_VOLUME_UP,
     HID_KEYCODE_MEDIA_MUTE,
     HID_KEYCODE_MEDIA_PLAYPAUSE,
     HID_KEYCODE_MEDIA_STOP,
     HID_KEYCODE_WWW_FORWARD,
     HID_KEYCODE_WWW_BACK,
     HID_KEYCODE_WWW_HOME,
     HID_KEYCODE_WWW_STOP,
     HID_KEYCODE_WWW_REFRESH,
     HID_KEYCODE_MEDIA_CALC,
     HID_KEYCODE_MEDIA_MAIL,
     HID_KEYCODE_MEDIA_SELECT,
     HID_KEYCODE_MEDIA_APPS,
     HID_KEYCODE_MEDIA_SEARCH,
     HID_KEYCODE_ACPI_POWER,
     HID_KEYCODE_ACPI_SLEEP,
     HID_KEYCODE_ACPI_WAKE,
     HID_KEYCODE_RESERVED_LOW,
     HID_KEYCODE_RESERVED_HIGH]"

section \<open>Scan codes\<close>

text \<open>Keys pressed.\<close>

definition ps2_make_codes :: "(u64 \<times> hid_keycode) list" where
  "ps2_make_codes = [
     (0x01, HID_KEYCODE_F9),
     (0x03, HID_KEYCODE_F5),
     (0x04, HID_KEYCODE_F3),
     (0x05, HID_KEYCODE_F1),
     (0x06, HID_KEYCODE_F2),
     (0x07, HID_KEYCODE_F12),
     (0x09, HID_KEYCODE_F10),
     (0x0A, HID_KEYCODE_F8),
     (0x0B, HID_KEYCODE_F6),
     (0x0C, HID_KEYCODE_F4),
     (0x0D, HID_KEYCODE_TAB),
     (0x0E, HID_KEYCODE_BACKTICK),
     (0x11, HID_KEYCODE_LEFT_ALT),
     (0x12, HID_KEYCODE_LEFT_SHIFT),
     (0x14, HID_KEYCODE_LEFT_CTRL),
     (0x15, HID_KEYCODE_CHAR_Q),
     (0x16, HID_KEYCODE_NUM1),
     (0x1A, HID_KEYCODE_CHAR_Z),
     (0x1B, HID_KEYCODE_CHAR_S),
     (0x1C, HID_KEYCODE_CHAR_A),
     (0x1D, HID_KEYCODE_CHAR_W),
     (0x1E, HID_KEYCODE_NUM2),
     (0x21, HID_KEYCODE_CHAR_C),
     (0x22, HID_KEYCODE_CHAR_X),
     (0x23, HID_KEYCODE_CHAR_D),
     (0x24, HID_KEYCODE_CHAR_E),
     (0x25, HID_KEYCODE_NUM4),
     (0x26, HID_KEYCODE_NUM3),
     (0x29, HID_KEYCODE_SPACE),
     (0x2A, HID_KEYCODE_CHAR_V),
     (0x2B, HID_KEYCODE_CHAR_F),
     (0x2C, HID_KEYCODE_CHAR_T),
     (0x2D, HID_KEYCODE_CHAR_R),
     (0x2E, HID_KEYCODE_NUM5),
     (0x31, HID_KEYCODE_CHAR_N),
     (0x32, HID_KEYCODE_CHAR_B),
     (0x33, HID_KEYCODE_CHAR_H),
     (0x34, HID_KEYCODE_CHAR_G),
     (0x35, HID_KEYCODE_CHAR_Y),
     (0x36, HID_KEYCODE_NUM6),
     (0x3A, HID_KEYCODE_CHAR_M),
     (0x3B, HID_KEYCODE_CHAR_J),
     (0x3C, HID_KEYCODE_CHAR_U),
     (0x3D, HID_KEYCODE_NUM7),
     (0x3E, HID_KEYCODE_NUM8),
     (0x41, HID_KEYCODE_COMMA),
     (0x42, HID_KEYCODE_CHAR_K),
     (0x43, HID_KEYCODE_CHAR_I),
     (0x44, HID_KEYCODE_CHAR_O),
     (0x45, HID_KEYCODE_NUM0),
     (0x46, HID_KEYCODE_NUM9),
     (0x49, HID_KEYCODE_PERIOD),
     (0x4A, HID_KEYCODE_SLASH),
     (0x4B, HID_KEYCODE_CHAR_L),
     (0x4C, HID_KEYCODE_SEMICOLON),
     (0x4D, HID_KEYCODE_CHAR_P),
     (0x4E, HID_KEYCODE_MINUS),
     (0x52, HID_KEYCODE_SINGLEQUOTE),
     (0x54, HID_KEYCODE_LBRACKET),
     (0x55, HID_KEYCODE_EQUALS),
     (0x58, HID_KEYCODE_CAPSLOCK),
     (0x59, HID_KEYCODE_RIGHT_SHIFT),
     (0x5A, HID_KEYCODE_ENTER),
     (0x5B, HID_KEYCODE_RBRACKET),
     (0x5D, HID_KEYCODE_BACKSLASH),
     (0x66, HID_KEYCODE_BACKSPACE),
     (0x69, HID_KEYCODE_KP_1),
     (0x6B, HID_KEYCODE_KP_4),
     (0x6C, HID_KEYCODE_KP_7),
     (0x70, HID_KEYCODE_KP_0),
     (0x71, HID_KEYCODE_KP_PERIOD),
     (0x72, HID_KEYCODE_KP_2),
     (0x73, HID_KEYCODE_KP_5),
     (0x74, HID_KEYCODE_KP_6),
     (0x75, HID_KEYCODE_KP_8),
     (0x76, HID_KEYCODE_ESCAPE),
     (0x77, HID_KEYCODE_NUMLOCK),
     (0x78, HID_KEYCODE_F11),
     (0x79, HID_KEYCODE_KP_PLUS),
     (0x7A, HID_KEYCODE_KP_3),
     (0x7B, HID_KEYCODE_KP_MINUS),
     (0x7C, HID_KEYCODE_KP_ASTERISK),
     (0x7D, HID_KEYCODE_KP_9),
     (0x7E, HID_KEYCODE_SCROLLLOCK),
     (0x83, HID_KEYCODE_F7)]"

text \<open>Extended keys pressed.\<close>

definition ps2_extended_make_codes :: "(u64 \<times> hid_keycode) list" where
  "ps2_extended_make_codes = [
     (0xE010, HID_KEYCODE_MEDIA_SEARCH),
     (0xE011, HID_KEYCODE_RIGHT_ALT),
     (0xE014, HID_KEYCODE_RIGHT_CTRL),
     (0xE015, HID_KEYCODE_TRACK_PREV),
     (0xE018, HID_KEYCODE_MEDIA_FAVS),
     (0xE01F, HID_KEYCODE_SUPER),
     (0xE020, HID_KEYCODE_WWW_REFRESH),
     (0xE021, HID_KEYCODE_VOLUME_DOWN),
     (0xE023, HID_KEYCODE_MEDIA_MUTE),
     (0xE027, HID_KEYCODE_SUPER),
     (0xE028, HID_KEYCODE_WWW_STOP),
     (0xE02B, HID_KEYCODE_MEDIA_CALC),
     (0xE02F, HID_KEYCODE_MEDIA_APPS),
     (0xE030, HID_KEYCODE_WWW_FORWARD),
     (0xE032, HID_KEYCODE_VOLUME_UP),
     (0xE034, HID_KEYCODE_MEDIA_PLAYPAUSE),
     (0xE037, HID_KEYCODE_ACPI_POWER),
     (0xE038, HID_KEYCODE_WWW_BACK),
     (0xE03A, HID_KEYCODE_WWW_HOME),
     (0xE03B, HID_KEYCODE_MEDIA_STOP),
     (0xE03F, HID_KEYCODE_ACPI_SLEEP),
     (0xE040, HID_KEYCODE_MEDIA_MYPC),
     (0xE048, HID_KEYCODE_MEDIA_MAIL),
     (0xE04A, HID_KEYCODE_KP_SLASH),
     (0xE04D, HID_KEYCODE_TRACK_NEXT),
     (0xE050, HID_KEYCODE_MEDIA_SELECT),
     (0xE05A, HID_KEYCODE_KP_ENTER),
     (0xE05E, HID_KEYCODE_ACPI_WAKE),
     (0xE069, HID_KEYCODE_END),
     (0xE06B, HID_KEYCODE_LEFT),
     (0xE06C, HID_KEYCODE_HOME),
     (0xE070, HID_KEYCODE_INSERT),
     (0xE071, HID_KEYCODE_DELETE),
     (0xE072, HID_KEYCODE_DOWN),
     (0xE074, HID_KEYCODE_RIGHT),
     (0xE075, HID_KEYCODE_UP),
     (0xE07A, HID_KEYCODE_PAGEDOWN),
     (0xE07D, HID_KEYCODE_PAGEUP)]"

text \<open>Keys released.\<close>

definition ps2_break_codes :: "(u64 \<times> hid_keycode) list" where
  "ps2_break_codes = [
     (0xF001, 0x80 OR HID_KEYCODE_F9),
     (0xF003, 0x80 OR HID_KEYCODE_F5),
     (0xF004, 0x80 OR HID_KEYCODE_F3),
     (0xF005, 0x80 OR HID_KEYCODE_F1),
     (0xF006, 0x80 OR HID_KEYCODE_F2),
     (0xF007, 0x80 OR HID_KEYCODE_F12),
     (0xF009, 0x80 OR HID_KEYCODE_F10),
     (0xF00A, 0x80 OR HID_KEYCODE_F8),
     (0xF00B, 0x80 OR HID_KEYCODE_F6),
     (0xF00C, 0x80 OR HID_KEYCODE_F4),
     (0xF00D, 0x80 OR HID_KEYCODE_TAB),
     (0xF00E, 0x80 OR HID_KEYCODE_BACKTICK),
     (0xF011, 0x80 OR HID_KEYCODE_LEFT_ALT),
     (0xF012, 0x80 OR HID_KEYCODE_LEFT_SHIFT),
     (0xF014, 0x80 OR HID_KEYCODE_LEFT_CTRL),
     (0xF015, 0x80 OR HID_KEYCODE_CHAR_Q),
     (0xF016, 0x80 OR HID_KEYCODE_NUM1),
     (0xF01A, 0x80 OR HID_KEYCODE_CHAR_Z),
     (0xF01B, 0x80 OR HID_KEYCODE_CHAR_S),
     (0xF01C, 0x80 OR HID_KEYCODE_CHAR_A),
     (0xF01D, 0x80 OR HID_KEYCODE_CHAR_W),
     (0xF01E, 0x80 OR HID_KEYCODE_NUM2),
     (0xF021, 0x80 OR HID_KEYCODE_CHAR_C),
     (0xF022, 0x80 OR HID_KEYCODE_CHAR_X),
     (0xF023, 0x80 OR HID_KEYCODE_CHAR_D),
     (0xF024, 0x80 OR HID_KEYCODE_CHAR_E),
     (0xF025, 0x80 OR HID_KEYCODE_NUM4),
     (0xF026, 0x80 OR HID_KEYCODE_NUM3),
     (0xF029, 0x80 OR HID_KEYCODE_SPACE),
     (0xF02A, 0x80 OR HID_KEYCODE_CHAR_V),
     (0xF02B, 0x80 OR HID_KEYCODE_CHAR_F),
     (0xF02C, 0x80 OR HID_KEYCODE_CHAR_T),
     (0xF02D, 0x80 OR HID_KEYCODE_CHAR_R),
     (0xF02E, 0x80 OR HID_KEYCODE_NUM5),
     (0xF031, 0x80 OR HID_KEYCODE_CHAR_N),
     (0xF032, 0x80 OR HID_KEYCODE_CHAR_B),
     (0xF033, 0x80 OR HID_KEYCODE_CHAR_H),
     (0xF034, 0x80 OR HID_KEYCODE_CHAR_G),
     (0xF035, 0x80 OR HID_KEYCODE_CHAR_Y),
     (0xF036, 0x80 OR HID_KEYCODE_NUM6),
     (0xF03A, 0x80 OR HID_KEYCODE_CHAR_M),
     (0xF03B, 0x80 OR HID_KEYCODE_CHAR_J),
     (0xF03C, 0x80 OR HID_KEYCODE_CHAR_U),
     (0xF03D, 0x80 OR HID_KEYCODE_NUM7),
     (0xF03E, 0x80 OR HID_KEYCODE_NUM8),
     (0xF041, 0x80 OR HID_KEYCODE_COMMA),
     (0xF042, 0x80 OR HID_KEYCODE_CHAR_K),
     (0xF043, 0x80 OR HID_KEYCODE_CHAR_I),
     (0xF044, 0x80 OR HID_KEYCODE_CHAR_O),
     (0xF045, 0x80 OR HID_KEYCODE_NUM0),
     (0xF046, 0x80 OR HID_KEYCODE_NUM9),
     (0xF049, 0x80 OR HID_KEYCODE_PERIOD),
     (0xF04A, 0x80 OR HID_KEYCODE_SLASH),
     (0xF04B, 0x80 OR HID_KEYCODE_CHAR_L),
     (0xF04C, 0x80 OR HID_KEYCODE_SEMICOLON),
     (0xF04D, 0x80 OR HID_KEYCODE_CHAR_P),
     (0xF04E, 0x80 OR HID_KEYCODE_MINUS),
     (0xF052, 0x80 OR HID_KEYCODE_SINGLEQUOTE),
     (0xF054, 0x80 OR HID_KEYCODE_LBRACKET),
     (0xF055, 0x80 OR HID_KEYCODE_EQUALS),
     (0xF058, 0x80 OR HID_KEYCODE_CAPSLOCK),
     (0xF059, 0x80 OR HID_KEYCODE_RIGHT_SHIFT),
     (0xF05A, 0x80 OR HID_KEYCODE_ENTER),
     (0xF05B, 0x80 OR HID_KEYCODE_RBRACKET),
     (0xF05D, 0x80 OR HID_KEYCODE_BACKSLASH),
     (0xF066, 0x80 OR HID_KEYCODE_BACKSPACE),
     (0xF069, 0x80 OR HID_KEYCODE_KP_1),
     (0xF06B, 0x80 OR HID_KEYCODE_KP_4),
     (0xF06C, 0x80 OR HID_KEYCODE_KP_7),
     (0xF070, 0x80 OR HID_KEYCODE_KP_0),
     (0xF071, 0x80 OR HID_KEYCODE_KP_PERIOD),
     (0xF072, 0x80 OR HID_KEYCODE_KP_2),
     (0xF073, 0x80 OR HID_KEYCODE_KP_5),
     (0xF074, 0x80 OR HID_KEYCODE_KP_6),
     (0xF075, 0x80 OR HID_KEYCODE_KP_8),
     (0xF076, 0x80 OR HID_KEYCODE_ESCAPE),
     (0xF077, 0x80 OR HID_KEYCODE_NUMLOCK),
     (0xF078, 0x80 OR HID_KEYCODE_F11),
     (0xF079, 0x80 OR HID_KEYCODE_KP_PLUS),
     (0xF07A, 0x80 OR HID_KEYCODE_KP_3),
     (0xF07B, 0x80 OR HID_KEYCODE_KP_MINUS),
     (0xF07C, 0x80 OR HID_KEYCODE_KP_ASTERISK),
     (0xF07D, 0x80 OR HID_KEYCODE_KP_9),
     (0xF07E, 0x80 OR HID_KEYCODE_SCROLLLOCK),
     (0xF083, 0x80 OR HID_KEYCODE_F7)]"

text \<open>Extended keys released.\<close>

definition ps2_extended_break_codes :: "(u64 \<times> hid_keycode) list" where
  "ps2_extended_break_codes = [
     (0xE0F010, 0x80 OR HID_KEYCODE_MEDIA_SEARCH),
     (0xE0F011, 0x80 OR HID_KEYCODE_RIGHT_ALT),
     (0xE0F014, 0x80 OR HID_KEYCODE_RIGHT_CTRL),
     (0xE0F015, 0x80 OR HID_KEYCODE_TRACK_PREV),
     (0xE0F018, 0x80 OR HID_KEYCODE_MEDIA_FAVS),
     (0xE0F01F, 0x80 OR HID_KEYCODE_SUPER),
     (0xE0F020, 0x80 OR HID_KEYCODE_WWW_REFRESH),
     (0xE0F021, 0x80 OR HID_KEYCODE_VOLUME_DOWN),
     (0xE0F023, 0x80 OR HID_KEYCODE_MEDIA_MUTE),
     (0xE0F027, 0x80 OR HID_KEYCODE_SUPER),
     (0xE0F028, 0x80 OR HID_KEYCODE_WWW_STOP),
     (0xE0F02B, 0x80 OR HID_KEYCODE_MEDIA_CALC),
     (0xE0F02F, 0x80 OR HID_KEYCODE_MEDIA_APPS),
     (0xE0F030, 0x80 OR HID_KEYCODE_WWW_FORWARD),
     (0xE0F032, 0x80 OR HID_KEYCODE_VOLUME_UP),
     (0xE0F034, 0x80 OR HID_KEYCODE_MEDIA_PLAYPAUSE),
     (0xE0F037, 0x80 OR HID_KEYCODE_ACPI_POWER),
     (0xE0F038, 0x80 OR HID_KEYCODE_WWW_BACK),
     (0xE0F03A, 0x80 OR HID_KEYCODE_WWW_HOME),
     (0xE0F03B, 0x80 OR HID_KEYCODE_MEDIA_STOP),
     (0xE0F03F, 0x80 OR HID_KEYCODE_ACPI_SLEEP),
     (0xE0F040, 0x80 OR HID_KEYCODE_MEDIA_MYPC),
     (0xE0F048, 0x80 OR HID_KEYCODE_MEDIA_MAIL),
     (0xE0F04A, 0x80 OR HID_KEYCODE_KP_SLASH),
     (0xE0F04D, 0x80 OR HID_KEYCODE_TRACK_NEXT),
     (0xE0F050, 0x80 OR HID_KEYCODE_MEDIA_SELECT),
     (0xE0F05A, 0x80 OR HID_KEYCODE_KP_ENTER),
     (0xE0F05E, 0x80 OR HID_KEYCODE_ACPI_WAKE),
     (0xE0F069, 0x80 OR HID_KEYCODE_END),
     (0xE0F06B, 0x80 OR HID_KEYCODE_LEFT),
     (0xE0F06C, 0x80 OR HID_KEYCODE_HOME),
     (0xE0F070, 0x80 OR HID_KEYCODE_INSERT),
     (0xE0F071, 0x80 OR HID_KEYCODE_DELETE),
     (0xE0F072, 0x80 OR HID_KEYCODE_DOWN),
     (0xE0F074, 0x80 OR HID_KEYCODE_RIGHT),
     (0xE0F075, 0x80 OR HID_KEYCODE_UP),
     (0xE0F07A, 0x80 OR HID_KEYCODE_PAGEDOWN),
     (0xE0F07D, 0x80 OR HID_KEYCODE_PAGEUP)]"

text \<open>Print screen and pause; pause has no release code.\<close>

definition ps2_long_codes :: "(u64 \<times> hid_keycode) list" where
  "ps2_long_codes = [
     (0xE012E07C, HID_KEYCODE_PRINTSCREEN),
     (0xE0F07CE0F012, 0x80 OR HID_KEYCODE_PRINTSCREEN),
     (0xE11477E1F014F077, HID_KEYCODE_PAUSE)]"

definition ps2_codes :: "(u64 \<times> hid_keycode) list" where
  "ps2_codes = ps2_make_codes @ ps2_extended_make_codes @ ps2_break_codes @
     ps2_extended_break_codes @ ps2_long_codes"

definition ps2_translate_keycode :: "u64 \<Rightarrow> hid_keycode" where
  "ps2_translate_keycode rendered_scancode =
     (case map_of ps2_codes rendered_scancode of
        None \<Rightarrow> HID_KEYCODE_NULL
      | Some keycode \<Rightarrow> keycode)"

end
