(* ===== verification/Acpi.thy ===== *)
theory Acpi
  imports Cstring Paging
begin

text \<open>
  Finding firmware tables: \<open>kernel/src/iodev/acpi/tables/tables.c\<close> with the packed structures of
  \<open>tables.h\<close>. The tables are read-only bytes of memory; \<open>None\<close> is a walk that never ends.
\<close>

section \<open>Little-endian fields\<close>

definition read_u16 :: "mem \<Rightarrow> u64 \<Rightarrow> u16" where
  "read_u16 m p = ucast (m p) OR push_bit 8 (ucast (m (p + 1)))"

definition read_u32 :: "mem \<Rightarrow> u64 \<Rightarrow> u32" where
  "read_u32 m p = ucast (read_u16 m p) OR push_bit 16 (ucast (read_u16 m (p + 2)))"

definition read_u64 :: "mem \<Rightarrow> u64 \<Rightarrow> u64" where
  "read_u64 m p = ucast (read_u32 m p) OR push_bit 32 (ucast (read_u32 m (p + 4)))"

lemma read_u32_cong: "(\<And>i. i < 4 \<Longrightarrow> m' (p + of_nat i) = m (p + of_nat i)) \<Longrightarrow> read_u32 m' p = read_u32 m p"
proof -
  assume a: "\<And>i. i < 4 \<Longrightarrow> m' (p + of_nat i) = m (p + of_nat i)"
  have "m' p = m p" "m' (p + 1) = m (p + 1)" "m' (p + 2) = m (p + 2)" "m' (p + 2 + 1) = m (p + 2 + 1)"
    using a [of 0] a [of 1] a [of 2] a [of 3] by (simp_all add: add.assoc)
  then show ?thesis by (simp add: read_u32_def read_u16_def)
qed

section \<open>The structures\<close>

abbreviation sizeof_sdt_header :: u64 where "sizeof_sdt_header \<equiv> 36"

definition sdt_length :: "mem \<Rightarrow> u64 \<Rightarrow> u32" where
  "sdt_length m header = read_u32 m (header + 4)"

definition rsdp_rsdt :: "mem \<Rightarrow> u64 \<Rightarrow> u32" where
  "rsdp_rsdt m rsdp = read_u32 m (rsdp + 16)"

definition rsdp_xsdt :: "mem \<Rightarrow> u64 \<Rightarrow> u64" where
  "rsdp_xsdt m rsdp = read_u64 m (rsdp + 24)"

section \<open>The root tables\<close>

text \<open>Both functions divide by \<open>sizeof(uintptr_t)\<close>, the 32-bit table included.\<close>

definition acpi_rsdt_get :: "mem \<Rightarrow> u64 \<Rightarrow> u16 \<Rightarrow> u64" where
  "acpi_rsdt_get m rsdp index =
     (let rsdt_header = ucast (rsdp_rsdt m rsdp) + PAGING_VIRTUAL_OFFSET;
          rsdt_entries = (ucast (sdt_length m rsdt_header) - sizeof_sdt_header) div 8
      in if ucast index \<ge> rsdt_entries then 0
         else let rsdt = ucast (rsdp_rsdt m rsdp) + sizeof_sdt_header + PAGING_VIRTUAL_OFFSET
              in ucast (read_u32 m (rsdt + 4 * ucast index)) + PAGING_VIRTUAL_OFFSET)"

definition acpi_xsdt_get :: "mem \<Rightarrow> u64 \<Rightarrow> u16 \<Rightarrow> u64" where
  "acpi_xsdt_get m rsdp index =
     (let xsdt_header = rsdp_xsdt m rsdp + PAGING_VIRTUAL_OFFSET;
          xsdt_entries = (ucast (sdt_length m xsdt_header) - sizeof_sdt_header) div 8
      in if ucast index \<ge> xsdt_entries then 0
         else let xsdt = rsdp_xsdt m rsdp + sizeof_sdt_header + PAGING_VIRTUAL_OFFSET
              in read_u64 m (xsdt + 8 * ucast index) + PAGING_VIRTUAL_OFFSET)"

partial_function (option) acpi_table_scan ::
    "mem \<Rightarrow> bool \<Rightarrow> u64 \<Rightarrow> u64 \<Rightarrow> u16 \<Rightarrow> u16 \<Rightarrow> u16 \<Rightarrow> u64 option" where
  "acpi_table_scan m xsdt rsdp signature index i table_occurence =
     (let header = (if xsdt then acpi_xsdt_get m rsdp i else acpi_rsdt_get m rsdp i)
      in if header = 0 then Some 0
         else if strncmp m header signature 4 = 0 \<and> table_occurence = index then Some header
         else if strncmp m header signature 4 = 0
         then acpi_table_scan m xsdt rsdp signature index (i + 1) (table_occurence + 1)
         else acpi_table_scan m xsdt rsdp signature index (i + 1) table_occurence)"

definition acpi_get_table :: "mem \<Rightarrow> u64 \<Rightarrow> u64 \<Rightarrow> u16 \<Rightarrow> u64 option" where
  "acpi_get_table m acpi_rsdp signature index =
     (if acpi_rsdp = 0 then Some 0
      else do {
        n \<leftarrow> strlen m signature;
        if n \<noteq> 4 then Some 0
        else acpi_table_scan m (rsdp_xsdt m acpi_rsdp \<noteq> 0) acpi_rsdp signature index 0 0 })"

section \<open>What the root tables list\<close>

text \<open>
  A root table as the firmware standard has it: the length of the table is at offset 4, and behind a header of
  36 bytes are the physical addresses of the tables, of 8 bytes in the extended root table and of 4 bytes in the old
  one. The extended one takes precedence. Tables are read where the kernel maps them.
\<close>

definition acpi_root :: "mem \<Rightarrow> u64 \<Rightarrow> u64" where
  "acpi_root m rsdp =
     (if rsdp_xsdt m rsdp \<noteq> 0 then rsdp_xsdt m rsdp else ucast (rsdp_rsdt m rsdp)) + PAGING_VIRTUAL_OFFSET"

definition acpi_root_length :: "mem \<Rightarrow> u64 \<Rightarrow> nat" where
  "acpi_root_length m rsdp = unat (read_u32 m (acpi_root m rsdp + 4))"

definition acpi_tables :: "mem \<Rightarrow> u64 \<Rightarrow> u64 list" where
  "acpi_tables m rsdp =
     (let first = acpi_root m rsdp + 36; bytes = acpi_root_length m rsdp - 36
      in if rsdp_xsdt m rsdp \<noteq> 0
         then map (\<lambda>i. read_u64 m (first + of_nat (8 * i)) + PAGING_VIRTUAL_OFFSET) [0..<bytes div 8]
         else map (\<lambda>i. ucast (read_u32 m (first + of_nat (4 * i))) + PAGING_VIRTUAL_OFFSET) [0..<bytes div 4])"

text \<open>The code counts the entries of both by 8 bytes, so of an old root table it sees the first half.\<close>

definition acpi_searched :: "mem \<Rightarrow> u64 \<Rightarrow> u64 list" where
  "acpi_searched m rsdp =
     (if rsdp_xsdt m rsdp \<noteq> 0 then acpi_tables m rsdp
      else take (length (acpi_tables m rsdp) div 2) (acpi_tables m rsdp))"

definition acpi_entry :: "mem \<Rightarrow> u64 \<Rightarrow> u16 \<Rightarrow> u64" where
  "acpi_entry m rsdp i = (if rsdp_xsdt m rsdp \<noteq> 0 then acpi_xsdt_get m rsdp i else acpi_rsdt_get m rsdp i)"

lemma length_acpi_searched: "length (acpi_searched m rsdp) = (acpi_root_length m rsdp - 36) div 8"
  by (simp add: acpi_searched_def acpi_tables_def Let_def div_mult2_eq [symmetric])

lemma acpi_searched_nth:
  "i < length (acpi_searched m rsdp) \<Longrightarrow> acpi_searched m rsdp ! i =
     (if rsdp_xsdt m rsdp \<noteq> 0 then read_u64 m (acpi_root m rsdp + 36 + 8 * of_nat i)
      else ucast (read_u32 m (acpi_root m rsdp + 36 + 4 * of_nat i))) + PAGING_VIRTUAL_OFFSET"
  by (auto simp: acpi_searched_def acpi_tables_def Let_def)

text \<open>The getters agree with the list, and are NULL behind it.\<close>

lemma acpi_entry_nth:
  assumes "36 \<le> acpi_root_length m rsdp" and "length (acpi_searched m rsdp) < 2 ^ 16"
    and "i \<le> length (acpi_searched m rsdp)"
  shows "acpi_entry m rsdp (of_nat i) =
    (if i < length (acpi_searched m rsdp) then acpi_searched m rsdp ! i else 0)"
proof -
  let ?len = "read_u32 m (acpi_root m rsdp + 4)"
  have i: "unat (of_nat i :: u16) = i" using assms(2,3) by (simp add: unat_of_nat)
  then have u: "unat (ucast (of_nat i :: u16) :: u64) = i" by (simp add: unat_ucast_up)
  then have w: "(ucast (of_nat i :: u16) :: u64) = of_nat i"
    by (metis of_nat_unat ucast_id)
  have "unat (ucast ?len - 36 :: u64) = acpi_root_length m rsdp - 36"
    using assms(1) by (subst unat_minus_nowrap) (simp_all add: acpi_root_length_def unat_ucast_up)
  then have n: "unat ((ucast ?len - 36 :: u64) div 8) = length (acpi_searched m rsdp)"
    by (simp add: length_acpi_searched unat_div)
  have "ucast (of_nat i :: u16) \<ge> (ucast ?len - 36 :: u64) div 8 \<longleftrightarrow> \<not> i < length (acpi_searched m rsdp)"
    unfolding word_le_nat_alt u n by auto
  note n' = this and nth = acpi_searched_nth [of i m rsdp]
  show ?thesis
  proof (cases "rsdp_xsdt m rsdp = 0")
    case True
    then have r: "ucast (rsdp_rsdt m rsdp) + PAGING_VIRTUAL_OFFSET = acpi_root m rsdp"
      "ucast (rsdp_rsdt m rsdp) + sizeof_sdt_header + PAGING_VIRTUAL_OFFSET = acpi_root m rsdp + 36"
      by (simp_all add: acpi_root_def)
    show ?thesis
      unfolding acpi_entry_def acpi_rsdt_get_def sdt_length_def Let_def r n' using True nth
      by (simp add: w)
  next
    case False
    then have r: "rsdp_xsdt m rsdp + PAGING_VIRTUAL_OFFSET = acpi_root m rsdp"
      "rsdp_xsdt m rsdp + sizeof_sdt_header + PAGING_VIRTUAL_OFFSET = acpi_root m rsdp + 36"
      by (simp_all add: acpi_root_def)
    show ?thesis
      unfolding acpi_entry_def acpi_xsdt_get_def sdt_length_def Let_def r n' using False nth
      by (simp add: w)
  qed
qed

section \<open>What a search finds\<close>

definition acpi_matches :: "mem \<Rightarrow> u8 list \<Rightarrow> u64 list \<Rightarrow> u64 list" where
  "acpi_matches m name hs = filter (\<lambda>h. read_bytes m h 4 = name) hs"

lemma acpi_table_scan_matches:
  assumes len: "36 \<le> acpi_root_length m rsdp" "n = length (acpi_searched m rsdp)" "n < 2 ^ 16"
    and nz: "0 \<notin> set (acpi_searched m rsdp)" and "i \<le> n" "occ \<le> i" "occ \<le> unat index"
  shows "acpi_table_scan m (rsdp_xsdt m rsdp \<noteq> 0) rsdp sig index (of_nat i) (of_nat occ) =
    Some (let hits = acpi_matches m (read_bytes m sig 4) (drop i (acpi_searched m rsdp))
          in if unat index - occ < length hits then hits ! (unat index - occ) else 0)"
  using assms(5-7)
proof (induction "n - i" arbitrary: i occ)
  case 0
  then have "acpi_entry m rsdp (of_nat i) = 0" using acpi_entry_nth [OF len(1), of i] len(2,3) by simp
  then show ?case
    using 0 len(2) by (subst acpi_table_scan.simps) (simp add: acpi_entry_def acpi_matches_def Let_def split: if_splits)
next
  case (Suc k)
  then have i: "i < n" by simp
  let ?hs = "acpi_searched m rsdp" and ?name = "read_bytes m sig 4"
  let ?h = "?hs ! i"
  have h: "(if rsdp_xsdt m rsdp \<noteq> 0 then acpi_xsdt_get m rsdp (of_nat i) else acpi_rsdt_get m rsdp (of_nat i)) = ?h"
    using acpi_entry_nth [OF len(1), of i] i len(2,3) by (simp add: acpi_entry_def)
  have h0: "?h \<noteq> 0" using nz i len(2) by (metis nth_mem)
  have cmp: "strncmp m ?h sig 4 = 0 \<longleftrightarrow> read_bytes m ?h 4 = ?name" by (simp add: strncmp_zero)
  have un: "unat (of_nat occ :: u16) = occ" using Suc.prems i len(3) by (simp add: unat_of_nat)
  then have eq: "(of_nat occ :: u16) = index \<longleftrightarrow> occ = unat index"
    using Suc.prems i len(3) by (intro of_nat_eq_word_iff) simp
  have step: "of_nat i + (1 :: u16) = of_nat (Suc i)" "of_nat occ + (1 :: u16) = of_nat (Suc occ)" by simp_all
  have scan: "acpi_table_scan m (rsdp_xsdt m rsdp \<noteq> 0) rsdp sig index (of_nat i) (of_nat occ) =
    (if read_bytes m ?h 4 = ?name \<and> occ = unat index then Some ?h
     else if read_bytes m ?h 4 = ?name
     then acpi_table_scan m (rsdp_xsdt m rsdp \<noteq> 0) rsdp sig index (of_nat (Suc i)) (of_nat (Suc occ))
     else acpi_table_scan m (rsdp_xsdt m rsdp \<noteq> 0) rsdp sig index (of_nat (Suc i)) (of_nat occ))"
    by (subst acpi_table_scan.simps) (simp only: Let_def h h0 cmp eq step if_False)
  have k: "k = n - Suc i" using Suc.hyps(2) by simp
  have d: "drop i ?hs = ?h # drop (Suc i) ?hs" using i len(2) by (simp add: Cons_nth_drop_Suc)
  show ?case
  proof (cases "read_bytes m ?h 4 = ?name")
    case False
    then show ?thesis
      using scan Suc.hyps(1) [OF k, of occ] Suc.prems i by (simp add: acpi_matches_def d)
  next
    case True
    show ?thesis
    proof (cases "occ = unat index")
      case t: True
      then show ?thesis using scan True i by (simp add: acpi_matches_def d Let_def)
    next
      case False
      then have "unat index - occ = Suc (unat index - Suc occ)" using Suc.prems by simp
      then show ?thesis
        using scan True False Suc.hyps(1) [OF k, of "Suc occ"] Suc.prems i
        by (simp add: acpi_matches_def d Let_def)
    qed
  qed
qed

text \<open>C33:
  For a signature of four characters and a root table of at least 36 bytes with less than \<open>2 ^ 16\<close> entries, none of
  which the kernel sees at address 0, \<open>acpi_get_table\<close> returns. With an extended root table it finds, of the tables that the firmware lists, the
  \<open>index\<close>-th whose first four bytes are the signature, and NULL when there are fewer. With an old root table it
  finds it only among the first half of the listed tables, and says NULL for one in the second half.
\<close>

theorem acpi_get_table_finds:
  assumes "rsdp \<noteq> 0" and "cstr m sig name" and "length name = 4"
    and "36 \<le> acpi_root_length m rsdp" and "length (acpi_searched m rsdp) < 2 ^ 16"
    and "0 \<notin> set (acpi_searched m rsdp)"
  shows "acpi_get_table m rsdp sig index =
    Some (let hits = acpi_matches m name (acpi_searched m rsdp)
          in if unat index < length hits then hits ! unat index else 0)"
proof -
  have "strlen m sig = Some 4" using strlen_cstr [OF assms(2)] assms(3) by simp
  moreover have "read_bytes m sig 4 = name"
    using assms(2,3) by (auto simp: cstr_def bytes_at_append bytes_at_def read_bytes_def nth_append intro: nth_equalityI)
  ultimately show ?thesis
    using acpi_table_scan_matches [OF assms(4) refl assms(5,6), of 0 0 index sig] assms(1)
    by (simp add: acpi_get_table_def Let_def)
qed

text \<open>
  An extended root table at 0x2000 that lists one table, \<open>APIC\<close> at 0x3000, and an old one at 0x4000 that lists
  two, the second of which is the same table.
\<close>

definition small_firmware :: mem where
  "small_firmware = (\<lambda>_. 0)(0x1019 := 0x20, 0xffff800000002004 := 44, 0xffff800000002025 := 0x30,
     0x1111 := 0x40, 0xffff800000004004 := 44, 0xffff800000004025 := 0x20, 0xffff800000004029 := 0x30,
     0xffff800000003000 := 65, 0xffff800000003001 := 80, 0xffff800000003002 := 73,
     0xffff800000003003 := 67, 0x500 := 65, 0x501 := 80, 0x502 := 73, 0x503 := 67)"

lemma small_firmware_tables:
  "acpi_root_length small_firmware 0x1000 = 44" "acpi_tables small_firmware 0x1000 = [0xffff800000003000]"
  "acpi_searched small_firmware 0x1000 = [0xffff800000003000]"
  "acpi_root_length small_firmware 0x1100 = 44"
  "acpi_tables small_firmware 0x1100 = [0xffff800000002000, 0xffff800000003000]"
  "acpi_searched small_firmware 0x1100 = [0xffff800000002000]"
proof -
  note r = read_u64_def read_u32_def read_u16_def
  have x: "rsdp_xsdt small_firmware 0x1000 = 0x2000" "rsdp_xsdt small_firmware 0x1100 = 0"
    "rsdp_rsdt small_firmware 0x1100 = 0x4000"
    by (simp_all add: rsdp_xsdt_def rsdp_rsdt_def r small_firmware_def)
  show l: "acpi_root_length small_firmware 0x1000 = 44" "acpi_root_length small_firmware 0x1100 = 44"
    by (simp_all add: acpi_root_length_def acpi_root_def x) (simp_all add: r small_firmware_def)
  show t: "acpi_tables small_firmware 0x1000 = [0xffff800000003000]"
    "acpi_tables small_firmware 0x1100 = [0xffff800000002000, 0xffff800000003000]"
    by (simp_all add: acpi_tables_def acpi_root_def x l upt_rec) (simp_all add: r small_firmware_def)
  show "acpi_searched small_firmware 0x1000 = [0xffff800000003000]"
    "acpi_searched small_firmware 0x1100 = [0xffff800000002000]"
    by (simp_all add: acpi_searched_def t x)
qed

lemma acpi_get_table_finds_witness:
  "acpi_get_table small_firmware 0x1000 0x500 0 = Some 0xffff800000003000 \<and>
   acpi_get_table small_firmware 0x1000 0x500 1 = Some 0 \<and>
   acpi_get_table small_firmware 0x1100 0x500 0 = Some 0"
proof -
  let ?m = small_firmware
  have b: "read_bytes ?m p 4 = [?m p, ?m (p + 1), ?m (p + 2), ?m (p + 3)]" for p
    unfolding read_bytes_def by (simp add: upt_conv_Cons numeral_eq_Suc del: map_eq_conv)
  have c: "cstr ?m 0x500 [65, 80, 73, 67]" by (simp add: small_firmware_def)
  have h: "acpi_matches ?m [65, 80, 73, 67] [0xffff800000003000] = [0xffff800000003000]"
    "acpi_matches ?m [65, 80, 73, 67] [0xffff800000002000] = []"
    by (simp_all add: acpi_matches_def b) (simp_all add: small_firmware_def)
  have "acpi_get_table ?m 0x1000 0x500 i = Some (if unat i < 1 then 0xffff800000003000 else 0)" for i
    using acpi_get_table_finds [of "0x1000" ?m "0x500" "[65, 80, 73, 67]" i] c by (simp add: small_firmware_tables h)
  moreover have "acpi_get_table ?m 0x1100 0x500 0 = Some 0"
    using acpi_get_table_finds [of "0x1100" ?m "0x500" "[65, 80, 73, 67]" 0] c by (simp add: small_firmware_tables h)
  ultimately show ?thesis by simp
qed

end
