(* ===== verification/Apic.thy ===== *)
theory Apic
  imports Acpi Machine
begin

text \<open>
  The interrupt controllers: \<open>kernel/src/iodev/8259/pic.c\<close>, \<open>kernel/src/iodev/apic/ioapic.c\<close>,
  \<open>lapic.c\<close>, their headers, and the start-up in \<open>initialize.c\<close>. Controller nodes are a store from
  their heap addresses to their fields; a node that \<open>malloc\<close> returns holds what the store holds.
  Registers of the controllers are reached by events of the machine.
\<close>

section \<open>The 8259 controllers\<close>

abbreviation PIC_MASTER_COMMAND :: u16 where "PIC_MASTER_COMMAND \<equiv> 0x20"
abbreviation PIC_MASTER_DATA :: u16 where "PIC_MASTER_DATA \<equiv> 0x21"
abbreviation PIC_SLAVE_COMMAND :: u16 where "PIC_SLAVE_COMMAND \<equiv> 0xA0"
abbreviation PIC_SLAVE_DATA :: u16 where "PIC_SLAVE_DATA \<equiv> 0xA1"
abbreviation PIC_EOI :: u8 where "PIC_EOI \<equiv> 0x20"
abbreviation PIC_ICW1_ICW4 :: u8 where "PIC_ICW1_ICW4 \<equiv> 0x01"
abbreviation PIC_ICW1_INIT :: u8 where "PIC_ICW1_INIT \<equiv> 0x10"
abbreviation PIC_ICW4_8086 :: u8 where "PIC_ICW4_8086 \<equiv> 0x01"

text \<open>The port and the line of an interrupt, and \<open>1 << irq\<close> cut to a byte.\<close>

definition pic_line :: "u8 \<Rightarrow> u16 \<times> u8" where
  "pic_line irq = (if irq < 8 then (PIC_MASTER_DATA, irq) else (PIC_SLAVE_DATA, irq - 8))"

definition pic_bit :: "u8 \<Rightarrow> u8" where
  "pic_bit irq = ucast (push_bit (unat irq) 1 :: u32)"

definition pic_mask_irq :: "u8 \<Rightarrow> 'z machine_state_scheme \<Rightarrow> 'z machine_state_scheme" where
  "pic_mask_irq irq s =
     (let (port, irq) = pic_line irq; (masks, s) = inb port s
      in outb port (masks OR pic_bit irq) s)"

definition pic_unmask_irq :: "u8 \<Rightarrow> 'z machine_state_scheme \<Rightarrow> 'z machine_state_scheme" where
  "pic_unmask_irq irq s =
     (let (port, irq) = pic_line irq; (masks, s) = inb port s
      in outb port (masks AND NOT (pic_bit irq)) s)"

definition pic_remap_offsets :: "u8 \<Rightarrow> 'z machine_state_scheme \<Rightarrow> 'z machine_state_scheme" where
  "pic_remap_offsets offset s =
     (let (master_mask, s) = inb PIC_MASTER_DATA s;
          (slave_mask, s) = inb PIC_SLAVE_DATA s;
          s = outb PIC_MASTER_COMMAND (PIC_ICW1_INIT OR PIC_ICW1_ICW4) s;
          s = outb PIC_SLAVE_COMMAND (PIC_ICW1_INIT OR PIC_ICW1_ICW4) s;
          s = outb PIC_MASTER_DATA offset s;
          s = outb PIC_SLAVE_DATA (offset + 0x08) s;
          s = outb PIC_MASTER_DATA 0x04 s;
          s = outb PIC_SLAVE_DATA 0x02 s;
          s = outb PIC_MASTER_DATA PIC_ICW4_8086 s;
          s = outb PIC_SLAVE_DATA PIC_ICW4_8086 s;
          s = outb PIC_MASTER_DATA master_mask s
      in outb PIC_SLAVE_DATA slave_mask s)"

definition pic_send_eoi :: "u8 \<Rightarrow> 'z machine_state_scheme \<Rightarrow> 'z machine_state_scheme" where
  "pic_send_eoi irq s =
     (let s = (if irq \<ge> 8 then outb PIC_SLAVE_COMMAND PIC_EOI s else s)
      in outb PIC_MASTER_COMMAND PIC_EOI s)"

definition pic_disable :: "'z machine_state_scheme \<Rightarrow> 'z machine_state_scheme" where
  "pic_disable s =
     fold (\<lambda>irq s. pic_mask_irq (of_nat irq) s) [0..<16] (pic_remap_offsets 0x20 s)"

section \<open>State of the advanced controllers\<close>

record apic_io_controller_node =
  ioc_base :: u64
  ioc_id :: u64
  ioc_next :: u64

abbreviation sizeof_controller_node :: u64 where "sizeof_controller_node \<equiv> 24"

record apic_io_redirect =
  rd_irq :: u8
  rd_vector :: u8
  rd_active_low :: bool
  rd_level_triggered :: bool
  rd_masked :: bool

record apic_state = machine_state +
  ioapics :: u64
  ioapic_nodes :: "u64 \<Rightarrow> apic_io_controller_node"
  gsi_map :: "nat \<Rightarrow> u8"
  apic_virtual_base :: u64

section \<open>The I/O controller\<close>

abbreviation IOAPIC_REGSEL :: u64 where "IOAPIC_REGSEL \<equiv> 0x0000"
abbreviation IOAPIC_DATA :: u64 where "IOAPIC_DATA \<equiv> 0x0010"

definition IOAPIC_REGISTER_REDIRECTION :: "u8 \<Rightarrow> u32" where
  "IOAPIC_REGISTER_REDIRECTION n = 0x0010 + 2 * ucast n"

partial_function (option) apic_io_find ::
    "u64 \<Rightarrow> u64 \<Rightarrow> 'z apic_state_scheme \<Rightarrow> u64 option" where
  "apic_io_find ioapic ioapic_id s =
     (if ioapic = 0 then Some 0
      else if ioc_id (ioapic_nodes s ioapic) = ioapic_id then Some (ioc_base (ioapic_nodes s ioapic))
      else apic_io_find (ioc_next (ioapic_nodes s ioapic)) ioapic_id s)"

definition apic_io_get_base :: "u64 \<Rightarrow> 'z apic_state_scheme \<Rightarrow> u64 option" where
  "apic_io_get_base ioapic_id s = apic_io_find (ioapics s) ioapic_id s"

text \<open>A NULL base puts both registers in page 0, which faults.\<close>

definition apic_io_write ::
    "u64 \<Rightarrow> u32 \<Rightarrow> u32 \<Rightarrow> 'z apic_state_scheme \<Rightarrow> 'z apic_state_scheme option" where
  "apic_io_write i reg value s = do {
     base \<leftarrow> apic_io_get_base i s;
     if base = 0 then None
     else Some (mmio_write (base + IOAPIC_DATA) value (mmio_write (base + IOAPIC_REGSEL) reg s)) }"

definition apic_io_read ::
    "u64 \<Rightarrow> u32 \<Rightarrow> 'z apic_state_scheme \<Rightarrow> (u32 \<times> 'z apic_state_scheme) option" where
  "apic_io_read i reg s = do {
     base \<leftarrow> apic_io_get_base i s;
     if base = 0 then None
     else Some (mmio_read (base + IOAPIC_DATA) (mmio_write (base + IOAPIC_REGSEL) reg s)) }"

definition apic_io_mask_irq :: "u8 \<Rightarrow> 'z apic_state_scheme \<Rightarrow> 'z apic_state_scheme option" where
  "apic_io_mask_irq irq s = do {
     (entry, s) \<leftarrow> apic_io_read 0 (IOAPIC_REGISTER_REDIRECTION irq) s;
     apic_io_write 0 (IOAPIC_REGISTER_REDIRECTION irq) (entry OR 0x10000) s }"

definition apic_io_unmask_irq :: "u8 \<Rightarrow> 'z apic_state_scheme \<Rightarrow> 'z apic_state_scheme option" where
  "apic_io_unmask_irq irq s = do {
     (entry, s) \<leftarrow> apic_io_read 0 (IOAPIC_REGISTER_REDIRECTION irq) s;
     apic_io_write 0 (IOAPIC_REGISTER_REDIRECTION irq) (entry AND NOT 0x10000) s }"

definition redirect_word :: "u8 \<Rightarrow> bool \<Rightarrow> bool \<Rightarrow> u32" where
  "redirect_word vector alow ltriggered =
     ucast vector OR push_bit 13 (of_bool alow) OR push_bit 15 (of_bool ltriggered) OR push_bit 16 1"

definition apic_io_redirect_irq ::
    "u8 \<Rightarrow> u8 \<Rightarrow> bool \<Rightarrow> bool \<Rightarrow> 'z apic_state_scheme \<Rightarrow> 'z apic_state_scheme option" where
  "apic_io_redirect_irq irq vector alow ltriggered s = do {
     s \<leftarrow> apic_io_write 0 (IOAPIC_REGISTER_REDIRECTION irq + 1) 0 s;
     apic_io_write 0 (IOAPIC_REGISTER_REDIRECTION irq) (redirect_word vector alow ltriggered) s }"

definition redirect_decode :: "u8 \<Rightarrow> u32 \<Rightarrow> apic_io_redirect" where
  "redirect_decode irq entry =
     \<lparr>rd_irq = irq, rd_vector = ucast (entry AND 0xFF),
      rd_active_low = (entry AND push_bit 13 1 \<noteq> 0),
      rd_level_triggered = (entry AND push_bit 15 1 \<noteq> 0),
      rd_masked = (entry AND push_bit 16 1 \<noteq> 0)\<rparr>"

definition apic_io_get_redirect ::
    "u8 \<Rightarrow> 'z apic_state_scheme \<Rightarrow> (apic_io_redirect \<times> 'z apic_state_scheme) option" where
  "apic_io_get_redirect irq s = do {
     (entry, s) \<leftarrow> apic_io_read 0 (IOAPIC_REGISTER_REDIRECTION irq) s;
     Some (redirect_decode irq entry, s) }"

definition apic_io_get_gsi :: "u8 \<Rightarrow> 'z apic_state_scheme \<Rightarrow> u8" where
  "apic_io_get_gsi irq s = gsi_map s (unat irq)"

text \<open>A field of a controller node is written through its address.\<close>

definition ioc_put :: "(apic_io_controller_node \<Rightarrow> apic_io_controller_node) \<Rightarrow> u64 \<Rightarrow>
    'z apic_state_scheme \<Rightarrow> 'z apic_state_scheme option" where
  "ioc_put f p s =
     (if p = 0 then None
      else Some (s\<lparr>ioapic_nodes := (ioapic_nodes s)(p := f (ioapic_nodes s p))\<rparr>))"

partial_function (option) apic_io_last :: "u64 \<Rightarrow> 'z apic_state_scheme \<Rightarrow> u64 option" where
  "apic_io_last node s =
     (if ioc_next (ioapic_nodes s node) = 0 then Some node
      else apic_io_last (ioc_next (ioapic_nodes s node)) s)"

text \<open>Only the first node gets its \<open>next\<close> field.\<close>

definition apic_io_register_controller ::
    "u8 \<Rightarrow> u32 \<Rightarrow> 'z apic_state_scheme \<Rightarrow> 'z apic_state_scheme option" where
  "apic_io_register_controller ioapic_id ioapic_address s = do {
     (new_ioapic, s) \<leftarrow>
       (if ioapics s = 0
        then do {
          (p, s) \<leftarrow> heap_malloc sizeof_controller_node s;
          s \<leftarrow> ioc_put (ioc_next_update (\<lambda>_. 0)) p (s\<lparr>ioapics := p\<rparr>);
          Some (p, s) }
        else do {
          before_new \<leftarrow> apic_io_last (ioapics s) s;
          (p, s) \<leftarrow> heap_malloc sizeof_controller_node s;
          s \<leftarrow> ioc_put (ioc_next_update (\<lambda>_. p)) before_new s;
          Some (p, s) });
     s \<leftarrow> ioc_put (ioc_base_update (\<lambda>_. ucast ioapic_address + PAGING_VIRTUAL_OFFSET)) new_ioapic s;
     s \<leftarrow> ioc_put (ioc_id_update (\<lambda>_. ucast ioapic_id)) new_ioapic s;
     paging_map_page (ucast ioapic_address + PAGING_VIRTUAL_OFFSET) (ucast ioapic_address)
       PAGING_FLAGS_KERNEL_PAGE s }"

section \<open>The local controller\<close>

abbreviation APIC_LOCAL_REGISTER_ID :: u64 where "APIC_LOCAL_REGISTER_ID \<equiv> 0x0020"
abbreviation APIC_LOCAL_REGISTER_EOI :: u64 where "APIC_LOCAL_REGISTER_EOI \<equiv> 0x00B0"
abbreviation APIC_LOCAL_REGISTER_SPURIOUS_INT_VECTOR :: u64 where
  "APIC_LOCAL_REGISTER_SPURIOUS_INT_VECTOR \<equiv> 0x00F0"
abbreviation APIC_LOCAL_REGISTER_INTERRUPT_COMMAND :: u64 where
  "APIC_LOCAL_REGISTER_INTERRUPT_COMMAND \<equiv> 0x0300"
abbreviation APIC_LOCAL_REGISTER_INTERRUPT_DESTINATION :: u64 where
  "APIC_LOCAL_REGISTER_INTERRUPT_DESTINATION \<equiv> 0x0310"
abbreviation APIC_LOCAL_REGISTER_LVT_TIMER :: u64 where "APIC_LOCAL_REGISTER_LVT_TIMER \<equiv> 0x0320"
abbreviation APIC_LOCAL_REGISTER_LVT_LINT0 :: u64 where "APIC_LOCAL_REGISTER_LVT_LINT0 \<equiv> 0x0350"
abbreviation APIC_LOCAL_REGISTER_LVT_LINT1 :: u64 where "APIC_LOCAL_REGISTER_LVT_LINT1 \<equiv> 0x0360"
abbreviation APIC_LOCAL_REGISTER_INITIAL_COUNT :: u64 where
  "APIC_LOCAL_REGISTER_INITIAL_COUNT \<equiv> 0x0380"
abbreviation APIC_LOCAL_REGISTER_CURRENT_COUNT :: u64 where
  "APIC_LOCAL_REGISTER_CURRENT_COUNT \<equiv> 0x0390"
abbreviation APIC_LOCAL_REGISTER_DIVIDE_CONFIG :: u64 where
  "APIC_LOCAL_REGISTER_DIVIDE_CONFIG \<equiv> 0x03E0"
abbreviation IA32_APIC_BASE :: u64 where "IA32_APIC_BASE \<equiv> 0x1B"

definition apic_local_set_base :: "u64 \<Rightarrow> 'z apic_state_scheme \<Rightarrow> 'z apic_state_scheme option" where
  "apic_local_set_base base0 s = do {
     let base = base0 AND 0xffffffff;
     let s = wrmsr IA32_APIC_BASE (base AND 0xfffff000) s;
     s \<leftarrow> paging_map_page (base + PAGING_VIRTUAL_OFFSET) base PAGING_FLAGS_KERNEL_PAGE s;
     Some (s\<lparr>apic_virtual_base := base + PAGING_VIRTUAL_OFFSET\<rparr>) }"

definition apic_local_write ::
    "u64 \<Rightarrow> u32 \<Rightarrow> 'z apic_state_scheme \<Rightarrow> 'z apic_state_scheme option" where
  "apic_local_write r value s =
     (if apic_virtual_base s = 0 then None else Some (mmio_write (apic_virtual_base s + r) value s))"

definition apic_local_read ::
    "u64 \<Rightarrow> 'z apic_state_scheme \<Rightarrow> (u32 \<times> 'z apic_state_scheme) option" where
  "apic_local_read r s =
     (if apic_virtual_base s = 0 then None else Some (mmio_read (apic_virtual_base s + r) s))"

definition apic_local_send_eoi :: "'z apic_state_scheme \<Rightarrow> 'z apic_state_scheme option" where
  "apic_local_send_eoi s =
     (if apic_virtual_base s = 0 then Some s else apic_local_write APIC_LOCAL_REGISTER_EOI 0 s)"

text \<open>\<open>while (apic_local_read(APIC_LOCAL_REGISTER_INTERRUPT_COMMAND) & 0x1000);\<close>\<close>

partial_function (option) apic_local_wait :: "'z apic_state_scheme \<Rightarrow> 'z apic_state_scheme option" where
  "apic_local_wait s = do {
     (v, s) \<leftarrow> apic_local_read APIC_LOCAL_REGISTER_INTERRUPT_COMMAND s;
     if v AND 0x1000 \<noteq> 0 then apic_local_wait s else Some s }"

definition apic_local_send_ipi ::
    "u8 \<Rightarrow> u8 \<Rightarrow> 'z apic_state_scheme \<Rightarrow> 'z apic_state_scheme option" where
  "apic_local_send_ipi lapic_id vector s = do {
     s \<leftarrow> apic_local_write APIC_LOCAL_REGISTER_INTERRUPT_DESTINATION (push_bit 24 (ucast lapic_id)) s;
     let ipi = ucast vector OR push_bit 14 0x01;
     s \<leftarrow> apic_local_write APIC_LOCAL_REGISTER_INTERRUPT_COMMAND ipi s;
     apic_local_wait s }"

definition apic_local_cast_ipi :: "u8 \<Rightarrow> 'z apic_state_scheme \<Rightarrow> 'z apic_state_scheme option" where
  "apic_local_cast_ipi vector s = do {
     let ipi = ucast vector OR push_bit 14 0x01 OR push_bit 18 0x03;
     s \<leftarrow> apic_local_write APIC_LOCAL_REGISTER_INTERRUPT_COMMAND ipi s;
     apic_local_wait s }"

section \<open>Start-up from the firmware's table\<close>

abbreviation ACPI_MADT_RECORD_TYPE_IOAPIC :: u8 where "ACPI_MADT_RECORD_TYPE_IOAPIC \<equiv> 1"
abbreviation ACPI_MADT_RECORD_TYPE_ISO :: u8 where "ACPI_MADT_RECORD_TYPE_ISO \<equiv> 2"
abbreviation ACPI_MADT_RECORD_TYPE_LOCAL_NMI :: u8 where "ACPI_MADT_RECORD_TYPE_LOCAL_NMI \<equiv> 4"
abbreviation ACTIVE_LOW :: u16 where "ACTIVE_LOW \<equiv> 0x02"
abbreviation LEVEL_TRIGGERED :: u16 where "LEVEL_TRIGGERED \<equiv> 0x80"
abbreviation sizeof_madt_header :: u64 where "sizeof_madt_header \<equiv> 44"

text \<open>
  The walk over the records that the three loops of \<open>initialize.c\<close> share: the record is advanced
  by its length before it is looked at, so the first record is never handled and the one behind
  the last is. A record of length 0 makes the walk go on for ever.
\<close>

partial_function (option) madt_walk ::
    "(u64 \<Rightarrow> 'z apic_state_scheme \<Rightarrow> 'z apic_state_scheme option) \<Rightarrow> u64 \<Rightarrow> u64 \<Rightarrow>
      'z apic_state_scheme \<Rightarrow> 'z apic_state_scheme option" where
  "madt_walk handle madt madt_record s =
     (if madt_record - madt \<ge> ucast (sdt_length (heap_bytes s) madt) then Some s
      else do {
        let madt_record = madt_record + ucast (heap_bytes s (madt_record + 1));
        s \<leftarrow> handle madt_record s;
        madt_walk handle madt madt_record s })"

definition nmi_entry :: "u16 \<Rightarrow> u32" where
  "nmi_entry flags =
     push_bit 8 (0x04 AND 0x07) OR push_bit 13 (of_bool (flags AND LEVEL_TRIGGERED \<noteq> 0)) OR
     push_bit 15 (of_bool (flags AND ACTIVE_LOW \<noteq> 0))"

definition configure_nmi :: "u32 \<Rightarrow> u64 \<Rightarrow> 'z apic_state_scheme \<Rightarrow> 'z apic_state_scheme option" where
  "configure_nmi lapic_id r s = (
     let m = heap_bytes s
     in if m r \<noteq> ACPI_MADT_RECORD_TYPE_LOCAL_NMI then Some s
     else if ucast (m (r + 2)) \<noteq> lapic_id \<and> m (r + 2) \<noteq> 0xff then Some s
     else apic_local_write
            (if m (r + 5) = 0 then APIC_LOCAL_REGISTER_LVT_LINT0 else APIC_LOCAL_REGISTER_LVT_LINT1)
            (nmi_entry (read_u16 m (r + 3))) s)"

definition configure_local_apic :: "u64 \<Rightarrow> 'z apic_state_scheme \<Rightarrow> 'z apic_state_scheme option" where
  "configure_local_apic madt s = do {
     s \<leftarrow> apic_local_set_base (ucast (read_u32 (heap_bytes s) (madt + 36))) s;
     (spurious, s) \<leftarrow> apic_local_read APIC_LOCAL_REGISTER_SPURIOUS_INT_VECTOR s;
     s \<leftarrow> apic_local_write APIC_LOCAL_REGISTER_SPURIOUS_INT_VECTOR (0x100 OR spurious) s;
     (lapic_id, s) \<leftarrow> apic_local_read APIC_LOCAL_REGISTER_ID s;
     madt_walk (configure_nmi lapic_id) madt (madt + sizeof_madt_header) s }"

definition initialize_gsi_map :: "'z apic_state_scheme \<Rightarrow> 'z apic_state_scheme" where
  "initialize_gsi_map s =
     fold (\<lambda>i s. s\<lparr>gsi_map := (gsi_map s)(i := of_nat i)\<rparr>) [0..<24] s"

definition register_ioapic_record :: "u64 \<Rightarrow> 'z apic_state_scheme \<Rightarrow> 'z apic_state_scheme option" where
  "register_ioapic_record r s =
     (if heap_bytes s r = ACPI_MADT_RECORD_TYPE_IOAPIC
      then apic_io_register_controller (heap_bytes s (r + 2)) (read_u32 (heap_bytes s) (r + 4)) s
      else Some s)"

definition apply_override :: "u64 \<Rightarrow> 'z apic_state_scheme \<Rightarrow> 'z apic_state_scheme option" where
  "apply_override r s =
     (if heap_bytes s r = ACPI_MADT_RECORD_TYPE_ISO
      then do {
        let irq_source = heap_bytes s (r + 3);
        let gsi = read_u32 (heap_bytes s) (r + 4);
        let flags = read_u16 (heap_bytes s) (r + 8);
        s \<leftarrow> apic_io_redirect_irq (ucast gsi) 0 (flags AND ACTIVE_LOW \<noteq> 0)
               (flags AND LEVEL_TRIGGERED \<noteq> 0) s;
        Some (s\<lparr>gsi_map := (gsi_map s)(unat irq_source := ucast gsi)\<rparr>) }
      else Some s)"

definition configure_io_apic :: "u64 \<Rightarrow> 'z apic_state_scheme \<Rightarrow> 'z apic_state_scheme option" where
  "configure_io_apic madt s = do {
     s \<leftarrow> madt_walk register_ioapic_record madt (madt + sizeof_madt_header) s;
     madt_walk apply_override madt (madt + sizeof_madt_header) (initialize_gsi_map s) }"

text \<open>
  \<open>edx\<close> is the answer of \<open>cpuid\<close>: without the controller the processor stops for good. \<open>sig\<close> is the
  address of the string \<open>APIC\<close>.
\<close>

definition detect_apic :: "u32 \<Rightarrow> 'z apic_state_scheme \<Rightarrow> 'z apic_state_scheme option" where
  "detect_apic edx s = (if drop_bit 9 edx AND 1 = 0 then None else Some s)"

definition apic_initialize ::
    "u32 \<Rightarrow> u64 \<Rightarrow> u64 \<Rightarrow> 'z apic_state_scheme \<Rightarrow> 'z apic_state_scheme option" where
  "apic_initialize edx acpi_rsdp sig s = do {
     madt \<leftarrow> acpi_get_table (heap_bytes s) acpi_rsdp sig 0;
     s \<leftarrow> detect_apic edx (pic_disable s);
     if madt = 0 then None
     else do {
       s \<leftarrow> configure_local_apic madt s;
       configure_io_apic madt s } }"

end
