(* ===== verification/Small_States.thy ===== *)
theory Small_States
  imports Apic Heap_Props
begin

text \<open>
  Concrete machine states on which the witnesses of the driver theories run: the small heap of
  \<open>Heap_Props\<close>, an empty descriptor table, a device behaviour \<open>env\<close> and, for the interrupt
  controllers, one I/O controller at \<open>0xffff8000fec00000\<close>.
\<close>

definition small_idt :: idt_state where
  "small_idt = \<lparr>idt = (\<lambda>_. \<lparr>id_base_low = 0, id_cs = 0, id_ist = 0, id_attributes = 0, id_base_mid = 0,
     id_base_high = 0, id_rsv0 = 0\<rparr>), vectors = (\<lambda>_. False), routine_handlers = (\<lambda>_. 0)\<rparr>"

definition small_machine :: "(nat \<Rightarrow> u64) \<Rightarrow> machine_state" where
  "small_machine env = heap_state.extend small_heap
     \<lparr>io_env = env, io_log = [], msr = (\<lambda>_. 0), idt_tab = small_idt\<rparr>"

lemma small_machine_sel [simp]:
  "io_env (small_machine env) = env" "io_log (small_machine env) = []"
  "msr (small_machine env) = (\<lambda>_. 0)" "idt_tab (small_machine env) = small_idt"
  by (simp_all add: small_machine_def heap_state.defs)

definition small_apic :: "(nat \<Rightarrow> u64) \<Rightarrow> apic_state" where
  "small_apic env = machine_state.extend (small_machine env)
     \<lparr>ioapics = 0x10020,
      ioapic_nodes = (\<lambda>_. \<lparr>ioc_base = 0xffff8000fec00000, ioc_id = 0, ioc_next = 0\<rparr>),
      gsi_map = of_nat, apic_virtual_base = 0xffff8000fee00000\<rparr>"

lemma small_apic_sel [simp]:
  "io_env (small_apic env) = env" "io_log (small_apic env) = []"
  "idt_tab (small_apic env) = small_idt" "msr (small_apic env) = (\<lambda>_. 0)"
  "ioapics (small_apic env) = 0x10020"
  "ioapic_nodes (small_apic env) = (\<lambda>_. \<lparr>ioc_base = 0xffff8000fec00000, ioc_id = 0, ioc_next = 0\<rparr>)"
  "gsi_map (small_apic env) = of_nat" "apic_virtual_base (small_apic env) = 0xffff8000fee00000"
  by (simp_all add: small_apic_def machine_state.defs)

lemma small_apic_base: "apic_io_get_base 0 (small_apic env) = Some 0xffff8000fec00000"
  by (simp add: apic_io_get_base_def apic_io_find.simps)

end
