(* ===== verification/Apic_Props.thy ===== *)
theory Apic_Props
  imports Small_States
begin

text \<open>
  What the drivers of the interrupt controllers achieve, for devices that keep what is written to
  them: the interpretations \<open>ports\<close> and \<open>window\<close> of \<open>register_file\<close> turn every read-modify-write of
  the code into an update of the register file.
\<close>

section \<open>Masking all lines of the 8259 controllers\<close>

definition mask_line :: "u8 \<Rightarrow> (u16 \<Rightarrow> u8) \<Rightarrow> (u16 \<Rightarrow> u8)" where
  "mask_line irq f = (let (port, i) = pic_line irq in f(port := f port OR pic_bit i))"

lemma pic_mask_irq_regs:
  assumes "device_run port_step f0 (io_log (pic_mask_irq irq s)) = Some f"
  shows "\<exists>g. device_run port_step f0 (io_log s) = Some g \<and> f = mask_line irq g"
proof -
  obtain port i where p: "pic_line irq = (port, i)" by force
  obtain v s' where r: "inb port s = (v, s')" by force
  have "device_run port_step f0 (io_log (outb port (v OR pic_bit i) s')) = Some f"
    using assms by (simp add: pic_mask_irq_def p r)
  from ports.rmw [where g = "\<lambda>v. v OR pic_bit i", OF r this]
  show ?thesis by (simp add: p mask_line_def)
qed

lemma pic_mask_irqs_regs:
  "device_run port_step f0 (io_log (fold (\<lambda>irq. pic_mask_irq (of_nat irq)) ns s)) = Some f \<Longrightarrow>
   \<exists>g. f = fold (\<lambda>n. mask_line (of_nat n)) ns g"
proof (induction ns arbitrary: f rule: rev_induct)
  case (snoc n ns)
  from snoc.prems have "device_run port_step f0
      (io_log (pic_mask_irq (of_nat n) (fold (\<lambda>irq. pic_mask_irq (of_nat irq)) ns s))) = Some f"
    by simp
  from pic_mask_irq_regs [OF this] obtain g
    where "device_run port_step f0 (io_log (fold (\<lambda>irq. pic_mask_irq (of_nat irq)) ns s)) = Some g"
      and "f = mask_line (of_nat n) g" by blast
  with snoc.IH [of g] show ?case by auto
qed auto

lemma or_bits: "x OR 1 OR 2 OR 4 OR 8 OR 16 OR 32 OR 64 OR 128 = (0xFF :: u8)"
proof -
  have "1 OR 2 OR 4 OR 8 OR 16 OR 32 OR 64 OR 128 = (- 1 :: u8)" by simp
  then have "x OR 1 OR 2 OR 4 OR 8 OR 16 OR 32 OR 64 OR 128 = x OR (- 1)"
    by (metis or.assoc)
  then show ?thesis by simp
qed

lemma mask_all_lines:
  "fold (\<lambda>n. mask_line (of_nat n)) [0..<16] f PIC_MASTER_DATA = 0xFF"
  "fold (\<lambda>n. mask_line (of_nat n)) [0..<16] f PIC_SLAVE_DATA = 0xFF"
proof -
  have upt: "[0..<16] = [0, 1, 2, 3, 4, 5, 6, 7, 8, 9, 10, 11, 12, 13, 14, 15 :: nat]"
    by (simp add: upt_conv_Cons)
  show "fold (\<lambda>n. mask_line (of_nat n)) [0..<16] f PIC_MASTER_DATA = 0xFF"
    "fold (\<lambda>n. mask_line (of_nat n)) [0..<16] f PIC_SLAVE_DATA = 0xFF"
    using or_bits [of "f PIC_MASTER_DATA"] or_bits [of "f PIC_SLAVE_DATA"]
    unfolding upt by (simp_all add: mask_line_def pic_line_def pic_bit_def or.assoc)
qed

text \<open>
  After \<open>pic_disable\<close> every line of both 8259 controllers is masked: whatever the controllers
  held before, if their data ports give back the byte written last, that byte is 0xFF in both.
\<close>

theorem pic_disable_masks_all:
  assumes "device_run port_step f0 (io_log (pic_disable s)) = Some f"
  shows "f PIC_MASTER_DATA = 0xFF \<and> f PIC_SLAVE_DATA = 0xFF"
  using pic_mask_irqs_regs [of f0 "[0..<16]" "pic_remap_offsets 0x20 s" f] assms mask_all_lines
  by (auto simp: pic_disable_def)

text \<open>Controllers that hold 0 at first: the reads during the masking see the growing masks.\<close>

lemma pic_disable_masks_all_witness:
  "\<exists>f. device_run port_step (\<lambda>_. 0) (io_log (pic_disable (small_machine
     (\<lambda>n. if n < 12 then 0 else 2 ^ ((n - 12) div 2 mod 8) - 1)))) = Some f \<and> f PIC_SLAVE_DATA = 0xFF"
proof -
  let ?s = "small_machine (\<lambda>n. if n < 12 then 0 else 2 ^ ((n - 12) div 2 mod 8) - 1)"
  have upt: "[0..<16] = [0, 1, 2, 3, 4, 5, 6, 7, 8, 9, 10, 11, 12, 13, 14, 15 :: nat]"
    by (simp add: upt_conv_Cons)
  have "\<exists>f. device_run port_step (\<lambda>_. 0) (io_log (pic_disable ?s)) = Some f"
    unfolding pic_disable_def upt
    by (simp add: pic_mask_irq_def pic_remap_offsets_def pic_line_def pic_bit_def inb_def outb_def
        io_next_def Let_def port_step_def)
  then obtain f where f: "device_run port_step (\<lambda>_. 0) (io_log (pic_disable ?s)) = Some f" by blast
  from pic_disable_masks_all [OF f] show ?thesis using f by blast
qed

section \<open>The redirection table of the I/O controller\<close>

lemma apic_io_find_imp:
  assumes ret: "apic_io_find p i s = Some b" and "ioapic_nodes s' = ioapic_nodes s"
  shows "apic_io_find p i s' = Some b"
proof -
  have "ioapic_nodes s' = ioapic_nodes s \<longrightarrow> apic_io_find p i s' = Some b"
  proof (rule apic_io_find.raw_induct [where P = "\<lambda>p i s b. ioapic_nodes s' = ioapic_nodes s \<longrightarrow>
      apic_io_find p i s' = Some b", OF _ ret])
    fix find :: "u64 \<Rightarrow> u64 \<Rightarrow> 'a apic_state_scheme \<Rightarrow> u64 option" and p i s b
    assume "\<And>p i s b. find p i s = Some b \<Longrightarrow>
        ioapic_nodes s' = ioapic_nodes s \<longrightarrow> apic_io_find p i s' = Some b"
      and "(if p = 0 then Some 0
        else if ioc_id (ioapic_nodes s p) = i then Some (ioc_base (ioapic_nodes s p))
        else find (ioc_next (ioapic_nodes s p)) i s) = Some b"
    then show "ioapic_nodes s' = ioapic_nodes s \<longrightarrow> apic_io_find p i s' = Some b"
      by (subst apic_io_find.simps) (auto split: if_splits)
  qed
  then show ?thesis using assms(2) by simp
qed

lemma apic_io_get_base_emit [simp]:
  "apic_io_get_base i (io_emit e s) = apic_io_get_base i s"
proof -
  have same: "ioapic_nodes (io_emit e s) = ioapic_nodes s" "ioapics (io_emit e s) = ioapics s"
    by (simp_all add: io_emit_def)
  have "apic_io_get_base i (io_emit e s) = Some b \<longleftrightarrow> apic_io_get_base i s = Some b" for b
    using apic_io_find_imp [of "ioapics s" i "io_emit e s" b s]
      apic_io_find_imp [of "ioapics s" i s b "io_emit e s"] same
    by (auto simp: apic_io_get_base_def)
  then show ?thesis by (metis option.exhaust)
qed

lemma apic_io_access:
  assumes "apic_io_get_base i s = Some base" and "base \<noteq> 0"
  shows "apic_io_write i r v s = Some (window_write base r v s)"
    and "apic_io_read i r s = Some (window_read base r s)"
    and "apic_io_get_base i (window_write base r v s) = Some base"
    and "apic_io_get_base i (snd (window_read base r s)) = Some base"
  using assms
  by (simp_all add: apic_io_write_def apic_io_read_def window_write_def window_read_def
      mmio_write_def mmio_read_def Let_def)

lemma bit_fields:
  "bit (ucast (v :: u8) OR push_bit i (of_bool a) OR push_bit j (of_bool l) OR push_bit k 1 :: u32) n \<longleftrightarrow>
     n < 8 \<and> bit v n \<or> n < 32 \<and> (n = i \<and> a \<or> n = j \<and> l \<or> n = k)"
  using bit_imp_le_length [of v n] by (auto simp: bit_simps)

lemma bit_redirect_word:
  "bit (redirect_word v a l) n \<longleftrightarrow> n < 8 \<and> bit v n \<or> n = 13 \<and> a \<or> n = 15 \<and> l \<or> n = 16"
  unfolding redirect_word_def bit_fields by auto

lemma and_single_bit: "w AND push_bit n 1 \<noteq> 0 \<longleftrightarrow> bit w n" for w :: u32
  by (simp add: and_exp_eq_0_iff_not_bit push_bit_eq_mult)

lemma redirect_decode_bits:
  "redirect_decode irq w =
     \<lparr>rd_irq = irq, rd_vector = ucast w, rd_active_low = bit w 13, rd_level_triggered = bit w 15,
      rd_masked = bit w 16\<rparr>"
proof -
  have "ucast (w AND mask k) = (ucast w :: u8)" if "k = 8" for k
    using that by (auto intro!: bit_word_eqI simp: bit_simps)
  from this [of 8] have "ucast (w AND 0xFF) = (ucast w :: u8)" by (simp add: mask_eq_exp_minus_1)
  then show ?thesis unfolding redirect_decode_def and_single_bit by simp
qed

lemma redirect_decode_word:
  "redirect_decode irq (redirect_word v a l) =
     \<lparr>rd_irq = irq, rd_vector = v, rd_active_low = a, rd_level_triggered = l, rd_masked = True\<rparr>"
  "redirect_decode irq (redirect_word v a l AND NOT 0x10000) =
     \<lparr>rd_irq = irq, rd_vector = v, rd_active_low = a, rd_level_triggered = l, rd_masked = False\<rparr>"
proof -
  have m: "bit (w AND - 65537) n \<longleftrightarrow> bit w n \<and> n \<noteq> 16" for w :: u32 and n
  proof -
    have "bit (w AND NOT (push_bit k 1)) n \<longleftrightarrow> bit w n \<and> n \<noteq> k" for k
      using bit_imp_le_length [of w n] by (auto simp: bit_simps)
    from this [of 16] show ?thesis by simp
  qed
  show "redirect_decode irq (redirect_word v a l) =
     \<lparr>rd_irq = irq, rd_vector = v, rd_active_low = a, rd_level_triggered = l, rd_masked = True\<rparr>"
    "redirect_decode irq (redirect_word v a l AND NOT 0x10000) =
     \<lparr>rd_irq = irq, rd_vector = v, rd_active_low = a, rd_level_triggered = l, rd_masked = False\<rparr>"
    by (auto simp: redirect_decode_bits m bit_redirect_word bit_ucast_iff intro!: bit_word_eqI)
qed

text \<open>
  An interrupt line that is redirected and then unmasked delivers the vector with the polarity and
  trigger mode that were asked for: reading the line back gives exactly these and says that it is
  not masked, if the controller keeps its registers. Without the unmasking it is masked.
\<close>

theorem ioapic_redirect_unmask:
  assumes "apic_io_get_base 0 s = Some base" and "base \<noteq> 0"
    and "apic_io_redirect_irq irq v a l s = Some s1" and "apic_io_unmask_irq irq s1 = Some s2"
    and "apic_io_get_redirect irq s2 = Some (r, s3)"
    and "device_run (window_step base) d0 (io_log s3) = Some d"
  shows "r = \<lparr>rd_irq = irq, rd_vector = v, rd_active_low = a, rd_level_triggered = l, rd_masked = False\<rparr>"
proof -
  let ?reg = "IOAPIC_REGISTER_REDIRECTION irq"
  let ?regs = "\<lambda>s. map_option snd (device_run (window_step base) d0 (io_log s))"
  note ok = apic_io_access [OF assms(1,2)]
  define t where "t = window_write base (?reg + 1) 0 s"
  have t: "apic_io_get_base 0 t = Some base" using ok(3) by (simp add: t_def)
  have s1: "s1 = window_write base ?reg (redirect_word v a l) t"
    using assms(3) apic_io_access(1) [OF t assms(2)] ok(1) by (simp add: apic_io_redirect_irq_def t_def)
  note ok1 = apic_io_access [OF apic_io_access(3) [OF t assms(2)] assms(2), folded s1]
  obtain e s1' where e: "window_read base ?reg s1 = (e, s1')" by force
  have b1: "apic_io_get_base 0 s1' = Some base"
    using apic_io_access(4) [OF apic_io_access(3) [OF t assms(2)] assms(2), of ?reg] e s1 by (metis snd_conv)
  have s2: "s2 = window_write base ?reg (e AND NOT 0x10000) s1'"
    using assms(4) ok1(2) [of ?reg] apic_io_access(1) [OF b1 assms(2)] e
    by (simp add: apic_io_unmask_irq_def s1)
  obtain x where x: "window_read base ?reg s2 = (x, s3)" and r: "r = redirect_decode irq x"
    using assms(5) apic_io_access(2) [OF apic_io_access(3) [OF b1 assms(2)] assms(2)] s2
    by (auto simp: apic_io_get_redirect_def split: prod.splits)
  have "?regs s3 = Some (snd d)" using assms(6) by simp
  note f = window.rd_value [OF x this]
  from f(1) have "?regs s2 = Some (snd d)" .
  then obtain g where g: "?regs s1 = Some g" "snd d = g(?reg := g ?reg AND NOT 0x10000)"
    using window.rmw [where g = "\<lambda>w. w AND NOT 0x10000", OF e] unfolding s2 by blast
  have "g ?reg = redirect_word v a l" using g(1) unfolding s1 window.regs_wr by auto
  then show ?thesis using r f(2) g(2) redirect_decode_word(2) by simp
qed

lemma ioapic_redirect_unmask_witness:
  "\<exists>s1 s2 r s3. apic_io_redirect_irq 1 0x21 True False (small_apic (\<lambda>n. if n = 5 then 0x12021 else 0x2021)) =
     Some s1 \<and> apic_io_unmask_irq 1 s1 = Some s2 \<and> apic_io_get_redirect 1 s2 = Some (r, s3) \<and>
     rd_vector r = 0x21 \<and> rd_active_low r \<and> \<not> rd_masked r"
proof -
  let ?s = "small_apic (\<lambda>n. if n = 5 then 0x12021 else 0x2021)"
  have "\<exists>s1 s2 r s3 d. apic_io_redirect_irq 1 0x21 True False ?s = Some s1 \<and>
      apic_io_unmask_irq 1 s1 = Some s2 \<and> apic_io_get_redirect 1 s2 = Some (r, s3) \<and>
      device_run (window_step 0xffff8000fec00000) (0, \<lambda>_. 0) (io_log s3) = Some d"
    by (simp add: apic_io_redirect_irq_def apic_io_unmask_irq_def apic_io_get_redirect_def
        apic_io_write_def apic_io_read_def small_apic_base mmio_write_def mmio_read_def Let_def
        io_next_def window_step_def redirect_word_def IOAPIC_REGISTER_REDIRECTION_def)
  then obtain s1 s2 r s3 d where run: "apic_io_redirect_irq 1 0x21 True False ?s = Some s1"
      "apic_io_unmask_irq 1 s1 = Some s2" "apic_io_get_redirect 1 s2 = Some (r, s3)"
      "device_run (window_step 0xffff8000fec00000) (0, \<lambda>_. 0) (io_log s3) = Some d" by blast
  from ioapic_redirect_unmask [OF small_apic_base _ run] show ?thesis using run by auto
qed

text \<open>
  The local controller and the I/O controller use the same bit positions for polarity and trigger
  mode, but the entry that \<open>configure_local_apic\<close> builds for a non-maskable interrupt has the two
  flags the other way round than the entries of \<open>apic_io_redirect_irq\<close>.
\<close>

theorem nmi_entry_swaps_flags:
  "rd_active_low (redirect_decode irq (nmi_entry flags)) = (flags AND LEVEL_TRIGGERED \<noteq> 0) \<and>
   rd_level_triggered (redirect_decode irq (nmi_entry flags)) = (flags AND ACTIVE_LOW \<noteq> 0) \<and>
   rd_active_low (redirect_decode irq (redirect_word v (flags AND ACTIVE_LOW \<noteq> 0)
     (flags AND LEVEL_TRIGGERED \<noteq> 0))) = (flags AND ACTIVE_LOW \<noteq> 0)"
proof -
  have "bit (push_bit 8 (0x04 AND 0x07) OR push_bit 13 (of_bool p) OR push_bit 15 (of_bool q) :: u32) n =
      (n = 10 \<or> n = 13 \<and> p \<or> n = 15 \<and> q)" if "n < 32" for n p q
  proof -
    have "bit (push_bit k 1 OR push_bit i (of_bool p) OR push_bit j (of_bool q) :: u32) n =
      (n = k \<or> n = i \<and> p \<or> n = j \<and> q)" for i j k
      using that by (auto simp: bit_simps)
    from this [of 10 13 15] show ?thesis by simp
  qed
  then show ?thesis
    unfolding redirect_decode_word redirect_decode_bits nmi_entry_def by (simp add: bit_redirect_word)
qed

end
