(* ===== verification/Pools.thy ===== *)
theory Pools
  imports Apic
begin

text \<open>
  Runs of contiguous pages: the pool functions of \<open>kernel/src/mem/pmm/pfa.c\<close>. The list of pools lives
  in heap blocks; a pool is a store from its address to its fields, \<open>None\<close> is the use of NULL.
\<close>

record pmm_pool =
  pool_next :: u64
  pool_pages :: u64
  pool_base :: u64

abbreviation sizeof_pmm_pool :: u64 where "sizeof_pmm_pool \<equiv> 24"

record pool_state = apic_state +
  pmm_pools :: u64
  pools :: "u64 \<Rightarrow> pmm_pool"

definition pool_put :: "(pmm_pool \<Rightarrow> pmm_pool) \<Rightarrow> u64 \<Rightarrow> 'z pool_state_scheme \<Rightarrow>
    'z pool_state_scheme option" where
  "pool_put f p s = (if p = 0 then None else Some (s\<lparr>pools := (pools s)(p := f (pools s p))\<rparr>))"

section \<open>Clearing memory under typed stores\<close>

text \<open>
  \<open>memset\<close> with 0 over memory that holds segment headers, pools and bytes: a field is cleared when
  its bytes lie in the area (the area and the fields are aligned to eight bytes).
\<close>

definition in_area :: "u64 \<Rightarrow> u64 \<Rightarrow> u64 \<Rightarrow> bool" where
  "in_area dest n a \<longleftrightarrow> a - dest < n"

definition clear_header :: "u64 \<Rightarrow> u64 \<Rightarrow> u64 \<Rightarrow> heap_seg_header \<Rightarrow> heap_seg_header" where
  "clear_header dest n a h =
     \<lparr>seg_length = (if in_area dest n a then 0 else seg_length h),
      seg_next = (if in_area dest n (a + 8) then 0 else seg_next h),
      seg_last = (if in_area dest n (a + 16) then 0 else seg_last h),
      seg_free = (\<not> in_area dest n (a + 24) \<and> seg_free h)\<rparr>"

definition clear_pool :: "u64 \<Rightarrow> u64 \<Rightarrow> u64 \<Rightarrow> pmm_pool \<Rightarrow> pmm_pool" where
  "clear_pool dest n a p =
     \<lparr>pool_next = (if in_area dest n a then 0 else pool_next p),
      pool_pages = (if in_area dest n (a + 8) then 0 else pool_pages p),
      pool_base = (if in_area dest n (a + 16) then 0 else pool_base p)\<rparr>"

definition clear_heap_area :: "u64 \<Rightarrow> u64 \<Rightarrow> 'z pool_state_scheme \<Rightarrow> 'z pool_state_scheme" where
  "clear_heap_area dest n s =
     s\<lparr>headers := (\<lambda>a. clear_header dest n a (headers s a)),
       pools := (\<lambda>a. clear_pool dest n a (pools s a)),
       heap_bytes := memset (heap_bytes s) dest 0 n\<rparr>"

section \<open>Allocating a pool\<close>

partial_function (option) pool_last :: "u64 \<Rightarrow> 'z pool_state_scheme \<Rightarrow> u64 option" where
  "pool_last p s =
     (if p = 0 then None
      else if pool_next (pools s p) = 0 then Some p
      else pool_last (pool_next (pools s p)) s)"

text \<open>The record of the new pool. The first one is cleared with the size of a page, not its own.\<close>

definition pool_new_record :: "'z pool_state_scheme \<Rightarrow> (u64 \<times> 'z pool_state_scheme) option" where
  "pool_new_record s =
     (if pmm_pools s = 0
      then do {
        (p, s) \<leftarrow> heap_malloc sizeof_pmm_pool s;
        if p = 0 then None
        else do {
          let s = clear_heap_area p PAGING_PAGE_SIZE (s\<lparr>pmm_pools := p\<rparr>);
          s \<leftarrow> pool_put (pool_next_update (\<lambda>_. 0)) p s;
          Some (p, s) } }
      else do {
        tail \<leftarrow> pool_last (pmm_pools s) s;
        (p, s) \<leftarrow> heap_malloc sizeof_pmm_pool s;
        s \<leftarrow> pool_put (pool_next_update (\<lambda>_. p)) tail s;
        s \<leftarrow> pool_put (pool_next_update (\<lambda>_. 0)) p s;
        Some (p, s) })"

text \<open>The first free section that is large enough.\<close>

partial_function (option) find_free_section ::
    "nat option \<Rightarrow> u64 \<Rightarrow> 'z pmm_state_scheme \<Rightarrow> nat option option" where
  "find_free_section section page_count s =
     (if section = None then Some None
      else do {
        pages \<leftarrow> ld sec_pages section s;
        free \<leftarrow> ld sec_free section s;
        if pages \<ge> page_count \<and> free = PMM_SECTION_FREE then Some section
        else do {
          nx \<leftarrow> ld sec_next section s;
          find_free_section nx page_count s } })"

definition pmm_alloc_pool :: "u64 \<Rightarrow> 'z pool_state_scheme \<Rightarrow> (u64 \<times> 'z pool_state_scheme) option" where
  "pmm_alloc_pool page_count s =
     (if \<not> pfa_allowing_allocations s then Some (0, s)
      else do {
        (selected, s) \<leftarrow> pool_new_record s;
        s \<leftarrow> pool_put (pool_pages_update (\<lambda>_. page_count)) selected s;
        section \<leftarrow> find_free_section (pmm_sections s) page_count s;
        if section \<noteq> None
        then do {
          start \<leftarrow> ld sec_start section s;
          s \<leftarrow> pool_put (pool_base_update (\<lambda>_. start)) selected s;
          s \<leftarrow> pmm_lock_pages start (pool_pages (pools s selected)) s;
          Some (start, s) }
        else do {
          s \<leftarrow> pmm_recombine s;
          Some (0, s) } })"

section \<open>Releasing and moving a pool\<close>

text \<open>The end of a pool counts as inside: \<open>base + pages * PAGING_PAGE_SIZE >= pool\<close>.\<close>

partial_function (option) pool_containing ::
    "u64 \<Rightarrow> u64 \<Rightarrow> 'z pool_state_scheme \<Rightarrow> u64 option" where
  "pool_containing pooli pool s =
     (if pooli = 0 then Some 0
      else if pool_base (pools s pooli) \<le> pool \<and>
        pool_base (pools s pooli) + pool_pages (pools s pooli) * PAGING_PAGE_SIZE \<ge> pool
      then Some pooli
      else pool_containing (pool_next (pools s pooli)) pool s)"

definition pmm_free_pool :: "u64 \<Rightarrow> 'z pool_state_scheme \<Rightarrow> 'z pool_state_scheme option" where
  "pmm_free_pool pool s =
     (if \<not> pfa_allowing_allocations s \<or> pmm_pools s = 0 \<or> pool = 0 then Some s
      else do {
        pooli \<leftarrow> pool_containing (pmm_pools s) pool s;
        if pooli \<noteq> 0
        then pmm_unlock_pages (pool_base (pools s pooli)) (pool_pages (pools s pooli)) s
        else pmm_recombine s })"

text \<open>
  Moving a pool: the new area is locked, the old contents are copied and cleared, the old area is
  unlocked; the pool then claims all pages of the section it was moved to. The search goes on with
  the next pool when no section is large enough.
\<close>

definition pool_move ::
    "u64 \<Rightarrow> nat option \<Rightarrow> u64 \<Rightarrow> 'z pool_state_scheme \<Rightarrow> (u64 \<times> 'z pool_state_scheme) option" where
  "pool_move pooli section page_count s = do {
     sec_start \<leftarrow> ld sec_start section s;
     sec_pages \<leftarrow> ld sec_pages section s;
     s \<leftarrow> pmm_lock_pages sec_start page_count s;
     let size = pool_pages (pools s pooli) * PAGING_PAGE_SIZE;
     let old = pool_base (pools s pooli);
     let s = s\<lparr>heap_bytes := memset (memcpy (heap_bytes s) sec_start old size) old 0 size\<rparr>;
     s \<leftarrow> pmm_unlock_pages old (pool_pages (pools s pooli)) s;
     s \<leftarrow> pool_put (pool_base_update (\<lambda>_. sec_start)) pooli s;
     s \<leftarrow> pool_put (pool_pages_update (\<lambda>_. sec_pages)) pooli s;
     Some (sec_start, s) }"

partial_function (option) pool_realloc_scan ::
    "u64 \<Rightarrow> u64 \<Rightarrow> u64 \<Rightarrow> 'z pool_state_scheme \<Rightarrow>
      ((u64 \<times> 'z pool_state_scheme) + 'z pool_state_scheme) option" where
  "pool_realloc_scan pooli pool page_count s =
     (if pooli = 0 then Some (Inr s)
      else if pool_base (pools s pooli) = pool
      then do {
        section \<leftarrow> find_free_section (pmm_sections s) page_count s;
        if section \<noteq> None
        then do { r \<leftarrow> pool_move pooli section page_count s; Some (Inl r) }
        else pool_realloc_scan (pool_next (pools s pooli)) pool page_count s }
      else pool_realloc_scan (pool_next (pools s pooli)) pool page_count s)"

definition pmm_realloc_pool ::
    "u64 \<Rightarrow> u64 \<Rightarrow> 'z pool_state_scheme \<Rightarrow> (u64 \<times> 'z pool_state_scheme) option" where
  "pmm_realloc_pool pool page_count s =
     (if \<not> pfa_allowing_allocations s \<or> pmm_pools s = 0 \<or> pool = 0 then Some (0, s)
      else do {
        r \<leftarrow> pool_realloc_scan (pmm_pools s) pool page_count s;
        case r of
          Inl found \<Rightarrow> Some found
        | Inr s \<Rightarrow> do { s \<leftarrow> pmm_recombine s; Some (pool, s) } })"

end
