(* ===== verification/Tss.thy ===== *)
theory Tss
  imports Pools
begin

text \<open>
  The task state segment of the one processor: \<open>kernel/src/cpu/tss/tss.c\<close>. Its interrupt stacks are
  pools of pages. \<open>tss_addr\<close> is the address of the array \<open>tss_descriptors\<close>, a parameter.
\<close>

abbreviation IST_STACK_PAGES :: u64 where "IST_STACK_PAGES \<equiv> 32"
abbreviation sizeof_tss :: u16 where "sizeof_tss \<equiv> 104"

record tss =
  tss_rsp :: "nat \<Rightarrow> u64"
  tss_ist :: "nat \<Rightarrow> u64"
  tss_io_map :: u16

record tss_state = pool_state +
  tss_descriptor :: tss
  ist_index :: u8
  gdt_tab :: gdt_state

text \<open>1 when all seven stacks exist, otherwise the number of stacks.\<close>

definition tss_add_stack :: "'z tss_state_scheme \<Rightarrow> (u8 \<times> 'z tss_state_scheme) option" where
  "tss_add_stack s =
     (if ist_index s \<ge> 7 then Some (1, s)
      else do {
        (stack, s) \<leftarrow> pmm_alloc_pool IST_STACK_PAGES s;
        let t = tss_descriptor s;
        let s = s\<lparr>tss_descriptor := t\<lparr>tss_ist := (tss_ist t)(unat (ist_index s) :=
                     stack + PAGING_PAGE_SIZE * IST_STACK_PAGES)\<rparr>,
                  ist_index := ist_index s + 1\<rparr>;
        Some (ist_index s, s) })"

definition tss_get_num_stacks :: "'z tss_state_scheme \<Rightarrow> u8" where
  "tss_get_num_stacks s = ist_index s - 1"

text \<open>The result is the selector that \<open>tss_reload\<close> loads.\<close>

definition tss_install :: "u64 \<Rightarrow> 'z tss_state_scheme \<Rightarrow> (u16 \<times> 'z tss_state_scheme) option" where
  "tss_install tss_addr s = do {
     let s = s\<lparr>tss_descriptor := \<lparr>tss_rsp = (\<lambda>_. 0), tss_ist = (\<lambda>_. 0), tss_io_map = 0\<rparr>\<rparr>;
     (_, s) \<leftarrow> tss_add_stack s;
     (_, s) \<leftarrow> tss_add_stack s;
     (_, s) \<leftarrow> tss_add_stack s;
     let t = tss_descriptor s;
     let t = t\<lparr>tss_rsp := (tss_rsp t)(0 := tss_ist t 0)\<rparr>;
     let s = s\<lparr>tss_descriptor := t\<lparr>tss_io_map := sizeof_tss\<rparr>\<rparr>;
     let (selector, g) = gdt_install_tss tss_addr (gdt_tab s);
     Some (selector, s\<lparr>gdt_tab := g\<rparr>) }"

definition tss_get_stack :: "u8 \<Rightarrow> 'z tss_state_scheme \<Rightarrow> u64" where
  "tss_get_stack stack s = tss_ist (tss_descriptor s) (unat stack)"

end
