(* ===== verification/Elf.thy ===== *)
theory Elf
  imports Tss
begin

text \<open>
  The program loader, \<open>kernel/src/proc/loader/elf.c\<close> with the packed structures of \<open>elf.h\<close>. The file
  and the program are bytes of memory. The table of loaded segments is a list; its page of 4096
  bytes, at \<open>seg_table\<close>, holds 170 entries and the code does not check the number. None of the three
  allocations is checked: a write through the NULL pointer that a failed one returns is a fault, \<open>None\<close>.
  \<open>magic\<close> is the address of the string constant \<open>ELF_HEADER_MAGIC\<close>.
\<close>

section \<open>Structures\<close>

record elf_program_header =
  ph_type :: u32
  ph_offset :: u64
  ph_vaddr :: u64
  ph_filesz :: u64
  ph_memsz :: u64

record elf_loaded_page =
  loaded_at :: u64
  located_at :: u64
  seg_bytes :: u64

record elf_load_info =
  elf_entry :: u64
  segments :: "elf_loaded_page list"
  seg_table :: u64

abbreviation sizeof_elf_load_info :: u64 where "sizeof_elf_load_info \<equiv> 24"
abbreviation ELF_SEGMENT_LOAD :: u32 where "ELF_SEGMENT_LOAD \<equiv> 0x01"
abbreviation ELF_ARCH_x86_64 :: u16 where "ELF_ARCH_x86_64 \<equiv> 0x3E"
abbreviation ELF_ABI_SYSTEMV :: u8 where "ELF_ABI_SYSTEMV \<equiv> 0x00"
abbreviation ELF_ENDIANNESS_LITTLE :: u8 where "ELF_ENDIANNESS_LITTLE \<equiv> 0x01"
abbreviation ELF_BITNESS_64 :: u8 where "ELF_BITNESS_64 \<equiv> 0x02"

definition read_program_header :: "mem \<Rightarrow> u64 \<Rightarrow> elf_program_header" where
  "read_program_header m p =
     \<lparr>ph_type = read_u32 m p, ph_offset = read_u64 m (p + 8), ph_vaddr = read_u64 m (p + 16),
      ph_filesz = read_u64 m (p + 32), ph_memsz = read_u64 m (p + 40)\<rparr>"

section \<open>Loading one segment\<close>

definition elf_is_page_mapped :: "elf_loaded_page list \<Rightarrow> u64 \<Rightarrow> bool" where
  "elf_is_page_mapped segs p_vaddr =
     list_ex (\<lambda>g. loaded_at g \<le> p_vaddr \<and> loaded_at g + seg_bytes g > p_vaddr) segs"

text \<open>
  Data for pages that are already loaded is copied to the virtual address, page by page. When the
  file has no more data the step is 0 and the loop does not end. \<open>Inl\<close>: the whole segment is done.
\<close>

partial_function (option) elf_copy_mapped ::
    "elf_loaded_page list \<Rightarrow> u64 \<Rightarrow> elf_program_header \<Rightarrow> mem \<Rightarrow>
      (mem + (elf_program_header \<times> mem)) option" where
  "elf_copy_mapped segs file h m =
     (if \<not> elf_is_page_mapped segs (ph_vaddr h) then Some (Inr (h, m))
      else
        let page_offset = ph_vaddr h mod PAGING_PAGE_SIZE;
            n = PAGING_PAGE_SIZE - page_offset;
            n = (if n > ph_filesz h then ph_filesz h else n);
            m = memcpy m (ph_vaddr h) (file + ph_offset h) n;
            h = h\<lparr>ph_vaddr := ph_vaddr h + n, ph_offset := ph_offset h + n,
                  ph_filesz := ph_filesz h - n, ph_memsz := ph_memsz h - n\<rparr>
        in if ph_memsz h = 0 then Some (Inl m) else elf_copy_mapped segs file h m)"

definition elf_required_pages :: "elf_program_header \<Rightarrow> u64" where
  "elf_required_pages h =
     (let n = ph_memsz h div PAGING_PAGE_SIZE + (if ph_memsz h mod PAGING_PAGE_SIZE = 0 then 0 else 1)
      in if ph_vaddr h mod PAGING_PAGE_SIZE \<noteq> 0 then n + 1 else n)"

definition elf_load_segment ::
    "u64 \<Rightarrow> elf_program_header \<Rightarrow> elf_load_info \<Rightarrow> 'z pool_state_scheme \<Rightarrow>
      (bool \<times> elf_load_info \<times> 'z pool_state_scheme) option" where
  "elf_load_segment file header out_info s =
     (if ph_memsz header = 0 then Some (True, out_info, s)
      else do {
        r \<leftarrow> elf_copy_mapped (segments out_info) file header (heap_bytes s);
        case r of
          Inl m \<Rightarrow> Some (True, out_info, s\<lparr>heap_bytes := m\<rparr>)
        | Inr (h, m) \<Rightarrow> do {
            let required_pages = elf_required_pages h;
            (real_location, s) \<leftarrow> pmm_alloc_pool required_pages (s\<lparr>heap_bytes := m\<rparr>);
            let page_offset = ph_vaddr h AND 0xfff;
            let out_info = out_info\<lparr>segments := segments out_info @
                  [\<lparr>loaded_at = ph_vaddr h, located_at = real_location,
                    seg_bytes = required_pages * PAGING_PAGE_SIZE\<rparr>]\<rparr>;
            let m = memset (heap_bytes s) (real_location + page_offset) 0 (ph_memsz h);
            let m = memcpy m (real_location + page_offset) (file + ph_offset h) (ph_filesz h);
            if seg_table out_info = 0 \<or> real_location = 0 then None
            else Some (True, out_info, s\<lparr>heap_bytes := m\<rparr>) } })"

section \<open>Loading a program\<close>

text \<open>The acceptance tests on the file header; NULL is returned when one fails.\<close>

definition elf_header_ok :: "mem \<Rightarrow> u64 \<Rightarrow> u64 \<Rightarrow> bool" where
  "elf_header_ok m file magic \<longleftrightarrow>
     \<not> strncmp m file magic 4 > 0 \<and> read_u16 m (file + 18) = ELF_ARCH_x86_64 \<and>
     \<not> (m (file + 5) \<noteq> ELF_ENDIANNESS_LITTLE \<or> m (file + 4) \<noteq> ELF_BITNESS_64) \<and>
     m (file + 7) = ELF_ABI_SYSTEMV"

text \<open>
  The table is read again for every header, in the state that the segments before it left. With
  an entry size of 0 the size of the table is 0 too, so that the loop ends at once.
\<close>

partial_function (option) elf_load_segments ::
    "u64 \<Rightarrow> u64 \<Rightarrow> u64 \<Rightarrow> u64 \<Rightarrow> u64 \<Rightarrow> elf_load_info \<Rightarrow> 'z pool_state_scheme \<Rightarrow>
      (elf_load_info option \<times> 'z pool_state_scheme) option" where
  "elf_load_segments file table table_size entry_size pheader info s =
     (if pheader - table \<ge> table_size then Some (Some info, s)
      else do {
        let h = read_program_header (heap_bytes s) pheader;
        (ok, info, s) \<leftarrow> (if ph_type h = ELF_SEGMENT_LOAD then elf_load_segment file h info s
                          else Some (True, info, s));
        if \<not> ok then Some (None, s)
        else elf_load_segments file table table_size entry_size (pheader + entry_size) info s })"

text \<open>The product of the two 16-bit fields is computed as an \<open>int\<close>.\<close>

definition elf_table_size :: "mem \<Rightarrow> u64 \<Rightarrow> u64" where
  "elf_table_size m file =
     of_int (sint (ucast (read_u16 m (file + 54)) * ucast (read_u16 m (file + 56)) :: u32))"

definition elf_load_program ::
    "u64 \<Rightarrow> u64 \<Rightarrow> 'z pool_state_scheme \<Rightarrow> (elf_load_info option \<times> 'z pool_state_scheme) option" where
  "elf_load_program magic file s =
     (if \<not> elf_header_ok (heap_bytes s) file magic then Some (None, s)
      else do {
        let table_size = elf_table_size (heap_bytes s) file;
        (load_info, s) \<leftarrow> heap_malloc sizeof_elf_load_info s;
        (load_info, s) \<leftarrow> (if load_info = 0 then None else Some (load_info, s));
        let entry = read_u64 (heap_bytes s) (file + 24);
        (table, s) \<leftarrow> pmm_alloc_page s;
        let header_table = file + read_u64 (heap_bytes s) (file + 32);
        elf_load_segments file header_table table_size
          (ucast (read_u16 (heap_bytes s) (file + 54))) header_table
          \<lparr>elf_entry = entry, segments = [], seg_table = table\<rparr> s })"

end
