(* ===== verification/Task.thy ===== *)
theory Task
  imports Elf
begin

text \<open>
  Tasks and the scheduler, \<open>kernel/src/proc/task/task.c\<close> and \<open>task.h\<close>. Tasks, their contexts, the
  list nodes and the blocks behind the GS register are stores from their addresses to their fields.
  Switching registers and the page-table register is assembly (\<open>task.s\<close>); the address that is
  handed to it is part of the result.
\<close>

section \<open>Data\<close>

datatype task_register = RAX | RBX | RCX | RDX | RDI | RSI | R8 | R9 | R10 | R11 | R12 | R13 | R14 | R15

record task_context =
  registers :: "task_register \<Rightarrow> u64"
  ctx_rsp :: u64
  ctx_rbp :: u64
  ctx_rip :: u64
  ctx_cr3 :: u64

record gs_kernel_base =
  gs_tss :: u64
  gs_pid :: u64
  gs_rsp :: u64
  gs_pc :: u64
  gs_ctx :: u64

record task =
  task_id :: u64
  task_state :: u64
  task_priority :: u64
  task_ctx :: u64
  task_gs_base :: u64

record linked_task =
  lt_task :: u64
  lt_next :: u64

abbreviation TASK_STATE_EXECUTION :: u64 where "TASK_STATE_EXECUTION \<equiv> 0"
abbreviation TASK_STATE_WAITING :: u64 where "TASK_STATE_WAITING \<equiv> 1"
abbreviation TASK_STATE_SLEEPING :: u64 where "TASK_STATE_SLEEPING \<equiv> 2"
abbreviation TASK_STATE_DEAD :: u64 where "TASK_STATE_DEAD \<equiv> 3"

abbreviation sizeof_task :: u64 where "sizeof_task \<equiv> 40"
abbreviation sizeof_task_context :: u64 where "sizeof_task_context \<equiv> 144"
abbreviation sizeof_linked_task :: u64 where "sizeof_linked_task \<equiv> 16"
abbreviation MEGABYTE :: u64 where "MEGABYTE \<equiv> 1024 * 1024"

record sched_state = tss_state +
  tasks :: u64
  task_count :: u64
  current_task_id :: u64
  task_links :: "u64 \<Rightarrow> linked_task"
  task_mem :: "u64 \<Rightarrow> task"
  ctx_mem :: "u64 \<Rightarrow> task_context"
  gs_mem :: "u64 \<Rightarrow> gs_kernel_base"

text \<open>Writing through a pointer; NULL faults.\<close>

definition task_put :: "(task \<Rightarrow> task) \<Rightarrow> u64 \<Rightarrow> 'z sched_state_scheme \<Rightarrow> 'z sched_state_scheme option" where
  "task_put f p s = (if p = 0 then None else Some (s\<lparr>task_mem := (task_mem s)(p := f (task_mem s p))\<rparr>))"

definition ctx_put :: "(task_context \<Rightarrow> task_context) \<Rightarrow> u64 \<Rightarrow> 'z sched_state_scheme \<Rightarrow>
    'z sched_state_scheme option" where
  "ctx_put f p s = (if p = 0 then None else Some (s\<lparr>ctx_mem := (ctx_mem s)(p := f (ctx_mem s p))\<rparr>))"

definition gs_put :: "(gs_kernel_base \<Rightarrow> gs_kernel_base) \<Rightarrow> u64 \<Rightarrow> 'z sched_state_scheme \<Rightarrow>
    'z sched_state_scheme option" where
  "gs_put f p s = (if p = 0 then None else Some (s\<lparr>gs_mem := (gs_mem s)(p := f (gs_mem s p))\<rparr>))"

definition link_put :: "(linked_task \<Rightarrow> linked_task) \<Rightarrow> u64 \<Rightarrow> 'z sched_state_scheme \<Rightarrow>
    'z sched_state_scheme option" where
  "link_put f p s = (if p = 0 then None else Some (s\<lparr>task_links := (task_links s)(p := f (task_links s p))\<rparr>))"

definition scheduler_preconfigure :: "'z sched_state_scheme \<Rightarrow> 'z sched_state_scheme" where
  "scheduler_preconfigure s = s\<lparr>task_count := 0\<rparr>"

section \<open>The page tables of a task\<close>

fun task_map_segments ::
    "elf_loaded_page list \<Rightarrow> 'z sched_state_scheme \<Rightarrow> 'z sched_state_scheme option" where
  "task_map_segments [] s = Some s"
| "task_map_segments (g # gs) s = do {
     s \<leftarrow> for_page_range (\<lambda>j s. paging_map_page ((loaded_at g AND NOT 0xfff) + j) (located_at g + j)
            PAGING_FLAGS_USER_PAGE s) 0 (seg_bytes g) s;
     task_map_segments gs s }"

text \<open>The stack below \<open>ist_addr\<close>, its upper end included: one page more than it has.\<close>

definition task_map_stack :: "u64 \<Rightarrow> 'z sched_state_scheme \<Rightarrow> 'z sched_state_scheme option" where
  "task_map_stack ist_addr s =
     for_page_range (\<lambda>offset s. paging_map_page (ist_addr - offset) (ist_addr - offset)
       PAGING_FLAGS_KERNEL_PAGE s) 0 (PAGING_PAGE_SIZE * IST_STACK_PAGES + 1) s"

fun task_map_ists :: "u64 list \<Rightarrow> 'z sched_state_scheme \<Rightarrow> 'z sched_state_scheme option" where
  "task_map_ists [] s = Some s"
| "task_map_ists (a # as) s =
     (if a = 0 then Some s else do { s \<leftarrow> task_map_stack a s; task_map_ists as s })"

text \<open>
  \<open>kernel_phys\<close> and \<open>virtual_offset\<close> are what the boot protocol reports, \<open>load_max\<close> is the address of
  the linker's symbol. The walk for the page of the context is done in the new tables.
\<close>

definition task_new_page_table ::
    "u64 \<Rightarrow> u64 \<Rightarrow> u64 \<Rightarrow> elf_load_info \<Rightarrow> u64 \<Rightarrow> 'z sched_state_scheme \<Rightarrow>
      (u64 \<times> 'z sched_state_scheme) option" where
  "task_new_page_table kernel_phys virtual_offset load_max load_info tsk s = do {
     (task_table, s) \<leftarrow> pmm_alloc_page s;
     s \<leftarrow> zero_table task_table s;
     let kpml4 = paging_get_pml4 s;
     let s = paging_load_pml4 task_table s;
     s \<leftarrow> for_page_range (\<lambda>t s. paging_map_page (kernel_phys + virtual_offset + t) (kernel_phys + t)
            PAGING_FLAGS_KERNEL_PAGE s) 0 (load_max - (kernel_phys + virtual_offset)) s;
     s \<leftarrow> task_map_segments (segments load_info) s;
     let ctx = task_ctx (task_mem s tsk);
     let rsp = ctx_rsp (ctx_mem s ctx);
     s \<leftarrow> for_page_range (\<lambda>head s. paging_map_page head head PAGING_FLAGS_USER_PAGE s)
            (rsp - MEGABYTE) rsp s;
     s \<leftarrow> task_map_ists (map (tss_ist (tss_descriptor s)) [0..<7]) s;
     let page = ctx AND 0xfffffffffffff000;
     s \<leftarrow> paging_map_page page (paging_walk_page page s) PAGING_FLAGS_KERNEL_PAGE s;
     s \<leftarrow> paging_map_page task_table task_table PAGING_FLAGS_KERNEL_PAGE s;
     let gs = task_gs_base (task_mem s tsk);
     s \<leftarrow> paging_map_page gs gs PAGING_FLAGS_KERNEL_PAGE s;
     Some (task_table, paging_load_pml4 kpml4 s) }"

definition task_new_stack :: "'z sched_state_scheme \<Rightarrow> (u64 \<times> 'z sched_state_scheme) option" where
  "task_new_stack s = do {
     (pool, s) \<leftarrow> pmm_alloc_pool (MEGABYTE div PAGING_PAGE_SIZE) s;
     Some (pool + MEGABYTE, s) }"

definition task_new_gs_base :: "'z sched_state_scheme \<Rightarrow> (u64 \<times> 'z sched_state_scheme) option" where
  "task_new_gs_base s = do {
     (p, s) \<leftarrow> pmm_alloc_page s;
     s \<leftarrow> gs_put (\<lambda>_. \<lparr>gs_tss = 0, gs_pid = 0, gs_rsp = 0, gs_pc = 0, gs_ctx = 0\<rparr>) p s;
     Some (p, s) }"

section \<open>Creating a task\<close>

partial_function (option) task_last_link :: "u64 \<Rightarrow> 'z sched_state_scheme \<Rightarrow> u64 option" where
  "task_last_link p s =
     (if p = 0 then None
      else if lt_next (task_links s p) = 0 then Some p
      else task_last_link (lt_next (task_links s p)) s)"

definition task_append :: "u64 \<Rightarrow> 'z sched_state_scheme \<Rightarrow> 'z sched_state_scheme option" where
  "task_append new_task s =
     (if tasks s = 0
      then do {
        (p, s) \<leftarrow> heap_malloc sizeof_linked_task s;
        link_put (\<lambda>_. \<lparr>lt_task = new_task, lt_next = 0\<rparr>) p (s\<lparr>tasks := p\<rparr>) }
      else do {
        new_link \<leftarrow> task_last_link (tasks s) s;
        (p, s) \<leftarrow> heap_malloc sizeof_linked_task s;
        s \<leftarrow> link_put (lt_next_update (\<lambda>_. p)) new_link s;
        link_put (\<lambda>_. \<lparr>lt_task = new_task, lt_next = 0\<rparr>) p s })"

definition task_create_new ::
    "u64 \<Rightarrow> u64 \<Rightarrow> u64 \<Rightarrow> elf_load_info \<Rightarrow> 'z sched_state_scheme \<Rightarrow>
      (u64 \<times> 'z sched_state_scheme) option" where
  "task_create_new kernel_phys virtual_offset load_max load_info s = do {
     (new_task, s) \<leftarrow> heap_malloc sizeof_task s;
     let i = task_count s;
     s \<leftarrow> task_put (\<lambda>t. t\<lparr>task_id := i, task_priority := 0, task_state := TASK_STATE_SLEEPING\<rparr>) new_task s;
     (ctx, s) \<leftarrow> heap_malloc sizeof_task_context s;
     s \<leftarrow> task_put (task_ctx_update (\<lambda>_. ctx)) new_task s;
     s \<leftarrow> ctx_put (registers_update (\<lambda>_ _. 0)) ctx s;
     (gs, s) \<leftarrow> task_new_gs_base s;
     s \<leftarrow> task_put (task_gs_base_update (\<lambda>_. gs)) new_task s;
     s \<leftarrow> gs_put (\<lambda>_. \<lparr>gs_tss = 0, gs_pid = i, gs_rsp = tss_rsp (tss_descriptor s) 0,
                       gs_pc = elf_entry load_info, gs_ctx = ctx\<rparr>) gs s;
     (stack, s) \<leftarrow> task_new_stack s;
     s \<leftarrow> ctx_put (\<lambda>c. c\<lparr>ctx_rsp := stack, ctx_rbp := stack, ctx_rip := elf_entry load_info\<rparr>) ctx s;
     (table, s) \<leftarrow> task_new_page_table kernel_phys virtual_offset load_max load_info new_task s;
     s \<leftarrow> ctx_put (ctx_cr3_update (\<lambda>_. table)) ctx s;
     s \<leftarrow> task_append new_task s;
     Some (i, s\<lparr>task_count := task_count s + 1\<rparr>) }"

section \<open>Changing the state of a task\<close>

text \<open>
  The first node whose task has the identifier; 0 at the end of the list. A node without a task on the
  way is a read through NULL.
\<close>

partial_function (option) task_find :: "u64 \<Rightarrow> u64 \<Rightarrow> 'z sched_state_scheme \<Rightarrow> u64 option" where
  "task_find thread i s =
     (if thread = 0 then Some 0
      else if lt_task (task_links s thread) = 0 then None
      else if task_id (task_mem s (lt_task (task_links s thread))) = i then Some thread
      else task_find (lt_next (task_links s thread)) i s)"

definition task_set_state :: "u64 \<Rightarrow> u64 \<Rightarrow> 'z sched_state_scheme \<Rightarrow> 'z sched_state_scheme option" where
  "task_set_state v i s = do {
     thread \<leftarrow> task_find (tasks s) i s;
     if thread = 0 then Some s
     else task_put (task_state_update (\<lambda>_. v)) (lt_task (task_links s thread)) s }"

definition task_schedule :: "u64 \<Rightarrow> 'z sched_state_scheme \<Rightarrow> 'z sched_state_scheme option" where
  "task_schedule = task_set_state TASK_STATE_WAITING"

definition task_sleep :: "u64 \<Rightarrow> 'z sched_state_scheme \<Rightarrow> 'z sched_state_scheme option" where
  "task_sleep = task_set_state TASK_STATE_SLEEPING"

definition task_kill :: "u64 \<Rightarrow> 'z sched_state_scheme \<Rightarrow> 'z sched_state_scheme option" where
  "task_kill = task_set_state TASK_STATE_DEAD"

section \<open>Selecting a task\<close>

text \<open>The context that \<open>_finalize_task_switch\<close> switches to; an unknown identifier dereferences NULL.\<close>

definition task_select :: "u64 \<Rightarrow> 'z sched_state_scheme \<Rightarrow> (u64 \<times> 'z sched_state_scheme) option" where
  "task_select i s = do {
     thread \<leftarrow> task_find (tasks s) i s;
     if thread = 0 then None
     else do {
       let t = task_mem s (lt_task (task_links s thread));
       let s = wrmsr IA32_KERNEL_GS_BASE (task_gs_base t) (s\<lparr>current_task_id := i\<rparr>);
       let s = wrmsr IA32_GS_BASE 0 s;
       Some (task_ctx t, s) } }"

text \<open>
  The step of the timer interrupt. When the node of the current task is the last one, the first node of
  the list is next; otherwise it is the same node again, not the one behind it. The program counter is
  read from the context of the task, which must not be NULL.
\<close>

definition task_select_next :: "'z sched_state_scheme \<Rightarrow> (u64 \<times> 'z sched_state_scheme) option" where
  "task_select_next s = do {
     thread \<leftarrow> task_find (tasks s) (current_task_id s) s;
     if thread = 0 \<or> tasks s = 0 then Some (-1, s)
     else do {
       let gs_base = rdmsr IA32_GS_BASE s;
       s \<leftarrow> task_put (\<lambda>t. t\<lparr>task_state := TASK_STATE_WAITING, task_gs_base := gs_base\<rparr>)
              (lt_task (task_links s thread)) s;
       let thread = (if lt_next (task_links s thread) = 0 then tasks s else thread);
       s \<leftarrow> task_put (task_state_update (\<lambda>_. TASK_STATE_EXECUTION)) (lt_task (task_links s thread)) s;
       let t = task_mem s (lt_task (task_links s thread));
       let s = s\<lparr>current_task_id := task_id t\<rparr>;
       let s = wrmsr IA32_GS_BASE (task_gs_base t) s;
       let s = wrmsr IA32_KERNEL_GS_BASE 0 s;
       rip \<leftarrow> (if task_ctx t = 0 then None else Some (ctx_rip (ctx_mem s (task_ctx t))));
       s \<leftarrow> gs_put (\<lambda>g. g\<lparr>gs_tss := 0, gs_ctx := task_ctx t, gs_pid := task_id t,
                        gs_rsp := tss_rsp (tss_descriptor s) 0, gs_pc := rip\<rparr>) (task_gs_base t) s;
       Some (current_task_id s, s) } }"

definition task_state_string :: "u64 \<Rightarrow> string" where
  "task_state_string v =
     (if v = TASK_STATE_EXECUTION then ''EXEC''
      else if v = TASK_STATE_WAITING then ''WAIT''
      else if v = TASK_STATE_SLEEPING then ''SLEP''
      else if v = TASK_STATE_DEAD then ''DEAD''
      else ''ERR!'')"

end
