(* ===== verification/Calls.thy ===== *)
theory Calls
  imports Task
begin

text \<open>
  The system calls, \<open>kernel/src/proc/calls/handlers/\<close>. The calling process is the one whose block
  is behind the GS register; a handler that works on its page tables loads them and then loads
  the kernel's again. The dispatcher is assembly.
\<close>

record framebuffer_info =
  frame_width :: u32
  frame_height :: u32
  frame_addr :: u64
  frame_pitch :: u32
  frame_bpp :: u32

record call_state = sched_state +
  framebuffer :: framebuffer_info
  fb_holder_pid :: u64
  kb_buffer :: u64
  kb_pid :: u64
  kb_size :: u64

section \<open>The calling process\<close>

text \<open>\<open>((gs_kernel_base_t *)rdmsr(IA32_GS_BASE))\<close>; NULL faults.\<close>

definition current_gs :: "'z sched_state_scheme \<Rightarrow> gs_kernel_base option" where
  "current_gs s = (let p = rdmsr IA32_GS_BASE s in if p = 0 then None else Some (gs_mem s p))"

definition current_cr3 :: "'z sched_state_scheme \<Rightarrow> u64 option" where
  "current_cr3 s = do {
     g \<leftarrow> current_gs s;
     if gs_ctx g = 0 then None else Some (ctx_cr3 (ctx_mem s (gs_ctx g))) }"

definition pid_call :: "'z sched_state_scheme \<Rightarrow> u64 option" where
  "pid_call s = map_option gs_pid (current_gs s)"

section \<open>The framebuffer\<close>

text \<open>The product is computed with 32 bits.\<close>

definition framebuffer_size :: "'z call_state_scheme \<Rightarrow> u64" where
  "framebuffer_size s =
     (let f = framebuffer s in ucast (frame_pitch f * frame_height f * (frame_bpp f div 8)))"

definition fb_req :: "'z call_state_scheme \<Rightarrow> (u64 \<times> 'z call_state_scheme) option" where
  "fb_req s =
     (if fb_holder_pid s \<noteq> -1 then Some (0, s)
      else do {
        g \<leftarrow> current_gs s;
        let s = s\<lparr>fb_holder_pid := gs_pid g\<rparr>;
        let kpml4 = paging_get_pml4 s;
        cr3 \<leftarrow> current_cr3 s;
        let s = paging_load_pml4 cr3 s;
        let addr = frame_addr (framebuffer s);
        s \<leftarrow> for_page_range (\<lambda>i s. paging_map_page (addr + i) (addr - PAGING_VIRTUAL_OFFSET + i)
               PAGING_FLAGS_USER_PAGE s) 0 (framebuffer_size s) s;
        Some (addr, paging_load_pml4 kpml4 s) })"

definition fb_kill :: "'z call_state_scheme \<Rightarrow> 'z call_state_scheme option" where
  "fb_kill s =
     (if fb_holder_pid s = -1 then Some s
      else do {
        let kpml4 = paging_get_pml4 s;
        cr3 \<leftarrow> current_cr3 s;
        let s = paging_load_pml4 cr3 s;
        s \<leftarrow> for_page_range (\<lambda>i s. Some (paging_unmap_page (frame_addr (framebuffer s) + i) s))
               0 (framebuffer_size s) s;
        let s = paging_load_pml4 kpml4 s;
        Some (s\<lparr>fb_holder_pid := -1\<rparr>) })"

section \<open>The keyboard\<close>

text \<open>Without a page the size field would be in page 0, where the write faults.\<close>

definition write_u16 :: "mem \<Rightarrow> u64 \<Rightarrow> u16 \<Rightarrow> mem" where
  "write_u16 m p v = m(p := ucast v, p + 1 := ucast (drop_bit 8 v))"

abbreviation KB_BUFFER_LIMIT :: u64 where "KB_BUFFER_LIMIT \<equiv> PAGING_PAGE_SIZE - 2"

definition kb_man :: "bool \<Rightarrow> 'z call_state_scheme \<Rightarrow> (u64 \<times> 'z call_state_scheme) option" where
  "kb_man taking s = do {
     g \<leftarrow> current_gs s;
     let pid = gs_pid g;
     let kpml4 = paging_get_pml4 s;
     cr3 \<leftarrow> current_cr3 s;
     let s = paging_load_pml4 cr3 s;
     if \<not> taking
     then if kb_pid s \<noteq> pid \<or> kb_pid s = -1
          then Some (0, paging_load_pml4 kpml4 s)
          else do {
            let s = s\<lparr>kb_pid := -1\<rparr>;
            s \<leftarrow> pmm_free_page (kb_buffer s) s;
            let s = paging_unmap_page (kb_buffer s) s;
            let s = s\<lparr>kb_buffer := 0, kb_size := 0\<rparr>;
            Some (0, paging_load_pml4 kpml4 s) }
     else if kb_pid s \<noteq> -1
          then Some (0, paging_load_pml4 kpml4 s)
          else do {
            let s = s\<lparr>kb_pid := pid\<rparr>;
            (buffer, s) \<leftarrow> pmm_alloc_page s;
            let s = s\<lparr>kb_buffer := buffer, kb_size := buffer + PAGING_PAGE_SIZE - 2\<rparr>;
            s \<leftarrow> (if buffer = 0 then None
                  else Some (s\<lparr>heap_bytes := write_u16 (heap_bytes s) (kb_size s) 0\<rparr>));
            s \<leftarrow> paging_map_page buffer buffer PAGING_FLAGS_USER_PAGE s;
            Some (kb_buffer s, paging_load_pml4 kpml4 s) } }"

definition kb_man_save_key :: "u8 \<Rightarrow> 'z call_state_scheme \<Rightarrow> 'z call_state_scheme" where
  "kb_man_save_key keycode s =
     (if kb_pid s = -1 \<or> kb_buffer s = 0 \<or> kb_size s = 0 then s
      else
        let n = read_u16 (heap_bytes s) (kb_size s)
        in if ucast n \<ge> KB_BUFFER_LIMIT then s
           else let m = write_u16 (heap_bytes s) (kb_size s) (n + 1)
                in s\<lparr>heap_bytes := m(kb_buffer s + ucast n := keycode)\<rparr>)"

section \<open>Memory and information\<close>

abbreviation PMAP_VIRT_DEFAULT :: u64 where "PMAP_VIRT_DEFAULT \<equiv> 0"

definition pmap :: "u64 \<Rightarrow> 'z sched_state_scheme \<Rightarrow> (u64 \<times> 'z sched_state_scheme) option" where
  "pmap virt0 s = do {
     (phys, s) \<leftarrow> pmm_alloc_page s;
     let virt = (if virt0 = PMAP_VIRT_DEFAULT then phys else virt0);
     cr3 \<leftarrow> current_cr3 s;
     let kpml4 = paging_get_pml4 s;
     s \<leftarrow> paging_map_page virt phys PAGING_FLAGS_USER_PAGE (paging_load_pml4 cr3 s);
     Some (virt, paging_load_pml4 kpml4 s) }"

text \<open>\<open>punmap\<close> works on the tables that are loaded: the kernel's.\<close>

definition punmap :: "u64 \<Rightarrow> 'z paging_state_scheme \<Rightarrow> 'z paging_state_scheme option" where
  "punmap virt s =
     (if virt = 0 then Some s
      else do {
        let phys = paging_walk_page virt s;
        let s = paging_unmap_page virt s;
        paging_map_page phys phys PAGING_FLAGS_KERNEL_PAGE s })"

text \<open>The table \<open>retriever\<close> has four functions; the index is not checked.\<close>

definition rdinfo :: "u64 \<Rightarrow> 'z call_state_scheme \<Rightarrow> u64 option" where
  "rdinfo field s =
     (if field = 0 then Some (pmm_get_free_memory s)
      else if field = 1 then Some (ucast (frame_width (framebuffer s)))
      else if field = 2 then Some (ucast (frame_height (framebuffer s)))
      else if field = 3 then Some (ucast (frame_bpp (framebuffer s)))
      else None)"

end
