(* ===== verification/Ps2.thy ===== *)
theory Ps2
  imports Calls Keycodes
begin

text \<open>
  The PS/2 keyboard driver, \<open>kernel/src/iodev/hid/ps2/ps2_kbd.c\<close>, and the registration of key strokes
  in \<open>kernel/src/iodev/hid/hid.c\<close>. The scan code buffer is a map from indices to bytes, so a write
  behind its eight bytes would be visible. Waiting loops are \<open>partial_function (option)\<close>: \<open>None\<close> when
  the controller never answers.
\<close>

section \<open>State\<close>

abbreviation PS2_KBD_COMMAND_PORT :: u16 where "PS2_KBD_COMMAND_PORT \<equiv> 0x64"
abbreviation PS2_KBD_STATUS_REG :: u16 where "PS2_KBD_STATUS_REG \<equiv> 0x64"
abbreviation PS2_KBD_DATA_PORT :: u16 where "PS2_KBD_DATA_PORT \<equiv> 0x60"
abbreviation PS2_KBD_STATUS_ACK :: u8 where "PS2_KBD_STATUS_ACK \<equiv> 0xFA"
abbreviation PS2_KBD_STATUS_RESEND :: u8 where "PS2_KBD_STATUS_RESEND \<equiv> 0xFE"
abbreviation PS2_KBD_STATUS_ERROR :: u8 where "PS2_KBD_STATUS_ERROR \<equiv> 0xFC"
abbreviation PS2_FUNC_SET_LEDS :: u8 where "PS2_FUNC_SET_LEDS \<equiv> 0xED"
abbreviation PS2_FUNC_SCANSET :: u8 where "PS2_FUNC_SCANSET \<equiv> 0xF0"
abbreviation PS2_FUNC_ENABLE :: u8 where "PS2_FUNC_ENABLE \<equiv> 0xF4"
abbreviation PS2_NO_OPERAND :: u8 where "PS2_NO_OPERAND \<equiv> 0xff"
abbreviation PS2_KBD_IRQ_LINE :: u8 where "PS2_KBD_IRQ_LINE \<equiv> 1"
abbreviation SCANCODE_SET_2 :: u8 where "SCANCODE_SET_2 \<equiv> 0x02"
abbreviation SCANCODES_SUPPORTED :: u8 where "SCANCODES_SUPPORTED \<equiv> 0x02"

record ps2_state = call_state +
  ps2_kbd_vector :: u8
  ps2_kbd_gsi :: u8
  ps2_kbd_scan_set :: u8
  scancode_buffer :: "nat \<Rightarrow> u8"
  scancode_buffer_pos :: u8
  capslock :: bool
  numlock :: bool
  scrolllock :: bool
  ctrldown :: bool
  altdown :: bool
  fndown :: bool
  shiftdown :: bool
  ismasked :: bool
  commanding :: bool

definition ps2_kbd_clear_scan_buffer :: "'z ps2_state_scheme \<Rightarrow> 'z ps2_state_scheme" where
  "ps2_kbd_clear_scan_buffer s =
     s\<lparr>scancode_buffer := (\<lambda>i. if i < 8 then 0 else scancode_buffer s i), scancode_buffer_pos := 0\<rparr>"

section \<open>Commands\<close>

definition ps2_test_responsivity :: "'z machine_state_scheme \<Rightarrow> bool \<times> 'z machine_state_scheme" where
  "ps2_test_responsivity s =
     (let s = outb PS2_KBD_DATA_PORT 0xEE s; (status, s) = inb PS2_KBD_DATA_PORT s
      in (status = 0xEE, s))"

partial_function (option) ps2_buffer_wait ::
    "'z machine_state_scheme \<Rightarrow> 'z machine_state_scheme option" where
  "ps2_buffer_wait s =
     (let (status, s) = inb PS2_KBD_STATUS_REG s
      in if status AND 0x02 \<noteq> 0 then ps2_buffer_wait s else Some s)"

text \<open>The wait for the acknowledgement; the answer is False on the error status.\<close>

partial_function (option) ps2_wait_ack ::
    "u8 \<Rightarrow> u8 \<Rightarrow> u64 \<Rightarrow> 'z machine_state_scheme \<Rightarrow> (bool \<times> 'z machine_state_scheme) option" where
  "ps2_wait_ack command status timeout s =
     (if status = PS2_KBD_STATUS_ACK then Some (True, s)
      else
        let resend = (status = PS2_KBD_STATUS_RESEND \<and> timeout < 1);
            s = (if resend then outb PS2_KBD_COMMAND_PORT command s else s);
            timeout = (if resend then timeout + 1 else timeout)
        in if status = PS2_KBD_STATUS_ERROR then Some (False, s)
           else let (status, s) = inb PS2_KBD_DATA_PORT s
                in ps2_wait_ack command status timeout s)"

definition ps2_kbd_send_command ::
    "u8 \<Rightarrow> u8 \<Rightarrow> 'z ps2_state_scheme \<Rightarrow> (bool \<times> 'z ps2_state_scheme) option" where
  "ps2_kbd_send_command command operand s = do {
     let s = s\<lparr>commanding := True\<rparr>;
     let (responsive, s) = ps2_test_responsivity s;
     if \<not> responsive then Some (False, s\<lparr>commanding := False\<rparr>)
     else do {
       let (status, s) = inb PS2_KBD_DATA_PORT s;
       s \<leftarrow> (if status \<noteq> PS2_KBD_STATUS_ERROR
             then do {
               s \<leftarrow> ps2_buffer_wait (outb PS2_KBD_DATA_PORT command s);
               Some (if operand \<noteq> PS2_NO_OPERAND then outb PS2_KBD_DATA_PORT operand s else s) }
             else Some s);
       (ok, s) \<leftarrow> ps2_wait_ack command status 0 s;
       Some (ok, s\<lparr>commanding := False\<rparr>) } }"

definition ps2_kbd_sync_leds :: "'z ps2_state_scheme \<Rightarrow> 'z ps2_state_scheme option" where
  "ps2_kbd_sync_leds s = do {
     let leds = (if scrolllock s then 1 else 0) OR (if numlock s then 2 else 0) OR
                (if capslock s then 4 else 0);
     (_, s) \<leftarrow> ps2_kbd_send_command PS2_FUNC_SET_LEDS leds s;
     Some s }"

definition ps2_kbd_set_mask :: "bool \<Rightarrow> 'z ps2_state_scheme \<Rightarrow> 'z ps2_state_scheme option" where
  "ps2_kbd_set_mask masking s = do {
     s \<leftarrow> (if masking then apic_io_mask_irq (ps2_kbd_gsi s) s else apic_io_unmask_irq (ps2_kbd_gsi s) s);
     Some (s\<lparr>ismasked := masking\<rparr>) }"

section \<open>Scan codes\<close>

text \<open>Whether a code of set 2 goes on behind its first \<open>bytes\<close> bytes.\<close>

definition ps2_kbd_needs_next_byte :: "(nat \<Rightarrow> u8) \<Rightarrow> nat \<Rightarrow> bool" where
  "ps2_kbd_needs_next_byte scancode bytes =
     (if bytes = 1 then scancode 0 = 0xE0 \<or> scancode 0 = 0xF0 \<or> scancode 0 = 0xE1
      else if bytes = 2 then scancode 1 = 0xF0 \<or> scancode 0 = 0xE0 \<and> scancode 1 = 0x12 \<or>
        scancode 0 = 0xE1 \<and> scancode 1 = 0x14
      else if bytes = 3 then scancode 2 = 0x77 \<or> scancode 2 = 0x7C \<or> scancode 2 = 0xE0
      else if bytes = 4 then scancode 3 = 0xE0 \<or> scancode 3 = 0xE1
      else if bytes = 5 then scancode 4 = 0xF0
      else if bytes = 6 then scancode 5 = 0x14
      else if bytes = 7 then scancode 6 = 0xF0
      else False)"

definition ps2_kbd_validate_state :: "'z ps2_state_scheme \<Rightarrow> bool" where
  "ps2_kbd_validate_state s \<longleftrightarrow> ps2_kbd_scan_set s = SCANCODES_SUPPORTED \<and> \<not> ismasked s"

definition hid_register_keystroke :: "u8 \<Rightarrow> 'z call_state_scheme \<Rightarrow> bool \<times> 'z call_state_scheme" where
  "hid_register_keystroke keycode s =
     (if keycode = HID_KEYCODE_NULL then (False, s) else (True, kb_man_save_key keycode s))"

definition render_scancode :: "(nat \<Rightarrow> u8) \<Rightarrow> nat \<Rightarrow> u64" where
  "render_scancode scancode bytes =
     foldl (\<lambda>r i. push_bit 8 r OR ucast (scancode i)) 0 [0..<bytes]"

definition ps2_kbd_handle_scancode ::
    "(nat \<Rightarrow> u8) \<Rightarrow> nat \<Rightarrow> 'z call_state_scheme \<Rightarrow> 'z call_state_scheme" where
  "ps2_kbd_handle_scancode scancode bytes s =
     (if bytes = 0 then s
      else snd (hid_register_keystroke (ps2_translate_keycode (render_scancode scancode bytes)) s))"

definition kbd_ps2_irq_handler :: "'z ps2_state_scheme \<Rightarrow> 'z ps2_state_scheme option" where
  "kbd_ps2_irq_handler s =
     (if \<not> ps2_kbd_validate_state s \<or> commanding s
      then do {
        s \<leftarrow> ps2_kbd_set_mask True s;
        let s = (if \<not> commanding s then snd (inb PS2_KBD_DATA_PORT s) else s);
        apic_local_send_eoi s }
      else do {
        let (byte, s) = inb PS2_KBD_DATA_PORT s;
        let s = s\<lparr>scancode_buffer := (scancode_buffer s)(unat (scancode_buffer_pos s) := byte),
                  scancode_buffer_pos := scancode_buffer_pos s + 1\<rparr>;
        if \<not> ps2_kbd_needs_next_byte (scancode_buffer s) (unat (scancode_buffer_pos s))
        then let s = ps2_kbd_handle_scancode (scancode_buffer s) (unat (scancode_buffer_pos s)) s
             in apic_local_send_eoi (ps2_kbd_clear_scan_buffer s)
        else apic_local_send_eoi s })"

section \<open>Start and stop\<close>

definition scancode_set_id :: "u8 \<Rightarrow> u8" where
  "scancode_set_id scancode_set =
     (if scancode_set = 1 then 0x43 else if scancode_set = 2 then 0x41
      else if scancode_set = 3 then 0x3f else 0x00)"

definition ps2_kbd_disable_set_translation ::
    "'z machine_state_scheme \<Rightarrow> 'z machine_state_scheme option" where
  "ps2_kbd_disable_set_translation s = do {
     s \<leftarrow> ps2_buffer_wait s;
     s \<leftarrow> ps2_buffer_wait (outb PS2_KBD_COMMAND_PORT 0x20 s);
     let (config_byte, s) = inb PS2_KBD_DATA_PORT s;
     let config_byte = config_byte AND NOT (push_bit 6 1);
     let s = outb PS2_KBD_COMMAND_PORT 0x60 s;
     ps2_buffer_wait (outb PS2_KBD_DATA_PORT config_byte s) }"

text \<open>The keyboard is asked again until it reports the set that was chosen.\<close>

partial_function (option) ps2_kbd_set_scancodes ::
    "u8 \<Rightarrow> 'z ps2_state_scheme \<Rightarrow> 'z ps2_state_scheme option" where
  "ps2_kbd_set_scancodes scancode_set s = do {
     s \<leftarrow> ps2_kbd_disable_set_translation s;
     let s = s\<lparr>ps2_kbd_scan_set := scancode_set\<rparr>;
     if scancode_set = 0 then Some s
     else do {
       (_, s) \<leftarrow> ps2_kbd_send_command PS2_FUNC_SCANSET scancode_set s;
       s \<leftarrow> ps2_buffer_wait s;
       s \<leftarrow> ps2_buffer_wait (outb PS2_KBD_DATA_PORT PS2_FUNC_SCANSET s);
       s \<leftarrow> ps2_buffer_wait (outb PS2_KBD_DATA_PORT 0x00 s);
       let s = snd (inb PS2_KBD_DATA_PORT s);
       let (set_id, s) = inb PS2_KBD_DATA_PORT s;
       if set_id \<noteq> scancode_set then ps2_kbd_set_scancodes scancode_set s else Some s } }"

definition ps2_kbd_reset_state :: "'z ps2_state_scheme \<Rightarrow> 'z ps2_state_scheme option" where
  "ps2_kbd_reset_state s =
     ps2_kbd_sync_leds (s\<lparr>capslock := False, numlock := False, scrolllock := False,
       ctrldown := False, altdown := False, fndown := False, shiftdown := False\<rparr>)"

text \<open>\<open>irq_addr\<close> is the address of the interrupt handler, \<open>stubs\<close> are the entry points in assembly.\<close>

definition ps2_kbd_init ::
    "(u8 \<Rightarrow> u64) \<Rightarrow> u64 \<Rightarrow> 'z ps2_state_scheme \<Rightarrow> 'z ps2_state_scheme option" where
  "ps2_kbd_init stubs irq_addr s =
     (if ps2_kbd_vector s \<noteq> 0 then Some s
      else do {
        (_, s) \<leftarrow> ps2_kbd_send_command PS2_FUNC_ENABLE PS2_NO_OPERAND s;
        s \<leftarrow> ps2_kbd_set_scancodes SCANCODE_SET_2 (outb PS2_KBD_COMMAND_PORT 0xAE s);
        s \<leftarrow> ps2_kbd_reset_state s;
        let (v, s) = idt_new_vector s;
        let s = on_idt (idt_install_irq_handler stubs v irq_addr) (s\<lparr>ps2_kbd_vector := v\<rparr>);
        let s = s\<lparr>ps2_kbd_gsi := apic_io_get_gsi PS2_KBD_IRQ_LINE s\<rparr>;
        s \<leftarrow> apic_io_redirect_irq (ps2_kbd_gsi s) (ps2_kbd_vector s) False False s;
        s \<leftarrow> ps2_kbd_set_mask False s;
        let s = ps2_kbd_clear_scan_buffer s;
        Some (s\<lparr>commanding := False\<rparr>) })"

definition ps2_kbd_kill :: "'z ps2_state_scheme \<Rightarrow> 'z ps2_state_scheme option" where
  "ps2_kbd_kill s =
     (if ps2_kbd_vector s = 0 then Some s
      else do {
        s \<leftarrow> ps2_kbd_set_mask True s;
        s \<leftarrow> apic_io_redirect_irq (ps2_kbd_gsi s) 0 False False s;
        let s = on_idt (idt_set_descriptor (ps2_kbd_vector s) 0 0 0) s;
        let s = on_idt (idt_free_vector (ps2_kbd_vector s)) s;
        let s = s\<lparr>ps2_kbd_vector := 0, ps2_kbd_gsi := 0\<rparr>;
        Some (outb PS2_KBD_COMMAND_PORT 0xAD s) })"

definition hid_enable_keyboard_interrupts ::
    "(u8 \<Rightarrow> u64) \<Rightarrow> u64 \<Rightarrow> 'z ps2_state_scheme \<Rightarrow> 'z ps2_state_scheme option" where
  "hid_enable_keyboard_interrupts = ps2_kbd_init"

end
