(* ===== verification/Buffers.thy ===== *)
theory Buffers
  imports Glass_Prelude
begin

text \<open>
  Buffers of a fixed capacity that drop what does not fit. The keyboard page that a process shares
  with the kernel and the command line of the debug shell are both such buffers.
\<close>

locale bounded_buffer =
  fixes put :: "'x \<Rightarrow> 's \<Rightarrow> 's"
    and contents :: "'s \<Rightarrow> 'x list"
    and cap :: nat
    and inv :: "'s \<Rightarrow> bool"
  assumes put_contents: "inv s \<Longrightarrow>
      contents (put x s) = (if length (contents s) < cap then contents s @ [x] else contents s)"
    and put_inv: "inv s \<Longrightarrow> inv (put x s)"
    and within: "inv s \<Longrightarrow> length (contents s) \<le> cap"
begin

lemma fold_inv: "inv s \<Longrightarrow> inv (fold put xs s)"
  by (induction xs arbitrary: s) (auto intro: put_inv)

text \<open>What is stored is the oldest part of what was offered.\<close>

lemma fold_contents:
  "inv s \<Longrightarrow> contents (fold put xs s) = take cap (contents s @ xs)"
proof (induction xs arbitrary: s)
  case Nil
  then show ?case using within by simp
next
  case (Cons x xs)
  then have "contents (fold put xs (put x s)) = take cap (contents (put x s) @ xs)"
    using put_inv by blast
  moreover have "take cap (xs @ x # ys) = take cap ((xs @ [x]) @ ys)" for xs ys by simp
  ultimately show ?case
    using Cons.prems within [of s] by (cases "length (contents s) < cap") (simp_all add: put_contents)
qed

lemma fold_length: "inv s \<Longrightarrow> length (contents (fold put xs s)) \<le> cap"
  using within fold_inv by blast

end

end
