(* ===== verification/Frames.thy ===== *)
theory Frames
  imports Heap
begin

text \<open>
  What the memory operations leave alone. They are polymorphic in the extension of their state
  record, and each returns the extension unchanged: no operation of the physical memory manager
  touches the page tables, none of the page tables touches the heap, and none of the three touches
  the state of a component above them. The lemmas are collected in \<open>frame\<close> and hold for every result,
  without an assumption on the state.
\<close>

named_theorems frame "operations that keep the extension of their state record"

section \<open>Physical memory\<close>

lemma st_more [frame]: "st f p s = Some s' \<Longrightarrow> pmm_state.more s' = pmm_state.more s"
  by (cases p) auto

lemma pmm_reindex_loop_more:
  assumes ret: "pmm_reindex_loop i s = Some s'"
  shows "pmm_state.more s' = pmm_state.more s"
proof (rule pmm_reindex_loop.raw_induct [where P = "\<lambda>i s s'. pmm_state.more s' = pmm_state.more s", OF _ ret])
  fix f :: "u64 \<Rightarrow> 'a pmm_state_scheme \<Rightarrow> 'a pmm_state_scheme option" and i s s'
  assume "\<And>i s s'. f i s = Some s' \<Longrightarrow> pmm_state.more s' = pmm_state.more s"
    and "(if i * sizeof_pmm_section < pmm_data_size s
      then if sec_prev (slots s (unat i)) = None \<and> sec_next (slots s (unat i)) = None
           then Some (s\<lparr>pmm_section_head := i\<rparr>) else f (i + 1) s
      else Some s) = Some s'"
  then show "pmm_state.more s' = pmm_state.more s" by (auto split: if_splits)
qed

lemma pmm_new_section_more [frame]:
  "pmm_new_section s = Some (n, s') \<Longrightarrow> pmm_state.more s' = pmm_state.more s"
  by (auto simp: pmm_new_section_def pmm_section_manager_reindex_def bind_eq_Some_conv
      split: if_splits dest!: pmm_reindex_loop_more)

lemma pmm_delete_section_more [frame]:
  "pmm_delete_section p s = Some s' \<Longrightarrow> pmm_state.more s' = pmm_state.more s"
  by (simp add: pmm_delete_section_def st_more)

lemma pmm_section_split_more [frame]:
  "pmm_section_split p a s = Some s' \<Longrightarrow> pmm_state.more s' = pmm_state.more s"
  by (auto simp: pmm_section_split_def bind_eq_Some_conv split: if_splits dest!: frame)

lemma pmm_section_combine_more [frame]:
  "pmm_section_combine_next p s = Some s' \<Longrightarrow> pmm_state.more s' = pmm_state.more s"
  "pmm_section_combine_prev p s = Some s' \<Longrightarrow> pmm_state.more s' = pmm_state.more s"
  by (auto simp: pmm_section_combine_next_def pmm_section_combine_prev_def bind_eq_Some_conv
      split: if_splits dest!: frame)

lemma pmm_take_first_more [frame]:
  "pmm_take_first p s = Some (a, s') \<Longrightarrow> pmm_state.more s' = pmm_state.more s"
  by (auto simp: pmm_take_first_def bind_eq_Some_conv split: if_splits dest!: frame)

lemma pmm_unlink_empty_more [frame]:
  "pmm_unlink_empty p s = Some (q, s') \<Longrightarrow> pmm_state.more s' = pmm_state.more s"
  by (auto simp: pmm_unlink_empty_def bind_eq_Some_conv dest!: frame)

lemma pmm_alloc_scan_more:
  assumes ret: "pmm_alloc_scan p s = Some r"
  shows "pmm_state.more (snd r) = pmm_state.more s"
proof (rule pmm_alloc_scan.raw_induct [where P = "\<lambda>p s r. pmm_state.more (snd r) = pmm_state.more s", OF _ ret],
    goal_cases)
  case (1 f p s r)
  show ?case
    using 1(2) by (cases r) (auto simp: bind_eq_Some_conv split: if_splits dest!: frame 1(1))
qed

lemma pmm_alloc_page_more [frame]:
  "pmm_alloc_page s = Some (a, s') \<Longrightarrow> pmm_state.more s' = pmm_state.more s"
  by (auto simp: pmm_alloc_page_def bind_eq_Some_conv split: if_splits dest!: pmm_alloc_scan_more)

lemma pmm_free_parts_more [frame]:
  "pmm_free_at_start p s = Some s' \<Longrightarrow> pmm_state.more s' = pmm_state.more s"
  "pmm_free_inside p a s = Some (q, s') \<Longrightarrow> pmm_state.more s' = pmm_state.more s"
  by (auto simp: pmm_free_at_start_def pmm_free_inside_def bind_eq_Some_conv split: if_splits dest!: frame)

lemma pmm_free_scan_more:
  assumes ret: "pmm_free_scan p a s = Some r"
  shows "pmm_state.more (snd r) = pmm_state.more s"
proof (rule pmm_free_scan.raw_induct [where P = "\<lambda>p a s r. pmm_state.more (snd r) = pmm_state.more s", OF _ ret],
    goal_cases)
  case (1 f p a s r)
  show ?case
    using 1(2) by (cases r) (auto simp: bind_eq_Some_conv split: if_splits dest!: frame 1(1))
qed

lemma pmm_free_page_more [frame]:
  "pmm_free_page a s = Some s' \<Longrightarrow> pmm_state.more s' = pmm_state.more s"
  by (auto simp: pmm_free_page_def bind_eq_Some_conv split: if_splits dest!: pmm_free_scan_more)

lemma pmm_lock_parts_more [frame]:
  "pmm_lock_single p s = Some s' \<Longrightarrow> pmm_state.more s' = pmm_state.more s"
  "pmm_lock_at_start p s = Some s' \<Longrightarrow> pmm_state.more s' = pmm_state.more s"
  "pmm_lock_inside p a s = Some (q, s') \<Longrightarrow> pmm_state.more s' = pmm_state.more s"
  by (auto simp: pmm_lock_single_def pmm_lock_at_start_def pmm_lock_inside_def bind_eq_Some_conv
      split: if_splits dest!: frame)

lemma pmm_lock_scan_more:
  assumes ret: "pmm_lock_scan p a s = Some s'"
  shows "pmm_state.more s' = pmm_state.more s"
proof (rule pmm_lock_scan.raw_induct [where P = "\<lambda>p a s s'. pmm_state.more s' = pmm_state.more s", OF _ ret],
    goal_cases)
  case (1 f p a s s')
  show ?case
    using 1(2) by (auto simp: bind_eq_Some_conv split: if_splits dest!: frame 1(1))
qed

lemma pmm_lock_page_more [frame]:
  "pmm_lock_page a s = Some s' \<Longrightarrow> pmm_state.more s' = pmm_state.more s"
  by (auto simp: pmm_lock_page_def split: if_splits dest!: pmm_lock_scan_more)

lemma for_pages_more:
  assumes "\<And>a s s'. f a s = Some s' \<Longrightarrow> pmm_state.more s' = pmm_state.more s"
  shows "for_pages f a n s = Some s' \<Longrightarrow> pmm_state.more s' = pmm_state.more s"
  using assms by (induction n arbitrary: a s) (fastforce simp: bind_eq_Some_conv)+

lemma pmm_lock_pages_more [frame]:
  "pmm_lock_pages a n s = Some s' \<Longrightarrow> pmm_state.more s' = pmm_state.more s"
  "pmm_unlock_pages a n s = Some s' \<Longrightarrow> pmm_state.more s' = pmm_state.more s"
  by (auto simp: pmm_lock_pages_def pmm_unlock_pages_def split: if_splits
      dest!: for_pages_more [rotated] frame)

lemma pmm_recombine_pass_more:
  assumes ret: "pmm_recombine_pass p d s = Some r"
  shows "pmm_state.more (snd r) = pmm_state.more s"
proof (rule pmm_recombine_pass.raw_induct [where P = "\<lambda>p d s r. pmm_state.more (snd r) = pmm_state.more s", OF _ ret],
    goal_cases)
  case (1 f p d s r)
  show ?case
    using 1(2) by (cases r) (auto simp: bind_eq_Some_conv split: if_splits dest!: frame 1(1))
qed

lemma pmm_recombine_more [frame]:
  assumes ret: "pmm_recombine s = Some s'"
  shows "pmm_state.more s' = pmm_state.more s"
proof (rule pmm_recombine.raw_induct [where P = "\<lambda>s s'. pmm_state.more s' = pmm_state.more s", OF _ ret],
    goal_cases)
  case (1 f s s')
  show ?case
    using 1(2) by (auto simp: bind_eq_Some_conv split: if_splits dest!: 1(1) pmm_recombine_pass_more)
qed

section \<open>Page tables\<close>

text \<open>What holds of the extension behind the memory manager holds of the one behind the tables.\<close>

lemma paging_more_of_pmm:
  "pmm_state.more s' = pmm_state.more s \<Longrightarrow> paging_state.more s' = paging_state.more s"
  by (cases s rule: paging_state.cases_scheme; cases s' rule: paging_state.cases_scheme) simp

lemma set_entry_more [simp]: "paging_state.more (set_entry t i d s) = paging_state.more s"
  by (simp add: set_entry_def)

lemma zero_table_more [frame]: "zero_table t s = Some s' \<Longrightarrow> paging_state.more s' = paging_state.more s"
  by (auto simp: zero_table_def split: if_splits)

lemmas paging_alloc_page_more [frame] = pmm_alloc_page_more [THEN paging_more_of_pmm]

lemma paging_descend_more:
  assumes "paging_descend f t i flags s = Some (t', s')"
    and "\<And>t s s'. f t s = Some s' \<Longrightarrow> paging_state.more s' = paging_state.more s"
  shows "paging_state.more s' = paging_state.more s"
  using assms(1)
  by (auto simp: paging_descend_def bind_eq_Some_conv Let_def split: if_splits
      dest!: paging_alloc_page_more zero_table_more assms(2))

lemma paging_map_page_more [frame]:
  assumes ret: "paging_map_page v p fl s = Some s'"
  shows "paging_state.more s' = paging_state.more s"
proof (rule paging_map_page.raw_induct [where P = "\<lambda>v p fl s s'. paging_state.more s' = paging_state.more s", OF _ ret],
    goal_cases)
  case (1 f v p fl s s')
  show ?case
    using 1(2) by (auto simp: bind_eq_Some_conv Let_def dest!: paging_descend_more 1(1))
qed

lemma paging_unmap_page_more [simp]: "paging_state.more (paging_unmap_page v s) = paging_state.more s"
  by (simp add: paging_unmap_page_def split: option.split)

lemma paging_load_pml4_more [simp]: "paging_state.more (paging_load_pml4 t s) = paging_state.more s"
  by (simp add: paging_load_pml4_def)

lemma for_page_range_more:
  assumes ret: "for_page_range body t stop s = Some s'"
    and body: "\<And>t s s'. body t s = Some s' \<Longrightarrow> paging_state.more s' = paging_state.more s"
  shows "paging_state.more s' = paging_state.more s"
proof -
  have "(\<forall>t s s'. body t s = Some s' \<longrightarrow> paging_state.more s' = paging_state.more s) \<longrightarrow>
      paging_state.more s' = paging_state.more s"
  proof (rule for_page_range.raw_induct [where P = "\<lambda>body t stop s s'.
      (\<forall>t s s'. body t s = Some s' \<longrightarrow> paging_state.more s' = paging_state.more s) \<longrightarrow>
      paging_state.more s' = paging_state.more s", OF _ ret], goal_cases)
    case (1 f body t stop s s')
    show ?case
      using 1(2) by (fastforce simp: bind_eq_Some_conv split: if_splits dest: 1(1))
  qed
  then show ?thesis using body by blast
qed

section \<open>The heap\<close>

lemma heap_more_of_paging:
  "paging_state.more s' = paging_state.more s \<Longrightarrow> heap_state.more s' = heap_state.more s"
  by (cases s rule: heap_state.cases_scheme; cases s' rule: heap_state.cases_scheme) simp

lemma hput_more [frame]: "hput f p s = Some s' \<Longrightarrow> heap_state.more s' = heap_state.more s"
  by (auto simp: hput_def split: if_splits)

lemma bind_SomeE:
  assumes "Option.bind m f = Some r" obtains x where "m = Some x" "f x = Some r"
  using assms by (auto simp: bind_eq_Some_conv)

lemma if_SomeE:
  assumes "(if c then a else b) = Some r" and "a = Some r \<Longrightarrow> P" and "b = Some r \<Longrightarrow> P"
  shows P
  using assms by (auto split: if_splits)

lemma header_split_more [frame]:
  assumes "header_split g n s = Some (h, s')"
  shows "heap_state.more s' = heap_state.more s"
proof -
  have upd: "heap_state.more (if c then t\<lparr>last_header := h\<rparr> else t) = heap_state.more t" for c h
    and t :: "'a heap_state_scheme" by simp
  show ?thesis
    using assms unfolding header_split_def Let_def
    by (elim bind_SomeE if_SomeE) (auto simp: upd simp del: if_split split del: if_split dest!: hput_more)
qed

lemma header_combine_more [frame]:
  "header_combine_forward g s = Some s' \<Longrightarrow> heap_state.more s' = heap_state.more s"
  "header_combine_backward g s = Some s' \<Longrightarrow> heap_state.more s' = heap_state.more s"
proof -
  show fwd: "header_combine_forward g s = Some s' \<Longrightarrow> heap_state.more s' = heap_state.more s" for g
    by (auto simp: header_combine_forward_def bind_eq_Some_conv Let_def split: if_splits dest!: hput_more)
  show "header_combine_backward g s = Some s' \<Longrightarrow> heap_state.more s' = heap_state.more s"
    by (auto simp: header_combine_backward_def bind_eq_Some_conv split: if_splits dest!: fwd)
qed

lemma heap_map_pages_more [frame]:
  "heap_map_pages pos n s = Some s' \<Longrightarrow> heap_state.more s' = heap_state.more s"
  by (induction n arbitrary: pos s)
    (auto simp: bind_eq_Some_conv dest!: pmm_alloc_page_more [THEN paging_more_of_pmm, THEN heap_more_of_paging]
      paging_map_page_more [THEN heap_more_of_paging])

lemma heap_grow_more [frame]:
  "heap_initialize a n s = Some s' \<Longrightarrow> heap_state.more s' = heap_state.more s"
  "heap_expand len s = Some s' \<Longrightarrow> heap_state.more s' = heap_state.more s"
  by (auto simp: heap_initialize_def heap_expand_def bind_eq_Some_conv Let_def
      dest!: heap_map_pages_more hput_more header_combine_more)

lemma heap_search_more:
  assumes ret: "heap_search p n s = Some r"
  shows "heap_state.more (case r of Inl x \<Rightarrow> snd x | Inr t \<Rightarrow> t) = heap_state.more s"
proof (rule heap_search.raw_induct [where P = "\<lambda>p n s r.
    heap_state.more (case r of Inl x \<Rightarrow> snd x | Inr t \<Rightarrow> t) = heap_state.more s", OF _ ret], goal_cases)
  case (1 f p n s r)
  show ?case
    using 1(2) by (auto simp: bind_eq_Some_conv split: if_splits dest!: 1(1) hput_more header_split_more)
qed

lemma heap_malloc_more [frame]:
  assumes ret: "heap_malloc n s = Some (p, s')"
  shows "heap_state.more s' = heap_state.more s"
proof -
  have "heap_state.more (snd (p, s')) = heap_state.more s"
  proof (rule heap_malloc.raw_induct [where P = "\<lambda>n s r. heap_state.more (snd r) = heap_state.more s", OF _ ret],
      goal_cases)
    case (1 f n s r)
    show ?case
      using 1(2) unfolding Let_def
      by (cases r) (elim bind_SomeE if_SomeE, auto split: sum.split_asm elim!: bind_SomeE
          dest!: 1(1) heap_search_more heap_grow_more)
  qed
  then show ?thesis by simp
qed

end
