(* ===== verification/Calls_Props.thy ===== *)
theory Calls_Props
  imports Calls Buffers Frames Small_States Pmm_Alloc
begin

text \<open>
  The keyboard page of the process that holds the keyboard is a bounded buffer.
\<close>

section \<open>Halfwords in memory\<close>

lemma read_write_u16 [simp]: "read_u16 (write_u16 m p v) p = v"
proof -
  have "ucast (ucast v :: u8) OR push_bit 8 (ucast (ucast (drop_bit 8 v) :: u8)) = v"
  proof (rule bit_word_eqI)
    fix n assume n: "n < LENGTH(16)"
    show "bit (ucast (ucast v :: u8) OR push_bit 8 (ucast (ucast (drop_bit 8 v) :: u8)) :: u16) n = bit v n"
      using n by (cases "n < 8") (auto simp: bit_simps)
  qed
  then show ?thesis by (simp add: read_u16_def write_u16_def)
qed

lemma read_u16_cong: "m' p = m p \<Longrightarrow> m' (p + 1) = m (p + 1) \<Longrightarrow> read_u16 m' p = read_u16 m p"
  by (simp add: read_u16_def)

lemma write_u16_other: "a \<noteq> p \<Longrightarrow> a \<noteq> p + 1 \<Longrightarrow> write_u16 m p v a = m a"
  by (simp add: write_u16_def)

section \<open>The keyboard page\<close>

definition kb_count :: "'z call_state_scheme \<Rightarrow> nat" where
  "kb_count s = unat (read_u16 (heap_bytes s) (kb_size s))"

definition kb_keys :: "'z call_state_scheme \<Rightarrow> u8 list" where
  "kb_keys s = read_bytes (heap_bytes s) (kb_buffer s) (kb_count s)"

text \<open>The keyboard is held and its page is set up.\<close>

definition kb_ready :: "'z call_state_scheme \<Rightarrow> bool" where
  "kb_ready s \<longleftrightarrow> kb_pid s \<noteq> -1 \<and> kb_buffer s \<noteq> 0 \<and> kb_size s \<noteq> 0 \<and>
     kb_size s = kb_buffer s + 4094 \<and> kb_count s \<le> 4094"

lemma kb_save_sel [simp]:
  "kb_pid (kb_man_save_key k s) = kb_pid s" "kb_buffer (kb_man_save_key k s) = kb_buffer s"
  "kb_size (kb_man_save_key k s) = kb_size s"
  by (simp_all add: kb_man_save_key_def Let_def)

lemma kb_save_bytes:
  assumes "kb_ready s"
  shows "heap_bytes (kb_man_save_key k s) =
    (if kb_count s < 4094
     then (write_u16 (heap_bytes s) (kb_size s) (of_nat (Suc (kb_count s))))
       (kb_buffer s + of_nat (kb_count s) := k)
     else heap_bytes s)"
proof -
  let ?n = "read_u16 (heap_bytes s) (kb_size s)"
  have "(ucast ?n :: u64) \<ge> KB_BUFFER_LIMIT \<longleftrightarrow> \<not> kb_count s < 4094"
    by (simp add: word_le_nat_alt kb_count_def unat_ucast_up not_less)
  moreover have "of_nat (Suc (kb_count s)) = ?n + 1" by (simp add: kb_count_def)
  moreover have "of_nat (kb_count s) = (ucast ?n :: u64)" by (simp add: kb_count_def)
  ultimately show ?thesis
    using assms by (auto simp: kb_man_save_key_def kb_ready_def Let_def add.commute)
qed

lemma kb_page_offsets:
  assumes "i < 4094"
  shows "p + of_nat i \<noteq> p + 4094" and "p + of_nat i \<noteq> p + 4094 + (1 :: u64)"
  using offset_inj [of i 4094 p] offset_inj [of i 4095 p] assms by (auto simp: add.assoc)

lemma kb_save_count:
  assumes "kb_ready s"
  shows "kb_count (kb_man_save_key k s) = (if kb_count s < 4094 then Suc (kb_count s) else kb_count s)"
proof (cases "kb_count s < 4094")
  case False
  then show ?thesis using kb_save_bytes [OF assms, of k] by (simp add: kb_count_def)
next
  case True
  have size: "kb_size s = kb_buffer s + 4094" using assms by (simp add: kb_ready_def)
  have "read_u16 (heap_bytes (kb_man_save_key k s)) (kb_size s) = of_nat (Suc (kb_count s))"
    using True kb_page_offsets [OF True, of "kb_buffer s"] unfolding kb_save_bytes [OF assms]
    by (simp add: size) (subst read_u16_cong [where m = "write_u16 (heap_bytes s) (kb_buffer s + 4094)
        (of_nat (Suc (kb_count s)))"], auto)
  moreover have "unat (of_nat (Suc (kb_count s)) :: u16) = Suc (kb_count s)"
    using True by (intro unat_of_nat_nowrap) simp
  ultimately show ?thesis using True by (simp only: kb_count_def [of "kb_man_save_key k s"] kb_save_sel) simp
qed

lemma kb_save_keys:
  assumes "kb_ready s"
  shows "kb_keys (kb_man_save_key k s) = (if length (kb_keys s) < 4094 then kb_keys s @ [k] else kb_keys s)"
proof (cases "kb_count s < 4094")
  case False
  then show ?thesis using kb_save_bytes [OF assms, of k] kb_save_count [OF assms, of k]
    by (simp add: kb_keys_def read_bytes_def)
next
  case True
  let ?b = "kb_buffer s" and ?m = "heap_bytes (kb_man_save_key k s)"
  have size: "kb_size s = ?b + 4094" using assms by (simp add: kb_ready_def)
  have new: "?m (?b + of_nat (kb_count s)) = k" using True kb_save_bytes [OF assms] by simp
  have old: "?m (?b + of_nat i) = heap_bytes s (?b + of_nat i)" if "i < kb_count s" for i
  proof -
    have "?b + of_nat i \<noteq> ?b + of_nat (kb_count s)" using offset_inj [of i "kb_count s" ?b] that True by simp
    then show ?thesis
      using kb_page_offsets [of i ?b] that True kb_save_bytes [OF assms, of k]
      by (simp add: size write_u16_other)
  qed
  have "map (\<lambda>i. ?m (?b + of_nat i)) [0..<kb_count s] = map (\<lambda>i. heap_bytes s (?b + of_nat i)) [0..<kb_count s]"
    using old by simp
  then show ?thesis
    using True new by (simp add: kb_keys_def kb_save_count [OF assms] read_bytes_def)
qed

interpretation kb_page: bounded_buffer kb_man_save_key kb_keys 4094 kb_ready
proof
  fix s :: "'a call_state_scheme" and x
  assume ready: "kb_ready s"
  show "kb_keys (kb_man_save_key x s) = (if length (kb_keys s) < 4094 then kb_keys s @ [x] else kb_keys s)"
    using kb_save_keys [OF ready] .
  show "kb_ready (kb_man_save_key x s)"
    using ready kb_save_count [OF ready, of x] by (auto simp: kb_ready_def)
  show "length (kb_keys s) \<le> 4094" using ready by (simp add: kb_ready_def kb_keys_def read_bytes_def)
qed

section \<open>Sample states\<close>

text \<open>Process 7 runs; its context is at 0xA000 and its tables are the kernel's small ones.\<close>

definition small_tss :: tss_state where
  "small_tss = pool_state.extend
     (apic_state.extend (small_apic (\<lambda>_. 0)) \<lparr>pmm_pools = 0,
        pools = (\<lambda>_. \<lparr>pool_next = 0, pool_pages = 0, pool_base = 0\<rparr>)\<rparr>)
     \<lparr>tss_descriptor = \<lparr>tss_rsp = (\<lambda>_. 0), tss_ist = (\<lambda>_. 0), tss_io_map = 0\<rparr>, ist_index = 0,
      gdt_tab = \<lparr>gdt = (\<lambda>_. Tss_High 0 0), gindex = 0\<rparr>\<rparr>"

definition small_sched :: sched_state where
  "small_sched = tss_state.extend small_tss
     \<lparr>tasks = 0, task_count = 0, current_task_id = 0,
      task_links = (\<lambda>_. \<lparr>lt_task = 0, lt_next = 0\<rparr>),
      task_mem = (\<lambda>_. \<lparr>task_id = 0, task_state = 0, task_priority = 0, task_ctx = 0, task_gs_base = 0\<rparr>),
      ctx_mem = (\<lambda>_. \<lparr>registers = (\<lambda>_. 0), ctx_rsp = 0, ctx_rbp = 0, ctx_rip = 0, ctx_cr3 = 0x1000\<rparr>),
      gs_mem = (\<lambda>_. \<lparr>gs_tss = 0, gs_pid = 7, gs_rsp = 0, gs_pc = 0, gs_ctx = 0xA000\<rparr>)\<rparr>"

definition small_call :: call_state where
  "small_call = (sched_state.extend small_sched
     \<lparr>framebuffer = \<lparr>frame_width = 0, frame_height = 0, frame_addr = 0xffff8000e0000000, frame_pitch = 0,
        frame_bpp = 32\<rparr>,
      fb_holder_pid = -1, kb_buffer = 0, kb_pid = -1, kb_size = 0\<rparr>)\<lparr>msr := (\<lambda>_. 0)(IA32_GS_BASE := 0x9000)\<rparr>"

lemma small_call_sel [simp]:
  "kb_pid small_call = -1" "kb_buffer small_call = 0" "kb_size small_call = 0" "fb_holder_pid small_call = -1"
  "frame_pitch (framebuffer small_call) = 0" "heap_bytes small_call = (\<lambda>_. 0)"
  "msr small_call = (\<lambda>_. 0)(IA32_GS_BASE := 0x9000)"
  "gs_mem small_call = (\<lambda>_. \<lparr>gs_tss = 0, gs_pid = 7, gs_rsp = 0, gs_pc = 0, gs_ctx = 0xA000\<rparr>)"
  "ctx_cr3 (ctx_mem small_call a) = 0x1000"
  by (simp_all add: small_call_def sched_state.defs small_sched_def tss_state.defs small_tss_def
      pool_state.defs apic_state.defs small_apic_def machine_state.defs small_machine_def heap_state.defs
      small_heap_def paging_state.defs)

lemma small_call_current:
  "current_gs small_call = Some \<lparr>gs_tss = 0, gs_pid = 7, gs_rsp = 0, gs_pc = 0, gs_ctx = 0xA000\<rparr>"
  "current_cr3 small_call = Some 0x1000"
  by (simp_all add: current_gs_def current_cr3_def rdmsr_eq)

lemma kb_save_far:
  assumes ready: "kb_ready t" and a: "a - kb_buffer t \<ge> 4096"
  shows "heap_bytes (kb_man_save_key k t) a = heap_bytes t a"
proof (cases "kb_count t < 4094")
  case True
  have size: "kb_size t = kb_buffer t + 4094" using ready by (simp add: kb_ready_def)
  have far: "a \<noteq> kb_buffer t + of_nat i" if "i < 4096" for i
    using a that by (auto simp: word_le_nat_alt unat_of_nat)
  show ?thesis
    using far [of 4094] far [of 4095] far [of "kb_count t"] True kb_save_bytes [OF ready, of k]
    by (simp add: size write_u16_other add.assoc)
qed (use kb_save_bytes [OF ready] in simp)

lemma kb_fold_sel [simp]:
  "kb_pid (fold kb_man_save_key ks s) = kb_pid s" "kb_buffer (fold kb_man_save_key ks s) = kb_buffer s"
  "kb_size (fold kb_man_save_key ks s) = kb_size s"
  by (induction ks arbitrary: s) simp_all

lemma kb_fold_far:
  assumes "kb_ready s" and "a - kb_buffer s \<ge> 4096"
  shows "heap_bytes (fold kb_man_save_key ks s) a = heap_bytes s a"
  using assms
proof (induction ks arbitrary: s)
  case (Cons k ks)
  then show ?case using kb_save_far [OF Cons.prems] kb_page.put_inv [OF Cons.prems(1)] by simp
qed simp

text \<open>C16:
  Key strokes reach the process that holds the keyboard in order and without loss up to 4094: after
  the strokes \<open>ks\<close> its page holds the first 4094 of the strokes it held and \<open>ks\<close>, and the kernel
  has changed nothing outside that page.
\<close>

theorem kb_page_queues_keys:
  assumes "kb_ready s"
  shows "kb_keys (fold kb_man_save_key ks s) = take 4094 (kb_keys s @ ks) \<and>
    (\<forall>a. a - kb_buffer s \<ge> 4096 \<longrightarrow> heap_bytes (fold kb_man_save_key ks s) a = heap_bytes s a)"
  using kb_page.fold_contents [OF assms] kb_fold_far [OF assms] by simp

lemma kb_page_queues_keys_witness:
  "kb_keys (fold kb_man_save_key [0x0E, 0x8E]
     (small_call\<lparr>kb_pid := 7, kb_buffer := 0x5000, kb_size := 0x5FFE\<rparr>)) = [0x0E, 0x8E]"
proof -
  let ?s = "small_call\<lparr>kb_pid := 7, kb_buffer := 0x5000, kb_size := 0x5FFE\<rparr>"
  have count: "kb_count ?s = 0" by (simp add: kb_count_def read_u16_def)
  then have "kb_ready ?s" by (simp add: kb_ready_def)
  from kb_page_queues_keys [OF this, of "[0x0E, 0x8E]"]
  have "kb_keys (fold kb_man_save_key [0x0E, 0x8E] ?s) = take 4094 (kb_keys ?s @ [0x0E, 0x8E])" ..
  moreover have "kb_keys ?s = []" using count by (simp add: kb_keys_def read_bytes_def)
  ultimately show ?thesis by simp
qed

section \<open>The holder of the keyboard\<close>

lemma call_fields_kept:
  assumes "paging_state.more s' = paging_state.more s"
  shows "kb_pid s' = kb_pid s \<and> kb_buffer s' = kb_buffer s \<and> kb_size s' = kb_size s \<and>
    fb_holder_pid s' = fb_holder_pid s \<and> framebuffer s' = framebuffer s"
  using assms
  by (cases s rule: call_state.cases_scheme; cases s' rule: call_state.cases_scheme) simp

lemmas call_fields_free = pmm_free_page_more [THEN paging_more_of_pmm, THEN call_fields_kept]

lemma call_fields_unmap [simp]:
  "kb_pid (paging_unmap_page v s) = kb_pid s" "kb_buffer (paging_unmap_page v s) = kb_buffer s"
  "kb_size (paging_unmap_page v s) = kb_size s" "fb_holder_pid (paging_unmap_page v s) = fb_holder_pid s"
  using call_fields_kept [OF paging_unmap_page_more] by auto

lemma call_fields_load [simp]:
  "kb_pid (paging_load_pml4 t s) = kb_pid s" "kb_buffer (paging_load_pml4 t s) = kb_buffer s"
  "kb_size (paging_load_pml4 t s) = kb_size s" "fb_holder_pid (paging_load_pml4 t s) = fb_holder_pid s"
  by (simp_all add: paging_load_pml4_def)

lemma paging_load_twice [simp]:
  "paging_load_pml4 (paging_get_pml4 s) (paging_load_pml4 t s) = s"
  by (simp add: paging_load_pml4_def paging_get_pml4_def)

text \<open>
  While a process holds the keyboard, a call of \<open>kb_man\<close> from any other process, to take the keyboard
  or to give it back, returns NULL and changes nothing in the kernel.
\<close>

theorem kb_man_refuses_others:
  assumes "current_gs s = Some g" and "current_cr3 s = Some cr3"
    and "kb_pid s \<noteq> -1" and "gs_pid g \<noteq> kb_pid s"
  shows "kb_man taking s = Some (0, s)"
  using assms by (auto simp: kb_man_def Let_def paging_load_pml4_def paging_get_pml4_def)

text \<open>
  The keyboard as a state machine: the running process takes it or gives it back, a key arrives, a
  process writes to memory, the processor switches to another process.
\<close>

inductive kb_step :: "call_state \<Rightarrow> call_state \<Rightarrow> bool" where
  take: "current_gs s = Some g \<Longrightarrow> gs_pid g \<noteq> -1 \<Longrightarrow> kb_man True s = Some (r, s') \<Longrightarrow> kb_step s s'"
| give: "kb_man False s = Some (r, s') \<Longrightarrow> kb_step s s'"
| key: "kb_step s (kb_man_save_key k s)"
| user: "kb_step s (s\<lparr>heap_bytes := m\<rparr>)"
| switch: "kb_step s (s\<lparr>msr := f\<rparr>)"

definition kb_wf :: "call_state \<Rightarrow> bool" where
  "kb_wf s \<longleftrightarrow> (if kb_pid s = -1 then kb_buffer s = 0 \<and> kb_size s = 0
     else kb_buffer s \<noteq> 0 \<and> kb_size s = kb_buffer s + 4094)"

lemma kb_man_wf:
  assumes "kb_wf s" and "kb_man taking s = Some (r, s')"
    and "taking \<Longrightarrow> \<exists>g. current_gs s = Some g \<and> gs_pid g \<noteq> -1"
  shows "kb_wf s'"
proof (cases taking)
  case False
  then show ?thesis
    using assms(1,2)
    by (auto simp: kb_man_def bind_eq_Some_conv Let_def kb_wf_def paging_load_pml4_def paging_get_pml4_def
        split: if_splits dest!: call_fields_free)
next
  case True
  show ?thesis
  proof (cases "kb_pid s = -1")
    case False
    then show ?thesis
      using assms(1,2) True
      by (auto simp: kb_man_def bind_eq_Some_conv Let_def kb_wf_def paging_load_pml4_def paging_get_pml4_def)
  next
    case held: True
    obtain g where g: "current_gs s = Some g" "gs_pid g \<noteq> -1" using assms(3) True by blast
    from assms(2) held True g obtain cr3 buffer s1 s2
      where a: "pmm_alloc_page ((paging_load_pml4 cr3 s)\<lparr>kb_pid := gs_pid g\<rparr>) = Some (buffer, s1)"
        and b: "buffer \<noteq> 0"
        and m: "paging_map_page buffer buffer PAGING_FLAGS_USER_PAGE (s1\<lparr>kb_buffer := buffer,
          kb_size := buffer + PAGING_PAGE_SIZE - 2, heap_bytes := write_u16 (heap_bytes s1)
          (buffer + PAGING_PAGE_SIZE - 2) 0\<rparr>) = Some s2"
        and s': "s' = paging_load_pml4 (paging_get_pml4 s) s2"
      by (auto simp: kb_man_def bind_eq_Some_conv Let_def split: if_splits)
    note k1 = call_fields_kept [OF pmm_alloc_page_more [OF a, THEN paging_more_of_pmm]]
    note k2 = call_fields_kept [OF paging_map_page_more [OF m]]
    have "kb_pid s2 = gs_pid g" "kb_buffer s2 = buffer" "kb_size s2 = buffer + 4094"
      using k1 k2 by simp_all
    then show ?thesis using s' b g(2) by (simp add: kb_wf_def paging_load_pml4_def)
  qed
qed

lemma kb_step_wf: "kb_step s s' \<Longrightarrow> kb_wf s \<Longrightarrow> kb_wf s'"
proof (induction rule: kb_step.induct)
  case (take s g r s')
  then show ?case using kb_man_wf [of s True r s'] by blast
next
  case (give s r s')
  then show ?case using kb_man_wf [of s False r s'] by blast
qed (simp_all add: kb_wf_def)

lemma kb_reachable_wf: "kb_step\<^sup>*\<^sup>* s s' \<Longrightarrow> kb_wf s \<Longrightarrow> kb_wf s'"
  by (induction rule: rtranclp_induct) (auto intro: kb_step_wf)

lemma kb_save_outside:
  assumes "kb_wf s" and "a - kb_buffer s \<ge> 4096"
  shows "heap_bytes (kb_man_save_key k s) a = heap_bytes s a"
proof (cases "kb_pid s = -1")
  case False
  then have size: "kb_size s = kb_buffer s + 4094" using assms(1) by (simp add: kb_wf_def)
  have far: "a \<noteq> kb_buffer s + of_nat i" if "i < 4096" for i
    using assms(2) that by (auto simp: word_le_nat_alt unat_of_nat)
  let ?n = "read_u16 (heap_bytes s) (kb_size s)"
  show ?thesis
  proof (cases "(ucast ?n :: u64) \<ge> KB_BUFFER_LIMIT")
    case False
    then have "unat ?n < 4094" by (simp add: word_le_nat_alt unat_ucast_up)
    then have "a \<noteq> kb_buffer s + ucast ?n" using far [of "unat ?n"] by simp
    then show ?thesis
      using far [of 4094] far [of 4095] size
      by (simp add: kb_man_save_key_def Let_def write_u16_other add.assoc)
  qed (simp add: kb_man_save_key_def Let_def)
qed (simp add: kb_man_save_key_def)

lemma small_call_memory:
  "pmm_state.truncate small_call = pmm_state.truncate small_memory" "pml4 small_call = 0x1000"
  "table_mem small_call = small_tables"
  by (simp_all add: small_call_def sched_state.defs small_sched_def tss_state.defs small_tss_def
      pool_state.defs apic_state.defs small_apic_def machine_state.defs small_machine_def heap_state.defs
      small_heap_def paging_state.defs small_paging_def pmm_state.defs)

lemma small_call_slots:
  "pfa_allowing_allocations small_call" "slots small_call = small_slots" "pmm_sections small_call = Some 0"
  "pmm_section_head small_call = 3" "pmm_data_size small_call = 4000"
  using small_call_memory(1) by (simp_all add: pmm_state.defs small_memory_def)

lemma small_take_page:
  "\<exists>t. kb_man True small_call = Some (0x100000, t) \<and> kb_pid t = 7 \<and> kb_buffer t = 0x100000 \<and> kb_size t = 0x100FFE"
proof -
  let ?s = "small_call\<lparr>kb_pid := 7\<rparr>"
  have "pmm_wf [0, 1, 2] ?s"
    using small_memory_wf by (simp add: pmm_wf_def pmm_links_def pmm_room_def small_call_slots small_memory_def)
  moreover have "pmm_room 1 ?s" by (simp add: pmm_room_def small_call_slots)
  ultimately obtain base s1 where run: "pmm_alloc_page ?s = Some (base, s1)"
    using pmm_alloc_page_takes_lowest [of "[0, 1, 2]" ?s 0] small_call_slots(1) by auto
  then have "base = 0x100000"
    by (auto simp: pmm_alloc_page_def small_call_slots small_slots_def pmm_alloc_scan.simps pmm_take_first_def
        bind_eq_Some_conv)
  with run have "\<exists>s1. pmm_alloc_page ?s = Some (0x100000, s1)" by blast
  then obtain s1 where s1: "pmm_alloc_page ?s = Some (0x100000, s1)" by blast
  note k1 = call_fields_kept [OF pmm_alloc_page_more [OF s1, THEN paging_more_of_pmm]]
  note more = pmm_alloc_page_more [OF s1]
  have field: "pml4 u = pml4 v \<and> table_mem u = table_mem v" if "pmm_state.more u = pmm_state.more v" for u v :: call_state
    using that by (cases u rule: call_state.cases_scheme; cases v rule: call_state.cases_scheme) simp
  have tab: "pml4 s1 = 0x1000" "table_mem s1 = small_tables" using field [OF more] small_call_memory(2,3) by simp_all
  have p: "tables_present 0x1000 small_tables 0x100000" "leaf_entry 0x1000 small_tables 0x100000 = 0x4800"
    "0x4800 \<notin> set (take 3 (walk_entries 0x1000 small_tables 0x100000))"
    by code_simp+
  let ?t = "s1\<lparr>kb_buffer := 0x100000, kb_size := 0x100FFE, heap_bytes := write_u16 (heap_bytes s1) 0x100FFE 0\<rparr>"
  have "tables_present (pml4 ?t) (table_mem ?t) 0x100000" "off_path 0x100000 0x100000 ?t"
    using p tab by (simp_all add: off_path_def)
  from paging_map_page_run [OF this] obtain t where
    t: "paging_map_page 0x100000 0x100000 PAGING_FLAGS_USER_PAGE ?t = Some t" by blast
  note k2 = call_fields_kept [OF paging_map_page_more [OF t]]
  have load: "paging_load_pml4 0x1000 small_call = small_call"
    using small_call_memory(2) by (simp add: paging_load_pml4_def)
  then have "kb_man True small_call = Some (kb_buffer t, paging_load_pml4 (paging_get_pml4 small_call) t)"
    using small_call_current s1 t by (simp add: kb_man_def Let_def)
  then show ?thesis using k2 k1 by simp
qed

text \<open>C20:
  However processes take and give back the keyboard, overwrite memory (the shared page and its
  count included) and are switched, the next key stroke changes no byte of memory outside the page
  that the kernel shares with the holder.
\<close>

theorem kb_keys_stay_in_page:
  assumes "kb_pid s0 = -1" and "kb_buffer s0 = 0" and "kb_size s0 = 0"
    and "kb_step\<^sup>*\<^sup>* s0 s" and "a - kb_buffer s \<ge> 4096"
  shows "heap_bytes (kb_man_save_key k s) a = heap_bytes s a"
  using kb_save_outside kb_reachable_wf [OF assms(4)] assms by (simp add: kb_wf_def)

text \<open>A process has taken the keyboard and overwritten its page: the key lands behind 0x0101 others.\<close>

lemma kb_keys_stay_in_page_witness:
  "\<exists>s. kb_step\<^sup>*\<^sup>* small_call s \<and> kb_buffer s = 0x100000 \<and> heap_bytes s = (\<lambda>_. 1) \<and>
     heap_bytes (kb_man_save_key 0x0E s) 0x100101 = 0x0E \<and> heap_bytes (kb_man_save_key 0x0E s) 0x101000 = 1"
proof -
  obtain t where t: "kb_man True small_call = Some (0x100000, t)" "kb_pid t = 7" "kb_buffer t = 0x100000"
    "kb_size t = 0x100FFE" using small_take_page by blast
  let ?s = "t\<lparr>heap_bytes := \<lambda>_. 1\<rparr>"
  have "kb_step small_call t" by (rule kb_step.take [OF small_call_current(1) _ t(1)]) simp
  then have r: "kb_step\<^sup>*\<^sup>* small_call ?s" using kb_step.user [of t "\<lambda>_. 1"] by (meson r_into_rtranclp rtranclp_trans)
  have "heap_bytes (kb_man_save_key 0x0E ?s) 0x101000 = 1"
    using kb_keys_stay_in_page [OF _ _ _ r, of "0x101000"] t(3) by simp
  moreover have "heap_bytes (kb_man_save_key 0x0E ?s) 0x100101 = 0x0E"
    using t(2-4) by (simp add: kb_man_save_key_def read_u16_def)
  ultimately show ?thesis using r t(3) by (intro exI [of _ ?s]) simp
qed

lemma kb_man_refuses_others_witness:
  "kb_man True (small_call\<lparr>kb_pid := 3, kb_buffer := 0x5000, kb_size := 0x5FFE\<rparr>) =
     Some (0, small_call\<lparr>kb_pid := 3, kb_buffer := 0x5000, kb_size := 0x5FFE\<rparr>)"
proof -
  let ?s = "small_call\<lparr>kb_pid := 3, kb_buffer := 0x5000, kb_size := 0x5FFE\<rparr>"
  have "current_gs ?s = Some \<lparr>gs_tss = 0, gs_pid = 7, gs_rsp = 0, gs_pc = 0, gs_ctx = 0xA000\<rparr>"
    and "current_cr3 ?s = Some 0x1000"
    by (simp_all add: current_gs_def current_cr3_def rdmsr_eq)
  from kb_man_refuses_others [OF this] show ?thesis by simp
qed

section \<open>The holder of the framebuffer\<close>

lemma for_page_range_returns:
  assumes "\<And>t s. \<exists>s'. body t s = Some s'" and "unat stop + 4096 \<le> 2 ^ 64"
  shows "\<exists>s'. for_page_range body t stop s = Some s'"
proof (induction "unat stop - unat t" arbitrary: t s rule: less_induct)
  case less
  show ?case
  proof (cases "t < stop")
    case False
    then show ?thesis by (subst for_page_range.simps) simp
  next
    case True
    then have lt: "unat t < unat stop" by (simp add: word_less_nat_alt)
    then have "unat (t + PAGING_PAGE_SIZE) = unat t + 4096"
      using assms(2) unat_plus_nowrap [of t PAGING_PAGE_SIZE] by simp
    then have m: "unat stop - unat (t + PAGING_PAGE_SIZE) < unat stop - unat t" using lt by simp
    obtain s1 where "body t s = Some s1" using assms(1) by blast
    then show ?thesis using less [OF m, of s1] True by (subst for_page_range.simps) simp
  qed
qed

lemma fb_unmap_keeps:
  assumes "for_page_range (\<lambda>i s. Some (paging_unmap_page (frame_addr (framebuffer s) + i) s)) 0 n s = Some s'"
  shows "fb_holder_pid s' = fb_holder_pid s \<and> framebuffer s' = framebuffer s"
  using call_fields_kept [OF for_page_range_more [OF assms]] by simp

text \<open>
  \<open>fb_kill\<close> always returns and releases the framebuffer, also when the caller is not the process that
  holds it; only the tables of the caller are changed, so the holder keeps its mapping, and the
  next \<open>fb_req\<close> is not refused.
\<close>

theorem fb_kill_releases_for_anyone:
  assumes "current_cr3 s = Some cr3"
  shows "\<exists>s'. fb_kill s = Some s' \<and> fb_holder_pid s' = -1 \<and> pml4 s' = pml4 s"
proof (cases "fb_holder_pid s = -1")
  case True
  then show ?thesis by (simp add: fb_kill_def)
next
  case False
  let ?t = "paging_load_pml4 cr3 s"
  have "unat (framebuffer_size s) < 2 ^ 32"
    using unsigned_less [where ?'a = nat and w = "frame_pitch (framebuffer s) * frame_height (framebuffer s) *
      (frame_bpp (framebuffer s) div 8)"]
    by (simp add: framebuffer_size_def Let_def unat_ucast_up)
  then have "unat (framebuffer_size ?t) + 4096 \<le> 2 ^ 64"
    by (simp add: framebuffer_size_def paging_load_pml4_def)
  from for_page_range_returns [OF _ this, of
      "\<lambda>i s. Some (paging_unmap_page (frame_addr (framebuffer s) + i) s)" 0 ?t]
  obtain s1 where "for_page_range (\<lambda>i s. Some (paging_unmap_page (frame_addr (framebuffer s) + i) s))
      0 (framebuffer_size ?t) ?t = Some s1" by auto
  then show ?thesis
    using False assms by (simp add: fb_kill_def Let_def paging_load_pml4_def paging_get_pml4_def)
qed

lemma fb_kill_releases_for_anyone_witness:
  "\<exists>s'. fb_kill (small_call\<lparr>fb_holder_pid := 3\<rparr>) = Some s' \<and> fb_holder_pid s' = -1"
proof -
  have "current_cr3 (small_call\<lparr>fb_holder_pid := 3\<rparr>) = Some 0x1000"
    by (simp add: current_gs_def current_cr3_def rdmsr_eq)
  from fb_kill_releases_for_anyone [OF this] show ?thesis by blast
qed

end
