(* ===== verification/Ps2_Props.thy ===== *)
theory Ps2_Props
  imports Ps2 Calls_Props
begin

text \<open>
  The keyboard interrupt as a state machine over the bytes of the controller: its buffer never
  overflows, and the bytes of every scan code of the table produce exactly the key of the table.
\<close>

section \<open>One interrupt\<close>

lemma apic_eoi:
  "apic_virtual_base s \<noteq> 0 \<Longrightarrow>
     apic_local_send_eoi s = Some (io_emit (Wr32 (apic_virtual_base s + 0xB0) 0) s)"
  by (simp add: apic_local_send_eoi_def apic_local_write_def mmio_write_def)

text \<open>The keyboard delivers: it is set up, not masked, and no command is under way.\<close>

definition ps2_live :: "'z ps2_state_scheme \<Rightarrow> bool" where
  "ps2_live s \<longleftrightarrow> ps2_kbd_validate_state s \<and> \<not> commanding s \<and> apic_virtual_base s \<noteq> 0"

lemma needs_next_byte_bound: "ps2_kbd_needs_next_byte scancode n \<Longrightarrow> n \<le> 7"
  by (auto simp: ps2_kbd_needs_next_byte_def split: if_splits)

lemma kb_save_key_frame:
  "scancode_buffer (kb_man_save_key k s) = scancode_buffer s"
  "scancode_buffer_pos (kb_man_save_key k s) = scancode_buffer_pos s"
  "apic_virtual_base (kb_man_save_key k s) = apic_virtual_base s"
  "io_log (kb_man_save_key k s) = io_log s" "io_env (kb_man_save_key k s) = io_env s"
  by (simp_all add: kb_man_save_key_def Let_def)

lemma handle_scancode_frame [simp]:
  "scancode_buffer (ps2_kbd_handle_scancode b n s) = scancode_buffer s"
  "scancode_buffer_pos (ps2_kbd_handle_scancode b n s) = scancode_buffer_pos s"
  "apic_virtual_base (ps2_kbd_handle_scancode b n s) = apic_virtual_base s"
  by (simp_all add: ps2_kbd_handle_scancode_def hid_register_keystroke_def kb_save_key_frame)

lemma eoi_frame:
  "apic_local_send_eoi s = Some s' \<Longrightarrow>
     scancode_buffer s' = scancode_buffer s \<and> scancode_buffer_pos s' = scancode_buffer_pos s"
  by (auto simp: apic_local_send_eoi_def apic_local_write_def mmio_write_def io_emit_def split: if_splits)

lemma set_mask_frame:
  "ps2_kbd_set_mask m s = Some s' \<Longrightarrow>
     scancode_buffer s' = scancode_buffer s \<and> scancode_buffer_pos s' = scancode_buffer_pos s"
  by (auto simp: ps2_kbd_set_mask_def apic_io_mask_irq_def apic_io_unmask_irq_def apic_io_read_def
      apic_io_write_def mmio_write_def mmio_read_def io_emit_def bind_eq_Some_conv Let_def
      split: if_splits)

text \<open>The eight bytes of the buffer; the position stays inside.\<close>

definition scan_ok :: "'z ps2_state_scheme \<Rightarrow> bool" where
  "scan_ok s \<longleftrightarrow> scancode_buffer_pos s < 8"

lemma irq_scan_ok:
  assumes "scan_ok s" and "kbd_ps2_irq_handler s = Some s'"
  shows "scan_ok s'" and "\<forall>i \<ge> 8. scancode_buffer s' i = scancode_buffer s i"
proof -
  have pos: "unat (scancode_buffer_pos s) < 8" using assms(1) by (simp add: scan_ok_def word_less_nat_alt)
  then have suc: "unat (scancode_buffer_pos s + 1) = Suc (unat (scancode_buffer_pos s))"
    using unat_plus_nowrap [of "scancode_buffer_pos s" 1] by simp
  have "scan_ok s' \<and> (\<forall>i \<ge> 8. scancode_buffer s' i = scancode_buffer s i)"
  proof (cases "\<not> ps2_kbd_validate_state s \<or> commanding s")
    case True
    then show ?thesis
      using assms
      by (auto simp: kbd_ps2_irq_handler_def bind_eq_Some_conv inb_def io_emit_def Let_def scan_ok_def
          split: if_splits dest!: set_mask_frame eoi_frame)
  next
    case False
    obtain byte t where b: "inb PS2_KBD_DATA_PORT s = (byte, t)" by force
    then have t: "scancode_buffer t = scancode_buffer s" "scancode_buffer_pos t = scancode_buffer_pos s"
      by (auto simp: inb_def io_emit_def Let_def)
    show ?thesis
      using assms(2) False b t pos suc
      by (auto simp: kbd_ps2_irq_handler_def Let_def scan_ok_def ps2_kbd_clear_scan_buffer_def
          word_less_nat_alt split: if_splits dest!: eoi_frame needs_next_byte_bound)
  qed
  then show "scan_ok s'" and "\<forall>i \<ge> 8. scancode_buffer s' i = scancode_buffer s i" by auto
qed

fun ps2_interrupts :: "nat \<Rightarrow> 'z ps2_state_scheme \<Rightarrow> 'z ps2_state_scheme option" where
  "ps2_interrupts 0 s = Some s"
| "ps2_interrupts (Suc n) s = do { s \<leftarrow> kbd_ps2_irq_handler s; ps2_interrupts n s }"

text \<open>C32:
  Whatever bytes the keyboard controller sends, in any number of interrupts and in any mode of the
  driver, the scan code buffer of eight bytes is never written behind its end, and its position
  stays below eight.
\<close>

theorem ps2_buffer_never_overflows:
  assumes "scancode_buffer_pos s < 8" and "ps2_interrupts n s = Some s'"
  shows "scancode_buffer_pos s' < 8 \<and> (\<forall>i \<ge> 8. scancode_buffer s' i = scancode_buffer s i)"
  using assms
proof (induction n arbitrary: s)
  case (Suc n)
  then obtain s1 where s1: "kbd_ps2_irq_handler s = Some s1" "ps2_interrupts n s1 = Some s'"
    by (auto simp: bind_eq_Some_conv)
  have "scan_ok s" using Suc.prems(1) by (simp add: scan_ok_def)
  note step = irq_scan_ok [OF this s1(1)]
  then show ?case using Suc.IH [OF _ s1(2)] by (simp add: scan_ok_def)
qed simp

definition small_ps2 :: "(nat \<Rightarrow> u64) \<Rightarrow> ps2_state" where
  "small_ps2 env = (call_state.extend small_call
     \<lparr>ps2_kbd_vector = 33, ps2_kbd_gsi = 1, ps2_kbd_scan_set = 2, scancode_buffer = (\<lambda>_. 0),
      scancode_buffer_pos = 0, capslock = False, numlock = False, scrolllock = False, ctrldown = False,
      altdown = False, fndown = False, shiftdown = False, ismasked = False, commanding = False\<rparr>)
      \<lparr>io_env := env, kb_pid := 7, kb_buffer := 0x5000, kb_size := 0x5FFE\<rparr>"

lemma small_ps2_sel [simp]:
  "scancode_buffer_pos (small_ps2 env) = 0" "scancode_buffer (small_ps2 env) = (\<lambda>_. 0)"
  "io_env (small_ps2 env) = env" "io_log (small_ps2 env) = []" "ps2_live (small_ps2 env)"
  "kb_pid (small_ps2 env) = 7" "kb_buffer (small_ps2 env) = 0x5000" "kb_size (small_ps2 env) = 0x5FFE"
  "heap_bytes (small_ps2 env) = (\<lambda>_. 0)"
  by (simp_all add: small_ps2_def call_state.defs small_call_def sched_state.defs small_sched_def
      tss_state.defs small_tss_def pool_state.defs apic_state.defs small_apic_def machine_state.defs
      small_machine_def heap_state.defs small_heap_def paging_state.defs ps2_live_def
      ps2_kbd_validate_state_def)

section \<open>The bytes of a scan code\<close>

fun code_bytes :: "nat \<Rightarrow> u64 \<Rightarrow> u8 list" where
  "code_bytes 0 w = []"
| "code_bytes (Suc n) w = (if w = 0 then [] else code_bytes n (drop_bit 8 w) @ [ucast w])"

lemma shift_or_low: "push_bit 8 (drop_bit 8 w) OR ucast (ucast w :: u8) = (w :: u64)"
proof (rule bit_word_eqI)
  fix n assume "n < LENGTH(64)"
  then show "bit (push_bit 8 (drop_bit 8 w) OR ucast (ucast w :: u8) :: u64) n = bit w n"
    by (cases "n < 8") (auto simp: bit_simps)
qed

lemma fold_code_bytes:
  "drop_bit (8 * n) w = 0 \<Longrightarrow> foldl (\<lambda>r b. push_bit 8 r OR ucast b) 0 (code_bytes n w) = w"
proof (induction n arbitrary: w)
  case (Suc n)
  then have "drop_bit (8 * n) (drop_bit 8 w) = 0" by (simp add: drop_bit_drop_bit add.commute)
  then show ?case using Suc.IH [of "drop_bit 8 w"] by (simp add: shift_or_low)
qed simp

lemma render_nth: "render_scancode ((!) bs) (length bs) = foldl (\<lambda>r b. push_bit 8 r OR ucast b) 0 bs"
proof -
  have "foldl (\<lambda>r b. push_bit 8 r OR ucast b) 0 (map ((!) bs) [0..<length bs]) =
      foldl (\<lambda>r i. push_bit 8 r OR ucast (bs ! i)) (0 :: u64) [0..<length bs]"
    by (simp add: foldl_map)
  then show ?thesis by (simp add: render_scancode_def map_nth)
qed

lemma render_code_bytes:
  "render_scancode ((!) (code_bytes 8 sc)) (length (code_bytes 8 sc)) = sc"
proof -
  have "drop_bit (8 * 8) sc = 0" by (rule bit_word_eqI) (simp add: bit_simps bit_imp_le_length)
  then show ?thesis unfolding render_nth by (rule fold_code_bytes)
qed

text \<open>The driver waits for more bytes until the last one and then stops.\<close>

definition whole_code :: "u8 list \<Rightarrow> bool" where
  "whole_code bs \<longleftrightarrow> bs \<noteq> [] \<and> list_all (ps2_kbd_needs_next_byte ((!) bs)) [1..<length bs] \<and>
     \<not> ps2_kbd_needs_next_byte ((!) bs) (length bs) \<and> length bs \<le> 8"

lemma table_codes_whole: "list_all (\<lambda>(sc, k). whole_code (code_bytes 8 sc)) ps2_codes"
  by code_simp

lemma table_codes_ascending: "successively (<) (map fst ps2_codes)"
  by (simp add: ps2_codes_def ps2_make_codes_def ps2_extended_make_codes_def ps2_break_codes_def
     ps2_extended_break_codes_def ps2_long_codes_def)

lemma table_keys_nonzero: "list_all (\<lambda>(sc, k). k \<noteq> HID_KEYCODE_NULL) ps2_codes"
  by (simp add: ps2_codes_def ps2_make_codes_def ps2_extended_make_codes_def ps2_break_codes_def
     ps2_extended_break_codes_def ps2_long_codes_def)

lemma translate_table:
  assumes "(sc, k) \<in> set ps2_codes"
  shows "ps2_translate_keycode sc = k" and "k \<noteq> HID_KEYCODE_NULL"
    and "whole_code (code_bytes 8 sc)"
proof -
  have "sorted_wrt (<) (map fst ps2_codes)"
    using table_codes_ascending by (simp add: successively_conv_sorted_wrt)
  then have "distinct (map fst ps2_codes)" by (simp add: strict_sorted_iff)
  then have "map_of ps2_codes sc = Some k" using assms by simp
  then show "ps2_translate_keycode sc = k" by (simp add: ps2_translate_keycode_def)
  show "k \<noteq> HID_KEYCODE_NULL" "whole_code (code_bytes 8 sc)"
    using assms table_keys_nonzero table_codes_whole by (auto simp: list_all_iff)
qed

section \<open>From bytes to keys\<close>

lemma needs_next_byte_cong:
  "(\<And>i. i < n \<Longrightarrow> f i = g i) \<Longrightarrow> ps2_kbd_needs_next_byte f n = ps2_kbd_needs_next_byte g n"
  by (simp add: ps2_kbd_needs_next_byte_def)

lemma render_cong: "(\<And>i. i < n \<Longrightarrow> f i = g i) \<Longrightarrow> render_scancode f n = render_scancode g n"
  unfolding render_scancode_def by (rule foldl_cong) auto

lemma ps2_interrupts_add:
  "ps2_interrupts (m + n) s = do { s \<leftarrow> ps2_interrupts m s; ps2_interrupts n s }"
  by (induction m arbitrary: s) (auto split: Option.bind_split)

text \<open>The state after the first \<open>i\<close> bytes of a code, each read and acknowledged.\<close>

definition after_bytes :: "u8 list \<Rightarrow> nat \<Rightarrow> 'z ps2_state_scheme \<Rightarrow> 'z ps2_state_scheme" where
  "after_bytes bs i s =
     s\<lparr>scancode_buffer := (\<lambda>j. if j < i then bs ! j else scancode_buffer s j),
       scancode_buffer_pos := of_nat i,
       io_log := io_log s @ concat (map (\<lambda>j. [In8 PS2_KBD_DATA_PORT (bs ! j),
         Wr32 (apic_virtual_base s + 0xB0) 0]) [0..<i])\<rparr>"

lemma after_bytes_sel [simp]:
  "scancode_buffer_pos (after_bytes bs i s) = of_nat i"
  "length (io_log (after_bytes bs i s)) = length (io_log s) + 2 * i"
  "io_env (after_bytes bs i s) = io_env s"
  "ps2_live (after_bytes bs i s) = ps2_live s"
  by (induction i) (simp_all add: after_bytes_def ps2_live_def ps2_kbd_validate_state_def)

text \<open>The state before the byte at the end of the buffer is looked at.\<close>

definition with_byte :: "u8 \<Rightarrow> 'z ps2_state_scheme \<Rightarrow> 'z ps2_state_scheme" where
  "with_byte b s = s\<lparr>io_log := io_log s @ [In8 PS2_KBD_DATA_PORT b],
     scancode_buffer := (scancode_buffer s)(unat (scancode_buffer_pos s) := b),
     scancode_buffer_pos := scancode_buffer_pos s + 1\<rparr>"

lemma irq_live:
  assumes "ps2_live s" and "ucast (io_env s (length (io_log s))) = b"
  shows "kbd_ps2_irq_handler s =
    (let t = with_byte b s; n = unat (scancode_buffer_pos t)
     in if ps2_kbd_needs_next_byte (scancode_buffer t) n then apic_local_send_eoi t
        else apic_local_send_eoi (ps2_kbd_clear_scan_buffer
          (ps2_kbd_handle_scancode (scancode_buffer t) n t)))"
  using assms
  by (simp add: kbd_ps2_irq_handler_def ps2_live_def inb_def io_next_def io_emit_def with_byte_def Let_def)

lemma irq_more_bytes:
  assumes "ps2_live s" and "Suc i < length bs" and "whole_code bs"
    and "ucast (io_env s (length (io_log s) + 2 * i)) = bs ! i"
  shows "kbd_ps2_irq_handler (after_bytes bs i s) = Some (after_bytes bs (Suc i) s)"
proof -
  let ?s = "after_bytes bs i s" and ?t = "with_byte (bs ! i) (after_bytes bs i s)"
  have i: "i < 8" using assms(2,3) by (simp add: whole_code_def)
  have pos: "unat (of_nat i :: u8) = i" "unat (of_nat i + 1 :: u8) = Suc i"
    using i unat_plus_nowrap [of "of_nat i :: u8" 1] by (simp_all add: unat_of_nat)
  have buf: "scancode_buffer ?t j = bs ! j" if "j < Suc i" for j
    using that pos by (auto simp: with_byte_def after_bytes_def)
  have "ps2_kbd_needs_next_byte ((!) bs) (Suc i)"
    using assms(2,3) by (simp add: whole_code_def list_all_iff)
  then have needs: "ps2_kbd_needs_next_byte (scancode_buffer ?t) (Suc i)"
    using needs_next_byte_cong [of "Suc i" "scancode_buffer ?t" "(!) bs"] buf by blast
  have "kbd_ps2_irq_handler ?s = apic_local_send_eoi ?t"
    using irq_live [of ?s "bs ! i"] assms(1,4) needs pos
    by (simp add: Let_def with_byte_def)
  also have "\<dots> = Some (io_emit (Wr32 (apic_virtual_base s + 0xB0) 0) ?t)"
    using assms(1) by (subst apic_eoi) (simp_all add: ps2_live_def with_byte_def after_bytes_def)
  also have "io_emit (Wr32 (apic_virtual_base s + 0xB0) 0) ?t = after_bytes bs (Suc i) s"
  proof -
    have "(\<lambda>j. if j < i then bs ! j else scancode_buffer s j)(i := bs ! i) =
        (\<lambda>j. if j < Suc i then bs ! j else scancode_buffer s j)" by (auto simp: less_Suc_eq)
    then show ?thesis using pos by (simp add: io_emit_def with_byte_def after_bytes_def add.commute)
  qed
  finally show ?thesis .
qed

lemma irqs_partial:
  assumes "ps2_live s" and "whole_code bs" and "scancode_buffer_pos s = 0"
    and "\<forall>i < length bs. ucast (io_env s (length (io_log s) + 2 * i)) = bs ! i"
  shows "i < length bs \<Longrightarrow> ps2_interrupts i s = Some (after_bytes bs i s)"
proof (induction i)
  case 0
  then show ?case using assms(3) by (simp add: after_bytes_def)
next
  case (Suc i)
  then have "ps2_interrupts i s = Some (after_bytes bs i s)" by simp
  moreover have "kbd_ps2_irq_handler (after_bytes bs i s) = Some (after_bytes bs (Suc i) s)"
    using irq_more_bytes [OF assms(1) Suc.prems assms(2)] assms(4) Suc.prems by simp
  ultimately show ?case using ps2_interrupts_add [of i 1 s] by simp
qed

lemma handle_scancode_bytes:
  assumes "k \<noteq> HID_KEYCODE_NULL" and "ps2_translate_keycode (render_scancode f n) = k" and "n \<noteq> 0"
  shows "ps2_kbd_handle_scancode f n s = kb_man_save_key k s"
  using assms by (simp add: ps2_kbd_handle_scancode_def hid_register_keystroke_def)

lemma kb_save_bytes_cong:
  assumes "kb_pid s = kb_pid t" "kb_buffer s = kb_buffer t" "kb_size s = kb_size t" "heap_bytes s = heap_bytes t"
  shows "heap_bytes (kb_man_save_key k s) = heap_bytes (kb_man_save_key k t)"
  using assms by (simp add: kb_man_save_key_def Let_def)

text \<open>C5:
  For every scan code of the table, the interrupts for its bytes, one after the other, store exactly
  the key that the table names, press or release, once: after the last byte the memory is what one
  stroke of that key makes of it, and the scan code buffer is empty again.
\<close>

theorem ps2_decodes_every_key:
  assumes "(sc, key) \<in> set ps2_codes" and "ps2_live s" and "scancode_buffer_pos s = 0"
    and "\<forall>i < length (code_bytes 8 sc).
      ucast (io_env s (length (io_log s) + 2 * i)) = code_bytes 8 sc ! i"
  shows "\<exists>s'. ps2_interrupts (length (code_bytes 8 sc)) s = Some s' \<and>
    heap_bytes s' = heap_bytes (kb_man_save_key key s) \<and> scancode_buffer_pos s' = 0 \<and>
    (\<forall>i < 8. scancode_buffer s' i = 0)"
proof -
  define bs where "bs = code_bytes 8 sc"
  note tab = translate_table [OF assms(1), folded bs_def]
  obtain n where n: "length bs = Suc n" using tab(3) by (cases bs) (auto simp: whole_code_def)
  let ?s = "after_bytes bs n s" and ?t = "with_byte (bs ! n) (after_bytes bs n s)"
  have n8: "n < 8" using tab(3) n by (simp add: whole_code_def)
  have pos: "unat (of_nat n :: u8) = n" "unat (of_nat n + 1 :: u8) = Suc n"
    using n8 unat_plus_nowrap [of "of_nat n :: u8" 1] by (simp_all add: unat_of_nat)
  have first: "ps2_interrupts n s = Some ?s"
    using irqs_partial [OF assms(2) tab(3) assms(3), of n] assms(4) n by (simp add: bs_def)
  have buf: "scancode_buffer ?t j = bs ! j" if "j < Suc n" for j
    using that pos by (auto simp: with_byte_def after_bytes_def)
  have stop: "\<not> ps2_kbd_needs_next_byte (scancode_buffer ?t) (Suc n)"
    using tab(3) n needs_next_byte_cong [of "Suc n" "scancode_buffer ?t" "(!) bs"] buf
    by (auto simp: whole_code_def)
  have "ps2_translate_keycode (render_scancode (scancode_buffer ?t) (Suc n)) = key"
    using render_cong [of "Suc n" "scancode_buffer ?t" "(!) bs"] buf render_code_bytes [of sc] tab(1) n
    by (simp add: bs_def)
  note handle = handle_scancode_bytes [OF tab(2) this]
  have "ucast (io_env ?s (length (io_log ?s))) = bs ! n"
    using assms(4) n by (simp add: bs_def)
  from irq_live [OF _ this] have last: "kbd_ps2_irq_handler ?s =
      apic_local_send_eoi (ps2_kbd_clear_scan_buffer (kb_man_save_key key ?t))"
    using assms(2) stop pos handle [of ?t] by (simp add: Let_def with_byte_def)
  let ?u = "ps2_kbd_clear_scan_buffer (kb_man_save_key key ?t)"
  have "apic_virtual_base ?u \<noteq> 0"
    using assms(2) by (simp add: ps2_live_def ps2_kbd_clear_scan_buffer_def kb_save_key_frame
        with_byte_def after_bytes_def)
  then have "kbd_ps2_irq_handler ?s = Some (io_emit (Wr32 (apic_virtual_base ?u + 0xB0) 0) ?u)"
    using last apic_eoi by metis
  then have "ps2_interrupts (Suc n) s = Some (io_emit (Wr32 (apic_virtual_base ?u + 0xB0) 0) ?u)"
    using ps2_interrupts_add [of n 1 s] first by simp
  moreover have "heap_bytes (kb_man_save_key key ?t) = heap_bytes (kb_man_save_key key s)"
    by (rule kb_save_bytes_cong) (simp_all add: with_byte_def after_bytes_def)
  ultimately show ?thesis
    using n by (simp add: bs_def io_emit_def ps2_kbd_clear_scan_buffer_def)
qed

text \<open>The two bytes of the code for releasing the key A, read by accesses 0 and 2.\<close>

lemma ps2_decodes_every_key_witness:
  "\<exists>s'. ps2_interrupts 2 (small_ps2 (\<lambda>n. if n = 0 then 0xF0 else 0x1C)) = Some s' \<and>
     heap_bytes s' 0x5000 = (0x80 OR HID_KEYCODE_CHAR_A) \<and> scancode_buffer_pos s' = 0"
proof -
  let ?s = "small_ps2 (\<lambda>n. if n = 0 then 0xF0 else 0x1C)"
  have bs: "code_bytes 8 0xF01C = [0xF0, 0x1C]" by code_simp
  have tab: "(0xF01C, 0x80 OR HID_KEYCODE_CHAR_A) \<in> set ps2_codes"
    by (simp add: ps2_codes_def ps2_break_codes_def)
  have reads: "\<forall>i < length (code_bytes 8 0xF01C).
      ucast (io_env ?s (length (io_log ?s) + 2 * i)) = code_bytes 8 0xF01C ! i"
  proof (intro allI impI)
    fix i assume "i < length (code_bytes 8 0xF01C)"
    then have "i = 0 \<or> i = 1" by (auto simp: bs)
    then show "ucast (io_env ?s (length (io_log ?s) + 2 * i)) = code_bytes 8 0xF01C ! i"
      by (auto simp: bs)
  qed
  have len: "length (code_bytes 8 0xF01C) = 2" by (simp add: bs)
  obtain s' where s': "ps2_interrupts 2 ?s = Some s'" "scancode_buffer_pos s' = 0"
      "heap_bytes s' = heap_bytes (kb_man_save_key (0x80 OR HID_KEYCODE_CHAR_A) ?s)"
    using ps2_decodes_every_key [OF tab _ _ reads] unfolding len by auto
  moreover have "heap_bytes (kb_man_save_key (0x80 OR HID_KEYCODE_CHAR_A) ?s) 0x5000 = 0x80 OR HID_KEYCODE_CHAR_A"
    by (simp add: kb_man_save_key_def read_u16_def Let_def)
  ultimately show ?thesis by auto
qed

lemma ps2_buffer_never_overflows_witness:
  "\<exists>s'. ps2_interrupts 1 (small_ps2 (\<lambda>_. 0xE1)) = Some s' \<and> scancode_buffer_pos s' < 8"
proof -
  have "\<exists>s'. kbd_ps2_irq_handler (small_ps2 (\<lambda>_. 0xE1)) = Some s'"
  proof -
    have live: "ps2_live (small_ps2 (\<lambda>_. 0xE1))" by simp
    show ?thesis
      unfolding irq_live [OF live refl] Let_def
      using live by (auto simp: apic_eoi ps2_live_def with_byte_def ps2_kbd_clear_scan_buffer_def)
  qed
  then obtain s' where s': "ps2_interrupts 1 (small_ps2 (\<lambda>_. 0xE1)) = Some s'" by auto
  from ps2_buffer_never_overflows [OF _ s'] show ?thesis using s' by auto
qed

end
