(* ===== verification/Kbd.thy ===== *)
theory Kbd
  imports Ps2
begin

text \<open>
  The keyboard of the window manager, \<open>apps/frames/prism/src/kbd/\<close>: the tables of \<open>tables.c\<close> that
  give a key code its character, and \<open>kbd.c\<close>, which takes the key codes out of the page that the
  kernel fills and hands each to the listeners.

  The process runs on the kernel's state: a system call is the kernel's handler, and the page of
  \<open>kb_man\<close> and the page of \<open>pmap\<close> are memory of \<open>heap_bytes\<close>, both mapped where they are. A listener
  is the address of a function; what a call of it does is the parameter \<open>listener\<close>.
\<close>

section \<open>The key codes\<close>

text \<open>
  The key codes as the window manager's own header lists them, in its order.
\<close>

definition KERNEL_KEYBOARD_CODES :: "hid_keycode list" where
  "KERNEL_KEYBOARD_CODES = [
     0x00, 0x01, 0x02, 0x03, 0x04, 0x05, 0x06, 0x07, 0x08, 0x09, 0x0A, 0x0B,
     0x0C, 0x0D, 0x0E, 0x0F, 0x10, 0x11, 0x12, 0x13, 0x14, 0x15, 0x16, 0x17,
     0x18, 0x19, 0x1A, 0x1B, 0x1C, 0x1D, 0x1E, 0x1F, 0x20, 0x21, 0x22, 0x23,
     0x24, 0x25, 0x26, 0x27, 0x28, 0x29, 0x2A, 0x2B, 0x2C, 0x2D, 0x2E, 0x2F,
     0x30, 0x31, 0x32, 0x33, 0x33, 0x34, 0x35, 0x36, 0x37, 0x38, 0x39, 0x3A,
     0x3B, 0x3C, 0x3D, 0x3E, 0x3F, 0x40, 0x41, 0x42, 0x43, 0x44, 0x45, 0x46,
     0x47, 0x48, 0x49, 0x4A, 0x4B, 0x4C, 0x4D, 0x4E, 0x4F, 0x50, 0x51, 0x52,
     0x53, 0x54, 0x55, 0x56, 0x57, 0x58, 0x59, 0x5A, 0x5B, 0x5C, 0x5D, 0x5E,
     0x5F, 0x60, 0x61, 0x62, 0x63, 0x64, 0x65, 0x66, 0x67, 0x68, 0x69, 0x6A,
     0x6B, 0x6C, 0x6D, 0x6E, 0x6F, 0x70, 0x71, 0x72, 0x73, 0x74, 0x75, 0x76,
     0x77, 0x78, 0x79, 0x7A, 0x7B, 0x7C, 0x7D, 0x7E, 0x7F]"

section \<open>Characters of the keys\<close>

definition kbd_key_ascii_default :: "u8 list" where
  "kbd_key_ascii_default =
    [0x00, 0x60, 0x31, 0x32, 0x33, 0x34, 0x35, 0x36, 0x37, 0x38, 0x39, 0x30, 0x2D, 0x3D, 0x71, 0x77, 0x65,
     0x72, 0x74, 0x79, 0x75, 0x69, 0x6F, 0x70, 0x5B, 0x5D, 0x5C, 0x61, 0x73, 0x64, 0x66, 0x67, 0x68, 0x6A,
     0x6B, 0x6C, 0x3B, 0x27, 0x7A, 0x78, 0x63, 0x76, 0x62, 0x6E, 0x6D, 0x2C, 0x2E, 0x2F, 0x20, 0x00, 0x00,
     0x00, 0x00, 0x00, 0x00, 0x00, 0x00, 0x00, 0x00, 0x00, 0x00, 0x00, 0x00, 0x00, 0x00, 0x0A, 0x09, 0x08]"

definition kbd_key_ascii_numlock :: "u8 list" where
  "kbd_key_ascii_numlock =
    [0x00, 0x60, 0x31, 0x32, 0x33, 0x34, 0x35, 0x36, 0x37, 0x38, 0x39, 0x30, 0x2D, 0x3D, 0x71, 0x77, 0x65,
     0x72, 0x74, 0x79, 0x75, 0x69, 0x6F, 0x70, 0x5B, 0x5D, 0x5C, 0x61, 0x73, 0x64, 0x66, 0x67, 0x68, 0x6A,
     0x6B, 0x6C, 0x3B, 0x27, 0x7A, 0x78, 0x63, 0x76, 0x62, 0x6E, 0x6D, 0x2C, 0x2E, 0x2F, 0x20, 0x2F, 0x2A,
     0x2D, 0x2B, 0x37, 0x38, 0x39, 0x34, 0x35, 0x36, 0x31, 0x32, 0x33, 0x30, 0x2E, 0x0A, 0x0A, 0x09, 0x08]"

definition kbd_key_ascii_capslock :: "u8 list" where
  "kbd_key_ascii_capslock =
    [0x00, 0x60, 0x31, 0x32, 0x33, 0x34, 0x35, 0x36, 0x37, 0x38, 0x39, 0x30, 0x2D, 0x3D, 0x51, 0x57, 0x45,
     0x52, 0x54, 0x59, 0x55, 0x49, 0x4F, 0x50, 0x5B, 0x5D, 0x5C, 0x41, 0x53, 0x44, 0x46, 0x47, 0x48, 0x4A,
     0x4B, 0x4C, 0x3B, 0x27, 0x5A, 0x58, 0x43, 0x56, 0x42, 0x4E, 0x4D, 0x2C, 0x2C, 0x2F, 0x20, 0x00, 0x00,
     0x00, 0x00, 0x00, 0x00, 0x00, 0x00, 0x00, 0x00, 0x00, 0x00, 0x00, 0x00, 0x00, 0x00, 0x0A, 0x09, 0x08]"

definition kbd_key_ascii_numlock_capslock :: "u8 list" where
  "kbd_key_ascii_numlock_capslock =
    [0x00, 0x60, 0x31, 0x32, 0x33, 0x34, 0x35, 0x36, 0x37, 0x38, 0x39, 0x30, 0x2D, 0x3D, 0x51, 0x57, 0x45,
     0x52, 0x54, 0x59, 0x55, 0x49, 0x4F, 0x50, 0x5B, 0x5D, 0x5C, 0x41, 0x53, 0x44, 0x46, 0x47, 0x48, 0x4A,
     0x4B, 0x4C, 0x3B, 0x27, 0x5A, 0x58, 0x43, 0x56, 0x42, 0x4E, 0x4D, 0x2C, 0x2C, 0x2F, 0x20, 0x2F, 0x2A,
     0x2D, 0x2B, 0x37, 0x38, 0x39, 0x34, 0x35, 0x36, 0x31, 0x32, 0x33, 0x30, 0x2E, 0x0A, 0x0A, 0x09, 0x08]"

definition kbd_key_ascii_shift :: "u8 list" where
  "kbd_key_ascii_shift =
    [0x00, 0x7E, 0x21, 0x40, 0x23, 0x24, 0x25, 0x5E, 0x26, 0x2A, 0x28, 0x29, 0x5F, 0x2B, 0x51, 0x57, 0x45,
     0x52, 0x54, 0x59, 0x55, 0x49, 0x4F, 0x50, 0x7B, 0x7D, 0x7C, 0x41, 0x53, 0x44, 0x46, 0x47, 0x48, 0x4A,
     0x4B, 0x4C, 0x3A, 0x22, 0x5A, 0x58, 0x43, 0x56, 0x42, 0x4E, 0x4D, 0x3C, 0x3E, 0x3F, 0x20, 0x00, 0x00,
     0x00, 0x00, 0x00, 0x00, 0x00, 0x00, 0x00, 0x00, 0x00, 0x00, 0x00, 0x00, 0x00, 0x00, 0x0A, 0x09, 0x08]"

definition kbd_key_ascii_shift_numlock :: "u8 list" where
  "kbd_key_ascii_shift_numlock =
    [0x00, 0x7E, 0x21, 0x40, 0x23, 0x24, 0x25, 0x5E, 0x26, 0x2A, 0x28, 0x29, 0x5F, 0x2B, 0x51, 0x57, 0x45,
     0x52, 0x54, 0x59, 0x55, 0x49, 0x4F, 0x50, 0x7B, 0x7D, 0x7C, 0x41, 0x53, 0x44, 0x46, 0x47, 0x48, 0x4A,
     0x4B, 0x4C, 0x3A, 0x22, 0x5A, 0x58, 0x43, 0x56, 0x42, 0x4E, 0x4D, 0x3C, 0x3E, 0x3F, 0x20, 0x2F, 0x2A,
     0x2D, 0x2B, 0x37, 0x38, 0x39, 0x34, 0x35, 0x36, 0x31, 0x32, 0x33, 0x30, 0x2E, 0x0A, 0x0A, 0x09, 0x08]"

definition kbd_key_ascii_shift_capslock :: "u8 list" where
  "kbd_key_ascii_shift_capslock =
    [0x00, 0x7E, 0x21, 0x40, 0x23, 0x24, 0x25, 0x5E, 0x26, 0x2A, 0x28, 0x29, 0x5F, 0x2B, 0x71, 0x77, 0x65,
     0x72, 0x74, 0x79, 0x75, 0x69, 0x6F, 0x70, 0x7B, 0x7D, 0x7C, 0x61, 0x73, 0x64, 0x66, 0x67, 0x68, 0x6A,
     0x6B, 0x6C, 0x3A, 0x22, 0x7A, 0x78, 0x63, 0x76, 0x62, 0x6E, 0x6D, 0x3C, 0x3E, 0x3F, 0x20, 0x00, 0x00,
     0x00, 0x00, 0x00, 0x00, 0x00, 0x00, 0x00, 0x00, 0x00, 0x00, 0x00, 0x00, 0x00, 0x00, 0x0A, 0x09, 0x08]"

definition kbd_key_ascii_shift_numlock_capslock :: "u8 list" where
  "kbd_key_ascii_shift_numlock_capslock =
    [0x00, 0x7E, 0x21, 0x40, 0x23, 0x24, 0x25, 0x5E, 0x26, 0x2A, 0x28, 0x29, 0x5F, 0x2B, 0x71, 0x77, 0x65,
     0x72, 0x74, 0x79, 0x75, 0x69, 0x6F, 0x70, 0x7B, 0x7D, 0x7C, 0x61, 0x73, 0x64, 0x66, 0x67, 0x68, 0x6A,
     0x6B, 0x6C, 0x3A, 0x22, 0x7A, 0x78, 0x63, 0x76, 0x62, 0x6E, 0x6D, 0x3C, 0x3E, 0x3F, 0x20, 0x2F, 0x2A,
     0x2D, 0x2B, 0x37, 0x38, 0x39, 0x34, 0x35, 0x36, 0x31, 0x32, 0x33, 0x30, 0x2E, 0x0A, 0x0A, 0x09, 0x08]"

section \<open>State\<close>

record kbd_state = ps2_state +
  internal_buffer :: u64
  internal_buffer_size :: u64
  kbd_started :: bool
  listeners :: u64
  listeners_count :: u64
  kb_shift :: bool
  kb_caps :: bool
  kb_nums :: bool

definition kbd_char_decode :: "hid_keycode \<Rightarrow> 'z kbd_state_scheme \<Rightarrow> u8" where
  "kbd_char_decode keycode s =
     (let keycode = keycode AND 0x7F
      in if keycode > 0x42 then 0
         else if keycode = 0 then 0
         else
           (if kb_shift s
            then if kb_caps s
                 then if kb_nums s then kbd_key_ascii_shift_numlock_capslock else kbd_key_ascii_shift_capslock
                 else if kb_nums s then kbd_key_ascii_shift_numlock else kbd_key_ascii_shift
            else if kb_caps s
                 then if kb_nums s then kbd_key_ascii_numlock_capslock else kbd_key_ascii_capslock
                 else if kb_nums s then kbd_key_ascii_numlock else kbd_key_ascii_default) ! unat keycode)"

section \<open>Start and stop\<close>

definition kbd_init :: "'z kbd_state_scheme \<Rightarrow> (bool \<times> 'z kbd_state_scheme) option" where
  "kbd_init s =
     (if kbd_started s then Some (True, s)
      else do {
        (buffer, s) \<leftarrow> kb_man True s;
        let s = s\<lparr>internal_buffer := buffer\<rparr>;
        if buffer = 0 then Some (False, s)
        else do {
          let s = s\<lparr>internal_buffer_size := buffer + 0x1000 - 2\<rparr>;
          if read_u16 (heap_bytes s) (internal_buffer_size s) \<noteq> 0 then Some (False, s)
          else if listeners s \<noteq> 0 then Some (False, s)
          else do {
            (page, s) \<leftarrow> pmap 0 s;
            let s = s\<lparr>listeners := page\<rparr>;
            if page = 0 then Some (False, s)
            else Some (True, s\<lparr>listeners_count := 0, heap_bytes := memset (heap_bytes s) page 0 0x1000,
                   kbd_started := True\<rparr>) } } })"

definition kbd_kill :: "'z kbd_state_scheme \<Rightarrow> 'z kbd_state_scheme option" where
  "kbd_kill s = do {
     (_, s) \<leftarrow> kb_man False (s\<lparr>kbd_started := False\<rparr>);
     Some (s\<lparr>internal_buffer := 0, internal_buffer_size := 0\<rparr>) }"

section \<open>Listeners\<close>

definition write_u64 :: "mem \<Rightarrow> u64 \<Rightarrow> u64 \<Rightarrow> mem" where
  "write_u64 m p v =
     (\<lambda>a. if unat (a - p) < 8 then ucast (drop_bit (8 * unat (a - p)) v) else m a)"

text \<open>\<open>listeners[i]\<close>\<close>

definition listener_at :: "u64 \<Rightarrow> 'z kbd_state_scheme \<Rightarrow> u64" where
  "listener_at i s = read_u64 (heap_bytes s) (listeners s + 8 * i)"

definition set_listener :: "u64 \<Rightarrow> u64 \<Rightarrow> 'z kbd_state_scheme \<Rightarrow> 'z kbd_state_scheme" where
  "set_listener i f s = s\<lparr>heap_bytes := write_u64 (heap_bytes s) (listeners s + 8 * i) f\<rparr>"

definition kbd_add_listener :: "u64 \<Rightarrow> 'z kbd_state_scheme \<Rightarrow> bool \<times> 'z kbd_state_scheme" where
  "kbd_add_listener f s =
     (if \<not> kbd_started s then (False, s)
      else if listeners_count s \<ge> 0x1000 div 8 then (False, s)
      else (True, (set_listener (listeners_count s) f s)\<lparr>listeners_count := listeners_count s + 1\<rparr>))"

text \<open>
  The index that was found and "not found" are both 0. The move reads one entry behind the last.
\<close>

definition kbd_remove_listener :: "u64 \<Rightarrow> 'z kbd_state_scheme \<Rightarrow> 'z kbd_state_scheme" where
  "kbd_remove_listener f s =
     (if \<not> kbd_started s then s
      else
        let n = unat (listeners_count s);
            target = (case find (\<lambda>i. listener_at (of_nat i) s = f) [0..<n] of None \<Rightarrow> 0 | Some i \<Rightarrow> i)
        in if target = 0 then s
           else
             let s = set_listener (of_nat target) 0 s;
                 s = fold (\<lambda>i s. set_listener (of_nat i) (listener_at (of_nat i + 1) s) s) [target..<n] s;
                 s = set_listener (listeners_count s) 0 s
             in s\<lparr>listeners_count := listeners_count s - 1\<rparr>)"

definition kbd_modifiers :: "hid_keycode \<Rightarrow> 'z kbd_state_scheme \<Rightarrow> 'z kbd_state_scheme" where
  "kbd_modifiers keycode s =
     (if keycode = HID_KEYCODE_CAPSLOCK then s\<lparr>kb_caps := \<not> kb_caps s\<rparr>
      else if keycode = HID_KEYCODE_NUMLOCK then s\<lparr>kb_nums := \<not> kb_nums s\<rparr>
      else if keycode = HID_KEYCODE_LEFT_SHIFT \<or> keycode = HID_KEYCODE_RIGHT_SHIFT
      then s\<lparr>kb_shift := True\<rparr>
      else if keycode = HID_KEYCODE_LEFT_SHIFT OR 0x80 \<or> keycode = HID_KEYCODE_RIGHT_SHIFT OR 0x80
      then s\<lparr>kb_shift := False\<rparr>
      else s)"

partial_function (option) kbd_notify ::
    "(u64 \<Rightarrow> hid_keycode \<Rightarrow> 'z kbd_state_scheme \<Rightarrow> 'z kbd_state_scheme option) \<Rightarrow>
      u64 \<Rightarrow> hid_keycode \<Rightarrow> 'z kbd_state_scheme \<Rightarrow> 'z kbd_state_scheme option" where
  "kbd_notify listener j keycode s =
     (if \<not> j < listeners_count s then Some s
      else do {
        s \<leftarrow> (if listener_at j s \<noteq> 0 then listener (listener_at j s) keycode s else Some s);
        kbd_notify listener (j + 1) keycode s })"

fun kbd_deliver ::
    "(u64 \<Rightarrow> hid_keycode \<Rightarrow> 'z kbd_state_scheme \<Rightarrow> 'z kbd_state_scheme option) \<Rightarrow>
      nat list \<Rightarrow> 'z kbd_state_scheme \<Rightarrow> 'z kbd_state_scheme option" where
  "kbd_deliver listener [] s = Some s"
| "kbd_deliver listener (i # is) s = do {
     let keycode = heap_bytes s (internal_buffer s + of_nat i);
     s \<leftarrow> kbd_notify listener 0 keycode (kbd_modifiers keycode s);
     kbd_deliver listener is s }"

definition kbd_update ::
    "(u64 \<Rightarrow> hid_keycode \<Rightarrow> 'z kbd_state_scheme \<Rightarrow> 'z kbd_state_scheme option) \<Rightarrow>
      'z kbd_state_scheme \<Rightarrow> 'z kbd_state_scheme option" where
  "kbd_update listener s =
     (if \<not> kbd_started s then Some s
      else
        let buffered_keys = read_u16 (heap_bytes s) (internal_buffer_size s)
        in if buffered_keys = 0 then Some s
           else do {
             s \<leftarrow> kbd_deliver listener [0..<unat buffered_keys] s;
             let m = memset (heap_bytes s) (internal_buffer s) 0 (ucast (buffered_keys + 1));
             Some (s\<lparr>heap_bytes := write_u16 m (internal_buffer_size s) 0\<rparr>) })"

end
