(* ===== verification/Text_Render.thy ===== *)
theory Text_Render
  imports Kbd
begin

text \<open>
  The text renderer of the window manager, \<open>apps/frames/prism/src/gfx/text/\<close>: characters of 8 by 8
  pixels on a framebuffer of 32 bits for each pixel, which is memory of the state at the address
  that \<open>fb_req\<close> gives. A glyph is a word of 64 bits, row by row from its lowest bit.
\<close>

section \<open>The font\<close>

definition integrated_font_low :: "u64 list" where
  "integrated_font_low =
    [0x0000000000000000, 0x0000000000000000, 0x000000FF00000000, 0x000000FF00FF0000,
     0x1818181818181818, 0x6C6C6C6C6C6C6C6C, 0x181818F800000000, 0x6C6C6CEC0CFC0000,
     0x1818181F00000000, 0x6C6C6C6F607F0000, 0x000000F818181818, 0x000000FC0CEC6C6C,
     0x0000001F18181818, 0x0000007F606F6C6C, 0x187E7EFFFF7E7E18, 0x0081818181818100,
     0x0000000000000000, 0x0000000000000000, 0x0000000000000000, 0x0000000000000000,
     0x0000000000000000, 0x0000000000000000, 0x0000000000000000, 0x0000000000000000,
     0x0000000000000000, 0x0000000000000000, 0x0000000000000000, 0x0000000000000000,
     0x0000000000000000, 0x0000000000000000, 0x0000000000000000, 0x0008000000000000,
     0x0000000000000000, 0x00180018183C3C18, 0x0000000000121236, 0x006C6CFE6CFE6C6C,
     0x00187ED07C16FC30, 0x0060660C18306606, 0x00DC66B61C36361C, 0x0000000000181818,
     0x0030180C0C0C1830, 0x000C18303030180C, 0x0000187E3C7E1800, 0x000018187E181800,
     0x0C18180000000000, 0x000000007E000000, 0x0018180000000000, 0x0000060C18306000,
     0x003C42464A52623C, 0x007E101010101C10, 0x007E04081020423C, 0x003C42403840423C,
     0x0020207E22242830, 0x003C4240403E027E, 0x003C42423E020438, 0x000404081020407E,
     0x003C42423C42423C, 0x001C20407C42423C, 0x0018180018180000, 0x0C18180018180000,
     0x0030180C060C1830, 0x0000007E007E0000, 0x000C18306030180C, 0x001800181830663C,
     0x003C06765676663C, 0x0042427E42422418, 0x003E42423E42423E, 0x003C42020202423C,
     0x001E22424242221E, 0x007E02023E02027E, 0x000202023E02027E, 0x003C42427202423C,
     0x004242427E424242, 0x007C10101010107C, 0x001C22202020207E, 0x004222120E0A1222,
     0x007E020202020202, 0x0082828292AAC682, 0x00424262524A4642, 0x003C42424242423C,
     0x000202023E42423E, 0x005C22424242423C, 0x004242423E42423E, 0x003C42403C02423C,
     0x001010101010107C, 0x003C424242424242, 0x0018244242424242, 0x0044AAAA92828282,
     0x0042422418244242, 0x0010101038444444, 0x007E04081020407E, 0x003E02020202023E,
     0x00006030180C0600, 0x007C40404040407C, 0x000000000000663C, 0xFF00000000000000,
     0x000000000030180C, 0x007C427C403C0000, 0x003E4242423E0202, 0x003C4202423C0000,
     0x007C4242427C4040, 0x003C027E423C0000, 0x000404043E040438, 0x3C407C42427C0000,
     0x00424242423E0202, 0x003C1010101C0018, 0x0E101010101C0018, 0x0042221E22420200,
     0x003C101010101018, 0x00829292AA440000, 0x00424242423E0000, 0x003C4242423C0000,
     0x02023E42423E0000, 0xC0407C42427C0000, 0x00020202463A0000, 0x003E403C027C0000,
     0x00380404043E0404, 0x003C424242420000, 0x0018244242420000, 0x006C929292820000,
     0x0042241824420000, 0x3C407C4242420000, 0x007E0418207E0000, 0x003018180E181830,
     0x0018181818181818, 0x000C18187018180C, 0x000000000062D68C, 0xFFFFFFFFFFFFFFFF]"

definition integrated_font_high :: "u64 list" where
  "integrated_font_high =
    [0x1E30181E3303331E, 0x007E333333003300, 0x001E033F331E0038, 0x00FC667C603CC37E,
     0x007E333E301E0033, 0x007E333E301E0007, 0x007E333E301E0C0C, 0x3C603E03033E0000,
     0x003C067E663CC37E, 0x001E033F331E0033, 0x001E033F331E0007, 0x001E0C0C0C0E0033,
     0x003C1818181C633E, 0x001E0C0C0C0E0007, 0x00333F33331E0C33, 0x00333F331E000C0C,
     0x003F061E063F0038, 0x00FE33FE30FE0000, 0x007333337F33367C, 0x001E33331E00331E,
     0x001E33331E003300, 0x001E33331E000700, 0x007E33333300331E, 0x007E333333000700,
     0x1F303F3333003300, 0x001C3E63633E1C63, 0x001E333333330033, 0x18187E03037E1818,
     0x003F67060F26361C, 0x000C3F0C3F1E3333, 0x70337B332F1B1B0F, 0x0E1B18187E18D870,
     0x007E333E301E0038, 0x001E0C0C0C0E001C, 0x001E33331E003800, 0x007E333333003800,
     0x003333331F001F00, 0x00333B3F3733003F, 0x00007E007C36363C, 0x00007E003C66663C,
     0x001E3303060C000C, 0x000003033F000000, 0x000030303F000000, 0xF81973C67C1B3363,
     0xC0F9F3E6CF1B3363, 0x183C3C1818001800, 0x0000CC663366CC00, 0x00003366CC663300,
     0x1144114411441144, 0x55AA55AA55AA55AA, 0xEEBBEEBBEEBBEEBB, 0x1818181818181818,
     0x1818181F18181818, 0x1818181F181F1818, 0x6C6C6C6F6C6C6C6C, 0x6C6C6C7F00000000,
     0x1818181F181F0000, 0x6C6C6C6F606F6C6C, 0x6C6C6C6C6C6C6C6C, 0x6C6C6C6F607F0000,
     0x0000007F606F6C6C, 0x0000007F6C6C6C6C, 0x0000001F181F1818, 0x1818181F00000000,
     0x000000F818181818, 0x000000FF18181818, 0x181818FF00000000, 0x181818F818181818,
     0x000000FF00000000, 0x181818FF18181818, 0x181818F818F81818, 0x6C6C6CEC6C6C6C6C,
     0x000000FC0CEC6C6C, 0x6C6C6CEC0CFC0000, 0x000000FF00EF6C6C, 0x6C6C6CEF00FF0000,
     0x6C6C6CEC0CEC6C6C, 0x000000FF00FF0000, 0x6C6C6CEF00EF6C6C, 0x000000FF00FF1818,
     0x000000FF6C6C6C6C, 0x181818FF00FF0000, 0x6C6C6CFF00000000, 0x000000FC6C6C6C6C,
     0x000000F818F81818, 0x181818F818F80000, 0x6C6C6CFC00000000, 0x6C6C6CEF6C6C6C6C,
     0x181818FF00FF1818, 0x0000001F18181818, 0x181818F800000000, 0xFFFFFFFFFFFFFFFF,
     0xFFFFFFFF00000000, 0x0F0F0F0F0F0F0F0F, 0xF0F0F0F0F0F0F0F0, 0x00000000FFFFFFFF,
     0x006E3B133B6E0000, 0x03031F331F331E00, 0x0003030303637F00, 0x0036363636367F00,
     0x007F660C180C667F, 0x001E3333337E0000, 0x03063E6666666600, 0x00181818183B6E00,
     0x3F0C1E33331E0C3F, 0x001C36637F63361C, 0x007736366363361C, 0x001E33333E180C38,
     0x00007EDBDB7E0000, 0x03067EDBDB7E3060, 0x003C06033F03063C, 0x003333333333331E,
     0x00003F003F003F00, 0x003F000C0C3F0C0C, 0x003F00060C180C06, 0x003F00180C060C18,
     0x1818181818D8D870, 0x0E1B1B1818181818, 0x000C0C003F000C0C, 0x0000394E00394E00,
     0x000000001C36361C, 0x0000001818000000, 0x0000001800000000, 0x383C3637303030F0,
     0x000000363636361E, 0x0000003E061C301E, 0x00003C3C3C3C0000, 0xFFFFFFFFFFFFFFFF]"

definition integrated_font :: "u64 list" where
  "integrated_font = integrated_font_low @ integrated_font_high"

section \<open>State\<close>

abbreviation TEXT_BACKGROUND_COLOR :: u32 where "TEXT_BACKGROUND_COLOR \<equiv> 0x00111111"
abbreviation TEXT_GLYPH_WIDTH :: u64 where "TEXT_GLYPH_WIDTH \<equiv> 0x08"
abbreviation TEXT_GLYPH_HEIGHT :: u64 where "TEXT_GLYPH_HEIGHT \<equiv> 0x08"

record text_state = kbd_state +
  screen_fb :: u64
  screen_width :: u64
  screen_height :: u64
  screen_cols :: u64
  screen_rows :: u64
  glyph_width :: u64
  glyph_height :: u64
  glyphs_loaded :: bool
  screen_ready :: bool
  font_booleans :: "nat \<Rightarrow> nat \<Rightarrow> u8"

definition text_renderer_load_glyph :: "'z text_state_scheme \<Rightarrow> 'z text_state_scheme" where
  "text_renderer_load_glyph s =
     s\<lparr>font_booleans := (\<lambda>i j. if i < 0x100 \<and> j < 0x40
        then ucast (drop_bit j (integrated_font ! i) AND 1) else font_booleans s i j)\<rparr>"

definition text_glyph_read :: "u8 \<Rightarrow> u64 \<Rightarrow> 'z text_state_scheme \<Rightarrow> bool" where
  "text_glyph_read c at s \<longleftrightarrow> font_booleans s (unat c) (unat at) \<noteq> 0"

definition text_render_load_dimensions :: "u64 \<Rightarrow> u64 \<Rightarrow> 'z text_state_scheme \<Rightarrow> 'z text_state_scheme" where
  "text_render_load_dimensions wide high s =
     (let s = s\<lparr>glyphs_loaded := True, glyph_width := TEXT_GLYPH_WIDTH, glyph_height := TEXT_GLYPH_HEIGHT,
            screen_width := wide, screen_height := high\<rparr>
      in s\<lparr>screen_cols := screen_width s div glyph_width s, screen_rows := screen_height s div glyph_height s\<rparr>)"

definition text_render_clear :: "'z text_state_scheme \<Rightarrow> 'z text_state_scheme" where
  "text_render_clear s =
     (if \<not> screen_ready s then s
      else s\<lparr>heap_bytes := memset (heap_bytes s) (screen_fb s) 0 (screen_width s * screen_height s * 4)\<rparr>)"

definition text_render_init :: "'z text_state_scheme \<Rightarrow> 'z text_state_scheme option" where
  "text_render_init s =
     (if screen_ready s then Some s
      else do {
        (fb, s) \<leftarrow> fb_req s;
        let s = s\<lparr>screen_fb := fb\<rparr>;
        if fb = 0 then Some s
        else do {
          wide \<leftarrow> rdinfo 1 s;
          high \<leftarrow> rdinfo 2 s;
          let s = text_renderer_load_glyph (text_render_load_dimensions wide high s);
          Some (text_render_clear (s\<lparr>screen_ready := True\<rparr>)) } })"

definition text_render_stop :: "'z text_state_scheme \<Rightarrow> 'z text_state_scheme option" where
  "text_render_stop s =
     (if \<not> screen_ready s then Some s else fb_kill (s\<lparr>screen_ready := False\<rparr>))"

section \<open>Colors\<close>

definition text_translate_color_code :: "u8 \<Rightarrow> u32" where
  "text_translate_color_code color_code =
     (if color_code = 0 then TEXT_BACKGROUND_COLOR
      else if color_code = 15 then 0xFFFFFF
      else if color_code = 4 then 0xFF0000
      else if color_code = 1 then 0x2222FF
      else if color_code = 2 then 0x22FF22
      else if color_code = 3 then 0x11FFFF
      else if color_code = 5 then 0xFF01AA
      else if color_code = 6 then 0xFFEBCD
      else if color_code = 7 then 0xDDDDDD
      else if color_code = 8 then 0x555555
      else if color_code = 9 then 0x01AAFF
      else if color_code = 10 then 0x01FF01
      else if color_code = 11 then 0x01DDFF
      else if color_code = 12 then 0xFF2222
      else if color_code = 13 then 0xFF0077
      else if color_code = 14 then 0x8B4513
      else TEXT_BACKGROUND_COLOR)"

definition TEXT_COLOR_COMBO :: "u8 \<Rightarrow> u8 \<Rightarrow> u8" where
  "TEXT_COLOR_COMBO fg bg = push_bit 4 bg OR fg"

definition TEXT_COLOR_GET_FG :: "u8 \<Rightarrow> u8" where
  "TEXT_COLOR_GET_FG color = color AND 0x0F"

definition TEXT_COLOR_GET_BG :: "u8 \<Rightarrow> u8" where
  "TEXT_COLOR_GET_BG color = drop_bit 4 color"

section \<open>Drawing\<close>

record text_render_pos =
  p_x :: u64
  p_y :: u64

definition write_u32 :: "mem \<Rightarrow> u64 \<Rightarrow> u32 \<Rightarrow> mem" where
  "write_u32 m p v =
     (\<lambda>a. if unat (a - p) < 4 then ucast (drop_bit (8 * unat (a - p)) v) else m a)"

text \<open>The values of \<open>for (xx = p; xx < p + 8; xx++)\<close>: none when the limit wraps around.\<close>

definition glyph_run :: "u64 \<Rightarrow> u64 list" where
  "glyph_run p = (if p < p + 8 then map (\<lambda>i. p + of_nat i) [0..<8] else [])"

definition put_pixel :: "u64 \<Rightarrow> u64 \<Rightarrow> u32 \<Rightarrow> 'z text_state_scheme \<Rightarrow> 'z text_state_scheme" where
  "put_pixel xx yy v s =
     s\<lparr>heap_bytes := write_u32 (heap_bytes s) (screen_fb s + 4 * (yy * screen_width s + xx)) v\<rparr>"

definition text_render_place_at ::
    "text_render_pos \<Rightarrow> u8 \<Rightarrow> u8 \<Rightarrow> 'z text_state_scheme \<Rightarrow> 'z text_state_scheme" where
  "text_render_place_at pos c color s =
     (if \<not> screen_ready s then s
      else
        let fore_pixel = text_translate_color_code (TEXT_COLOR_GET_FG color);
            back_pixel = text_translate_color_code (TEXT_COLOR_GET_BG color);
            x0 = p_x pos * TEXT_GLYPH_WIDTH;
            y0 = p_y pos * TEXT_GLYPH_HEIGHT
        in fold (\<lambda>xx s. fold (\<lambda>yy s.
               put_pixel xx yy
                 (if text_glyph_read c ((yy - y0) * glyph_width s + (xx - x0)) s
                  then fore_pixel else back_pixel) s)
             (glyph_run y0) s) (glyph_run x0) s)"

definition text_render_clean_at :: "text_render_pos \<Rightarrow> 'z text_state_scheme \<Rightarrow> 'z text_state_scheme" where
  "text_render_clean_at pos s =
     (if \<not> screen_ready s then s
      else
        let x0 = p_x pos * TEXT_GLYPH_WIDTH; y0 = p_y pos * TEXT_GLYPH_HEIGHT
        in fold (\<lambda>xx s. fold (\<lambda>yy s. put_pixel xx yy 0 s) (glyph_run y0) s) (glyph_run x0) s)"

text \<open>The position of a column and row in pixels; without columns or rows the division faults.\<close>

record text_render_pos_align =
  al_col :: u64
  al_row :: u64

definition text_render_pos_convert ::
    "text_render_pos_align \<Rightarrow> 'z text_state_scheme \<Rightarrow> text_render_pos option" where
  "text_render_pos_convert aligned s =
     (if screen_cols s = 0 \<or> screen_rows s = 0 then None
      else Some \<lparr>p_x = al_col aligned * (screen_width s div screen_cols s),
                 p_y = al_row aligned * (screen_height s div screen_rows s)\<rparr>)"

end
