(* ===== verification/Menus.thy ===== *)
theory Menus
  imports Text_Render
begin

text \<open>
  The main menu, \<open>apps/frames/prism/src/ux/menus/menu_main.c\<close>, and the text user interface that
  connects it with the keyboard and the screen, \<open>apps/frames/prism/src/ux/tui.c\<close>. The menu items are
  constants; a pointer to one is its name, with \<open>None\<close> for NULL.
\<close>

section \<open>Text on the screen\<close>

abbreviation MENU_STRING_INDENT_SIZE :: u64 where "MENU_STRING_INDENT_SIZE \<equiv> 4"

definition menu_render_char ::
    "u64 \<Rightarrow> u8 \<Rightarrow> u8 \<Rightarrow> text_render_pos \<times> 'z text_state_scheme \<Rightarrow> text_render_pos \<times> 'z text_state_scheme" where
  "menu_render_char col color c = (\<lambda>(pos, s).
     (if c = 0x0A then (pos\<lparr>p_x := col, p_y := p_y pos + 1\<rparr>, s)
      else if c = 0x09
      then (pos\<lparr>p_x := p_x pos + (MENU_STRING_INDENT_SIZE - p_x pos mod MENU_STRING_INDENT_SIZE)\<rparr>, s)
      else if c = 0x08
      then (pos\<lparr>p_x := if p_x pos - 1 < col then col else p_x pos - 1\<rparr>, s)
      else if c = 0x0D then (pos\<lparr>p_x := col\<rparr>, s)
      else (pos\<lparr>p_x := p_x pos + 1\<rparr>, text_render_place_at pos c color s)))"

text \<open>\<open>str\<close> are the bytes in front of the terminating zero.\<close>

definition menu_render_string_at ::
    "u64 \<Rightarrow> u64 \<Rightarrow> u8 list \<Rightarrow> u8 \<Rightarrow> 'z text_state_scheme \<Rightarrow> 'z text_state_scheme" where
  "menu_render_string_at col row str color s =
     snd (fold (menu_render_char col color) str (\<lparr>p_x = col, p_y = row\<rparr>, s))"

section \<open>The items\<close>

abbreviation TEXT_COLOR_GREEN :: u8 where "TEXT_COLOR_GREEN \<equiv> 2"
abbreviation TEXT_COLOR_CYAN :: u8 where "TEXT_COLOR_CYAN \<equiv> 3"
abbreviation TEXT_COLOR_RED :: u8 where "TEXT_COLOR_RED \<equiv> 4"
abbreviation TEXT_COLOR_MAGENTA :: u8 where "TEXT_COLOR_MAGENTA \<equiv> 5"
abbreviation TEXT_COLOR_WHITE :: u8 where "TEXT_COLOR_WHITE \<equiv> 15"
abbreviation MENU_MAIN_INDENT_SIZE :: u64 where "MENU_MAIN_INDENT_SIZE \<equiv> 4"
abbreviation MENU_MAIN_MARGIN_TOP :: u64 where "MENU_MAIN_MARGIN_TOP \<equiv> 2"
abbreviation MENU_MAIN_MARGIN_LEFT :: u64 where "MENU_MAIN_MARGIN_LEFT \<equiv> 4"

datatype menu_option = Option_1 | Option_2 | Option_3 | Option_4
datatype menu_task = Option_Clear | Option_Ping | Do_Nothing

record menu_item =
  it_next :: "menu_option option"
  it_perform :: menu_task
  it_text :: "u8 list"
  it_col :: u64
  it_row :: u64
  it_color :: u8
  it_up :: "menu_option option"
  it_down :: "menu_option option"
  it_left :: "menu_option option"
  it_right :: "menu_option option"

fun menu_main_item :: "menu_option \<Rightarrow> menu_item" where
  "menu_main_item Option_1 =
     \<lparr>it_next = Some Option_2, it_perform = Option_Clear, it_text = text_of ''Clear'',
      it_col = 0, it_row = 0, it_color = TEXT_COLOR_RED,
      it_up = Some Option_2, it_down = Some Option_2, it_left = None, it_right = Some Option_3\<rparr>"
| "menu_main_item Option_2 =
     \<lparr>it_next = Some Option_3, it_perform = Option_Ping, it_text = text_of ''Ping...'',
      it_col = 0, it_row = 6, it_color = TEXT_COLOR_CYAN,
      it_up = Some Option_1, it_down = Some Option_1, it_left = None, it_right = None\<rparr>"
| "menu_main_item Option_3 =
     \<lparr>it_next = Some Option_4, it_perform = Do_Nothing, it_text = text_of ''Continue'',
      it_col = MENU_MAIN_INDENT_SIZE, it_row = 2, it_color = TEXT_COLOR_GREEN,
      it_up = Some Option_4, it_down = Some Option_4, it_left = Some Option_1, it_right = None\<rparr>"
| "menu_main_item Option_4 =
     \<lparr>it_next = None, it_perform = Do_Nothing, it_text = text_of ''Option 4'',
      it_col = MENU_MAIN_INDENT_SIZE, it_row = 4, it_color = TEXT_COLOR_MAGENTA,
      it_up = Some Option_3, it_down = Some Option_3, it_left = Some Option_1, it_right = None\<rparr>"

record menu_state = text_state +
  menu_needs_update :: bool
  selected_option :: "menu_option option"
  pong :: bool
  menu_drawn :: bool
  menu_initialized :: bool

definition menu_perform :: "menu_task \<Rightarrow> 'z menu_state_scheme \<Rightarrow> 'z menu_state_scheme" where
  "menu_perform task s =
     (case task of
        Option_Clear \<Rightarrow> (text_render_clear s)\<lparr>menu_needs_update := True\<rparr>
      | Option_Ping \<Rightarrow>
          let s = menu_render_string_at (MENU_MAIN_MARGIN_LEFT + 0) (MENU_MAIN_MARGIN_TOP + 7)
                (if pong s then text_of ''Pong!'' else text_of ''Pong?'')
                (TEXT_COLOR_COMBO TEXT_COLOR_WHITE TEXT_COLOR_RED) s
          in s\<lparr>pong := \<not> pong s\<rparr>
      | Do_Nothing \<Rightarrow> s)"

section \<open>Selection\<close>

definition INVERT_COLOR_BG :: "u8 \<Rightarrow> u8" where
  "INVERT_COLOR_BG color = color XOR 0x80"

definition menu_render_item :: "menu_item \<Rightarrow> u8 \<Rightarrow> 'z text_state_scheme \<Rightarrow> 'z text_state_scheme" where
  "menu_render_item i color s =
     menu_render_string_at (MENU_MAIN_MARGIN_LEFT + it_col i) (MENU_MAIN_MARGIN_TOP + it_row i)
       (it_text i) color s"

definition menu_main_highlight_option :: "menu_option \<Rightarrow> 'z text_state_scheme \<Rightarrow> 'z text_state_scheme" where
  "menu_main_highlight_option opt s =
     (let i = menu_main_item opt in menu_render_item i (INVERT_COLOR_BG (it_color i)) s)"

definition menu_main_unhighlight_option :: "menu_option \<Rightarrow> 'z text_state_scheme \<Rightarrow> 'z text_state_scheme" where
  "menu_main_unhighlight_option opt s =
     (let i = menu_main_item opt in menu_render_item i (it_color i) s)"

definition menu_main_select_option ::
    "menu_option option \<Rightarrow> 'z menu_state_scheme \<Rightarrow> 'z menu_state_scheme option" where
  "menu_main_select_option opt s =
     (case opt of
        None \<Rightarrow> Some s
      | Some new \<Rightarrow> do {
          old \<leftarrow> selected_option s;
          let s = (menu_main_unhighlight_option old s)\<lparr>selected_option := Some new\<rparr>;
          Some (menu_main_highlight_option new s) })"

partial_function (option) menu_draw_items ::
    "menu_option option \<Rightarrow> 'z menu_state_scheme \<Rightarrow> 'z menu_state_scheme option" where
  "menu_draw_items item s =
     (case item of
        None \<Rightarrow> Some s
      | Some i \<Rightarrow> menu_draw_items (it_next (menu_main_item i))
          (menu_render_item (menu_main_item i) (it_color (menu_main_item i)) s))"

definition menu_main_draw :: "'z menu_state_scheme \<Rightarrow> 'z menu_state_scheme option" where
  "menu_main_draw s = do {
     s \<leftarrow> menu_draw_items (Some Option_1) (text_render_clear (s\<lparr>menu_drawn := False\<rparr>));
     let s = s\<lparr>menu_drawn := True\<rparr>;
     menu_main_select_option (selected_option s) s }"

definition menu_initialize :: "'z menu_state_scheme \<Rightarrow> 'z menu_state_scheme option" where
  "menu_initialize s =
     (if menu_initialized s then Some s
      else do {
        let s = s\<lparr>selected_option := Some Option_1\<rparr>;
        s \<leftarrow> menu_main_select_option (selected_option s) s;
        Some (s\<lparr>menu_needs_update := True, menu_initialized := True\<rparr>) })"

definition menu_main_update :: "'z menu_state_scheme \<Rightarrow> 'z menu_state_scheme option" where
  "menu_main_update s = do {
     s \<leftarrow> (if \<not> menu_initialized s then menu_initialize s else Some s);
     if \<not> menu_needs_update s then Some s
     else do {
       s \<leftarrow> menu_main_draw s;
       Some (s\<lparr>menu_needs_update := False\<rparr>) } }"

definition menu_main_handle_key ::
    "hid_keycode \<Rightarrow> 'z menu_state_scheme \<Rightarrow> 'z menu_state_scheme option" where
  "menu_main_handle_key keycode s =
     (case selected_option s of
        None \<Rightarrow> Some s
      | Some opt \<Rightarrow>
          let i = menu_main_item opt
          in if keycode = HID_KEYCODE_UP then menu_main_select_option (it_up i) s
             else if keycode = HID_KEYCODE_DOWN then menu_main_select_option (it_down i) s
             else if keycode = HID_KEYCODE_LEFT then menu_main_select_option (it_left i) s
             else if keycode = HID_KEYCODE_RIGHT then menu_main_select_option (it_right i) s
             else if keycode = HID_KEYCODE_ENTER then Some (menu_perform (it_perform i) s)
             else Some s)"

section \<open>The user interface\<close>

datatype tui_menu_handle = Menu_Main

record tui_state = menu_state +
  tui_on :: bool
  selected_menu :: "tui_menu_handle option"

definition tui_kbd_event :: "hid_keycode \<Rightarrow> 'z tui_state_scheme \<Rightarrow> 'z tui_state_scheme option" where
  "tui_kbd_event keycode s =
     (case selected_menu s of
        None \<Rightarrow> Some s
      | Some Menu_Main \<Rightarrow> menu_main_handle_key keycode s)"

definition tui_graphic_update :: "'z tui_state_scheme \<Rightarrow> (bool \<times> 'z tui_state_scheme) option" where
  "tui_graphic_update s =
     (case selected_menu s of
        None \<Rightarrow> Some (False, s)
      | Some Menu_Main \<Rightarrow> do { s \<leftarrow> menu_main_update s; Some (True, s) })"

text \<open>\<open>event\<close> is the address of \<open>_tui_kbd_event\<close>, the only function that becomes a listener.\<close>

definition tui_start :: "u64 \<Rightarrow> 'z tui_state_scheme \<Rightarrow> 'z tui_state_scheme option" where
  "tui_start event s =
     (if tui_on s then Some s
      else do {
        (ok, s) \<leftarrow> kbd_init s;
        if \<not> ok then Some s
        else
          let (ok, s) = kbd_add_listener event s
          in if \<not> ok then Some s
             else do {
               s \<leftarrow> text_render_init s;
               (_, s) \<leftarrow> tui_graphic_update (s\<lparr>selected_menu := Some Menu_Main\<rparr>);
               Some (s\<lparr>tui_on := True\<rparr>) } })"

definition tui_listener ::
    "u64 \<Rightarrow> u64 \<Rightarrow> hid_keycode \<Rightarrow> 'z tui_state_scheme \<Rightarrow> 'z tui_state_scheme option" where
  "tui_listener event f keycode s = (if f = event then tui_kbd_event keycode s else None)"

definition tui_cleanup_exit :: "'z tui_state_scheme \<Rightarrow> 'z tui_state_scheme option" where
  "tui_cleanup_exit s = text_render_stop s"

definition tui_update :: "u64 \<Rightarrow> 'z tui_state_scheme \<Rightarrow> (bool \<times> 'z tui_state_scheme) option" where
  "tui_update event s =
     (if \<not> tui_on s then Some (False, s)
      else do {
        s \<leftarrow> kbd_update (tui_listener event) s;
        tui_graphic_update s })"

text \<open>
  \<open>main\<close>: the loop goes on as long as \<open>tui_update\<close> returns true. What happens between two rounds,
  interrupts above all, is the parameter \<open>outside\<close>.
\<close>

partial_function (option) prism_loop ::
    "(nat \<Rightarrow> 'z tui_state_scheme \<Rightarrow> 'z tui_state_scheme) \<Rightarrow> u64 \<Rightarrow> nat \<Rightarrow> 'z tui_state_scheme \<Rightarrow>
      'z tui_state_scheme option" where
  "prism_loop outside event n s = do {
     (on, s) \<leftarrow> tui_update event (outside n s);
     if on then prism_loop outside event (n + 1) s else Some s }"

definition prism_main ::
    "(nat \<Rightarrow> 'z tui_state_scheme \<Rightarrow> 'z tui_state_scheme) \<Rightarrow> u64 \<Rightarrow> 'z tui_state_scheme \<Rightarrow>
      (int \<times> 'z tui_state_scheme) option" where
  "prism_main outside event s = do {
     s \<leftarrow> tui_start event s;
     s \<leftarrow> prism_loop outside event 0 s;
     s \<leftarrow> tui_cleanup_exit s;
     Some (-1, s) }"

end
