(* ===== verification/Kbd_Props.thy ===== *)
theory Kbd_Props
  imports Kbd Ps2_Props
begin

text \<open>
  What the window manager's keyboard does: the characters it gives the keys, and the way of a key
  code from the page that it shares with the kernel to the listeners.
\<close>

section \<open>Key codes\<close>

text \<open>The kernel and the window manager mean the same keys by the same codes.\<close>

lemma key_codes_agree: "KERNEL_KEYBOARD_CODES = HID_KERNEL_KEYCODE"
  by (simp add: KERNEL_KEYBOARD_CODES_def HID_KERNEL_KEYCODE_def)

section \<open>Characters\<close>

text \<open>The characters of a US keyboard for the keys from \<open>HID_KEYCODE_BACKTICK\<close> to \<open>HID_KEYCODE_SPACE\<close>.\<close>

definition us_plain :: "u8 list" where
  "us_plain = map of_char (CHR 0x60 # ''1234567890-=qwertyuiop[]'' @ CHR 0x5C # ''asdfghjkl;'' @
     CHR 0x27 # ''zxcvbnm,./ '')"

definition us_shifted :: "u8 list" where
  "us_shifted = map of_char (''~!@#$%^&*()_+QWERTYUIOP{}|ASDFGHJKL:'' @ CHR 0x22 # ''ZXCVBNM<>? '')"

definition is_letter :: "u8 \<Rightarrow> bool" where
  "is_letter c \<longleftrightarrow> of_char CHR ''a'' \<le> c \<and> c \<le> of_char CHR ''z''"

text \<open>Caps lock exchanges the shifted and the plain character of a letter, and of a letter only.\<close>

definition us_char :: "bool \<Rightarrow> bool \<Rightarrow> nat \<Rightarrow> u8" where
  "us_char shift caps k =
     (let plain = us_plain ! (k - 1)
      in if (if is_letter plain then shift \<noteq> caps else shift) then us_shifted ! (k - 1) else plain)"

lemmas kbd_tables = kbd_key_ascii_default_def kbd_key_ascii_numlock_def kbd_key_ascii_capslock_def
  kbd_key_ascii_numlock_capslock_def kbd_key_ascii_shift_def kbd_key_ascii_shift_numlock_def
  kbd_key_ascii_shift_capslock_def kbd_key_ascii_shift_numlock_capslock_def

lemma us_plain_bytes:
  "us_plain =
    [0x60, 0x31, 0x32, 0x33, 0x34, 0x35, 0x36, 0x37, 0x38, 0x39, 0x30, 0x2D, 0x3D, 0x71, 0x77, 0x65,
     0x72, 0x74, 0x79, 0x75, 0x69, 0x6F, 0x70, 0x5B, 0x5D, 0x5C, 0x61, 0x73, 0x64, 0x66, 0x67, 0x68,
     0x6A, 0x6B, 0x6C, 0x3B, 0x27, 0x7A, 0x78, 0x63, 0x76, 0x62, 0x6E, 0x6D, 0x2C, 0x2E, 0x2F, 0x20]"
  by (simp add: us_plain_def of_char_def)

lemma us_shifted_bytes:
  "us_shifted =
    [0x7E, 0x21, 0x40, 0x23, 0x24, 0x25, 0x5E, 0x26, 0x2A, 0x28, 0x29, 0x5F, 0x2B, 0x51, 0x57, 0x45,
     0x52, 0x54, 0x59, 0x55, 0x49, 0x4F, 0x50, 0x7B, 0x7D, 0x7C, 0x41, 0x53, 0x44, 0x46, 0x47, 0x48,
     0x4A, 0x4B, 0x4C, 0x3A, 0x22, 0x5A, 0x58, 0x43, 0x56, 0x42, 0x4E, 0x4D, 0x3C, 0x3E, 0x3F, 0x20]"
  by (simp add: us_shifted_def of_char_def)

definition us_row :: "bool \<Rightarrow> bool \<Rightarrow> u8 list" where
  "us_row shift caps =
     map (\<lambda>(p, q). if (if is_letter p then shift \<noteq> caps else shift) then q else p) (zip us_plain us_shifted)"

lemma us_lengths: "length us_plain = 48" "length us_shifted = 48"
  by (simp_all add: us_plain_def us_shifted_def)

lemma us_char_row:
  assumes "1 \<le> k" and "k < 49"
  shows "us_char shift caps k = us_row shift caps ! (k - 1)"
  using assms by (simp add: us_char_def us_row_def us_lengths Let_def)

lemmas us_row_bytes =
  us_row_def [unfolded us_plain_bytes us_shifted_bytes is_letter_def, simplified zip_Cons_Cons zip_Nil list.map prod.case]

text \<open>The tables against the reference; with caps lock and without shift the period differs.\<close>

lemma table_rows:
  "take 48 (drop 1 kbd_key_ascii_default) = us_row False False"
  "take 48 (drop 1 kbd_key_ascii_numlock) = us_row False False"
  "take 48 (drop 1 kbd_key_ascii_capslock) = (us_row False True)[45 := 0x2C]"
  "take 48 (drop 1 kbd_key_ascii_numlock_capslock) = (us_row False True)[45 := 0x2C]"
  "take 48 (drop 1 kbd_key_ascii_shift) = us_row True False"
  "take 48 (drop 1 kbd_key_ascii_shift_numlock) = us_row True False"
  "take 48 (drop 1 kbd_key_ascii_shift_capslock) = us_row True True"
  "take 48 (drop 1 kbd_key_ascii_shift_numlock_capslock) = us_row True True"
  by (simp_all add: us_row_bytes kbd_tables)

lemma kbd_table_lengths:
  "length kbd_key_ascii_default = 68" "length kbd_key_ascii_numlock = 68"
  "length kbd_key_ascii_capslock = 68" "length kbd_key_ascii_numlock_capslock = 68"
  "length kbd_key_ascii_shift = 68" "length kbd_key_ascii_shift_numlock = 68"
  "length kbd_key_ascii_shift_capslock = 68" "length kbd_key_ascii_shift_numlock_capslock = 68"
  by (simp_all add: kbd_tables)

lemma entry_row: "1 \<le> k \<Longrightarrow> k < 49 \<Longrightarrow> 49 \<le> length t \<Longrightarrow> take 48 (drop 1 t) = r \<Longrightarrow> t ! k = r ! (k - 1)"
  by auto

lemma table_entries:
  assumes "1 \<le> k" and "k < 49"
  shows "kbd_key_ascii_default ! k = us_row False False ! (k - 1)"
    and "kbd_key_ascii_numlock ! k = us_row False False ! (k - 1)"
    and "kbd_key_ascii_capslock ! k = (us_row False True)[45 := 0x2C] ! (k - 1)"
    and "kbd_key_ascii_numlock_capslock ! k = (us_row False True)[45 := 0x2C] ! (k - 1)"
    and "kbd_key_ascii_shift ! k = us_row True False ! (k - 1)"
    and "kbd_key_ascii_shift_numlock ! k = us_row True False ! (k - 1)"
    and "kbd_key_ascii_shift_capslock ! k = us_row True True ! (k - 1)"
    and "kbd_key_ascii_shift_numlock_capslock ! k = us_row True True ! (k - 1)"
  using table_rows by (intro entry_row [OF assms]; simp add: kbd_table_lengths)+

text \<open>
  Every key from the backtick to the space bar has the character of a US keyboard, shifted letters and
  caps lock included, whether it is pressed or released and whatever num lock is; the one exception
  is the period, which is a comma under caps lock without shift.
\<close>

theorem kbd_decodes_us_layout:
  assumes "1 \<le> keycode AND 0x7F" and "keycode AND 0x7F \<le> HID_KEYCODE_SPACE"
  shows "kbd_char_decode keycode s =
    (if keycode AND 0x7F = HID_KEYCODE_PERIOD \<and> kb_caps s \<and> \<not> kb_shift s then of_char CHR '',''
     else us_char (kb_shift s) (kb_caps s) (unat (keycode AND 0x7F)))"
proof -
  define k where "k = unat (keycode AND 0x7F)"
  have k: "1 \<le> k" "k < 49" using assms by (simp_all add: k_def word_le_nat_alt)
  have eq: "keycode AND 0x7F = HID_KEYCODE_PERIOD \<longleftrightarrow> k - 1 = 45"
  proof -
    have "keycode AND 0x7F = HID_KEYCODE_PERIOD \<longleftrightarrow> k = 46"
      by (simp add: k_def word_unat_eq_iff)
    then show ?thesis using k by arith
  qed
  have row: "length (us_row b c) = 48" for b c by (simp add: us_row_def us_lengths)
  have bound: "\<not> 0x42 < keycode AND 0x7F" "keycode AND 0x7F \<noteq> 0"
    using assms by (auto simp: word_le_nat_alt word_less_nat_alt)
  show ?thesis
    using bound k row
    by (cases "kb_shift s"; cases "kb_caps s"; cases "kb_nums s")
      (simp_all add: kbd_char_decode_def Let_def k_def [symmetric] table_entries [OF k] us_char_row [OF k]
        nth_list_update eq of_char_def)
qed

definition small_kbd :: kbd_state where
  "small_kbd = ps2_state.extend (small_ps2 (\<lambda>_. 0))
     \<lparr>internal_buffer = 0x5000, internal_buffer_size = 0x5FFE, kbd_started = True, listeners = 0x6000,
      listeners_count = 1, kb_shift = False, kb_caps = False, kb_nums = False\<rparr>"

lemma small_kbd_sel [simp]:
  "internal_buffer small_kbd = 0x5000" "internal_buffer_size small_kbd = 0x5FFE" "kbd_started small_kbd"
  "listeners small_kbd = 0x6000" "listeners_count small_kbd = 1" "\<not> kb_shift small_kbd"
  "\<not> kb_caps small_kbd" "\<not> kb_nums small_kbd" "kb_pid small_kbd = 7" "kb_buffer small_kbd = 0x5000"
  "kb_size small_kbd = 0x5FFE" "heap_bytes small_kbd = (\<lambda>_. 0)" "io_log small_kbd = []"
  by (simp_all add: small_kbd_def ps2_state.defs small_ps2_def call_state.defs small_call_def
      sched_state.defs small_sched_def tss_state.defs small_tss_def pool_state.defs apic_state.defs
      small_apic_def machine_state.defs small_machine_def heap_state.defs small_heap_def paging_state.defs)

lemma kbd_decodes_us_layout_witness:
  "kbd_char_decode (0x80 OR HID_KEYCODE_CHAR_Q) (small_kbd\<lparr>kb_shift := True\<rparr>) = of_char CHR ''Q''"
  using kbd_decodes_us_layout [of "0x80 OR HID_KEYCODE_CHAR_Q" "small_kbd\<lparr>kb_shift := True\<rparr>"]
  by (simp add: us_char_row us_row_bytes of_char_def)

section \<open>From the page to the listeners\<close>

text \<open>
  What a listener leaves alone: the keyboard's variables, the table of listeners and the page that is
  shared with the kernel.
\<close>

definition kbd_frame :: "'z kbd_state_scheme \<Rightarrow> 'z kbd_state_scheme \<Rightarrow> bool" where
  "kbd_frame t t' \<longleftrightarrow>
     internal_buffer t' = internal_buffer t \<and> internal_buffer_size t' = internal_buffer_size t \<and>
     kb_pid t' = kb_pid t \<and> kb_buffer t' = kb_buffer t \<and> kb_size t' = kb_size t \<and>
     kbd_started t' = kbd_started t \<and> listeners_count t' = listeners_count t \<and>
     (\<forall>i < unat (listeners_count t). listener_at (of_nat i) t' = listener_at (of_nat i) t) \<and>
     (\<forall>i < 4096. heap_bytes t' (kb_buffer t + of_nat i) = heap_bytes t (kb_buffer t + of_nat i))"

lemma kbd_frame_refl [simp]: "kbd_frame t t"
  by (simp add: kbd_frame_def)

lemma kbd_frame_trans [trans]: "kbd_frame s t \<Longrightarrow> kbd_frame t u \<Longrightarrow> kbd_frame s u"
  by (simp add: kbd_frame_def)

lemma kbd_frame_modifiers [simp]: "kbd_frame t (kbd_modifiers k t)"
  by (simp add: kbd_modifiers_def kbd_frame_def listener_at_def)

definition kbd_listeners :: "'z kbd_state_scheme \<Rightarrow> u64 list" where
  "kbd_listeners s =
     filter (\<lambda>f. f \<noteq> 0) (map (\<lambda>i. listener_at (of_nat i) s) [0..<unat (listeners_count s)])"

lemma kbd_frame_listeners: "kbd_frame s t \<Longrightarrow> kbd_listeners t = kbd_listeners s"
  by (auto simp: kbd_frame_def kbd_listeners_def intro!: arg_cong [where f = "filter _"])

text \<open>One key: the modifiers follow it, then every listener is called with it.\<close>

definition kbd_hear ::
    "(u64 \<Rightarrow> hid_keycode \<Rightarrow> 'z kbd_state_scheme \<Rightarrow> 'z kbd_state_scheme) \<Rightarrow> u64 list \<Rightarrow> hid_keycode \<Rightarrow>
      'z kbd_state_scheme \<Rightarrow> 'z kbd_state_scheme" where
  "kbd_hear act fs k s = fold (\<lambda>f s. act f k s) fs (kbd_modifiers k s)"

text \<open>
  What is asked of the listeners: in every state with \<open>keeps\<close>, which a change of the modifiers keeps, a
  call returns, leaves those parts alone and keeps \<open>keeps\<close>. \<open>act\<close> is what the call does.
\<close>

definition good_listeners ::
    "('z kbd_state_scheme \<Rightarrow> bool) \<Rightarrow> (u64 \<Rightarrow> hid_keycode \<Rightarrow> 'z kbd_state_scheme \<Rightarrow> 'z kbd_state_scheme option) \<Rightarrow>
      (u64 \<Rightarrow> hid_keycode \<Rightarrow> 'z kbd_state_scheme \<Rightarrow> 'z kbd_state_scheme) \<Rightarrow> u64 list \<Rightarrow> bool" where
  "good_listeners keeps listener act fs \<longleftrightarrow>
     (\<forall>k t. keeps t \<longrightarrow> keeps (kbd_modifiers k t)) \<and>
     (\<forall>f \<in> set fs. \<forall>k t. keeps t \<longrightarrow>
        listener f k t = Some (act f k t) \<and> kbd_frame t (act f k t) \<and> keeps (act f k t))"

lemma fold_frame:
  assumes "good_listeners keeps listener act gs" and "set fs \<subseteq> set gs" and "keeps s"
  shows "kbd_frame s (fold (\<lambda>f s. act f k s) fs s) \<and> keeps (fold (\<lambda>f s. act f k s) fs s)"
  using assms
proof (induction fs arbitrary: s)
  case (Cons f fs)
  then have "kbd_frame s (act f k s)" "keeps (act f k s)" by (auto simp: good_listeners_def)
  then show ?case using Cons by (auto intro: kbd_frame_trans)
qed simp

lemma kbd_notify_spec:
  assumes "unat j \<le> unat (listeners_count s)" and "keeps s"
    and "good_listeners keeps listener act (kbd_listeners s)"
  shows "kbd_notify listener j k s =
    Some (fold (\<lambda>f s. act f k s)
      (filter (\<lambda>f. f \<noteq> 0) (map (\<lambda>i. listener_at (of_nat i) s) [unat j..<unat (listeners_count s)])) s)"
  using assms
proof (induction "unat (listeners_count s) - unat j" arbitrary: j s rule: less_induct)
  case less
  let ?n = "unat (listeners_count s)"
  show ?case
  proof (cases "j < listeners_count s")
    case False
    then have "?n \<le> unat j" by (simp add: word_less_nat_alt)
    then show ?thesis using False by (subst kbd_notify.simps) simp
  next
    case True
    then have lt: "unat j < ?n" by (simp add: word_less_nat_alt)
    have j1: "unat (j + 1) = Suc (unat j)" using unat_Suc_less [OF True] .
    let ?f = "listener_at j s"
    define t where "t = (if ?f \<noteq> 0 then act ?f k s else s)"
    have mem: "?f \<in> set (kbd_listeners s)" if "?f \<noteq> 0"
      using that lt by (auto simp: kbd_listeners_def intro!: image_eqI [where x = "unat j"])
    have step: "(if ?f \<noteq> 0 then listener ?f k s else Some s) = Some t"
      and fr: "kbd_frame s t" and it: "keeps t"
      using less.prems(2,3) mem by (auto simp: t_def good_listeners_def)
    have cnt: "listeners_count t = listeners_count s" using fr by (simp add: kbd_frame_def)
    have "kbd_notify listener (j + 1) k t = Some (fold (\<lambda>f s. act f k s)
        (filter (\<lambda>f. f \<noteq> 0) (map (\<lambda>i. listener_at (of_nat i) t) [unat (j + 1)..<unat (listeners_count t)])) t)"
      using less.prems kbd_frame_listeners [OF fr] lt j1 it by (intro less.hyps) (auto simp: cnt)
    moreover have "map (\<lambda>i. listener_at (of_nat i) t) [unat (j + 1)..<unat (listeners_count t)] =
        map (\<lambda>i. listener_at (of_nat i) s) [Suc (unat j)..<?n]"
      using fr by (simp add: cnt j1) (simp add: kbd_frame_def)
    moreover have "[unat j..<?n] = unat j # [Suc (unat j)..<?n]" using lt by (simp add: upt_conv_Cons)
    ultimately show ?thesis
      using True step by (subst kbd_notify.simps) (simp add: t_def)
  qed
qed

lemma kbd_notify_all:
  assumes "good_listeners keeps listener act (kbd_listeners s)" and "keeps s"
  shows "kbd_notify listener 0 k s = Some (fold (\<lambda>f s. act f k s) (kbd_listeners s) s)"
  using kbd_notify_spec [of 0 s keeps listener act k] assms by (simp only: kbd_listeners_def unat_0)

lemma kbd_deliver_spec:
  assumes "good_listeners keeps listener act (kbd_listeners s)" and "keeps s"
    and "\<And>i. i \<in> set is \<Longrightarrow> i < 4096" and "internal_buffer s = kb_buffer s"
  defines "t \<equiv> fold (kbd_hear act (kbd_listeners s)) (map (\<lambda>i. heap_bytes s (kb_buffer s + of_nat i)) is) s"
  shows "kbd_deliver listener is s = Some t \<and> kbd_frame s t \<and> keeps t"
  using assms(1-4) unfolding t_def
proof (induction "is" arbitrary: s)
  case (Cons i "is")
  let ?k = "heap_bytes s (kb_buffer s + of_nat i)"
  define t where "t = kbd_hear act (kbd_listeners s) ?k s"
  have m: "kbd_frame s (kbd_modifiers ?k s)" and im: "keeps (kbd_modifiers ?k s)"
    using Cons.prems(1,2) by (auto simp: good_listeners_def)
  have step: "kbd_notify listener 0 ?k (kbd_modifiers ?k s) = Some t"
    using kbd_notify_all [of keeps listener act "kbd_modifiers ?k s" ?k] Cons.prems(1) im
    by (simp add: t_def kbd_hear_def kbd_frame_listeners [OF m])
  have fr: "kbd_frame s t" and it: "keeps t"
    unfolding t_def kbd_hear_def
    using m fold_frame [OF Cons.prems(1) subset_refl im, of ?k] by (blast intro: kbd_frame_trans)+
  let ?ks = "map (\<lambda>i. heap_bytes s (kb_buffer s + of_nat i)) is"
  have ks: "map (\<lambda>i. heap_bytes t (kb_buffer t + of_nat i)) is = ?ks"
    using fr Cons.prems(3) by (simp add: kbd_frame_def)
  have "internal_buffer t = kb_buffer t" using fr Cons.prems(4) by (simp add: kbd_frame_def)
  then have ih: "kbd_deliver listener is t = Some (fold (kbd_hear act (kbd_listeners s)) ?ks t)"
    "kbd_frame t (fold (kbd_hear act (kbd_listeners s)) ?ks t)"
    "keeps (fold (kbd_hear act (kbd_listeners s)) ?ks t)"
    using Cons.IH [of t] Cons.prems(1,3) it unfolding ks kbd_frame_listeners [OF fr] by auto
  have run: "kbd_deliver listener (i # is) s = kbd_deliver listener is t"
    using step Cons.prems(4) by simp
  show ?case
    using ih(1,3) kbd_frame_trans [OF fr ih(2)]
    unfolding run list.map fold.simps comp_apply t_def by blast
qed simp

lemma kbd_update_runs:
  assumes "kbd_started s" and ready: "kb_ready s"
    and buf: "internal_buffer s = kb_buffer s" "internal_buffer_size s = kb_size s"
    and good: "good_listeners keeps listener act (kbd_listeners s)" "keeps s"
  shows "\<exists>m. kbd_update listener s = Some ((fold (kbd_hear act (kbd_listeners s)) (kb_keys s) s)\<lparr>heap_bytes := m\<rparr>) \<and>
    read_u16 m (kb_size s) = 0 \<and>
    (\<forall>a. a - kb_buffer s \<ge> 4096 \<longrightarrow>
       m a = heap_bytes (fold (kbd_hear act (kbd_listeners s)) (kb_keys s) s) a)"
proof -
  let ?t = "fold (kbd_hear act (kbd_listeners s)) (kb_keys s) s"
  let ?n = "read_u16 (heap_bytes s) (kb_size s)"
  have n: "unat ?n \<le> 4094" and size: "kb_size s = kb_buffer s + 4094"
    using ready unfolding kb_ready_def kb_count_def by blast+
  have keys: "kb_keys s = map (\<lambda>i. heap_bytes s (kb_buffer s + of_nat i)) [0..<unat ?n]"
    by (simp add: kb_keys_def kb_count_def read_bytes_def)
  show ?thesis
  proof (cases "?n = 0")
    case True
    then have "kbd_update listener s = Some s" and "?t = s"
      using assms(1) buf by (simp_all add: kbd_update_def Let_def keys)
    then show ?thesis using True by (intro exI [of _ "heap_bytes s"]) simp
  next
    case False
    have run: "kbd_deliver listener [0..<unat ?n] s = Some ?t" and fr: "kbd_frame s ?t"
      using kbd_deliver_spec [OF good, of "[0..<unat ?n]"] n buf(1) by (auto simp: keys)
    let ?m = "memset (heap_bytes ?t) (kb_buffer s) 0 (ucast (?n + 1))"
    let ?w = "write_u16 ?m (kb_size s) 0"
    have upd: "kbd_update listener s = Some (?t\<lparr>heap_bytes := ?w\<rparr>)"
      using assms(1) False buf run fr by (simp add: kbd_update_def Let_def kbd_frame_def)
    have "?w a = heap_bytes ?t a" if a: "a - kb_buffer s \<ge> 4096" for a
    proof -
      have n1: "unat (ucast (?n + 1) :: u64) \<le> 4095"
        using n unat_plus_nowrap [of ?n 1] by (simp add: unat_ucast_up)
      have far: "a \<noteq> kb_buffer s + of_nat i" if "i < 4096" for i
        using a that by (auto simp: word_le_nat_alt unat_of_nat)
      have "\<not> unat (a - kb_buffer s) < unat (ucast (?n + 1) :: u64)"
        using a n1 by (simp add: word_le_nat_alt)
      then show ?thesis
        using far [of 4094] far [of 4095] by (simp add: write_u16_other size memset_out add.assoc)
    qed
    then show ?thesis using upd by (intro exI [of _ ?w]) simp
  qed
qed

text \<open>C17:
  The update hands every key of the page, in order, to every listener, after the modifier keys have
  taken effect, then empties the page: it is ready for new keys, and no byte outside it has changed
  beyond what the listeners did. The listeners must leave the keyboard's variables, the page and the
  table of listeners alone.
\<close>

theorem kbd_update_delivers_all:
  assumes "kbd_started s" and ready: "kb_ready s"
    and buf: "internal_buffer s = kb_buffer s" "internal_buffer_size s = kb_size s"
    and good: "good_listeners keeps listener act (kbd_listeners s)" "keeps s"
  shows "\<exists>m. kbd_update listener s = Some ((fold (kbd_hear act (kbd_listeners s)) (kb_keys s) s)\<lparr>heap_bytes := m\<rparr>) \<and>
    read_u16 m (kb_size s) = 0 \<and>
    (\<forall>a. a - kb_buffer s \<ge> 4096 \<longrightarrow>
       m a = heap_bytes (fold (kbd_hear act (kbd_listeners s)) (kb_keys s) s) a)"
  using assms by (rule kbd_update_runs)

lemma kbd_update_delivers_all_witness:
  "\<exists>s'. kbd_update (\<lambda>f k t. Some (outb 0x3F8 k t))
       (small_kbd\<lparr>heap_bytes := (\<lambda>_. 0)(0x5000 := 0x0E, 0x5FFE := 1, 0x6002 := 0x40)\<rparr>) = Some s' \<and>
     io_log s' = [Out8 0x3F8 0x0E]"
proof -
  let ?s = "small_kbd\<lparr>heap_bytes := (\<lambda>_. 0)(0x5000 := 0x0E, 0x5FFE := 1, 0x6002 := 0x40)\<rparr>"
  let ?listener = "\<lambda>f k t. Some (outb 0x3F8 k t)"
  have n: "read_u16 (heap_bytes ?s) 0x5FFE = 1" by (simp add: read_u16_def)
  have ready: "kb_ready ?s" using n by (simp add: kb_ready_def kb_count_def)
  have "read_u64 (heap_bytes ?s) 0x6000 = 0x400000"
    by (simp add: read_u64_def read_u32_def read_u16_def)
  then have ls: "kbd_listeners ?s = [0x400000]" by (simp add: kbd_listeners_def listener_at_def)
  have "kb_keys ?s = [0x0E]" using n by (simp add: kb_keys_def kb_count_def read_bytes_def)
  moreover have "kbd_frame t (outb 0x3F8 k t)" for k and t :: kbd_state
    by (simp add: kbd_frame_def outb_def io_emit_def listener_at_def)
  ultimately obtain m where "kbd_update ?listener ?s =
      Some ((fold (kbd_hear (\<lambda>f k t. outb 0x3F8 k t) (kbd_listeners ?s)) [0x0E] ?s)\<lparr>heap_bytes := m\<rparr>)"
    using kbd_update_delivers_all [of ?s "\<lambda>_. True" ?listener "\<lambda>f k t. outb 0x3F8 k t"] ready
    by (auto simp: good_listeners_def)
  then show ?thesis by (simp add: ls kbd_hear_def kbd_modifiers_def outb_def)
qed

end
