(* ===== verification/Text_Props.thy ===== *)
theory Text_Props
  imports Text_Render Kbd_Props
begin

text \<open>
  What drawing a character does to the screen: the pixels of one cell take the colors of the glyph,
  every other pixel and all memory outside the framebuffer stay.
\<close>

section \<open>Words of 32 bits in memory\<close>

lemma write_u32_bytes:
  "write_u32 m p v p = ucast v" "write_u32 m p v (p + 1) = ucast (drop_bit 8 v)"
  "write_u32 m p v (p + 2) = ucast (drop_bit 16 v)" "write_u32 m p v (p + 3) = ucast (drop_bit 24 v)"
  by (simp_all add: write_u32_def)

lemma read_write_u32 [simp]: "read_u32 (write_u32 m p v) p = v"
proof (rule bit_word_eqI)
  have three: "p + 2 + 1 = p + 3" by simp
  fix n assume n: "n < LENGTH(32)"
  have "n < 8 \<or> 8 \<le> n \<and> n < 16 \<or> 16 \<le> n \<and> n < 24 \<or> 24 \<le> n" by linarith
  then show "bit (read_u32 (write_u32 m p v) p) n = bit v n"
    using n unfolding read_u32_def read_u16_def three write_u32_bytes
    by (elim disjE) (auto simp: bit_simps)
qed

lemma write_u32_other: "4 \<le> unat (a - p) \<Longrightarrow> write_u32 m p v a = m a"
  by (simp add: write_u32_def)

lemma word_slot_apart:
  assumes "i \<noteq> j" and "i < 2 ^ 62" and "j < 2 ^ 62" and "k < 4"
  shows "4 \<le> unat (fb + 4 * of_nat j + of_nat k - (fb + 4 * of_nat i) :: u64)"
proof -
  have "fb + 4 * of_nat j + of_nat k - (fb + 4 * of_nat i) =
      (of_nat (4 * j + k) - of_nat (4 * i) :: u64)" by simp
  also have "4 \<le> unat \<dots>"
  proof (cases "j < i")
    case True
    have "(of_nat (4 * j + k) - of_nat (4 * i) :: u64) = of_nat (2 ^ 64 - (4 * i - (4 * j + k)))"
    proof -
      have le: "4 * j + k \<le> 4 * i" using True assms(4) by simp
      have "(of_nat (2 ^ 64 - (4 * i - (4 * j + k))) :: u64) = of_nat (2 ^ 64) - of_nat (4 * i - (4 * j + k))"
        using assms by (intro of_nat_diff) simp
      also have "\<dots> = - of_nat (4 * i - (4 * j + k))" by simp
      also have "\<dots> = - (of_nat (4 * i) - of_nat (4 * j + k))" using le by (simp only: of_nat_diff)
      finally show ?thesis by simp
    qed
    moreover have "unat (of_nat (2 ^ 64 - (4 * i - (4 * j + k))) :: u64) = 2 ^ 64 - (4 * i - (4 * j + k))"
      using True assms(4) by (intro unat_of_nat_nowrap) simp
    ultimately show ?thesis using assms(2) by simp
  next
    case False
    then have "i < j" using assms(1) by simp
    then have "(of_nat (4 * j + k) - of_nat (4 * i) :: u64) = of_nat (4 * j + k - 4 * i)"
      by (subst of_nat_diff) auto
    moreover have "unat (of_nat (4 * j + k - 4 * i) :: u64) = 4 * j + k - 4 * i"
      using assms(3,4) by (intro unat_of_nat_nowrap) simp
    ultimately show ?thesis using \<open>i < j\<close> by simp
  qed
  finally show ?thesis .
qed

lemma read_write_slot:
  assumes "i < 2 ^ 62" and "j < 2 ^ 62"
  shows "read_u32 (write_u32 m (fb + 4 * of_nat i) v) (fb + 4 * of_nat j) =
    (if i = j then v else read_u32 m (fb + 4 * of_nat j))"
proof (cases "i = j")
  case False
  then have "read_u32 (write_u32 m (fb + 4 * of_nat i) v) (fb + 4 * of_nat j) = read_u32 m (fb + 4 * of_nat j)"
    using word_slot_apart [OF False assms] by (intro read_u32_cong write_u32_other) simp
  then show ?thesis using False by simp
qed simp

section \<open>The screen as a grid of pixels\<close>

abbreviation wide :: "'z text_state_scheme \<Rightarrow> nat" where "wide s \<equiv> unat (screen_width s)"
abbreviation high :: "'z text_state_scheme \<Rightarrow> nat" where "high s \<equiv> unat (screen_height s)"

definition pixel :: "nat \<Rightarrow> nat \<Rightarrow> 'z text_state_scheme \<Rightarrow> u32" where
  "pixel x y s = read_u32 (heap_bytes s) (screen_fb s + 4 * of_nat (y * wide s + x))"

definition paint ::
    "u64 \<Rightarrow> nat \<Rightarrow> (nat \<Rightarrow> nat \<Rightarrow> u32) \<Rightarrow> (nat \<times> nat) list \<Rightarrow> mem \<Rightarrow> mem" where
  "paint fb w v ps m = fold (\<lambda>(x, y) m. write_u32 m (fb + 4 * of_nat (y * w + x)) (v x y)) ps m"

lemma paint_append: "paint fb w v (ps @ qs) m = paint fb w v qs (paint fb w v ps m)"
  by (simp add: paint_def)

lemma grid_bound: "x < w \<Longrightarrow> y < h \<Longrightarrow> y * w + x < w * (h :: nat)"
proof -
  assume "x < w" "y < h"
  then have "y * w + x < Suc y * w" by simp
  also have "\<dots> \<le> h * w" using \<open>y < h\<close> by (intro mult_le_mono1) simp
  finally show ?thesis by (simp add: mult.commute)
qed

lemma grid_inj:
  assumes "x < w" and "x' < w"
  shows "y * w + x = y' * w + x' \<longleftrightarrow> x = x' \<and> y = (y' :: nat)"
proof
  assume eq: "y * w + x = y' * w + x'"
  have "(y * w + x) mod w = x" "(y' * w + x') mod w = x'" using assms by simp_all
  then have "x = x'" using eq by metis
  then show "x = x' \<and> y = y'" using eq assms by simp
qed simp

lemma paint_read:
  assumes "\<forall>(x, y) \<in> set ps. x < w \<and> y < h" and "x < w" and "y < h" and "w * h \<le> 2 ^ 62"
  shows "read_u32 (paint fb w v ps m) (fb + 4 * of_nat (y * w + x)) =
    (if (x, y) \<in> set ps then v x y else read_u32 m (fb + 4 * of_nat (y * w + x)))"
  using assms(1)
proof (induction ps arbitrary: m)
  case Nil
  then show ?case by (simp add: paint_def)
next
  case (Cons p ps)
  obtain x' y' where p: "p = (x', y')" by (cases p)
  have b: "y' * w + x' < 2 ^ 62" "y * w + x < 2 ^ 62"
    using grid_bound [of x' w y' h] grid_bound [OF assms(2,3)] Cons.prems assms(4) by (auto simp: p)
  have eq: "y' * w + x' = y * w + x \<longleftrightarrow> (x', y') = (x, y)"
    using grid_inj [of x' w x y' y] assms(2) Cons.prems by (auto simp: p)
  have "paint fb w v (p # ps) m = paint fb w v ps (write_u32 m (fb + 4 * of_nat (y' * w + x')) (v x' y'))"
    by (simp add: paint_def p)
  then show ?case
    using Cons.IH [of "write_u32 m (fb + 4 * of_nat (y' * w + x')) (v x' y')"] Cons.prems
      read_write_slot [OF b, of m fb "v x' y'"]
    unfolding eq by (auto simp: p)
qed

lemma paint_outside:
  assumes "\<forall>(x, y) \<in> set ps. x < w \<and> y < h" and "w * h \<le> 2 ^ 62" and "4 * (w * h) \<le> unat (a - fb)"
  shows "paint fb w v ps m a = m a"
  using assms(1)
proof (induction ps arbitrary: m)
  case Nil
  then show ?case by (simp add: paint_def)
next
  case (Cons p ps)
  obtain x y where p: "p = (x, y)" by (cases p)
  let ?i = "y * w + x"
  have i: "?i < w * h" using grid_bound [of x w y h] Cons.prems by (simp add: p)
  have "unat (4 * of_nat ?i :: u64) = 4 * ?i"
    using unat_of_nat_nowrap [of "4 * ?i", where ?'a = 64] i assms(2) by simp
  then have "4 \<le> unat (a - fb - 4 * of_nat ?i)"
    using assms(3) i by (subst unat_minus_nowrap) auto
  then have "write_u32 m (fb + 4 * of_nat ?i) (v x y) a = m a"
    by (intro write_u32_other) (simp add: diff_diff_eq)
  then show ?case using Cons by (simp add: paint_def p)
qed

text \<open>The two loops over a cell are one painting of its pixels.\<close>

lemma fold_put_column:
  assumes "\<And>yy m. g yy (s\<lparr>heap_bytes := m\<rparr>) = g yy s"
  shows "fold (\<lambda>yy s. put_pixel (of_nat x) yy (g yy s) s) (map of_nat ys) (s\<lparr>heap_bytes := m\<rparr>) =
    s\<lparr>heap_bytes := paint (screen_fb s) (wide s) (\<lambda>x y. g (of_nat y) s) (map (Pair x) ys) m\<rparr>"
  by (induction ys arbitrary: m) (simp_all add: assms put_pixel_def paint_def)

lemma fold_put_cell:
  assumes "\<And>xx yy m. g xx yy (s\<lparr>heap_bytes := m\<rparr>) = g xx yy s"
  shows "fold (\<lambda>xx s. fold (\<lambda>yy s. put_pixel xx yy (g xx yy s) s) (map of_nat ys) s) (map of_nat xs)
      (s\<lparr>heap_bytes := m\<rparr>) =
    s\<lparr>heap_bytes := paint (screen_fb s) (wide s) (\<lambda>x y. g (of_nat x) (of_nat y) s)
        (List.product xs ys) m\<rparr>"
proof (induction xs arbitrary: m)
  case Nil
  then show ?case by (simp add: paint_def)
next
  case (Cons x xs)
  have col: "paint fb w (\<lambda>x' y. g (of_nat x) (of_nat y) s) (map (Pair x) ys) m =
      paint fb w (\<lambda>x y. g (of_nat x) (of_nat y) s) (map (Pair x) ys) m" for fb w
    unfolding paint_def fold_map by (intro fold_cong) auto
  show ?case
    using Cons fold_put_column [of "g (of_nat x)" s x ys m] assms by (simp add: paint_append col)
qed

section \<open>Drawing one character\<close>

text \<open>The renderer is started: the font is loaded and the cells are 8 by 8.\<close>

definition text_ready :: "'z text_state_scheme \<Rightarrow> bool" where
  "text_ready s \<longleftrightarrow> screen_ready s \<and> glyph_width s = 8 \<and>
     (\<forall>i < 256. \<forall>j < 64. font_booleans s i j = ucast (drop_bit j (integrated_font ! i) AND 1))"

lemma text_started_ready:
  "text_ready (text_render_clear
     ((text_renderer_load_glyph (text_render_load_dimensions w h s))\<lparr>screen_ready := True\<rparr>))"
  by (simp add: text_ready_def text_render_clear_def text_renderer_load_glyph_def
      text_render_load_dimensions_def Let_def)

lemma text_render_init_ready:
  assumes "text_render_init s = Some s'" and "\<not> screen_ready s" and "screen_fb s' \<noteq> 0"
  shows "text_ready s'"
  using assms unfolding text_render_init_def Let_def
  by (auto elim!: bind_SomeE simp: text_started_ready split: if_split_asm)

lemma text_glyph_read_bit:
  assumes "text_ready s" and "n < 64"
  shows "text_glyph_read c (of_nat n) s \<longleftrightarrow> bit (integrated_font ! unat c) n"
proof -
  have n: "unat (of_nat n :: u64) = n" using assms(2) by (intro unat_of_nat_nowrap) simp
  have "(ucast (drop_bit n w AND 1) :: u8) \<noteq> 0 \<longleftrightarrow> bit w n" for w :: u64
    by (simp add: bit_iff_odd_drop_bit and_one_eq mod2_eq_if)
  moreover have "unat c < 256" using unsigned_less [of c, where ?'a = nat] by simp
  ultimately show ?thesis using assms by (simp add: text_glyph_read_def n text_ready_def)
qed

lemma glyph_run_cell:
  assumes "8 * unat p + 8 < 2 ^ 64"
  shows "glyph_run (p * 8) = map of_nat [8 * unat p..<8 * unat p + 8]"
proof -
  have u: "unat (p * 8) = 8 * unat p" using unat_times_nowrap [of p 8] assms by simp
  then have "unat (p * 8 + 8) = 8 * unat p + 8" using unat_plus_nowrap [of "p * 8" 8] assms by simp
  then have lt: "p * 8 < p * 8 + 8" using u by (simp add: word_less_nat_alt)
  have "p * 8 + of_nat i = of_nat (8 * unat p + i)" for i by (simp add: mult.commute)
  then have "glyph_run (p * 8) = map (\<lambda>i. of_nat (8 * unat p + i)) [0..<8]"
    using lt by (simp add: glyph_run_def)
  also have "\<dots> = map of_nat (map (\<lambda>i. i + 8 * unat p) [0..<8])" by (simp add: add.commute)
  also have "map (\<lambda>i. i + 8 * unat p) [0..<8] = [8 * unat p..<8 * unat p + 8]"
    using map_add_upt [of "8 * unat p" 8] by (simp add: add.commute)
  finally show ?thesis .
qed

text \<open>Whether the pixel \<open>(x, y)\<close> of the cell belongs to the glyph of \<open>c\<close>.\<close>

definition glyph_bit :: "u8 \<Rightarrow> nat \<Rightarrow> nat \<Rightarrow> bool" where
  "glyph_bit c x y \<longleftrightarrow> bit (integrated_font ! unat c) (8 * (y mod 8) + x mod 8)"

lemma in_cell: "x \<in> {8 * k..<8 * k + 8} \<longleftrightarrow> x div 8 = (k :: nat)"
  by auto

lemma place_at_paints:
  fixes c color :: u8
  assumes "text_ready s" and "8 * unat (p_x pos) + 8 < 2 ^ 64" and "8 * unat (p_y pos) + 8 < 2 ^ 64"
  defines "g \<equiv> \<lambda>xx yy s. if text_glyph_read c
      ((yy - p_y pos * 8) * glyph_width s + (xx - p_x pos * 8)) s
    then text_translate_color_code (TEXT_COLOR_GET_FG color)
    else text_translate_color_code (TEXT_COLOR_GET_BG color)"
  shows "text_render_place_at pos c color s = s\<lparr>heap_bytes :=
    paint (screen_fb s) (wide s) (\<lambda>x y. g (of_nat x) (of_nat y) s)
      (List.product [8 * unat (p_x pos)..<8 * unat (p_x pos) + 8] [8 * unat (p_y pos)..<8 * unat (p_y pos) + 8])
      (heap_bytes s)\<rparr>"
proof -
  have "g xx yy (s\<lparr>heap_bytes := m\<rparr>) = g xx yy s" for xx yy m
    by (simp add: g_def text_glyph_read_def)
  from fold_put_cell [of g, OF this, of "[8 * unat (p_y pos)..<8 * unat (p_y pos) + 8]"
      "[8 * unat (p_x pos)..<8 * unat (p_x pos) + 8]" "heap_bytes s"]
  show ?thesis
    using assms(1) unfolding text_render_place_at_def Let_def glyph_run_cell [OF assms(2)]
      glyph_run_cell [OF assms(3)] g_def by (simp add: text_ready_def)
qed

lemma place_at_color:
  assumes "text_ready s" and "x div 8 = unat (p_x pos)" and "y div 8 = unat (p_y pos)"
  shows "text_glyph_read c ((of_nat y - p_y pos * 8) * glyph_width s + (of_nat x - p_x pos * 8)) s \<longleftrightarrow>
    glyph_bit c x y"
proof -
  have off: "of_nat z - p * 8 = (of_nat (z mod 8) :: u64)" if "z div 8 = unat p" for z p
  proof -
    have "z = 8 * unat p + z mod 8" using that by (metis mult_div_mod_eq)
    then have "(of_nat z :: u64) = of_nat (8 * unat p + z mod 8)" by (rule arg_cong)
    then show ?thesis by simp
  qed
  have "(of_nat (y mod 8) * 8 + of_nat (x mod 8) :: u64) = of_nat (8 * (y mod 8) + x mod 8)" by simp
  moreover have "8 * (y mod 8) + x mod 8 < 64"
    using mod_less_divisor [of 8 y] mod_less_divisor [of 8 x] by linarith
  ultimately show ?thesis
    using assms(1) text_glyph_read_bit [OF assms(1), of "8 * (y mod 8) + x mod 8" c]
    unfolding off [OF assms(2)] off [OF assms(3)] glyph_bit_def
    by (simp add: text_ready_def mult.commute)
qed

text \<open>C18:
  Drawing a character on a cell of the screen gives each of its 64 pixels the foreground color where
  the font has a bit and the background color elsewhere; no other pixel of the screen and no byte
  outside the framebuffer changes.
\<close>

theorem text_place_draws_glyph:
  assumes ready: "text_ready s" and size: "wide s * high s \<le> 2 ^ 62"
    and col: "8 * unat (p_x pos) + 8 \<le> wide s" and row: "8 * unat (p_y pos) + 8 \<le> high s"
    and "x < wide s" and "y < high s" and "4 * (wide s * high s) \<le> unat (a - screen_fb s)"
  shows "pixel x y (text_render_place_at pos c color s) =
      (if x div 8 = unat (p_x pos) \<and> y div 8 = unat (p_y pos)
       then text_translate_color_code (if glyph_bit c x y then TEXT_COLOR_GET_FG color else TEXT_COLOR_GET_BG color)
       else pixel x y s) \<and>
    heap_bytes (text_render_place_at pos c color s) a = heap_bytes s a"
proof -
  let ?xs = "[8 * unat (p_x pos)..<8 * unat (p_x pos) + 8]"
  let ?ys = "[8 * unat (p_y pos)..<8 * unat (p_y pos) + 8]"
  have lim: "8 * unat (p_x pos) + 8 < 2 ^ 64" "8 * unat (p_y pos) + 8 < 2 ^ 64"
    using col row unsigned_less [of "screen_width s", where ?'a = nat]
      unsigned_less [of "screen_height s", where ?'a = nat]
    by simp_all
  have inside: "\<forall>(x, y) \<in> set (List.product ?xs ?ys). x < wide s \<and> y < high s"
    using col row by auto
  have mem: "(x, y) \<in> set (List.product ?xs ?ys) \<longleftrightarrow> x div 8 = unat (p_x pos) \<and> y div 8 = unat (p_y pos)"
    by (simp add: in_cell [symmetric])
  let ?t = "text_render_place_at pos c color s"
  let ?color = "if text_glyph_read c ((of_nat y - p_y pos * 8) * glyph_width s + (of_nat x - p_x pos * 8)) s
    then text_translate_color_code (TEXT_COLOR_GET_FG color)
    else text_translate_color_code (TEXT_COLOR_GET_BG color)"
  have upd: "pixel x y (s\<lparr>heap_bytes := m\<rparr>) = read_u32 m (screen_fb s + 4 * of_nat (y * wide s + x))" for m
    by (simp add: pixel_def)
  have "pixel x y ?t = (if (x, y) \<in> set (List.product ?xs ?ys) then ?color else pixel x y s)"
    unfolding place_at_paints [OF ready lim] upd paint_read [OF inside \<open>x < wide s\<close> \<open>y < high s\<close> size]
    by (simp only: pixel_def)
  then have "pixel x y ?t =
      (if x div 8 = unat (p_x pos) \<and> y div 8 = unat (p_y pos)
       then text_translate_color_code (if glyph_bit c x y then TEXT_COLOR_GET_FG color else TEXT_COLOR_GET_BG color)
       else pixel x y s)"
    unfolding mem using place_at_color [OF ready, of x pos y c] by simp
  moreover have "heap_bytes ?t a = heap_bytes s a"
    unfolding place_at_paints [OF ready lim] using paint_outside [OF inside size assms(7)] by simp
  ultimately show ?thesis ..
qed

definition small_text :: text_state where
  "small_text = kbd_state.extend small_kbd
     \<lparr>screen_fb = 0x10000, screen_width = 16, screen_height = 8, screen_cols = 2, screen_rows = 1,
      glyph_width = 8, glyph_height = 8, glyphs_loaded = True, screen_ready = True,
      font_booleans = (\<lambda>i j. ucast (drop_bit j (integrated_font ! i) AND 1))\<rparr>"

lemma small_text_sel [simp]:
  "screen_width small_text = 16" "screen_height small_text = 8" "screen_fb small_text = 0x10000"
  "text_ready small_text"
  by (simp_all add: small_text_def kbd_state.defs text_ready_def)

lemma text_place_draws_glyph_witness:
  "pixel 11 0 (text_render_place_at \<lparr>p_x = 1, p_y = 0\<rparr> 0x41 0x0F small_text) = 0xFFFFFF"
proof -
  have "integrated_font ! 0x41 = 0x0042427E42422418"
    by (simp add: integrated_font_def integrated_font_low_def)
  then have "glyph_bit 0x41 11 0" by (simp add: glyph_bit_def bit_iff_odd_drop_bit)
  then show ?thesis
    using text_place_draws_glyph [where s = small_text and pos = "\<lparr>p_x = 1, p_y = 0\<rparr>" and x = 11 and y = 0
        and a = 0 and c = "0x41" and color = "0x0F"]
    by (simp add: TEXT_COLOR_GET_FG_def text_translate_color_code_def)
qed

end
