(* ===== verification/Tui_Props.thy ===== *)
theory Tui_Props
  imports Menus Text_Props
begin

text \<open>
  From the keyboard to the menu: the selection follows the keys, and drawing stays on the screen, so
  it cannot disturb the keyboard.
\<close>

section \<open>Drawing stays on the screen\<close>

definition on_screen :: "u64 \<Rightarrow> 'z text_state_scheme \<Rightarrow> bool" where
  "on_screen a s \<longleftrightarrow> unat (a - screen_fb s) < 4 * (wide s * high s)"

definition draws :: "'z text_state_scheme \<Rightarrow> 'z text_state_scheme \<Rightarrow> bool" where
  "draws s t \<longleftrightarrow> (\<exists>m. t = s\<lparr>heap_bytes := m\<rparr> \<and> (\<forall>a. \<not> on_screen a s \<longrightarrow> m a = heap_bytes s a))"

lemma on_screen_upd [simp]: "on_screen a (s\<lparr>heap_bytes := m\<rparr>) = on_screen a s"
  by (simp add: on_screen_def)

lemma text_ready_upd [simp]: "text_ready (s\<lparr>heap_bytes := m\<rparr>) = text_ready s"
  by (simp add: text_ready_def)

lemma draws_refl [simp]: "draws s s"
  unfolding draws_def by (rule exI [of _ "heap_bytes s"]) simp

lemma draws_trans [trans]:
  assumes "draws s t" and "draws t u"
  shows "draws s u"
proof -
  obtain m where t: "t = s\<lparr>heap_bytes := m\<rparr>" "\<forall>a. \<not> on_screen a s \<longrightarrow> m a = heap_bytes s a"
    using assms(1) unfolding draws_def by blast
  obtain m' where u: "u = t\<lparr>heap_bytes := m'\<rparr>" "\<forall>a. \<not> on_screen a t \<longrightarrow> m' a = heap_bytes t a"
    using assms(2) unfolding draws_def by blast
  have "u = s\<lparr>heap_bytes := m'\<rparr>" using t(1) u(1) by simp
  moreover have "\<forall>a. \<not> on_screen a s \<longrightarrow> m' a = heap_bytes s a" using t u(2) by simp
  ultimately show ?thesis unfolding draws_def by blast
qed

text \<open>A screen that has room for the menu: 16 columns and 10 rows.\<close>

definition menu_screen :: "'z text_state_scheme \<Rightarrow> bool" where
  "menu_screen s \<longleftrightarrow> text_ready s \<and> wide s * high s \<le> 2 ^ 62 \<and> 128 \<le> wide s \<and> 80 \<le> high s"

lemma menu_screen_draws: "draws s t \<Longrightarrow> menu_screen s \<Longrightarrow> menu_screen t"
  by (auto simp: draws_def menu_screen_def)

lemma place_at_draws:
  assumes "menu_screen s" and "unat (p_x pos) < 16" and "unat (p_y pos) < 10"
  shows "draws s (text_render_place_at pos c color s)"
proof -
  have ready: "text_ready s" and size: "wide s * high s \<le> 2 ^ 62"
    and col: "8 * unat (p_x pos) + 8 \<le> wide s" and row: "8 * unat (p_y pos) + 8 \<le> high s"
    using assms by (simp_all add: menu_screen_def)
  have lim: "8 * unat (p_x pos) + 8 < 2 ^ 64" "8 * unat (p_y pos) + 8 < 2 ^ 64" using assms by simp_all
  have inside: "\<forall>(x, y) \<in> set (List.product [8 * unat (p_x pos)..<8 * unat (p_x pos) + 8]
      [8 * unat (p_y pos)..<8 * unat (p_y pos) + 8]). x < wide s \<and> y < high s"
    using col row by auto
  have "paint (screen_fb s) (wide s) v (List.product [8 * unat (p_x pos)..<8 * unat (p_x pos) + 8]
      [8 * unat (p_y pos)..<8 * unat (p_y pos) + 8]) (heap_bytes s) a = heap_bytes s a"
    if "\<not> on_screen a s" for v a
    using paint_outside [OF inside size] that by (simp add: on_screen_def)
  then show ?thesis
    unfolding place_at_paints [OF ready lim] draws_def by blast
qed

lemma clear_draws:
  assumes "menu_screen s"
  shows "draws s (text_render_clear s)"
proof -
  have "screen_width s * screen_height s * 4 = of_nat (4 * (wide s * high s))" by simp
  then have "unat (screen_width s * screen_height s * 4) \<le> 4 * (wide s * high s)"
    by (simp only: unat_of_nat) (rule mod_less_eq_dividend)
  then show ?thesis
    using assms unfolding draws_def text_render_clear_def menu_screen_def text_ready_def
    by (auto simp: on_screen_def memset_out intro!: exI [of _ "memset (heap_bytes s) (screen_fb s) 0
      (screen_width s * screen_height s * 4)"])
qed

lemma render_char_printable:
  assumes "0x20 \<le> c"
  shows "menu_render_char col color c (pos, s) =
    (pos\<lparr>p_x := p_x pos + 1\<rparr>, text_render_place_at pos c color s)"
proof -
  have "c \<noteq> 0x0A" "c \<noteq> 0x09" "c \<noteq> 0x08" "c \<noteq> 0x0D" using assms by auto
  then show ?thesis by (simp add: menu_render_char_def)
qed

text \<open>A text of printable characters that fits on its row.\<close>

lemma string_draws:
  assumes "menu_screen s" and "\<forall>c \<in> set str. 0x20 \<le> c" and "unat x + length str \<le> 16" and "unat y < 10"
  shows "draws s (snd (fold (menu_render_char col color) str (\<lparr>p_x = x, p_y = y\<rparr>, s)))"
  using assms
proof (induction str arbitrary: x s)
  case (Cons c str)
  let ?t = "text_render_place_at \<lparr>p_x = x, p_y = y\<rparr> c color s"
  have d: "draws s ?t" using Cons.prems by (intro place_at_draws) simp_all
  have "unat (x + 1) = unat x + 1" using unat_plus_nowrap [of x 1] Cons.prems(3) by simp
  then have "draws ?t (snd (fold (menu_render_char col color) str (\<lparr>p_x = x + 1, p_y = y\<rparr>, ?t)))"
    using Cons.prems menu_screen_draws [OF d] by (intro Cons.IH) simp_all
  then show ?case
    using draws_trans [OF d] Cons.prems(2) by (simp add: render_char_printable)
qed simp

lemma render_string_draws:
  assumes "menu_screen s" and "\<forall>c \<in> set str. 0x20 \<le> c" and "unat x + length str \<le> 16" and "unat y < 10"
  shows "draws s (menu_render_string_at x y str color s)"
  unfolding menu_render_string_at_def using string_draws [OF assms] .

lemma item_draws:
  assumes "menu_screen s"
  shows "draws s (menu_render_item (menu_main_item opt) color s)"
  unfolding menu_render_item_def
  by (rule render_string_draws [OF assms]; cases opt) (simp_all add: text_of_def)

section \<open>What the menu leaves alone\<close>

definition menu_frame :: "'z menu_state_scheme \<Rightarrow> 'z menu_state_scheme \<Rightarrow> bool" where
  "menu_frame s t \<longleftrightarrow> (\<exists>m upd sel p d.
     t = s\<lparr>heap_bytes := m, menu_needs_update := upd, selected_option := sel, pong := p, menu_drawn := d\<rparr> \<and>
     (\<forall>a. \<not> on_screen a s \<longrightarrow> m a = heap_bytes s a))"

lemma menu_frame_refl [simp]: "menu_frame s s"
  unfolding menu_frame_def
  by (rule exI [of _ "heap_bytes s"], rule exI [of _ "menu_needs_update s"], rule exI [of _ "selected_option s"],
      rule exI [of _ "pong s"], rule exI [of _ "menu_drawn s"]) simp

lemma on_screen_menu [simp]:
  "on_screen a (s\<lparr>selected_option := sel\<rparr>) = on_screen a s" "on_screen a (s\<lparr>pong := p\<rparr>) = on_screen a s"
  "on_screen a (s\<lparr>menu_needs_update := upd\<rparr>) = on_screen a s"
  "on_screen a (s\<lparr>menu_drawn := d\<rparr>) = on_screen a s"
  "on_screen a (s\<lparr>menu_initialized := ini\<rparr>) = on_screen a s"
  by (simp_all add: on_screen_def)

lemma menu_screen_menu [simp]:
  "menu_screen (s\<lparr>selected_option := sel\<rparr>) = menu_screen s" "menu_screen (s\<lparr>pong := p\<rparr>) = menu_screen s"
  "menu_screen (s\<lparr>menu_needs_update := upd\<rparr>) = menu_screen s"
  "menu_screen (s\<lparr>menu_drawn := d\<rparr>) = menu_screen s"
  "menu_screen (s\<lparr>menu_initialized := ini\<rparr>) = menu_screen s"
  "menu_screen (s\<lparr>heap_bytes := m\<rparr>) = menu_screen s"
  by (simp_all add: menu_screen_def text_ready_def)

lemma menu_frame_trans [trans]:
  assumes "menu_frame s t" and "menu_frame t u"
  shows "menu_frame s u"
  using assms unfolding menu_frame_def by (elim exE conjE) (simp, blast)

lemma menu_frame_draws: "draws s t \<Longrightarrow> menu_frame s t"
  unfolding draws_def menu_frame_def
  by (elim exE conjE, rule exI, rule exI [of _ "menu_needs_update s"], rule exI [of _ "selected_option s"],
      rule exI [of _ "pong s"], rule exI [of _ "menu_drawn s"]) simp

lemma menu_frame_fields [simp]:
  "menu_frame s (s\<lparr>selected_option := sel\<rparr>)" "menu_frame s (s\<lparr>pong := p\<rparr>)"
  "menu_frame s (s\<lparr>menu_needs_update := upd\<rparr>)" "menu_frame s (s\<lparr>menu_drawn := d\<rparr>)"
  unfolding menu_frame_def by (cases s rule: menu_state.cases_scheme; simp; blast)+

lemma menu_frame_kept:
  "menu_frame s t \<Longrightarrow> menu_screen t = menu_screen s"
  "menu_frame s t \<Longrightarrow> menu_initialized t = menu_initialized s"
  unfolding menu_frame_def by (elim exE conjE, simp)+

lemma draws_fields: "draws s t \<Longrightarrow> selected_option t = selected_option s"
  by (auto simp: draws_def)

section \<open>The selection follows the keys\<close>

text \<open>Where a key takes the selection.\<close>

definition menu_nav :: "hid_keycode \<Rightarrow> menu_option \<Rightarrow> menu_option" where
  "menu_nav k opt =
     (let i = menu_main_item opt;
          target = (if k = HID_KEYCODE_UP then it_up i else if k = HID_KEYCODE_DOWN then it_down i
                    else if k = HID_KEYCODE_LEFT then it_left i
                    else if k = HID_KEYCODE_RIGHT then it_right i else None)
      in case target of None \<Rightarrow> opt | Some new \<Rightarrow> new)"

lemma select_option_runs:
  assumes "menu_screen s" and "selected_option s = Some old"
  shows "\<exists>t. menu_main_select_option opt s = Some t \<and> menu_frame s t \<and>
    selected_option t = Some (case opt of None \<Rightarrow> old | Some new \<Rightarrow> new)"
proof (cases opt)
  case None
  then show ?thesis using assms by (simp add: menu_main_select_option_def)
next
  case (Some new)
  define s1 where "s1 = menu_main_unhighlight_option old s"
  define s2 where "s2 = s1\<lparr>selected_option := Some new\<rparr>"
  define t where "t = menu_main_highlight_option new s2"
  have d1: "draws s s1"
    using item_draws [OF assms(1)] by (simp add: s1_def menu_main_unhighlight_option_def Let_def)
  then have "menu_screen s2" using menu_screen_draws [OF d1 assms(1)] by (simp add: s2_def)
  then have d2: "draws s2 t" using item_draws by (simp add: t_def menu_main_highlight_option_def Let_def)
  have "menu_frame s s2"
    using menu_frame_trans [OF menu_frame_draws [OF d1]] by (simp add: s2_def)
  then have "menu_frame s t" using menu_frame_trans menu_frame_draws [OF d2] by blast
  moreover have "selected_option t = Some new" using draws_fields [OF d2] by (simp add: s2_def)
  moreover have "menu_main_select_option opt s = Some t"
    using Some assms(2) by (simp add: menu_main_select_option_def Let_def t_def s2_def s1_def)
  ultimately show ?thesis using Some by simp
qed

lemma perform_frame:
  assumes "menu_screen s"
  shows "menu_frame s (menu_perform task s) \<and> selected_option (menu_perform task s) = selected_option s"
proof (cases task)
  case Option_Clear
  have d: "draws s (text_render_clear s)" using clear_draws [OF assms] .
  show ?thesis
    using Option_Clear menu_frame_trans [OF menu_frame_draws [OF d]] draws_fields [OF d]
    by (simp add: menu_perform_def)
next
  case Option_Ping
  let ?t = "menu_render_string_at 4 9 (if pong s then text_of ''Pong!'' else text_of ''Pong?'')
      (TEXT_COLOR_COMBO TEXT_COLOR_WHITE TEXT_COLOR_RED) s"
  have d: "draws s ?t" by (rule render_string_draws [OF assms]) (auto simp: text_of_def)
  show ?thesis
    using Option_Ping menu_frame_trans [OF menu_frame_draws [OF d]] draws_fields [OF d]
    by (simp add: menu_perform_def Let_def)
next
  case Do_Nothing
  then show ?thesis by (simp add: menu_perform_def)
qed

lemma handle_key_runs:
  assumes "menu_screen s" and "selected_option s = Some opt"
  shows "\<exists>t. menu_main_handle_key k s = Some t \<and> menu_frame s t \<and> selected_option t = Some (menu_nav k opt)"
  using select_option_runs [OF assms] perform_frame [OF assms(1)] assms(2)
  by (simp add: menu_main_handle_key_def menu_nav_def Let_def)

lemma draw_items_runs:
  assumes "menu_screen s"
  shows "\<exists>t. menu_draw_items (Some Option_1) s = Some t \<and> draws s t"
proof -
  define r :: "menu_option \<Rightarrow> 'a menu_state_scheme \<Rightarrow> 'a menu_state_scheme"
    where "r i = menu_render_item (menu_main_item i) (it_color (menu_main_item i))" for i
  have step: "draws s (r i s')" if "draws s s'" for i s'
    using draws_trans [OF that] item_draws [OF menu_screen_draws [OF that assms]] by (simp add: r_def)
  have "menu_draw_items (Some Option_1) s = Some (r Option_4 (r Option_3 (r Option_2 (r Option_1 s))))"
    by (simp add: menu_draw_items.simps r_def)
  then show ?thesis using step by (simp add: step)
qed

lemma menu_update_runs:
  assumes "menu_screen s" and "selected_option s = Some opt" and "menu_initialized s"
  shows "\<exists>t. menu_main_update s = Some t \<and> menu_frame s t \<and> selected_option t = Some opt \<and> menu_initialized t"
proof (cases "menu_needs_update s")
  case False
  then show ?thesis using assms by (simp add: menu_main_update_def)
next
  case True
  define s1 where "s1 = text_render_clear (s\<lparr>menu_drawn := False\<rparr>)"
  have d1: "draws (s\<lparr>menu_drawn := False\<rparr>) s1"
    unfolding s1_def by (rule clear_draws) (simp add: assms(1))
  obtain s2 where s2: "menu_draw_items (Some Option_1) s1 = Some s2" "draws s1 s2"
    using draw_items_runs menu_screen_draws [OF d1] assms(1) by auto
  note d2 = draws_trans [OF d1 s2(2)]
  let ?s3 = "s2\<lparr>menu_drawn := True\<rparr>"
  have sel: "selected_option s2 = Some opt" using draws_fields [OF d2] assms(2) by simp
  have "menu_screen ?s3" using menu_screen_draws [OF d2] assms(1) by simp
  from select_option_runs [OF this, of opt "Some opt"] sel obtain t
    where t: "menu_main_select_option (Some opt) ?s3 = Some t" "menu_frame ?s3 t" "selected_option t = Some opt"
    by auto
  have "menu_frame s ?s3"
    by (rule menu_frame_trans [OF menu_frame_fields(4) [of s False]],
        rule menu_frame_trans [OF menu_frame_draws [OF d2]]) simp
  then have "menu_frame s (t\<lparr>menu_needs_update := False\<rparr>)"
    using menu_frame_trans [OF _ t(2)] menu_frame_trans by (metis menu_frame_fields(3))
  moreover have "menu_main_update s = Some (t\<lparr>menu_needs_update := False\<rparr>)"
    using True assms(3) s2(1) t(1) sel by (simp add: menu_main_update_def menu_main_draw_def s1_def Let_def)
  moreover have "menu_initialized t" using menu_frame_kept(2) [OF t(2)] menu_frame_kept(2) [OF menu_frame_draws [OF d2]] assms(3)
    by simp
  ultimately show ?thesis using t(3) by simp
qed

section \<open>The running user interface\<close>

text \<open>
  The keyboard's page and the table of listeners lie outside each other and outside the framebuffer.
\<close>

definition keyboard_apart :: "'z text_state_scheme \<Rightarrow> bool" where
  "keyboard_apart s \<longleftrightarrow>
     (\<forall>i < 4096. \<not> on_screen (kb_buffer s + of_nat i) s) \<and>
     (\<forall>i < 8 * unat (listeners_count s). \<not> on_screen (listeners s + of_nat i) s \<and>
        listeners s + of_nat i - kb_buffer s \<ge> 4096)"

definition tui_ready :: "'z tui_state_scheme \<Rightarrow> bool" where
  "tui_ready s \<longleftrightarrow> menu_screen s \<and> selected_menu s = Some Menu_Main \<and> selected_option s \<noteq> None \<and>
     menu_initialized s \<and> keyboard_apart s"

definition tui_live :: "u64 \<Rightarrow> 'z tui_state_scheme \<Rightarrow> bool" where
  "tui_live event s \<longleftrightarrow> tui_ready s \<and> tui_on s \<and> kbd_started s \<and> kb_ready s \<and>
     internal_buffer s = kb_buffer s \<and> internal_buffer_size s = kb_size s \<and> kbd_listeners s = [event]"

lemma read_u64_cong:
  assumes "\<And>i. i < 8 \<Longrightarrow> m' (p + of_nat i) = m (p + of_nat i)"
  shows "read_u64 m' p = read_u64 m p"
proof -
  have "read_u32 m' p = read_u32 m p" using assms by (intro read_u32_cong) simp
  moreover have "read_u32 m' (p + 4) = read_u32 m (p + 4)"
  proof (rule read_u32_cong)
    fix i :: nat assume "i < 4"
    then show "m' (p + 4 + of_nat i) = m (p + 4 + of_nat i)"
      using assms [of "4 + i"] by (simp add: add.assoc)
  qed
  ultimately show ?thesis by (simp add: read_u64_def)
qed

lemma listener_at_cong:
  assumes "i < unat (listeners_count s)" and "listeners t = listeners s"
    and "\<And>k. k < 8 * unat (listeners_count s) \<Longrightarrow>
      heap_bytes t (listeners s + of_nat k) = heap_bytes s (listeners s + of_nat k)"
  shows "listener_at (of_nat i) t = listener_at (of_nat i) s"
  unfolding listener_at_def assms(2)
proof (rule read_u64_cong)
  fix k :: nat assume "k < 8"
  then have "8 * i + k < 8 * unat (listeners_count s)" using assms(1) by linarith
  from assms(3) [OF this]
  show "heap_bytes t (listeners s + 8 * of_nat i + of_nat k) =
      heap_bytes s (listeners s + 8 * of_nat i + of_nat k)"
    by (simp add: add.assoc)
qed

lemma menu_frame_keyboard:
  assumes "menu_frame s t" and "keyboard_apart s"
  shows "kbd_frame s t" and "keyboard_apart t"
proof -
  obtain m upd sel p d where t: "t = s\<lparr>heap_bytes := m, menu_needs_update := upd, selected_option := sel,
      pong := p, menu_drawn := d\<rparr>" and m: "\<And>a. \<not> on_screen a s \<Longrightarrow> m a = heap_bytes s a"
    using assms(1) unfolding menu_frame_def by blast
  have "listener_at (of_nat i) t = listener_at (of_nat i) s" if "i < unat (listeners_count s)" for i
    using that assms(2) m by (intro listener_at_cong) (auto simp: t keyboard_apart_def)
  then show "kbd_frame s t"
    using m assms(2) by (simp add: kbd_frame_def t keyboard_apart_def)
  show "keyboard_apart t" using assms(2) by (simp add: t keyboard_apart_def)
qed

lemma tui_event_runs:
  assumes "tui_ready s" and "selected_option s = Some opt"
  shows "\<exists>t. tui_kbd_event k s = Some t \<and> menu_frame s t \<and> tui_ready t \<and>
    selected_option t = Some (menu_nav k opt)"
proof -
  obtain t where t: "menu_main_handle_key k s = Some t" "menu_frame s t"
      "selected_option t = Some (menu_nav k opt)"
    using handle_key_runs [of s opt k] assms by (auto simp: tui_ready_def)
  have "selected_menu t = selected_menu s" using t(2) unfolding menu_frame_def by (elim exE conjE) simp
  then have "tui_ready t"
    using assms t menu_frame_kept [OF t(2)] menu_frame_keyboard(2) [OF t(2)] by (simp add: tui_ready_def)
  then show ?thesis using t assms(1) by (simp add: tui_kbd_event_def tui_ready_def)
qed

lemma tui_ready_modifiers: "tui_ready (kbd_modifiers k t) = tui_ready t"
  "selected_option (kbd_modifiers k t) = selected_option t" "tui_on (kbd_modifiers k t) = tui_on t"
  by (simp_all add: kbd_modifiers_def tui_ready_def menu_screen_def text_ready_def keyboard_apart_def on_screen_def)

definition tui_act :: "u64 \<Rightarrow> hid_keycode \<Rightarrow> 'z tui_state_scheme \<Rightarrow> 'z tui_state_scheme" where
  "tui_act f k s = the (tui_kbd_event k s)"

lemma tui_listeners_good: "good_listeners tui_ready (tui_listener event) tui_act [event]"
proof -
  have "tui_kbd_event k t = Some (tui_act event k t) \<and> kbd_frame t (tui_act event k t) \<and> tui_ready (tui_act event k t)"
    if ready: "tui_ready t" for k and t :: "'a tui_state_scheme"
  proof -
    obtain opt where "selected_option t = Some opt" using ready by (auto simp: tui_ready_def)
    from tui_event_runs [OF ready this, of k] obtain u
      where "tui_kbd_event k t = Some u" "menu_frame t u" "tui_ready u" by blast
    then show ?thesis using menu_frame_keyboard(1) [of t u] ready by (simp add: tui_act_def tui_ready_def)
  qed
  then show ?thesis by (simp add: good_listeners_def tui_ready_modifiers tui_listener_def)
qed

lemma tui_hears:
  fixes ks :: "hid_keycode list" and event :: u64
  assumes "tui_ready s" and "selected_option s = Some opt" and "tui_on s"
  defines "t \<equiv> fold (kbd_hear tui_act [event]) ks s"
  shows "tui_ready t \<and> kbd_frame s t \<and> selected_option t = Some (fold menu_nav ks opt) \<and> tui_on t"
  using assms(1-3) unfolding t_def
proof (induction ks arbitrary: s opt)
  case (Cons k ks)
  let ?u = "kbd_modifiers k s"
  obtain t where t: "tui_kbd_event k ?u = Some t" "menu_frame ?u t" "tui_ready t"
      "selected_option t = Some (menu_nav k opt)"
    using tui_event_runs [of ?u opt k] Cons.prems by (auto simp: tui_ready_modifiers)
  have "kbd_frame ?u t" using menu_frame_keyboard(1) [OF t(2)] Cons.prems(1) tui_ready_modifiers(1) [of k s]
    by (simp add: tui_ready_def)
  then have fr: "kbd_frame s t" using kbd_frame_trans kbd_frame_modifiers by blast
  have "tui_on t" using t(2) Cons.prems(3) tui_ready_modifiers(3) [of k s]
    unfolding menu_frame_def by (elim exE conjE) simp
  then show ?case
    using Cons.IH [OF t(3,4)] kbd_frame_trans [OF fr] t(1) by (simp add: kbd_hear_def tui_act_def)
qed simp

lemma tui_live_memory:
  assumes live: "tui_live event s" and far: "\<And>a. a - kb_buffer s \<ge> 4096 \<Longrightarrow> m a = heap_bytes s a"
    and "kb_ready (s\<lparr>heap_bytes := m\<rparr>)"
  shows "tui_live event (s\<lparr>heap_bytes := m\<rparr>)"
proof -
  have "listener_at (of_nat i) (s\<lparr>heap_bytes := m\<rparr>) = listener_at (of_nat i) s"
    if "i < unat (listeners_count s)" for i
    using that live far by (intro listener_at_cong) (auto simp: tui_live_def tui_ready_def keyboard_apart_def)
  then have "kbd_listeners (s\<lparr>heap_bytes := m\<rparr>) = kbd_listeners s"
    by (auto simp: kbd_listeners_def intro!: arg_cong [where f = "filter _"])
  then show ?thesis
    using live assms(3)
    by (simp add: tui_live_def tui_ready_def menu_screen_def text_ready_def keyboard_apart_def on_screen_def)
qed

lemma save_keys_memory: "fold kb_man_save_key ks s = s\<lparr>heap_bytes := heap_bytes (fold kb_man_save_key ks s)\<rparr>"
proof (induction ks arbitrary: s)
  case (Cons k ks)
  obtain m where a: "kb_man_save_key k s = s\<lparr>heap_bytes := m\<rparr>"
  proof
    show "kb_man_save_key k s = s\<lparr>heap_bytes := heap_bytes (kb_man_save_key k s)\<rparr>"
      by (simp add: kb_man_save_key_def Let_def)
  qed
  have "fold kb_man_save_key ks (s\<lparr>heap_bytes := m\<rparr>) =
      s\<lparr>heap_bytes := heap_bytes (fold kb_man_save_key ks (s\<lparr>heap_bytes := m\<rparr>))\<rparr>"
    by (rule trans [OF Cons [of "s\<lparr>heap_bytes := m\<rparr>"]]) simp
  then show ?case unfolding fold_simps a .
qed simp

lemma save_keys_live:
  fixes ks :: "u8 list"
  assumes "tui_live event s"
  defines "t \<equiv> fold kb_man_save_key ks s"
  shows "tui_live event t \<and> kb_keys t = take 4094 (kb_keys s @ ks) \<and> selected_option t = selected_option s"
proof -
  have ready: "kb_ready s" using assms(1) by (simp add: tui_live_def)
  have t: "t = s\<lparr>heap_bytes := heap_bytes t\<rparr>" unfolding t_def by (rule save_keys_memory)
  have "kb_ready t" using kb_page.fold_inv [OF ready] by (simp add: t_def)
  then have "tui_live event t"
    using tui_live_memory [OF assms(1), of "heap_bytes t"] kb_fold_far [OF ready] t by (simp add: t_def)
  moreover have "selected_option t = selected_option s" by (subst t) simp
  ultimately show ?thesis using kb_page.fold_contents [OF ready] by (simp add: t_def)
qed

lemma kbd_frame_page:
  assumes "kbd_frame s t" and ready: "kb_ready s"
  shows "kb_ready t" and "kb_keys t = kb_keys s"
proof -
  have size: "kb_size s = kb_buffer s + 4094" and n: "kb_count s \<le> 4094"
    using ready by (simp_all add: kb_ready_def)
  have fields: "kb_pid t = kb_pid s" "kb_buffer t = kb_buffer s" "kb_size t = kb_size s"
    and bytes: "\<And>i. i < 4096 \<Longrightarrow> heap_bytes t (kb_buffer s + of_nat i) = heap_bytes s (kb_buffer s + of_nat i)"
    using assms(1) by (simp_all add: kbd_frame_def)
  have "read_u16 (heap_bytes t) (kb_size s) = read_u16 (heap_bytes s) (kb_size s)"
    using bytes [of 4094] bytes [of 4095] by (intro read_u16_cong) (simp_all add: size add.assoc)
  then have count: "kb_count t = kb_count s" by (simp add: kb_count_def fields)
  then show "kb_ready t" using ready unfolding kb_ready_def fields by metis
  show "kb_keys t = kb_keys s" using bytes n by (simp add: kb_keys_def count fields read_bytes_def)
qed

lemma tui_live_frame:
  assumes "tui_live event s" and "kbd_frame s t" and "tui_ready t" and "tui_on t"
  shows "tui_live event t"
  using assms kbd_frame_page(1) [OF assms(2)] kbd_frame_listeners [OF assms(2)]
  by (simp add: tui_live_def kbd_frame_def)

lemma tui_update_runs:
  assumes live: "tui_live event s" and sel: "selected_option s = Some opt"
  shows "\<exists>t. tui_update event s = Some (True, t) \<and> tui_live event t \<and> kb_keys t = [] \<and>
    selected_option t = Some (fold menu_nav (kb_keys s) opt)"
proof -
  have ready: "tui_ready s" and on: "tui_on s" and fs: "kbd_listeners s = [event]" and kb: "kb_ready s"
    and rest: "kbd_started s" "internal_buffer s = kb_buffer s" "internal_buffer_size s = kb_size s"
    using live by (simp_all add: tui_live_def)
  define u where "u = fold (kbd_hear tui_act [event]) (kb_keys s) s"
  have u: "tui_ready u" "kbd_frame s u" "selected_option u = Some (fold menu_nav (kb_keys s) opt)" "tui_on u"
    using tui_hears [OF ready sel on] by (simp_all add: u_def)
  have live_u: "tui_live event u" using tui_live_frame [OF live u(2,1,4)] .
  have same: "kb_buffer u = kb_buffer s" "kb_size u = kb_size s" using u(2) by (simp_all add: kbd_frame_def)
  obtain m where m: "kbd_update (tui_listener event) s = Some (u\<lparr>heap_bytes := m\<rparr>)"
    "read_u16 m (kb_size s) = 0" "\<And>a. a - kb_buffer s \<ge> 4096 \<Longrightarrow> m a = heap_bytes u a"
    using kbd_update_runs [OF rest(1) kb rest(2,3), where keeps = tui_ready and act = tui_act
      and listener = "tui_listener event"] tui_listeners_good ready
    unfolding fs u_def by blast
  define v where "v = u\<lparr>heap_bytes := m\<rparr>"
  have fields: "kb_pid v = kb_pid u" "kb_buffer v = kb_buffer u" "kb_size v = kb_size u" by (simp_all add: v_def)
  have count: "kb_count v = 0" using m(2) by (simp add: kb_count_def v_def same)
  have empty: "kb_ready v" "kb_keys v = []"
    using kbd_frame_page(1) [OF u(2) kb] unfolding kb_ready_def kb_keys_def read_bytes_def count fields
    by (metis le0, simp)
  have live_v: "tui_live event v"
    using tui_live_memory [OF live_u, of m] m(3) empty(1) by (simp add: v_def same)
  have sel_v: "selected_option v = Some (fold menu_nav (kb_keys s) opt)" using u(3) by (simp add: v_def)
  obtain t where t: "menu_main_update v = Some t" "menu_frame v t"
      "selected_option t = Some (fold menu_nav (kb_keys s) opt)" "menu_initialized t"
    using menu_update_runs [OF _ sel_v] live_v by (auto simp: tui_live_def tui_ready_def)
  have apart: "keyboard_apart v" and menu: "selected_menu v = Some Menu_Main" "menu_screen v" "tui_on v"
    using live_v by (simp_all add: tui_live_def tui_ready_def)
  have kept: "selected_menu t = selected_menu v" "tui_on t = tui_on v"
    using t(2) unfolding menu_frame_def by (elim exE conjE, simp)+
  note fr = menu_frame_keyboard [OF t(2) apart]
  have "tui_ready t" using t fr(2) kept menu menu_frame_kept(1) [OF t(2)] by (simp add: tui_ready_def)
  then have "tui_live event t" using tui_live_frame [OF live_v fr(1)] kept menu by simp
  moreover have "kb_keys t = []" using kbd_frame_page(2) [OF fr(1) empty(1)] empty(2) by simp
  moreover have "tui_update event s = Some (True, t)"
    using on m(1) t(1) menu by (simp add: tui_update_def v_def tui_graphic_update_def)
  ultimately show ?thesis using t(3) by blast
qed

text \<open>C1:
  While the user interface runs, whatever keys the kernel stores between two updates, the next update
  returns, moves the selection of the menu as the keys say, in order, and leaves the interface running
  with an empty keyboard page; so it never fails, and drawing never harms the keyboard.
\<close>

theorem tui_follows_keys:
  assumes "tui_live event s" and "kb_keys s = []" and "selected_option s = Some opt"
  shows "\<exists>t. tui_update event (fold kb_man_save_key ks s) = Some (True, t) \<and> tui_live event t \<and>
    kb_keys t = [] \<and> selected_option t = Some (fold menu_nav (take 4094 ks) opt)"
proof -
  from save_keys_live [OF assms(1), of ks] assms(2,3)
  have "tui_live event (fold kb_man_save_key ks s)" "kb_keys (fold kb_man_save_key ks s) = take 4094 ks"
    "selected_option (fold kb_man_save_key ks s) = Some opt"
    by simp_all
  from tui_update_runs [OF this(1,3)] this(2) show ?thesis by simp
qed

definition small_tui :: tui_state where
  "small_tui = menu_state.extend
     (text_state.extend
       (kbd_state.extend (small_kbd\<lparr>heap_bytes := (\<lambda>_. 0)(0x6002 := 0x40)\<rparr>)
         \<lparr>screen_fb = 0x100000, screen_width = 128, screen_height = 80, screen_cols = 16, screen_rows = 10,
          glyph_width = 8, glyph_height = 8, glyphs_loaded = True, screen_ready = True,
          font_booleans = (\<lambda>i j. ucast (drop_bit j (integrated_font ! i) AND 1))\<rparr>)
       \<lparr>menu_needs_update = False, selected_option = Some Option_1, pong = False, menu_drawn = True,
        menu_initialized = True\<rparr>)
     \<lparr>tui_on = True, selected_menu = Some Menu_Main\<rparr>"

lemma small_tui_sel [simp]:
  "screen_fb small_tui = 0x100000" "screen_width small_tui = 128" "screen_height small_tui = 80"
  "kb_buffer small_tui = 0x5000" "kb_size small_tui = 0x5FFE" "kb_pid small_tui = 7"
  "internal_buffer small_tui = 0x5000" "internal_buffer_size small_tui = 0x5FFE" "kbd_started small_tui"
  "listeners small_tui = 0x6000" "listeners_count small_tui = 1" "text_ready small_tui"
  "selected_option small_tui = Some Option_1" "menu_initialized small_tui" "tui_on small_tui"
  "selected_menu small_tui = Some Menu_Main" "heap_bytes small_tui = (\<lambda>_. 0)(0x6002 := 0x40)"
  by (simp_all add: small_tui_def menu_state.defs text_state.defs kbd_state.defs text_ready_def
      small_kbd_def ps2_state.defs small_ps2_def call_state.defs small_call_def
      sched_state.defs small_sched_def tss_state.defs small_tss_def pool_state.defs apic_state.defs
      small_apic_def machine_state.defs small_machine_def heap_state.defs small_heap_def paging_state.defs)

lemma small_tui_live: "tui_live 0x400000 small_tui" and small_tui_empty: "kb_keys small_tui = []"
proof -
  have below: "\<not> on_screen a small_tui" if "unat a < 0x10000" for a
  proof -
    have "unat (a - 0x100000) = unat a + 2 ^ 64 - 0x100000"
      using that unat_sub_if_size [of a "0x100000"] by (simp add: word_size word_le_nat_alt)
    then show ?thesis by (simp add: on_screen_def)
  qed
  have lo: "unat (0x5000 + of_nat i :: u64) < 0x10000" if "i < 4096" for i
    using that unat_plus_nowrap [of "0x5000 :: u64" "of_nat i"] by (simp add: unat_of_nat)
  have hi: "unat (0x6000 + of_nat i :: u64) < 0x10000" if "i < 8" for i
    using that unat_plus_nowrap [of "0x6000 :: u64" "of_nat i"] by (simp add: unat_of_nat)
  have far: "0x6000 + of_nat i - (0x5000 :: u64) \<ge> 4096" if "i < 8" for i
    using that unat_plus_nowrap [of "0x1000 :: u64" "of_nat i"] by (simp add: word_le_nat_alt unat_of_nat)
  have count: "kb_count small_tui = 0" by (simp add: kb_count_def read_u16_def)
  have "read_u64 (heap_bytes small_tui) 0x6000 = 0x400000"
    by (simp add: read_u64_def read_u32_def read_u16_def)
  then have "kbd_listeners small_tui = [0x400000]" by (simp add: kbd_listeners_def listener_at_def)
  then show "tui_live 0x400000 small_tui"
    using below lo hi far count
    by (simp add: tui_live_def tui_ready_def menu_screen_def keyboard_apart_def kb_ready_def)
  show "kb_keys small_tui = []" by (simp add: kb_keys_def count read_bytes_def)
qed

lemma tui_follows_keys_witness:
  "\<exists>t. tui_update 0x400000 (fold kb_man_save_key [HID_KEYCODE_RIGHT, HID_KEYCODE_DOWN] small_tui) = Some (True, t) \<and>
     selected_option t = Some Option_4"
proof -
  let ?ks = "[HID_KEYCODE_RIGHT, HID_KEYCODE_DOWN]"
  have "take 4094 ?ks = ?ks" by (rule take_all) simp
  moreover have "fold menu_nav ?ks Option_1 = Option_4" by (simp add: menu_nav_def)
  ultimately have "fold menu_nav (take 4094 ?ks) Option_1 = Option_4" by (simp only:)
  with tui_follows_keys [OF small_tui_live small_tui_empty small_tui_sel(13), of ?ks]
  show ?thesis by metis
qed

end
