(* ===== verification/Printf.thy ===== *)
theory Printf
  imports Itoa
begin

text \<open>
  Formatted output, \<open>vprintf\<close> of \<open>kernel/src/extra/std/printf.c\<close> (the window manager's copy differs
  in the function that puts a character out). The format is the list of its bytes in front of the
  terminating zero, a string argument the list of bytes that it points to; every other argument is
  the 64-bit slot that \<open>va_arg\<close> reads. The result is the list of the characters that were displayed
  and their number.

  \<open>None\<close> is undefined behaviour: reading behind the format or the arguments, overflow of an \<open>int\<close>, of
  \<open>intmax_t\<close> or of the buffer of 256 characters. The conversions of floating point numbers and
  \<open>%n\<close>, which no caller uses, are also \<open>None\<close>: they are not modelled.
\<close>

section \<open>Numbers\<close>

abbreviation BUFFER_SIZE :: nat where "BUFFER_SIZE \<equiv> 256"

definition int_str_digit :: "nat \<Rightarrow> nat \<Rightarrow> u8" where
  "int_str_digit base d =
     (text_of ''0123456789'' @
      (if base = 16 then text_of ''ABCDEF'' else if base = 17 then text_of ''abcdef'' else [])) ! d"

text \<open>
  The loop that counts the digits of \<open>i\<close> and the loop that writes them from the last one backwards.
  \<open>digit\<close> is the table of digits.
\<close>

function int_str_digits :: "(nat \<Rightarrow> u8) \<Rightarrow> nat \<Rightarrow> nat \<Rightarrow> u8 list" where
  "int_str_digits digit base i =
     (if base < 2 \<or> i div base = 0 then [digit (i mod base)]
      else int_str_digits digit base (i div base) @ [digit (i mod base)])"
  by pat_completeness auto
termination
  by (relation "measure (\<lambda>(digit, base, i). i)") (auto simp: div_greater_zero_iff intro!: div_less_dividend)

declare int_str_digits.simps [simp del]

text \<open>Base 17 stands for 16 with small letters.\<close>

definition int_str ::
    "int \<Rightarrow> nat \<Rightarrow> bool \<Rightarrow> bool \<Rightarrow> int \<Rightarrow> bool \<Rightarrow> bool \<Rightarrow> u8 list option" where
  "int_str i base plusSignIfNeeded spaceSignIfNeeded paddingNo justify zeroPad =
     (if i = - (2 ^ 63) then None
      else
        let sign = (if i < 0 then text_of ''-'' else if plusSignIfNeeded then text_of ''+''
                    else if spaceSignIfNeeded then text_of '' '' else []);
            b = sign @ int_str_digits (int_str_digit base) (if base = 17 then 16 else base) (nat \<bar>i\<bar>);
            padding = nat (paddingNo - int (length b));
            a = replicate padding (if zeroPad then of_char CHR ''0'' else of_char CHR '' '')
        in if length b + padding \<ge> BUFFER_SIZE then None
           else Some (if justify then b @ a else a @ b))"

section \<open>The parts of a conversion\<close>

datatype va_arg = Va_Int u64 | Va_Str "u8 list"

fun va_int :: "va_arg list \<Rightarrow> (u64 \<times> va_arg list) option" where
  "va_int (Va_Int w # args) = Some (w, args)"
| "va_int args = None"

fun va_str :: "va_arg list \<Rightarrow> (u8 list \<times> va_arg list) option" where
  "va_str (Va_Str t # args) = Some (t, args)"
| "va_str args = None"

record printf_spec =
  leftJustify :: bool
  zeroPad :: bool
  spaceNoSign :: bool
  altForm :: bool
  plusSign :: bool
  lengthSpec :: int
  len_mod :: u8

definition no_spec :: printf_spec where
  "no_spec = \<lparr>leftJustify = False, zeroPad = False, spaceNoSign = False, altForm = False,
     plusSign = False, lengthSpec = 0, len_mod = 0\<rparr>"

fun printf_flags :: "printf_spec \<Rightarrow> u8 list \<Rightarrow> printf_spec \<times> u8 list" where
  "printf_flags sp [] = (sp, [])"
| "printf_flags sp (c # cs) =
     (if c = of_char CHR ''-'' then printf_flags (sp\<lparr>leftJustify := True\<rparr>) cs
      else if c = of_char CHR ''+'' then printf_flags (sp\<lparr>plusSign := True\<rparr>) cs
      else if c = of_char CHR ''#'' then printf_flags (sp\<lparr>altForm := True\<rparr>) cs
      else if c = of_char CHR '' '' then printf_flags (sp\<lparr>spaceNoSign := True\<rparr>) cs
      else if c = of_char CHR ''0'' then printf_flags (sp\<lparr>zeroPad := True\<rparr>) cs
      else (sp, c # cs))"

definition isdigit :: "u8 \<Rightarrow> bool" where
  "isdigit c \<longleftrightarrow> of_char CHR ''0'' \<le> c \<and> c \<le> of_char CHR ''9''"

fun printf_number :: "int \<Rightarrow> u8 list \<Rightarrow> (int \<times> u8 list) option" where
  "printf_number n [] = Some (n, [])"
| "printf_number n (c # cs) =
     (if isdigit c
      then let n = n * 10 + (uint c - 48) in if n \<ge> 2 ^ 31 then None else printf_number n cs
      else Some (n, c # cs))"

text \<open>A number, then an asterisk, which replaces it by an argument.\<close>

definition printf_star ::
    "u8 list \<Rightarrow> va_arg list \<Rightarrow> (int \<times> u8 list \<times> va_arg list) option" where
  "printf_star cs args =
     (case printf_number 0 cs of
        None \<Rightarrow> None
      | Some (n, cs) \<Rightarrow>
          (if cs \<noteq> [] \<and> hd cs = of_char CHR ''*''
           then map_option (\<lambda>(w, args). (sint (ucast w :: u32), tl cs, args)) (va_int args)
           else Some (n, cs, args)))"

text \<open>The precision is read, but only the conversions of floating point numbers use it.\<close>

definition printf_precision :: "u8 list \<Rightarrow> va_arg list \<Rightarrow> (u8 list \<times> va_arg list) option" where
  "printf_precision cs args =
     (if cs \<noteq> [] \<and> hd cs = of_char CHR ''.''
      then map_option (\<lambda>(n, cs, args). (cs, args)) (printf_star (tl cs) args)
      else Some (cs, args))"

text \<open>
  \<open>hh\<close> becomes \<open>H\<close>, \<open>ll\<close> becomes \<open>q\<close>; after \<open>hh\<close> the second letter is not skipped.
\<close>

definition printf_length :: "u8 list \<Rightarrow> u8 \<times> u8 list" where
  "printf_length cs =
     (if cs \<noteq> [] \<and> hd cs \<in> set (text_of ''hljztL'')
      then let l = hd cs; cs = tl cs
           in if cs \<noteq> [] \<and> hd cs = of_char CHR ''h'' then (of_char CHR ''H'', cs)
              else if cs \<noteq> [] \<and> hd cs = of_char CHR ''l'' then (of_char CHR ''q'', tl cs)
              else (l, cs)
      else (0, cs))"

definition printf_parse ::
    "u8 list \<Rightarrow> va_arg list \<Rightarrow> (printf_spec \<times> u8 list \<times> va_arg list) option" where
  "printf_parse cs args =
     (let (sp, cs) = printf_flags no_spec cs
      in case printf_star cs args of
           None \<Rightarrow> None
         | Some (n, cs, args) \<Rightarrow>
             (case printf_precision cs args of
                None \<Rightarrow> None
              | Some (cs, args) \<Rightarrow>
                  let (l, cs) = printf_length cs
                  in Some (sp\<lparr>lengthSpec := n, len_mod := l\<rparr>, cs, args)))"

section \<open>The conversions\<close>

text \<open>The value of an unsigned argument, as it is passed on in an \<open>intmax_t\<close>.\<close>

definition va_unsigned :: "u8 \<Rightarrow> u64 \<Rightarrow> int option" where
  "va_unsigned l w =
     (if l = 0 then Some (uint (ucast w :: u32))
      else if l = of_char CHR ''H'' then Some (uint (ucast w :: u8))
      else if l = of_char CHR ''h'' then Some (uint (ucast w :: u16))
      else if l \<in> set (text_of ''lqjzt'') then Some (sint w)
      else None)"

definition va_signed :: "u8 \<Rightarrow> u64 \<Rightarrow> int option" where
  "va_signed l w =
     (if l = 0 then Some (sint (ucast w :: u32))
      else if l = of_char CHR ''H'' then Some (sint (ucast w :: u8))
      else if l = of_char CHR ''h'' then Some (sint (ucast w :: u16))
      else if l \<in> set (text_of ''lqjzt'') then Some (sint w)
      else None)"

text \<open>An unknown length prints nothing and leaves the argument where it is.\<close>

definition printf_integer ::
    "(u8 \<Rightarrow> u64 \<Rightarrow> int option) \<Rightarrow> nat \<Rightarrow> printf_spec \<Rightarrow> va_arg list \<Rightarrow>
      (u8 list \<times> va_arg list) option" where
  "printf_integer val base sp args =
     (if val (len_mod sp) 0 = None then Some ([], args)
      else case va_int args of
             None \<Rightarrow> None
           | Some (w, args) \<Rightarrow>
               map_option (\<lambda>t. (t, args))
                 (int_str (the (val (len_mod sp) w)) base (plusSign sp) (spaceNoSign sp) (lengthSpec sp)
                    (leftJustify sp) (zeroPad sp)))"

definition with_prefix ::
    "u8 list \<Rightarrow> (u8 list \<times> va_arg list) option \<Rightarrow> (u8 list \<times> va_arg list) option" where
  "with_prefix p r = map_option (\<lambda>(t, args). (p @ t, args)) r"

definition printf_convert ::
    "printf_spec \<Rightarrow> u8 \<Rightarrow> va_arg list \<Rightarrow> (u8 list \<times> va_arg list) option" where
  "printf_convert sp c args =
     (if c = of_char CHR ''o''
      then with_prefix (if altForm sp then text_of ''0'' else []) (printf_integer va_unsigned 8 sp args)
      else if c = of_char CHR ''p''
      then printf_integer va_unsigned 16 (sp\<lparr>len_mod := of_char CHR ''z''\<rparr>) args
      else if c = of_char CHR ''X''
      then with_prefix (if altForm sp then text_of ''0x'' else []) (printf_integer va_unsigned 16 sp args)
      else if c = of_char CHR ''x''
      then with_prefix (if altForm sp then text_of ''0x'' else []) (printf_integer va_unsigned 17 sp args)
      else if c = of_char CHR ''u'' then printf_integer va_unsigned 10 sp args
      else if c = of_char CHR ''d'' \<or> c = of_char CHR ''i'' then printf_integer va_signed 10 sp args
      else if c = of_char CHR ''c''
      then map_option (\<lambda>(w, args). ([ucast w], args)) (va_int args)
      else if c = of_char CHR ''s'' then va_str args
      else if c \<in> set (text_of ''neEfFgG'') then None
      else Some ([], args))"

section \<open>The format\<close>

text \<open>A character that is 0 counts as displayed, but nothing is sent.\<close>

definition display :: "u8 list \<Rightarrow> u8 list \<times> nat \<Rightarrow> u8 list \<times> nat" where
  "display cs = (\<lambda>(out, chars). (out @ filter (\<lambda>c. c \<noteq> 0) cs, chars + length cs))"

lemma printf_flags_length: "length (snd (printf_flags sp cs)) \<le> length cs"
  by (induction sp cs rule: printf_flags.induct) auto

lemma printf_number_length: "printf_number n cs = Some (m, ds) \<Longrightarrow> length ds \<le> length cs"
  by (induction n cs rule: printf_number.induct) (auto simp: Let_def split: if_splits)

lemma printf_star_length: "printf_star cs args = Some (n, ds, args') \<Longrightarrow> length ds \<le> length cs"
  by (auto simp: printf_star_def split: option.splits if_splits dest!: printf_number_length)

lemma printf_parse_length:
  assumes "printf_parse cs args = Some (sp, ds, args')"
  shows "length ds \<le> length cs"
proof -
  obtain sp1 cs1 where f: "printf_flags no_spec cs = (sp1, cs1)" by (cases "printf_flags no_spec cs")
  then have "length cs1 \<le> length cs" using printf_flags_length [of no_spec cs] by simp
  then show ?thesis
    using assms f
    by (auto simp: printf_parse_def printf_precision_def printf_length_def Let_def
        split: option.splits if_splits prod.splits dest!: printf_star_length)
qed

function vprintf ::
    "u8 list \<Rightarrow> va_arg list \<Rightarrow> u8 list \<times> nat \<Rightarrow> (u8 list \<times> nat) option" where
  "vprintf [] args r = Some r"
| "vprintf (c # cs) args r =
     (if c \<noteq> of_char CHR ''%'' then vprintf cs args (display [c] r)
      else case printf_parse cs args of
             None \<Rightarrow> None
           | Some (sp, [], args) \<Rightarrow> None
           | Some (sp, d # ds, args) \<Rightarrow>
               (case printf_convert sp d args of
                  None \<Rightarrow> None
                | Some (t, args) \<Rightarrow> vprintf ds args (display t r)))"
  by pat_completeness auto
termination
  by (relation "measure (\<lambda>(cs, args, r). length cs)") (auto dest!: printf_parse_length)

declare vprintf.simps(2) [simp del]

definition printf_text :: "u8 list \<Rightarrow> va_arg list \<Rightarrow> (u8 list \<times> nat) option" where
  "printf_text format args = vprintf format args ([], 0)"

end
