(* ===== verification/Serial.thy ===== *)
theory Serial
  imports Ps2 Printf
begin

text \<open>
  The serial ports: set-up and line output of \<open>kernel/src/iodev/uart/uartsh.c\<close> and the writing side of
  the debug shell, \<open>kernel/src/iodev/uart/shell.c\<close>. Both files have an \<open>output_port\<close> of their own. A
  string that is printed is the list of its bytes; port numbers above 8 would read behind the table
  of port addresses: \<open>None\<close>.
\<close>

abbreviation COM_REGISTER_DATA :: u16 where "COM_REGISTER_DATA \<equiv> 0x00"
abbreviation COM_REGISTER_INTERRUPT :: u16 where "COM_REGISTER_INTERRUPT \<equiv> 0x01"
abbreviation COM_REGISTER_BAUD_LOW :: u16 where "COM_REGISTER_BAUD_LOW \<equiv> 0x00"
abbreviation COM_REGISTER_BAUD_HIGH :: u16 where "COM_REGISTER_BAUD_HIGH \<equiv> 0x01"
abbreviation COM_REGISTER_LINE_CTRL :: u16 where "COM_REGISTER_LINE_CTRL \<equiv> 0x03"
abbreviation COM_REGISTER_LINE_STAT :: u16 where "COM_REGISTER_LINE_STAT \<equiv> 0x05"
abbreviation COM_REGISTER_SCRATCH :: u16 where "COM_REGISTER_SCRATCH \<equiv> 0x07"
abbreviation SERIAL_COM1_IRQ :: u8 where "SERIAL_COM1_IRQ \<equiv> 4"
abbreviation SERIAL_COM2_IRQ :: u8 where "SERIAL_COM2_IRQ \<equiv> 3"

record uart_state = ps2_state +
  available_com_ports :: "nat \<Rightarrow> bool"
  input_masked :: bool
  input_com_gsi :: u8
  input_idt_vector :: u8
  input_port :: u16
  uart_output_port :: u16
  prompt_placed :: bool
  shell_output_port :: u16
  command_buffer :: u64
  command_buffer_index :: u64

definition com_port_addrs :: "u16 list" where
  "com_port_addrs = [0, 0x3F8, 0x2F8, 0x3E8, 0x2E8, 0x5F8, 0x4F8, 0x5E8, 0x4E8]"

definition com_port_addr :: "u16 \<Rightarrow> u16 option" where
  "com_port_addr port = (if unat port < 9 then Some (com_port_addrs ! unat port) else None)"

section \<open>Writing\<close>

definition uart_internal_write :: "u8 list \<Rightarrow> u16 \<Rightarrow> 'z machine_state_scheme \<Rightarrow> 'z machine_state_scheme option" where
  "uart_internal_write str port s =
     (if port = 0 \<or> str = [] then Some s
      else do {
        addr \<leftarrow> com_port_addr port;
        Some (fold (\<lambda>c s. outb (addr + COM_REGISTER_DATA) c s) str s) })"

definition SHELL_PROMPT :: "u8 list" where
  "SHELL_PROMPT = text_of ''glass #> ''"

abbreviation PROMPT_LENGTH :: nat where "PROMPT_LENGTH \<equiv> 9"

definition uart_shell_cancel_prompt :: "'z uart_state_scheme \<Rightarrow> 'z uart_state_scheme option" where
  "uart_shell_cancel_prompt s =
     (if \<not> prompt_placed s then Some s
      else do {
        s \<leftarrow> uart_internal_write (replicate PROMPT_LENGTH 0x08) (shell_output_port s) s;
        Some (s\<lparr>prompt_placed := False\<rparr>) })"

definition uart_shell_replace_prompt :: "'z uart_state_scheme \<Rightarrow> 'z uart_state_scheme option" where
  "uart_shell_replace_prompt s = do {
     s \<leftarrow> (if prompt_placed s then uart_shell_cancel_prompt s else Some s);
     s \<leftarrow> uart_internal_write SHELL_PROMPT (shell_output_port s) s;
     Some (s\<lparr>prompt_placed := True\<rparr>) }"

definition uart_shell_write :: "u8 list \<Rightarrow> 'z uart_state_scheme \<Rightarrow> 'z uart_state_scheme option" where
  "uart_shell_write str s = do {
     s \<leftarrow> uart_shell_cancel_prompt s;
     if shell_output_port s = 0 then Some s
     else do {
       s \<leftarrow> uart_internal_write str (shell_output_port s) s;
       uart_shell_replace_prompt s } }"

definition serial_print_quiet :: "u8 list \<Rightarrow> 'z uart_state_scheme \<Rightarrow> 'z uart_state_scheme option" where
  "serial_print_quiet str s = uart_internal_write str (shell_output_port s) s"

definition serial_write :: "u8 list \<Rightarrow> 'z uart_state_scheme \<Rightarrow> 'z uart_state_scheme option" where
  "serial_write str s = do {
     s \<leftarrow> uart_shell_cancel_prompt s;
     if uart_output_port s = 0 then Some s
     else do {
       s \<leftarrow> uart_internal_write str (uart_output_port s) s;
       uart_shell_replace_prompt s } }"

definition serial_print_error :: "u8 list \<Rightarrow> 'z uart_state_scheme \<Rightarrow> 'z uart_state_scheme option" where
  "serial_print_error error s = do {
     s \<leftarrow> uart_shell_cancel_prompt s;
     s \<leftarrow> serial_write (text_of ''[ERROR] '') s;
     s \<leftarrow> serial_write error s;
     uart_shell_replace_prompt s }"

text \<open>\<open>printf\<close>: the displayed characters go out one by one through \<open>serial_print_quiet\<close>.\<close>

definition kprintf :: "u8 list \<Rightarrow> va_arg list \<Rightarrow> 'z uart_state_scheme \<Rightarrow> 'z uart_state_scheme option" where
  "kprintf format args s = do {
     (out, chars) \<leftarrow> printf_text format args;
     serial_print_quiet out s }"

text \<open>A loop over a list of values.\<close>

fun for_each :: "('x \<Rightarrow> 's \<Rightarrow> 's option) \<Rightarrow> 'x list \<Rightarrow> 's \<Rightarrow> 's option" where
  "for_each f [] s = Some s"
| "for_each f (x # xs) s = Option.bind (f x s) (for_each f xs)"

definition crlf :: "u8 list" where
  "crlf = [0x0D, 0x0A]"

section \<open>The ports\<close>

definition serial_check_port :: "u16 \<Rightarrow> 'z machine_state_scheme \<Rightarrow> (bool \<times> 'z machine_state_scheme) option" where
  "serial_check_port port s =
     (if port = 0 \<or> port > 8 then Some (False, s)
      else do {
        addr \<leftarrow> com_port_addr port;
        let (test, s) = inb (addr + 0x07) (outb (addr + COM_REGISTER_SCRATCH) 0xAF s);
        Some (test = 0xAF, s) })"

definition serial_configure_port :: "u16 \<Rightarrow> 'z machine_state_scheme \<Rightarrow> 'z machine_state_scheme option" where
  "serial_configure_port port s = do {
     (present, s) \<leftarrow> serial_check_port port s;
     if \<not> present then Some s
     else do {
       addr \<leftarrow> com_port_addr port;
       let (line_control, s) = inb (addr + COM_REGISTER_LINE_CTRL) s;
       let s = outb (addr + COM_REGISTER_LINE_CTRL) (line_control OR 0x80) s;
       let s = outb (addr + COM_REGISTER_BAUD_LOW) 0x01 s;
       let s = outb (addr + COM_REGISTER_BAUD_HIGH) 0x00 s;
       let (line_control, s) = inb (addr + COM_REGISTER_LINE_CTRL) s;
       let line_control = (line_control AND NOT 0x80) AND NOT 0x4;
       let line_control = (line_control AND 0x38) OR 0x3;
       Some (outb (addr + COM_REGISTER_LINE_CTRL) line_control s) } }"

text \<open>\<open>handler\<close> is the address of the input handler, \<open>stubs\<close> are the entry points in assembly.\<close>

definition serial_select_input_port ::
    "(u8 \<Rightarrow> u64) \<Rightarrow> u64 \<Rightarrow> u16 \<Rightarrow> 'z uart_state_scheme \<Rightarrow> 'z uart_state_scheme option" where
  "serial_select_input_port stubs handler port s =
     (if port < 1 \<or> port > 2 then Some s
      else do {
        let s = s\<lparr>input_port := port,
                  input_com_gsi := apic_io_get_gsi (if port = 1 then SERIAL_COM1_IRQ else SERIAL_COM2_IRQ) s\<rparr>;
        let s = (if input_idt_vector s = 0
                 then let (v, s) = idt_new_vector s in s\<lparr>input_idt_vector := v\<rparr> else s);
        let s = on_idt (idt_install_irq_handler stubs (input_idt_vector s) handler) s;
        s \<leftarrow> apic_io_redirect_irq (input_com_gsi s) (input_idt_vector s) False False s;
        addr \<leftarrow> com_port_addr port;
        let s = outb (addr + COM_REGISTER_INTERRUPT) 0x1 s;
        if \<not> input_masked s then apic_io_unmask_irq (input_com_gsi s) s else Some s })"

definition serial_select_output_port :: "u16 \<Rightarrow> 'z uart_state_scheme \<Rightarrow> 'z uart_state_scheme" where
  "serial_select_output_port port s =
     (if port < 1 \<or> port > 8 then s else s\<lparr>uart_output_port := port\<rparr>)"

definition serial_set_input_masked :: "bool \<Rightarrow> 'z uart_state_scheme \<Rightarrow> 'z uart_state_scheme option" where
  "serial_set_input_masked masked s =
     (let s = s\<lparr>input_masked := masked\<rparr>
      in if input_com_gsi s \<noteq> 0
         then if input_masked s then apic_io_mask_irq (input_com_gsi s) s
              else apic_io_unmask_irq (input_com_gsi s) s
         else Some s)"

text \<open>\<open>available_com_ports\<close> has 8 entries, but the loops use the indices from 1 to 8.\<close>

definition com_port_available :: "nat \<Rightarrow> 'z uart_state_scheme \<Rightarrow> bool option" where
  "com_port_available i s = (if i < 8 then Some (available_com_ports s i) else None)"

definition serial_probe_port :: "nat \<Rightarrow> 'z uart_state_scheme \<Rightarrow> 'z uart_state_scheme option" where
  "serial_probe_port i s = do {
     (present, s) \<leftarrow> serial_check_port (of_nat i) s;
     if \<not> present then Some s
     else if i < 8
     then serial_configure_port (of_nat i) (s\<lparr>available_com_ports := (available_com_ports s)(i := True)\<rparr>)
     else None }"

text \<open>The first of the ports that is available; the search stops there.\<close>

fun first_available :: "nat list \<Rightarrow> 'z uart_state_scheme \<Rightarrow> nat option option" where
  "first_available [] s = Some None"
| "first_available (i # is) s = do {
     yes \<leftarrow> com_port_available i s;
     if yes then Some (Some i) else first_available is s }"

definition uart_shell_start :: "u16 \<Rightarrow> 'z uart_state_scheme \<Rightarrow> 'z uart_state_scheme option" where
  "uart_shell_start out_port s = do {
     (page, s) \<leftarrow> pmm_alloc_page (s\<lparr>shell_output_port := out_port\<rparr>);
     let s = s\<lparr>command_buffer := page, command_buffer_index := 0\<rparr>;
     s \<leftarrow> (if page = 0 then None
           else Some (s\<lparr>heap_bytes := memset (heap_bytes s) page 0 PAGING_PAGE_SIZE\<rparr>));
     uart_shell_replace_prompt (s\<lparr>prompt_placed := False\<rparr>) }"

definition serial_console_enable ::
    "(u8 \<Rightarrow> u64) \<Rightarrow> u64 \<Rightarrow> 'z uart_state_scheme \<Rightarrow> 'z uart_state_scheme option" where
  "serial_console_enable stubs handler s = do {
     let s = s\<lparr>input_masked := True, input_idt_vector := 0, input_com_gsi := 0, input_port := 0,
               uart_output_port := 0\<rparr>;
     s \<leftarrow> for_each serial_probe_port [1..<9] s;
     input \<leftarrow> first_available [1..<3] s;
     s \<leftarrow> (case input of None \<Rightarrow> Some s
           | Some i \<Rightarrow> serial_select_input_port stubs handler (of_nat i) s);
     output \<leftarrow> first_available [1..<9] s;
     let s = (case output of None \<Rightarrow> s | Some i \<Rightarrow> serial_select_output_port (of_nat i) s);
     s \<leftarrow> serial_set_input_masked False s;
     s \<leftarrow> serial_write (text_of ''[debug] serial console enabled!'' @ crlf) s;
     s \<leftarrow> uart_shell_start (uart_output_port s) s;
     serial_write (text_of ''[info] no backspace support, re-enter command to resolve typos...'' @ crlf) s }"

definition uart_dump :: "'z uart_state_scheme \<Rightarrow> 'z uart_state_scheme option" where
  "uart_dump s = do {
     s \<leftarrow> kprintf (crlf @ text_of ''UART info:'' @ crlf @ crlf @ text_of ''COM port statuses:'') [] s;
     s \<leftarrow> for_each (\<lambda>i s. kprintf (if available_com_ports s i then text_of '' y'' else text_of '' n'') [] s)
            [0..<8] s;
     s \<leftarrow> kprintf (crlf @ text_of ''Input port: %d'' @ crlf) [Va_Int (ucast (input_port s))] s;
     s \<leftarrow> kprintf (text_of ''Output port: %d'' @ crlf) [Va_Int (ucast (uart_output_port s))] s;
     kprintf (text_of ''Input GSI/vector: %d/%d %s'' @ crlf @ crlf)
       [Va_Int (ucast (input_com_gsi s)), Va_Int (ucast (input_idt_vector s)),
        Va_Str (if input_masked s then text_of '' (masked)'' else text_of '' (unmasked)'')] s }"

end
