(* ===== verification/Dumps.thy ===== *)
theory Dumps
  imports Serial Pmm_Start
begin

text \<open>
  What the commands of the debug shell print about the descriptor tables, the task state segment, the
  memory and the processes. Each function is at the end of the file of its subject:
  \<open>__uartsh_idt_dump\<close> (\<open>idt.c\<close>), \<open>__uartsh_gdt_dump\<close> (\<open>gdt.c\<close>), \<open>__uartsh_tss_dump\<close> (\<open>tss.c\<close>),
  \<open>__uartsh_pmm_dump\<close> (\<open>pmm.c\<close>) and \<open>__uartsh_proc_dump\<close> (\<open>task.c\<close>). \<open>None\<close> is a loop over a list
  that does not end, or a task or a context that is NULL.
\<close>

abbreviation tab :: "u8 list" where "tab \<equiv> [0x09]"

section \<open>Descriptor tables\<close>

definition idt_dump_vector :: "u8 \<Rightarrow> 'z uart_state_scheme \<Rightarrow> 'z uart_state_scheme option" where
  "idt_dump_vector vector s =
     (if \<not> vectors (idt_tab s) vector then Some s
      else let descriptor = idt (idt_tab s) vector
           in kprintf (tab @ text_of '' (%d) isr: %x, flags: %x, ist: %d, cs: %x'' @ crlf)
                [Va_Int (ucast vector),
                 Va_Int (if vector < 32 then idt_dump_isr descriptor else routine_handlers (idt_tab s) vector),
                 Va_Int (ucast (id_attributes descriptor)), Va_Int (ucast (id_ist descriptor)),
                 Va_Int (ucast (id_cs descriptor))] s)"

definition idt_dump :: "'z uart_state_scheme \<Rightarrow> 'z uart_state_scheme option" where
  "idt_dump s = do {
     s \<leftarrow> kprintf (crlf @ text_of ''IDT dump:'' @ crlf) [] s;
     for_each (\<lambda>i. idt_dump_vector (of_nat i)) [0..<256] s }"

text \<open>The upper half of a task state descriptor, read as a plain descriptor.\<close>

fun gdt_plain :: "gdt_entry \<Rightarrow> gdt_desc" where
  "gdt_plain (Seg d) = d"
| "gdt_plain (Tss_High a r) =
     \<lparr>gd_limit = ucast a, gd_base_low = ucast (drop_bit 16 a), gd_base_mid = ucast r,
      gd_flags = ucast (drop_bit 8 r), gd_granularity = ucast (drop_bit 16 r),
      gd_base_high = ucast (drop_bit 24 r)\<rparr>"

text \<open>There is one argument more than there are conversions: every label shows the next value.\<close>

definition gdt_dump_entry :: "nat \<Rightarrow> 'z uart_state_scheme \<Rightarrow> 'z uart_state_scheme option" where
  "gdt_dump_entry i s =
     (let descriptor = gdt_plain (gdt (gdt_tab s) i)
      in kprintf (tab @ text_of ''%s => lo: %x, hi: %x, access: %x, gran: %x'' @ crlf)
           [Va_Str (if i < 2 then text_of ''0'' else []), Va_Int (of_nat i * 8),
            Va_Int (gdt_dump_base descriptor), Va_Int (ucast (gd_limit descriptor)),
            Va_Int (ucast (gd_flags descriptor)), Va_Int (ucast (gd_granularity descriptor))] s)"

definition gdt_dump :: "'z uart_state_scheme \<Rightarrow> 'z uart_state_scheme option" where
  "gdt_dump s = do {
     s \<leftarrow> serial_print_quiet (crlf @ text_of ''GDT dump:'' @ crlf) s;
     for_each gdt_dump_entry [0..<unat (gindex (gdt_tab s))] s }"

text \<open>The body of the loop over the processors, of which there is one.\<close>

definition tss_dump_cpu :: "tss \<Rightarrow> 'z uart_state_scheme \<Rightarrow> 'z uart_state_scheme option" where
  "tss_dump_cpu t s = do {
     s \<leftarrow> kprintf (tab @ text_of ''TSS for CPU %d'' @ crlf) [Va_Int 0] s;
     s \<leftarrow> for_each (\<lambda>(name, v). kprintf (tab @ tab @ text_of name @ text_of '': %x'' @ crlf) [Va_Int v])
            [(''RSP0'', tss_rsp t 0), (''RSP1'', tss_rsp t 1), (''RSP2'', tss_rsp t 2),
             (''IST1'', tss_ist t 0), (''IST2'', tss_ist t 1), (''IST3'', tss_ist t 2),
             (''IST4'', tss_ist t 3), (''IST5'', tss_ist t 4), (''IST6'', tss_ist t 5),
             (''IST7'', tss_ist t 6), (''IO Map'', ucast (tss_io_map t))] s;
     kprintf crlf [] s }"

definition tss_dump :: "'z uart_state_scheme \<Rightarrow> 'z uart_state_scheme option" where
  "tss_dump s = do {
     s \<leftarrow> kprintf (crlf @ text_of ''TSS dump:'' @ crlf) [] s;
     tss_dump_cpu (tss_descriptor s) s }"

section \<open>Memory and processes\<close>

partial_function (option) pmm_dump_sections ::
    "nat option \<Rightarrow> 'z uart_state_scheme \<Rightarrow> 'z uart_state_scheme option" where
  "pmm_dump_sections current s =
     (if current = None then Some s
      else do {
        start \<leftarrow> ld sec_start current s;
        pages \<leftarrow> ld sec_pages current s;
        free \<leftarrow> ld sec_free current s;
        s \<leftarrow> kprintf (tab @ text_of ''%xh => %dkB/%dmB %s'' @ crlf)
               [Va_Int start, Va_Int (pages * PAGING_PAGE_SIZE div 1024),
                Va_Int (pages * PAGING_PAGE_SIZE div MEGABYTE), Va_Str (text_of (memstate_string free))] s;
        nx \<leftarrow> ld sec_next current s;
        pmm_dump_sections nx s })"

definition pmm_dump_totals :: "'z uart_state_scheme \<Rightarrow> 'z uart_state_scheme option" where
  "pmm_dump_totals s = do {
     s \<leftarrow> kprintf (crlf @ text_of ''memory state:'' @ crlf @ crlf) [] s;
     s \<leftarrow> kprintf (text_of ''free memory: %d megabytes'' @ crlf) [Va_Int (free_memory s div MEGABYTE)] s;
     s \<leftarrow> kprintf (text_of ''total memory: %d megabytes'' @ crlf)
            [Va_Int (estimated_total_memory s div MEGABYTE)] s;
     kprintf (text_of ''regions:'' @ crlf) [] s }"

definition pmm_dump :: "'z uart_state_scheme \<Rightarrow> 'z uart_state_scheme option" where
  "pmm_dump s = do {
     s \<leftarrow> pmm_recalculate_free_memory s;
     s \<leftarrow> pmm_dump_totals s;
     pmm_dump_sections (pmm_sections s) s }"

partial_function (option) proc_dump_tasks ::
    "u64 \<Rightarrow> 'z uart_state_scheme \<Rightarrow> 'z uart_state_scheme option" where
  "proc_dump_tasks p s =
     (if p = 0 then Some s
      else do {
        let t = task_mem s (lt_task (task_links s p));
        ctx \<leftarrow> (if lt_task (task_links s p) = 0 \<or> task_ctx t = 0 then None else Some (ctx_mem s (task_ctx t)));
        s \<leftarrow> kprintf (tab @ text_of ''pid %d, cr3=%x, rip=%x, ctx@%x ... %s'' @ crlf)
               [Va_Int (task_id t), Va_Int (ctx_cr3 ctx), Va_Int (ctx_rip ctx), Va_Int (task_ctx t),
                Va_Str (text_of (task_state_string (task_state t)))] s;
        proc_dump_tasks (lt_next (task_links s p)) s })"

definition proc_dump :: "'z uart_state_scheme \<Rightarrow> 'z uart_state_scheme option" where
  "proc_dump s = do {
     s \<leftarrow> kprintf (crlf @ text_of ''Process dump:'' @ crlf) [] s;
     s \<leftarrow> proc_dump_tasks (tasks s) s;
     kprintf crlf [] s }"

end
