(* ===== verification/Pci.thy ===== *)
theory Pci
  imports Serial
begin

text \<open>
  The PCI functions of the machine: \<open>kernel/src/iodev/pci/confrw.c\<close> and \<open>find.c\<close>. The configuration
  space is memory; the cache of functions is an array of 16-byte entries on the kernel heap. The
  firmware's root pointer and the address of the string \<open>MCFG\<close> are parameters.
\<close>

abbreviation sizeof_mcfg_header :: u64 where "sizeof_mcfg_header \<equiv> 44"
abbreviation sizeof_mcfg_entry :: u64 where "sizeof_mcfg_entry \<equiv> 16"
abbreviation sizeof_pci_function_data :: u64 where "sizeof_pci_function_data \<equiv> 16"

record pci_state = uart_state +
  pci_function_cache :: u64
  pci_function_cache_entries :: u64
  pci_cached :: bool

section \<open>Fields in memory\<close>

record pci_dev_header =
  vendor_id :: u16
  device_id :: u16
  program_interface :: u8
  device_subclass :: u8
  device_class :: u8

definition read_pci_header :: "mem \<Rightarrow> u64 \<Rightarrow> pci_dev_header" where
  "read_pci_header m p =
     \<lparr>vendor_id = read_u16 m p, device_id = read_u16 m (p + 2), program_interface = m (p + 9),
      device_subclass = m (p + 10), device_class = m (p + 11)\<rparr>"

definition pci_present :: "pci_dev_header \<Rightarrow> bool" where
  "pci_present h \<longleftrightarrow> \<not> (device_id h = 0x0000 \<or> device_id h = 0xFFFF)"

record pci_function_data =
  pf_base :: u64
  pf_segment :: u16
  pf_bus :: u8
  pf_device :: u8
  pf_function :: u8

definition read_function :: "u64 \<Rightarrow> 'z pci_state_scheme \<Rightarrow> pci_function_data" where
  "read_function i s =
     (let p = pci_function_cache s + sizeof_pci_function_data * i; m = heap_bytes s
      in \<lparr>pf_base = read_u64 m p, pf_segment = read_u16 m (p + 8), pf_bus = m (p + 10),
          pf_device = m (p + 11), pf_function = m (p + 12)\<rparr>)"

definition write_bytes :: "mem \<Rightarrow> u64 \<Rightarrow> u64 \<Rightarrow> nat \<Rightarrow> mem" where
  "write_bytes m p v n =
     (\<lambda>a. if unat (a - p) < n then ucast (drop_bit (8 * unat (a - p)) v) else m a)"

definition write_function :: "u64 \<Rightarrow> pci_function_data \<Rightarrow> 'z pci_state_scheme \<Rightarrow> 'z pci_state_scheme" where
  "write_function i f s =
     (let p = pci_function_cache s + sizeof_pci_function_data * i;
          m = write_bytes (heap_bytes s) p (pf_base f) 8;
          m = m(p + 12 := pf_function f);
          m = m(p + 11 := pf_device f);
          m = m(p + 10 := pf_bus f);
          m = write_u16 m (p + 8) (pf_segment f)
      in s\<lparr>heap_bytes := m\<rparr>)"

section \<open>Enumeration\<close>

text \<open>\<open>paging_map_page(address + PAGING_VIRTUAL_OFFSET, address, \<dots>)\<close> and the header behind it.\<close>

definition pci_map_header ::
    "u64 \<Rightarrow> 'z pci_state_scheme \<Rightarrow> (u64 \<times> pci_dev_header \<times> 'z pci_state_scheme) option" where
  "pci_map_header address s = do {
     let virt = address + PAGING_VIRTUAL_OFFSET;
     s \<leftarrow> paging_map_page virt address PAGING_FLAGS_KERNEL_PAGE s;
     Some (virt, read_pci_header (heap_bytes s) virt, s) }"

definition pci_scan_function ::
    "u16 \<Rightarrow> nat \<Rightarrow> nat \<Rightarrow> u64 \<Rightarrow> nat \<Rightarrow> 'z pci_state_scheme \<Rightarrow> 'z pci_state_scheme option" where
  "pci_scan_function seg bus device device_address function s = do {
     (virt, header, s) \<leftarrow> pci_map_header (device_address + push_bit 12 (of_nat function)) s;
     if \<not> pci_present header then Some s
     else do {
       let s = s\<lparr>pci_function_cache_entries := pci_function_cache_entries s + 1\<rparr>;
       let len = sizeof_pci_function_data * pci_function_cache_entries s;
       (cache, s) \<leftarrow> (if pci_function_cache s = 0 then heap_malloc len s
                      else heap_realloc (pci_function_cache s) len s);
       Some (write_function (pci_function_cache_entries s - 1)
               \<lparr>pf_base = virt, pf_segment = seg, pf_bus = of_nat bus, pf_device = of_nat device,
                pf_function = of_nat function\<rparr> (s\<lparr>pci_function_cache := cache\<rparr>)) } }"

definition pci_scan_device ::
    "u16 \<Rightarrow> nat \<Rightarrow> u64 \<Rightarrow> nat \<Rightarrow> 'z pci_state_scheme \<Rightarrow> 'z pci_state_scheme option" where
  "pci_scan_device seg bus bus_address device s = do {
     let device_address = bus_address + push_bit 15 (of_nat device);
     (virt, header, s) \<leftarrow> pci_map_header device_address s;
     if \<not> pci_present header then Some s
     else for_each (pci_scan_function seg bus device device_address) [0..<8] s }"

definition pci_scan_bus :: "u16 \<Rightarrow> u64 \<Rightarrow> nat \<Rightarrow> 'z pci_state_scheme \<Rightarrow> 'z pci_state_scheme option" where
  "pci_scan_bus seg base bus s = do {
     let bus_address = base + push_bit 20 (of_nat bus);
     (virt, header, s) \<leftarrow> pci_map_header bus_address s;
     if \<not> pci_present header then Some s
     else for_each (pci_scan_device seg bus bus_address) [0..<32] s }"

text \<open>The last bus of a segment, \<open>end_bus\<close>, is left out. The counter \<open>seg\<close> has 16 bits.\<close>

partial_function (option) pci_scan_segments ::
    "u64 \<Rightarrow> u64 \<Rightarrow> u16 \<Rightarrow> 'z pci_state_scheme \<Rightarrow> 'z pci_state_scheme option" where
  "pci_scan_segments mcfg table_entries seg s =
     (if ucast seg < table_entries
      then do {
        let p = mcfg + sizeof_mcfg_header + sizeof_mcfg_entry * ucast seg;
        let m = heap_bytes s;
        s \<leftarrow> for_each (pci_scan_bus seg (read_u64 m p)) [unat (m (p + 10))..<unat (m (p + 11))] s;
        pci_scan_segments mcfg table_entries (seg + 1) s }
      else Some s)"

definition pci_conf_load_cache :: "u64 \<Rightarrow> u64 \<Rightarrow> 'z pci_state_scheme \<Rightarrow> 'z pci_state_scheme option" where
  "pci_conf_load_cache acpi_rsdp sig s = do {
     mcfg \<leftarrow> acpi_get_table (heap_bytes s) acpi_rsdp sig 0;
     if mcfg = 0 then Some s
     else do {
       let table_length = ucast (sdt_length (heap_bytes s) mcfg) - sizeof_mcfg_header;
       s \<leftarrow> pci_scan_segments mcfg (table_length div sizeof_mcfg_entry) 0 s;
       Some (s\<lparr>pci_cached := True\<rparr>) } }"

section \<open>Reading and writing configuration space\<close>

record pci_location =
  loc_segment :: u16
  loc_bus :: u8
  loc_device :: u8
  loc_function :: u8

definition pci_at :: "pci_location \<Rightarrow> 'z pci_state_scheme \<Rightarrow> nat \<Rightarrow> bool" where
  "pci_at l s i \<longleftrightarrow>
     (let f = read_function (of_nat i) s
      in pf_segment f = loc_segment l \<and> pf_bus f = loc_bus l \<and> pf_device f = loc_device l \<and>
         pf_function f = loc_function l)"

text \<open>\<open>bytes\<close> is 1, 2 or 4: \<open>pci_conf_write_byte\<close>, \<open>_word\<close> and \<open>_long\<close>. Every entry that matches is written.\<close>

definition pci_conf_write ::
    "u64 \<Rightarrow> u64 \<Rightarrow> nat \<Rightarrow> pci_location \<Rightarrow> u16 \<Rightarrow> u64 \<Rightarrow> 'z pci_state_scheme \<Rightarrow> 'z pci_state_scheme option" where
  "pci_conf_write acpi_rsdp sig bytes l offset v s = do {
     s \<leftarrow> (if \<not> pci_cached s then pci_conf_load_cache acpi_rsdp sig s else Some s);
     Some (fold (\<lambda>i s. if pci_at l s i
               then s\<lparr>heap_bytes := write_bytes (heap_bytes s)
                       (pf_base (read_function (of_nat i) s) + ucast offset) v bytes\<rparr>
               else s)
             [0..<unat (pci_function_cache_entries s)] s) }"

definition pci_conf_read ::
    "u64 \<Rightarrow> u64 \<Rightarrow> (mem \<Rightarrow> u64 \<Rightarrow> 'v::zero) \<Rightarrow> pci_location \<Rightarrow> u16 \<Rightarrow> 'z pci_state_scheme \<Rightarrow>
      ('v \<times> 'z pci_state_scheme) option" where
  "pci_conf_read acpi_rsdp sig rd l offset s = do {
     s \<leftarrow> (if \<not> pci_cached s then pci_conf_load_cache acpi_rsdp sig s else Some s);
     Some (case find (pci_at l s) [0..<unat (pci_function_cache_entries s)] of
             None \<Rightarrow> 0
           | Some i \<Rightarrow> rd (heap_bytes s) (pf_base (read_function (of_nat i) s) + ucast offset), s) }"

definition pci_conf_write_byte ::
    "u64 \<Rightarrow> u64 \<Rightarrow> pci_location \<Rightarrow> u16 \<Rightarrow> u8 \<Rightarrow> 'z pci_state_scheme \<Rightarrow> 'z pci_state_scheme option" where
  "pci_conf_write_byte acpi_rsdp sig l offset v = pci_conf_write acpi_rsdp sig 1 l offset (ucast v)"

definition pci_conf_write_word ::
    "u64 \<Rightarrow> u64 \<Rightarrow> pci_location \<Rightarrow> u16 \<Rightarrow> u16 \<Rightarrow> 'z pci_state_scheme \<Rightarrow> 'z pci_state_scheme option" where
  "pci_conf_write_word acpi_rsdp sig l offset v = pci_conf_write acpi_rsdp sig 2 l offset (ucast v)"

definition pci_conf_write_long ::
    "u64 \<Rightarrow> u64 \<Rightarrow> pci_location \<Rightarrow> u16 \<Rightarrow> u32 \<Rightarrow> 'z pci_state_scheme \<Rightarrow> 'z pci_state_scheme option" where
  "pci_conf_write_long acpi_rsdp sig l offset v = pci_conf_write acpi_rsdp sig 4 l offset (ucast v)"

definition pci_conf_read_byte ::
    "u64 \<Rightarrow> u64 \<Rightarrow> pci_location \<Rightarrow> u16 \<Rightarrow> 'z pci_state_scheme \<Rightarrow> (u8 \<times> 'z pci_state_scheme) option" where
  "pci_conf_read_byte acpi_rsdp sig = pci_conf_read acpi_rsdp sig (\<lambda>m p. m p)"

definition pci_conf_read_word ::
    "u64 \<Rightarrow> u64 \<Rightarrow> pci_location \<Rightarrow> u16 \<Rightarrow> 'z pci_state_scheme \<Rightarrow> (u16 \<times> 'z pci_state_scheme) option" where
  "pci_conf_read_word acpi_rsdp sig = pci_conf_read acpi_rsdp sig read_u16"

definition pci_conf_read_long ::
    "u64 \<Rightarrow> u64 \<Rightarrow> pci_location \<Rightarrow> u16 \<Rightarrow> 'z pci_state_scheme \<Rightarrow> (u32 \<times> 'z pci_state_scheme) option" where
  "pci_conf_read_long acpi_rsdp sig = pci_conf_read acpi_rsdp sig read_u32"

section \<open>Finding a device\<close>

text \<open>The index of the first function of a class, NULL as \<open>None\<close>.\<close>

definition find_device :: "u8 \<Rightarrow> u8 \<Rightarrow> u8 \<Rightarrow> 'z pci_state_scheme \<Rightarrow> nat option" where
  "find_device cls subclass interface s =
     find (\<lambda>i. let h = read_pci_header (heap_bytes s) (pf_base (read_function (of_nat i) s))
               in device_class h = cls \<and> device_subclass h = subclass \<and> program_interface h = interface)
       [0..<unat (pci_function_cache_entries s)]"

definition pci_dump_function :: "nat \<Rightarrow> 'z pci_state_scheme \<Rightarrow> 'z pci_state_scheme option" where
  "pci_dump_function i s =
     (let f = read_function (of_nat i) s; h = read_pci_header (heap_bytes s) (pf_base f)
      in kprintf (0x09 # text_of ''%x:%x:%x:%x, id: %x:%x, class: %x:%x:%x'' @ crlf)
           [Va_Int (ucast (pf_segment f)), Va_Int (ucast (pf_bus f)), Va_Int (ucast (pf_device f)),
            Va_Int (ucast (pf_function f)), Va_Int (ucast (vendor_id h)), Va_Int (ucast (device_id h)),
            Va_Int (ucast (device_class h)), Va_Int (ucast (device_subclass h)),
            Va_Int (ucast (program_interface h))] s)"

definition pci_dump :: "'z pci_state_scheme \<Rightarrow> 'z pci_state_scheme option" where
  "pci_dump s = do {
     s \<leftarrow> kprintf (crlf @ text_of ''PCI devices:'' @ crlf @ crlf) [] s;
     for_each pci_dump_function [0..<unat (pci_function_cache_entries s)] s }"

end
