(* ===== verification/Ahci.thy ===== *)
theory Ahci
  imports Pci
begin

text \<open>
  The disk driver, \<open>kernel/src/iodev/disk/ahci.c\<close>. The registers of the controller are device registers
  (every access is an event, what is read is arbitrary), the command lists and tables are memory, the
  table of drive handles is a store from port numbers to handles.

  The first call of \<open>ahci_driver_available\<close> loads the driver and configures the ports; every function
  below that asks again runs after it, when the answer is \<open>_ahci_driver_loaded\<close>: \<open>ahci_ready\<close>.

  The loops that wait for the command engine halt the processor in every round. Whether an interrupt
  ends the \<open>hlt\<close> is not decided in this file: \<open>halt_wakes n\<close> says it of the one that is executed after
  \<open>n\<close> accesses to devices. The driver is loaded by the debug shell's disk commands only, so in the handler
  of the serial interrupt, with the interrupts off, where nothing ends it. The handlers of interrupts
  that end one elsewhere do not touch the driver's state.
\<close>

section \<open>Structures\<close>

abbreviation AHCI_CONTROLLER_PORT_COUNT :: nat where "AHCI_CONTROLLER_PORT_COUNT \<equiv> 0x20"
abbreviation AHCI_CMD_HEADERS_PER_LIST :: nat where "AHCI_CMD_HEADERS_PER_LIST \<equiv> 0x20"
abbreviation AHCI_HBA_PxCMD_CR :: u32 where "AHCI_HBA_PxCMD_CR \<equiv> 0x8000"
abbreviation AHCI_HBA_PxCMD_FRE :: u32 where "AHCI_HBA_PxCMD_FRE \<equiv> 0x0010"
abbreviation AHCI_HBA_PxCMD_ST :: u32 where "AHCI_HBA_PxCMD_ST \<equiv> 0x0001"
abbreviation AHCI_HBA_PxCMD_FR :: u32 where "AHCI_HBA_PxCMD_FR \<equiv> 0x4000"
abbreviation AHCI_ATA_DEV_BUSY :: u32 where "AHCI_ATA_DEV_BUSY \<equiv> 0x80"
abbreviation AHCI_ATA_DEV_DRQ :: u32 where "AHCI_ATA_DEV_DRQ \<equiv> 0x08"
abbreviation AHCI_ATA_CMD_READ_DMA_EXT :: u8 where "AHCI_ATA_CMD_READ_DMA_EXT \<equiv> 0x25"
abbreviation AHCI_FIS_TYPE_REG_H2D :: u8 where "AHCI_FIS_TYPE_REG_H2D \<equiv> 0x27"
abbreviation HBA_STATUS_TFES :: u32 where "HBA_STATUS_TFES \<equiv> 0x40000000"
abbreviation sizeof_command_table :: u64 where "sizeof_command_table \<equiv> 0x80"
abbreviation sizeof_command_header :: u64 where "sizeof_command_header \<equiv> 0x20"
abbreviation sizeof_prdt_entry :: u64 where "sizeof_prdt_entry \<equiv> 0x10"

text \<open>Offsets of the registers of a port, and of the registers in the controller.\<close>

abbreviation port_command_list_lower :: u64 where "port_command_list_lower \<equiv> 0"
abbreviation port_command_list_upper :: u64 where "port_command_list_upper \<equiv> 4"
abbreviation port_fis_lower :: u64 where "port_fis_lower \<equiv> 8"
abbreviation port_fis_upper :: u64 where "port_fis_upper \<equiv> 12"
abbreviation port_interrupt_status :: u64 where "port_interrupt_status \<equiv> 16"
abbreviation port_command_status :: u64 where "port_command_status \<equiv> 24"
abbreviation port_task_file_data :: u64 where "port_task_file_data \<equiv> 32"
abbreviation port_signature :: u64 where "port_signature \<equiv> 36"
abbreviation port_sata_status :: u64 where "port_sata_status \<equiv> 40"
abbreviation port_command_issue :: u64 where "port_command_issue \<equiv> 56"
abbreviation hba_ports_implemented :: u64 where "hba_ports_implemented \<equiv> 12"
abbreviation hba_ports :: u64 where "hba_ports \<equiv> 0x100"
abbreviation sizeof_hba_port :: u64 where "sizeof_hba_port \<equiv> 0x80"

datatype ahci_controller_port_type = Port_None | Port_Sata | Port_Satapi | Port_Semb | Port_Pm

record ahci_drive_handle =
  port_hba :: u64
  port_number :: u32
  port_type :: ahci_controller_port_type

record ahci_state = pci_state +
  ahci_driver_loaded :: bool
  ahci_controller_checked :: bool
  hba_mem_abar :: u64
  ahci_pci_device :: u64
  drive_ports :: u64
  drive_handles :: "nat \<Rightarrow> ahci_drive_handle"
  ports_configured :: bool
  halt_wakes :: "nat \<Rightarrow> bool"

definition ahci_ready :: "'z ahci_state_scheme \<Rightarrow> bool" where
  "ahci_ready s = ahci_driver_loaded s"

section \<open>Ports\<close>

definition ahci_port_type :: "u32 \<Rightarrow> u32 \<Rightarrow> ahci_controller_port_type" where
  "ahci_port_type sata_status sata_signature =
     (if sata_status AND 7 \<noteq> 3 then Port_None
      else if drop_bit 8 sata_status AND 7 \<noteq> 1 then Port_None
      else if sata_signature = 0x00000101 then Port_Sata
      else if sata_signature = 0xEB140101 then Port_Satapi
      else if sata_signature = 0xC33C0101 then Port_Semb
      else if sata_signature = 0x96690101 then Port_Pm
      else Port_None)"

definition ahci_controller_classify_port ::
    "u64 \<Rightarrow> 'z machine_state_scheme \<Rightarrow> ahci_controller_port_type \<times> 'z machine_state_scheme" where
  "ahci_controller_classify_port port s =
     (let (sata_status, s) = mmio_read (port + port_sata_status) s;
          (sata_signature, s) = mmio_read (port + port_signature) s
      in (ahci_port_type sata_status sata_signature, s))"

definition ahci_controller_register_port :: "nat \<Rightarrow> 'z ahci_state_scheme \<Rightarrow> 'z ahci_state_scheme" where
  "ahci_controller_register_port port s =
     (let handle = hba_mem_abar s + hba_ports + sizeof_hba_port * of_nat port;
          (t, s) = ahci_controller_classify_port handle s
      in if t = Port_Sata \<or> t = Port_Satapi
         then s\<lparr>drive_handles := (drive_handles s)(port :=
                \<lparr>port_hba = handle, port_number = of_nat port, port_type = t\<rparr>)\<rparr>
         else s)"

definition ahci_controller_probe_ports :: "'z ahci_state_scheme \<Rightarrow> 'z ahci_state_scheme" where
  "ahci_controller_probe_ports s =
     (if \<not> ahci_ready s then s
      else let (ports_implemented, s) = mmio_read (hba_mem_abar s + hba_ports_implemented) s
           in fold (\<lambda>i s. if bit ports_implemented i then ahci_controller_register_port i s else s)
                [0..<AHCI_CONTROLLER_PORT_COUNT] s)"

section \<open>Starting and stopping the command engine\<close>

text \<open>\<open>port->reg = (port->reg & keep) | set\<close>\<close>

definition port_change :: "u64 \<Rightarrow> u32 \<Rightarrow> u32 \<Rightarrow> 'z machine_state_scheme \<Rightarrow> 'z machine_state_scheme" where
  "port_change addr keep on s = (let (v, s) = mmio_read addr s in mmio_write addr ((v AND keep) OR on) s)"

definition hlt :: "'z ahci_state_scheme \<Rightarrow> 'z ahci_state_scheme option" where
  "hlt s = (if halt_wakes s (length (io_log s)) then Some s else None)"

partial_function (option) ahci_wait_stopped ::
    "u64 \<Rightarrow> 'z ahci_state_scheme \<Rightarrow> 'z ahci_state_scheme option" where
  "ahci_wait_stopped port s = do {
     s \<leftarrow> hlt s;
     let (v, s) = mmio_read (port + port_command_status) s;
     if v AND AHCI_HBA_PxCMD_FR \<noteq> 0 then ahci_wait_stopped port s
     else do {
       let (v, s) = mmio_read (port + port_command_status) s;
       if v AND AHCI_HBA_PxCMD_CR \<noteq> 0 then ahci_wait_stopped port s else Some s } }"

definition ahci_drive_command_stop ::
    "ahci_drive_handle \<Rightarrow> 'z ahci_state_scheme \<Rightarrow> 'z ahci_state_scheme option" where
  "ahci_drive_command_stop drive s =
     (if \<not> ahci_ready s then Some s
      else let reg = port_hba drive + port_command_status
           in ahci_wait_stopped (port_hba drive)
                (port_change reg (NOT AHCI_HBA_PxCMD_FRE) 0 (port_change reg (NOT AHCI_HBA_PxCMD_ST) 0 s)))"

partial_function (option) ahci_wait_command_list ::
    "u64 \<Rightarrow> 'z ahci_state_scheme \<Rightarrow> 'z ahci_state_scheme option" where
  "ahci_wait_command_list port s = do {
     let (v, s) = mmio_read (port + port_command_status) s;
     if v AND AHCI_HBA_PxCMD_CR \<noteq> 0
     then do { s \<leftarrow> hlt s; ahci_wait_command_list port s }
     else Some s }"

definition ahci_drive_command_start ::
    "ahci_drive_handle \<Rightarrow> 'z ahci_state_scheme \<Rightarrow> 'z ahci_state_scheme option" where
  "ahci_drive_command_start drive s =
     (if \<not> ahci_ready s then Some s
      else do {
        let reg = port_hba drive + port_command_status;
        s \<leftarrow> ahci_wait_command_list (port_hba drive) s;
        Some (port_change reg (-1) AHCI_HBA_PxCMD_ST (port_change reg (-1) AHCI_HBA_PxCMD_FRE s)) })"

section \<open>Configuring a port\<close>

abbreviation DESIRED_PRDT_LENGTH :: u16 where "DESIRED_PRDT_LENGTH \<equiv> 8"

definition ahci_clear_page :: "u64 \<Rightarrow> 'z heap_state_scheme \<Rightarrow> 'z heap_state_scheme option" where
  "ahci_clear_page p s =
     (if p = 0 then None else Some (s\<lparr>heap_bytes := memset (heap_bytes s) p 0 PAGING_PAGE_SIZE\<rparr>))"

definition ahci_link_header :: "u64 \<Rightarrow> u64 \<Rightarrow> u64 \<Rightarrow> nat \<Rightarrow> mem \<Rightarrow> mem" where
  "ahci_link_header cmd_header tables cmd_table_size i m =
     (let p = cmd_header + sizeof_command_header * of_nat i;
          cmd_table_base = tables + of_nat i * cmd_table_size;
          m = write_u16 m (p + 2) DESIRED_PRDT_LENGTH;
          m = write_bytes m (p + 8) cmd_table_base 4
      in write_bytes m (p + 12) (drop_bit 32 cmd_table_base) 4)"

text \<open>The size of a table is divided by the size of a page: a pool of 0 pages is asked for.\<close>

definition ahci_controller_configure_port :: "nat \<Rightarrow> 'z ahci_state_scheme \<Rightarrow> 'z ahci_state_scheme option" where
  "ahci_controller_configure_port port_no s =
     (if \<not> ahci_ready s then Some s
      else
        let drive = drive_handles s port_no; port = port_hba drive
        in if port = 0 \<or> port_type drive = Port_None \<or> port_number drive \<noteq> of_nat port_no then Some s
           else do {
             s \<leftarrow> ahci_drive_command_stop drive s;
             (new_cmd_base, s) \<leftarrow> pmm_alloc_page s;
             (new_fis_base, s) \<leftarrow> pmm_alloc_page s;
             s \<leftarrow> ahci_clear_page new_cmd_base s;
             s \<leftarrow> ahci_clear_page new_fis_base s;
             let s = mmio_write (port + port_command_list_lower) (ucast new_cmd_base) s;
             let s = mmio_write (port + port_command_list_upper) (ucast (drop_bit 32 new_cmd_base)) s;
             let s = mmio_write (port + port_fis_lower) (ucast new_fis_base) s;
             let s = mmio_write (port + port_fis_upper) (ucast (drop_bit 32 new_fis_base)) s;
             let cmd_table_size = sizeof_command_table + sizeof_prdt_entry * ucast DESIRED_PRDT_LENGTH;
             (tables, s) \<leftarrow> pmm_alloc_pool (cmd_table_size div PAGING_PAGE_SIZE) s;
             s \<leftarrow> (if tables = 0 then None
                   else Some (s\<lparr>heap_bytes := memset (heap_bytes s) tables 0
                          (cmd_table_size * of_nat AHCI_CMD_HEADERS_PER_LIST)\<rparr>));
             let s = s\<lparr>heap_bytes := fold (ahci_link_header new_cmd_base tables cmd_table_size)
                        [0..<AHCI_CMD_HEADERS_PER_LIST] (heap_bytes s)\<rparr>;
             ahci_drive_command_start drive s })"

definition ahci_controller_configure_all_ports :: "'z ahci_state_scheme \<Rightarrow> 'z ahci_state_scheme option" where
  "ahci_controller_configure_all_ports s =
     (if ports_configured s then Some s
      else do {
        s \<leftarrow> for_each ahci_controller_configure_port [0..<AHCI_CONTROLLER_PORT_COUNT]
               (ahci_controller_probe_ports s);
        Some (s\<lparr>ports_configured := True\<rparr>) })"

section \<open>Loading the driver\<close>

text \<open>Without a controller \<open>find_device\<close> returns NULL, which is used before the test.\<close>

definition ahci_driver_load_pci :: "'z ahci_state_scheme \<Rightarrow> (bool \<times> 'z ahci_state_scheme) option" where
  "ahci_driver_load_pci s =
     (if ahci_controller_checked s then Some (ahci_driver_loaded s, s)
      else do {
        i \<leftarrow> find_device 0x01 0x06 0x01 s;
        let device = pf_base (read_function (of_nat i) s);
        let s = s\<lparr>ahci_driver_loaded := False, ahci_pci_device := device\<rparr>;
        if device = 0 then Some (False, s\<lparr>ahci_controller_checked := True\<rparr>)
        else do {
          let s = s\<lparr>hba_mem_abar := ucast (read_u32 (heap_bytes s) (device + 36))\<rparr>;
          if hba_mem_abar s = 0 then Some (False, s\<lparr>ahci_controller_checked := True\<rparr>)
          else do {
            (page, s) \<leftarrow> pmm_alloc_page s;
            s \<leftarrow> (if page = 0 then None
                  else Some (s\<lparr>drive_ports := page,
                         drive_handles := (\<lambda>i. if i < AHCI_CONTROLLER_PORT_COUNT
                           then \<lparr>port_hba = 0, port_number = 0, port_type = Port_None\<rparr>
                           else drive_handles s i)\<rparr>));
            let s = s\<lparr>ahci_controller_checked := True\<rparr>;
            s \<leftarrow> paging_map_page (hba_mem_abar s) (hba_mem_abar s) PAGING_FLAGS_MMIO_PAGE s;
            let s = s\<lparr>ahci_driver_loaded := True\<rparr>;
            s \<leftarrow> ahci_controller_configure_all_ports s;
            Some (ahci_driver_loaded s, s) } } })"

definition ahci_driver_available :: "'z ahci_state_scheme \<Rightarrow> (bool \<times> 'z ahci_state_scheme) option" where
  "ahci_driver_available s = do {
     (ok, s) \<leftarrow> ahci_driver_load_pci s;
     Some (ok \<and> ahci_driver_loaded s, s) }"

section \<open>Reading sectors\<close>

text \<open>The bytes 24 to 31 of the block number come from its upper half.\<close>

definition ahci_read_fis :: "u64 \<Rightarrow> u32 \<Rightarrow> u64 \<Rightarrow> mem \<Rightarrow> mem" where
  "ahci_read_fis lba sector_count p m =
     (let lba_lower = ucast lba :: u32; lba_upper = ucast (drop_bit 32 lba) :: u32
      in m(p := AHCI_FIS_TYPE_REG_H2D, p + 1 := m (p + 1) OR 0x80, p + 2 := AHCI_ATA_CMD_READ_DMA_EXT,
           p + 4 := ucast (lba_lower AND 0xFF),
           p + 5 := ucast (drop_bit 8 lba_lower AND 0xFF),
           p + 6 := ucast (drop_bit 16 lba_lower AND 0xFF),
           p + 8 := ucast (lba_upper AND 0xFF),
           p + 9 := ucast (drop_bit 8 lba_upper AND 0xFF),
           p + 10 := ucast (drop_bit 16 lba_upper AND 0xFF),
           p + 7 := 0x40,
           p + 12 := ucast (sector_count AND 0xFF),
           p + 13 := ucast (drop_bit 8 sector_count)))"

text \<open>The entry's byte count has 22 bits; bit 31 asks for an interrupt.\<close>

definition ahci_read_prdt :: "u64 \<Rightarrow> u32 \<Rightarrow> u64 \<Rightarrow> mem \<Rightarrow> mem" where
  "ahci_read_prdt out_buffer sector_count p m =
     (let m = write_bytes m p out_buffer 4;
          m = write_bytes m (p + 4) (drop_bit 32 out_buffer) 4;
          w = (read_u32 m (p + 12) AND 0x7FC00000) OR (sector_count * 512 AND 0x3FFFFF) OR 0x80000000
      in write_bytes m (p + 12) (ucast w) 4)"

fun ahci_wait_idle :: "nat \<Rightarrow> u64 \<Rightarrow> 'z machine_state_scheme \<Rightarrow> bool \<times> 'z machine_state_scheme" where
  "ahci_wait_idle n port s =
     (let (v, s) = mmio_read (port + port_task_file_data) s
      in if v AND (AHCI_ATA_DEV_BUSY OR AHCI_ATA_DEV_DRQ) = 0 then (True, s)
         else case n of 0 \<Rightarrow> (False, s) | Suc k \<Rightarrow> ahci_wait_idle k port s)"

declare ahci_wait_idle.simps [simp del]

partial_function (option) ahci_wait_done ::
    "u64 \<Rightarrow> 'z machine_state_scheme \<Rightarrow> (bool \<times> 'z machine_state_scheme) option" where
  "ahci_wait_done port s =
     (let (v, s) = mmio_read (port + port_interrupt_status) s
      in if v AND HBA_STATUS_TFES \<noteq> 0 then Some (False, s)
         else let (v, s) = mmio_read (port + port_command_issue) s
              in if v = 0 then Some (True, s) else ahci_wait_done port s)"

text \<open>\<open>watchdog++ > 0x100000\<close> gives up at the 0x100002nd busy answer.\<close>

definition ahci_drive_command_read_wait ::
    "ahci_drive_handle \<Rightarrow> u64 \<Rightarrow> u32 \<Rightarrow> u64 \<Rightarrow> 'z ahci_state_scheme \<Rightarrow> (bool \<times> 'z ahci_state_scheme) option" where
  "ahci_drive_command_read_wait drive lba sector_count out_buffer s =
     (if \<not> ahci_ready s then Some (False, s)
      else if port_type drive \<noteq> Port_Sata
      then do {
        s \<leftarrow> serial_print_error (text_of ''Attempted to read from unsupported AHCI port!'' @ crlf) s;
        Some (False, s) }
      else do {
        let port = port_hba drive;
        let s = mmio_write (port + port_interrupt_status) (-1) s;
        let (lower, s) = mmio_read (port + port_command_list_lower) s;
        let (upper, s) = mmio_read (port + port_command_list_upper) s;
        let cmd_header = (ucast lower OR push_bit 32 (ucast upper) :: u64);
        let m = heap_bytes s;
        let m = m(cmd_header := (m cmd_header AND 0xA0) OR 5);
        let m = write_u16 m (cmd_header + 2) 1;
        let cmd_table = (ucast (read_u32 m (cmd_header + 8)) OR
                         push_bit 32 (ucast (read_u32 m (cmd_header + 12))) :: u64);
        let m = memset m cmd_table 0 sizeof_command_table;
        let m = ahci_read_prdt out_buffer sector_count (cmd_table + 0x80) m;
        let m = ahci_read_fis lba sector_count cmd_table m;
        let (idle, s) = ahci_wait_idle 0x100001 port (s\<lparr>heap_bytes := m\<rparr>);
        if \<not> idle then Some (False, s)
        else ahci_wait_done port (mmio_write (port + port_command_issue) 1 s) })"

section \<open>Output\<close>

text \<open>A number in a local buffer of 67 bytes.\<close>

definition utoa_text :: "u64 \<Rightarrow> u8 \<Rightarrow> u8 list option" where
  "utoa_text v base = do {
     (p, m) \<leftarrow> utoa v 0x1000 base (\<lambda>_. 0);
     n \<leftarrow> strlen m p;
     Some (read_bytes m p (unat n)) }"

definition ahci_debug_print_port :: "ahci_drive_handle \<Rightarrow> 'z ahci_state_scheme \<Rightarrow> 'z ahci_state_scheme option" where
  "ahci_debug_print_port drive s =
     (if \<not> ahci_ready s then Some s
      else if port_type drive \<noteq> Port_Sata
      then serial_print_quiet (crlf @ text_of ''Port is an unsupported non-SATA port'' @ crlf) s
      else do {
        (buffer, s) \<leftarrow> pmm_alloc_page s;
        (_, s) \<leftarrow> ahci_drive_command_read_wait drive 0 4 buffer s;
        s \<leftarrow> serial_print_quiet (crlf @ replicate 4 0x0A) s;
        s \<leftarrow> for_each (\<lambda>i s. serial_print_quiet (filter (\<lambda>c. c \<noteq> 0) [heap_bytes s (buffer + of_nat i)]) s)
               [0..<512] s;
        serial_print_quiet (crlf @ replicate 4 0x0A) s })"

definition disk_dump :: "'z ahci_state_scheme \<Rightarrow> 'z ahci_state_scheme option" where
  "disk_dump s = do {
     (ok, s) \<leftarrow> ahci_driver_available s;
     if \<not> ok then serial_print_error (text_of ''AHCI driver not available'' @ crlf) s
     else do {
       s \<leftarrow> serial_print_quiet (crlf @ [0x0A, 0x0A] @ text_of ''AHCI Disk Testing:'' @ crlf) s;
       s \<leftarrow> for_each (\<lambda>i s.
              let drive = drive_handles s i
              in if port_hba drive = 0 \<or> port_type drive = Port_None \<or> port_number drive \<noteq> of_nat i
                 then Some s
                 else do {
                   s \<leftarrow> serial_print_quiet (crlf @ [0x0A, 0x0A] @ text_of ''---'' @ crlf @ text_of ''Port '') s;
                   n \<leftarrow> utoa_text (ucast (port_number drive)) 10;
                   s \<leftarrow> serial_print_quiet n s;
                   s \<leftarrow> serial_print_quiet (text_of '', sector 0:'' @ crlf) s;
                   ahci_debug_print_port drive s })
              [0..<AHCI_CONTROLLER_PORT_COUNT] s;
       serial_print_quiet (crlf @ text_of ''====='' @ crlf @ [0x0A]) s } }"

definition port_class_text :: "ahci_controller_port_type \<Rightarrow> u8 list" where
  "port_class_text t =
     (case t of Port_Sata \<Rightarrow> text_of ''SATA'' | Port_Satapi \<Rightarrow> text_of ''SATAPI'' | Port_Semb \<Rightarrow> text_of ''SEMB''
      | Port_Pm \<Rightarrow> text_of ''PM'' | Port_None \<Rightarrow> text_of ''NONE'')"

definition disk_info :: "'z ahci_state_scheme \<Rightarrow> 'z ahci_state_scheme option" where
  "disk_info s = do {
     s \<leftarrow> serial_print_quiet (crlf @ [0x0A, 0x0A] @ text_of ''AHCI Disk Information:'' @ crlf @
            text_of ''May take up to a minute...'' @ crlf) s;
     (ok, s) \<leftarrow> ahci_driver_available s;
     if \<not> ok then serial_print_error (text_of ''AHCI driver not available'' @ crlf @ [0x0A, 0x0A]) s
     else do {
       s \<leftarrow> for_each (\<lambda>i s.
              let drive = drive_handles s i
              in if port_hba drive = 0 \<or> port_number drive \<noteq> of_nat i then Some s
                 else do {
                   s \<leftarrow> serial_print_quiet (crlf @ 0x09 # text_of ''Port '') s;
                   n \<leftarrow> utoa_text (ucast (port_number drive)) 10;
                   s \<leftarrow> serial_print_quiet n s;
                   s \<leftarrow> serial_print_quiet (text_of '', class: '') s;
                   serial_print_quiet (port_class_text (port_type drive)) s })
              [0..<AHCI_CONTROLLER_PORT_COUNT] s;
       serial_print_quiet (crlf @ [0x0A]) s } }"

end
