(* ===== verification/Shell.thy ===== *)
theory Shell
  imports Dumps Ahci Buffers
begin

text \<open>
  The debug shell on the serial port: the command line, the table of commands and the input interrupt
  (\<open>kernel/src/iodev/uart/shell.c\<close>, \<open>__uart_input_irq_handler\<close> of \<open>uartsh.c\<close>). The command line is the
  page at \<open>command_buffer\<close>. \<open>None\<close> is a fault or a command that does not return.
\<close>

abbreviation UNSUPPORTED_LF :: u8 where "UNSUPPORTED_LF \<equiv> 0x0A"
abbreviation SUPPORTED_CR :: u8 where "SUPPORTED_CR \<equiv> 0x0D"
abbreviation NUMBER_OF_COMMANDS :: nat where "NUMBER_OF_COMMANDS \<equiv> 12"
abbreviation UARTSH_BUFFER_MAX :: u64 where "UARTSH_BUFFER_MAX \<equiv> 4094"

section \<open>The commands\<close>

definition uart_shell_commands :: "u8 list list" where
  "uart_shell_commands = map text_of
     [''help'', ''ping'', ''idt'', ''gdt'', ''tss'', ''lsp'', ''mem'', ''uart'', ''pci'', ''clear'',
      ''lsdisks'', ''disktest'']"

definition shell_write_lines :: "u8 list list \<Rightarrow> 'z uart_state_scheme \<Rightarrow> 'z uart_state_scheme option" where
  "shell_write_lines lines s = for_each (\<lambda>l s. uart_internal_write l (shell_output_port s) s) lines s"

definition shell_command_help :: "'z uart_state_scheme \<Rightarrow> 'z uart_state_scheme option" where
  "shell_command_help = shell_write_lines
     ([text_of ''You are using the \"glass\" kernel debug shell through the serial port. Available commands:'' @ crlf @ crlf] @
      map (\<lambda>l. text_of l @ crlf)
        [''help: print this message'',
         ''ping: print \"pong\"'',
         ''idt: print dump of idt structure'',
         ''gdt: print dump of gdt structure'',
         ''tss: print dump of tss structure'',
         ''lsp: print dump of current processes'',
         ''mem: print info on memory state'',
         ''uart: print info on uart (serial) state'',
         ''pci: print list of pci functions'',
         ''clear: attempt to clear the screen (compatibility varies)'',
         ''lsdisks: list available AHCI disks'',
         ''disktest: test AHCI disk read operations'',
         ''''])"

definition shell_command_ping :: "'z uart_state_scheme \<Rightarrow> 'z uart_state_scheme option" where
  "shell_command_ping s = uart_internal_write (text_of ''pong'' @ crlf) (shell_output_port s) s"

definition shell_command_clear :: "'z uart_state_scheme \<Rightarrow> 'z uart_state_scheme option" where
  "shell_command_clear = shell_write_lines
     [text_of ''Viewing this message indicates failure: attempting to clear screen with escape sequences '' @
        0x5C # text_of ''033[2J and '' @ 0x5C # text_of ''033[H...'' @ crlf,
      text_of ''NOTICE: Some monitors may simply scroll the text out of view, this indicates success.'' @ crlf,
      0x1B # text_of ''[2J'' @ crlf @ 0x1B # text_of ''[H'']"

definition shell_command_handlers :: "('z ahci_state_scheme \<Rightarrow> 'z ahci_state_scheme option) list" where
  "shell_command_handlers =
     [shell_command_help, shell_command_ping, idt_dump, gdt_dump, tss_dump, proc_dump, pmm_dump,
      uart_dump, pci_dump, shell_command_clear, disk_info, disk_dump]"

definition uart_shell_command_execute :: "u16 \<Rightarrow> 'z ahci_state_scheme \<Rightarrow> 'z ahci_state_scheme option" where
  "uart_shell_command_execute command_no s =
     (if unat command_no \<ge> NUMBER_OF_COMMANDS then Some s
      else (shell_command_handlers ! unat command_no) s)"

section \<open>The command line\<close>

definition uart_shell_clear_buffer :: "'z uart_state_scheme \<Rightarrow> 'z uart_state_scheme" where
  "uart_shell_clear_buffer s =
     s\<lparr>heap_bytes := memset (heap_bytes s) (command_buffer s) 0 PAGING_PAGE_SIZE, command_buffer_index := 0\<rparr>"

text \<open>The command is a constant: behind its bytes there is a zero.\<close>

fun uart_command_match :: "mem \<Rightarrow> u64 \<Rightarrow> u8 list \<Rightarrow> bool" where
  "uart_command_match m input [] = (m input = 0)"
| "uart_command_match m input (c # cs) =
     (if m input = 0 \<and> c = 0 then True
      else if m input \<noteq> c then False
      else uart_command_match m (input + 1) cs)"

definition uart_command_buffer_append :: "u8 \<Rightarrow> 'z uart_state_scheme \<Rightarrow> 'z uart_state_scheme" where
  "uart_command_buffer_append c s =
     (if command_buffer_index s \<le> UARTSH_BUFFER_MAX
      then s\<lparr>heap_bytes := (heap_bytes s)(command_buffer s + command_buffer_index s := c),
             command_buffer_index := command_buffer_index s + 1\<rparr>
      else s)"

definition uart_shell_command_finalize :: "'z ahci_state_scheme \<Rightarrow> 'z ahci_state_scheme option" where
  "uart_shell_command_finalize s =
     (if command_buffer_index s = 0 then uart_shell_replace_prompt (s\<lparr>prompt_placed := False\<rparr>)
      else
        let s = s\<lparr>heap_bytes := (heap_bytes s)(command_buffer s + command_buffer_index s := 0)\<rparr>
        in case find (\<lambda>i. uart_command_match (heap_bytes s) (command_buffer s) (uart_shell_commands ! i))
                  [0..<NUMBER_OF_COMMANDS] of
             Some i \<Rightarrow> do {
               s \<leftarrow> uart_shell_command_execute (of_nat i) s;
               s \<leftarrow> uart_shell_replace_prompt (s\<lparr>prompt_placed := False\<rparr>);
               Some (uart_shell_clear_buffer s) }
           | None \<Rightarrow> do {
               s \<leftarrow> uart_shell_write (text_of ''Unknown command...'' @ crlf) s;
               Some (uart_shell_clear_buffer s) })"

definition uart_shell_handle_character :: "u8 \<Rightarrow> 'z ahci_state_scheme \<Rightarrow> 'z ahci_state_scheme option" where
  "uart_shell_handle_character c s =
     (if c = UNSUPPORTED_LF \<or> c = SUPPORTED_CR
      then do {
        s \<leftarrow> uart_internal_write crlf (shell_output_port s) s;
        uart_shell_command_finalize s }
      else if (c < 0x20 \<or> c > 0x7E) \<and> c \<noteq> SUPPORTED_CR then Some s
      else do {
        s \<leftarrow> uart_internal_write [if c = SUPPORTED_CR then UNSUPPORTED_LF else c] (shell_output_port s) s;
        Some (uart_command_buffer_append c s) })"

section \<open>The input interrupt\<close>

definition uart_input_data_available :: "'z uart_state_scheme \<Rightarrow> (bool \<times> 'z uart_state_scheme) option" where
  "uart_input_data_available s = do {
     addr \<leftarrow> com_port_addr (input_port s);
     let (v, s) = inb (addr + COM_REGISTER_LINE_STAT) s;
     Some (v AND 0x1 \<noteq> 0, s) }"

partial_function (option) uart_input_loop :: "'z ahci_state_scheme \<Rightarrow> 'z ahci_state_scheme option" where
  "uart_input_loop s = do {
     (more, s) \<leftarrow> uart_input_data_available s;
     if \<not> more then Some s
     else do {
       addr \<leftarrow> com_port_addr (input_port s);
       let (c, s) = inb (addr + COM_REGISTER_DATA) s;
       s \<leftarrow> uart_shell_handle_character c s;
       uart_input_loop s } }"

definition uart_input_irq_handler :: "'z ahci_state_scheme \<Rightarrow> 'z ahci_state_scheme option" where
  "uart_input_irq_handler s =
     (if input_masked s then Some s
      else do {
        s \<leftarrow> uart_input_loop s;
        apic_local_send_eoi s })"

end
