(* ===== verification/Shell_Props.thy ===== *)
theory Shell_Props
  imports Shell Ps2_Props
begin

text \<open>
  The debug shell: the command line is a bounded buffer, and a line that is typed runs the command of
  that name and no other.
\<close>

section \<open>Output\<close>

text \<open>Bytes sent to the shell's port.\<close>

definition transmit :: "u8 list \<Rightarrow> 'z uart_state_scheme \<Rightarrow> 'z uart_state_scheme" where
  "transmit xs s = s\<lparr>io_log := io_log s @ map (Out8 (com_port_addrs ! unat (shell_output_port s))) xs\<rparr>"

definition shell_connected :: "'z uart_state_scheme \<Rightarrow> bool" where
  "shell_connected s \<longleftrightarrow> shell_output_port s \<noteq> 0 \<and> unat (shell_output_port s) < 9"

lemma transmit_sel [simp]:
  "io_log (transmit xs s) = io_log s @ map (Out8 (com_port_addrs ! unat (shell_output_port s))) xs"
  "heap_bytes (transmit xs s) = heap_bytes s" "shell_output_port (transmit xs s) = shell_output_port s"
  "command_buffer (transmit xs s) = command_buffer s" "prompt_placed (transmit xs s) = prompt_placed s"
  "command_buffer_index (transmit xs s) = command_buffer_index s"
  "shell_connected (transmit xs s) = shell_connected s"
  by (simp_all add: transmit_def shell_connected_def)

lemma transmit_Nil [simp]: "transmit [] s = s"
  by (simp add: transmit_def)

lemma transmit_append: "transmit ys (transmit xs s) = transmit (xs @ ys) s"
  by (simp add: transmit_def)

lemma shell_connected_upd [simp]:
  "shell_connected (s\<lparr>heap_bytes := m\<rparr>) = shell_connected s"
  "shell_connected (s\<lparr>command_buffer_index := i\<rparr>) = shell_connected s"
  "shell_connected (s\<lparr>prompt_placed := b\<rparr>) = shell_connected s"
  by (simp_all add: shell_connected_def)

lemma fold_outb: "fold (\<lambda>c s. outb addr c s) xs s = s\<lparr>io_log := io_log s @ map (Out8 addr) xs\<rparr>"
  by (induction xs arbitrary: s) (simp_all add: outb_def io_emit_def)

lemma internal_write_transmit:
  "shell_connected s \<Longrightarrow> shell_output_port s = p \<Longrightarrow> uart_internal_write xs p s = Some (transmit xs s)"
  by (auto simp add: shell_connected_def uart_internal_write_def com_port_addr_def transmit_def fold_outb)

lemma cancel_prompt_transmit:
  "shell_connected s \<Longrightarrow> uart_shell_cancel_prompt s =
     Some ((transmit (if prompt_placed s then replicate PROMPT_LENGTH 0x08 else []) s)\<lparr>prompt_placed := False\<rparr>)"
  by (simp add: uart_shell_cancel_prompt_def internal_write_transmit)

lemma replace_prompt_transmit:
  "shell_connected s \<Longrightarrow> \<not> prompt_placed s \<Longrightarrow>
   uart_shell_replace_prompt s = Some ((transmit SHELL_PROMPT s)\<lparr>prompt_placed := True\<rparr>)"
  by (simp add: uart_shell_replace_prompt_def internal_write_transmit)

lemma transmit_prompt [simp]: "transmit xs (s\<lparr>prompt_placed := b\<rparr>) = (transmit xs s)\<lparr>prompt_placed := b\<rparr>"
  by (simp add: transmit_def)

lemma shell_write_transmit:
  assumes "shell_connected s"
  shows "uart_shell_write xs s = Some ((transmit
    ((if prompt_placed s then replicate PROMPT_LENGTH 0x08 else []) @ xs @ SHELL_PROMPT) s)\<lparr>prompt_placed := True\<rparr>)"
proof -
  have "shell_output_port s \<noteq> 0" using assms by (simp add: shell_connected_def)
  then show ?thesis
    using assms
    by (simp add: uart_shell_write_def cancel_prompt_transmit internal_write_transmit
        replace_prompt_transmit transmit_append)
qed

section \<open>The command line as a bounded buffer\<close>

definition shell_line :: "'z uart_state_scheme \<Rightarrow> u8 list" where
  "shell_line s = read_bytes (heap_bytes s) (command_buffer s) (unat (command_buffer_index s))"

abbreviation line_bounded :: "'z uart_state_scheme \<Rightarrow> bool" where
  "line_bounded s \<equiv> unat (command_buffer_index s) \<le> 4095"

interpretation command_line: bounded_buffer uart_command_buffer_append shell_line 4095 line_bounded
proof
  fix s :: "'a uart_state_scheme" and x
  assume b: "line_bounded s"
  let ?n = "unat (command_buffer_index s)"
  have room: "command_buffer_index s \<le> UARTSH_BUFFER_MAX \<longleftrightarrow> ?n < 4095"
    by (auto simp: word_le_nat_alt)
  have suc: "unat (command_buffer_index s + 1) = Suc ?n" using b by (simp add: unat_plus_nowrap)
  have old: "command_buffer s + of_nat k \<noteq> command_buffer s + command_buffer_index s" if "k < ?n" for k
    using offset_inj [of k ?n "command_buffer s"] that b by auto
  show "shell_line (uart_command_buffer_append x s) =
      (if length (shell_line s) < 4095 then shell_line s @ [x] else shell_line s)"
    using room suc old by (auto simp: uart_command_buffer_append_def shell_line_def read_bytes_def)
  show "line_bounded (uart_command_buffer_append x s)"
    using b room suc by (simp add: uart_command_buffer_append_def)
  show "length (shell_line s) \<le> 4095" using b by (simp add: shell_line_def read_bytes_def)
qed

lemma append_transmit:
  "uart_command_buffer_append c (transmit xs s) = transmit xs (uart_command_buffer_append c s)"
  by (simp add: uart_command_buffer_append_def transmit_def)

lemma fold_append_transmit:
  "fold uart_command_buffer_append xs (transmit ys s) = transmit ys (fold uart_command_buffer_append xs s)"
  by (induction xs arbitrary: s) (simp_all add: append_transmit)

lemma append_sel [simp]:
  "shell_connected (uart_command_buffer_append c s) = shell_connected s"
  "shell_output_port (uart_command_buffer_append c s) = shell_output_port s"
  "command_buffer (uart_command_buffer_append c s) = command_buffer s"
  "prompt_placed (uart_command_buffer_append c s) = prompt_placed s"
  "io_log (uart_command_buffer_append c s) = io_log s"
  by (simp_all add: uart_command_buffer_append_def)

lemma append_memory:
  "\<exists>m i. uart_command_buffer_append c s = s\<lparr>heap_bytes := m, command_buffer_index := i\<rparr> \<and>
     (\<forall>a. 4095 \<le> unat (a - command_buffer s) \<longrightarrow> m a = heap_bytes s a)"
proof (cases "command_buffer_index s \<le> UARTSH_BUFFER_MAX")
  case True
  then show ?thesis
    unfolding uart_command_buffer_append_def
    by (intro exI [of _ "(heap_bytes s)(command_buffer s + command_buffer_index s := c)"]
        exI [of _ "command_buffer_index s + 1"]) (auto simp: word_le_nat_alt)
next
  case False
  then show ?thesis
    unfolding uart_command_buffer_append_def
    by (intro exI [of _ "heap_bytes s"] exI [of _ "command_buffer_index s"]) simp
qed

lemma fold_append_memory:
  "\<exists>m i. fold uart_command_buffer_append xs s = s\<lparr>heap_bytes := m, command_buffer_index := i\<rparr> \<and>
     (\<forall>a. 4095 \<le> unat (a - command_buffer s) \<longrightarrow> m a = heap_bytes s a)"
proof (induction xs arbitrary: s)
  case Nil
  show ?case by (intro exI [of _ "heap_bytes s"] exI [of _ "command_buffer_index s"]) simp
next
  case (Cons x xs)
  obtain m i where 1: "uart_command_buffer_append x s = s\<lparr>heap_bytes := m, command_buffer_index := i\<rparr>"
    and m: "\<forall>a. 4095 \<le> unat (a - command_buffer s) \<longrightarrow> m a = heap_bytes s a"
    using append_memory by blast
  from Cons [of "s\<lparr>heap_bytes := m, command_buffer_index := i\<rparr>"] obtain m' i' where
    "fold uart_command_buffer_append xs (s\<lparr>heap_bytes := m, command_buffer_index := i\<rparr>) =
       s\<lparr>heap_bytes := m', command_buffer_index := i'\<rparr>"
    "\<forall>a. 4095 \<le> unat (a - command_buffer s) \<longrightarrow> m' a = m a"
    by auto
  then show ?case using 1 m by (intro exI [of _ m'] exI [of _ i']) simp
qed

section \<open>Typing\<close>

definition printable :: "u8 \<Rightarrow> bool" where
  "printable c \<longleftrightarrow> 0x20 \<le> c \<and> c \<le> 0x7E"

lemma handle_printable:
  assumes "shell_connected s" "printable c"
  shows "uart_shell_handle_character c s = Some (uart_command_buffer_append c (transmit [c] s))"
proof -
  have "c \<noteq> 0x0A" "c \<noteq> 0x0D" "\<not> (c < 0x20 \<or> c > 0x7E)"
    using assms(2) by (auto simp: printable_def word_le_nat_alt word_less_nat_alt)
  then show ?thesis
    using assms by (simp add: uart_shell_handle_character_def internal_write_transmit)
qed

lemma type_printable:
  assumes "shell_connected s" "\<forall>c \<in> set xs. printable c"
  shows "for_each uart_shell_handle_character xs s = Some (fold uart_command_buffer_append xs (transmit xs s))"
  using assms
proof (induction xs arbitrary: s)
  case (Cons x xs)
  then have "for_each uart_shell_handle_character xs (uart_command_buffer_append x (transmit [x] s)) =
    Some (fold uart_command_buffer_append xs (transmit xs (uart_command_buffer_append x (transmit [x] s))))"
    by simp
  then show ?case
    using Cons.prems by (simp add: handle_printable flip: append_transmit) (simp add: transmit_append)
qed simp

lemma for_each_snoc: "for_each f (xs @ [y]) s = Option.bind (for_each f xs s) (f y)"
  by (induction xs arbitrary: s) (auto simp: fun_eq_iff split: bind_splits)

section \<open>The end of a line\<close>

lemma command_match_cstr:
  "cstr m p xs \<Longrightarrow> 0 \<notin> set cs \<Longrightarrow> uart_command_match m p cs \<longleftrightarrow> xs = cs"
proof (induction cs arbitrary: p xs)
  case Nil
  then show ?case by (cases xs) auto
next
  case (Cons c cs)
  then show ?case by (cases xs) auto
qed

lemma commands_distinct: "distinct uart_shell_commands"
  by (simp add: uart_shell_commands_def text_of_def of_char_def)

lemma commands_nonzero: "i < NUMBER_OF_COMMANDS \<Longrightarrow> 0 \<notin> set (uart_shell_commands ! i)"
proof -
  assume "i < NUMBER_OF_COMMANDS"
  moreover have "length uart_shell_commands = 12" by (simp add: uart_shell_commands_def)
  ultimately have "uart_shell_commands ! i \<in> set uart_shell_commands" by simp
  moreover have "\<forall>c \<in> set uart_shell_commands. 0 \<notin> set c"
    by (simp add: uart_shell_commands_def text_of_def of_char_def)
  ultimately show ?thesis by blast
qed

lemma find_command:
  assumes "cstr m p line"
  shows "find (\<lambda>i. uart_command_match m p (uart_shell_commands ! i)) [0..<NUMBER_OF_COMMANDS] =
     find (\<lambda>i. line = uart_shell_commands ! i) [0..<NUMBER_OF_COMMANDS]"
  using assms commands_nonzero by (intro find_cong refl) (simp add: command_match_cstr)

lemma find_nth:
  assumes "distinct xs" "i < length xs"
  shows "find (\<lambda>j. xs ! i = xs ! j) [0..<length xs] = Some i"
  using assms by (auto simp: find_Some_iff nth_eq_iff_index_eq intro!: exI [of _ i])

text \<open>The state in which the command runs: the line is echoed and terminated.\<close>

definition line_entered :: "u8 list \<Rightarrow> mem \<Rightarrow> 'z uart_state_scheme \<Rightarrow> 'z uart_state_scheme" where
  "line_entered xs m s = (transmit (xs @ crlf) s)\<lparr>heap_bytes := m,
     command_buffer_index := of_nat (length (take 4095 xs))\<rparr>"

lemma bytes_at_read: "read_bytes m p (length xs) = xs \<Longrightarrow> bytes_at m p xs"
proof -
  assume "read_bytes m p (length xs) = xs"
  then have "xs ! k = read_bytes m p (length xs) ! k" for k by simp
  then show "bytes_at m p xs" by (simp add: bytes_at_def read_bytes_def)
qed

lemma line_stored:
  assumes "command_buffer_index s = 0" "\<forall>c \<in> set xs. printable c"
  shows "\<exists>m i. fold uart_command_buffer_append xs s = s\<lparr>heap_bytes := m, command_buffer_index := i\<rparr> \<and>
     unat i = length (take 4095 xs) \<and> i = of_nat (length (take 4095 xs)) \<and>
     cstr (m(command_buffer s + i := 0)) (command_buffer s) (take 4095 xs) \<and>
     (\<forall>a. 4096 \<le> unat (a - command_buffer s) \<longrightarrow> (m(command_buffer s + i := 0)) a = heap_bytes s a)"
proof -
  let ?b = "command_buffer s" and ?line = "take 4095 xs"
  obtain m i where f: "fold uart_command_buffer_append xs s = s\<lparr>heap_bytes := m, command_buffer_index := i\<rparr>"
    and m: "\<forall>a. 4095 \<le> unat (a - ?b) \<longrightarrow> m a = heap_bytes s a"
    using fold_append_memory by blast
  have "shell_line s = []" using assms(1) by (simp add: shell_line_def read_bytes_def)
  then have line: "read_bytes m ?b (unat i) = ?line"
    using command_line.fold_contents [of s xs] assms(1) by (simp add: f shell_line_def)
  have ilen: "unat i = length ?line" using arg_cong [OF line, of length] by (simp add: read_bytes_def)
  then have i: "i = of_nat (length ?line)" unfolding ilen [symmetric] by simp
  let ?m = "m(?b + i := 0)"
  have old: "?m (?b + of_nat k) = m (?b + of_nat k)" if "k < length ?line" for k
    using offset_inj [of k "length ?line" ?b] that ilen i by auto
  have "bytes_at m ?b ?line" using line ilen by (intro bytes_at_read) simp
  then have "bytes_at ?m ?b ?line" using bytes_at_cong [of ?line ?m ?b m, OF old] by simp
  moreover have "0 \<notin> set ?line" using assms(2) by (auto simp: printable_def dest!: in_set_takeD)
  ultimately have "cstr ?m ?b ?line" by (simp add: cstr_def bytes_at_append i)
  moreover have "4096 \<le> unat (a - ?b) \<Longrightarrow> ?m a = heap_bytes s a" for a using m ilen by auto
  ultimately show ?thesis using f ilen i by blast
qed

lemma type_line:
  assumes "shell_connected s" "command_buffer_index s = 0" "\<forall>c \<in> set xs. printable c" "xs \<noteq> []"
  shows "\<exists>m. cstr m (command_buffer s) (take 4095 xs) \<and>
     (\<forall>a. 4096 \<le> unat (a - command_buffer s) \<longrightarrow> m a = heap_bytes s a) \<and>
     for_each uart_shell_handle_character (xs @ [SUPPORTED_CR]) s =
       (case find (\<lambda>i. take 4095 xs = uart_shell_commands ! i) [0..<NUMBER_OF_COMMANDS] of
          Some i \<Rightarrow> do {
            u \<leftarrow> uart_shell_command_execute (of_nat i) (line_entered xs m s);
            u \<leftarrow> uart_shell_replace_prompt (u\<lparr>prompt_placed := False\<rparr>);
            Some (uart_shell_clear_buffer u) }
        | None \<Rightarrow> do {
            u \<leftarrow> uart_shell_write (text_of ''Unknown command...'' @ crlf) (line_entered xs m s);
            Some (uart_shell_clear_buffer u) })"
proof -
  let ?f = "fold uart_command_buffer_append xs s"
  obtain m i where f: "?f = s\<lparr>heap_bytes := m, command_buffer_index := i\<rparr>"
    and i: "unat i = length (take 4095 xs)" "i = of_nat (length (take 4095 xs))"
    and cstr: "cstr (m(command_buffer s + i := 0)) (command_buffer s) (take 4095 xs)"
    and far: "\<forall>a. 4096 \<le> unat (a - command_buffer s) \<longrightarrow> (m(command_buffer s + i := 0)) a = heap_bytes s a"
    using line_stored [OF assms(2,3)] by blast
  have nz: "i \<noteq> 0" using i(1) assms(4) by (cases xs) auto
  have typed: "transmit (xs @ crlf) ?f = line_entered xs m s"
    by (simp add: f i(2) line_entered_def transmit_def)
  have run: "for_each uart_shell_handle_character (xs @ [SUPPORTED_CR]) s =
      uart_shell_command_finalize (line_entered xs m s)"
    using assms type_printable [OF assms(1,3)] fold_append_transmit [of xs xs s]
    by (simp add: for_each_snoc uart_shell_handle_character_def internal_write_transmit f
        transmit_append flip: typed)
  have sel: "command_buffer_index (line_entered xs n s) = i" "heap_bytes (line_entered xs n s) = n"
      "command_buffer (line_entered xs n s) = command_buffer s"
      "(line_entered xs m s)\<lparr>heap_bytes := n\<rparr> = line_entered xs n s" for n
    by (simp_all add: line_entered_def i(2))
  show ?thesis
    unfolding run uart_shell_command_finalize_def Let_def sel find_command [OF cstr]
    using far cstr nz by (intro exI [of _ "m(command_buffer s + i := 0)"]) simp
qed

text \<open>C2:
  A line of printable characters that ends with return is echoed, stored in the command page, cut off
  after 4095 characters, and nothing outside that page is written. If it is the name of a command, that
  command's function and no other runs, and the line is cleared when it returns; otherwise the shell
  reports an unknown command and is ready for the next line.
\<close>

theorem shell_runs_typed_line:
  assumes "shell_connected s" "command_buffer_index s = 0" "\<forall>c \<in> set xs. printable c" "xs \<noteq> []"
  shows "\<exists>m. cstr m (command_buffer s) (take 4095 xs) \<and>
     (\<forall>a. 4096 \<le> unat (a - command_buffer s) \<longrightarrow> m a = heap_bytes s a) \<and>
     (\<forall>i < NUMBER_OF_COMMANDS. take 4095 xs = uart_shell_commands ! i \<longrightarrow>
        for_each uart_shell_handle_character (xs @ [SUPPORTED_CR]) s = do {
          u \<leftarrow> (shell_command_handlers ! i) (line_entered xs m s);
          u \<leftarrow> uart_shell_replace_prompt (u\<lparr>prompt_placed := False\<rparr>);
          Some (uart_shell_clear_buffer u) }) \<and>
     (take 4095 xs \<notin> set uart_shell_commands \<longrightarrow>
        (\<exists>u. for_each uart_shell_handle_character (xs @ [SUPPORTED_CR]) s = Some u \<and>
           shell_connected u \<and> command_buffer_index u = 0 \<and> prompt_placed u \<and>
           io_log u = io_log s @ map (Out8 (com_port_addrs ! unat (shell_output_port s)))
             (xs @ crlf @ (if prompt_placed s then replicate PROMPT_LENGTH 0x08 else []) @
              text_of ''Unknown command...'' @ crlf @ SHELL_PROMPT)))"
proof -
  have len: "length uart_shell_commands = 12" by (simp add: uart_shell_commands_def)
  obtain m where m: "cstr m (command_buffer s) (take 4095 xs)"
      "\<forall>a. 4096 \<le> unat (a - command_buffer s) \<longrightarrow> m a = heap_bytes s a"
    and run: "for_each uart_shell_handle_character (xs @ [SUPPORTED_CR]) s =
       (case find (\<lambda>i. take 4095 xs = uart_shell_commands ! i) [0..<NUMBER_OF_COMMANDS] of
          Some i \<Rightarrow> do {
            u \<leftarrow> uart_shell_command_execute (of_nat i) (line_entered xs m s);
            u \<leftarrow> uart_shell_replace_prompt (u\<lparr>prompt_placed := False\<rparr>);
            Some (uart_shell_clear_buffer u) }
        | None \<Rightarrow> do {
            u \<leftarrow> uart_shell_write (text_of ''Unknown command...'' @ crlf) (line_entered xs m s);
            Some (uart_shell_clear_buffer u) })"
    using type_line [OF assms] by blast
  have known: "find (\<lambda>j. take 4095 xs = uart_shell_commands ! j) [0..<NUMBER_OF_COMMANDS] = Some i"
    if "i < NUMBER_OF_COMMANDS" "take 4095 xs = uart_shell_commands ! i" for i
    using find_nth [OF commands_distinct, of i] that len by simp
  have unknown: "find (\<lambda>j. take 4095 xs = uart_shell_commands ! j) [0..<NUMBER_OF_COMMANDS] = None"
    if "take 4095 xs \<notin> set uart_shell_commands"
    using that len by (auto simp: find_None_iff in_set_conv_nth)
  have exec: "uart_shell_command_execute (of_nat i) t = (shell_command_handlers ! i) t"
    if "i < NUMBER_OF_COMMANDS" for i and t :: "'a ahci_state_scheme"
    using that by (simp add: uart_shell_command_execute_def unat_of_nat_nowrap)
  have entered: "shell_connected (line_entered xs m s)"
      "prompt_placed (line_entered xs m s) = prompt_placed s"
      "io_log (line_entered xs m s) =
         io_log s @ map (Out8 (com_port_addrs ! unat (shell_output_port s))) (xs @ crlf)"
      "shell_output_port (line_entered xs m s) = shell_output_port s"
    using assms(1) by (simp_all add: line_entered_def)
  show ?thesis
    using m run known unknown exec entered
    by (intro exI [of _ m]) (auto simp: shell_write_transmit uart_shell_clear_buffer_def)
qed

section \<open>A sample line\<close>

definition small_shell :: ahci_state where
  "small_shell = pci_state.extend (uart_state.extend (ps2_state.extend (small_ps2 (\<lambda>_. 0))
     \<lparr>available_com_ports = (\<lambda>i. i = 1), input_masked = False, input_com_gsi = 4, input_idt_vector = 40,
      input_port = 1, uart_output_port = 1, prompt_placed = True, shell_output_port = 1,
      command_buffer = 0x7000, command_buffer_index = 0\<rparr>)
     \<lparr>pci_function_cache = 0, pci_function_cache_entries = 0, pci_cached = False\<rparr>)
     \<lparr>ahci_driver_loaded = False, ahci_controller_checked = False, hba_mem_abar = 0, ahci_pci_device = 0,
      drive_ports = 0, drive_handles = (\<lambda>_. \<lparr>port_hba = 0, port_number = 0, port_type = Port_None\<rparr>),
      ports_configured = False, halt_wakes = (\<lambda>_. False)\<rparr>"

lemma small_shell_sel [simp]:
  "io_log small_shell = []" "shell_output_port small_shell = 1" "prompt_placed small_shell"
  "command_buffer small_shell = 0x7000" "command_buffer_index small_shell = 0"
  "shell_connected small_shell"
  by (simp_all add: small_shell_def pci_state.defs uart_state.defs ps2_state.defs small_ps2_def
      call_state.defs small_call_def sched_state.defs small_sched_def tss_state.defs small_tss_def
      pool_state.defs apic_state.defs small_apic_def machine_state.defs small_machine_def
      heap_state.defs small_heap_def paging_state.defs shell_connected_def)

lemma shell_runs_typed_line_witness:
  "\<exists>u. for_each uart_shell_handle_character (text_of ''ping'' @ [SUPPORTED_CR]) small_shell = Some u \<and>
     io_log u = map (Out8 0x3F8) (text_of ''ping'' @ crlf @ text_of ''pong'' @ crlf @ SHELL_PROMPT) \<and>
     command_buffer_index u = 0"
proof -
  have 1: "\<forall>c \<in> set (text_of ''ping''). printable c" by (simp add: text_of_def printable_def of_char_def)
  have 2: "take 4095 (text_of ''ping'') = uart_shell_commands ! 1"
    by (simp add: uart_shell_commands_def text_of_def)
  have 3: "text_of ''ping'' \<noteq> []" by (simp add: text_of_def)
  obtain m where "\<forall>i < NUMBER_OF_COMMANDS. take 4095 (text_of ''ping'') = uart_shell_commands ! i \<longrightarrow>
      for_each uart_shell_handle_character (text_of ''ping'' @ [SUPPORTED_CR]) small_shell = do {
        u \<leftarrow> (shell_command_handlers ! i) (line_entered (text_of ''ping'') m small_shell);
        u \<leftarrow> uart_shell_replace_prompt (u\<lparr>prompt_placed := False\<rparr>);
        Some (uart_shell_clear_buffer u) }"
    using shell_runs_typed_line [of small_shell "text_of ''ping''",
      OF small_shell_sel(6) small_shell_sel(5) 1 3]
    by (elim exE conjE) blast
  from this [rule_format, of 1, OF _ 2]
  show ?thesis
    by (simp add: shell_command_handlers_def shell_command_ping_def line_entered_def internal_write_transmit
        replace_prompt_transmit uart_shell_clear_buffer_def com_port_addrs_def)
qed

end
