(* ===== verification/Printf_Props.thy ===== *)
theory Printf_Props
  imports Printf
begin

text \<open>
  Printed numbers against positional notation, the reference that \<open>itoa\<close> and \<open>utoa\<close> are compared
  with as well.
\<close>

lemma int_str_digits_text:
  assumes "2 \<le> base" and "\<And>d. d < base \<Longrightarrow> digit d = digit_chars ! d"
  shows "int_str_digits digit base n = numeral_text base n"
  using assms
proof (induction digit base n rule: int_str_digits.induct)
  case (1 digit base n)
  show ?case
  proof (cases "n < base")
    case True
    then show ?thesis
      using 1 by (subst int_str_digits.simps) (simp add: numeral_text_def digits_of_less)
  next
    case False
    then have "n div base \<noteq> 0" using 1(2) by (simp add: div_eq_0_iff)
    then have "int_str_digits digit base n = numeral_text base (n div base) @ [digit_chars ! (n mod base)]"
      using 1 by (subst int_str_digits.simps) simp
    then show ?thesis using False 1(2) by (simp add: numeral_text_def digits_of_step)
  qed
qed

lemma digit_tables:
  "d < 10 \<Longrightarrow> int_str_digit 10 d = digit_chars ! d" "d < 16 \<Longrightarrow> int_str_digit 17 d = digit_chars ! d"
proof -
  have "\<forall>d \<in> set [0..<10]. int_str_digit 10 d = digit_chars ! d"
    by (simp add: int_str_digit_def digit_chars_def text_of_def upt_conv_Cons)
  then show "d < 10 \<Longrightarrow> int_str_digit 10 d = digit_chars ! d" by simp
  have "\<forall>d \<in> set [0..<16]. int_str_digit 17 d = digit_chars ! d"
    by (simp add: int_str_digit_def digit_chars_def text_of_def upt_conv_Cons)
  then show "d < 16 \<Longrightarrow> int_str_digit 17 d = digit_chars ! d" by simp
qed

lemma int_str_numerals:
  "int_str_digits (int_str_digit 10) 10 n = numeral_text 10 n"
  "int_str_digits (int_str_digit 17) 16 n = numeral_text 16 n"
  by (rule int_str_digits_text; simp add: digit_tables)+

lemma numeral_text_length:
  assumes "2 \<le> b" and "n < 2 ^ 64"
  shows "length (numeral_text b n) \<le> 64"
proof -
  have "(2 :: nat) ^ 64 \<le> b ^ 64" using assms(1) by (rule power_mono) simp
  then show ?thesis using length_digits_of [of b 64 n] assms by simp
qed

text \<open>Without flags and width the number is printed with its sign only.\<close>

lemma int_str_plain:
  assumes "base = 10 \<or> base = 17" and "\<bar>i\<bar> < 2 ^ 63"
  shows "int_str i base False False 0 left zero =
    Some ((if i < 0 then text_of ''-'' else []) @ numeral_text (if base = 17 then 16 else base) (nat \<bar>i\<bar>))"
proof -
  have "nat \<bar>i\<bar> < 2 ^ 64" using assms(2) by simp
  then have "length (numeral_text (if base = 17 then 16 else base) (nat \<bar>i\<bar>)) \<le> 64"
    using assms(1) by (intro numeral_text_length) auto
  moreover have "int_str_digits (int_str_digit base) (if base = 17 then 16 else base) (nat \<bar>i\<bar>) =
      numeral_text (if base = 17 then 16 else base) (nat \<bar>i\<bar>)"
    using assms(1) by (auto simp: int_str_numerals)
  moreover have "i \<noteq> - (2 ^ 63)" using assms(2) by auto
  ultimately show ?thesis
    by (cases "base = 17"; cases "i < 0") (auto simp: int_str_def Let_def text_of_def)
qed

lemma numeral_text_nonzero: "2 \<le> b \<Longrightarrow> b \<le> 16 \<Longrightarrow> 0 \<notin> set (numeral_text b n)"
proof -
  assume b: "2 \<le> b" "b \<le> 16"
  have nz: "\<forall>d \<in> set [0..<16]. digit_chars ! d \<noteq> 0" by (simp add: digit_chars_def upt_conv_Cons)
  have "\<forall>d \<in> set (digits_of b n). d < b" using b
  proof (induction b n rule: digits_of.induct)
    case (1 b n)
    then show ?case by (subst digits_of.simps) auto
  qed
  then show ?thesis using nz b by (fastforce simp: numeral_text_def)
qed

lemma display_numeral:
  assumes "2 \<le> b" and "b \<le> 16"
  shows "display ((if neg then text_of ''-'' else []) @ numeral_text b n) ([], 0) =
    ((if neg then text_of ''-'' else []) @ numeral_text b n,
     length ((if neg then text_of ''-'' else []) @ numeral_text b n))"
proof -
  have "filter (\<lambda>c. c \<noteq> 0) (numeral_text b n) = numeral_text b n"
    using numeral_text_nonzero [OF assms, of n] by (simp add: filter_id_conv) (metis)
  then show ?thesis by (simp add: display_def text_of_def)
qed

section \<open>Plain conversions\<close>

text \<open>The texts of \<open>%d\<close> and \<open>%x\<close>; all formats of the kernel consist of these and \<open>%s\<close>.\<close>

definition dec_text :: "u64 \<Rightarrow> u8 list" where
  "dec_text w = (let i = sint (ucast w :: u32)
     in (if i < 0 then text_of ''-'' else []) @ numeral_text 10 (nat \<bar>i\<bar>))"

definition hex_text :: "u64 \<Rightarrow> u8 list" where
  "hex_text w = numeral_text 16 (unat w mod 2 ^ 32)"

abbreviation conversions :: "u8 set" where
  "conversions \<equiv> {of_char CHR ''d'', of_char CHR ''x'', of_char CHR ''s''}"

lemma parse_plain: "c \<in> conversions \<Longrightarrow> printf_parse (c # cs) args = Some (no_spec, c # cs, args)"
  by (elim insertE emptyE)
    (simp_all add: printf_parse_def printf_star_def printf_precision_def printf_length_def isdigit_def
      text_of_def no_spec_def)

lemma convert_dec: "printf_convert no_spec (of_char CHR ''d'') (Va_Int w # args) = Some (dec_text w, args)"
proof -
  let ?i = "sint (ucast w :: u32)"
  have "- (2 ^ 31) \<le> ?i" "?i < 2 ^ 31"
    using sint_ge [of "ucast w :: u32"] sint_lt [of "ucast w :: u32"] by simp_all
  then have "\<bar>?i\<bar> < 2 ^ 63" by simp
  from int_str_plain [of 10, OF _ this] show ?thesis
    by (simp add: printf_convert_def printf_integer_def va_signed_def no_spec_def dec_text_def)
qed

lemma convert_hex: "printf_convert no_spec (of_char CHR ''x'') (Va_Int w # args) = Some (hex_text w, args)"
proof -
  let ?i = "uint (ucast w :: u32)"
  have i: "\<bar>?i\<bar> < 2 ^ 63" "nat \<bar>?i\<bar> = unat w mod 2 ^ 32" "\<not> ?i < 0"
    using uint_lt2p [of "ucast w :: u32"]
    by (simp_all add: unsigned_ucast_eq take_bit_eq_mod nat_mod_distrib flip: unat_eq_nat_uint)
  then show ?thesis
    using int_str_plain [of 17 ?i False False]
    by (simp add: printf_convert_def printf_integer_def va_unsigned_def no_spec_def with_prefix_def hex_text_def)
qed

lemma convert_str: "printf_convert no_spec (of_char CHR ''s'') (Va_Str t # args) = Some (t, args)"
  by (simp add: printf_convert_def)

lemma dec_text_nonzero: "filter (\<lambda>c. c \<noteq> 0) (dec_text w) = dec_text w"
  using numeral_text_nonzero [of 10] by (auto simp: dec_text_def Let_def text_of_def filter_id_conv)

lemma hex_text_nonzero: "filter (\<lambda>c. c \<noteq> 0) (hex_text w) = hex_text w"
  using numeral_text_nonzero [of 16] by (auto simp: hex_text_def filter_id_conv)

section \<open>Typed formats\<close>

text \<open>
  A format is typed when it has plain conversions only and the arguments are, in order, of the kinds
  that these ask for; \<open>printf_output\<close> is what it means.
\<close>

fun fits :: "u8 \<Rightarrow> va_arg \<Rightarrow> bool" where
  "fits c (Va_Int w) \<longleftrightarrow> c = of_char CHR ''d'' \<or> c = of_char CHR ''x''"
| "fits c (Va_Str t) \<longleftrightarrow> c = of_char CHR ''s''"

fun printf_typed :: "u8 list \<Rightarrow> va_arg list \<Rightarrow> bool" where
  "printf_typed [] args \<longleftrightarrow> True"
| "printf_typed [c] args \<longleftrightarrow> c \<noteq> of_char CHR ''%''"
| "printf_typed (c # d # cs) args \<longleftrightarrow>
     (if c \<noteq> of_char CHR ''%'' then printf_typed (d # cs) args
      else case args of [] \<Rightarrow> False | a # as \<Rightarrow> fits d a \<and> printf_typed cs as)"

fun plain_text :: "u8 \<Rightarrow> va_arg \<Rightarrow> u8 list" where
  "plain_text c (Va_Int w) = (if c = of_char CHR ''d'' then dec_text w else hex_text w)"
| "plain_text c (Va_Str t) = t"

fun printf_output :: "u8 list \<Rightarrow> va_arg list \<Rightarrow> u8 list" where
  "printf_output [] args = []"
| "printf_output [c] args = [c]"
| "printf_output (c # d # cs) args =
     (if c \<noteq> of_char CHR ''%'' then c # printf_output (d # cs) args
      else case args of [] \<Rightarrow> [] | a # as \<Rightarrow> plain_text d a @ printf_output cs as)"

lemma convert_fits: "fits d a \<Longrightarrow> printf_convert no_spec d (a # args) = Some (plain_text d a, args)"
  using convert_dec convert_hex convert_str by (cases a) auto

lemma fits_conversion: "fits d a \<Longrightarrow> d \<in> conversions"
  by (cases a) auto

lemma display_append: "display ys (display xs r) = display (xs @ ys) r"
  by (cases r) (simp add: display_def)

lemma vprintf_typed: "printf_typed fmt args \<Longrightarrow> vprintf fmt args r = Some (display (printf_output fmt args) r)"
proof (induction fmt args arbitrary: r rule: printf_typed.induct)
  case (1 args)
  then show ?case by (cases r) (simp add: display_def)
next
  case (2 c args)
  then show ?case by (simp add: vprintf.simps)
next
  case (3 c d cs args)
  show ?case
  proof (cases "c = of_char CHR ''%''")
    case False
    then show ?thesis using 3 by (simp add: vprintf.simps(2) [of c] display_append)
  next
    case True
    then obtain a as where a: "args = a # as" "fits d a" "printf_typed cs as"
      using 3(3) by (cases args) auto
    then show ?thesis
      using 3(2) [of a as] True parse_plain [OF fits_conversion [OF a(2)]] convert_fits [OF a(2)]
        vprintf.simps(2) [of c "d # cs" args r]
      by (simp add: display_append)
  qed
qed

lemma printf_text_typed:
  "printf_typed fmt args \<Longrightarrow>
   printf_text fmt args = Some (filter (\<lambda>c. c \<noteq> 0) (printf_output fmt args), length (printf_output fmt args))"
  by (simp add: printf_text_def vprintf_typed display_def)

lemma printf_decimal:
  "printf_text (text_of ''%d'') [Va_Int w] =
     (let i = sint (ucast w :: u32); t = (if i < 0 then text_of ''-'' else []) @ numeral_text 10 (nat \<bar>i\<bar>)
      in Some (t, length t))"
proof -
  have "printf_text (text_of ''%d'') [Va_Int w] = Some (dec_text w, length (dec_text w))"
    using printf_text_typed [of "text_of ''%d''" "[Va_Int w]"] by (simp add: text_of_def dec_text_nonzero)
  then show ?thesis by (simp add: dec_text_def Let_def)
qed

text \<open>C21:
  Formatted output does not get stuck on a typed format: it prints the format with the conversions
  \<open>%d\<close>, \<open>%x\<close> and \<open>%s\<close> replaced by the texts of their arguments (the low 32 bits as a signed decimal
  number, as a hexadecimal number, the string), and returns the number of characters.
\<close>

theorem printf_typed_prints:
  "printf_typed fmt args \<Longrightarrow>
   printf_text fmt args = Some (filter (\<lambda>c. c \<noteq> 0) (printf_output fmt args), length (printf_output fmt args))"
  by (rule printf_text_typed)

lemma printf_typed_prints_witness:
  "printf_text (text_of ''pid %d: %s'') [Va_Int (- 12), Va_Str (text_of ''EXEC'')] =
     Some (text_of ''pid -12: EXEC'', 13)"
proof -
  have typed: "printf_typed (text_of ''pid %d: %s'') [Va_Int (- 12), Va_Str (text_of ''EXEC'')]"
    by (simp add: text_of_def)
  have "dec_text (- 12) = text_of ''-12''"
    by (simp add: dec_text_def text_of_def numeral_text_def digits_of.simps digit_chars_def)
  then have "printf_output (text_of ''pid %d: %s'') [Va_Int (- 12), Va_Str (text_of ''EXEC'')] =
      text_of ''pid -12: EXEC''"
    by (simp add: text_of_def)
  then show ?thesis using printf_typed_prints [OF typed] by (simp add: text_of_def)
qed

section \<open>Long numbers\<close>

lemma sint_64: "sint (w :: u64) = (if w < 0x8000000000000000 then uint w else uint w - 2 ^ 64)"
proof -
  have r: "- (2 ^ 63) \<le> sint w" "sint w < 2 ^ 63" using sint_greater_eq [of w] sint_less [of w] by simp_all
  have u: "uint w = sint w mod 2 ^ 64" by (simp add: uint_sint take_bit_eq_mod)
  have "uint w = (if sint w < 0 then sint w + 2 ^ 64 else sint w)"
  proof (cases "sint w < 0")
    case True
    have "sint w mod 2 ^ 64 = (sint w + 2 ^ 64) mod 2 ^ 64" by simp
    also have "\<dots> = sint w + 2 ^ 64" using True r by (intro mod_pos_pos_trivial) simp_all
    finally show ?thesis using True u by simp
  qed (use r u in simp)
  then show ?thesis using r by (auto simp: word_less_def split: if_splits)
qed

lemma printf_lx:
  "printf_text (text_of ''%lx'') [Va_Int w] =
     map_option (\<lambda>t. display t ([], 0)) (int_str (sint w) 17 False False 0 False False)"
proof -
  let ?sp = "no_spec\<lparr>len_mod := of_char CHR ''l''\<rparr>"
  have parse: "printf_parse (text_of ''lx'') [Va_Int w] = Some (?sp, text_of ''x'', [Va_Int w])"
    by (simp add: printf_parse_def printf_star_def printf_precision_def printf_length_def isdigit_def
        text_of_def no_spec_def)
  have conv: "printf_convert ?sp (of_char CHR ''x'') [Va_Int w] =
      map_option (\<lambda>t. (t, [])) (int_str (sint w) 17 False False 0 False False)"
    by (cases "int_str (sint w) 17 False False 0 False False")
      (simp_all add: printf_convert_def printf_integer_def va_unsigned_def no_spec_def with_prefix_def text_of_def)
  show ?thesis
    using parse conv by (cases "int_str (sint w) 17 False False 0 False False")
      (simp_all add: printf_text_def text_of_def vprintf.simps)
qed

lemma int_str_sint:
  "int_str (sint (w :: u64)) 17 False False 0 False False =
     (if w = 0x8000000000000000 then None
      else Some (if w < 0x8000000000000000 then numeral_text 16 (unat w)
                 else text_of ''-'' @ numeral_text 16 (2 ^ 64 - unat w)))"
proof (cases "w = 0x8000000000000000")
  case True
  then show ?thesis by (simp add: int_str_def sint_64)
next
  case False
  then have "uint w < 2 ^ 64" "uint w \<noteq> 2 ^ 63"
    using uint_lt2p [of w] by (simp_all add: word_uint_eq_iff)
  then have "\<bar>sint w\<bar> < 2 ^ 63" by (auto simp: sint_64 word_less_def)
  moreover have "sint w < 0 \<longleftrightarrow> \<not> w < 0x8000000000000000"
    using uint_lt2p [of w] by (auto simp: sint_64 word_less_def)
  moreover have "nat (2 ^ 64 - uint w) = 2 ^ 64 - unat w"
    using nat_diff_distrib [of "uint w" "2 ^ 64"] uint_lt2p [of w] by simp
  then have "nat \<bar>sint w\<bar> = (if w < 0x8000000000000000 then unat w else 2 ^ 64 - unat w)"
    using uint_lt2p [of w] by (simp add: sint_64)
  ultimately show ?thesis using False int_str_plain [of 17 "sint w" False False] by simp
qed

text \<open>C39:
  \<open>%x\<close> prints the low 32 bits of its argument only, so of a kernel address the lower half; \<open>%lx\<close>
  prints all 64 bits, but as a signed number: from \<open>2 ^ 63\<close> on, where the kernel's addresses are, a
  minus and the complement, and \<open>2 ^ 63\<close> itself overflows.
\<close>

theorem printf_hex_addresses:
  "printf_text (text_of ''%x'') [Va_Int w] =
     (let t = numeral_text 16 (unat w mod 2 ^ 32) in Some (t, length t)) \<and>
   printf_text (text_of ''%lx'') [Va_Int w] =
     (if w = 0x8000000000000000 then None
      else let t = (if w < 0x8000000000000000 then numeral_text 16 (unat w)
                    else text_of ''-'' @ numeral_text 16 (2 ^ 64 - unat w))
           in Some (t, length t))"
proof
  have "printf_text (text_of ''%x'') [Va_Int w] = Some (hex_text w, length (hex_text w))"
    using printf_text_typed [of "text_of ''%x''" "[Va_Int w]"] by (simp add: text_of_def hex_text_nonzero)
  then show "printf_text (text_of ''%x'') [Va_Int w] =
     (let t = numeral_text 16 (unat w mod 2 ^ 32) in Some (t, length t))"
    by (simp add: hex_text_def Let_def)
  show "printf_text (text_of ''%lx'') [Va_Int w] =
     (if w = 0x8000000000000000 then None
      else let t = (if w < 0x8000000000000000 then numeral_text 16 (unat w)
                    else text_of ''-'' @ numeral_text 16 (2 ^ 64 - unat w))
           in Some (t, length t))"
    using display_numeral [of 16 True] display_numeral [of 16 False]
    by (simp add: printf_lx int_str_sint Let_def)
qed

end
