(* ===== verification/Task_Props.thy ===== *)
theory Task_Props
  imports Calls_Props
begin

text \<open>
  What the scheduler does with a well-formed list of tasks.
\<close>

section \<open>The list of tasks\<close>

fun task_chain :: "(u64 \<Rightarrow> linked_task) \<Rightarrow> u64 \<Rightarrow> u64 list \<Rightarrow> bool" where
  "task_chain m p [] \<longleftrightarrow> p = 0"
| "task_chain m p (q # qs) \<longleftrightarrow> p = q \<and> p \<noteq> 0 \<and> task_chain m (lt_next (m p)) qs"

abbreviation task_at :: "'z sched_state_scheme \<Rightarrow> u64 \<Rightarrow> task" where
  "task_at s p \<equiv> task_mem s (lt_task (task_links s p))"

definition task_ids :: "u64 list \<Rightarrow> 'z sched_state_scheme \<Rightarrow> u64 list" where
  "task_ids ps s = map (\<lambda>p. task_id (task_at s p)) ps"

text \<open>The nodes and tasks are distinct, the identifiers too, and every task has a context and a GS block.\<close>

definition sched_wf :: "u64 list \<Rightarrow> 'z sched_state_scheme \<Rightarrow> bool" where
  "sched_wf ps s \<longleftrightarrow> task_chain (task_links s) (tasks s) ps \<and> distinct (task_ids ps s) \<and>
     (\<forall>p \<in> set ps. lt_task (task_links s p) \<noteq> 0 \<and> task_ctx (task_at s p) \<noteq> 0 \<and> task_gs_base (task_at s p) \<noteq> 0) \<and>
     msr s IA32_GS_BASE \<noteq> 0"

lemma task_find_chain:
  "task_chain (task_links s) p ps \<Longrightarrow> \<forall>p \<in> set ps. lt_task (task_links s p) \<noteq> 0 \<Longrightarrow> \<exists>q. task_find p i s = Some q \<and>
     (if i \<in> set (task_ids ps s) then q \<in> set ps \<and> q \<noteq> 0 \<and> task_id (task_at s q) = i else q = 0)"
proof (induction ps arbitrary: p)
  case Nil
  then show ?case by (simp add: task_find.simps task_ids_def)
next
  case (Cons q qs)
  from Cons.IH [of "lt_next (task_links s q)"] Cons.prems obtain r where
    "task_find (lt_next (task_links s q)) i s = Some r"
    "if i \<in> set (task_ids qs s) then r \<in> set qs \<and> r \<noteq> 0 \<and> task_id (task_at s r) = i else r = 0"
    by auto
  then show ?case using Cons.prems
    by (cases "task_id (task_at s q) = i") (auto simp: task_find.simps [of q] task_ids_def split: if_splits)
qed

lemma task_find_current:
  assumes "task_chain (task_links s) (tasks s) ps" "\<forall>p \<in> set ps. lt_task (task_links s p) \<noteq> 0"
    "distinct (task_ids ps s)" "q \<in> set ps"
  shows "task_find (tasks s) (task_id (task_at s q)) s = Some q"
proof -
  have "task_id (task_at s q) \<in> set (task_ids ps s)" using assms(4) by (auto simp: task_ids_def)
  then obtain r where r: "task_find (tasks s) (task_id (task_at s q)) s = Some r" "r \<in> set ps"
      "task_id (task_at s r) = task_id (task_at s q)"
    using task_find_chain [OF assms(1,2)] by fastforce
  then have "r = q" using assms(3,4) by (auto simp: task_ids_def distinct_map dest: inj_onD)
  then show ?thesis using r(1) by simp
qed

lemma task_chain_nonzero: "task_chain m p ps \<Longrightarrow> q \<in> set ps \<Longrightarrow> q \<noteq> 0"
  by (induction ps arbitrary: p) auto

lemma task_chain_last:
  "task_chain m p ps \<Longrightarrow> distinct ps \<Longrightarrow> q \<in> set ps \<Longrightarrow> lt_next (m q) = 0 \<longleftrightarrow> q = last ps"
proof (induction ps arbitrary: p)
  case (Cons a as)
  then show ?case by (cases as) auto
qed simp

lemma sched_wf_distinct:
  assumes "sched_wf ps s"
  shows "distinct ps" "inj_on (\<lambda>p. lt_task (task_links s p)) (set ps)"
  using assms by (auto simp: sched_wf_def task_ids_def distinct_map inj_on_def)

section \<open>Changing states\<close>

lemma task_set_state_run:
  assumes wf: "sched_wf ps s"
  shows "\<exists>t. task_set_state v i s = Some t \<and> sched_wf ps t \<and> current_task_id t = current_task_id s \<and>
    (\<forall>p \<in> set ps. task_at t p = (task_at s p)\<lparr>task_state := if task_id (task_at s p) = i then v
       else task_state (task_at s p)\<rparr>)"
proof -
  have chain: "task_chain (task_links s) (tasks s) ps" "\<forall>p \<in> set ps. lt_task (task_links s p) \<noteq> 0"
    using wf by (simp_all add: sched_wf_def)
  obtain q where q: "task_find (tasks s) i s = Some q"
    "if i \<in> set (task_ids ps s) then q \<in> set ps \<and> q \<noteq> 0 \<and> task_id (task_at s q) = i else q = 0"
    using task_find_chain [OF chain] by blast
  show ?thesis
  proof (cases "i \<in> set (task_ids ps s)")
    case False
    then have "task_set_state v i s = Some s" using q by (simp add: task_set_state_def)
    moreover have "\<forall>p \<in> set ps. task_id (task_at s p) \<noteq> i" using False by (auto simp: task_ids_def)
    ultimately show ?thesis using wf by simp
  next
    case True
    then have q': "q \<in> set ps" "q \<noteq> 0" "task_id (task_at s q) = i" using q(2) by auto
    let ?a = "lt_task (task_links s q)"
    let ?t = "s\<lparr>task_mem := (task_mem s)(?a := (task_mem s ?a)\<lparr>task_state := v\<rparr>)\<rparr>"
    have a: "?a \<noteq> 0" using wf q'(1) by (simp add: sched_wf_def)
    have same: "task_at ?t p = (task_at s p)\<lparr>task_state := if task_id (task_at s p) = i then v
       else task_state (task_at s p)\<rparr>" if "p \<in> set ps" for p
    proof (cases "p = q")
      case False
      then have "lt_task (task_links s p) \<noteq> ?a" "task_id (task_at s p) \<noteq> i"
        using sched_wf_distinct [OF wf] that q' wf
        by (auto simp: inj_on_def sched_wf_def task_ids_def distinct_map)
      then show ?thesis by simp
    qed (use q' in simp)
    have "sched_wf ps ?t"
      using wf same by (auto simp: sched_wf_def task_ids_def cong: map_cong)
    moreover have "task_set_state v i s = Some ?t" using q(1) q'(2) a by (simp add: task_set_state_def task_put_def)
    ultimately show ?thesis using same by auto
  qed
qed

text \<open>
  Putting a task to sleep, waking it or killing it sets the state of the task with that identifier and of
  no other, changes nothing else, and does nothing for an unknown identifier.
\<close>

theorem task_states_exact:
  assumes "sched_wf ps s"
  shows "\<forall>(f, v) \<in> {(task_schedule, TASK_STATE_WAITING), (task_sleep, TASK_STATE_SLEEPING), (task_kill, TASK_STATE_DEAD)}.
    \<exists>t. f i s = Some t \<and> sched_wf ps t \<and> current_task_id t = current_task_id s \<and>
      (\<forall>p \<in> set ps. task_at t p = (task_at s p)\<lparr>task_state := if task_id (task_at s p) = i then v
         else task_state (task_at s p)\<rparr>)"
  using task_set_state_run [OF assms, of _ i] by (simp add: task_schedule_def task_sleep_def task_kill_def)

section \<open>The timer\<close>

text \<open>\<open>k\<close> ticks of the timer.\<close>

primrec scheduler_ticks :: "nat \<Rightarrow> 'z sched_state_scheme \<Rightarrow> 'z sched_state_scheme option" where
  "scheduler_ticks 0 s = Some s"
| "scheduler_ticks (Suc k) s = do { (i, s) \<leftarrow> task_select_next s; scheduler_ticks k s }"

definition tick_target :: "u64 list \<Rightarrow> 'z sched_state_scheme \<Rightarrow> u64" where
  "tick_target ps s = (if current_task_id s = task_id (task_at s (last ps)) then task_id (task_at s (hd ps))
     else current_task_id s)"

lemma task_select_next_run:
  assumes wf: "sched_wf ps s" and cur: "current_task_id s \<in> set (task_ids ps s)"
  shows "\<exists>t. task_select_next s = Some (tick_target ps s, t) \<and> sched_wf ps t \<and> task_ids ps t = task_ids ps s \<and>
    current_task_id t = tick_target ps s \<and>
    (\<forall>p \<in> set ps. task_state (task_at t p) =
      (if task_id (task_at s p) = tick_target ps s then TASK_STATE_EXECUTION
       else if task_id (task_at s p) = current_task_id s then TASK_STATE_WAITING
       else task_state (task_at s p)))"
proof -
  obtain q where q: "q \<in> set ps" "current_task_id s = task_id (task_at s q)"
    using cur by (auto simp: task_ids_def)
  have chain: "task_chain (task_links s) (tasks s) ps" and ids: "distinct (task_ids ps s)"
    and gs: "\<And>p. p \<in> set ps \<Longrightarrow> lt_task (task_links s p) \<noteq> 0 \<and> task_ctx (task_at s p) \<noteq> 0 \<and>
        task_gs_base (task_at s p) \<noteq> 0" "msr s IA32_GS_BASE \<noteq> 0"
    and tasks: "\<forall>p \<in> set ps. lt_task (task_links s p) \<noteq> 0"
    using wf by (auto simp: sched_wf_def)
  have found: "task_find (tasks s) (current_task_id s) s = Some q"
    using task_find_current [OF chain tasks ids q(1)] q(2) by simp
  have ne: "ps \<noteq> []" and hd: "tasks s = hd ps" "tasks s \<noteq> 0"
    using q(1) chain by (cases ps; auto)+
  define r where "r = (if q = last ps then hd ps else q)"
  have r: "r \<in> set ps" "(if lt_next (task_links s q) = 0 then tasks s else q) = r"
    using q(1) ne task_chain_last [OF chain sched_wf_distinct(1) [OF wf] q(1)] hd by (auto simp: r_def)
  have last: "q = last ps \<longleftrightarrow> current_task_id s = task_id (task_at s (last ps))"
    using ids q ne by (auto simp: task_ids_def distinct_map dest: inj_onD)
  have target: "tick_target ps s = task_id (task_at s r)" using q(2) last by (auto simp: tick_target_def r_def)
  have q0: "q \<noteq> 0" using found chain q(1) task_chain_nonzero [OF chain] by blast
  let ?a = "lt_task (task_links s q)" and ?b = "lt_task (task_links s r)"
  have ab: "?a = ?b \<longleftrightarrow> q = r" using sched_wf_distinct(2) [OF wf] q(1) r(1) by (auto simp: inj_on_def)
  define g where "g = (if q = r then msr s IA32_GS_BASE else task_gs_base (task_at s r))"
  define m where "m = (task_mem s)(?a := (task_mem s ?a)\<lparr>task_state := TASK_STATE_WAITING, task_gs_base := msr s IA32_GS_BASE\<rparr>)"
  define n where "n = m(?b := (m ?b)\<lparr>task_state := TASK_STATE_EXECUTION\<rparr>)"
  have nb: "task_gs_base (n ?b) = g" "task_id (n ?b) = task_id (task_at s r)" "task_ctx (n ?b) \<noteq> 0"
    using ab gs(1) [OF r(1)] by (auto simp: n_def m_def g_def)
  have g0: "g \<noteq> 0" using gs r(1) by (simp add: g_def)
  define t where "t = s\<lparr>task_mem := n, current_task_id := tick_target ps s,
      msr := (msr s)(IA32_GS_BASE := g, IA32_KERNEL_GS_BASE := 0),
      gs_mem := (gs_mem s)(g := (gs_mem s g)\<lparr>gs_tss := 0, gs_ctx := task_ctx (n ?b), gs_pid := task_id (n ?b),
        gs_rsp := tss_rsp (tss_descriptor s) 0, gs_pc := ctx_rip (ctx_mem s (task_ctx (n ?b)))\<rparr>)\<rparr>"
  have put1: "task_put (\<lambda>t. t\<lparr>task_state := TASK_STATE_WAITING, task_gs_base := msr s IA32_GS_BASE\<rparr>) ?a s =
      Some (s\<lparr>task_mem := m\<rparr>)"
    using gs(1) [OF q(1)] by (simp add: task_put_def m_def)
  have put2: "task_put (task_state_update (\<lambda>_. TASK_STATE_EXECUTION)) ?b (s\<lparr>task_mem := m\<rparr>) =
      Some (s\<lparr>task_mem := n\<rparr>)"
    using gs(1) [OF r(1)] by (simp add: task_put_def n_def)
  have put3: "gs_put (\<lambda>b. b\<lparr>gs_tss := 0, gs_ctx := task_ctx (n ?b), gs_pid := task_id (n ?b),
        gs_rsp := tss_rsp (tss_descriptor s) 0, gs_pc := ctx_rip (ctx_mem s (task_ctx (n ?b)))\<rparr>) g
      (s\<lparr>task_mem := n, current_task_id := tick_target ps s,
         msr := (msr s)(IA32_GS_BASE := g, IA32_KERNEL_GS_BASE := 0)\<rparr>) = Some t"
    using g0 by (simp add: gs_put_def t_def)
  have r2: "(if lt_next (task_links s q) = 0 then tasks (s\<lparr>task_mem := m\<rparr>) else q) = r" using r(2) by (simp split: if_splits)
  have run: "task_select_next s = Some (tick_target ps s, t)"
    unfolding task_select_next_def rdmsr_eq wrmsr_eq Let_def
    using found q0 hd(2) put1 put2 put3 r2 nb target by (simp split del: if_split) (simp add: t_def target)
  have at: "task_at t p = (task_at s p)\<lparr>task_state := (if p = r then TASK_STATE_EXECUTION
       else if p = q then TASK_STATE_WAITING else task_state (task_at s p)),
       task_gs_base := (if p = q then msr s IA32_GS_BASE else task_gs_base (task_at s p))\<rparr>" if "p \<in> set ps" for p
  proof -
    have "lt_task (task_links s p) = ?a \<longleftrightarrow> p = q" "lt_task (task_links s p) = ?b \<longleftrightarrow> p = r"
      using sched_wf_distinct(2) [OF wf] q(1) r(1) that by (auto simp: inj_on_def)
    then show ?thesis using ab by (auto simp: t_def n_def m_def)
  qed
  have same: "task_ids ps t = task_ids ps s" using at by (simp add: task_ids_def cong: map_cong)
  have "sched_wf ps t"
    using wf same at gs g0 by (auto simp: sched_wf_def) (auto simp: t_def)
  moreover have "p = r \<longleftrightarrow> task_id (task_at s p) = tick_target ps s"
    "p = q \<longleftrightarrow> task_id (task_at s p) = current_task_id s" if "p \<in> set ps" for p
    using ids q r(1) that by (auto simp: target task_ids_def distinct_map dest: inj_onD)
  moreover have "current_task_id t = tick_target ps s" by (simp add: t_def)
  ultimately show ?thesis using run same at by auto
qed

lemma tick_target_stays:
  assumes "sched_wf ps s" "2 \<le> length ps" "tick_target ps s = current_task_id t" "task_ids ps t = task_ids ps s"
    "current_task_id s \<in> set (task_ids ps s)"
  shows "tick_target ps t = current_task_id t" "current_task_id t \<in> set (task_ids ps t)"
proof -
  have ne: "ps \<noteq> []" "hd ps \<noteq> last ps"
    using assms(2) sched_wf_distinct(1) [OF assms(1)] by (cases ps; auto)+
  have at: "task_id (task_at t p) = task_id (task_at s p)" if "p \<in> set ps" for p
    using assms(4) that by (auto simp: task_ids_def)
  have "task_id (task_at s (hd ps)) \<noteq> task_id (task_at s (last ps))"
    using assms(1) ne by (auto simp: sched_wf_def task_ids_def distinct_map dest: inj_onD)
  then show "tick_target ps t = current_task_id t"
    using assms(3) at ne(1) by (auto simp: tick_target_def split: if_splits)
  show "current_task_id t \<in> set (task_ids ps t)"
    using assms(3,5) hd_in_set [OF ne(1)] unfolding assms(4) assms(3) [symmetric]
    by (auto simp: tick_target_def task_ids_def)
qed

lemma scheduler_ticks_stay:
  assumes "2 \<le> length ps" "sched_wf ps s" "current_task_id s \<in> set (task_ids ps s)" "tick_target ps s = current_task_id s"
  shows "\<exists>t. scheduler_ticks k s = Some t \<and> sched_wf ps t \<and> task_ids ps t = task_ids ps s \<and>
    current_task_id t = current_task_id s"
  using assms(2-4)
proof (induction k arbitrary: s)
  case (Suc k)
  obtain t where t: "task_select_next s = Some (tick_target ps s, t)" "sched_wf ps t" "task_ids ps t = task_ids ps s"
      "current_task_id t = tick_target ps s"
    using task_select_next_run [OF Suc.prems(1,2)] by blast
  note stays = tick_target_stays [OF Suc.prems(1) assms(1) t(4) [symmetric] t(3) Suc.prems(2)]
  show ?case using Suc.IH [OF t(2) stays(2,1)] t Suc.prems(3) by auto
qed simp

lemma task_set_state_tick:
  assumes "sched_wf ps t" "current_task_id t \<in> set (task_ids ps t)" "tick_target ps t = current_task_id t" "2 \<le> length ps"
  shows "\<exists>u v. task_set_state x (current_task_id t) t = Some u \<and> task_select_next u = Some (current_task_id t, v) \<and>
    (\<forall>p \<in> set ps. task_id (task_at u p) = current_task_id t \<longrightarrow> task_state (task_at v p) = TASK_STATE_EXECUTION)"
proof -
  obtain u where u: "task_set_state x (current_task_id t) t = Some u" "sched_wf ps u"
      "current_task_id u = current_task_id t"
      "\<forall>p \<in> set ps. task_id (task_at u p) = task_id (task_at t p)"
    using task_set_state_run [OF assms(1), of x "current_task_id t"] by fastforce
  have ids: "task_ids ps u = task_ids ps t" using u(4) by (simp add: task_ids_def)
  have "ps \<noteq> []" using assms(4) by auto
  then have "tick_target ps u = current_task_id t"
    using assms(3) u(3,4) by (auto simp: tick_target_def split: if_splits)
  moreover have "current_task_id u \<in> set (task_ids ps u)" using assms(2) u(3) ids by simp
  ultimately show ?thesis using task_select_next_run [OF u(2)] u(1) by fastforce
qed

text \<open>C30:
  The scheduler gives the processor from the last task of the list to the first one and otherwise leaves it
  where it is. So with two tasks or more, the task that runs after one tick of the timer runs for ever, also
  when it is put to sleep or killed in between: its state is then set to running again.
\<close>

theorem task_select_next_sticks:
  assumes "sched_wf ps s" "current_task_id s \<in> set (task_ids ps s)" "2 \<le> length ps"
  shows "\<exists>t. scheduler_ticks (Suc k) s = Some t \<and> sched_wf ps t \<and>
    current_task_id t = (if current_task_id s = task_id (task_at s (last ps)) then task_id (task_at s (hd ps))
      else current_task_id s) \<and>
    (\<forall>f \<in> {task_sleep, task_kill}. \<exists>u v. f (current_task_id t) t = Some u \<and>
       task_select_next u = Some (current_task_id t, v) \<and>
       (\<forall>p \<in> set ps. task_id (task_at u p) = current_task_id t \<longrightarrow> task_state (task_at v p) = TASK_STATE_EXECUTION))"
proof -
  obtain u where u: "task_select_next s = Some (tick_target ps s, u)" "sched_wf ps u" "task_ids ps u = task_ids ps s"
      "current_task_id u = tick_target ps s"
    using task_select_next_run [OF assms(1,2)] by blast
  note stays = tick_target_stays [OF assms(1,3) u(4) [symmetric] u(3) assms(2)]
  obtain t where t: "scheduler_ticks k u = Some t" "sched_wf ps t" "task_ids ps t = task_ids ps u"
      "current_task_id t = current_task_id u"
    using scheduler_ticks_stay [OF assms(3) u(2) stays(2,1)] by blast
  have target: "tick_target ps t = current_task_id t"
    using tick_target_stays [OF u(2) assms(3) _ t(3) stays(2)] stays(1) t(4) by simp
  have cur: "current_task_id t \<in> set (task_ids ps t)" using stays(2) t(3,4) by simp
  have "\<exists>u v. task_set_state x (current_task_id t) t = Some u \<and> task_select_next u = Some (current_task_id t, v) \<and>
      (\<forall>p \<in> set ps. task_id (task_at u p) = current_task_id t \<longrightarrow> task_state (task_at v p) = TASK_STATE_EXECUTION)" for x
    using task_set_state_tick [OF t(2) cur target assms(3)] by blast
  then show ?thesis
    using u t(1,2,4) by (auto simp: tick_target_def task_sleep_def task_kill_def)
qed

section \<open>Two sample tasks\<close>

definition two_tasks :: sched_state where
  "two_tasks = small_sched\<lparr>tasks := 0x100, current_task_id := 0,
     task_links := (\<lambda>_. \<lparr>lt_task = 0x210, lt_next = 0\<rparr>)(0x100 := \<lparr>lt_task = 0x200, lt_next = 0x110\<rparr>),
     task_mem := (\<lambda>_. \<lparr>task_id = 1, task_state = TASK_STATE_WAITING, task_priority = 0, task_ctx = 0x310, task_gs_base = 0xA000\<rparr>)
       (0x200 := \<lparr>task_id = 0, task_state = TASK_STATE_EXECUTION, task_priority = 0, task_ctx = 0x300, task_gs_base = 0x9000\<rparr>),
     msr := (\<lambda>_. 0x9000)\<rparr>"

lemma two_tasks_wf:
  "sched_wf [0x100, 0x110] two_tasks" "current_task_id two_tasks \<in> set (task_ids [0x100, 0x110] two_tasks)"
  by (simp_all add: sched_wf_def task_ids_def two_tasks_def)

lemma task_states_exact_witness:
  "\<exists>t. task_kill 1 two_tasks = Some t \<and> task_state (task_at t 0x110) = TASK_STATE_DEAD \<and>
     task_state (task_at t 0x100) = TASK_STATE_EXECUTION"
proof -
  obtain t where t: "task_kill 1 two_tasks = Some t"
      "\<forall>p \<in> set [0x100, 0x110]. task_at t p = (task_at two_tasks p)\<lparr>task_state :=
         if task_id (task_at two_tasks p) = 1 then TASK_STATE_DEAD else task_state (task_at two_tasks p)\<rparr>"
    using task_states_exact [OF two_tasks_wf(1), of 1] by auto
  then have "task_state (task_at t 0x110) = TASK_STATE_DEAD" "task_state (task_at t 0x100) = TASK_STATE_EXECUTION"
    by (simp_all add: two_tasks_def)
  then show ?thesis using t(1) by blast
qed

lemma task_select_next_sticks_witness:
  "\<exists>t. scheduler_ticks 5 two_tasks = Some t \<and> current_task_id t = 0"
proof -
  have "current_task_id two_tasks = 0" "task_id (task_at two_tasks 0x110) = 1" by (simp_all add: two_tasks_def)
  moreover have "2 \<le> length [0x100 :: u64, 0x110]" by simp
  ultimately have "\<exists>t. scheduler_ticks (Suc 4) two_tasks = Some t \<and> current_task_id t = 0"
    using task_select_next_sticks [OF two_tasks_wf, of 4] by auto
  then show ?thesis by simp
qed

end
