(* ===== verification/Shell_Reports.thy ===== *)
theory Shell_Reports
  imports Shell_Props Printf_Props Pmm_Inv Task_Props
begin

text \<open>
  What the commands of the debug shell do: those that do not use the disk print and return, so a line
  with one of them, or with no command, leaves the shell ready.
\<close>

named_theorems reporting

section \<open>Functions that only print\<close>

definition reports :: "('z uart_state_scheme \<Rightarrow> 'z uart_state_scheme option) \<Rightarrow> bool" where
  "reports f \<longleftrightarrow> (\<forall>s. shell_connected s \<longrightarrow> (\<exists>xs. f s = Some (transmit xs s)))"

lemma reports_bind [reporting]:
  assumes "reports f" "reports g"
  shows "reports (\<lambda>s. Option.bind (f s) g)"
  unfolding reports_def
proof (intro allI impI)
  fix s :: "'a uart_state_scheme"
  assume s: "shell_connected s"
  then obtain xs where f: "f s = Some (transmit xs s)" using assms(1) by (auto simp: reports_def)
  obtain ys where "g (transmit xs s) = Some (transmit ys (transmit xs s))"
    using assms(2) [unfolded reports_def, rule_format, of "transmit xs s"] s by auto
  then show "\<exists>xs. Option.bind (f s) g = Some (transmit xs s)" using f by (auto simp: transmit_append)
qed

lemma reports_Some [reporting]: "reports Some"
  unfolding reports_def by (metis transmit_Nil)

lemma reports_if [reporting]: "reports f \<Longrightarrow> reports g \<Longrightarrow> reports (\<lambda>s. if P s then f s else g s)"
  by (simp add: reports_def)

lemma reports_for_each [reporting]: "(\<And>x. x \<in> set xs \<Longrightarrow> reports (f x)) \<Longrightarrow> reports (for_each f xs)"
proof (induction xs)
  case Nil
  have "for_each f [] = Some" by (simp add: fun_eq_iff)
  then show ?case using reports_Some by simp
next
  case (Cons x xs)
  have "for_each f (x # xs) = (\<lambda>s. Option.bind (f x s) (for_each f xs))" by (simp add: fun_eq_iff)
  then show ?case using Cons by (simp add: reports_bind)
qed

lemma reports_quiet [reporting]: "reports (serial_print_quiet xs)"
  by (auto simp: reports_def serial_print_quiet_def internal_write_transmit)

lemma kprintf_typed:
  "shell_connected s \<Longrightarrow> printf_typed fmt args \<Longrightarrow>
   kprintf fmt args s = Some (transmit (filter (\<lambda>c. c \<noteq> 0) (printf_output fmt args)) s)"
  by (simp add: kprintf_def printf_text_typed serial_print_quiet_def internal_write_transmit)

lemma reports_kprintf [reporting]:
  "(\<And>s. printf_typed (fmt s) (args s)) \<Longrightarrow> reports (\<lambda>s. kprintf (fmt s) (args s) s)"
  by (auto simp: reports_def kprintf_typed)

lemma reports_lines [reporting]: "reports (shell_write_lines lines)"
proof -
  have "reports (\<lambda>s. uart_internal_write l (shell_output_port s) s)" for l
    by (auto simp: reports_def internal_write_transmit)
  then show ?thesis unfolding shell_write_lines_def by (rule reports_for_each)
qed

section \<open>The dumps of tables\<close>

lemma reports_help: "reports shell_command_help"
  unfolding shell_command_help_def by (rule reporting)

lemma reports_clear: "reports shell_command_clear"
  unfolding shell_command_clear_def by (rule reporting)

lemma reports_ping: "reports shell_command_ping"
  by (auto simp: reports_def shell_command_ping_def internal_write_transmit)

lemma reports_idt_vector [reporting]: "reports (idt_dump_vector v)"
  unfolding idt_dump_vector_def Let_def
  by (intro reporting) (simp add: text_of_def crlf_def)

lemma reports_idt: "reports idt_dump"
  unfolding idt_dump_def by (intro reporting) (simp add: text_of_def crlf_def)

text \<open>What is printed may depend on the state.\<close>

lemma reports_with: "(\<And>a. reports (h a)) \<Longrightarrow> reports (\<lambda>s. h (k s) s)"
  by (simp add: reports_def)

lemma reports_gdt_entry [reporting]: "reports (gdt_dump_entry i)"
  unfolding gdt_dump_entry_def Let_def by (intro reporting) (simp add: text_of_def crlf_def)

lemma reports_gdt: "reports gdt_dump"
  unfolding gdt_dump_def
  by (intro reporting reports_with [of "\<lambda>n. for_each gdt_dump_entry [0..<n]"])

lemma reports_tss_cpu [reporting]: "reports (tss_dump_cpu t)"
  unfolding tss_dump_cpu_def
  by (intro reporting) (auto simp: text_of_def crlf_def intro!: reporting)

lemma reports_tss: "reports tss_dump"
  unfolding tss_dump_def
  by (intro reporting reports_with [of tss_dump_cpu]) (simp add: text_of_def crlf_def)

lemma reports_uart: "reports uart_dump"
  unfolding uart_dump_def
  by (intro reporting) (simp_all add: text_of_def crlf_def)

lemma reports_pci_function [reporting]: "reports (pci_dump_function i :: 'z pci_state_scheme \<Rightarrow> _)"
  unfolding pci_dump_function_def Let_def by (intro reporting) (simp add: text_of_def crlf_def)

lemma reports_pci: "reports (pci_dump :: 'z pci_state_scheme \<Rightarrow> _)"
  unfolding pci_dump_def
  by (intro reporting reports_with [of "\<lambda>n. for_each pci_dump_function [0..<n]"]) (simp add: text_of_def crlf_def)

section \<open>The dumps of lists\<close>

text \<open>The list of sections ends, and so does the list of tasks, which all have a context.\<close>

definition lists_end :: "'z sched_state_scheme \<Rightarrow> bool" where
  "lists_end s \<longleftrightarrow> (\<exists>is. pmm_sections s = hd_ptr is None \<and> dseg (slots s) None is None) \<and>
     (\<exists>ps. task_chain (task_links s) (tasks s) ps \<and>
        (\<forall>p \<in> set ps. lt_task (task_links s p) \<noteq> 0 \<and> task_ctx (task_at s p) \<noteq> 0))"

lemma transmit_lists [simp]:
  "slots (transmit xs s) = slots s" "pmm_sections (transmit xs s) = pmm_sections s"
  "task_links (transmit xs s) = task_links s" "tasks (transmit xs s) = tasks s"
  "task_mem (transmit xs s) = task_mem s"
  "lists_end (transmit xs s) = lists_end s"
  by (simp_all add: transmit_def lists_end_def)

lemma pmm_dump_sections_reports:
  "dseg (slots s) p is None \<Longrightarrow> shell_connected s \<Longrightarrow>
   \<exists>xs. pmm_dump_sections (hd_ptr is None) s = Some (transmit xs s)"
proof (induction "is" arbitrary: p s)
  case Nil
  then show ?case by (subst pmm_dump_sections.simps) (auto intro: exI [of _ "[]"])
next
  case (Cons i "is")
  let ?x = "slots s i" and ?n = "\<lambda>x. sec_pages x * PAGING_PAGE_SIZE"
  obtain xs where line: "kprintf (tab @ text_of ''%xh => %dkB/%dmB %s'' @ crlf)
      [Va_Int (sec_start ?x), Va_Int (?n ?x div 1024), Va_Int (?n ?x div MEGABYTE),
       Va_Str (text_of (memstate_string (sec_free ?x)))] s = Some (transmit xs s)"
    using kprintf_typed [OF Cons.prems(2)] by (fastforce simp: text_of_def crlf_def)
  obtain ys where "pmm_dump_sections (hd_ptr is None) (transmit xs s) = Some (transmit ys (transmit xs s))"
    using Cons.IH [of "transmit xs s" "Some i"] Cons.prems by auto
  then show ?case
    using line Cons.prems by (subst pmm_dump_sections.simps) (auto simp: transmit_append)
qed

lemma pmm_sum_free_ends: "dseg (slots s) p is None \<Longrightarrow> \<exists>n. pmm_sum_free (hd_ptr is None) acc s = Some n"
proof (induction "is" arbitrary: p acc)
  case Nil
  then show ?case by (subst pmm_sum_free.simps) simp
next
  case (Cons i "is")
  then show ?case by (subst pmm_sum_free.simps) auto
qed

lemma pmm_dump_reports:
  assumes "shell_connected s" "lists_end s"
  shows "\<exists>xs n. pmm_dump s = Some (transmit xs (s\<lparr>free_memory := n\<rparr>))"
proof -
  obtain "is" where l: "pmm_sections s = hd_ptr is None" "dseg (slots s) None is None"
    using assms(2) by (auto simp: lists_end_def)
  obtain n where "pmm_sum_free (pmm_sections s) 0 s = Some n"
    using pmm_sum_free_ends [OF l(2)] l(1) by auto
  then have n: "pmm_recalculate_free_memory s = Some (s\<lparr>free_memory := n\<rparr>)"
    by (simp add: pmm_recalculate_free_memory_def)
  have "reports pmm_dump_totals"
    unfolding pmm_dump_totals_def by (intro reporting) (simp_all add: text_of_def crlf_def)
  moreover have c: "shell_connected (s\<lparr>free_memory := n\<rparr>)" using assms(1) by (simp add: shell_connected_def)
  ultimately obtain xs where
    xs: "pmm_dump_totals (s\<lparr>free_memory := n\<rparr>) = Some (transmit xs (s\<lparr>free_memory := n\<rparr>))"
    by (auto simp: reports_def)
  let ?t = "transmit xs (s\<lparr>free_memory := n\<rparr>)"
  obtain ys where "pmm_dump_sections (pmm_sections ?t) ?t = Some (transmit ys ?t)"
    using pmm_dump_sections_reports [of ?t None "is"] l c by auto
  then show ?thesis using n xs by (auto simp: pmm_dump_def transmit_append)
qed

lemma proc_dump_tasks_reports:
  "task_chain (task_links s) p ps \<Longrightarrow> \<forall>p \<in> set ps. lt_task (task_links s p) \<noteq> 0 \<and> task_ctx (task_at s p) \<noteq> 0 \<Longrightarrow>
   shell_connected s \<Longrightarrow> \<exists>xs. proc_dump_tasks p s = Some (transmit xs s)"
proof (induction ps arbitrary: p s)
  case Nil
  then show ?case by (subst proc_dump_tasks.simps) (auto intro: exI [of _ "[]"])
next
  case (Cons q qs)
  let ?t = "task_mem s (lt_task (task_links s p))"
  let ?c = "ctx_mem s (task_ctx ?t)"
  obtain xs where line: "kprintf (tab @ text_of ''pid %d, cr3=%x, rip=%x, ctx@%x ... %s'' @ crlf)
      [Va_Int (task_id ?t), Va_Int (ctx_cr3 ?c), Va_Int (ctx_rip ?c), Va_Int (task_ctx ?t),
       Va_Str (text_of (task_state_string (task_state ?t)))] s = Some (transmit xs s)"
    using kprintf_typed [OF Cons.prems(3)] by (fastforce simp: text_of_def crlf_def)
  obtain ys where "proc_dump_tasks (lt_next (task_links s p)) (transmit xs s) = Some (transmit ys (transmit xs s))"
    using Cons.IH [of "transmit xs s" "lt_next (task_links s p)"] Cons.prems by auto
  then show ?case
    using line Cons.prems by (subst proc_dump_tasks.simps) (auto simp: transmit_append Let_def)
qed

lemma proc_dump_reports:
  assumes "shell_connected s" "lists_end s"
  shows "\<exists>xs. proc_dump s = Some (transmit xs s)"
proof -
  obtain ps where ps: "task_chain (task_links s) (tasks s) ps"
    "\<forall>p \<in> set ps. lt_task (task_links s p) \<noteq> 0 \<and> task_ctx (task_at s p) \<noteq> 0"
    using assms(2) by (auto simp: lists_end_def)
  obtain xs where xs: "kprintf (crlf @ text_of ''Process dump:'' @ crlf) [] s = Some (transmit xs s)"
    using kprintf_typed [OF assms(1)] by (fastforce simp: text_of_def crlf_def)
  obtain ys where ys: "proc_dump_tasks (tasks s) (transmit xs s) = Some (transmit ys (transmit xs s))"
    using proc_dump_tasks_reports [of "transmit xs s" "tasks s" ps] ps assms(1) by simp blast
  obtain zs where "kprintf crlf [] (transmit ys (transmit xs s)) = Some (transmit zs (transmit ys (transmit xs s)))"
    using kprintf_typed [of "transmit ys (transmit xs s)" crlf "[]"] assms(1) by (auto simp: crlf_def)
  then show ?thesis using xs ys by (auto simp: proc_dump_def transmit_append)
qed

section \<open>Every command that does not use the disk\<close>

lemma handler_returns:
  assumes "shell_connected s" "lists_end s" "i < 10"
  shows "\<exists>xs n. (shell_command_handlers ! i) s = Some (transmit xs (s\<lparr>free_memory := n\<rparr>))"
proof -
  have same: "s\<lparr>free_memory := free_memory s\<rparr> = s" by simp
  have only: "\<exists>xs n. f s = Some (transmit xs (s\<lparr>free_memory := n\<rparr>))" if "reports f" for f
    using that assms(1) same by (metis reports_def)
  consider "i = 5" | "i = 6" | "i \<in> {0, 1, 2, 3, 4, 7, 8, 9}" using assms(3) by fastforce
  then show ?thesis
  proof cases
    case 1
    obtain xs where "proc_dump s = Some (transmit xs s)" using proc_dump_reports [OF assms(1,2)] by auto
    then show ?thesis using 1
      by (intro exI [of _ xs] exI [of _ "free_memory s"]) (simp add: shell_command_handlers_def)
  next
    case 2
    then show ?thesis using pmm_dump_reports [OF assms(1,2)] by (simp add: shell_command_handlers_def)
  next
    case 3
    then have "reports (shell_command_handlers ! i :: 'a ahci_state_scheme \<Rightarrow> _)"
      using reports_help reports_ping reports_idt reports_gdt reports_tss reports_uart reports_pci reports_clear
      by (auto simp: shell_command_handlers_def)
    then show ?thesis by (rule only)
  qed
qed

section \<open>A session\<close>

abbreviation disk_commands :: "u8 list set" where
  "disk_commands \<equiv> {text_of ''lsdisks'', text_of ''disktest''}"

definition shell_ready :: "'z ahci_state_scheme \<Rightarrow> bool" where
  "shell_ready s \<longleftrightarrow> shell_connected s \<and> command_buffer_index s = 0 \<and> lists_end s"

lemma lists_end_upd [simp]:
  "lists_end (s\<lparr>heap_bytes := m\<rparr>) = lists_end s" "lists_end (s\<lparr>free_memory := n\<rparr>) = lists_end s"
  "lists_end (s\<lparr>command_buffer_index := i\<rparr>) = lists_end s" "lists_end (s\<lparr>prompt_placed := b\<rparr>) = lists_end s"
  by (simp_all add: lists_end_def)

lemma shell_connected_free [simp]: "shell_connected (s\<lparr>free_memory := n\<rparr>) = shell_connected s"
  by (simp add: shell_connected_def)

lemma ready_clear:
  "shell_connected s \<Longrightarrow> lists_end s \<Longrightarrow> shell_ready (uart_shell_clear_buffer s)"
  by (simp add: shell_ready_def uart_shell_clear_buffer_def)

lemma entered_ready:
  "shell_ready s \<Longrightarrow> shell_connected (line_entered xs m s) \<and> lists_end (line_entered xs m s)"
  by (simp add: shell_ready_def line_entered_def)

lemma empty_line_ready:
  assumes "shell_ready s"
  shows "\<exists>u. for_each uart_shell_handle_character [SUPPORTED_CR] s = Some u \<and> shell_ready u \<and> prompt_placed u"
  using assms
  by (auto simp: shell_ready_def uart_shell_handle_character_def internal_write_transmit
      uart_shell_command_finalize_def replace_prompt_transmit)

lemma line_ready:
  assumes "shell_ready s" "\<forall>c \<in> set l. printable c" "take 4095 l \<notin> disk_commands"
  shows "\<exists>u. for_each uart_shell_handle_character (l @ [SUPPORTED_CR]) s = Some u \<and> shell_ready u \<and> prompt_placed u"
proof (cases "l = []")
  case True
  then show ?thesis using empty_line_ready [OF assms(1)] by simp
next
  case False
  let ?f = "find (\<lambda>i. take 4095 l = uart_shell_commands ! i) [0..<NUMBER_OF_COMMANDS]"
  obtain m where run: "for_each uart_shell_handle_character (l @ [SUPPORTED_CR]) s =
       (case ?f of
          Some i \<Rightarrow> do {
            u \<leftarrow> uart_shell_command_execute (of_nat i) (line_entered l m s);
            u \<leftarrow> uart_shell_replace_prompt (u\<lparr>prompt_placed := False\<rparr>);
            Some (uart_shell_clear_buffer u) }
        | None \<Rightarrow> do {
            u \<leftarrow> uart_shell_write (text_of ''Unknown command...'' @ crlf) (line_entered l m s);
            Some (uart_shell_clear_buffer u) })"
    using type_line [of s l] assms False by (auto simp: shell_ready_def)
  note e = entered_ready [OF assms(1), of l m]
  show ?thesis
  proof (cases ?f)
    case None
    then show ?thesis using run e
      by (auto simp: shell_write_transmit intro: ready_clear) (auto simp: uart_shell_clear_buffer_def)
  next
    case (Some i)
    then have i: "i < NUMBER_OF_COMMANDS" "take 4095 l = uart_shell_commands ! i"
      by (auto simp: find_Some_iff)
    moreover have "i \<noteq> 10" "i \<noteq> 11" using i(2) assms(3) by (auto simp: uart_shell_commands_def)
    ultimately have "i < 10" by simp
    then obtain xs n where "(shell_command_handlers ! i) (line_entered l m s) =
        Some (transmit xs ((line_entered l m s)\<lparr>free_memory := n\<rparr>))"
      using handler_returns e by blast
    then show ?thesis using run Some i(1) e
      by (auto simp: uart_shell_command_execute_def unat_of_nat_nowrap replace_prompt_transmit intro: ready_clear)
        (auto simp: uart_shell_clear_buffer_def)
  qed
qed

lemma for_each_append: "for_each f (xs @ ys) s = Option.bind (for_each f xs s) (for_each f ys)"
  by (induction xs arbitrary: s) (auto split: bind_splits)

lemma session_ready:
  assumes "shell_ready s" "\<forall>l \<in> set lines. (\<forall>c \<in> set l. printable c) \<and> take 4095 l \<notin> disk_commands"
  shows "\<exists>u. for_each uart_shell_handle_character (concat (map (\<lambda>l. l @ [SUPPORTED_CR]) lines)) s = Some u \<and>
     shell_ready u \<and> (lines = [] \<or> prompt_placed u)"
  using assms
proof (induction lines arbitrary: s)
  case (Cons l ls)
  then obtain u where u: "for_each uart_shell_handle_character (l @ [SUPPORTED_CR]) s = Some u"
      "shell_ready u" "prompt_placed u"
    using line_ready [of s l] by auto
  moreover obtain v where
    "for_each uart_shell_handle_character (concat (map (\<lambda>l. l @ [SUPPORTED_CR]) ls)) u = Some v"
    "shell_ready v" "ls = [] \<or> prompt_placed v"
    using Cons.IH [OF u(2)] Cons.prems(2) by auto
  ultimately show ?case by (auto simp: for_each_append split: bind_splits)
qed simp

text \<open>C7:
  The debug shell never gets stuck: whatever lines of printable characters are typed, empty ones, overlong
  ones and unknown commands included, as long as none is a disk command, every dump returns, and after the
  last return key the shell has an empty line, a prompt, and lists that still end.
\<close>

theorem shell_stays_responsive:
  assumes "shell_ready s" "\<forall>l \<in> set lines. (\<forall>c \<in> set l. printable c) \<and> take 4095 l \<notin> disk_commands"
  shows "\<exists>u. for_each uart_shell_handle_character (concat (map (\<lambda>l. l @ [SUPPORTED_CR]) lines)) s = Some u \<and>
     shell_ready u \<and> (lines = [] \<or> prompt_placed u)"
  using assms by (rule session_ready)

definition busy_shell :: ahci_state where
  "busy_shell = small_shell\<lparr>pmm_sections := Some 0, tasks := 0x50,
     slots := (\<lambda>_. \<lparr>sec_prev = None, sec_next = None, sec_start = 0x100000, sec_pages = 256, sec_free = 1\<rparr>),
     task_links := (\<lambda>_. \<lparr>lt_task = 0x60, lt_next = 0\<rparr>),
     task_mem := (\<lambda>_. \<lparr>task_id = 0, task_state = TASK_STATE_WAITING, task_priority = 0, task_ctx = 0x80,
       task_gs_base = 0\<rparr>)\<rparr>"

lemma busy_shell_ready: "shell_ready busy_shell"
proof -
  have "hd_ptr [0] None = Some (0 :: nat)" "dseg (slots busy_shell) None [0] None"
    by (simp_all add: busy_shell_def)
  moreover have "task_chain (task_links busy_shell) (tasks busy_shell) [0x50]"
    "\<forall>p \<in> set [0x50]. lt_task (task_links busy_shell p) \<noteq> 0 \<and> task_ctx (task_at busy_shell p) \<noteq> 0"
    by (simp_all add: busy_shell_def)
  moreover have "pmm_sections busy_shell = Some 0" by (simp add: busy_shell_def)
  ultimately have "lists_end busy_shell" unfolding lists_end_def by metis
  moreover have "shell_connected busy_shell" "command_buffer_index busy_shell = 0"
    using small_shell_sel(5,6) by (simp_all add: busy_shell_def shell_connected_def)
  ultimately show ?thesis by (simp add: shell_ready_def)
qed

lemma shell_stays_responsive_witness:
  "\<exists>u. for_each uart_shell_handle_character
      (concat (map (\<lambda>l. l @ [SUPPORTED_CR]) [text_of ''lsp'', [], text_of ''mem'', text_of ''what''])) busy_shell =
        Some u \<and> shell_ready u \<and> prompt_placed u"
proof -
  have "\<forall>l \<in> set [text_of ''lsp'', [], text_of ''mem'', text_of ''what''].
      (\<forall>c \<in> set l. printable c) \<and> take 4095 l \<notin> disk_commands"
    by (simp add: text_of_def printable_def of_char_def)
  from shell_stays_responsive [OF busy_shell_ready this] show ?thesis by simp
qed

end
