(* ===== verification/Timers.thy ===== *)
theory Timers
  imports Task
begin

text \<open>
  The two timers: \<open>kernel/src/iodev/timer/pit/pit.c\<close> and \<open>local/local_timer.c\<close>. The interrupts that end
  a \<open>hlt\<close> are outside the source: \<open>wake k\<close> tells whether the \<open>k\<close>-th one is the interval timer's, whose
  handler then runs; handlers of other devices do not touch the timers' variables.
\<close>

abbreviation PIT_REGISTER_CHANNEL0_DATA :: u16 where "PIT_REGISTER_CHANNEL0_DATA \<equiv> 0x40"
abbreviation PIT_REGISTER_COMMAND_MODE :: u16 where "PIT_REGISTER_COMMAND_MODE \<equiv> 0x43"
abbreviation PIT_FREQUENCY :: u64 where "PIT_FREQUENCY \<equiv> 1193182"
abbreviation PIT_IRQ_LINE :: u8 where "PIT_IRQ_LINE \<equiv> 0"
abbreviation LOCAL_TIMER_DIVISOR_001 :: u32 where "LOCAL_TIMER_DIVISOR_001 \<equiv> 11"

record timer_state = sched_state +
  pit_vector :: u8
  pit_divisor :: u16
  ticks :: u64
  watching :: bool
  pit_gsi :: u8
  tpms :: u64
  calibrated :: bool
  local_vector :: u8

section \<open>The interval timer\<close>

definition pit_builtin_handler :: "'z timer_state_scheme \<Rightarrow> 'z timer_state_scheme option" where
  "pit_builtin_handler s =
     apic_local_send_eoi (if watching s then s\<lparr>ticks := ticks s + ucast (pit_divisor s)\<rparr> else s)"

definition pit_set_divisor :: "u16 \<Rightarrow> 'z timer_state_scheme \<Rightarrow> 'z timer_state_scheme" where
  "pit_set_divisor divisor s =
     (let s = outb PIT_REGISTER_COMMAND_MODE 0x34 s;
          s = outb PIT_REGISTER_CHANNEL0_DATA (ucast (divisor AND 0xFF)) s;
          s = outb PIT_REGISTER_CHANNEL0_DATA (ucast (drop_bit 8 divisor)) s
      in s\<lparr>pit_divisor := divisor\<rparr>)"

text \<open>\<open>handler\<close> is the address of \<open>__pit_builtin_handler\<close>.\<close>

definition pit_enable ::
    "(u8 \<Rightarrow> u64) \<Rightarrow> u64 \<Rightarrow> 'z timer_state_scheme \<Rightarrow> 'z timer_state_scheme option" where
  "pit_enable stubs handler s =
     (if pit_gsi s \<noteq> 0xFF then Some s
      else do {
        let (v, s) = idt_new_vector s;
        let s = s\<lparr>pit_vector := v, pit_gsi := apic_io_get_gsi PIT_IRQ_LINE s\<rparr>;
        (existing, s) \<leftarrow> apic_io_get_redirect (pit_gsi s) s;
        s \<leftarrow> apic_io_redirect_irq (pit_gsi s) (pit_vector s) (rd_active_low existing)
               (rd_level_triggered existing) s;
        let s = pit_set_divisor 8 s;
        let s = on_idt (idt_install_irq_handler stubs (pit_vector s) handler) s;
        apic_io_unmask_irq (pit_gsi s) s })"

definition pit_disable :: "'z timer_state_scheme \<Rightarrow> 'z timer_state_scheme option" where
  "pit_disable s = do {
     let s = s\<lparr>pit_gsi := apic_io_get_gsi PIT_IRQ_LINE s\<rparr>;
     s \<leftarrow> apic_io_redirect_irq (pit_gsi s) 0 False False s;
     s \<leftarrow> apic_io_mask_irq (pit_gsi s) s;
     Some ((on_idt (idt_free_vector (pit_vector s)) s)\<lparr>pit_vector := 0\<rparr>) }"

definition pit_stopwatch_start :: "'z timer_state_scheme \<Rightarrow> 'z timer_state_scheme" where
  "pit_stopwatch_start s = s\<lparr>ticks := 0, watching := True\<rparr>"

definition pit_stopwatch_stop :: "'z timer_state_scheme \<Rightarrow> u64 \<times> 'z timer_state_scheme" where
  "pit_stopwatch_stop s = (ticks s, s\<lparr>watching := False\<rparr>)"

partial_function (option) pit_wait_loop ::
    "(nat \<Rightarrow> bool) \<Rightarrow> nat \<Rightarrow> u64 \<Rightarrow> 'z timer_state_scheme \<Rightarrow> 'z timer_state_scheme option" where
  "pit_wait_loop wake k delay_ticks s =
     (if ticks s < delay_ticks
      then do {
        s \<leftarrow> (if wake k then pit_builtin_handler s else Some s);
        pit_wait_loop wake (Suc k) delay_ticks s }
      else Some s)"

definition pit_deadline_wait ::
    "(nat \<Rightarrow> bool) \<Rightarrow> u64 \<Rightarrow> 'z timer_state_scheme \<Rightarrow> 'z timer_state_scheme option" where
  "pit_deadline_wait wake delay_ticks s = do {
     s \<leftarrow> pit_wait_loop wake 0 delay_ticks (s\<lparr>ticks := 0, watching := True\<rparr>);
     Some (s\<lparr>watching := False\<rparr>) }"

section \<open>The local timer\<close>

definition local_timer_builtin_handler :: "'z timer_state_scheme \<Rightarrow> 'z timer_state_scheme option" where
  "local_timer_builtin_handler s = do {
     s \<leftarrow> apic_local_send_eoi s;
     if rdmsr IA32_GS_BASE s \<noteq> 0 \<and> rdmsr IA32_KERNEL_GS_BASE s = 0
     then do { (_, s) \<leftarrow> task_select_next s; Some s }
     else Some s }"

definition local_timer_set_handler ::
    "(u8 \<Rightarrow> u64) \<Rightarrow> u64 \<Rightarrow> 'z timer_state_scheme \<Rightarrow> 'z timer_state_scheme" where
  "local_timer_set_handler stubs handler s =
     on_idt (idt_install_irq_handler stubs (local_vector s) handler) s"

text \<open>The count register has 32 bits.\<close>

definition local_timer_set_frequency ::
    "u64 \<Rightarrow> 'z timer_state_scheme \<Rightarrow> 'z timer_state_scheme option" where
  "local_timer_set_frequency hz s =
     (if hz = 0 then apic_local_write APIC_LOCAL_REGISTER_INITIAL_COUNT 0 s
      else let counts_per_tick = tpms s * 1000 div hz
           in apic_local_write APIC_LOCAL_REGISTER_INITIAL_COUNT (ucast counts_per_tick) s)"

definition local_timer_calibrate ::
    "(u8 \<Rightarrow> u64) \<Rightarrow> u64 \<Rightarrow> u64 \<Rightarrow> (nat \<Rightarrow> bool) \<Rightarrow> 'z timer_state_scheme \<Rightarrow> 'z timer_state_scheme option" where
  "local_timer_calibrate stubs pit_handler timer_handler wake s = do {
     s \<leftarrow> apic_local_write APIC_LOCAL_REGISTER_DIVIDE_CONFIG LOCAL_TIMER_DIVISOR_001 s;
     let (v, s) = idt_new_vector s;
     let s = s\<lparr>local_vector := v\<rparr>;
     s \<leftarrow> apic_local_write APIC_LOCAL_REGISTER_LVT_TIMER (push_bit 17 1 OR ucast (local_vector s)) s;
     s \<leftarrow> apic_local_write APIC_LOCAL_REGISTER_INITIAL_COUNT 0xFFFFFFFF s;
     let s = local_timer_set_handler stubs timer_handler s;
     s \<leftarrow> pit_enable stubs pit_handler s;
     s \<leftarrow> pit_deadline_wait wake (PIT_FREQUENCY div 1000) s;
     (count, s) \<leftarrow> apic_local_read APIC_LOCAL_REGISTER_CURRENT_COUNT s;
     s \<leftarrow> pit_disable (s\<lparr>tpms := ucast (0xFFFFFFFF - count)\<rparr>);
     local_timer_set_frequency 50 (s\<lparr>calibrated := True\<rparr>) }"

definition local_timer_get_tpms :: "'z timer_state_scheme \<Rightarrow> u64" where
  "local_timer_get_tpms s = tpms s"

end
