(* ===== verification/Timers_Props.thy ===== *)
theory Timers_Props
  imports Timers Ps2_Props
begin









end
