(* ===== verification/Limine.thy ===== *)
theory Limine
  imports Calls Cstring Pmm_Start
begin

text \<open>
  Taking over from the boot loader: \<open>kernel/src/boot/limine/limine.c\<close>. What the loader answers to the
  requests is a record, its arrays of pointers are lists. The new memory map and the table of modules
  lie in pages that are taken from the loader's map; both are lists here, and \<open>None\<close> is a map that
  reaches into the table of modules, the search running behind the last entry, or no entry to take from.
\<close>

section \<open>The loader's answers\<close>

record limine_memmap_entry =
  lm_base :: u64
  lm_length :: u64
  lm_type :: u64

record limine_framebuffer =
  lf_address :: u64
  lf_width :: u64
  lf_height :: u64
  lf_pitch :: u64
  lf_bpp :: u16

record limine_file =
  lf_file_address :: u64
  lf_file_size :: u64
  lf_cmdline :: u64

record limine_answers =
  l_rsdp :: u64
  l_memory_map :: "limine_memmap_entry list"
  l_physical_base :: u64
  l_virtual_base :: u64
  l_framebuffers :: "limine_framebuffer list"
  l_modules :: "limine_file list"

abbreviation LIMINE_MEMMAP_USABLE :: u64 where "LIMINE_MEMMAP_USABLE \<equiv> 0"
abbreviation LIMINE_MEMMAP_RESERVED :: u64 where "LIMINE_MEMMAP_RESERVED \<equiv> 1"
abbreviation LIMINE_MEMMAP_ACPI_RECLAIMABLE :: u64 where "LIMINE_MEMMAP_ACPI_RECLAIMABLE \<equiv> 2"
abbreviation LIMINE_MEMMAP_ACPI_NVS :: u64 where "LIMINE_MEMMAP_ACPI_NVS \<equiv> 3"
abbreviation LIMINE_MEMMAP_BAD_MEMORY :: u64 where "LIMINE_MEMMAP_BAD_MEMORY \<equiv> 4"
abbreviation LIMINE_MEMMAP_BOOTLOADER_RECLAIMABLE :: u64 where "LIMINE_MEMMAP_BOOTLOADER_RECLAIMABLE \<equiv> 5"
abbreviation LIMINE_MEMMAP_KERNEL_AND_MODULES :: u64 where "LIMINE_MEMMAP_KERNEL_AND_MODULES \<equiv> 6"
abbreviation LIMINE_MEMMAP_FRAMEBUFFER :: u64 where "LIMINE_MEMMAP_FRAMEBUFFER \<equiv> 7"
abbreviation MEMORY_AMD_IOMMU_BLOCK_START :: u64 where "MEMORY_AMD_IOMMU_BLOCK_START \<equiv> 0xFD00000000"
abbreviation MEMORY_AMD_IOMMU_BLOCK_END :: u64 where "MEMORY_AMD_IOMMU_BLOCK_END \<equiv> 0xFFFFFFFFFF"
abbreviation sizeof_limine_memmap_entry :: u64 where "sizeof_limine_memmap_entry \<equiv> 24"
abbreviation sizeof_memory_map :: u64 where "sizeof_memory_map \<equiv> 16"
abbreviation sizeof_memory_map_entry :: u64 where "sizeof_memory_map_entry \<equiv> 24"

section \<open>What the kernel keeps\<close>

record boot_module =
  bm_virt :: u64
  bm_phys :: u64
  bm_size :: u64
  bm_name :: u64

record boot_state = call_state +
  memory_map :: "memory_map_entry list"
  boot_modules :: "boot_module list"
  kernel_physical_load :: u64
  kernel_virtual_load :: u64
  loaded_rsdp :: u64

definition get_kernel_load_physical :: "'z boot_state_scheme \<Rightarrow> u64" where
  "get_kernel_load_physical s = kernel_physical_load s"

definition get_kernel_virtual_offset :: "'z boot_state_scheme \<Rightarrow> u64" where
  "get_kernel_virtual_offset s = kernel_virtual_load s - kernel_physical_load s"

text \<open>The index of the module, NULL as \<open>None\<close>.\<close>

fun boot_module_scan :: "mem \<Rightarrow> u64 \<Rightarrow> nat \<Rightarrow> boot_module list \<Rightarrow> nat option option" where
  "boot_module_scan m name i [] = Some None"
| "boot_module_scan m name i (b # bs) = do {
     r \<leftarrow> strcmp m name (bm_name b);
     if r = 0 then Some (Some i) else boot_module_scan m name (Suc i) bs }"

definition get_boot_module :: "u64 \<Rightarrow> 'z boot_state_scheme \<Rightarrow> nat option option" where
  "get_boot_module name s = do {
     n \<leftarrow> strlen (heap_bytes s) name;
     if n > 128 then Some None else boot_module_scan (heap_bytes s) name 0 (boot_modules s) }"

section \<open>The memory map\<close>

definition limine_mmap_type_convert :: "u64 \<Rightarrow> u64" where
  "limine_mmap_type_convert limine_type =
     (if limine_type = LIMINE_MEMMAP_USABLE then MEMORY_MAP_FREE
      else if limine_type = LIMINE_MEMMAP_RESERVED then MEMORY_MAP_BUSY
      else if limine_type = LIMINE_MEMMAP_KERNEL_AND_MODULES then MEMORY_MAP_BUSY
      else if limine_type = LIMINE_MEMMAP_FRAMEBUFFER then MEMORY_MAP_MMIO
      else if limine_type = LIMINE_MEMMAP_ACPI_NVS then MEMORY_MAP_NOUSE
      else if limine_type = LIMINE_MEMMAP_BAD_MEMORY then MEMORY_MAP_NOUSE
      else if limine_type = LIMINE_MEMMAP_BOOTLOADER_RECLAIMABLE then MEMORY_MAP_BUSY
      else if limine_type = LIMINE_MEMMAP_ACPI_RECLAIMABLE then MEMORY_MAP_BUSY
      else MEMORY_MAP_NOUSE)"

definition limine_ignore_iommu :: "limine_memmap_entry \<Rightarrow> limine_memmap_entry" where
  "limine_ignore_iommu e =
     (if lm_base e \<ge> MEMORY_AMD_IOMMU_BLOCK_START \<and> lm_base e \<le> MEMORY_AMD_IOMMU_BLOCK_END
      then e\<lparr>lm_type := LIMINE_MEMMAP_BAD_MEMORY\<rparr> else e)"

text \<open>Two pages more than the map needs, for the modules.\<close>

definition limine_map_pages :: "u64 \<Rightarrow> u64" where
  "limine_map_pages entries =
     (let bytes = entries * sizeof_limine_memmap_entry;
          n = bytes div PAGING_PAGE_SIZE
      in (if bytes mod PAGING_PAGE_SIZE \<noteq> 0 then n + 1 else n) + 2)"

text \<open>A used entry in front of a usable one that is large enough; the loop reads entry \<open>i + 1\<close>.\<close>

fun limine_find_pair :: "u64 \<Rightarrow> nat \<Rightarrow> limine_memmap_entry list \<Rightarrow> nat option" where
  "limine_find_pair map_pages i (e # f # es) =
     (if lm_type f = LIMINE_MEMMAP_USABLE \<and> limine_mmap_type_convert (lm_type e) = MEMORY_MAP_BUSY \<and>
         lm_length f div PAGING_PAGE_SIZE > map_pages
      then Some i else limine_find_pair map_pages (Suc i) (f # es))"
| "limine_find_pair map_pages i es = None"

definition limine_take_pages :: "u64 \<Rightarrow> nat \<Rightarrow> limine_memmap_entry list \<Rightarrow> limine_memmap_entry list" where
  "limine_take_pages bytes i es =
     es[i := (es ! i)\<lparr>lm_length := lm_length (es ! i) + bytes\<rparr>,
        Suc i := (es ! Suc i)\<lparr>lm_base := lm_base (es ! Suc i) + bytes,
                             lm_length := lm_length (es ! Suc i) - bytes\<rparr>]"

definition limine_convert :: "limine_memmap_entry \<Rightarrow> memory_map_entry" where
  "limine_convert e =
     \<lparr>me_base = lm_base e, me_length = lm_length e, me_signal = limine_mmap_type_convert (lm_type e)\<rparr>"

text \<open>From the second entry on, up to the first that begins above the megabyte.\<close>

fun limine_low_memory :: "memory_map_entry list \<Rightarrow> memory_map_entry list" where
  "limine_low_memory [] = []"
| "limine_low_memory (e # es) =
     (if me_base e < MEGABYTE
      then (if me_base e + me_length e < MEGABYTE
            then e\<lparr>me_length := 0, me_signal := MEMORY_MAP_NOUSE\<rparr>
            else e\<lparr>me_length := me_length e - (MEGABYTE - me_base e), me_base := MEGABYTE\<rparr>)
           # limine_low_memory es
      else e # es)"

definition limine_new_map :: "limine_memmap_entry list \<Rightarrow> memory_map_entry list" where
  "limine_new_map es =
     \<lparr>me_base = 0, me_length = MEGABYTE, me_signal = MEMORY_MAP_NOUSE\<rparr> #
     limine_low_memory (tl (map limine_convert es))"

section \<open>The rest\<close>

definition limine_module :: "limine_file \<Rightarrow> boot_module" where
  "limine_module f =
     \<lparr>bm_virt = lf_file_address f, bm_phys = lf_file_address f AND 0xFFFFFFFF, bm_size = lf_file_size f,
      bm_name = lf_cmdline f\<rparr>"

definition limine_framebuffer_info :: "limine_framebuffer \<Rightarrow> framebuffer_info" where
  "limine_framebuffer_info f =
     \<lparr>frame_width = ucast (lf_width f), frame_height = ucast (lf_height f), frame_addr = lf_address f,
      frame_pitch = ucast (lf_pitch f), frame_bpp = ucast (lf_bpp f)\<rparr>"

definition limine_reinterpret ::
    "limine_answers \<Rightarrow> 'z boot_state_scheme \<Rightarrow> 'z boot_state_scheme option" where
  "limine_reinterpret l s = do {
     let s = s\<lparr>loaded_rsdp := l_rsdp l, kernel_physical_load := l_physical_base l,
               kernel_virtual_load := l_virtual_base l\<rparr>;
     let n = of_nat (length (l_memory_map l));
     let map_pages = limine_map_pages n;
     let entries = map limine_ignore_iommu (l_memory_map l);
     i \<leftarrow> limine_find_pair map_pages 0 entries;
     if sizeof_memory_map + n * sizeof_memory_map_entry > (map_pages - 2) * PAGING_PAGE_SIZE then None
     else if l_framebuffers l = [] then None
     else Some (s\<lparr>memory_map := limine_new_map (limine_take_pages (map_pages * PAGING_PAGE_SIZE) i entries),
                  framebuffer := limine_framebuffer_info (hd (l_framebuffers l)),
                  boot_modules := map limine_module (l_modules l)\<rparr>) }"

end
