(* ===== verification/Limine_Props.thy ===== *)
theory Limine_Props
  imports Limine Ps2_Props
begin

text \<open>The memory map that the kernel makes of the boot loader's, and the search for a module.\<close>

section \<open>Ranges of addresses\<close>

definition lm_range :: "limine_memmap_entry \<Rightarrow> nat set" where
  "lm_range e = {unat (lm_base e) ..< unat (lm_base e) + unat (lm_length e)}"

definition me_range :: "memory_map_entry \<Rightarrow> nat set" where
  "me_range e = {unat (me_base e) ..< unat (me_base e) + unat (me_length e)}"

text \<open>
  What the boot protocol promises: entries are sorted by base, and a usable entry overlaps no other.
\<close>

definition loader_order :: "limine_memmap_entry \<Rightarrow> limine_memmap_entry \<Rightarrow> bool" where
  "loader_order x y \<longleftrightarrow> lm_base x \<le> lm_base y \<and>
     (lm_type x = LIMINE_MEMMAP_USABLE \<or> lm_type y = LIMINE_MEMMAP_USABLE \<longrightarrow>
        unat (lm_base x) + unat (lm_length x) \<le> unat (lm_base y))"

definition loader_map :: "limine_memmap_entry list \<Rightarrow> bool" where
  "loader_map es \<longleftrightarrow> sorted_wrt loader_order es \<and>
     (\<forall>e \<in> set es. unat (lm_base e) + unat (lm_length e) \<le> 2 ^ 64)"

lemma loader_map_nth:
  assumes "loader_map es"
  shows "j < k \<Longrightarrow> k < length es \<Longrightarrow> loader_order (es ! j) (es ! k)"
    and "j < length es \<Longrightarrow> unat (lm_base (es ! j)) + unat (lm_length (es ! j)) \<le> 2 ^ 64"
  using assms by (auto simp: loader_map_def sorted_wrt_iff_nth_less)

lemma ignore_iommu_sel [simp]:
  "lm_base (limine_ignore_iommu e) = lm_base e" "lm_length (limine_ignore_iommu e) = lm_length e"
  "lm_type (limine_ignore_iommu e) = LIMINE_MEMMAP_USABLE \<Longrightarrow> lm_type e = LIMINE_MEMMAP_USABLE"
  by (auto simp: limine_ignore_iommu_def split: if_splits)

lemma loader_map_ignore:
  assumes "loader_map es"
  shows "loader_map (map limine_ignore_iommu es)"
proof -
  have "loader_order x y \<Longrightarrow> loader_order (limine_ignore_iommu x) (limine_ignore_iommu y)" for x y
    using ignore_iommu_sel(3) [of x] ignore_iommu_sel(3) [of y] by (auto simp: loader_order_def)
  then show ?thesis
    using assms by (auto simp: loader_map_def sorted_wrt_map elim: sorted_wrt_mono_rel [rotated])
qed

section \<open>The pages that are taken\<close>

lemma find_pair_spec:
  "limine_find_pair mp k es = Some i \<Longrightarrow>
     k \<le> i \<and> Suc (i - k) < length es \<and> lm_type (es ! Suc (i - k)) = LIMINE_MEMMAP_USABLE \<and>
     limine_mmap_type_convert (lm_type (es ! (i - k))) = MEMORY_MAP_BUSY \<and>
     lm_length (es ! Suc (i - k)) div PAGING_PAGE_SIZE > mp"
proof (induction mp k es rule: limine_find_pair.induct)
  case (1 mp k e f es)
  then show ?case by (auto split: if_splits simp: Suc_diff_le dest!: Suc_le_D)
qed simp_all

lemma taken_bytes:
  fixes mp len :: u64
  assumes "len div PAGING_PAGE_SIZE > mp"
  shows "unat (mp * PAGING_PAGE_SIZE) < unat len"
proof -
  have "unat mp < unat len div 4096" using assms by (simp add: word_less_nat_alt unat_div)
  then have "unat mp * 4096 < unat len" by linarith
  moreover have "unat (mp * 4096) = unat mp * 4096"
    using calculation unsigned_less [of len, where ?'a = nat] by (subst unat_times_nowrap) simp_all
  ultimately show ?thesis by simp
qed

definition takes_pages :: "limine_memmap_entry list \<Rightarrow> nat \<Rightarrow> u64 \<Rightarrow> bool" where
  "takes_pages es i bytes \<longleftrightarrow> loader_map es \<and> Suc i < length es \<and>
     lm_type (es ! Suc i) = LIMINE_MEMMAP_USABLE \<and>
     limine_mmap_type_convert (lm_type (es ! i)) = MEMORY_MAP_BUSY \<and>
     unat bytes < unat (lm_length (es ! Suc i))"

abbreviation taken :: "limine_memmap_entry \<Rightarrow> u64 \<Rightarrow> nat set" where
  "taken f bytes \<equiv> {unat (lm_base f) ..< unat (lm_base f) + unat bytes}"

lemma base_taken:
  assumes "takes_pages es i bytes" "j < length es"
  shows "unat (lm_base (limine_take_pages bytes i es ! j)) =
    unat (lm_base (es ! j)) + (if j = Suc i then unat bytes else 0)"
proof -
  have "unat (lm_base (es ! Suc i) + bytes) = unat (lm_base (es ! Suc i)) + unat bytes"
    using assms(1) loader_map_nth(2) [of es "Suc i"] by (intro unat_plus_nowrap) (auto simp: takes_pages_def)
  then show ?thesis using assms by (auto simp: takes_pages_def limine_take_pages_def nth_list_update)
qed

text \<open>A usable entry keeps its memory, the taken pages excepted.\<close>

lemma usable_taken:
  assumes t: "takes_pages es i bytes" and j: "j < length es" and u: "lm_type (es ! j) = LIMINE_MEMMAP_USABLE"
  shows "lm_range (limine_take_pages bytes i es ! j) \<subseteq> lm_range (es ! j) - taken (es ! Suc i) bytes"
    and "unat (lm_base (limine_take_pages bytes i es ! j)) +
      unat (lm_length (limine_take_pages bytes i es ! j)) \<le> 2 ^ 64"
proof -
  let ?f = "es ! Suc i" and ?e = "limine_take_pages bytes i es ! j"
  have m: "loader_map es" and i: "Suc i < length es" and room: "unat bytes < unat (lm_length ?f)"
    using t by (simp_all add: takes_pages_def)
  have "j \<noteq> i" using t u by (auto simp: takes_pages_def limine_mmap_type_convert_def)
  then have len: "unat (lm_length ?e) = unat (lm_length (es ! j)) - (if j = Suc i then unat bytes else 0)"
    using i j room by (auto simp: limine_take_pages_def nth_list_update unat_sub_if_size word_le_nat_alt)
  have "lm_range (es ! j) \<inter> taken ?f bytes = {}" if "j \<noteq> Suc i"
    using loader_map_nth(1) [OF m, of j "Suc i"] loader_map_nth(1) [OF m, of "Suc i" j] that i j u room
    by (cases "j < Suc i") (auto simp: loader_order_def lm_range_def)
  then show "lm_range ?e \<subseteq> lm_range (es ! j) - taken ?f bytes"
    using base_taken [OF t j] len room by (cases "j = Suc i") (auto simp: lm_range_def)
  show "unat (lm_base ?e) + unat (lm_length ?e) \<le> 2 ^ 64"
    using base_taken [OF t j] len room loader_map_nth(2) [OF m j] by (cases "j = Suc i") auto
qed

lemma base_stays_high:
  assumes t: "takes_pages es i bytes" and jk: "j < k" "k < length es"
    and high: "MEGABYTE \<le> lm_base (limine_take_pages bytes i es ! j)"
  shows "MEGABYTE \<le> lm_base (limine_take_pages bytes i es ! k)"
proof -
  have "loader_order (es ! j) (es ! k)" using t jk loader_map_nth(1) by (auto simp: takes_pages_def)
  then show ?thesis
    using t jk high base_taken [OF t, of j] base_taken [OF t, of k]
    by (auto simp: takes_pages_def loader_order_def word_le_nat_alt split: if_splits)
qed

section \<open>The first megabyte\<close>

text \<open>What is free in the list behind \<open>limine_low_memory\<close> was free before and lies above the megabyte.\<close>

lemma low_memory_free:
  assumes "sorted_wrt (\<lambda>x y. MEGABYTE \<le> me_base x \<longrightarrow> MEGABYTE \<le> me_base y) xs"
    and "\<forall>x \<in> set xs. me_signal x = MEMORY_MAP_FREE \<longrightarrow> unat (me_base x) + unat (me_length x) \<le> 2 ^ 64"
    and "e \<in> set (limine_low_memory xs)" "me_signal e = MEMORY_MAP_FREE"
  shows "\<exists>x \<in> set xs. me_signal x = MEMORY_MAP_FREE \<and> me_range e \<subseteq> me_range x \<inter> {0x100000..}"
  using assms
proof (induction xs)
  case (Cons x xs)
  show ?case
  proof (cases "me_base x < MEGABYTE")
    case False
    then have "MEGABYTE \<le> me_base e" using Cons.prems by auto
    then show ?thesis
      using False Cons.prems by (intro bexI [of _ e]) (auto simp: me_range_def word_le_nat_alt)
  next
    case low: True
    show ?thesis
    proof (cases "e \<in> set (limine_low_memory xs)")
      case True
      then show ?thesis using Cons by auto
    next
      case False
      let ?b = "unat (me_base x)" and ?n = "unat (me_length x)"
      have e: "e = x\<lparr>me_length := me_length x - (MEGABYTE - me_base x), me_base := MEGABYTE\<rparr>"
        and nl: "\<not> me_base x + me_length x < MEGABYTE"
        using False low Cons.prems(3,4) by (auto split: if_splits)
      have b: "?b < 0x100000" using low by (simp add: word_less_nat_alt)
      have "?b + ?n \<le> 2 ^ 64" using Cons.prems(2,4) e by simp
      then have "0x100000 \<le> ?b + ?n"
        using nl by (cases "?b + ?n < 2 ^ 64") (simp_all add: word_less_nat_alt unat_plus_nowrap)
      moreover have "unat (MEGABYTE - me_base x) = 0x100000 - ?b"
        using b by (simp add: unat_sub_if_size)
      ultimately have "unat (me_length e) = ?n - (0x100000 - ?b)"
        using b by (simp add: e unat_sub_if_size)
      then have "me_range e \<subseteq> me_range x \<inter> {0x100000..}" using b by (auto simp: e me_range_def)
      then show ?thesis using Cons.prems(4) e by auto
    qed
  qed
qed simp

section \<open>The whole map\<close>

lemma convert_free: "me_signal (limine_convert e) = MEMORY_MAP_FREE \<longleftrightarrow> lm_type e = LIMINE_MEMMAP_USABLE"
  by (simp add: limine_convert_def limine_mmap_type_convert_def)

lemma convert_range [simp]: "me_range (limine_convert e) = lm_range e"
  by (simp add: limine_convert_def me_range_def lm_range_def)

lemma type_taken:
  "takes_pages es i bytes \<Longrightarrow> j < length es \<Longrightarrow> lm_type (limine_take_pages bytes i es ! j) = lm_type (es ! j)"
  by (auto simp: takes_pages_def limine_take_pages_def nth_list_update)

lemma new_map_free:
  assumes t: "takes_pages es i bytes"
    and e: "e \<in> set (limine_new_map (limine_take_pages bytes i es))" "me_signal e = MEMORY_MAP_FREE"
  shows "\<exists>x \<in> set es. lm_type x = LIMINE_MEMMAP_USABLE \<and>
    me_range e \<subseteq> lm_range x \<inter> {0x100000..} - taken (es ! Suc i) bytes"
proof -
  let ?es = "limine_take_pages bytes i es" and ?R = "\<lambda>x y. MEGABYTE \<le> me_base x \<longrightarrow> MEGABYTE \<le> me_base y"
  let ?xs = "tl (map limine_convert ?es)"
  have len: "length ?es = length es" by (simp add: limine_take_pages_def)
  have "sorted_wrt ?R (map limine_convert ?es)"
    using base_stays_high [OF t] by (simp add: sorted_wrt_iff_nth_less len limine_convert_def)
  then have sorted: "sorted_wrt ?R ?xs" by (metis drop_Suc drop_0 sorted_wrt_drop)
  have entry: "\<exists>j < length es. x = limine_convert (?es ! j)" if "x \<in> set ?xs" for x
    using list.set_sel(2) [of "map limine_convert ?es" x] that len
    by (cases "?es = []") (auto simp: in_set_conv_nth)
  have nowrap: "unat (me_base x) + unat (me_length x) \<le> 2 ^ 64"
    if "x \<in> set ?xs" "me_signal x = MEMORY_MAP_FREE" for x
    using entry [OF that(1)] that(2) usable_taken(2) [OF t] type_taken [OF t]
    by (auto simp: convert_free) (simp add: limine_convert_def)
  have "e \<in> set (limine_low_memory ?xs)" using e by (auto simp: limine_new_map_def)
  from low_memory_free [OF sorted _ this e(2)] nowrap obtain x where
    x: "x \<in> set ?xs" "me_signal x = MEMORY_MAP_FREE" "me_range e \<subseteq> me_range x \<inter> {0x100000..}"
    by blast
  then obtain j where j: "j < length es" "x = limine_convert (?es ! j)" using entry by blast
  then have u: "lm_type (es ! j) = LIMINE_MEMMAP_USABLE" using x(2) type_taken [OF t] by (simp add: convert_free)
  show ?thesis using usable_taken(1) [OF t j(1) u] x(3) j u by (intro bexI [of _ "es ! j"]) auto
qed

text \<open>C35:
  The memory map that the kernel makes of the boot loader's calls memory free only when the loader
  called it usable, when it lies above the first megabyte, and when it is not among the pages that the
  kernel takes for the map and the modules, which it takes from the beginning of a usable entry. The loader's
  map is any that is sorted by base and whose usable entries overlap no other, with any number of entries below
  one MiB; stated where \<open>limine_reinterpret\<close> finds an entry to take its pages from and returns.
\<close>

theorem limine_free_is_usable:
  assumes "limine_reinterpret l s = Some s'" "loader_map (l_memory_map l)"
  shows "\<exists>f \<in> set (l_memory_map l). \<exists>bytes.
    bytes = limine_map_pages (of_nat (length (l_memory_map l))) * PAGING_PAGE_SIZE \<and>
    lm_type f = LIMINE_MEMMAP_USABLE \<and> unat bytes < unat (lm_length f) \<and>
    (\<forall>e \<in> set (memory_map s'). me_signal e = MEMORY_MAP_FREE \<longrightarrow>
       (\<exists>x \<in> set (l_memory_map l). lm_type x = LIMINE_MEMMAP_USABLE \<and>
          me_range e \<subseteq> lm_range x \<inter> {0x100000..} - taken f bytes))"
proof -
  let ?n = "of_nat (length (l_memory_map l)) :: u64" and ?es = "map limine_ignore_iommu (l_memory_map l)"
  let ?bytes = "limine_map_pages ?n * PAGING_PAGE_SIZE"
  obtain i where i: "limine_find_pair (limine_map_pages ?n) 0 ?es = Some i"
    and map: "memory_map s' = limine_new_map (limine_take_pages ?bytes i ?es)"
    using assms(1) by (auto simp: limine_reinterpret_def Let_def split: bind_splits if_splits)
  note pair = find_pair_spec [OF i]
  have t: "takes_pages ?es i ?bytes"
    using pair taken_bytes [of "limine_map_pages ?n" "lm_length (?es ! Suc i)"] loader_map_ignore [OF assms(2)]
    by (auto simp: takes_pages_def)
  let ?f = "l_memory_map l ! Suc i"
  have "lm_type ?f = LIMINE_MEMMAP_USABLE" "Suc i < length (l_memory_map l)" "unat ?bytes < unat (lm_length ?f)"
      "lm_base (?es ! Suc i) = lm_base ?f"
    using t ignore_iommu_sel(3) [of ?f] by (auto simp: takes_pages_def)
  moreover have "\<exists>x \<in> set (l_memory_map l). lm_type x = LIMINE_MEMMAP_USABLE \<and>
      me_range e \<subseteq> lm_range x \<inter> {0x100000..} - taken ?f ?bytes"
    if e: "e \<in> set (memory_map s')" "me_signal e = MEMORY_MAP_FREE" for e
    using new_map_free [OF t e(1) [unfolded map] e(2)] calculation(4)
    by (fastforce simp: lm_range_def dest: ignore_iommu_sel(3))
  ultimately show ?thesis by (intro bexI [of _ ?f]) auto
qed

section \<open>A sample map\<close>

definition small_boot :: boot_state where
  "small_boot = call_state.extend small_call
     \<lparr>memory_map = [], boot_modules = [], kernel_physical_load = 0, kernel_virtual_load = 0, loaded_rsdp = 0\<rparr>"

text \<open>Low memory, the kernel and 16 MiB of usable memory behind it.\<close>

definition small_loader :: limine_answers where
  "small_loader = \<lparr>l_rsdp = 0xE0000,
     l_memory_map =
       [\<lparr>lm_base = 0, lm_length = 0x9F000, lm_type = LIMINE_MEMMAP_USABLE\<rparr>,
        \<lparr>lm_base = 0x100000, lm_length = 0x200000, lm_type = LIMINE_MEMMAP_KERNEL_AND_MODULES\<rparr>,
        \<lparr>lm_base = 0x300000, lm_length = 0x1000000, lm_type = LIMINE_MEMMAP_USABLE\<rparr>],
     l_physical_base = 0x100000, l_virtual_base = 0xffffffff80000000,
     l_framebuffers = [\<lparr>lf_address = 0xe0000000, lf_width = 640, lf_height = 480, lf_pitch = 2560, lf_bpp = 32\<rparr>],
     l_modules = []\<rparr>"

lemma small_loader_map: "loader_map (l_memory_map small_loader)"
  by (simp add: small_loader_def loader_map_def loader_order_def)

lemma small_reinterpret:
  "\<exists>s'. limine_reinterpret small_loader small_boot = Some s' \<and>
     memory_map s' =
       [\<lparr>me_base = 0, me_length = 0x100000, me_signal = MEMORY_MAP_NOUSE\<rparr>,
        \<lparr>me_base = 0x100000, me_length = 0x203000, me_signal = MEMORY_MAP_BUSY\<rparr>,
        \<lparr>me_base = 0x303000, me_length = 0xFFD000, me_signal = MEMORY_MAP_FREE\<rparr>]"
  by (simp add: limine_reinterpret_def small_loader_def limine_map_pages_def limine_ignore_iommu_def
      limine_mmap_type_convert_def limine_new_map_def limine_take_pages_def limine_convert_def)

lemma limine_free_is_usable_witness:
  "\<exists>s'. limine_reinterpret small_loader small_boot = Some s' \<and>
     (\<exists>e \<in> set (memory_map s'). me_signal e = MEMORY_MAP_FREE \<and> 0x303000 \<in> me_range e \<and>
        me_range e \<subseteq> {0x100000..})"
proof -
  obtain s' where s': "limine_reinterpret small_loader small_boot = Some s'"
    and e: "\<lparr>me_base = 0x303000, me_length = 0xFFD000, me_signal = MEMORY_MAP_FREE\<rparr> \<in> set (memory_map s')"
      (is "?e \<in> _")
    using small_reinterpret by auto
  have "me_range ?e \<subseteq> {0x100000..}"
    using limine_free_is_usable [OF s' small_loader_map] e by fastforce
  then show ?thesis using s' e by (intro exI [of _ s'] conjI bexI [of _ ?e]) (auto simp: me_range_def)
qed

end
