(* ===== verification/Pmm_Boot.thy ===== *)
theory Pmm_Boot
  imports Pmm_Start Pmm_Recombine
begin

text \<open>
  \<open>pmm_start\<close> establishes the invariant that the operations of the manager keep: on a memory map of
  whole pages in order, it ends with a well-formed section list that has the state of every address
  as the map has it, gaps out of use, and the manager's own area as used.
\<close>

section \<open>Memory maps\<close>

definition me_end :: "memory_map_entry \<Rightarrow> nat" where
  "me_end e = unat (me_base e) + unat (me_length e)"

definition in_entry :: "memory_map_entry \<Rightarrow> nat \<Rightarrow> bool" where
  "in_entry e a \<longleftrightarrow> unat (me_base e) \<le> a \<and> a < me_end e"

text \<open>A non-empty entry of whole pages, at an address that the processor can have.\<close>

definition whole_pages :: "memory_map_entry \<Rightarrow> bool" where
  "whole_pages e \<longleftrightarrow> 4096 dvd unat (me_base e) \<and> 4096 dvd unat (me_length e) \<and> me_length e \<noteq> 0 \<and>
     me_end e \<le> 2 ^ 52"

fun in_order :: "nat \<Rightarrow> memory_map_entry list \<Rightarrow> bool" where
  "in_order b [] = True"
| "in_order b (e # es) = (b \<le> unat (me_base e) \<and> whole_pages e \<and> in_order (me_end e) es)"

text \<open>
  The first MiB as the loader's glue leaves it, behind it entries in order, the last of them not free.
\<close>

definition boot_map :: "memory_map_entry list \<Rightarrow> bool" where
  "boot_map es \<longleftrightarrow> es \<noteq> [] \<and> tl es \<noteq> [] \<and> length es \<le> 1000 \<and>
     hd es = \<lparr>me_base = 0, me_length = MEGABYTE, me_signal = MEMORY_MAP_NOUSE\<rparr> \<and>
     in_order 0x100000 (tl es) \<and> me_signal (last es) \<noteq> MEMORY_MAP_FREE"

text \<open>The state of an address: that of its entry, or bad in a gap below the end of the map.\<close>

definition map_state :: "memory_map_entry list \<Rightarrow> nat \<Rightarrow> u64 option" where
  "map_state es a =
     (if es = [] \<or> me_end (last es) \<le> a then None
      else Some (case find (\<lambda>e. in_entry e a) es of
          None \<Rightarrow> PMM_SECTION_BAD | Some e \<Rightarrow> pmm_interpret_signal (me_signal e)))"

lemma in_order_mem: "in_order b es \<Longrightarrow> e \<in> set es \<Longrightarrow> b \<le> unat (me_base e) \<and> whole_pages e"
  by (induction es arbitrary: b) (fastforce simp: me_end_def)+

lemma in_order_find: "in_order b es \<Longrightarrow> e \<in> set es \<Longrightarrow> in_entry e a \<Longrightarrow> find (\<lambda>e. in_entry e a) es = Some e"
proof (induction es arbitrary: b)
  case (Cons f es)
  then show ?case
    using in_order_mem [of "me_end f" es e] by (cases "e = f") (auto simp: in_entry_def)
qed simp

lemma in_order_last: "in_order b es \<Longrightarrow> es \<noteq> [] \<Longrightarrow> b < me_end (last es)"
proof (induction es arbitrary: b)
  case (Cons e es)
  have "b < me_end e"
    using Cons.prems(1) unat_gt_0 [of "me_length e"] by (simp add: whole_pages_def me_end_def)
  then show ?case using Cons.IH [of "me_end e"] Cons.prems(1) by (cases "es = []") auto
qed simp

lemma in_order_le_last: "in_order b es \<Longrightarrow> e \<in> set es \<Longrightarrow> me_end e \<le> me_end (last es)"
proof (induction es arbitrary: b)
  case (Cons f fs)
  then show ?case using in_order_last [of "me_end f" fs] by (cases "fs = []") (auto intro: less_imp_le)
qed simp

lemma pages_of_whole: "4096 dvd unat w \<Longrightarrow> 4096 * unat (pages_of w) = unat w"
proof -
  assume d: "4096 dvd unat w"
  then have "unat (w mod 4096) = 0" by (simp add: unat_mod)
  then have "w mod 4096 = 0" by (simp add: unat_eq_zero)
  then have "unat (pages_of w) = unat w div 4096" by (simp add: pages_of_def unat_div)
  then show ?thesis using d by simp
qed

lemma pages_of_mult: "4096 dvd unat w \<Longrightarrow> pages_of w * 4096 = w"
proof -
  assume d: "4096 dvd unat w"
  have "unat (pages_of w) * unat (4096 :: u64) < 2 ^ LENGTH(64)"
    using pages_of_whole [OF d] unsigned_less [of w, where ?'a = nat] by simp
  from unat_times_nowrap [OF this] have "unat (pages_of w * 4096) = unat w"
    using pages_of_whole [OF d] by simp
  then show ?thesis by (simp only: word_unat_eq_iff)
qed

section \<open>The sections of a map\<close>

definition gap_section :: "u64 \<Rightarrow> u64 \<Rightarrow> pmm_section" where
  "gap_section a b = \<lparr>sec_prev = None, sec_next = None, sec_start = a, sec_pages = pages_of (b - a),
     sec_free = PMM_SECTION_BAD\<rparr>"

definition entry_section :: "memory_map_entry \<Rightarrow> pmm_section" where
  "entry_section e = \<lparr>sec_prev = None, sec_next = None, sec_start = me_base e,
     sec_pages = pages_of (me_length e), sec_free = pmm_interpret_signal (me_signal e)\<rparr>"

fun boot_secs :: "u64 \<Rightarrow> memory_map_entry list \<Rightarrow> pmm_section list" where
  "boot_secs w [] = []"
| "boot_secs w (e # es) = (if w = me_base e then [] else [gap_section w (me_base e)]) @
     entry_section e # boot_secs (me_base e + me_length e) es"

lemma whole_pages_end: "whole_pages e \<Longrightarrow> unat (me_base e + me_length e) = me_end e"
  by (subst unat_plus_nowrap) (auto simp: whole_pages_def me_end_def)

lemma entry_chain: "whole_pages e \<Longrightarrow> unat (me_base e) + 4096 * unat (pages_of (me_length e)) = me_end e"
  by (simp add: whole_pages_def me_end_def pages_of_whole)

lemma gap_chain:
  assumes "a \<le> b" "4096 dvd unat a" "4096 dvd unat b"
  shows "unat a + 4096 * unat (pages_of (b - a)) = unat b"
  using assms by (simp add: pages_of_whole unat_sub word_le_nat_alt dvd_diff_nat)

lemma boot_secs_chain:
  "in_order (unat w) es \<Longrightarrow> 4096 dvd unat w \<Longrightarrow> chain (unat w) (boot_secs w es) \<and>
     chain_end (unat w) (boot_secs w es) = (if es = [] then unat w else me_end (last es)) \<and>
     (\<forall>x \<in> set (boot_secs w es). sec_pages x \<noteq> 0)"
proof (induction w es rule: boot_secs.induct)
  case (2 w e es)
  let ?w = "me_base e + me_length e"
  have e: "whole_pages e" "unat w \<le> unat (me_base e)" "in_order (me_end e) es" using "2.prems" by simp_all
  note we = whole_pages_end [OF e(1)]
  have "4096 dvd me_end e" using e(1) by (simp add: whole_pages_def me_end_def)
  then have IH: "chain (me_end e) (boot_secs ?w es) \<and>
      chain_end (me_end e) (boot_secs ?w es) = (if es = [] then me_end e else me_end (last es)) \<and>
      (\<forall>x \<in> set (boot_secs ?w es). sec_pages x \<noteq> 0)"
    using "2.IH" we e by simp
  have g: "unat w + 4096 * unat (pages_of (me_base e - w)) = unat (me_base e)"
    using e "2.prems" by (intro gap_chain) (simp_all add: word_le_nat_alt whole_pages_def)
  have "sec_pages (entry_section e) \<noteq> 0"
    using entry_chain [OF e(1)] e(1) by (auto simp: entry_section_def whole_pages_def me_end_def unat_eq_zero)
  moreover have "sec_pages (gap_section w (me_base e)) \<noteq> 0" if "w \<noteq> me_base e"
    using g that by (auto simp: gap_section_def word_unat_eq_iff)
  ultimately show ?case
    using IH g entry_chain [OF e(1)] by (auto simp: gap_section_def entry_section_def)
qed simp

lemma boot_secs_state:
  "in_order (unat w) es \<Longrightarrow> 4096 dvd unat w \<Longrightarrow> page_state (boot_secs w es) a =
     (if unat w \<le> a then map_state es a else None)"
proof (induction w es rule: boot_secs.induct)
  case (2 w e es)
  let ?w = "me_base e + me_length e"
  have e: "whole_pages e" "unat w \<le> unat (me_base e)" "in_order (me_end e) es" using "2.prems" by simp_all
  note we = whole_pages_end [OF e(1)]
  have "4096 dvd me_end e" using e(1) by (simp add: whole_pages_def me_end_def)
  then have IH: "page_state (boot_secs ?w es) a = (if me_end e \<le> a then map_state es a else None)"
    using "2.IH" we e by simp
  have g: "unat w + 4096 * unat (pages_of (me_base e - w)) = unat (me_base e)"
    using e "2.prems" by (intro gap_chain) (simp_all add: word_le_nat_alt whole_pages_def)
  have later: "find (\<lambda>e. in_entry e a) es = None" if "a < me_end e"
    using in_order_mem [OF e(3)] that by (fastforce simp: find_None_iff in_entry_def)
  have "me_end e < me_end (last es)" if "es \<noteq> []" using in_order_last [OF e(3) that] .
  moreover have "unat (me_base e) \<le> me_end e" by (simp add: me_end_def)
  ultimately show ?case
    using IH g entry_chain [OF e(1)] later e(2)
    by (auto simp: gap_section_def entry_section_def in_section_def map_state_def in_entry_def)
qed (simp add: map_state_def)

lemma boot_secs_Nil_iff [simp]: "boot_secs w es = [] \<longleftrightarrow> es = []"
  by (cases es) simp_all

lemma boot_secs_last: "es \<noteq> [] \<Longrightarrow> last (boot_secs w es) = entry_section (last es)"
  by (induction w es rule: boot_secs.induct) auto

section \<open>Placing the entries\<close>

lemma pmm_place_new:
  assumes "pmm_links (js @ [c]) s" "pmm_room (Suc r) s"
  defines "n \<equiv> unat (pmm_section_head s)"
  shows "\<exists>s'. do { (new, s) \<leftarrow> pmm_new_section s;
        s \<leftarrow> st (sec_next_update (\<lambda>_. new)) (Some c) s;
        s \<leftarrow> st (\<lambda>x. x\<lparr>sec_prev := Some c, sec_next := None, sec_start := me_base e,
              sec_free := pmm_interpret_signal (me_signal e),
              sec_pages := pages_of (me_length e)\<rparr>) new s;
        Some (new, s) } = Some (Some n, s') \<and>
     pmm_links (js @ [c, n]) s' \<and> pmm_room r s' \<and> pmm_frame s s' \<and>
     secs (slots s') (js @ [c]) = secs (slots s) (js @ [c]) \<and> bare (slots s' n) = entry_section e"
proof -
  note new = pmm_new_section_fresh [OF assms(1,2), folded n_def]
  have n: "n \<notin> set js" "n \<noteq> c"
    using pmm_links_no_fresh_mem [OF assms(1)] by (auto simp: n_def)
  show ?thesis
    using assms(1,2) new n
    by (simp add: pmm_links_def pmm_room_def n_def [symmetric] entry_section_def bare_def)
       (auto intro: less_SucI)
qed

lemma pmm_fill_gap_run:
  assumes "pmm_links (js @ [c, n]) s" "pmm_room (Suc r) s"
  defines "m \<equiv> unat (pmm_section_head s)"
    and "w \<equiv> sec_start (slots s c) + sec_pages (slots s c) * PAGING_PAGE_SIZE"
  shows "\<exists>s'. pmm_fill_gap (Some n) s = Some s' \<and>
     pmm_links (js @ c # (if w = sec_start (slots s n) then [] else [m]) @ [n]) s' \<and>
     pmm_room r s' \<and> pmm_frame s s' \<and> slots s' c = slots s c\<lparr>sec_next := sec_next (slots s' c)\<rparr> \<and>
     secs (slots s') (js @ c # (if w = sec_start (slots s n) then [] else [m]) @ [n]) =
       secs (slots s) (js @ [c]) @
         (if w = sec_start (slots s n) then [] else [gap_section w (sec_start (slots s n))]) @
         [bare (slots s n)]"
proof (cases "w = sec_start (slots s n)")
  case True
  then show ?thesis
    using assms(1,2) by (auto simp: pmm_fill_gap_def pmm_links_def w_def pmm_room_def)
next
  case False
  note new = pmm_new_section_fresh [OF assms(1,2), folded m_def]
  have m: "m \<notin> set js" "m \<noteq> c" "m \<noteq> n" and "c \<noteq> n" "n \<notin> set js" "c \<notin> set js"
    using pmm_links_no_fresh_mem [OF assms(1)] assms(1) by (auto simp: m_def pmm_links_def)
  then show ?thesis
    using assms(1,2) new False
    by (simp add: pmm_fill_gap_def pmm_links_def pmm_room_def m_def [symmetric] w_def gap_section_def bare_def)
       (auto intro: less_SucI)
qed

lemma pmm_place_entry_run:
  assumes "pmm_links (js @ [c]) s" "pmm_room (Suc (Suc r)) s"
    and "w = sec_start (slots s c) + sec_pages (slots s c) * PAGING_PAGE_SIZE"
    and "me_base e \<noteq> sec_start (slots s c)"
  shows "\<exists>s' ks n. pmm_place_entry (Some c) e s = Some (Some n, s') \<and> pmm_links ((js @ c # ks) @ [n]) s' \<and>
     pmm_room r s' \<and> pmm_frame s s' \<and> bare (slots s' n) = entry_section e \<and>
     secs (slots s') ((js @ c # ks) @ [n]) = secs (slots s) (js @ [c]) @
       (if w = me_base e then [] else [gap_section w (me_base e)]) @ [entry_section e]"
proof -
  from pmm_place_new [OF assms(1,2), of e] obtain s1 n where
    p1: "do { (new, s) \<leftarrow> pmm_new_section s;
        s \<leftarrow> st (sec_next_update (\<lambda>_. new)) (Some c) s;
        s \<leftarrow> st (\<lambda>x. x\<lparr>sec_prev := Some c, sec_next := None, sec_start := me_base e,
              sec_free := pmm_interpret_signal (me_signal e),
              sec_pages := pages_of (me_length e)\<rparr>) new s;
        Some (new, s) } = Some (Some n, s1)"
    and l1: "pmm_links (js @ [c, n]) s1" "pmm_room (Suc r) s1" "pmm_frame s s1"
      "secs (slots s1) (js @ [c]) = secs (slots s) (js @ [c])" "bare (slots s1 n) = entry_section e"
    by blast
  have b: "bare (slots s1 c) = bare (slots s c)" using l1(4) by (simp add: secs_def)
  have c: "sec_start (slots s1 c) = sec_start (slots s c)" "sec_pages (slots s1 c) = sec_pages (slots s c)"
    using arg_cong [OF b, of sec_start] arg_cong [OF b, of sec_pages] by simp_all
  have n: "sec_start (slots s1 n) = me_base e"
    using arg_cong [OF l1(5), of sec_start] by (simp add: entry_section_def)
  define ks where "ks = (if w = me_base e then [] else [unat (pmm_section_head s1)])"
  from pmm_fill_gap_run [OF l1(1,2)] obtain s2 where
    p2: "pmm_fill_gap (Some n) s1 = Some s2" "pmm_links (js @ c # ks @ [n]) s2" "pmm_room r s2" "pmm_frame s1 s2"
      "secs (slots s2) (js @ c # ks @ [n]) = secs (slots s) (js @ [c]) @
         (if w = me_base e then [] else [gap_section w (me_base e)]) @ [entry_section e]"
    unfolding n c assms(3) [symmetric] l1(4,5) ks_def by blast
  have "pmm_place_entry (Some c) e s = Some (Some n, s2)"
    using p1 p2(1) assms(4) by (auto simp: pmm_place_entry_def split: bind_splits)
  moreover have "bare (slots s2 n) = entry_section e"
    using arg_cong [OF p2(5), of last] by simp
  ultimately show ?thesis
    using p2 pmm_frame_trans [OF l1(3) p2(4)] by (intro exI [of _ s2] exI [of _ ks] exI [of _ n]) simp
qed

lemma pmm_place_entries_run:
  assumes "pmm_links (js @ [c]) s" "pmm_room (r + 2 * length es) s"
    and "w = sec_start (slots s c) + sec_pages (slots s c) * PAGING_PAGE_SIZE"
    and "unat (sec_start (slots s c)) < unat w" and "in_order (unat w) es"
  shows "\<exists>s' is. pmm_place_entries (Some c) es s = Some s' \<and> pmm_links is s' \<and> pmm_room r s' \<and>
     pmm_frame s s' \<and> secs (slots s') is = secs (slots s) (js @ [c]) @ boot_secs w es"
  using assms
proof (induction es arbitrary: js c s w)
  case Nil
  then show ?case by auto
next
  case (Cons e es)
  have e: "whole_pages e" "unat w \<le> unat (me_base e)" "in_order (me_end e) es" using Cons.prems(5) by simp_all
  have room: "pmm_room (Suc (Suc (r + 2 * length es))) s" using Cons.prems(2) by simp
  have ne: "me_base e \<noteq> sec_start (slots s c)" using e(2) Cons.prems(4) by auto
  from pmm_place_entry_run [OF Cons.prems(1) room Cons.prems(3) ne] obtain s1 ks n where
    p1: "pmm_place_entry (Some c) e s = Some (Some n, s1)" "pmm_links ((js @ c # ks) @ [n]) s1"
      "pmm_room (r + 2 * length es) s1" "pmm_frame s s1" "bare (slots s1 n) = entry_section e"
      "secs (slots s1) ((js @ c # ks) @ [n]) = secs (slots s) (js @ [c]) @
       (if w = me_base e then [] else [gap_section w (me_base e)]) @ [entry_section e]"
    by blast
  have n: "sec_start (slots s1 n) = me_base e" "sec_pages (slots s1 n) = pages_of (me_length e)"
    using arg_cong [OF p1(5), of sec_start] arg_cong [OF p1(5), of sec_pages]
    by (simp_all add: entry_section_def)
  let ?w = "me_base e + me_length e"
  have w: "?w = sec_start (slots s1 n) + sec_pages (slots s1 n) * 4096"
    using e(1) by (simp add: n whole_pages_def pages_of_mult)
  have "unat (me_base e) < me_end e"
    using e(1) unat_gt_0 [of "me_length e"] by (simp add: whole_pages_def me_end_def)
  then have "\<exists>s' is. pmm_place_entries (Some n) es s1 = Some s' \<and> pmm_links is s' \<and> pmm_room r s' \<and>
     pmm_frame s1 s' \<and> secs (slots s') is = secs (slots s1) ((js @ c # ks) @ [n]) @ boot_secs ?w es"
    using p1(2,3) w e whole_pages_end [OF e(1)] by (intro Cons.IH) (simp_all add: n)
  then obtain s' "is" where "pmm_place_entries (Some n) es s1 = Some s'" "pmm_links is s'" "pmm_room r s'"
      "pmm_frame s1 s'" "secs (slots s') is = secs (slots s1) ((js @ c # ks) @ [n]) @ boot_secs ?w es"
    by blast
  then show ?case
    using p1(1,4,6) pmm_frame_trans [of s s1 s'] by (intro exI [of _ s'] exI [of _ "is"]) simp
qed

section \<open>The free memory\<close>

definition free_bytes :: "(nat \<Rightarrow> u64 option) \<Rightarrow> nat set" where
  "free_bytes m = {a. m a = Some PMM_SECTION_FREE}"

lemma free_bytes_Cons:
  assumes "chain b (x # xs)"
  shows "free_bytes (page_state (x # xs)) =
      (if sec_free x = PMM_SECTION_FREE then {b ..< b + 4096 * unat (sec_pages x)} else {}) \<union>
      free_bytes (page_state xs)"
    and "free_bytes (page_state xs) \<subseteq> {b + 4096 * unat (sec_pages x) ..< chain_end b (x # xs)}"
proof -
  let ?c = "b + 4096 * unat (sec_pages x)"
  have r: "page_state xs a \<noteq> None \<Longrightarrow> ?c \<le> a \<and> a < chain_end ?c xs" for a
    using assms page_state_range [of ?c xs a] by simp
  show "free_bytes (page_state xs) \<subseteq> {?c ..< chain_end b (x # xs)}"
    using r by (fastforce simp: free_bytes_def)
  show "free_bytes (page_state (x # xs)) =
      (if sec_free x = PMM_SECTION_FREE then {b ..< ?c} else {}) \<union> free_bytes (page_state xs)"
  proof (rule set_eqI)
    fix a
    have "in_section x a \<longleftrightarrow> b \<le> a \<and> a < ?c" using assms by (simp add: in_section_def)
    then show "a \<in> free_bytes (page_state (x # xs)) \<longleftrightarrow>
        a \<in> (if sec_free x = PMM_SECTION_FREE then {b ..< ?c} else {}) \<union> free_bytes (page_state xs)"
      using r [of a] by (auto simp: free_bytes_def)
  qed
qed

lemma pmm_sum_free_run:
  assumes "dseg (slots s) p is None" "tiles b (secs (slots s) is)" "unat acc \<le> b"
  shows "\<exists>n. pmm_sum_free (hd_ptr is None) acc s = Some n \<and>
    unat n = unat acc + card (free_bytes (page_state (secs (slots s) is)))"
  using assms
proof (induction "is" arbitrary: p acc b)
  case Nil
  then show ?case by (subst pmm_sum_free.simps) (simp add: free_bytes_def)
next
  case (Cons i "is")
  let ?x = "bare (slots s i)" and ?xs = "secs (slots s) is"
  let ?c = "b + 4096 * unat (sec_pages ?x)"
  let ?acc = "if sec_free ?x = PMM_SECTION_FREE then acc + sec_pages ?x * PAGING_PAGE_SIZE else acc"
  have c: "chain b (?x # ?xs)" and T: "tiles b ([] @ ?x # ?xs)" using Cons.prems(2) by (simp_all add: tiles_def)
  note fb = free_bytes_Cons [OF c] and at = tiles_at [OF T]
  have "unat acc + unat (sec_pages ?x * 4096) < 2 ^ LENGTH(64)"
    using at(2,3) Cons.prems(3) by simp
  from unat_plus_nowrap [OF this] have "unat (acc + sec_pages ?x * 4096) = unat acc + 4096 * unat (sec_pages ?x)"
    using at(3) by simp
  then have acc: "unat ?acc = unat acc + (if sec_free ?x = PMM_SECTION_FREE then 4096 * unat (sec_pages ?x) else 0)"
    by simp
  have fin: "finite (free_bytes (page_state ?xs))" using fb(2) finite_subset by blast
  have "card (free_bytes (page_state (?x # ?xs))) =
      (if sec_free ?x = PMM_SECTION_FREE then 4096 * unat (sec_pages ?x) else 0) + card (free_bytes (page_state ?xs))"
  proof (cases "sec_free ?x = PMM_SECTION_FREE")
    case True
    have "{b ..< ?c} \<inter> free_bytes (page_state ?xs) = {}" using fb(2) by auto
    then show ?thesis using True fb(1) fin by (simp add: card_Un_disjoint del: page_state.simps)
  qed (use fb(1) in simp)
  moreover have "\<exists>n. pmm_sum_free (hd_ptr is None) ?acc s = Some n \<and>
      unat n = unat ?acc + card (free_bytes (page_state ?xs))"
    using Cons.prems acc by (intro Cons.IH [of _ ?c]) (auto simp: tiles_def)
  moreover have "pmm_sum_free (hd_ptr (i # is) None) acc s = pmm_sum_free (hd_ptr is None) ?acc s"
    using Cons.prems(1) by (subst pmm_sum_free.simps) simp
  ultimately show ?case unfolding acc secs_simps by (metis add.assoc)
qed

section \<open>The size of the area\<close>

definition area_bytes :: "memory_map_entry list \<Rightarrow> u64" where
  "area_bytes es = pmm_estimate (pmm_usable_memory es) div MAX_PMM_HEADER_PROPORTION"

text \<open>One MiB for each 64 MiB that are begun.\<close>

lemma estimate_bytes:
  assumes "0 < unat u" "unat u \<le> 2 ^ 52"
  shows "\<exists>k. 1 \<le> k \<and> k \<le> 2 ^ 27 \<and> unat (pmm_estimate u div 64) = 0x100000 * k"
proof -
  let ?n = "u div 0x4000000 + (if u mod 0x4000000 \<noteq> 0 then 1 else 0)"
  have d: "unat (u div 0x4000000) = unat u div 0x4000000" by (simp add: unat_div)
  have m: "u mod 0x4000000 = 0 \<longleftrightarrow> unat u mod 0x4000000 = 0" by (simp add: word_unat_eq_iff unat_mod)
  have "unat u div 0x4000000 \<le> 2 ^ 52 div 0x4000000" using assms(2) by (rule div_le_mono)
  then have le: "unat u div 0x4000000 \<le> 2 ^ 26" by simp
  then have "unat (u div 0x4000000) + unat (1 :: u64) < 2 ^ LENGTH(64)" using d by simp
  from unat_plus_nowrap [OF this] have "unat ?n = unat u div 0x4000000 + (if unat u mod 0x4000000 \<noteq> 0 then 1 else 0)"
    using d m by simp
  then have n: "1 \<le> unat ?n" "unat ?n \<le> 2 ^ 27"
    using le assms(1) div_mult_mod_eq [of "unat u" "0x4000000"] by auto
  have "unat ?n * unat (0x4000000 :: u64) < 2 ^ LENGTH(64)" using n by simp
  from unat_times_nowrap [OF this] have "unat (?n * 0x4000000) = 0x4000000 * unat ?n" by simp
  moreover have "pmm_estimate u = ?n * 0x4000000" by (simp add: pmm_estimate_def Let_def)
  ultimately have "unat (pmm_estimate u div 64) = 0x100000 * unat ?n" by (simp only: unat_div) simp
  then show ?thesis using n by blast
qed

definition usable_from :: "u64 \<Rightarrow> memory_map_entry list \<Rightarrow> u64" where
  "usable_from n es = foldl (\<lambda>n e. if me_signal e = MEMORY_MAP_FREE then n + me_length e else n) n es"

lemma usable_from_simps:
  "usable_from n [] = n"
  "usable_from n (e # es) = usable_from (if me_signal e = MEMORY_MAP_FREE then n + me_length e else n) es"
  by (simp_all add: usable_from_def)

lemma usable_from_bounds:
  "in_order b es \<Longrightarrow> unat n \<le> b \<Longrightarrow> b \<le> 2 ^ 52 \<Longrightarrow>
    unat (usable_from n es) \<le> 2 ^ 52 \<and> unat n \<le> unat (usable_from n es) \<and>
    (\<forall>e \<in> set es. me_signal e = MEMORY_MAP_FREE \<longrightarrow> 0 < unat (usable_from n es))"
proof (induction es arbitrary: n b)
  case (Cons e es)
  let ?n = "if me_signal e = MEMORY_MAP_FREE then n + me_length e else n"
  have e: "whole_pages e" "b \<le> unat (me_base e)" "in_order (me_end e) es" using Cons.prems(1) by simp_all
  have "unat n + unat (me_length e) < 2 ^ LENGTH(64)"
    using e(1,2) Cons.prems(2) by (simp add: whole_pages_def me_end_def)
  note add = unat_plus_nowrap [OF this]
  have l: "0 < unat (me_length e)" using e(1) by (simp add: whole_pages_def unat_gt_0)
  have "unat ?n \<le> me_end e" using add e(2) Cons.prems(2) by (simp add: me_end_def)
  moreover have "me_end e \<le> 2 ^ 52" using e(1) by (simp add: whole_pages_def)
  ultimately have IH: "unat (usable_from ?n es) \<le> 2 ^ 52 \<and> unat ?n \<le> unat (usable_from ?n es) \<and>
      (\<forall>e \<in> set es. me_signal e = MEMORY_MAP_FREE \<longrightarrow> 0 < unat (usable_from ?n es))"
    by (rule Cons.IH [OF e(3)])
  have "unat n \<le> unat ?n" using add by simp
  moreover have "0 < unat ?n" if "me_signal e = MEMORY_MAP_FREE" using add l that by simp
  ultimately show ?case using IH unfolding usable_from_simps by fastforce
qed (simp add: usable_from_simps)

lemma area_of_map:
  assumes "in_order 0 es" "pmm_find_area (area_bytes es) es = Some base"
  shows "\<exists>k. 1 \<le> k \<and> k \<le> 2 ^ 27 \<and> unat (area_bytes es) = 0x100000 * k \<and>
      unat (pages_of (area_bytes es)) = 256 * k"
    and "\<exists>e \<in> set es. me_signal e = MEMORY_MAP_FREE \<and> me_base e = base \<and>
      unat (area_bytes es) \<le> unat (me_length e)"
proof -
  obtain e where e: "find (\<lambda>e. me_signal e = MEMORY_MAP_FREE \<and> me_length e \<ge> area_bytes es) es = Some e" "me_base e = base"
    using assms(2) by (auto simp: pmm_find_area_def)
  then have e': "e \<in> set es" "me_signal e = MEMORY_MAP_FREE" "area_bytes es \<le> me_length e"
    by (auto simp: find_Some_iff)
  then show "\<exists>e \<in> set es. me_signal e = MEMORY_MAP_FREE \<and> me_base e = base \<and>
      unat (area_bytes es) \<le> unat (me_length e)"
    using e(2) by (auto simp: word_le_nat_alt)
  have "0 < unat (pmm_usable_memory es)" "unat (pmm_usable_memory es) \<le> 2 ^ 52"
    using usable_from_bounds [OF assms(1), of 0] e'(1,2)
    by (auto simp: pmm_usable_memory_def usable_from_def)
  from estimate_bytes [OF this] obtain k where
    k: "1 \<le> k" "k \<le> 2 ^ 27" "unat (area_bytes es) = 0x100000 * k" by (auto simp: area_bytes_def)
  have "4096 dvd unat (area_bytes es)" unfolding k(3) by (rule dvdI [of _ _ "256 * k"]) simp
  from pages_of_whole [OF this] have "unat (pages_of (area_bytes es)) = 256 * k" using k(3) by simp
  then show "\<exists>k. 1 \<le> k \<and> k \<le> 2 ^ 27 \<and> unat (area_bytes es) = 0x100000 * k \<and>
      unat (pages_of (area_bytes es)) = 256 * k" using k by blast
qed

text \<open>The first MiB as the only section.\<close>

definition boot_first :: "memory_map_entry list \<Rightarrow> u64 \<Rightarrow> 'z pmm_state_scheme \<Rightarrow> 'z pmm_state_scheme" where
  "boot_first es base s =
     (let s = pmm_section_manager_create base (s\<lparr>free_memory := pmm_usable_memory es, pmm_section_head := 0,
        estimated_total_memory := pmm_estimate (pmm_usable_memory es), pmm_data_size := area_bytes es\<rparr>)
      in s\<lparr>slots := (slots s)(0 := entry_section \<lparr>me_base = 0, me_length = MEGABYTE,
           me_signal = MEMORY_MAP_NOUSE\<rparr>)\<rparr>)"

lemma boot_first_run:
  assumes "\<not> pfa_allowing_allocations s" "unat (area_bytes es) = 0x100000 * k" "1 \<le> k" "k \<le> 2 ^ 27"
  shows "pmm_links [0] (boot_first es base s)" and "pmm_room (20000 + 2 * (256 * k) + 2000) (boot_first es base s)"
    and "pfa_allowing_allocations (boot_first es base s) = False"
    and "pmm_base (boot_first es base s) = base" and "pmm_data_size (boot_first es base s) = area_bytes es"
    and "pmm_state.more (boot_first es base s) = pmm_state.more s"
  using assms
  by (simp_all add: boot_first_def pmm_section_manager_create_def Let_def pmm_links_def pmm_room_def
      entry_section_def clear_slot_def)

section \<open>The manager at work\<close>

lemma boot_map_order: "boot_map es \<Longrightarrow> in_order 0 es"
  by (cases es) (auto simp: boot_map_def whole_pages_def me_end_def)

text \<open>What \<open>pmm_start\<close> has before it combines the sections.\<close>

lemma pmm_start_places:
  assumes "boot_map es" "\<not> pfa_allowing_allocations s" "pmm_find_area (area_bytes es) es = Some base"
  defines "k \<equiv> unat (pages_of (area_bytes es))"
  shows "\<exists>t is. pmm_place_entries (pmm_sections (boot_first es base s)) es (boot_first es base s) = Some t \<and>
    pmm_wf is t \<and> tight is t \<and> pmm_room (20000 + 2 * k) t \<and> pmm_frame (boot_first es base s) t \<and>
    page_state (secs (slots t) is) = map_state es"
proof -
  let ?f = "\<lparr>me_base = 0, me_length = MEGABYTE, me_signal = MEMORY_MAP_NOUSE\<rparr> :: memory_map_entry"
  let ?s = "boot_first es base s"
  obtain rest where es: "es = ?f # rest" "rest \<noteq> []" "in_order 0x100000 rest" "length rest \<le> 1000"
    and last: "me_signal (last es) \<noteq> MEMORY_MAP_FREE"
    using assms(1) by (cases es) (auto simp: boot_map_def)
  have order: "in_order (unat (0 :: u64)) es" using boot_map_order [OF assms(1)] by simp
  from area_of_map(1) [OF boot_map_order [OF assms(1)] assms(3)] obtain j where
    j: "1 \<le> j" "j \<le> 2 ^ 27" "unat (area_bytes es) = 0x100000 * j" "k = 256 * j"
    unfolding k_def by blast
  note first = boot_first_run [OF assms(2) j(3,1,2), of base]
  have sec: "slots ?s 0 = entry_section ?f" by (simp add: boot_first_def Let_def)
  have head: "pmm_sections ?s = Some 0" using first(1) by (simp add: pmm_links_def)
  have room: "pmm_room (20000 + 2 * k + 2 * length rest) ?s"
    by (rule pmm_room_mono [OF first(2)]) (use es(4) j(4) in simp)
  have pm: "pages_of MEGABYTE = 256" by (simp add: pages_of_def)
  from pmm_place_entries_run [of "[]" 0 ?s "20000 + 2 * k" rest MEGABYTE] obtain t "is" where
    run: "pmm_place_entries (Some 0) rest ?s = Some t" "pmm_links is t" "pmm_room (20000 + 2 * k) t"
      "pmm_frame ?s t" "secs (slots t) is = secs (slots ?s) [0] @ boot_secs MEGABYTE rest"
    using first(1) room sec es(3) by (auto simp: entry_section_def pm)
  have secs: "secs (slots t) is = boot_secs 0 es"
    using run(5) unfolding secs_simps sec by (subst es(1)) (simp add: entry_section_def bare_def)
  note chain = boot_secs_chain [OF order] and state = boot_secs_state [OF order]
  have "whole_pages (last es)"
    using in_order_mem [OF order, of "last es"] es(1) by simp
  then have "chain_end 0 (boot_secs 0 es) < 2 ^ 64" using chain es(1) by (simp add: whole_pages_def)
  then have tiles: "tiles 0 (boot_secs 0 es)" using chain by (simp add: tiles_def)
  have "guarded (last (boot_secs 0 es))"
  proof -
    have ne: "es \<noteq> []" by (simp add: es(1))
    then have "sec_pages (last (boot_secs 0 es)) \<noteq> 0" using chain last_in_set [of "boot_secs 0 es"] by auto
    then show ?thesis
      using last unfolding boot_secs_last [OF ne]
      by (auto simp: guarded_def entry_section_def pmm_interpret_signal_def)
  qed
  moreover have "first_mib (hd (boot_secs 0 es))"
    by (simp add: es(1) first_mib_def entry_section_def pmm_interpret_signal_def pm)
  ultimately have "pmm_wf is t" using run(2) tiles by (simp add: pmm_wf_def secs)
  moreover have "tight is t" using chain by (simp add: tight_def secs)
  moreover have "page_state (secs (slots t) is) = map_state es" using state by (simp add: secs fun_eq_iff)
  moreover have "pmm_place_entries (pmm_sections ?s) es ?s = Some t"
    using run(1) sec by (simp add: head) (subst es(1), simp add: pmm_place_entry_def entry_section_def)
  ultimately show ?thesis using run by blast
qed

text \<open>A run of free pages lies behind the first section and before the last one.\<close>

lemma free_run_managed:
  assumes wf: "pmm_wf is s" and n: "0 < n"
    and free: "\<And>a. p \<le> a \<Longrightarrow> a < p + n \<Longrightarrow> page_state (secs (slots s) is) a = Some PMM_SECTION_FREE"
  shows "4096 * unat (sec_pages (hd (secs (slots s) is))) \<le> p"
    and "p + n \<le> unat (sec_start (last (secs (slots s) is)))"
proof -
  let ?xs = "secs (slots s) is"
  have T: "tiles 0 ?xs" and g: "first_mib (hd ?xs)" "guarded (last ?xs)" and ne: "?xs \<noteq> []"
    using wf by (auto simp: pmm_wf_def pmm_links_def)
  have ht: "hd ?xs # tl ?xs = ?xs" using ne by simp
  then have T0: "tiles 0 ([] @ hd ?xs # tl ?xs)" using T by simp
  have T1: "tiles 0 (butlast ?xs @ [last ?xs])" using T ne by simp
  show "4096 * unat (sec_pages (hd ?xs)) \<le> p"
  proof (rule ccontr)
    assume "\<not> 4096 * unat (sec_pages (hd ?xs)) \<le> p"
    then have "in_section (hd ?xs) p" using tiles_at(1) [OF T0] by (simp add: in_section_def)
    from page_state_at [OF T0 this, unfolded append_Nil ht] show False
      using free [of p] g(1) n by (simp add: first_mib_def)
  qed
  let ?b = "unat (sec_start (last ?xs))"
  have c: "chain 0 ?xs" using T by (simp add: tiles_def)
  show "p + n \<le> ?b"
  proof (rule ccontr)
    assume "\<not> p + n \<le> ?b"
    then have m: "p \<le> p + n - 1" "p + n - 1 < p + n" "?b \<le> p + n - 1" using n by simp_all
    have "p + n - 1 < chain_end 0 ?xs"
      using page_state_range [OF c, of "p + n - 1"] free [OF m(1,2)] by simp
    moreover have "chain_end 0 ?xs = ?b + 4096 * unat (sec_pages (last ?xs))"
      using tiles_at(1) [OF T1] arg_cong [OF append_butlast_last_id [OF ne], of "chain_end 0"] by simp
    ultimately have "in_section (last ?xs) (p + n - 1)" using m(3) by (simp add: in_section_def)
    from page_state_at [OF T1 this] show False
      using free [OF m(1,2)] g(2) ne by (simp add: guarded_def)
  qed
qed

text \<open>The area of the manager is free in the map.\<close>

lemma area_free:
  assumes "in_order 0 es" "pmm_find_area (area_bytes es) es = Some base"
    and "unat base \<le> a" "a < unat base + unat (area_bytes es)"
  shows "map_state es a = Some PMM_SECTION_FREE"
proof -
  obtain e where e: "e \<in> set es" "me_signal e = MEMORY_MAP_FREE" "me_base e = base"
      "unat (area_bytes es) \<le> unat (me_length e)"
    using area_of_map(2) [OF assms(1,2)] by blast
  then have i: "in_entry e a" using assms(3,4) by (simp add: in_entry_def me_end_def)
  show ?thesis
    using in_order_le_last [OF assms(1) e(1)] in_order_find [OF assms(1) e(1) i] e(1,2) i
    by (auto simp: map_state_def in_entry_def pmm_interpret_signal_def)
qed

lemma pmm_start_unfold:
  assumes "\<not> pfa_allowing_allocations s" "pmm_find_area (area_bytes es) es = Some base"
  shows "pmm_start es s = do {
     let s = boot_first es base s;
     s \<leftarrow> pmm_place_entries (pmm_sections s) es s;
     s \<leftarrow> pmm_recombine s;
     s \<leftarrow> pmm_recalculate_free_memory s;
     let s = s\<lparr>pfa_allowing_allocations := True\<rparr>;
     pmm_lock_pages (pmm_base s) (pages_of (pmm_data_size s)) s }"
proof -
  have "pages_of MEGABYTE = 256" by (simp add: pages_of_def)
  then show ?thesis
    using assms by (simp add: pmm_start_def Let_def area_bytes_def [symmetric] boot_first_def
        pmm_first_section_def pmm_section_manager_create_def entry_section_def pmm_interpret_signal_def)
qed

lemma pmm_start_run:
  assumes "boot_map es" and "\<not> pfa_allowing_allocations s"
    and "pmm_find_area (area_bytes es) es = Some base"
  shows "\<exists>s' is. pmm_start es s = Some s' \<and> pmm_wf is s' \<and> tight is s' \<and> pmm_room 20000 s' \<and>
    pfa_allowing_allocations s' \<and> pmm_base s' = base \<and> pmm_state.more s' = pmm_state.more s \<and>
    page_state (secs (slots s') is) =
      set_pages (map_state es) (unat base) (unat (pages_of (area_bytes es))) PMM_SECTION_USED \<and>
    unat (free_memory s') = card (free_bytes (map_state es))"
proof -
  let ?s = "boot_first es base s" and ?k = "unat (pages_of (area_bytes es))"
  note order = boot_map_order [OF assms(1)]
  from area_of_map(1) [OF order assms(3)] obtain j where
    j: "1 \<le> j" "j \<le> 2 ^ 27" "unat (area_bytes es) = 0x100000 * j" "?k = 256 * j" by blast
  note first = boot_first_run [OF assms(2) j(3,1,2), of base]
  from pmm_start_places [OF assms] obtain t0 is0 where
    t0: "pmm_place_entries (pmm_sections ?s) es ?s = Some t0" "pmm_wf is0 t0" "tight is0 t0"
      "pmm_room (20000 + 2 * ?k) t0" "pmm_frame ?s t0" "page_state (secs (slots t0) is0) = map_state es"
    by blast
  from pmm_recombine_run [OF t0(2)] obtain t1 is1 where
    t1: "pmm_recombine t0 = Some t1" "pmm_wf is1 t1" "tight is1 t1" "pmm_frame t0 t1"
      "page_state (secs (slots t1) is1) = map_state es" "pmm_section_head t1 = pmm_section_head t0"
    using t0(3,6) by auto
  have "dseg (slots t1) None is1 None" "tiles 0 (secs (slots t1) is1)" "pmm_sections t1 = hd_ptr is1 None"
    using t1(2) by (simp_all add: pmm_wf_def pmm_links_def)
  with pmm_sum_free_run [of t1 None is1 0 0] obtain n where
    n: "pmm_sum_free (pmm_sections t1) 0 t1 = Some n" "unat n = card (free_bytes (map_state es))"
    by (auto simp: t1(5))
  define t2 where "t2 = t1\<lparr>free_memory := n, pfa_allowing_allocations := True\<rparr>"
  have f1: "pmm_frame ?s t1" using pmm_frame_trans [OF t0(5) t1(4)] .
  have base: "pmm_base t2 = base" "pmm_data_size t2 = area_bytes es" "pmm_state.more t2 = pmm_state.more s"
    using f1 first(4-6) by (simp_all add: pmm_frame_def t2_def)
  have wf2: "pmm_wf is1 t2" "tight is1 t2" "pmm_room (20000 + 2 * ?k) t2" "pfa_allowing_allocations t2"
    using t1(2,3,4,6) t0(4) by (simp_all add: t2_def pmm_wf_def pmm_links_def tight_def pmm_room_def pmm_frame_def)
  have st2: "page_state (secs (slots t2) is1) = map_state es" using t1(5) by (simp add: t2_def)
  have "page_state (secs (slots t2) is1) a = Some PMM_SECTION_FREE"
    if "unat base \<le> a" "a < unat base + 4096 * ?k" for a
    unfolding st2 using that j(3,4) by (intro area_free [OF order assms(3)]) simp_all
  moreover have "0 < 4096 * ?k" using j(1,4) by simp
  ultimately have managed: "4096 * unat (sec_pages (hd (secs (slots t2) is1))) \<le> unat base"
      "unat base + 4096 * ?k \<le> unat (sec_start (last (secs (slots t2) is1)))"
    using free_run_managed [OF wf2(1), of "4096 * ?k" "unat base"] by blast+
  have d: "4096 dvd unat base" using area_of_map(2) [OF order assms(3)] in_order_mem [OF order] by (auto simp: whole_pages_def)
  have "\<exists>s' is'. for_pages pmm_lock_page base ?k t2 = Some s' \<and> pmm_wf is' s' \<and> tight is' s' \<and>
    pmm_frame t2 s' \<and> pmm_room 20000 s' \<and> free_memory s' = free_memory t2 \<and>
    page_state (secs (slots s') is') = set_pages (page_state (secs (slots t2) is1)) (unat base) ?k PMM_SECTION_USED"
    by (rule for_pages_lock_run [OF wf2 d managed])
  moreover have "pmm_start es s = pmm_lock_pages base (pages_of (area_bytes es)) t2"
    using pmm_start_unfold [OF assms(2,3)] t0(1) t1(1) n(1) base
    by (simp add: pmm_recalculate_free_memory_def t2_def)
  ultimately show ?thesis
    using wf2(4) base(1,3) n(2) by (auto simp: pmm_lock_pages_def pmm_frame_def t1(5) t2_def)
qed

text \<open>C9:
  On a memory map of whole pages in order, whose first entry is the first MiB and whose last one is not
  free, with a free entry that is large enough for the section slots (one MiB for each 64 MiB of free memory),
  \<open>pmm_start\<close> ends with the manager ready: the section list is well formed, has no empty section and room
  for 20000 more, and gives every address the state of its entry (a gap is out of use), except that the area
  of the slots is used. \<open>free_memory\<close> is the free memory of the map, the area included.
\<close>

theorem pmm_start_ready:
  assumes "boot_map es" and "\<not> pfa_allowing_allocations s"
    and "pmm_find_area (area_bytes es) es = Some base"
  shows "\<exists>s' is. pmm_start es s = Some s' \<and> pmm_wf is s' \<and> tight is s' \<and> pmm_room 20000 s' \<and>
    pfa_allowing_allocations s' \<and> pmm_base s' = base \<and> pmm_state.more s' = pmm_state.more s \<and>
    page_state (secs (slots s') is) =
      set_pages (map_state es) (unat base) (unat (pages_of (area_bytes es))) PMM_SECTION_USED \<and>
    unat (free_memory s') = card (free_bytes (map_state es))"
  using pmm_start_run [OF assms] .

text \<open>Two MiB with the kernel, 16 MiB of free memory, a hole, and the firmware at the end.\<close>

definition small_map :: "memory_map_entry list" where
  "small_map =
     [\<lparr>me_base = 0, me_length = MEGABYTE, me_signal = MEMORY_MAP_NOUSE\<rparr>,
      \<lparr>me_base = 0x100000, me_length = 0x200000, me_signal = MEMORY_MAP_BUSY\<rparr>,
      \<lparr>me_base = 0x300000, me_length = 0x1000000, me_signal = MEMORY_MAP_FREE\<rparr>,
      \<lparr>me_base = 0xfffc0000, me_length = 0x40000, me_signal = MEMORY_MAP_BUSY\<rparr>]"

lemma small_map_ok: "boot_map small_map" "pmm_find_area (area_bytes small_map) small_map = Some 0x300000"
    "unat (pages_of (area_bytes small_map)) = 256"
  by (simp_all add: small_map_def boot_map_def whole_pages_def me_end_def pmm_find_area_def area_bytes_def
      pmm_usable_memory_def pmm_estimate_def pages_of_def Let_def)

lemma pmm_start_ready_witness:
  "\<exists>s' is. pmm_start small_map (small_memory\<lparr>pfa_allowing_allocations := False\<rparr>) = Some s' \<and> pmm_wf is s' \<and>
    page_state (secs (slots s') is) 0x3fffff = Some PMM_SECTION_USED \<and>
    page_state (secs (slots s') is) 0x400000 = Some PMM_SECTION_FREE \<and>
    page_state (secs (slots s') is) 0x2000000 = Some PMM_SECTION_BAD"
proof -
  have "set_pages (map_state small_map) (unat (0x300000 :: u64)) 256 PMM_SECTION_USED a =
      (if 0x300000 \<le> a \<and> a < 0x400000 then Some PMM_SECTION_USED else map_state small_map a)" for a
    by (simp add: set_pages_def)
  moreover have "map_state small_map 0x400000 = Some PMM_SECTION_FREE"
    "map_state small_map 0x2000000 = Some PMM_SECTION_BAD"
    by (simp_all add: small_map_def map_state_def in_entry_def me_end_def pmm_interpret_signal_def)
  ultimately show ?thesis
    using pmm_start_ready [OF small_map_ok(1) _ small_map_ok(2),
        of "small_memory\<lparr>pfa_allowing_allocations := False\<rparr>"] by (fastforce simp: small_map_ok(3))
qed

end
