(* ===== verification/Boot_Memory.thy ===== *)
theory Boot_Memory
  imports Limine_Props Pmm_Boot
begin

text \<open>
  From the boot loader to the memory manager: \<open>limine_reinterpret\<close> and then \<open>pmm_start\<close> on the map
  that it made. \<open>low_entry_gap\<close> and \<open>entry_without_effect\<close> show
  what goes wrong with entries that lie or end at one MiB or below and are not the first.
\<close>

section \<open>Order of the entries\<close>





lemma whole_pages_convert: "whole_pages (limine_convert e) \<longleftrightarrow> 4096 dvd unat (lm_base e) \<and>
    4096 dvd unat (lm_length e) \<and> lm_length e \<noteq> 0 \<and> unat (lm_base e) + unat (lm_length e) \<le> 2 ^ 52"
  by (simp add: whole_pages_def me_end_def limine_convert_def)



section \<open>The new map\<close>



lemma ignore_convert: "in_order b (map (\<lambda>e. limine_convert (limine_ignore_iommu e)) es) = in_order b (map limine_convert es)"
proof (induction es arbitrary: b)
  case (Cons e es)
  then show ?case by (simp add: whole_pages_convert) (simp add: me_end_def limine_convert_def)
qed simp




section \<open>Both steps\<close>










section \<open>Maps that are not covered\<close>

text \<open>An entry that begins where the entry before it begins has no effect on the sections.\<close>

lemma entry_without_effect:
  assumes "pmm_links (js @ [c]) s" "pmm_room 2 s" and "me_base f = me_base e"
  shows "pmm_place_entries (Some c) (e # f # es) s = pmm_place_entries (Some c) (e # es) s"
proof (cases "me_base e = sec_start (slots s c)")
  case True
  then show ?thesis using assms(3) by (simp add: pmm_place_entry_def)
next
  case False
  then obtain s1 n where "pmm_place_entry (Some c) e s = Some (Some n, s1)" and n: "bare (slots s1 n) = entry_section e"
    using pmm_place_entry_run [OF assms(1), of 0 _ e] assms(2) by (auto simp: numeral_2_eq_2)
  moreover have "sec_start (slots s1 n) = me_base f"
    using arg_cong [OF n, of sec_start] assms(3) by (simp add: entry_section_def)
  ultimately show ?thesis by (simp add: pmm_place_entry_def [of "Some n" f s1])
qed

text \<open>
  An entry that lies below one MiB and is not the first keeps its base: it begins in front of the end of
  the first section, and the gap between them that \<open>pmm_start\<close> fills has more than \<open>2 ^ 51\<close> pages.
\<close>

lemma low_entry_gap:
  assumes "pmm_links [c] s" "pmm_room 2 s" and "sec_start (slots s c) = 0" "sec_pages (slots s c) = 256"
    and "0 < me_base e" "me_base e < 0x100000"
  shows "\<exists>s' ks n g. pmm_place_entry (Some c) e s = Some (Some n, s') \<and> pmm_links (c # ks @ [n]) s' \<and>
    secs (slots s') (c # ks @ [n]) = [bare (slots s c), g, entry_section e] \<and>
    sec_start g = 0x100000 \<and> 2 ^ 51 < unat (sec_pages g)"
proof -
  have w: "sec_start (slots s c) + sec_pages (slots s c) * PAGING_PAGE_SIZE = 0x100000" using assms(3,4) by simp
  have ne: "me_base e \<noteq> sec_start (slots s c)" "0x100000 \<noteq> me_base e" using assms(3,5,6) by auto
  let ?g = "gap_section 0x100000 (me_base e)"
  have "unat (me_base e - 0x100000) = 2 ^ 64 - (0x100000 - unat (me_base e))"
    using assms(6) by (simp add: unat_sub_if' word_less_nat_alt)
  then have big: "2 ^ 63 + 4096 * 2 \<le> unat (me_base e - 0x100000)" by simp
  then have "2 ^ 51 < unat ((me_base e - 0x100000) div 0x1000)" by (simp add: unat_div)
  moreover have "unat ((me_base e - 0x100000) div 0x1000) < 2 ^ 52"
    using unsigned_less [of "me_base e - 0x100000", where 'a = nat] by (simp add: unat_div less_mult_imp_div_less)
  ultimately have "2 ^ 51 < unat (pages_of (me_base e - 0x100000))"
    by (auto simp: pages_of_def Let_def unat_plus_nowrap)
  then have g: "2 ^ 51 < unat (sec_pages ?g)" "sec_start ?g = 0x100000" by (simp_all add: gap_section_def)
  have room: "pmm_room (Suc (Suc 0)) s" using assms(2) by (simp add: numeral_2_eq_2)
  obtain s' ks n where "pmm_place_entry (Some c) e s = Some (Some n, s')" "pmm_links (([] @ c # ks) @ [n]) s'"
      "secs (slots s') (([] @ c # ks) @ [n]) = secs (slots s) ([] @ [c]) @
       (if 0x100000 = me_base e then [] else [gap_section 0x100000 (me_base e)]) @ [entry_section e]"
    using pmm_place_entry_run [of "[]" c s 0 "0x100000" e] assms(1) room w ne(1) by auto
  then show ?thesis using g ne(2)
    by (intro exI [of _ s'] exI [of _ ks] exI [of _ n] exI [of _ ?g]) (simp add: secs_def)
qed

end
