(* ===== verification/User_Heap.thy ===== *)
theory User_Heap
  imports Heap_Props
begin

text \<open>
  The heap of a user program, \<open>apps/frames/prism/src/lib/std/malloc.c\<close>. It began as a copy of the kernel's
  allocator and shares the layout of its headers, so their type and the predicates on linked lists of
  them are those of \<open>Heap\<close> and \<open>Heap_Inv\<close>. The pages come from the system call \<open>pmap\<close>, of which the log
  of the addresses it was called with is kept; that it succeeds is what the code relies on.
\<close>

section \<open>The state\<close>

record user_heap =
  uh_initialized :: bool
  uh_start :: u64
  uh_end :: u64
  uh_last :: u64
  uh_headers :: "u64 \<Rightarrow> heap_seg_header"
  uh_bytes :: mem
  uh_mapped :: "u64 list"

definition uget :: "(heap_seg_header \<Rightarrow> 'v) \<Rightarrow> u64 \<Rightarrow> user_heap \<Rightarrow> 'v option" where
  "uget fld p s = (if p = 0 then None else Some (fld (uh_headers s p)))"

definition uput :: "(heap_seg_header \<Rightarrow> heap_seg_header) \<Rightarrow> u64 \<Rightarrow> user_heap \<Rightarrow> user_heap option" where
  "uput upd p s =
     (if p = 0 then None else Some (s\<lparr>uh_headers := (uh_headers s)(p := upd (uh_headers s p))\<rparr>))"

fun user_pmap_run :: "u64 \<Rightarrow> nat \<Rightarrow> user_heap \<Rightarrow> user_heap" where
  "user_pmap_run pos 0 s = s"
| "user_pmap_run pos (Suc n) s = user_pmap_run (pos + 0x1000) n (s\<lparr>uh_mapped := uh_mapped s @ [pos]\<rparr>)"

section \<open>Segments\<close>

text \<open>The size of the new header is taken off twice: once from \<open>rest\<close>, once from the new length.\<close>

definition user_header_split :: "u64 \<Rightarrow> u64 \<Rightarrow> user_heap \<Rightarrow> (u64 \<times> user_heap) option" where
  "user_header_split segment split_length s =
     (if split_length < 0x10 then Some (0, s)
      else do {
        len \<leftarrow> uget seg_length segment s;
        let rest = len - split_length - sizeof_header;
        if sint rest < 0x20 then Some (0, s)
        else do {
          let new_header = segment + split_length + sizeof_header;
          nx \<leftarrow> uget seg_next segment s;
          s \<leftarrow> (if nx \<noteq> 0 then uput (seg_last_update (\<lambda>_. new_header)) nx s else Some s);
          nx \<leftarrow> uget seg_next segment s;
          s \<leftarrow> uput (seg_next_update (\<lambda>_. nx)) new_header s;
          s \<leftarrow> uput (seg_next_update (\<lambda>_. new_header)) segment s;
          s \<leftarrow> uput (seg_last_update (\<lambda>_. segment)) new_header s;
          s \<leftarrow> uput (seg_length_update (\<lambda>_. rest - sizeof_header)) new_header s;
          s \<leftarrow> uput (seg_free_update (\<lambda>_. True)) new_header s;
          s \<leftarrow> uput (seg_length_update (\<lambda>_. split_length)) segment s;
          Some (new_header, if uh_last s = segment then s\<lparr>uh_last := new_header\<rparr> else s) } })"

text \<open>The next header is cleared before its link is read.\<close>

definition user_header_combine_forward :: "u64 \<Rightarrow> user_heap \<Rightarrow> user_heap option" where
  "user_header_combine_forward segment s = do {
     nx \<leftarrow> uget seg_next segment s;
     if nx = 0 then Some s
     else do {
       nfree \<leftarrow> uget seg_free nx s;
       if \<not> nfree then Some s
       else do {
         let s = (if nx = uh_last s then s\<lparr>uh_last := segment\<rparr> else s);
         nn \<leftarrow> uget seg_next nx s;
         s \<leftarrow> (if nn \<noteq> 0 then uput (seg_last_update (\<lambda>_. segment)) nn s else Some s);
         nx \<leftarrow> uget seg_next segment s;
         nlen \<leftarrow> uget seg_length nx s;
         s \<leftarrow> uput (seg_length_update (\<lambda>n. n + nlen + sizeof_header)) segment s;
         s \<leftarrow> uput (\<lambda>_. \<lparr>seg_length = 0, seg_next = 0, seg_last = 0, seg_free = False\<rparr>) nx s;
         nx \<leftarrow> uget seg_next segment s;
         nn \<leftarrow> uget seg_next nx s;
         uput (seg_next_update (\<lambda>_. nn)) segment s } } }"

definition user_header_combine_backward :: "u64 \<Rightarrow> user_heap \<Rightarrow> user_heap option" where
  "user_header_combine_backward segment s = do {
     lst \<leftarrow> uget seg_last segment s;
     if lst = 0 then Some s
     else do {
       lfree \<leftarrow> uget seg_free lst s;
       if lfree then user_header_combine_forward lst s else Some s } }"

section \<open>Growing\<close>

definition user_heap_initialize :: "u64 \<Rightarrow> u64 \<Rightarrow> user_heap \<Rightarrow> user_heap option" where
  "user_heap_initialize address pages s =
     (if uh_initialized s then Some s
      else do {
        let s = user_pmap_run address (unat pages) s;
        let len = pages * 0x1000;
        let s = s\<lparr>uh_start := address, uh_end := address + len\<rparr>;
        s \<leftarrow> uput (\<lambda>_. \<lparr>seg_length = len - sizeof_header, seg_next = 0, seg_last = 0, seg_free = True\<rparr>) address s;
        Some (s\<lparr>uh_last := address, uh_initialized := True\<rparr>) })"

definition user_heap_expand :: "u64 \<Rightarrow> user_heap \<Rightarrow> user_heap option" where
  "user_heap_expand len0 s = do {
     let len = heap_round_page len0;
     let pages = len div 0x1000;
     let new_segment = uh_end s;
     let s = (user_pmap_run (uh_end s) (unat pages) s)\<lparr>uh_end := uh_end s + pages * 0x1000\<rparr>;
     s \<leftarrow> uput (seg_free_update (\<lambda>_. True)) new_segment s;
     s \<leftarrow> uput (seg_last_update (\<lambda>_. uh_last s)) new_segment s;
     s \<leftarrow> uput (seg_next_update (\<lambda>_. new_segment)) (uh_last s) s;
     let s = s\<lparr>uh_last := new_segment\<rparr>;
     s \<leftarrow> uput (seg_next_update (\<lambda>_. 0)) new_segment s;
     s \<leftarrow> uput (seg_length_update (\<lambda>_. len - sizeof_header)) new_segment s;
     user_header_combine_backward new_segment s }"

section \<open>The interface\<close>

definition user_free :: "u64 \<Rightarrow> user_heap \<Rightarrow> user_heap option" where
  "user_free address s = do {
     let segment = address - sizeof_header;
     nx \<leftarrow> uget seg_next segment s;
     len \<leftarrow> uget seg_length segment s;
     if nx - len \<noteq> segment then Some s
     else do {
       s \<leftarrow> uput (seg_free_update (\<lambda>_. True)) segment s;
       s \<leftarrow> user_header_combine_forward segment s;
       user_header_combine_backward segment s } }"

partial_function (option) user_search ::
    "u64 \<Rightarrow> u64 \<Rightarrow> user_heap \<Rightarrow> ((u64 \<times> user_heap) + user_heap) option" where
  "user_search current n s = do {
     free \<leftarrow> uget seg_free current s;
     len \<leftarrow> uget seg_length current s;
     if free \<and> len > n
     then do {
       (h, s) \<leftarrow> user_header_split current n s;
       s \<leftarrow> uput (seg_free_update (\<lambda>_. False)) current s;
       Some (Inl (current + sizeof_header, s)) }
     else if free \<and> len = n
     then do {
       s \<leftarrow> uput (seg_free_update (\<lambda>_. False)) current s;
       Some (Inl (current + sizeof_header, s)) }
     else do {
       nx \<leftarrow> uget seg_next current s;
       if nx = 0 then Some (Inr s) else user_search nx n s } }"

partial_function (option) user_malloc :: "u64 \<Rightarrow> user_heap \<Rightarrow> (u64 \<times> user_heap) option" where
  "user_malloc n0 s = do {
     s \<leftarrow> (if \<not> uh_initialized s then user_heap_initialize 0x7f0000000000 256 s else Some s);
     let n = heap_round_size n0;
     if n = 0 then Some (0, s)
     else do {
       r \<leftarrow> user_search (uh_start s) n s;
       case r of
         Inl found \<Rightarrow> Some found
       | Inr s \<Rightarrow> do { s \<leftarrow> user_heap_expand n s; user_malloc n s } } }"

definition user_realloc :: "u64 \<Rightarrow> u64 \<Rightarrow> user_heap \<Rightarrow> (u64 \<times> user_heap) option" where
  "user_realloc pointer n s = do {
     copy_size \<leftarrow> uget seg_length (pointer - sizeof_header) s;
     (new, s) \<leftarrow> user_malloc n s;
     let s = s\<lparr>uh_bytes := memcpy (uh_bytes s) new pointer n\<rparr>;
     s \<leftarrow> user_free pointer s;
     Some (new, s) }"

definition user_calloc :: "u64 \<Rightarrow> u64 \<Rightarrow> user_heap \<Rightarrow> (u64 \<times> user_heap) option" where
  "user_calloc elements n s = do {
     let real_size = elements * n;
     (alloc, s) \<leftarrow> user_malloc real_size s;
     Some (alloc, s\<lparr>uh_bytes := memset (uh_bytes s) alloc 0 real_size\<rparr>) }"

end
