(* ===== verification/Allocators.thy ===== *)
theory Allocators
  imports Glass_Prelude
begin

text \<open>
  What a client of \<open>malloc\<close> and \<open>free\<close> relies on. The kernel and the programs have an allocator each;
  \<open>inv\<close> relates a list of segments to a state, \<open>blocks\<close> are the blocks in use as pairs of an address
  and a length, \<open>can\<close> says when a request can be met, \<open>keeps\<close> what a request leaves alone and \<open>slack\<close>
  how much longer than asked for a block may be.
\<close>

definition blocks_apart :: "(nat \<times> nat) set \<Rightarrow> bool" where
  "blocks_apart B \<longleftrightarrow> (\<forall>(p, l) \<in> B. \<forall>(q, m) \<in> B. (p, l) \<noteq> (q, m) \<longrightarrow> p + l + 32 \<le> q \<or> q + m + 32 \<le> p)"

lemma blocks_apartD:
  "blocks_apart B \<Longrightarrow> (p, l) \<in> B \<Longrightarrow> (q, m) \<in> B \<Longrightarrow> (p, l) \<noteq> (q, m) \<Longrightarrow> p + l + 32 \<le> q \<or> q + m + 32 \<le> p"
  unfolding blocks_apart_def by fast

lemma blocks_apart_empty [simp]: "blocks_apart {}"
  by (simp add: blocks_apart_def)

locale block_allocator =
  fixes inv :: "'a \<Rightarrow> 's \<Rightarrow> bool" and blocks :: "'a \<Rightarrow> 's \<Rightarrow> (nat \<times> nat) set"
    and alloc :: "u64 \<Rightarrow> 's \<Rightarrow> (u64 \<times> 's) option" and can :: "'a \<Rightarrow> u64 \<Rightarrow> 's \<Rightarrow> bool"
    and keeps :: "'s \<Rightarrow> 's \<Rightarrow> bool" and slack :: nat
  assumes alloc_inserts: "inv a s \<Longrightarrow> can a n s \<Longrightarrow> \<exists>p m t b. alloc n s = Some (p, t) \<and> inv b t \<and>
      unat n \<le> m \<and> m < unat n + slack \<and> (unat p, m) \<notin> blocks a s \<and>
      blocks b t = insert (unat p, m) (blocks a s) \<and> keeps s t"
    and inv_apart: "inv a s \<Longrightarrow> blocks_apart (blocks a s)"
    and inv_aligned: "inv a s \<Longrightarrow> (p, l) \<in> blocks a s \<Longrightarrow> 16 dvd p"
begin

lemma alloc_apart:
  assumes "inv a s" "can a n s"
  shows "\<exists>p m t b. alloc n s = Some (p, t) \<and> inv b t \<and> 16 dvd unat p \<and> unat n \<le> m \<and> m < unat n + slack \<and>
    blocks b t = insert (unat p, m) (blocks a s) \<and>
    (\<forall>(q, l) \<in> blocks a s. unat p + m + 32 \<le> q \<or> q + l + 32 \<le> unat p) \<and> keeps s t"
proof -
  obtain p m t b where t: "alloc n s = Some (p, t)" "inv b t" "unat n \<le> m" "m < unat n + slack"
      "(unat p, m) \<notin> blocks a s" "blocks b t = insert (unat p, m) (blocks a s)" "keeps s t"
    using alloc_inserts [OF assms] by blast
  have mem: "(unat p, m) \<in> blocks b t" by (simp add: t(6))
  have "unat p + m + 32 \<le> q \<or> q + l + 32 \<le> unat p" if "(q, l) \<in> blocks a s" for q l
    using blocks_apartD [OF inv_apart [OF t(2)] mem, of q l] that t(5,6) by auto
  moreover have "16 dvd unat p" by (rule inv_aligned [OF t(2) mem])
  ultimately show ?thesis using t by blast
qed

end

text \<open>An allocator that takes blocks back.\<close>

locale releasing_allocator = block_allocator +
  fixes release :: "u64 \<Rightarrow> 's \<Rightarrow> 's option"
  assumes release_removes: "inv a s \<Longrightarrow> (unat p, m) \<in> blocks a s \<Longrightarrow>
      \<exists>t b. release p s = Some t \<and> inv b t \<and> blocks b t = blocks a s - {(unat p, m)} \<and> keeps s t"
    and keeps_trans: "keeps s t \<Longrightarrow> keeps t u \<Longrightarrow> keeps s u"
begin

lemma release_undoes_alloc:
  assumes "inv a s" "can a n s"
  shows "\<exists>p t u b. alloc n s = Some (p, t) \<and> release p t = Some u \<and> inv b u \<and> blocks b u = blocks a s \<and> keeps s u"
proof -
  obtain p m t c where t: "alloc n s = Some (p, t)" "inv c t" "(unat p, m) \<notin> blocks a s"
      "blocks c t = insert (unat p, m) (blocks a s)" "keeps s t"
    using alloc_inserts [OF assms] by blast
  then obtain u b where "release p t = Some u" "inv b u" "blocks b u = blocks c t - {(unat p, m)}" "keeps t u"
    using release_removes [OF t(2), of p m] by auto
  then show ?thesis using t keeps_trans by (intro exI [of _ p] exI [of _ t] exI [of _ u] exI [of _ b]) auto
qed

end

end
