(* ===== verification/User_Heap_Props.thy ===== *)
theory User_Heap_Props
  imports User_Heap Allocators
begin

text \<open>
  What the user heap keeps: its segments are linked in address order and do not overlap, though a split
  leaves a gap of 32 bytes behind. Every \<open>malloc\<close> returns, even when the heap has to grow first, and
  \<open>free\<close> never releases anything.
\<close>

section \<open>The invariant\<close>

text \<open>The segments \<open>as\<close> lie between the addresses \<open>b\<close> and \<open>e\<close>, in this order.\<close>

fun uchain :: "(u64 \<Rightarrow> heap_seg_header) \<Rightarrow> nat \<Rightarrow> u64 list \<Rightarrow> nat \<Rightarrow> bool" where
  "uchain h b [] e \<longleftrightarrow> b \<le> e"
| "uchain h b (a # as) e \<longleftrightarrow> b \<le> unat a \<and> 16 dvd unat a \<and> 16 dvd unat (seg_length (h a)) \<and>
     uchain h (unat a + 32 + unat (seg_length (h a))) as e"

definition user_wf :: "u64 list \<Rightarrow> user_heap \<Rightarrow> bool" where
  "user_wf segs s \<longleftrightarrow> uh_initialized s \<and> segs \<noteq> [] \<and> hd0 segs 0 = uh_start s \<and> last0 0 segs = uh_last s \<and>
     uh_start s \<noteq> 0 \<and> hlinks (uh_headers s) 0 segs 0 \<and>
     uchain (uh_headers s) (unat (uh_start s)) segs (unat (uh_end s)) \<and>
     16 dvd unat (uh_end s) \<and> unat (uh_end s) < 2 ^ 63"

definition user_blocks :: "u64 list \<Rightarrow> user_heap \<Rightarrow> (nat \<times> nat) set" where
  "user_blocks segs s = (\<lambda>a. (unat a + 32, unat (seg_length (uh_headers s a)))) `
     {a \<in> set segs. \<not> seg_free (uh_headers s a)}"

lemma uchain_upd [simp]: "x \<notin> set as \<Longrightarrow> uchain (h(x := v)) b as e = uchain h b as e"
  by (induction as arbitrary: b) auto

lemma uchain_split: "uchain h b (as @ c # cs) e \<longleftrightarrow> uchain h b as (unat c) \<and> uchain h (unat c) (c # cs) e"
  by (induction as arbitrary: b) auto

lemma uchain_le: "uchain h b as e \<Longrightarrow> b \<le> e"
  by (induction as arbitrary: b) fastforce+

lemma uchain_mono: "uchain h b as e \<Longrightarrow> e \<le> e' \<Longrightarrow> uchain h b as e'"
  by (induction as arbitrary: b) auto

lemma uchain_range:
  "uchain h b as e \<Longrightarrow> a \<in> set as \<Longrightarrow> b \<le> unat a \<and> unat a + 32 + unat (seg_length (h a)) \<le> e"
proof (induction as arbitrary: b)
  case (Cons c as)
  then show ?case
    using uchain_le [of h "unat c + 32 + unat (seg_length (h c))" as e] by fastforce
qed simp

lemma uchain_distinct: "uchain h b as e \<Longrightarrow> distinct as"
  by (induction as arbitrary: b) (auto dest: uchain_range)

lemma uchain_disjoint:
  assumes "uchain h b as e" "a \<in> set as" "c \<in> set as" "a \<noteq> c"
  shows "unat a + 32 + unat (seg_length (h a)) \<le> unat c \<or> unat c + 32 + unat (seg_length (h c)) \<le> unat a"
proof -
  obtain us vs where as: "as = us @ a # vs" using assms(2) by (metis split_list)
  then have "c \<in> set us \<or> c \<in> set vs" using assms(3,4) by auto
  then show ?thesis
    using assms(1) as uchain_range [of h b us "unat a" c]
      uchain_range [of h "unat a + 32 + unat (seg_length (h a))" vs e c] by (auto simp: uchain_split)
qed

lemma uchain_cong:
  assumes "\<And>c. c \<in> set as \<Longrightarrow> seg_length (h' c) = seg_length (h c)"
  shows "uchain h' b as e = uchain h b as e"
  using assms by (induction as arbitrary: b) auto

lemma user_wf_distinct: "user_wf segs s \<Longrightarrow> distinct segs"
  by (auto simp: user_wf_def intro: uchain_distinct)

lemma user_wf_range:
  "user_wf segs s \<Longrightarrow> a \<in> set segs \<Longrightarrow>
   unat (uh_start s) \<le> unat a \<and> unat a + 32 + unat (seg_length (uh_headers s a)) \<le> unat (uh_end s)"
  unfolding user_wf_def using uchain_range by blast

lemma user_wf_nonzero: "user_wf segs s \<Longrightarrow> a \<in> set segs \<Longrightarrow> a \<noteq> 0"
  using user_wf_range [of segs s a] by (auto simp: user_wf_def unat_gt_0 [symmetric])

lemma uget_nz [simp]: "p \<noteq> 0 \<Longrightarrow> uget fld p s = Some (fld (uh_headers s p))"
  by (simp add: uget_def)

lemma uput_nz [simp]: "p \<noteq> 0 \<Longrightarrow>
    uput upd p s = Some (s\<lparr>uh_headers := (uh_headers s)(p := upd (uh_headers s p))\<rparr>)"
  by (simp add: uput_def)

lemma user_payload:
  assumes "user_wf segs s" "a \<in> set segs"
  shows "unat (a + 0x20) = unat a + 32"
  using user_wf_range [OF assms] assms(1) by (intro unat_plus_nowrap [THEN trans]) (auto simp: user_wf_def)

lemma user_blocks_disjoint:
  assumes "user_wf segs s" "(p, l) \<in> user_blocks segs s" "(q, m) \<in> user_blocks segs s" "(p, l) \<noteq> (q, m)"
  shows "p + l + 32 \<le> q \<or> q + m + 32 \<le> p"
  using assms uchain_disjoint [of "uh_headers s" "unat (uh_start s)" segs "unat (uh_end s)"]
  by (fastforce simp: user_blocks_def user_wf_def)

section \<open>Releasing\<close>

lemma hlinks_next:
  "hlinks h p (us @ a # vs) n \<Longrightarrow> seg_next (h a) = hd0 vs n"
  by simp

lemma user_free_nothing:
  assumes wf: "user_wf segs s" and used: "(unat p, m) \<in> user_blocks segs s"
  shows "user_free p s = Some s"
proof -
  obtain a where a: "a \<in> set segs" "unat p = unat a + 32" using used by (auto simp: user_blocks_def)
  then have p: "p = a + 0x20" using user_payload [OF wf a(1)] by (metis unsigned_word_eqI)
  let ?l = "seg_length (uh_headers s a)" and ?n = "seg_next (uh_headers s a)"
  obtain us vs where segs: "segs = us @ a # vs" using a(1) by (metis split_list)
  have next': "?n = hd0 vs 0" using wf segs unfolding user_wf_def by (metis hlinks_next)
  have e: "unat a + 32 + unat ?l \<le> unat (uh_end s)" "unat (uh_end s) < 2 ^ 63"
    using user_wf_range [OF wf a(1)] wf by (auto simp: user_wf_def)
  have "?n - ?l \<noteq> a"
  proof
    assume "?n - ?l = a"
    then have n: "?n = a + ?l" by (simp add: algebra_simps)
    have u: "unat ?n = unat a + unat ?l" unfolding n using e by (intro unat_plus_nowrap) simp
    show False
    proof (cases vs)
      case Nil
      then have "unat ?n = 0" using next' by simp
      then show False using u user_wf_nonzero [OF wf a(1)] by (simp add: unat_eq_zero)
    next
      case (Cons v ws)
      then have "uchain (uh_headers s) (unat (uh_start s)) (us @ a # v # ws) (unat (uh_end s))"
        using wf segs by (simp add: user_wf_def)
      then have "unat a + 32 + unat ?l \<le> unat v" by (simp add: uchain_split)
      then show False using u next' Cons by simp
    qed
  qed
  then show ?thesis using user_wf_nonzero [OF wf a(1)] by (simp add: user_free_def p)
qed

section \<open>Taking a segment\<close>

lemma user_split_rest:
  fixes len n :: u64
  assumes "n < len" and "\<not> sint (len - n - sizeof_header) < 0x20"
  shows "unat n + 64 \<le> unat len" and "unat (len - n - sizeof_header - sizeof_header) = unat len - unat n - 64"
proof -
  have "\<not> sint (len - n - sizeof_header) < 0x10" using assms(2) by linarith
  note r = split_rest [OF assms(1) this]
  show big: "unat n + 64 \<le> unat len"
  proof (rule ccontr)
    assume "\<not> unat n + 64 \<le> unat len"
    then have small: "unat (len - n - sizeof_header) < 32" using r by simp
    then have "sint (len - n - sizeof_header) = int (unat (len - n - sizeof_header))"
      by (simp only: sint_word64) simp
    then have "sint (len - n - sizeof_header) < 32" using small by linarith
    then show False using assms(2) by simp
  qed
  show "unat (len - n - sizeof_header - sizeof_header) = unat len - unat n - 64"
    using r big by (subst unat_minus_nowrap) simp_all
qed

lemma user_no_split_rest:
  fixes len n :: u64
  assumes "sint (len - n - sizeof_header) < 0x20" and "unat len < 2 ^ 63" and "n \<le> len"
  shows "unat len < unat n + 64"
proof (rule ccontr)
  assume big: "\<not> unat len < unat n + 64"
  have "unat (len - n) = unat len - unat n" using big by (subst unat_minus_nowrap) simp_all
  then have r: "unat (len - n - sizeof_header) = unat len - unat n - 32"
    using big by (subst unat_minus_nowrap) simp_all
  then have small: "unat (len - n - sizeof_header) < 2 ^ 63" using assms(2) by simp
  have "int (unat (len - n - sizeof_header)) < 32" using assms(1) [unfolded sint_word64 if_P [OF small]] .
  then show False using r big by linarith
qed

definition user_frame :: "user_heap \<Rightarrow> user_heap \<Rightarrow> bool" where
  "user_frame s t \<longleftrightarrow> uh_bytes t = uh_bytes s \<and> uh_start t = uh_start s \<and> uh_end t = uh_end s \<and>
     uh_mapped t = uh_mapped s"

lemma user_split_run:
  assumes wf: "user_wf (as @ a # bs) s" and n: "16 \<le> unat n" "16 dvd unat n"
    and big: "n < seg_length (uh_headers s a)"
    and rest: "\<not> sint (seg_length (uh_headers s a) - n - sizeof_header) < 0x20"
  defines "new \<equiv> a + n + 0x20"
  shows "\<exists>t. user_header_split a n s = Some (new, t) \<and> user_wf (as @ a # new # bs) t \<and> user_frame s t \<and>
    seg_length (uh_headers t a) = n \<and> seg_free (uh_headers t a) = seg_free (uh_headers s a) \<and>
    seg_free (uh_headers t new) \<and> new \<notin> set (as @ a # bs) \<and>
    (\<forall>c \<in> set as \<union> set bs. seg_length (uh_headers t c) = seg_length (uh_headers s c) \<and>
      seg_free (uh_headers t c) = seg_free (uh_headers s c))"
proof -
  let ?l = "seg_length (uh_headers s a)"
  let ?r = "?l - n - sizeof_header - sizeof_header"
  note r = user_split_rest [OF big rest]
  have a0: "a \<noteq> 0" and d: "distinct (as @ a # bs)"
    using user_wf_nonzero [OF wf] user_wf_distinct [OF wf] by auto
  have nl: "\<not> n < 0x10" using n by (simp add: word_less_nat_alt)
  have chain: "uchain (uh_headers s) (unat (uh_start s)) (as @ a # bs) (unat (uh_end s))"
    and links: "hlinks (uh_headers s) 0 (as @ a # bs) 0" and e63: "unat (uh_end s) < 2 ^ 63"
    using wf unfolding user_wf_def by blast+
  have end': "unat a + 32 + unat ?l \<le> unat (uh_end s)" using uchain_range [OF chain, of a] by simp
  have "unat (a + n) = unat a + unat n" using end' e63 r by (intro unat_plus_nowrap) simp
  then have new: "unat new = unat a + unat n + 32"
    unfolding new_def using end' e63 r unat_plus_nowrap [of "a + n" "0x20"] by simp
  have "new \<noteq> a" using new by auto
  have fresh: "new \<notin> set (as @ a # bs)"
  proof
    assume m: "new \<in> set (as @ a # bs)"
    show False using uchain_disjoint [OF chain _ m, of a] \<open>new \<noteq> a\<close> new r by auto
  qed
  have new0: "new \<noteq> 0" using new by auto
  define h where "h = (uh_headers s)(a := (uh_headers s a)\<lparr>seg_next := new, seg_length := n\<rparr>,
    new := (uh_headers s new)\<lparr>seg_next := hd0 bs 0, seg_last := a, seg_length := ?r, seg_free := True\<rparr>)"
  define h' where "h' = (if bs = [] then h else h(hd bs := (uh_headers s (hd bs))\<lparr>seg_last := new\<rparr>))"
  define t where "t = s\<lparr>uh_headers := h', uh_last := last0 0 (as @ a # new # bs)\<rparr>"
  have lh: "uh_last s = last0 a bs" and nx: "seg_next (uh_headers s a) = hd0 bs 0"
    using wf by (simp_all add: user_wf_def)
  have na: "a \<noteq> new" "new \<notin> set as" "new \<notin> set bs" using fresh by auto
  have run: "user_header_split a n s = Some (new, t)"
  proof (cases bs)
    case Nil
    then show ?thesis using a0 nl rest new0 na lh nx
      by (simp add: user_header_split_def Let_def t_def h'_def h_def fun_upd_twist new_def [symmetric])
  next
    case (Cons b cs)
    have b0: "b \<noteq> 0" "b \<noteq> a" "b \<noteq> new" using user_wf_nonzero [OF wf] Cons d na by auto
    have "last0 b cs \<noteq> a" using d Cons by (cases cs rule: rev_cases) auto
    then show ?thesis using a0 b0 nl rest new0 na lh nx Cons
      by (simp add: user_header_split_def Let_def t_def h'_def h_def fun_upd_twist new_def [symmetric])
  qed
  have fields: "seg_length (h' c) = (if c = a then n else if c = new then ?r else seg_length (uh_headers s c))"
    "seg_free (h' c) = (c = new \<or> seg_free (uh_headers s c))" for c
    using d na by (auto simp: h'_def h_def)
  have "hlinks h' 0 (as @ a # new # bs) 0"
    using links d na by (cases bs) (simp_all add: h'_def h_def)
  moreover have "hd0 (as @ a # new # bs) 0 = hd0 (as @ a # bs) 0" by (cases as) simp_all
  moreover have "uchain h' (unat (uh_start s)) (as @ a # new # bs) (unat (uh_end s))"
  proof -
    have c: "uchain (uh_headers s) (unat (uh_start s)) as (unat a)" "16 dvd unat a" "16 dvd unat ?l"
      "uchain (uh_headers s) (unat a + 32 + unat ?l) bs (unat (uh_end s))"
      using chain by (simp_all add: uchain_split)
    have "uchain h' (unat (uh_start s)) as (unat a)"
      using c(1) d na by (subst uchain_cong [of as h' "uh_headers s"]) (auto simp: fields)
    moreover have "uchain h' (unat a + 32 + unat ?l) bs (unat (uh_end s))"
      using c(4) d na by (subst uchain_cong [of bs h' "uh_headers s"]) (auto simp: fields)
    moreover have "uchain h' b bs e" if "uchain h' b' bs e" "b \<le> b'" for b b' e
      using that by (cases bs) auto
    moreover have "unat new + 32 + unat ?r \<le> unat a + 32 + unat ?l" using r new by simp
    moreover have "16 dvd unat new" "16 dvd unat ?r"
      unfolding new r(2) using c(2,3) n r(1) by (simp_all add: dvd_diff_nat)
    ultimately show ?thesis using c n na new by (simp add: uchain_split fields)
  qed
  ultimately have "user_wf (as @ a # new # bs) t"
    using wf by (simp add: user_wf_def t_def)
  moreover have "uh_headers t = h'" by (simp add: t_def)
  moreover have "user_frame s t" by (simp add: user_frame_def t_def)
  moreover have "\<forall>c \<in> set as \<union> set bs. seg_length (h' c) = seg_length (uh_headers s c) \<and>
      seg_free (h' c) = seg_free (uh_headers s c)"
    using d na fields by auto
  ultimately show ?thesis
    using run na(1) fresh fields [of a] fields [of new] by (intro exI [of _ t]) simp
qed

abbreviation mark_used :: "u64 \<Rightarrow> user_heap \<Rightarrow> user_heap" where
  "mark_used a s \<equiv> s\<lparr>uh_headers := (uh_headers s)(a := (uh_headers s a)\<lparr>seg_free := False\<rparr>)\<rparr>"

definition user_took :: "u64 \<Rightarrow> u64 \<Rightarrow> u64 list \<Rightarrow> user_heap \<Rightarrow> u64 list \<Rightarrow> user_heap \<Rightarrow> bool" where
  "user_took p n segs s segs' t \<longleftrightarrow> user_wf segs' t \<and>
     (\<exists>m. unat n \<le> m \<and> m < unat n + 64 \<and> (unat p, m) \<notin> user_blocks segs s \<and>
       user_blocks segs' t = insert (unat p, m) (user_blocks segs s))"

lemma user_blocks_append [simp]: "user_blocks (as @ bs) s = user_blocks as s \<union> user_blocks bs s"
  by (auto simp: user_blocks_def)

lemma user_blocks_Cons [simp]:
  "user_blocks (a # as) s = (if seg_free (uh_headers s a) then {}
     else {(unat a + 32, unat (seg_length (uh_headers s a)))}) \<union> user_blocks as s"
  by (auto simp: user_blocks_def)

lemma user_blocks_Nil [simp]: "user_blocks [] s = {}"
  by (simp add: user_blocks_def)

lemma user_blocks_cong:
  assumes "\<And>c. c \<in> set as \<Longrightarrow> seg_length (uh_headers t c) = seg_length (uh_headers s c) \<and>
      seg_free (uh_headers t c) = seg_free (uh_headers s c)"
  shows "user_blocks as t = user_blocks as s"
  unfolding user_blocks_def using assms by (auto simp: image_iff)

lemma user_payload_fresh:
  assumes "user_wf (as @ a # bs) s"
  shows "(unat a + 32, m) \<notin> user_blocks as s" "(unat a + 32, m) \<notin> user_blocks bs s"
  using user_wf_distinct [OF assms] by (auto simp: user_blocks_def dest!: unsigned_word_eqI)

lemma mark_used_wf:
  assumes "user_wf segs s"
  shows "user_wf segs (mark_used a s)"
proof -
  let ?h = "uh_headers (mark_used a s)"
  have "hlinks ?h p segs n = hlinks (uh_headers s) p segs n" for p n by (rule hlinks_cong) simp
  moreover have "uchain ?h b segs e = uchain (uh_headers s) b segs e" for b e by (rule uchain_cong) simp
  ultimately show ?thesis using assms by (simp add: user_wf_def)
qed

lemma mark_used_blocks [simp]: "a \<notin> set as \<Longrightarrow> user_blocks as (mark_used a s) = user_blocks as s"
  by (rule user_blocks_cong) auto

lemma user_take_whole:
  assumes wf: "user_wf (as @ a # bs) s" and free: "seg_free (uh_headers s a)"
    and n: "unat n \<le> unat (seg_length (uh_headers s a))" "unat (seg_length (uh_headers s a)) < unat n + 64"
  shows "user_took (a + 0x20) n (as @ a # bs) s (as @ a # bs) (mark_used a s)"
proof -
  have d: "a \<notin> set as" "a \<notin> set bs" using user_wf_distinct [OF wf] by auto
  show ?thesis
    using mark_used_wf [OF wf, of a] free n d user_payload [OF wf, of a] user_payload_fresh [OF wf]
    by (auto simp: user_took_def intro!: exI [of _ "unat (seg_length (uh_headers s a))"])
qed

lemma user_search_take:
  assumes wf: "user_wf (as @ a # bs) s" and free: "seg_free (uh_headers s a)"
    and n: "16 \<le> unat n" "16 dvd unat n" and le: "n \<le> seg_length (uh_headers s a)"
  shows "\<exists>t segs'. user_search a n s = Some (Inl (a + 0x20, t)) \<and>
    user_took (a + 0x20) n (as @ a # bs) s segs' t \<and> user_frame s t"
proof -
  let ?l = "seg_length (uh_headers s a)"
  have a0: "a \<noteq> 0" using user_wf_nonzero [OF wf] by simp
  have nl: "\<not> n < 0x10" using n by (simp add: word_less_nat_alt)
  have le': "unat n \<le> unat ?l" using le by (simp add: word_le_nat_alt)
  show ?thesis
  proof (cases "n < ?l \<and> \<not> sint (?l - n - sizeof_header) < 0x20")
    case False
    have l63: "unat ?l < 2 ^ 63" using user_wf_range [OF wf, of a] wf by (simp add: user_wf_def)
    have "unat ?l < unat n + 64"
    proof (cases "n < ?l")
      case True
      then show ?thesis using False user_no_split_rest [OF _ l63 le] by simp
    next
      case False
      then show ?thesis by (simp add: word_less_nat_alt)
    qed
    moreover have "user_search a n s = Some (Inl (a + 0x20, mark_used a s))"
      using False free a0 le nl
      by (cases "n < ?l") (auto simp: user_search.simps [of a] user_header_split_def Let_def)
    moreover have "user_frame s (mark_used a s)" by (simp add: user_frame_def)
    ultimately show ?thesis using user_take_whole [OF wf free le'] by blast
  next
    case True
    let ?new = "a + n + 0x20"
    from user_split_run [OF wf n] True obtain u where
      split: "user_header_split a n s = Some (?new, u)"
      and u: "user_wf (as @ a # ?new # bs) u" "user_frame s u"
      and e: "seg_length (uh_headers u a) = n" "seg_free (uh_headers u ?new)"
        "\<forall>c \<in> set as \<union> set bs. seg_length (uh_headers u c) = seg_length (uh_headers s c) \<and>
          seg_free (uh_headers u c) = seg_free (uh_headers s c)"
      by auto
    have run: "user_search a n s = Some (Inl (a + 0x20, mark_used a u))"
      using True free a0 split by (simp add: user_search.simps [of a])
    have d: "a \<notin> set as" "a \<notin> set bs" "?new \<noteq> a" using user_wf_distinct [OF u(1)] by auto
    have same: "user_blocks as u = user_blocks as s" "user_blocks bs u = user_blocks bs s"
      using e(3) by (auto intro!: user_blocks_cong)
    have "user_blocks (as @ a # ?new # bs) (mark_used a u) =
        insert (unat (a + 0x20), unat n) (user_blocks (as @ a # bs) s)"
      using free e(1,2) d user_payload [OF wf, of a] same by simp
    moreover have "(unat (a + 0x20), unat n) \<notin> user_blocks (as @ a # bs) s"
      using free user_payload [OF wf, of a] user_payload_fresh [OF wf] by simp
    ultimately have "user_took (a + 0x20) n (as @ a # bs) s (as @ a # ?new # bs) (mark_used a u)"
      using mark_used_wf [OF u(1), of a] unfolding user_took_def by (intro conjI exI [of _ "unat n"]) simp_all
    moreover have "user_frame s (mark_used a u)" using u(2) by (simp add: user_frame_def)
    ultimately show ?thesis using run by blast
  qed
qed

abbreviation fits_in :: "u64 \<Rightarrow> user_heap \<Rightarrow> u64 \<Rightarrow> bool" where
  "fits_in n s a \<equiv> seg_free (uh_headers s a) \<and> n \<le> seg_length (uh_headers s a)"

lemma user_search_skip:
  assumes "hlinks (uh_headers s) p (us @ a # vs) 0" and "0 \<notin> set (us @ a # vs)"
    and "\<forall>u \<in> set us. \<not> fits_in n s u"
  shows "user_search (hd0 (us @ a # vs) 0) n s = user_search a n s"
  using assms
proof (induction us arbitrary: p)
  case (Cons u us)
  have "hd0 us a \<noteq> 0" using Cons.prems(2) by (cases us) auto
  then have "user_search u n s = user_search (hd0 us a) n s"
    using Cons.prems by (auto simp: user_search.simps [of u] not_le)
  then show ?case using Cons.IH [of u] Cons.prems by simp
qed simp

lemma user_search_found:
  assumes wf: "user_wf segs s" and n: "16 \<le> unat n" "16 dvd unat n" and fit: "\<exists>a \<in> set segs. fits_in n s a"
  shows "\<exists>p t segs'. user_search (uh_start s) n s = Some (Inl (p, t)) \<and> user_took p n segs s segs' t \<and>
    user_frame s t"
proof -
  obtain us b vs where segs: "segs = us @ b # vs" and b: "fits_in n s b" and us: "\<forall>u \<in> set us. \<not> fits_in n s u"
    using split_list_first_prop [of segs "fits_in n s"] fit by blast
  have start: "uh_start s = hd0 (us @ b # vs) 0" and links: "hlinks (uh_headers s) 0 (us @ b # vs) 0"
    using wf segs by (simp_all add: user_wf_def)
  have "0 \<notin> set (us @ b # vs)" using user_wf_nonzero [OF wf] segs by blast
  from user_search_skip [OF links this us] user_search_take [OF wf [unfolded segs] _ n] b
  show ?thesis unfolding start segs by auto
qed

lemma user_search_none:
  assumes wf: "user_wf segs s" and none: "\<not> (\<exists>a \<in> set segs. fits_in n s a)"
  shows "user_search (uh_start s) n s = Some (Inr s)"
proof -
  obtain us b where segs: "segs = us @ [b]" using wf by (cases segs rule: rev_cases) (auto simp: user_wf_def)
  have start: "uh_start s = hd0 (us @ b # []) 0" and links: "hlinks (uh_headers s) 0 (us @ b # []) 0"
    using wf unfolding segs by (auto simp: user_wf_def)
  have "0 \<notin> set (us @ b # [])" using user_wf_nonzero [OF wf] segs by auto
  from user_search_skip [OF links this] none segs
  have "user_search (uh_start s) n s = user_search b n s" unfolding start by auto
  then show ?thesis
    using none segs links user_wf_nonzero [OF wf] by (auto simp: user_search.simps [of b] not_le)
qed

section \<open>Growing\<close>

lemma user_pmap_run_sel [simp]:
  "uh_initialized (user_pmap_run p n s) = uh_initialized s" "uh_start (user_pmap_run p n s) = uh_start s"
  "uh_end (user_pmap_run p n s) = uh_end s" "uh_last (user_pmap_run p n s) = uh_last s"
  "uh_headers (user_pmap_run p n s) = uh_headers s" "uh_bytes (user_pmap_run p n s) = uh_bytes s"
  by (induction n arbitrary: p s) simp_all

definition user_grown :: "nat \<Rightarrow> u64 list \<Rightarrow> user_heap \<Rightarrow> u64 list \<Rightarrow> user_heap \<Rightarrow> bool" where
  "user_grown r segs s segs' t \<longleftrightarrow> user_wf segs' t \<and> user_blocks segs' t = user_blocks segs s \<and>
     uh_bytes t = uh_bytes s \<and> unat (uh_end t) = unat (uh_end s) + r \<and>
     seg_free (uh_headers t (uh_last t)) \<and> r \<le> unat (seg_length (uh_headers t (uh_last t))) + 32 \<and>
     (seg_free (uh_headers s (uh_last s)) \<longrightarrow> r \<le> unat (seg_length (uh_headers t (uh_last t))))"

lemma user_expand_run:
  assumes wf: "user_wf segs s" and n: "16 \<le> unat n" and room: "unat (uh_end s) + unat n + 4096 < 2 ^ 63"
  defines "r \<equiv> heap_round_page n"
  shows "\<exists>t segs'. user_heap_expand n s = Some t \<and> user_grown (unat r) segs s segs' t"
proof -
  have r: "4096 dvd unat r" "unat n \<le> unat r" "unat r < unat n + 4096"
    using heap_round_page_bounds [of n] room by (simp_all add: r_def)
  have pages: "r div 0x1000 * 0x1000 = r" using pages_of_round [OF r(1)] .
  let ?e = "uh_end s"
  have e': "unat (?e + r) = unat ?e + unat r" using room r by (intro unat_plus_nowrap) simp
  obtain us l where segs: "segs = us @ [l]" using wf by (cases segs rule: rev_cases) (auto simp: user_wf_def)
  let ?l = "seg_length (uh_headers s l)"
  have last': "uh_last s = l" and nl: "seg_next (uh_headers s l) = 0"
    and links: "hlinks (uh_headers s) 0 us l" "seg_last (uh_headers s l) = last0 0 us"
    and hd: "hd0 us l = uh_start s"
    using wf unfolding segs user_wf_def by auto
  have "uchain (uh_headers s) (unat (uh_start s)) (us @ [l]) (unat ?e)"
    using wf unfolding segs user_wf_def by blast
  then have chain: "uchain (uh_headers s) (unat (uh_start s)) us (unat l)" "16 dvd unat l" "16 dvd unat ?l"
    "unat l + 32 + unat ?l \<le> unat ?e"
    by (simp_all add: uchain_split)
  have al: "16 dvd unat ?e" "unat (uh_end s) < 2 ^ 63" using wf by (simp_all add: user_wf_def)
  have below: "c \<in> set segs \<Longrightarrow> c \<noteq> ?e" for c using user_wf_range [OF wf, of c] by auto
  have ne: "?e \<noteq> l" "?e \<notin> set us" "?e \<noteq> 0" using below segs chain(4) by auto
  have nz: "l \<noteq> 0" "l \<notin> set us" using user_wf_nonzero [OF wf] user_wf_distinct [OF wf] segs by auto
  have rl: "unat (r - sizeof_header) = unat r - 32" using r(1,2) n by (subst unat_minus_nowrap) (auto dest: dvd_imp_le)
  have r32: "4096 \<le> unat r" "16 dvd unat r" using r n by (auto dest: dvd_imp_le intro: dvd_trans [of 16 4096])
  show ?thesis
  proof (cases "seg_free (uh_headers s l)")
    case False
    let ?h = "(uh_headers s)(l := (uh_headers s l)\<lparr>seg_next := ?e\<rparr>,
        ?e := (uh_headers s ?e)\<lparr>seg_free := True, seg_last := l, seg_next := 0, seg_length := r - sizeof_header\<rparr>)"
    let ?t = "(user_pmap_run ?e (unat (r div 0x1000)) s)\<lparr>uh_end := ?e + r, uh_last := ?e, uh_headers := ?h\<rparr>"
    have run: "user_heap_expand n s = Some ?t"
      using ne nz False last' by (simp add: user_heap_expand_def Let_def r_def [symmetric] pages
          user_header_combine_backward_def fun_upd_twist)
    have "hd0 (us @ [l, ?e]) 0 = uh_start s" using hd by simp
    moreover have "uchain ?h (unat (uh_start s)) (us @ [l, ?e]) (unat (?e + r))"
      using chain ne nz r32 al(1) e' rl by (simp add: uchain_split dvd_diff_nat)
    ultimately have "user_wf (segs @ [?e]) ?t"
      using wf links ne nz segs e' al r32(2) room r by (auto simp: user_wf_def)
    moreover have "user_blocks (segs @ [?e]) ?t = user_blocks segs s"
      using ne nz segs False by (simp add: user_blocks_def) auto
    ultimately have "user_grown (unat r) segs s (segs @ [?e]) ?t"
      using False last' rl r32 e' by (simp add: user_grown_def)
    then show ?thesis using run by blast
  next
    case True
    let ?h = "(uh_headers s)(?e := \<lparr>seg_length = 0, seg_next = 0, seg_last = 0, seg_free = False\<rparr>,
        l := seg_length_update (\<lambda>n. n + r) (uh_headers s l)\<lparr>seg_next := 0\<rparr>)"
    let ?t = "(user_pmap_run ?e (unat (r div 0x1000)) s)\<lparr>uh_end := ?e + r, uh_last := l, uh_headers := ?h\<rparr>"
    have run: "user_heap_expand n s = Some ?t"
      using ne nz True last' nl by (simp add: user_heap_expand_def Let_def r_def [symmetric] pages
          user_header_combine_backward_def user_header_combine_forward_def fun_upd_twist)
    have len: "unat (?l + r) = unat ?l + unat r" using chain(4) room r by (intro unat_plus_nowrap) simp
    have "uchain ?h (unat (uh_start s)) segs (unat (?e + r))"
      using chain ne nz r32 e' len segs by (simp add: uchain_split)
    then have "user_wf segs ?t"
      using wf links ne nz segs e' al r32(2) room r nl by (auto simp: user_wf_def)
    moreover have "user_blocks us ?t = user_blocks us s" using ne nz by (intro user_blocks_cong) auto
    then have "user_blocks segs ?t = user_blocks segs s" using ne segs True by simp
    ultimately have "user_grown (unat r) segs s segs ?t"
      using True last' len r32 e' ne by (simp add: user_grown_def)
    then show ?thesis using run by blast
  qed
qed

section \<open>The interface\<close>

text \<open>Before the first call the heap has no segments.\<close>

definition user_heap_ok :: "u64 list \<Rightarrow> user_heap \<Rightarrow> bool" where
  "user_heap_ok segs s \<longleftrightarrow> (if uh_initialized s then user_wf segs s else segs = [])"

definition user_room :: "u64 \<Rightarrow> user_heap \<Rightarrow> bool" where
  "user_room n s \<longleftrightarrow>
     (if uh_initialized s then unat (uh_end s) else 0x7f0000100000) + 2 * (unat n + 4112) < 2 ^ 63"

lemma user_malloc_step:
  assumes "uh_initialized s" "heap_round_size n = m" "m \<noteq> 0"
  shows "user_malloc n s = do {
     r \<leftarrow> user_search (uh_start s) m s;
     case r of Inl found \<Rightarrow> Some found
     | Inr s \<Rightarrow> do { s \<leftarrow> user_heap_expand m s; user_malloc m s } }"
  using assms by (subst user_malloc.simps) (simp add: Let_def)

text \<open>\<open>k\<close> is how often the heap may have to grow.\<close>

lemma user_malloc_grows:
  assumes "user_wf segs s" "heap_round_size n = m" "16 \<le> unat m" "16 dvd unat m"
    and "unat (uh_end s) + k * (unat m + 4096) < 2 ^ 63" and "unat m + 4096 < 2 ^ 63"
    and "k = 0 \<longrightarrow> (\<exists>a \<in> set segs. fits_in m s a)"
    and "k = 1 \<longrightarrow> seg_free (uh_headers s (uh_last s))" and "k \<le> 2"
  shows "\<exists>p t segs'. user_malloc n s = Some (p, t) \<and> user_took p m segs s segs' t \<and>
    uh_bytes t = uh_bytes s \<and> unat (uh_end t) \<le> unat (uh_end s) + k * (unat m + 4096)"
  using assms
proof (induction k arbitrary: s segs n rule: less_induct)
  case (less k)
  note wf = less.prems(1)
  have m: "m \<noteq> 0" using less.prems(3) by auto
  have start: "uh_initialized s" using wf by (simp add: user_wf_def)
  note step = user_malloc_step [OF start less.prems(2) m]
  show ?case
  proof (cases "\<exists>a \<in> set segs. fits_in m s a")
    case True
    from user_search_found [OF wf less.prems(3,4) this] show ?thesis
      by (auto simp: step user_frame_def)
  next
    case False
    then have k: "k = 1 \<or> k = 2" using less.prems(7,9) by fastforce
    then have "unat (uh_end s) + unat m + 4096 < 2 ^ 63" using less.prems(5) by auto
    from user_expand_run [OF wf less.prems(3) this] obtain t segs' where
      grow: "user_heap_expand m s = Some t" "user_grown (unat (heap_round_page m)) segs s segs' t" by blast
    have pg: "unat m \<le> unat (heap_round_page m)" "unat (heap_round_page m) < unat m + 4096"
      using heap_round_page_bounds [of m] less.prems(6) by simp_all
    have t: "user_wf segs' t" "user_blocks segs' t = user_blocks segs s" "uh_bytes t = uh_bytes s"
      "unat (uh_end t) = unat (uh_end s) + unat (heap_round_page m)" "seg_free (uh_headers t (uh_last t))"
      using grow(2) by (simp_all add: user_grown_def)
    have last': "uh_last t \<in> set segs'"
      using t(1) by (cases segs' rule: rev_cases) (auto simp: user_wf_def)
    have fit: "k - 1 = 0 \<longrightarrow> (\<exists>a \<in> set segs'. fits_in m t a)"
    proof
      assume "k - 1 = 0"
      then have "seg_free (uh_headers s (uh_last s))" using k less.prems(8) by auto
      then have "unat m \<le> unat (seg_length (uh_headers t (uh_last t)))"
        using grow(2) pg(1) by (simp add: user_grown_def)
      then show "\<exists>a \<in> set segs'. fits_in m t a" using last' t(5) by (auto simp: word_le_nat_alt)
    qed
    have room: "unat (uh_end t) + (k - 1) * (unat m + 4096) < 2 ^ 63"
      using less.prems(5) t(4) pg(2) k by auto
    have "k - 1 < k" "k - 1 \<le> 2" using k by auto
    then obtain p u segs'' where u: "user_malloc m t = Some (p, u)" "user_took p m segs' t segs'' u"
      "uh_bytes u = uh_bytes t" "unat (uh_end u) \<le> unat (uh_end t) + (k - 1) * (unat m + 4096)"
      using less.IH [OF _ t(1) heap_round_size_idem [OF less.prems(4)] less.prems(3,4) room less.prems(6) fit]
        t(5) by blast
    have "unat (uh_end u) \<le> unat (uh_end s) + k * (unat m + 4096)"
      using u(4) t(4) pg(2) k by auto
    moreover have "user_took p m segs s segs'' u" using u(2) t(2) by (simp add: user_took_def)
    moreover have "user_malloc n s = Some (p, u)"
      using user_search_none [OF wf False] grow(1) u(1) by (simp add: step)
    ultimately show ?thesis using u(3) t(3) by auto
  qed
qed

lemma user_initialize_run:
  assumes "\<not> uh_initialized s"
  shows "\<exists>t. user_heap_initialize 0x7f0000000000 256 s = Some t \<and> user_wf [0x7f0000000000] t \<and>
    user_blocks [0x7f0000000000] t = {} \<and> uh_end t = 0x7f0000100000 \<and> uh_bytes t = uh_bytes s"
  using assms by (simp add: user_heap_initialize_def user_wf_def)

definition user_end :: "user_heap \<Rightarrow> nat" where
  "user_end s = (if uh_initialized s then unat (uh_end s) else 0x7f0000100000)"

lemma user_malloc_total:
  assumes ok: "user_heap_ok segs s" and n: "n \<noteq> 0" and room: "user_end s + 2 * (unat n + 4112) < 2 ^ 63"
  shows "\<exists>p m t segs'. user_malloc n s = Some (p, t) \<and> user_wf segs' t \<and> 16 dvd unat p \<and>
    unat n \<le> m \<and> m < unat n + 80 \<and> user_blocks segs' t = insert (unat p, m) (user_blocks segs s) \<and>
    (unat p, m) \<notin> user_blocks segs s \<and> uh_bytes t = uh_bytes s \<and>
    user_end t \<le> user_end s + 2 * (unat n + 4112)"
proof -
  let ?m = "heap_round_size n"
  have n63: "unat n + 16 < 2 ^ 63" using room by simp
  note r = heap_round_room [OF n63]
  have m: "16 \<le> unat ?m" "unat n \<le> unat ?m" "unat ?m < unat n + 16" "?m \<noteq> 0" using r n by auto
  obtain u as where u: "user_wf as u" "user_blocks as u = user_blocks segs s" "uh_bytes u = uh_bytes s"
      "user_malloc n s = user_malloc n u" "unat (uh_end u) = user_end s"
  proof (cases "uh_initialized s")
    case True
    then show ?thesis using that [of segs s] ok by (simp add: user_heap_ok_def user_end_def)
  next
    case False
    then obtain u where u: "user_heap_initialize 0x7f0000000000 256 s = Some u" "user_wf [0x7f0000000000] u"
        "user_blocks [0x7f0000000000] u = {}" "uh_end u = 0x7f0000100000" "uh_bytes u = uh_bytes s"
      using user_initialize_run by blast
    have "uh_initialized u" using u(2) by (simp add: user_wf_def)
    then have "user_malloc n s = user_malloc n u"
      using u(1) False by (simp add: user_malloc.simps [of n s] user_malloc.simps [of n u])
    moreover have "segs = []" using ok False by (simp add: user_heap_ok_def)
    ultimately show ?thesis using that [of "[0x7f0000000000]" u] u False by (simp add: user_end_def)
  qed
  have big: "unat (uh_end u) + 2 * (unat ?m + 4096) < 2 ^ 63" "unat ?m + 4096 < 2 ^ 63"
    using room m(3) u(5) by simp_all
  from user_malloc_grows [OF u(1) refl m(1) r(1) big]
  obtain p t segs' where run: "user_malloc n u = Some (p, t)" and took: "user_took p ?m as u segs' t"
    and t: "uh_bytes t = uh_bytes u" "unat (uh_end t) \<le> unat (uh_end u) + 2 * (unat ?m + 4096)"
    by auto
  obtain l where wf: "user_wf segs' t" and l: "unat ?m \<le> l" "l < unat ?m + 64"
      "(unat p, l) \<notin> user_blocks as u" "user_blocks segs' t = insert (unat p, l) (user_blocks as u)"
    using took by (auto simp: user_took_def)
  have "16 dvd unat p"
  proof -
    have "(unat p, l) \<in> user_blocks segs' t" using l(4) by simp
    then obtain a where a: "a \<in> set segs'" "unat p = unat a + 32" by (auto simp: user_blocks_def)
    then obtain us vs where "segs' = us @ a # vs" by (metis split_list)
    then have "uchain (uh_headers t) (unat (uh_start t)) (us @ a # vs) (unat (uh_end t))"
      using wf by (simp add: user_wf_def)
    then have "16 dvd unat a" by (simp add: uchain_split)
    then show ?thesis using a(2) by simp
  qed
  moreover have "user_end t \<le> user_end s + 2 * (unat n + 4112)"
    using t(2) wf m(3) u(5) by (simp add: user_end_def user_wf_def)
  moreover have "user_malloc n s = Some (p, t)" "uh_bytes t = uh_bytes s"
    using run u(3,4) t(1) by simp_all
  moreover have "unat n \<le> l" "l < unat n + 80" using l m by simp_all
  ultimately show ?thesis using wf l(3,4) unfolding u(2) by blast
qed

definition user_can :: "u64 list \<Rightarrow> u64 \<Rightarrow> user_heap \<Rightarrow> bool" where
  "user_can segs n s \<longleftrightarrow> n \<noteq> 0 \<and> user_end s + 2 * (unat n + 4112) < 2 ^ 63"

definition user_keeps :: "user_heap \<Rightarrow> user_heap \<Rightarrow> bool" where
  "user_keeps s t \<longleftrightarrow> uh_bytes t = uh_bytes s"

lemma user_blocks_aligned:
  assumes "user_heap_ok segs s" "(p, l) \<in> user_blocks segs s" shows "16 dvd p"
proof -
  obtain a where a: "a \<in> set segs" "p = unat a + 32" using assms(2) by (auto simp: user_blocks_def)
  then obtain us vs where segs: "segs = us @ a # vs" by (metis split_list)
  then have "user_wf segs s" using assms(1) by (auto simp: user_heap_ok_def split: if_splits)
  then have "uchain (uh_headers s) (unat (uh_start s)) (us @ a # vs) (unat (uh_end s))" by (simp add: user_wf_def segs)
  then have "16 dvd unat a" by (simp add: uchain_split)
  then show ?thesis using a(2) by simp
qed

interpretation program_heap: block_allocator user_heap_ok user_blocks user_malloc user_can user_keeps 80
proof
  show "\<exists>p m t b. user_malloc n s = Some (p, t) \<and> user_heap_ok b t \<and> unat n \<le> m \<and> m < unat n + 80 \<and>
      (unat p, m) \<notin> user_blocks a s \<and> user_blocks b t = insert (unat p, m) (user_blocks a s) \<and> user_keeps s t"
    if "user_heap_ok a s" "user_can a n s" for a s n
  proof -
    note ok = that(1)
    from that(2) have c: "n \<noteq> 0" "user_end s + 2 * (unat n + 4112) < 2 ^ 63" by (simp_all add: user_can_def)
    obtain p m t b where t: "user_malloc n s = Some (p, t)" "user_wf b t" "unat n \<le> m" "m < unat n + 80"
        "(unat p, m) \<notin> user_blocks a s" "user_blocks b t = insert (unat p, m) (user_blocks a s)" "uh_bytes t = uh_bytes s"
      using user_malloc_total [OF ok c] by blast
    then have "user_heap_ok b t" by (simp add: user_heap_ok_def user_wf_def)
    then show ?thesis using t by (intro exI [of _ p] exI [of _ m] exI [of _ t] exI [of _ b]) (simp add: user_keeps_def)
  qed
  show "blocks_apart (user_blocks a s)" if "user_heap_ok a s" for a s
    using that user_blocks_disjoint [of a s] by (fastforce simp: blocks_apart_def user_heap_ok_def split: if_splits)
qed (rule user_blocks_aligned)

text \<open>C22:
  \<open>malloc\<close> in a user program returns a block whatever the state of the heap, before the first use too and
  when the heap must grow first, once or twice: it is aligned to 16 bytes, as long as asked for and less than
  80 bytes longer, and does not touch a block in use nor its header; no payload byte changes.
\<close>

theorem user_malloc_returns:
  assumes "user_heap_ok segs s" "n \<noteq> 0" "user_end s + 2 * (unat n + 4112) < 2 ^ 63"
  shows "\<exists>p m t segs'. user_malloc n s = Some (p, t) \<and> user_heap_ok segs' t \<and> 16 dvd unat p \<and>
    unat n \<le> m \<and> m < unat n + 80 \<and> user_blocks segs' t = insert (unat p, m) (user_blocks segs s) \<and>
    (\<forall>(q, l) \<in> user_blocks segs s. unat p + m + 32 \<le> q \<or> q + l + 32 \<le> unat p) \<and> user_keeps s t"
  using program_heap.alloc_apart [of segs s n] assms by (simp add: user_can_def)

section \<open>Runs of a program\<close>

datatype heap_call = Malloc u64 | Calloc u64 u64 | Realloc u64 u64 | Free u64

definition user_call :: "heap_call \<Rightarrow> user_heap \<Rightarrow> user_heap option" where
  "user_call c s = (case c of
     Malloc n \<Rightarrow> map_option snd (user_malloc n s)
   | Calloc k n \<Rightarrow> map_option snd (user_calloc k n s)
   | Realloc p n \<Rightarrow> map_option snd (user_realloc p n s)
   | Free p \<Rightarrow> user_free p s)"

text \<open>How many bytes a call asks for.\<close>

fun asked :: "heap_call \<Rightarrow> u64" where
  "asked (Malloc n) = n"
| "asked (Calloc k n) = k * n"
| "asked (Realloc p n) = n"
| "asked (Free p) = 0"

text \<open>A program may release and resize only what it holds, and there must be address space.\<close>

definition heap_call_ok :: "heap_call \<Rightarrow> u64 list \<Rightarrow> user_heap \<Rightarrow> bool" where
  "heap_call_ok c segs s \<longleftrightarrow> user_end s + 2 * (unat (asked c) + 4112) < 2 ^ 63 \<and>
     (case c of Realloc p n \<Rightarrow> \<exists>m. (unat p, m) \<in> user_blocks segs s
      | Free p \<Rightarrow> \<exists>m. (unat p, m) \<in> user_blocks segs s
      | _ \<Rightarrow> True)"

inductive user_run :: "heap_call list \<Rightarrow> user_heap \<Rightarrow> user_heap \<Rightarrow> bool" where
  run_done: "user_run [] s s"
| run_call: "user_heap_ok segs s \<Longrightarrow> heap_call_ok c segs s \<Longrightarrow> user_call c s = Some t \<Longrightarrow>
    user_run cs t u \<Longrightarrow> user_run (c # cs) s u"

inductive_cases user_run_ConsE: "user_run (c # cs) s u"

lemma user_bytes_upd [simp]:
  "user_wf segs (s\<lparr>uh_bytes := b\<rparr>) = user_wf segs s"
  "user_blocks segs (s\<lparr>uh_bytes := b\<rparr>) = user_blocks segs s"
  by (simp_all add: user_wf_def user_blocks_def)

lemma user_wf_ok [intro]: "user_wf segs s \<Longrightarrow> user_heap_ok segs s"
  by (simp add: user_heap_ok_def user_wf_def)

text \<open>The blocks after a call that asks for \<open>n\<close> bytes.\<close>

definition one_more :: "u64 \<Rightarrow> (nat \<times> nat) set \<Rightarrow> (nat \<times> nat) set \<Rightarrow> bool" where
  "one_more n B C \<longleftrightarrow> (if n = 0 then C = B else \<exists>b. b \<notin> B \<and> C = insert b B)"

lemma user_malloc_zero:
  "user_malloc 0 s = do {
     s \<leftarrow> (if \<not> uh_initialized s then user_heap_initialize 0x7f0000000000 256 s else Some s); Some (0, s) }"
proof -
  have "heap_round_size 0 = 0" by (simp add: heap_round_size_def)
  then show ?thesis by (subst user_malloc.simps) (simp only: Let_def if_True refl)
qed

lemma user_malloc_any:
  assumes "user_heap_ok segs s" "user_end s + 2 * (unat n + 4112) < 2 ^ 63"
  shows "\<exists>p t segs'. user_malloc n s = Some (p, t) \<and> user_wf segs' t \<and>
    one_more n (user_blocks segs s) (user_blocks segs' t)"
proof (cases "n = 0")
  case True
  show ?thesis
  proof (cases "uh_initialized s")
    case True
    then have "user_malloc n s = Some (0, s)" using \<open>n = 0\<close> by (simp add: user_malloc_zero)
    moreover have "user_wf segs s" using assms(1) True by (simp add: user_heap_ok_def)
    ultimately show ?thesis using \<open>n = 0\<close> by (auto simp: one_more_def)
  next
    case False
    then have "segs = []" using assms(1) by (simp add: user_heap_ok_def)
    moreover obtain u where "user_heap_initialize 0x7f0000000000 256 s = Some u"
        "user_wf [0x7f0000000000] u" "user_blocks [0x7f0000000000] u = {}"
      using user_initialize_run [OF False] by blast
    ultimately have "user_malloc n s = Some (0, u)" "user_blocks segs s = {}"
        "user_wf [0x7f0000000000] u" "user_blocks [0x7f0000000000] u = {}"
      using False \<open>n = 0\<close> by (simp_all add: user_malloc_zero)
    then show ?thesis using \<open>n = 0\<close> by (auto simp: one_more_def)
  qed
next
  case False
  then show ?thesis using user_malloc_total [OF assms(1) False assms(2)] by (simp add: one_more_def) blast
qed

lemma one_more_keeps: "one_more n B C \<Longrightarrow> B \<subseteq> C"
  by (auto simp: one_more_def split: if_splits)

lemma user_block_segment:
  assumes "user_wf segs s" "(unat p, m) \<in> user_blocks segs s"
  shows "p - sizeof_header \<noteq> 0"
proof -
  obtain a where a: "a \<in> set segs" "unat p = unat a + 32" using assms(2) by (auto simp: user_blocks_def)
  then have "p = a + 0x20" using user_payload [OF assms(1) a(1)] by (metis unsigned_word_eqI)
  then show ?thesis using user_wf_nonzero [OF assms(1) a(1)] by simp
qed

lemma user_call_step:
  assumes ok: "user_heap_ok segs s" and c: "heap_call_ok c segs s"
  shows "\<exists>t segs'. user_call c s = Some t \<and> user_heap_ok segs' t \<and>
    one_more (asked c) (user_blocks segs s) (user_blocks segs' t)"
proof -
  have "user_end s + 2 * (unat (asked c) + 4112) < 2 ^ 63" using c by (simp add: heap_call_ok_def)
  from user_malloc_any [OF ok this] obtain p t segs' where
    new: "user_malloc (asked c) s = Some (p, t)" "user_wf segs' t"
      "one_more (asked c) (user_blocks segs s) (user_blocks segs' t)" by blast
  have wf: "user_wf segs s" if "(q, m) \<in> user_blocks segs s" for q m
    using that ok by (auto simp: user_heap_ok_def user_blocks_def split: if_splits)
  show ?thesis
  proof (cases c)
    case (Malloc n)
    then show ?thesis using new by (auto simp: user_call_def)
  next
    case (Calloc k n)
    then show ?thesis using new
      by (auto simp: user_call_def user_calloc_def Let_def intro!: exI [of _ segs'] user_wf_ok)
  next
    case (Realloc q n)
    then obtain m where q: "(unat q, m) \<in> user_blocks segs s" using c by (auto simp: heap_call_ok_def)
    then have "(unat q, m) \<in> user_blocks segs' t" using one_more_keeps [OF new(3)] by blast
    then have "user_free q (t\<lparr>uh_bytes := b\<rparr>) = Some (t\<lparr>uh_bytes := b\<rparr>)" for b
      using user_free_nothing [of segs' "t\<lparr>uh_bytes := b\<rparr>" q m] new(2) by simp
    then show ?thesis using new Realloc user_block_segment [OF wf [OF q] q]
      by (auto simp: user_call_def user_realloc_def Let_def intro!: exI [of _ segs'] user_wf_ok)
  next
    case (Free q)
    then obtain m where q: "(unat q, m) \<in> user_blocks segs s" using c by (auto simp: heap_call_ok_def)
    then show ?thesis using user_free_nothing [OF wf [OF q] q] ok Free
      by (auto simp: user_call_def one_more_def)
  qed
qed

lemma finite_user_blocks [simp]: "finite (user_blocks segs s)"
  by (simp add: user_blocks_def)

text \<open>The segments are those that the links lead to.\<close>

lemma hlinks_unique:
  "hlinks h p as 0 \<Longrightarrow> hlinks h q bs 0 \<Longrightarrow> hd0 as 0 = hd0 bs 0 \<Longrightarrow> 0 \<notin> set as \<Longrightarrow> 0 \<notin> set bs \<Longrightarrow> as = bs"
proof (induction as arbitrary: p q bs)
  case Nil
  then show ?case by (cases bs) auto
next
  case (Cons a as)
  then obtain cs where "bs = a # cs" by (cases bs) auto
  then show ?case using Cons.prems Cons.IH [of a a cs] by simp
qed

lemma user_heap_ok_unique:
  assumes "user_heap_ok as s" "user_heap_ok bs s"
  shows "as = bs"
proof (cases "uh_initialized s")
  case True
  then have wf: "user_wf as s" "user_wf bs s" using assms by (simp_all add: user_heap_ok_def)
  then have "0 \<notin> set as" "0 \<notin> set bs" using user_wf_nonzero by blast+
  then show ?thesis using hlinks_unique [of "uh_headers s" 0 as 0 bs] wf by (simp add: user_wf_def)
qed (use assms in \<open>simp add: user_heap_ok_def\<close>)

lemma user_run_grows:
  "user_run cs s t \<Longrightarrow> user_heap_ok segs s \<Longrightarrow> \<exists>segs'. user_heap_ok segs' t \<and>
     user_blocks segs s \<subseteq> user_blocks segs' t \<and>
     card (user_blocks segs' t) = card (user_blocks segs s) + length (filter (\<lambda>c. asked c \<noteq> 0) cs)"
proof (induction arbitrary: segs rule: user_run.induct)
  case (run_done s)
  then show ?case by auto
next
  case (run_call as s c t cs u)
  have as: "as = segs" using user_heap_ok_unique run_call.hyps(1) run_call.prems by blast
  obtain segs' where t: "user_heap_ok segs' t" "one_more (asked c) (user_blocks segs s) (user_blocks segs' t)"
    using user_call_step [OF run_call.hyps(1,2)] run_call.hyps(3) unfolding as by auto
  from run_call.IH [OF t(1)] obtain segs'' where u: "user_heap_ok segs'' u"
      "user_blocks segs' t \<subseteq> user_blocks segs'' u"
      "card (user_blocks segs'' u) = card (user_blocks segs' t) + length (filter (\<lambda>c. asked c \<noteq> 0) cs)"
    by blast
  moreover have "card (user_blocks segs' t) = card (user_blocks segs s) + (if asked c = 0 then 0 else 1)"
    using t(2) by (auto simp: one_more_def)
  ultimately show ?case using one_more_keeps [OF t(2)] by (intro exI [of _ segs'']) auto
qed

text \<open>C8:
  \<open>free\<close> in a user program never releases anything, and so neither does \<open>realloc\<close>: along every run of
  legal calls, each of which returns, all the blocks that were ever handed out stay in use, one more for
  each call that asks for memory.
\<close>

theorem user_heap_only_grows:
  assumes "user_run cs s t" "user_heap_ok segs s"
  shows "(\<forall>c as. user_heap_ok as t \<and> heap_call_ok c as t \<longrightarrow> (\<exists>u. user_call c t = Some u)) \<and>
    (\<exists>segs'. user_heap_ok segs' t \<and> user_blocks segs s \<subseteq> user_blocks segs' t \<and>
     card (user_blocks segs' t) = card (user_blocks segs s) + length (filter (\<lambda>c. asked c \<noteq> 0) cs))"
  using user_run_grows [OF assms] user_call_step by blast

section \<open>A sample run\<close>

definition fresh_user_heap :: user_heap where
  "fresh_user_heap = \<lparr>uh_initialized = False, uh_start = 0, uh_end = 0, uh_last = 0,
     uh_headers = (\<lambda>_. \<lparr>seg_length = 0, seg_next = 0, seg_last = 0, seg_free = False\<rparr>),
     uh_bytes = (\<lambda>_. 0), uh_mapped = []\<rparr>"

lemma fresh_user_heap_ok: "user_heap_ok [] fresh_user_heap"
  by (simp add: user_heap_ok_def fresh_user_heap_def)

lemma user_malloc_returns_witness:
  "\<exists>p m t segs'. user_malloc 100 fresh_user_heap = Some (p, t) \<and> 16 dvd unat p \<and> 100 \<le> m \<and>
     user_blocks segs' t = {(unat p, m)}"
  using user_malloc_returns [OF fresh_user_heap_ok, of 100]
  by (fastforce simp: user_end_def fresh_user_heap_def)

lemma user_heap_only_grows_witness:
  "\<exists>p t segs'. user_run [Malloc 100, Free p, Malloc 100] fresh_user_heap t \<and> card (user_blocks segs' t) = 2"
proof -
  have e: "user_end fresh_user_heap = 0x7f0000100000" by (simp add: user_end_def fresh_user_heap_def)
  obtain p m t segs where t: "user_malloc 100 fresh_user_heap = Some (p, t)" "user_wf segs t"
      "user_blocks segs t = insert (unat p, m) (user_blocks [] fresh_user_heap)"
      "user_end t \<le> user_end fresh_user_heap + 2 * (unat (100 :: u64) + 4112)"
    using user_malloc_total [OF fresh_user_heap_ok, of 100] e by auto
  have p: "(unat p, m) \<in> user_blocks segs t" using t(3) by simp
  have ok: "heap_call_ok (Free p) segs t" "heap_call_ok (Malloc 100) segs t"
    using t(4) e p by (auto simp: heap_call_ok_def)
  obtain u where u: "user_call (Malloc 100) t = Some u"
    using user_call_step [OF user_wf_ok [OF t(2)] ok(2)] by blast
  have "heap_call_ok (Malloc 100) [] fresh_user_heap" by (simp add: heap_call_ok_def e)
  then have "user_run [Malloc 100, Free p, Malloc 100] fresh_user_heap u"
    using run_call [OF fresh_user_heap_ok _ _ run_call [OF user_wf_ok [OF t(2)] ok(1) _
          run_call [OF user_wf_ok [OF t(2)] ok(2) u run_done]]] t(1) user_free_nothing [OF t(2) p]
    by (simp add: user_call_def)
  moreover from user_heap_only_grows [OF this fresh_user_heap_ok] obtain segs' where
    "card (user_blocks segs' u) = Suc (Suc 0)" by auto
  then have "card (user_blocks segs' u) = 2" by simp
  ultimately show ?thesis by blast
qed

end
