(* ===== verification/Isr.thy ===== *)
theory Isr
  imports Ahci
begin

text \<open>
  What the kernel does on an exception, \<open>kernel/src/cpu/interrupts/isr.c\<close>: it reports the exception, a
  stack trace and the registers to the debug shell and stops the processor. The table of symbols is
  generated by the build (\<open>symbol_gen.sh\<close>): the parameter \<open>symbols\<close>, a list of addresses and names that ends
  with the address 0xFFFFFFFFFFFFFFFF. The assembly that builds the frame is not modelled.
\<close>

section \<open>The frame\<close>

record control_registers =
  reg_cr4 :: u64
  reg_cr3 :: u64
  reg_cr2 :: u64
  reg_cr0 :: u64

record general_registers =
  reg_r15 :: u64
  reg_r14 :: u64
  reg_r13 :: u64
  reg_r12 :: u64
  reg_r11 :: u64
  reg_r10 :: u64
  reg_r9 :: u64
  reg_r8 :: u64
  reg_rdi :: u64
  reg_rsi :: u64
  reg_rdx :: u64
  reg_rcx :: u64
  reg_rbx :: u64
  reg_rax :: u64

record base_frame =
  frame_rbp :: u64
  frame_vector :: u64
  frame_error_code :: u64
  frame_rip :: u64
  frame_cs :: u64
  frame_rflags :: u64
  frame_rsp :: u64
  frame_dss :: u64

record isr_xframe =
  xf_control :: control_registers
  xf_general :: general_registers
  xf_base :: base_frame

section \<open>Names of exceptions\<close>

definition exception_labels :: "u8 list list" where
  "exception_labels = map text_of
     [''[0x00] Divide by Zero Exception'', ''[0x01] Debug Exception'',
      ''[0x02] Unhandled Non-maskable Interrupt'', ''[0x03] Breakpoint Exception'',
      ''[0x04] Overflow Exception'', ''[0x05] Bound Range Exceeded Exception'',
      ''[0x06] Invalid Opcode/Operand Exception'', ''[0x07] Device Unavailable Exception'',
      ''[0x08] Double Fault'', ''[0x09] Coprocessor Segment Overrun'', ''[0x0A] Invalid TSS Exception'',
      ''[0x0B] Absent Segment Exception'', ''[0x0C] Stack-segment Fault'',
      ''[0x0D] General Protection Fault'', ''[0x0E] Page Fault'', ''[0x0F] Inexplicable Error'',
      ''[0x10] x87 Floating Exception'', ''[0x11] Alignment Check'', ''[0x12] Machine Check'',
      ''[0x13] SIMD Floating Exception'', ''[0x14] Virtualized Exception'',
      ''[0x15] Control Protection Exception'', ''[0x16] Inexplicable Error'',
      ''[0x17] Inexplicable Error'', ''[0x18] Inexplicable Error'', ''[0x19] Inexplicable Error'',
      ''[0x1A] Inexplicable Error'', ''[0x1B] Inexplicable Error'',
      ''[0x1C] Hypervisor Intrusion Exception'', ''[0x1D] VMM Communications Exception'',
      ''[0x1E] Security Exception'', ''[0x1F] Inexplicable Error'']"

section \<open>Stack trace\<close>

type_synonym symbol_tab = "(u64 \<times> u8 list) list"

text \<open>
  The first symbol whose range contains the address; \<open>None\<close> outside is a read behind the table.
\<close>

fun find_symbol :: "u64 \<Rightarrow> symbol_tab \<Rightarrow> u8 list option option" where
  "find_symbol rip [] = None"
| "find_symbol rip ((addr, name) # rest) =
     (if addr = 0xFFFFFFFFFFFFFFFF then Some None
      else if rip \<ge> addr
      then case rest of [] \<Rightarrow> None
        | (addr', _) # _ \<Rightarrow> if rip < addr' then Some (Some name) else find_symbol rip rest
      else find_symbol rip rest)"

definition print_number :: "u64 \<Rightarrow> u8 \<Rightarrow> 'z uart_state_scheme \<Rightarrow> 'z uart_state_scheme option" where
  "print_number value base s = do { n \<leftarrow> utoa_text value base; serial_print_quiet n s }"

definition isr_trace_line :: "symbol_tab \<Rightarrow> u64 \<Rightarrow> 'z uart_state_scheme \<Rightarrow> 'z uart_state_scheme option" where
  "isr_trace_line symbols rip s = do {
     symbol \<leftarrow> find_symbol rip symbols;
     case symbol of
       Some name \<Rightarrow> do {
         s \<leftarrow> serial_print_quiet [0x09] s;
         s \<leftarrow> print_number rip 16 s;
         s \<leftarrow> serial_print_quiet (text_of '' <'') s;
         s \<leftarrow> serial_print_quiet name s;
         serial_print_quiet (text_of ''>'' @ crlf) s }
     | None \<Rightarrow> do {
         s \<leftarrow> serial_print_quiet [0x09] s;
         s \<leftarrow> print_number rip 16 s;
         serial_print_quiet (text_of '' <unknown>'' @ crlf) s } }"

text \<open>\<open>rip0\<close> is where the exception happened; the saved frames are read from memory.\<close>

partial_function (option) isr_trace ::
    "symbol_tab \<Rightarrow> u64 \<Rightarrow> u64 \<Rightarrow> u64 \<Rightarrow> 'z uart_state_scheme \<Rightarrow> 'z uart_state_scheme option" where
  "isr_trace symbols rip0 rbp rip s = do {
     s \<leftarrow> isr_trace_line symbols rip s;
     let rbp = (if rip \<noteq> rip0 then read_u64 (heap_bytes s) rbp else rbp);
     if rbp = 0 then Some s
     else isr_trace symbols rip0 rbp (read_u64 (heap_bytes s) (rbp + 8)) s }"

definition print_interrupt_stacktrace ::
    "symbol_tab \<Rightarrow> isr_xframe \<Rightarrow> 'z uart_state_scheme \<Rightarrow> 'z uart_state_scheme option" where
  "print_interrupt_stacktrace symbols ctx s = do {
     s \<leftarrow> serial_print_quiet (crlf @ text_of ''Attempted stacktrace: interrupt during '' @ crlf) s;
     isr_trace symbols (frame_rip (xf_base ctx)) (frame_rbp (xf_base ctx)) (frame_rip (xf_base ctx)) s }"

section \<open>Registers\<close>

definition print_register ::
    "u8 list \<times> u64 \<times> u8 \<Rightarrow> 'z uart_state_scheme \<Rightarrow> 'z uart_state_scheme option" where
  "print_register r s = (case r of (label, value, base) \<Rightarrow> do {
     s \<leftarrow> serial_print_quiet label s;
     print_number value base s })"

definition dump_registers :: "isr_xframe \<Rightarrow> 'z uart_state_scheme \<Rightarrow> 'z uart_state_scheme option" where
  "dump_registers frame s = (let g = xf_general frame; c = xf_control frame; b = xf_base frame in do {
     s \<leftarrow> for_each print_register
       [(crlf @ crlf @ text_of ''process register dump:'' @ crlf @ [9] @ text_of ''rax: '', reg_rax g, 16),
        (text_of '', rbx: '', reg_rbx g, 16), (text_of '', rcx: '', reg_rcx g, 16),
        (text_of '', rdx: '', reg_rdx g, 16), (text_of '', rdi: '', reg_rdi g, 16),
        (text_of '', rsi: '', reg_rsi g, 16), (crlf @ [9] @ text_of ''r8: '', reg_r8 g, 16),
        (text_of '', r9: '', reg_r9 g, 16), (text_of '', r10: '', reg_r10 g, 16),
        (text_of '', r11: '', reg_r11 g, 16), (crlf @ [9] @ text_of ''r12: '', reg_r12 g, 16),
        (text_of '', r13: '', reg_r13 g, 16), (text_of '', r14: '', reg_r14 g, 16),
        (text_of '', r15: '', reg_r15 g, 16), (crlf @ [9] @ text_of ''cr0: '', reg_cr0 c, 16),
        (text_of '', cr2: '', reg_cr2 c, 16), (text_of '', cr3: '', reg_cr3 c, 16),
        (text_of '', cr4: '', reg_cr4 c, 16), (crlf @ [9] @ text_of ''rsp: '', frame_rsp b, 16),
        (text_of '', rbp: '', frame_rbp b, 16), (text_of '', rflags: '', frame_rflags b, 16),
        (crlf @ [9] @ text_of ''error code: b*'', frame_error_code b, 2)] s;
     serial_print_quiet crlf s })"

section \<open>Page faults\<close>

definition analyze_page_fault :: "u64 \<Rightarrow> 'z uart_state_scheme \<Rightarrow> 'z uart_state_scheme option" where
  "analyze_page_fault code s =
     for_each serial_print_quiet
       [crlf @ crlf @ text_of ''page fault details:'' @ crlf @ [9] @ text_of ''violation: '',
        if bit code 0 then text_of ''privileged'' else text_of ''absent'',
        crlf @ [9] @ text_of ''access: '', if bit code 1 then text_of ''write'' else text_of ''read'',
        crlf @ [9] @ text_of ''origin: '', if bit code 2 then text_of ''user'' else text_of ''kernel'',
        crlf @ [9] @ text_of ''bad entry: '', if bit code 3 then text_of ''true'' else text_of ''false'',
        crlf @ [9] @ text_of ''execution: '', if bit code 4 then text_of ''true'' else text_of ''false'',
        crlf @ [9] @ text_of ''pkru: '', if bit code 5 then text_of ''true'' else text_of ''false'',
        crlf @ [9] @ text_of ''shadow: '', if bit code 6 then text_of ''true'' else text_of ''false''] s"

section \<open>The handler\<close>

abbreviation PAGE_FAULT_CODE :: u64 where "PAGE_FAULT_CODE \<equiv> 0x0E"

text \<open>The state in which the processor stops for good; a vector without a label is \<open>None\<close>.\<close>

definition isr_exception_handler ::
    "symbol_tab \<Rightarrow> isr_xframe \<Rightarrow> 'z uart_state_scheme \<Rightarrow> 'z uart_state_scheme option" where
  "isr_exception_handler symbols frame s = do {
     s \<leftarrow> serial_set_input_masked True s;
     s \<leftarrow> serial_print_quiet (text_of ''FATAL '') s;
     label \<leftarrow> (if unat (frame_vector (xf_base frame)) < length exception_labels
               then Some (exception_labels ! unat (frame_vector (xf_base frame))) else None);
     s \<leftarrow> serial_print_quiet label s;
     s \<leftarrow> serial_print_quiet (text_of '':'' @ crlf) s;
     s \<leftarrow> print_interrupt_stacktrace symbols frame s;
     s \<leftarrow> dump_registers frame s;
     if frame_vector (xf_base frame) = PAGE_FAULT_CODE then analyze_page_fault (frame_error_code (xf_base frame)) s
     else Some s }"

end
