(* ===== verification/Isr_Props.thy ===== *)
theory Isr_Props
  imports Isr Shell_Reports
begin

text \<open>
  What the report of an exception contains, and when the stack trace ends.
\<close>

section \<open>Printing numbers\<close>

lemma length_numeral_u64:
  assumes "2 \<le> b"
  shows "length (numeral_text b (unat (v :: u64))) \<le> 64"
proof -
  have "unat v < 2 ^ LENGTH(64)" by (rule unsigned_less)
  also have "(2 :: nat) ^ LENGTH(64) \<le> b ^ 64" using power_mono [OF assms, of 64] by simp
  finally show ?thesis using length_digits_of [OF assms, of 64] by simp
qed

lemma utoa_text_numeral:
  assumes "2 \<le> base" "base \<le> 16"
  shows "utoa_text v base = Some (numeral_text (unat base) (unat v))"
proof -
  let ?t = "numeral_text (unat base) (unat v)"
  obtain m where m: "utoa v 0x1000 base (\<lambda>_. 0) = Some (0x1000, m)" "cstr m 0x1000 ?t"
    using utoa_text [OF assms] by blast
  have "length ?t \<le> 64" using length_numeral_u64 [of "unat base" v] assms by (simp add: word_le_nat_alt)
  then have n: "unat (of_nat (length ?t) :: u64) = length ?t" by (simp add: unat_of_nat_nowrap)
  have "bytes_at m 0x1000 ?t" using m(2) by (simp add: cstr_def bytes_at_append)
  then have "read_bytes m 0x1000 (length ?t) = ?t"
    by (auto simp: bytes_at_def read_bytes_def intro: nth_equalityI)
  then show ?thesis using m strlen_cstr [OF m(2)] n by (simp add: utoa_text_def)
qed

lemma print_quiet: "shell_connected s \<Longrightarrow> serial_print_quiet xs s = Some (transmit xs s)"
  by (simp add: serial_print_quiet_def internal_write_transmit)

lemma print_number:
  "shell_connected s \<Longrightarrow> 2 \<le> base \<Longrightarrow> base \<le> 16 \<Longrightarrow>
   print_number v base s = Some (transmit (numeral_text (unat base) (unat v)) s)"
  by (simp add: print_number_def utoa_text_numeral print_quiet)

section \<open>Symbols\<close>

text \<open>A table is sorted and ends with the address that marks its end.\<close>

definition symbols_end :: "symbol_tab \<Rightarrow> bool" where
  "symbols_end syms \<longleftrightarrow> 0xFFFFFFFFFFFFFFFF \<in> fst ` set syms"

lemma find_symbol_ends: "symbols_end syms \<Longrightarrow> \<exists>r. find_symbol rip syms = Some r"
proof (induction syms)
  case (Cons e syms)
  obtain a n where e: "e = (a, n)" by (cases e)
  show ?case
  proof (cases "a = 0xFFFFFFFFFFFFFFFF")
    case False
    then have "symbols_end syms" using Cons.prems e by (auto simp: symbols_end_def)
    moreover then obtain a' n' rest where "syms = (a', n') # rest"
      by (cases syms) (auto simp: symbols_end_def)
    ultimately show ?thesis using Cons.IH e False by auto
  qed (simp add: e)
qed (simp add: symbols_end_def)

definition symbol_of :: "symbol_tab \<Rightarrow> u64 \<Rightarrow> u8 list option" where
  "symbol_of syms rip = the (find_symbol rip syms)"

definition trace_line_text :: "symbol_tab \<Rightarrow> u64 \<Rightarrow> u8 list" where
  "trace_line_text syms rip = [0x09] @ numeral_text 16 (unat rip) @
     (case symbol_of syms rip of Some name \<Rightarrow> text_of '' <'' @ name @ text_of ''>'' | None \<Rightarrow> text_of '' <unknown>'') @ crlf"

lemma trace_line:
  assumes "shell_connected s" "symbols_end syms"
  shows "isr_trace_line syms rip s = Some (transmit (trace_line_text syms rip) s)"
proof -
  obtain r where "find_symbol rip syms = Some r" using find_symbol_ends [OF assms(2)] by blast
  then show ?thesis using assms(1)
    by (cases r) (simp_all add: isr_trace_line_def trace_line_text_def symbol_of_def print_quiet print_number
        transmit_append)
qed

section \<open>The trace\<close>

text \<open>\<open>frames m rbp rets\<close>: the saved frames from \<open>rbp\<close> on hold these return addresses.\<close>

fun frames :: "mem \<Rightarrow> u64 \<Rightarrow> u64 list \<Rightarrow> bool" where
  "frames m rbp [] \<longleftrightarrow> rbp = 0"
| "frames m rbp (r # rs) \<longleftrightarrow> rbp \<noteq> 0 \<and> read_u64 m (rbp + 8) = r \<and> frames m (read_u64 m rbp) rs"

lemma isr_trace_tail:
  assumes "shell_connected s" "symbols_end syms" "frames (heap_bytes s) (read_u64 (heap_bytes s) rbp) rets"
    "rip \<noteq> rip0" "rip0 \<notin> set rets"
  shows "isr_trace syms rip0 rbp rip s = Some (transmit (concat (map (trace_line_text syms) (rip # rets))) s)"
  using assms
proof (induction rets arbitrary: rbp rip s)
  case Nil
  then show ?case by (subst isr_trace.simps) (simp add: trace_line)
next
  case (Cons r rs)
  let ?s = "transmit (trace_line_text syms rip) s" and ?rbp = "read_u64 (heap_bytes s) rbp"
  have "isr_trace syms rip0 ?rbp r ?s = Some (transmit (concat (map (trace_line_text syms) (r # rs))) ?s)"
    using Cons.prems by (intro Cons.IH) auto
  then show ?case
    using Cons.prems by (subst isr_trace.simps) (simp add: trace_line Let_def transmit_append)
qed

lemma isr_trace_frames:
  assumes "shell_connected s" "symbols_end syms" "frames (heap_bytes s) rbp rets" "rip0 \<notin> set rets"
  shows "isr_trace syms rip0 rbp rip0 s = Some (transmit (concat (map (trace_line_text syms) (rip0 # rets))) s)"
proof (cases rets)
  case Nil
  then show ?thesis using assms by (subst isr_trace.simps) (simp add: trace_line)
next
  case (Cons r rs)
  let ?s = "transmit (trace_line_text syms rip0) s"
  have "isr_trace syms rip0 rbp r ?s = Some (transmit (concat (map (trace_line_text syms) (r # rs))) ?s)"
    using assms Cons by (intro isr_trace_tail) auto
  then show ?thesis
    using assms Cons by (subst isr_trace.simps) (simp add: trace_line Let_def transmit_append)
qed

section \<open>A trace that does not end\<close>

lemma isr_trace_stays:
  assumes ret: "isr_trace syms rip0 rbp rip s = Some t"
  shows "\<not> (shell_connected s \<and> symbols_end syms \<and> rip = rip0 \<and> rbp \<noteq> 0 \<and>
    read_u64 (heap_bytes s) (rbp + 8) = rip0)"
proof (rule isr_trace.raw_induct [where P = "\<lambda>syms rip0 rbp rip s t. \<not> (shell_connected s \<and> symbols_end syms \<and>
    rip = rip0 \<and> rbp \<noteq> 0 \<and> read_u64 (heap_bytes s) (rbp + 8) = rip0)", OF _ ret], goal_cases)
  case (1 trace syms rip0 rbp rip s t)
  show ?case
  proof
    assume a: "shell_connected s \<and> symbols_end syms \<and> rip = rip0 \<and> rbp \<noteq> 0 \<and>
      read_u64 (heap_bytes s) (rbp + 8) = rip0"
    then have "trace syms rip0 rbp rip0 (transmit (trace_line_text syms rip0) s) = Some t"
      using 1(2) by (simp add: trace_line Let_def)
    from 1(1) [OF this] a show False by simp
  qed
qed

lemma isr_trace_loops:
  assumes "shell_connected s" "symbols_end syms" "rbp \<noteq> 0" "read_u64 (heap_bytes s) (rbp + 8) = rip0"
  shows "isr_trace syms rip0 rbp rip0 s = None"
  using isr_trace_stays [of syms rip0 rbp rip0 s] assms by (cases "isr_trace syms rip0 rbp rip0 s") auto

lemma isr_trace_loops_later:
  assumes "shell_connected s" "symbols_end syms" "frames (heap_bytes s) (read_u64 (heap_bytes s) rbp) rets"
    "rip \<noteq> rip0" "rip0 \<in> set rets"
  shows "isr_trace syms rip0 rbp rip s = None"
  using assms
proof (induction rets arbitrary: rbp rip s)
  case (Cons r rs)
  let ?s = "transmit (trace_line_text syms rip) s" and ?rbp = "read_u64 (heap_bytes s) rbp"
  have "isr_trace syms rip0 ?rbp r ?s = None"
  proof (cases "r = rip0")
    case True
    then show ?thesis using Cons.prems isr_trace_loops [of ?s syms ?rbp rip0] by simp
  next
    case False
    then show ?thesis using Cons.prems by (intro Cons.IH) auto
  qed
  then show ?case using Cons.prems by (subst isr_trace.simps) (simp add: trace_line Let_def)
qed simp

lemma isr_trace_repeats:
  assumes "shell_connected s" "symbols_end syms" "frames (heap_bytes s) rbp rets" "rip0 \<in> set rets"
  shows "isr_trace syms rip0 rbp rip0 s = None"
proof -
  obtain r rs where rets: "rets = r # rs" using assms(4) by (cases rets) auto
  let ?s = "transmit (trace_line_text syms rip0) s"
  show ?thesis
  proof (cases "r = rip0")
    case True
    then show ?thesis using assms rets by (intro isr_trace_loops) auto
  next
    case False
    then have "isr_trace syms rip0 rbp r ?s = None"
      using assms rets by (intro isr_trace_loops_later) auto
    then show ?thesis using assms rets False by (subst isr_trace.simps) (simp add: trace_line Let_def)
  qed
qed

text \<open>C24:
  The stack trace of an exception prints the place of the exception and every return address on the stack,
  each with its symbol, and ends, unless one of the return addresses is the place of the exception itself,
  as in a recursion that fails right after its inner call: then it prints the same line for ever.
\<close>

theorem isr_trace_ends_unless_repeated:
  assumes "shell_connected s" "symbols_end syms" "frames (heap_bytes s) rbp rets"
  shows "isr_trace syms rip0 rbp rip0 s =
    (if rip0 \<in> set rets then None else Some (transmit (concat (map (trace_line_text syms) (rip0 # rets))) s))"
  using isr_trace_frames [OF assms] isr_trace_repeats [OF assms] by auto

section \<open>The report\<close>

text \<open>
  The text of the register dump: lines of names with hexadecimal values, set apart by commas, and the
  error code in binary.
\<close>

fun comma_list :: "u8 list list \<Rightarrow> u8 list" where
  "comma_list [] = []"
| "comma_list [x] = x"
| "comma_list (x # y # xs) = x @ text_of '', '' @ comma_list (y # xs)"

definition register_line :: "(string \<times> u64) list \<Rightarrow> u8 list" where
  "register_line rs = crlf @ [0x09] @ comma_list (map (\<lambda>(name, v). text_of name @ text_of '': '' @ numeral_text 16 (unat v)) rs)"

definition registers_text :: "isr_xframe \<Rightarrow> u8 list" where
  "registers_text frame = (let g = xf_general frame; c = xf_control frame; b = xf_base frame in
     crlf @ crlf @ text_of ''process register dump:'' @
     register_line [(''rax'', reg_rax g), (''rbx'', reg_rbx g), (''rcx'', reg_rcx g), (''rdx'', reg_rdx g),
       (''rdi'', reg_rdi g), (''rsi'', reg_rsi g)] @
     register_line [(''r8'', reg_r8 g), (''r9'', reg_r9 g), (''r10'', reg_r10 g), (''r11'', reg_r11 g)] @
     register_line [(''r12'', reg_r12 g), (''r13'', reg_r13 g), (''r14'', reg_r14 g), (''r15'', reg_r15 g)] @
     register_line [(''cr0'', reg_cr0 c), (''cr2'', reg_cr2 c), (''cr3'', reg_cr3 c), (''cr4'', reg_cr4 c)] @
     register_line [(''rsp'', frame_rsp b), (''rbp'', frame_rbp b), (''rflags'', frame_rflags b)] @
     crlf @ [0x09] @ text_of ''error code: b*'' @ numeral_text 2 (unat (frame_error_code b)) @ crlf)"

text \<open>The text of the page fault's details: one line for each of the seven bits of the error code.\<close>

definition fault_line :: "u64 \<Rightarrow> string \<times> nat \<times> string \<times> string \<Rightarrow> u8 list" where
  "fault_line code = (\<lambda>(name, i, one, zero). crlf @ [0x09] @ text_of name @ text_of '': '' @
     (if bit code i then text_of one else text_of zero))"

definition page_fault_text :: "u64 \<Rightarrow> u8 list" where
  "page_fault_text code = crlf @ crlf @ text_of ''page fault details:'' @ concat (map (fault_line code)
     [(''violation'', 0, ''privileged'', ''absent''), (''access'', 1, ''write'', ''read''),
      (''origin'', 2, ''user'', ''kernel''), (''bad entry'', 3, ''true'', ''false''),
      (''execution'', 4, ''true'', ''false''), (''pkru'', 5, ''true'', ''false''),
      (''shadow'', 6, ''true'', ''false'')])"

lemma text_of_append: "text_of (xs @ ys) = text_of xs @ text_of ys"
  by (simp add: text_of_def)

lemma for_each_transmit:
  assumes "\<And>x s. x \<in> set xs \<Longrightarrow> shell_connected s \<Longrightarrow> f x s = Some (transmit (t x) s)" "shell_connected s"
  shows "for_each f xs s = Some (transmit (concat (map t xs)) s)"
  using assms by (induction xs arbitrary: s) (auto simp: transmit_append)

lemma print_registers:
  assumes "shell_connected s" "\<forall>(l, v, base) \<in> set rs. 2 \<le> base \<and> base \<le> 16"
  shows "for_each print_register rs s =
    Some (transmit (concat (map (\<lambda>(l, v, base). l @ numeral_text (unat base) (unat v)) rs)) s)"
  using assms
  by (intro for_each_transmit) (auto simp: print_register_def print_quiet print_number transmit_append)

lemma dump_registers_text:
  assumes "shell_connected s"
  shows "dump_registers frame s = Some (transmit (registers_text frame) s)"
  using assms
  by (simp add: dump_registers_def Let_def print_registers print_quiet registers_text_def register_line_def
      text_of_def transmit_append del: for_each.simps)

lemma analyze_page_fault_text:
  assumes "shell_connected s"
  shows "analyze_page_fault code s = Some (transmit (page_fault_text code) s)"
  using for_each_transmit [of _ serial_print_quiet "\<lambda>xs. xs", OF print_quiet assms]
  by (simp add: analyze_page_fault_def page_fault_text_def fault_line_def text_of_def del: for_each.simps
      split del: if_split)

lemma masked_shell:
  assumes "serial_set_input_masked b s = Some t"
  shows "shell_connected t = shell_connected s" "heap_bytes t = heap_bytes s"
  using assms
  by (auto simp: serial_set_input_masked_def apic_io_mask_irq_def apic_io_unmask_irq_def apic_io_read_def
      apic_io_write_def Let_def mmio_write_def mmio_read_def io_emit_def shell_connected_def
      bind_eq_Some_conv split: if_splits)

text \<open>C23:
  Every exception is reported: its name, the whole stack trace, every register with its name and the error
  code, and for a page fault (and for no other exception) what each bit of the error code says, go to the
  debug shell's port in exactly this form, and nothing else happens but that the shell's input is masked
  first. Stated where that masking returns and no return address is the place of the exception.
\<close>

theorem isr_reports_exception:
  assumes "shell_connected s" "symbols_end syms" "serial_set_input_masked True s = Some t"
    and "unat (frame_vector (xf_base frame)) < 32"
    and "frames (heap_bytes s) (frame_rbp (xf_base frame)) rets" "frame_rip (xf_base frame) \<notin> set rets"
  shows "isr_exception_handler syms frame s = Some (transmit
    (text_of ''FATAL '' @ exception_labels ! unat (frame_vector (xf_base frame)) @ text_of '':'' @ crlf @
     crlf @ text_of ''Attempted stacktrace: interrupt during '' @ crlf @
     concat (map (trace_line_text syms) (frame_rip (xf_base frame) # rets)) @ registers_text frame @
     (if frame_vector (xf_base frame) = 0x0E then page_fault_text (frame_error_code (xf_base frame)) else [])) t)"
proof -
  let ?b = "xf_base frame"
  have t: "shell_connected t" "heap_bytes t = heap_bytes s" using masked_shell [OF assms(3)] assms(1) by simp_all
  have "length exception_labels = 32" by (simp add: exception_labels_def)
  then have label: "unat (frame_vector ?b) < length exception_labels" using assms(4) by simp
  have trace: "isr_trace syms (frame_rip ?b) (frame_rbp ?b) (frame_rip ?b) u =
      Some (transmit (concat (map (trace_line_text syms) (frame_rip ?b # rets))) u)"
    if "shell_connected u" "heap_bytes u = heap_bytes s" for u :: "'a uart_state_scheme"
    using isr_trace_frames [of u syms] that assms(2,5,6) by simp
  show ?thesis
    using t label assms(3)
    by (simp add: isr_exception_handler_def print_interrupt_stacktrace_def print_quiet trace dump_registers_text
        analyze_page_fault_text transmit_append)
qed

section \<open>A sample exception\<close>

definition small_symbols :: symbol_tab where
  "small_symbols = [(0x1000, text_of ''boot''), (0x2000, text_of ''idle''), (0xFFFFFFFFFFFFFFFF, [])]"

definition small_exception :: isr_xframe where
  "small_exception =
     \<lparr>xf_control = \<lparr>reg_cr4 = 0, reg_cr3 = 0x1000, reg_cr2 = 0xDEAD, reg_cr0 = 0\<rparr>,
      xf_general = \<lparr>reg_r15 = 0, reg_r14 = 0, reg_r13 = 0, reg_r12 = 0, reg_r11 = 0, reg_r10 = 0, reg_r9 = 0,
        reg_r8 = 0, reg_rdi = 0, reg_rsi = 0, reg_rdx = 0, reg_rcx = 0, reg_rbx = 0, reg_rax = 0\<rparr>,
      xf_base = \<lparr>frame_rbp = 0x8000, frame_vector = PAGE_FAULT_CODE, frame_error_code = 2, frame_rip = 0x1004,
        frame_cs = 8, frame_rflags = 0, frame_rsp = 0, frame_dss = 0x10\<rparr>\<rparr>"

text \<open>One saved frame: its link is 0, its return address 0x2004 or the place of the exception.\<close>

definition one_frame :: "u8 \<Rightarrow> mem" where
  "one_frame high = (\<lambda>_. 0)(0x8008 := 0x04, 0x8009 := high)"

lemma one_frame: "frames (one_frame 0x20) 0x8000 [0x2004]" "frames (one_frame 0x10) 0x8000 [0x1004]"
  by (simp_all add: one_frame_def read_u64_def read_u32_def read_u16_def)

lemma small_symbols_end: "symbols_end small_symbols"
  by (simp add: symbols_end_def small_symbols_def)

lemma isr_trace_ends_unless_repeated_witness:
  "isr_trace small_symbols 0x1004 0x8000 0x1004 (small_shell\<lparr>heap_bytes := one_frame 0x10\<rparr>) = None \<and>
   isr_trace small_symbols 0x1004 0x8000 0x1004 (small_shell\<lparr>heap_bytes := one_frame 0x20\<rparr>) \<noteq> None"
  using isr_trace_ends_unless_repeated [OF _ small_symbols_end, of "small_shell\<lparr>heap_bytes := one_frame 0x10\<rparr>"
      "0x8000" "[0x1004]" "0x1004"]
    isr_trace_ends_unless_repeated [OF _ small_symbols_end, of "small_shell\<lparr>heap_bytes := one_frame 0x20\<rparr>"
      "0x8000" "[0x2004]" "0x1004"] one_frame
  by simp

text \<open>A page fault on a write to an absent page, in the kernel.\<close>

lemma isr_reports_exception_witness:
  "\<exists>u. isr_exception_handler small_symbols small_exception
      (small_shell\<lparr>input_com_gsi := 0, heap_bytes := one_frame 0x20\<rparr>) = Some u \<and>
    io_log u = map (Out8 0x3F8) (text_of ''FATAL [0x0E] Page Fault:'' @ crlf @ crlf @
      text_of ''Attempted stacktrace: interrupt during '' @ crlf @
      concat (map (trace_line_text small_symbols) [0x1004, 0x2004]) @ registers_text small_exception @ page_fault_text 2)"
proof -
  let ?s = "small_shell\<lparr>input_com_gsi := 0, heap_bytes := one_frame 0x20\<rparr>"
  have "shell_connected ?s" by (simp add: shell_connected_def)
  moreover have "serial_set_input_masked True ?s = Some (?s\<lparr>input_masked := True\<rparr>)"
    by (simp add: serial_set_input_masked_def)
  moreover have "frames (heap_bytes ?s) (frame_rbp (xf_base small_exception)) [0x2004]"
    using one_frame by (simp add: small_exception_def)
  moreover have "frame_vector (xf_base small_exception) = 0x0E" "frame_error_code (xf_base small_exception) = 2"
    "frame_rip (xf_base small_exception) = 0x1004" by (simp_all add: small_exception_def)
  moreover have "exception_labels ! 14 = text_of ''[0x0E] Page Fault''" by (simp add: exception_labels_def)
  ultimately have "isr_exception_handler small_symbols small_exception ?s = Some (transmit
      (text_of ''FATAL [0x0E] Page Fault:'' @ crlf @ crlf @
       text_of ''Attempted stacktrace: interrupt during '' @ crlf @
       concat (map (trace_line_text small_symbols) [0x1004, 0x2004]) @ registers_text small_exception @ page_fault_text 2)
      (?s\<lparr>input_masked := True\<rparr>))"
    using isr_reports_exception [of ?s small_symbols "?s\<lparr>input_masked := True\<rparr>" small_exception "[0x2004]"]
      small_symbols_end by (simp add: text_of_def)
  then show ?thesis by (simp add: com_port_addrs_def)
qed

end
