(* ===== verification/Pool_Props.thy ===== *)
theory Pool_Props
  imports Pools Pmm_Lock Pmm_Recombine Small_States
begin

text \<open>
  Pools of pages: the section a pool is taken from, and the pages that are in use afterwards.
\<close>

section \<open>The first section that is large enough\<close>

definition pool_fits :: "u64 \<Rightarrow> pmm_section \<Rightarrow> bool" where
  "pool_fits n x \<longleftrightarrow> n \<le> sec_pages x \<and> sec_free x = PMM_SECTION_FREE"

lemma find_free_section_run:
  "dseg (slots s) p is None \<Longrightarrow>
   find_free_section (hd_ptr is None) n s = Some (List.find (\<lambda>i. pool_fits n (slots s i)) is)"
proof (induction "is" arbitrary: p)
  case Nil
  then show ?case by (simp add: find_free_section.simps)
next
  case (Cons i "is")
  then show ?case by (auto simp: find_free_section.simps [of "Some i"] pool_fits_def)
qed

section \<open>Room around a free section\<close>

lemma free_section_inside:
  assumes wf: "pmm_wf (as @ i # bs) s" and free: "sec_free (slots s i) = PMM_SECTION_FREE"
  shows "4096 dvd unat (sec_start (slots s i))"
    "4096 * unat (sec_pages (hd (secs (slots s) (as @ i # bs)))) \<le> unat (sec_start (slots s i))"
    "unat (sec_start (slots s i)) + 4096 * unat (sec_pages (slots s i)) \<le>
       unat (sec_start (last (secs (slots s) (as @ i # bs))))"
proof -
  have c: "chain 0 (secs (slots s) (as @ i # bs))" using wf by (simp add: pmm_wf_def tiles_def)
  then have st: "unat (sec_start (slots s i)) = chain_end 0 (secs (slots s) as)" by simp
  show "4096 dvd unat (sec_start (slots s i))" by (simp add: st chain_end_total)
  have "as \<noteq> []" using wf free by (auto simp: pmm_wf_def first_mib_def)
  then obtain a as' where a: "as = a # as'" by (cases as) auto
  show "4096 * unat (sec_pages (hd (secs (slots s) (as @ i # bs)))) \<le> unat (sec_start (slots s i))"
    using chain_end_ge [of "4096 * unat (sec_pages (slots s a))" "secs (slots s) as'"] by (simp add: st a)
  have "bs \<noteq> []" using wf free by (auto simp: pmm_wf_def guarded_def)
  then obtain b bs' where b: "bs = bs' @ [b]" by (cases bs rule: rev_cases) auto
  have "unat (sec_start (slots s b)) = chain_end 0 (secs (slots s) (as @ i # bs'))" using c by (simp add: b)
  also have "\<dots> \<ge> chain_end 0 (secs (slots s) (as @ [i]))"
    using chain_end_ge [of "chain_end 0 (secs (slots s) (as @ [i]))" "secs (slots s) bs'"] by simp
  finally show "unat (sec_start (slots s i)) + 4096 * unat (sec_pages (slots s i)) \<le>
      unat (sec_start (last (secs (slots s) (as @ i # bs))))"
    by (simp add: st b)
qed

lemma page_state_inside:
  assumes c: "chain 0 (xs @ x # ys)" and a: "unat (sec_start x) \<le> a" "a < unat (sec_start x) + 4096 * unat (sec_pages x)"
  shows "page_state (xs @ x # ys) a = Some (sec_free x)"
proof -
  have "page_state xs a = None"
    using page_state_None_iff [of 0 xs a] c a(1) by simp
  then show ?thesis using a by (simp add: page_state_append in_section_def)
qed

section \<open>Allocating a pool\<close>

lemma same_memory_fields:
  assumes "pmm_state.truncate s' = pmm_state.truncate s"
  shows "pfa_allowing_allocations s' = pfa_allowing_allocations s" "pmm_sections s' = pmm_sections s"
    "slots s' = slots s" "pmm_section_head s' = pmm_section_head s" "pmm_data_size s' = pmm_data_size s"
    "free_memory s' = free_memory s"
  using assms by (simp_all add: pmm_state.defs)

lemma same_memory_inv:
  assumes "pmm_state.truncate s' = pmm_state.truncate s"
  shows "pmm_links is s' = pmm_links is s" "pmm_wf is s' = pmm_wf is s" "tight is s' = tight is s"
    "pmm_room k s' = pmm_room k s"
  using same_memory_fields [OF assms] by (simp_all add: pmm_links_def pmm_wf_def tight_def pmm_room_def)

lemma pool_put_memory: "pool_put f p s = Some t \<Longrightarrow> pmm_state.truncate t = pmm_state.truncate s"
  by (auto simp: pool_put_def pmm_state.defs split: if_splits)

lemma pool_frame:
  assumes "pmm_frame s (t :: 'z pool_state_scheme)" shows "pools t = pools s"
  using pmm_frame_more [OF assms]
  by (cases s rule: pool_state.cases_scheme; cases t rule: pool_state.cases_scheme) simp

lemma pmm_alloc_pool_run:
  assumes wf: "pmm_wf is s" "tight is s" "pmm_room (r + 2 * unat n) s" "pfa_allowing_allocations s"
    and rec: "pool_new_record s = Some (p, s1)" "p \<noteq> 0" "pmm_state.truncate s1 = pmm_state.truncate s"
  shows "\<exists>base t js. pmm_alloc_pool n s = Some (base, t) \<and> pmm_wf js t \<and>
    (case List.find (\<lambda>i. pool_fits n (slots s i)) is of
       None \<Rightarrow> base = 0 \<and> page_state (secs (slots t) js) = page_state (secs (slots s) is) \<and> no_twins (secs (slots t) js)
     | Some i \<Rightarrow> base = sec_start (slots s i) \<and> pmm_room r t \<and>
         pools t p = (pools s1 p)\<lparr>pool_pages := n, pool_base := base\<rparr> \<and>
         page_state (secs (slots t) js) =
           set_pages (page_state (secs (slots s) is)) (unat base) (unat n) PMM_SECTION_USED \<and>
         (\<forall>a. unat base \<le> a \<and> a < unat base + 4096 * unat n \<longrightarrow>
            page_state (secs (slots s) is) a = Some PMM_SECTION_FREE))"
proof -
  obtain s2 where s2: "pool_put (pool_pages_update (\<lambda>_. n)) p s1 = Some s2"
    using rec(2) by (simp add: pool_put_def)
  have m2: "pmm_state.truncate s2 = pmm_state.truncate s" using pool_put_memory [OF s2] rec(3) by simp
  note f2 = same_memory_fields [OF m2] and w2 = same_memory_inv [OF m2]
  have p2: "pools s2 p = (pools s1 p)\<lparr>pool_pages := n\<rparr>" using s2 rec(2) by (auto simp: pool_put_def)
  have links: "dseg (slots s2) None is None" "pmm_sections s2 = hd_ptr is None"
    using wf(1) f2 by (simp_all add: pmm_wf_def pmm_links_def)
  note find = find_free_section_run [OF links(1), of n]
  show ?thesis
  proof (cases "List.find (\<lambda>i. pool_fits n (slots s i)) is")
    case None
    have "pmm_wf is s2" using wf(1) w2 by simp
    from pmm_recombine_run [OF this] obtain t js where t: "pmm_recombine s2 = Some t" "pmm_wf js t"
        "no_twins (secs (slots t) js)" "page_state (secs (slots t) js) = page_state (secs (slots s2) is)"
      by blast
    have "pmm_alloc_pool n s = Some (0, t)"
      using wf(4) rec(1) s2 find None links(2) t(1) f2 by (simp add: pmm_alloc_pool_def)
    then show ?thesis using None t f2 by auto
  next
    case (Some i)
    from find_split [OF this] obtain as bs where i: "is = as @ i # bs" "pool_fits n (slots s i)" by blast
    let ?base = "sec_start (slots s i)"
    obtain s3 where s3: "pool_put (pool_base_update (\<lambda>_. ?base)) p s2 = Some s3"
      using rec(2) by (simp add: pool_put_def)
    have m3: "pmm_state.truncate s3 = pmm_state.truncate s" using pool_put_memory [OF s3] m2 by simp
    note f3 = same_memory_fields [OF m3] and w3 = same_memory_inv [OF m3]
    have p3: "pools s3 p = (pools s1 p)\<lparr>pool_pages := n, pool_base := ?base\<rparr>"
      using s3 rec(2) p2 by (auto simp: pool_put_def)
    have fits: "sec_free (slots s i) = PMM_SECTION_FREE" "unat n \<le> unat (sec_pages (slots s i))"
      using i(2) by (simp_all add: pool_fits_def word_le_nat_alt)
    note inside = free_section_inside [OF wf(1) [unfolded i(1)] fits(1), folded i(1)]
    have "\<exists>t js. for_pages pmm_lock_page ?base (unat n) s3 = Some t \<and> pmm_wf js t \<and> tight js t \<and>
        pmm_frame s3 t \<and> pmm_room r t \<and> free_memory t = free_memory s3 \<and>
        page_state (secs (slots t) js) = set_pages (page_state (secs (slots s3) is)) (unat ?base) (unat n) PMM_SECTION_USED"
      using wf inside fits(2) by (intro for_pages_lock_run) (simp_all add: f3 w3)
    then obtain t js where t: "for_pages pmm_lock_page ?base (unat n) s3 = Some t" "pmm_wf js t"
        "pmm_frame s3 t" "pmm_room r t"
        "page_state (secs (slots t) js) = set_pages (page_state (secs (slots s) is)) (unat ?base) (unat n) PMM_SECTION_USED"
      unfolding f3(3) by blast
    have "pmm_alloc_pool n s = Some (?base, t)"
      using wf(4) rec(1) s2 s3 find Some links(2) t(1) f2 f3 p3 by (simp add: pmm_alloc_pool_def pmm_lock_pages_def)
    moreover have "pools t p = (pools s1 p)\<lparr>pool_pages := n, pool_base := ?base\<rparr>"
      using pool_frame [OF t(3)] p3 by simp
    moreover have "page_state (secs (slots s) is) a = Some PMM_SECTION_FREE"
      if "unat ?base \<le> a \<and> a < unat ?base + 4096 * unat n" for a
      using page_state_inside [of "secs (slots s) as" "bare (slots s i)" "secs (slots s) bs" a] that wf(1) fits
      by (simp add: i(1) pmm_wf_def tiles_def)
    ultimately show ?thesis using Some t by auto
  qed
qed

text \<open>C11:
  A pool of \<open>n\<close> pages is the start of the first free section with at least \<open>n\<close> pages: all its pages were free,
  exactly these are used afterwards, its record holds their number and address, and the section list stays well
  formed. When no section is large enough the result is NULL, no page changes its state and the list is
  recombined, so that a later call can succeed.
\<close>

theorem pmm_alloc_pool_first_fit:
  assumes wf: "pmm_wf is s" "tight is s" "pmm_room (r + 2 * unat n) s" "pfa_allowing_allocations s"
    and rec: "pool_new_record s = Some (p, s1)" "p \<noteq> 0" "pmm_state.truncate s1 = pmm_state.truncate s"
  shows "\<exists>base t js. pmm_alloc_pool n s = Some (base, t) \<and> pmm_wf js t \<and>
    (case List.find (\<lambda>i. pool_fits n (slots s i)) is of
       None \<Rightarrow> base = 0 \<and> page_state (secs (slots t) js) = page_state (secs (slots s) is) \<and> no_twins (secs (slots t) js)
     | Some i \<Rightarrow> base = sec_start (slots s i) \<and> pmm_room r t \<and>
         pools t p = (pools s1 p)\<lparr>pool_pages := n, pool_base := base\<rparr> \<and>
         page_state (secs (slots t) js) =
           set_pages (page_state (secs (slots s) is)) (unat base) (unat n) PMM_SECTION_USED \<and>
         (\<forall>a. unat base \<le> a \<and> a < unat base + 4096 * unat n \<longrightarrow>
            page_state (secs (slots s) is) a = Some PMM_SECTION_FREE))"
  using pmm_alloc_pool_run [OF assms] .

section \<open>A sample pool\<close>

definition small_pool :: pool_state where
  "small_pool = apic_state.extend (small_apic (\<lambda>_. 0))
     \<lparr>pmm_pools = 0, pools = (\<lambda>_. \<lparr>pool_next = 0, pool_pages = 0, pool_base = 0\<rparr>)\<rparr>"

lemma small_pool_memory: "pmm_state.truncate small_pool = small_memory" "pmm_pools small_pool = 0"
  by (simp_all add: small_pool_def small_apic_def small_machine_def small_heap_def small_paging_def
      pmm_state.defs paging_state.defs heap_state.defs machine_state.defs apic_state.defs small_memory_def)

lemma small_pool_inv:
  "pmm_wf [0, 1, 2] small_pool" "tight [0, 1, 2] small_pool" "pmm_room (0 + 2 * unat (2 :: u64)) small_pool"
  "pfa_allowing_allocations small_pool" "slots small_pool = small_slots"
proof -
  have m: "pmm_state.truncate small_pool = pmm_state.truncate small_memory"
    by (simp add: small_pool_memory) (simp add: small_memory_def pmm_state.defs)
  note f = same_memory_fields [OF m]
  show "pmm_wf [0, 1, 2] small_pool" using small_memory_wf by (simp add: same_memory_inv [OF m])
  show "tight [0, 1, 2] small_pool" "pmm_room (0 + 2 * unat (2 :: u64)) small_pool"
    "pfa_allowing_allocations small_pool" "slots small_pool = small_slots"
    by (simp_all add: f tight_def small_memory_def small_slots_def pmm_room_def)
qed

lemma small_pool_record:
  "\<exists>s1. pool_new_record small_pool = Some (0x10140, s1) \<and> pmm_state.truncate s1 = pmm_state.truncate small_pool"
proof -
  have h: "heap_initialized small_pool" "heap_start small_pool = 0x10000" "headers small_pool = small_headers"
    by (simp_all add: small_pool_def small_apic_def small_machine_def heap_state.defs machine_state.defs apic_state.defs)
  have "\<exists>s1. heap_malloc sizeof_pmm_pool small_pool = Some (0x10140, s1) \<and>
      pmm_state.truncate s1 = pmm_state.truncate small_pool"
    by (subst heap_malloc.simps, subst heap_search.simps, subst heap_search.simps)
       (simp add: h heap_round_size_def hget_def hput_def header_split_def small_headers_def Let_def pmm_state.defs)
  then show ?thesis
    by (auto simp: pool_new_record_def small_pool_memory clear_heap_area_def pool_put_def pmm_state.defs Let_def)
qed

lemma small_pool_find:
  "List.find (\<lambda>i. pool_fits 2 (slots small_pool i)) [0, 1, 2] = Some 1" "sec_start (slots small_pool 1) = 0x100000"
  by (simp_all add: small_pool_inv pool_fits_def small_slots_def)

lemma small_pool_alloc: "\<exists>t. pmm_alloc_pool 2 small_pool = Some (0x100000, t)"
proof -
  obtain s1 where s1: "pool_new_record small_pool = Some (0x10140, s1)"
      "pmm_state.truncate s1 = pmm_state.truncate small_pool"
    using small_pool_record by blast
  from pmm_alloc_pool_run [OF small_pool_inv(1-4) s1(1) _ s1(2)] show ?thesis
    unfolding small_pool_find(1) option.case small_pool_find(2) by fastforce
qed

lemma pmm_alloc_pool_first_fit_witness:
  "\<exists>t js. pmm_alloc_pool 2 small_pool = Some (0x100000, t) \<and> pmm_wf js t \<and> pmm_room 0 t \<and>
     pool_pages (pools t 0x10140) = 2"
proof -
  obtain s1 where s1: "pool_new_record small_pool = Some (0x10140, s1)"
      "pmm_state.truncate s1 = pmm_state.truncate small_pool"
    using small_pool_record by blast
  from pmm_alloc_pool_first_fit [OF small_pool_inv(1-4) s1(1) _ s1(2)] show ?thesis
    unfolding small_pool_find(1) option.case small_pool_find(2) by fastforce
qed

end
