(* ===== verification/Elf_Props.thy ===== *)
theory Elf_Props
  imports Elf Pool_Props
begin

text \<open>
  What the program loader puts where: the image of a segment, the bound of what it writes, and the
  segments on which it does not return.
\<close>

section \<open>Copies\<close>

lemma memcpy_loop_apart:
  "n < 2 ^ 64 \<Longrightarrow> apart d n s n \<Longrightarrow>
   memcpy_loop m d s n a = (if unat (a - d) < n then m (s + (a - d)) else m a)"
proof (induction n arbitrary: m d s)
  case (Suc n)
  have ap: "apart (d + 1) n (s + 1) n"
    unfolding apart_def
  proof (intro allI impI)
    fix i j assume "i < n" "j < n"
    then have "d + of_nat (Suc i) \<noteq> s + of_nat (Suc j)" using Suc.prems(2) by (auto simp: apart_def simp del: of_nat_Suc)
    then show "d + 1 + of_nat i \<noteq> s + 1 + of_nat j" by (simp add: algebra_simps)
  qed
  let ?m = "m(d := m s)"
  have IH: "memcpy_loop ?m (d + 1) (s + 1) n a =
      (if unat (a - (d + 1)) < n then ?m (s + 1 + (a - (d + 1))) else ?m a)"
    using Suc.IH [OF _ ap] Suc.prems(1) by simp
  show ?case
  proof (cases "a = d")
    case True
    then have "a - (d + 1) = - 1" by simp
    then have "unat (a - (d + 1)) = 2 ^ 64 - 1"
      by (simp only: unsigned_minus_1_eq_mask mask_eq_exp_minus_1) simp
    then show ?thesis using IH True Suc.prems(1) by simp
  next
    case False
    then have nz: "a - d \<noteq> 0" by simp
    have e: "a - (d + 1) = a - d - 1" by (simp add: algebra_simps)
    have u: "unat (a - (d + 1)) = unat (a - d) - 1" "0 < unat (a - d)"
      unfolding e using nz by (simp_all add: unat_minus_one unat_gt_0)
    have "s + (a - d) \<noteq> d" if "unat (a - d) < Suc n"
      using Suc.prems(2) [unfolded apart_def, rule_format, of 0 "unat (a - d)"] that by auto
    moreover have "s + 1 + (a - (d + 1)) = s + (a - d)" by simp
    ultimately show ?thesis using IH u False by auto
  qed
qed simp

lemma memcpy_apart:
  "apart d (unat n) s (unat n) \<Longrightarrow>
   memcpy m d s n a = (if unat (a - d) < unat n then m (s + (a - d)) else m a)"
  using memcpy_loop_apart [of "unat n" d s m a] unsigned_less [of n, where 'a = nat] by (simp add: memcpy_def)

section \<open>The image of a segment\<close>

text \<open>
  Where the task's page tables put a program address: the pages of the pool, from the page of the
  segment's start upwards.
\<close>

definition program_byte :: "elf_loaded_page \<Rightarrow> mem \<Rightarrow> u64 \<Rightarrow> u8" where
  "program_byte g m v = m (located_at g + (v - (loaded_at g AND NOT 0xfff)))"

lemma page_offset: "(v :: u64) - (v AND NOT 0xfff) = v AND 0xfff"
proof -
  have "v = (v AND NOT 0xfff) + (v AND 0xfff)"
    by (subst disjunctive_add) (auto simp: bit_simps intro!: bit_word_eqI)
  then show ?thesis by (metis add_diff_cancel_left')
qed

lemma unat_page_offset: "unat ((v :: u64) AND 0xfff) = unat v mod 4096"
proof -
  have "(0xfff :: u64) = mask 12" by (simp add: mask_eq_exp_minus_1)
  then have "unat (v AND 0xfff) = unat (take_bit 12 v)" by (simp add: take_bit_eq_mask)
  also have "\<dots> = unat v mod 4096" by (simp add: take_bit_eq_mod unat_mod)
  finally show ?thesis .
qed

lemma pages_cover:
  fixes k :: nat
  assumes "off < 4096"
  shows "off + k \<le> 4096 * (k div 4096 + (if k mod 4096 = 0 then 0 else 1) + (if off \<noteq> 0 then 1 else 0))"
proof -
  have "k = 4096 * (k div 4096) + k mod 4096" "k mod 4096 < 4096" by simp_all
  then show ?thesis using assms by (auto simp: algebra_simps)
qed

lemma unat_required_pages:
  "unat (elf_required_pages h) = unat (ph_memsz h) div 4096 + (if unat (ph_memsz h) mod 4096 = 0 then 0 else 1) +
     (if unat (ph_vaddr h) mod 4096 \<noteq> 0 then 1 else 0)"
  "unat (elf_required_pages h) \<le> unat (ph_memsz h) div 4096 + 2"
proof -
  let ?k = "ph_memsz h" and ?v = "ph_vaddr h"
  have d: "unat (?k div 0x1000) = unat ?k div 4096" by (simp add: unat_div)
  have lt: "unat ?k < 2 ^ LENGTH(64)" by (rule unsigned_less)
  have "unat (x mod 0x1000) = unat x mod 4096" for x :: u64 by (simp add: unat_mod)
  then have z: "x mod 0x1000 = 0 \<longleftrightarrow> unat x mod 4096 = 0" for x :: u64 by (metis unat_eq_zero)
  have one: "unat (?k div 0x1000 + 1) = unat ?k div 4096 + 1"
    using lt d by (subst unat_plus_nowrap) simp_all
  have two: "unat (?k div 0x1000 + 1 + 1) = unat ?k div 4096 + 2"
    using lt d one by (subst unat_plus_nowrap) simp_all
  show e: "unat (elf_required_pages h) = unat ?k div 4096 + (if unat ?k mod 4096 = 0 then 0 else 1) +
     (if unat ?v mod 4096 \<noteq> 0 then 1 else 0)"
    using d one two by (auto simp: elf_required_pages_def Let_def z)
  show "unat (elf_required_pages h) \<le> unat ?k div 4096 + 2" unfolding e by simp
qed

lemma required_pages_cover:
  assumes "unat (ph_memsz h) + 8192 < 2 ^ 64"
  shows "unat (ph_vaddr h AND 0xfff) + unat (ph_memsz h) \<le> unat (elf_required_pages h * PAGING_PAGE_SIZE)"
proof -
  have "unat (elf_required_pages h) * 4096 \<le> (unat (ph_memsz h) div 4096 + 2) * 4096"
    using unat_required_pages(2) by (intro mult_right_mono) simp_all
  also have "\<dots> \<le> unat (ph_memsz h) + 8192" by (simp add: algebra_simps)
  finally have "unat (elf_required_pages h * PAGING_PAGE_SIZE) = unat (elf_required_pages h) * 4096"
    using assms by (subst unat_times_nowrap) simp_all
  then show ?thesis
    using pages_cover [of "unat (ph_vaddr h) mod 4096" "unat (ph_memsz h)"]
    by (simp add: unat_required_pages(1) unat_page_offset mult.commute)
qed

text \<open>The entry that the segment gets in the table.\<close>

definition loaded_segment :: "elf_program_header \<Rightarrow> u64 \<Rightarrow> elf_loaded_page" where
  "loaded_segment h loc = \<lparr>loaded_at = ph_vaddr h, located_at = loc,
     seg_bytes = elf_required_pages h * PAGING_PAGE_SIZE\<rparr>"

lemma elf_load_segment_run:
  assumes "\<not> elf_is_page_mapped (segments info) (ph_vaddr h)" "ph_memsz h \<noteq> 0"
    and "pmm_alloc_pool (elf_required_pages h) s = Some (loc, t)"
  shows "elf_load_segment file h info s = (if seg_table info = 0 \<or> loc = 0 then None else Some (True,
      info\<lparr>segments := segments info @ [loaded_segment h loc]\<rparr>,
      t\<lparr>heap_bytes := memcpy (memset (heap_bytes t) (loc + (ph_vaddr h AND 0xfff)) 0 (ph_memsz h))
        (loc + (ph_vaddr h AND 0xfff)) (file + ph_offset h) (ph_filesz h)\<rparr>))"
  using assms by (simp add: elf_load_segment_def elf_copy_mapped.simps Let_def loaded_segment_def)

text \<open>C10:
  A segment whose first page holds no earlier segment is loaded into a pool of pages of its own that is large
  enough: every byte of the program's image is the byte of the file, or zero where the file has no more data,
  at the place where the task's page tables map it; no byte outside that part of the pool changes. When no pool
  is free, or there is no page for the table of segments, the loader does not report it: it writes through NULL.
\<close>

theorem elf_segment_image:
  assumes fresh: "\<not> elf_is_page_mapped (segments info) (ph_vaddr h)" "ph_memsz h \<noteq> 0"
    and pool: "pmm_alloc_pool (elf_required_pages h) s = Some (loc, t)"
    and sizes: "ph_filesz h \<le> ph_memsz h" "unat (ph_memsz h) + 8192 < 2 ^ 64"
    and ap: "apart (loc + (ph_vaddr h AND 0xfff)) (unat (ph_memsz h)) (file + ph_offset h) (unat (ph_filesz h))"
  shows "if seg_table info = 0 \<or> loc = 0 then elf_load_segment file h info s = None
    else \<exists>u. elf_load_segment file h info s = Some (True, info\<lparr>segments := segments info @ [loaded_segment h loc]\<rparr>, u) \<and>
    (\<forall>k < unat (ph_memsz h). program_byte (loaded_segment h loc) (heap_bytes u) (ph_vaddr h + of_nat k) =
       (if k < unat (ph_filesz h) then heap_bytes t (file + ph_offset h + of_nat k) else 0)) \<and>
    (\<forall>a. unat (ph_memsz h) \<le> unat (a - (loc + (ph_vaddr h AND 0xfff))) \<longrightarrow> heap_bytes u a = heap_bytes t a) \<and>
    unat (ph_vaddr h AND 0xfff) + unat (ph_memsz h) \<le> unat (seg_bytes (loaded_segment h loc))"
proof -
  let ?d = "loc + (ph_vaddr h AND 0xfff)" and ?src = "file + ph_offset h"
  let ?m = "memset (heap_bytes t) ?d 0 (ph_memsz h)"
  let ?u = "memcpy ?m ?d ?src (ph_filesz h)"
  have le: "unat (ph_filesz h) \<le> unat (ph_memsz h)" using sizes(1) by (simp add: word_le_nat_alt)
  have "apart ?d (unat (ph_filesz h)) ?src (unat (ph_filesz h))" using ap le by (auto simp: apart_def)
  note copy = memcpy_apart [OF this, of ?m]
  have lt: "unat (ph_memsz h) < 2 ^ 64" using sizes(2) by simp
  have src: "?m (?src + of_nat k) = heap_bytes t (?src + of_nat k)" if k: "k < unat (ph_filesz h)" for k
  proof -
    have "\<not> unat (?src + of_nat k - ?d) < unat (ph_memsz h)"
    proof
      assume i: "unat (?src + of_nat k - ?d) < unat (ph_memsz h)"
      have "?d + of_nat (unat (?src + of_nat k - ?d)) = ?src + of_nat k" by simp
      then show False using ap i k unfolding apart_def by metis
    qed
    then show ?thesis by (rule memset_out)
  qed
  have image: "?u (?d + of_nat k) = (if k < unat (ph_filesz h) then heap_bytes t (?src + of_nat k) else 0)"
    if "k < unat (ph_memsz h)" for k
  proof -
    have u: "unat (?d + of_nat k - ?d) = k" using that lt by (simp add: unat_of_nat_nowrap)
    then show ?thesis using that src [of k] by (simp add: copy memset_in)
  qed
  have at: "loc + (ph_vaddr h + of_nat k - (ph_vaddr h AND NOT 0xfff)) = ?d + of_nat k" for k
    using page_offset [of "ph_vaddr h"] by (simp add: algebra_simps)
  have out: "?u a = heap_bytes t a" if "unat (ph_memsz h) \<le> unat (a - ?d)" for a
    using that le by (simp add: copy memset_out)
  have byte: "program_byte (loaded_segment h loc) ?u (ph_vaddr h + of_nat k) = ?u (?d + of_nat k)" for k
    unfolding program_byte_def loaded_segment_def by (simp only: elf_loaded_page.simps at)
  have hb: "heap_bytes (t\<lparr>heap_bytes := x\<rparr>) = x" for x by simp
  show ?thesis
  proof (cases "seg_table info = 0 \<or> loc = 0", goal_cases)
    case 1
    then show ?case using elf_load_segment_run [OF fresh pool] by simp
  next
    case ne: 2
    show ?case
    unfolding if_not_P [OF ne]
  proof (intro exI conjI allI impI)
    show "elf_load_segment file h info s = Some (True,
        info\<lparr>segments := segments info @ [loaded_segment h loc]\<rparr>, t\<lparr>heap_bytes := ?u\<rparr>)"
      using elf_load_segment_run [OF fresh pool] ne by simp
    show "unat (ph_vaddr h AND 0xfff) + unat (ph_memsz h) \<le> unat (seg_bytes (loaded_segment h loc))"
      unfolding loaded_segment_def elf_loaded_page.simps by (rule required_pages_cover [OF sizes(2)])
  next
    fix k assume "k < unat (ph_memsz h)"
    from image [OF this] show "program_byte (loaded_segment h loc) (heap_bytes (t\<lparr>heap_bytes := ?u\<rparr>)) (ph_vaddr h + of_nat k) =
        (if k < unat (ph_filesz h) then heap_bytes t (?src + of_nat k) else 0)"
      unfolding hb byte .
  next
    fix a assume "unat (ph_memsz h) \<le> unat (a - ?d)"
    from out [OF this] show "heap_bytes (t\<lparr>heap_bytes := ?u\<rparr>) a = heap_bytes t a" unfolding hb .
  qed
  qed
qed

section \<open>Segments that hang the loader\<close>

lemma page_rest: "0 < (0x1000 :: u64) - v mod 0x1000"
proof -
  have "v mod 0x1000 < 0x1000" by (simp add: word_less_nat_alt unat_mod)
  then show ?thesis by (auto simp: word_gt_0)
qed

lemma elf_copy_mapped_stays:
  assumes ret: "elf_copy_mapped segs file h m = Some r"
  shows "\<not> (elf_is_page_mapped segs (ph_vaddr h) \<and> ph_filesz h = 0 \<and> ph_memsz h \<noteq> 0)"
proof (rule elf_copy_mapped.raw_induct [where P = "\<lambda>segs file h m r. \<not> (elf_is_page_mapped segs (ph_vaddr h) \<and>
    ph_filesz h = 0 \<and> ph_memsz h \<noteq> 0)", OF _ ret], goal_cases)
  case (1 copy segs f h m r)
  show ?case
  proof
    assume a: "elf_is_page_mapped segs (ph_vaddr h) \<and> ph_filesz h = 0 \<and> ph_memsz h \<noteq> 0"
    obtain m' where "copy segs f (h\<lparr>ph_vaddr := ph_vaddr h + 0, ph_offset := ph_offset h + 0,
        ph_filesz := ph_filesz h - 0, ph_memsz := ph_memsz h - 0\<rparr>) m' = Some r"
      using 1(2) a page_rest [of "ph_vaddr h"] by (auto simp: Let_def)
    from 1(1) [OF this] a show False by simp
  qed
qed

text \<open>C25:
  The loader does not return from a segment that starts in a page of an earlier segment, has all its file
  data there, and has zero-initialised data behind it that starts in such a page too.
\<close>

theorem elf_shared_bss_hangs:
  assumes "elf_is_page_mapped (segments info) (ph_vaddr h)"
    and "elf_is_page_mapped (segments info) (ph_vaddr h + ph_filesz h)"
    and "unat (ph_vaddr h) mod 4096 + unat (ph_filesz h) \<le> 4096" "ph_filesz h < ph_memsz h"
  shows "elf_load_segment file h info s = None"
proof -
  have off: "unat (ph_vaddr h mod 0x1000) = unat (ph_vaddr h) mod 4096" by (simp add: unat_mod)
  have rest: "unat (0x1000 - ph_vaddr h mod 0x1000) = 4096 - unat (ph_vaddr h) mod 4096"
    using off by (subst unat_minus_nowrap) simp_all
  have n: "(if 0x1000 - ph_vaddr h mod 0x1000 > ph_filesz h then ph_filesz h
      else 0x1000 - ph_vaddr h mod 0x1000) = ph_filesz h"
    using assms(3) rest by (auto simp: word_less_nat_alt word_unat_eq_iff)
  have ne: "ph_memsz h \<noteq> 0" "ph_memsz h - ph_filesz h \<noteq> 0" using assms(4) by auto
  let ?h = "h\<lparr>ph_vaddr := ph_vaddr h + ph_filesz h, ph_offset := ph_offset h + ph_filesz h,
      ph_filesz := 0, ph_memsz := ph_memsz h - ph_filesz h\<rparr>"
  have "elf_copy_mapped (segments info) file ?h m = None" for m
    using elf_copy_mapped_stays [of "segments info" "file" ?h m] assms(2) ne
    by (cases "elf_copy_mapped (segments info) file ?h m") auto
  then have "elf_copy_mapped (segments info) file h m = None" for m
    using assms(1) ne by (subst elf_copy_mapped.simps) (simp add: Let_def n)
  then show ?thesis using ne by (simp add: elf_load_segment_def)
qed

section \<open>A sample segment\<close>

definition small_segment :: elf_program_header where
  "small_segment = \<lparr>ph_type = ELF_SEGMENT_LOAD, ph_offset = 0x40, ph_vaddr = 0x400010, ph_filesz = 2, ph_memsz = 3\<rparr>"

lemma elf_segment_image_witness:
  "\<exists>u. elf_load_segment 0x200000 small_segment \<lparr>elf_entry = 0, segments = [], seg_table = 0x300000\<rparr> small_pool =
     Some (True, \<lparr>elf_entry = 0, segments = [\<lparr>loaded_at = 0x400010, located_at = 0x100000, seg_bytes = 0x2000\<rparr>],
       seg_table = 0x300000\<rparr>, u) \<and>
   heap_bytes u 0x100012 = 0"
proof -
  obtain t where t: "pmm_alloc_pool (elf_required_pages small_segment) small_pool = Some (0x100000, t)"
    using small_pool_alloc by (auto simp: elf_required_pages_def small_segment_def Let_def)
  let ?info = "\<lparr>elf_entry = 0, segments = [], seg_table = 0x300000\<rparr>"
  have "apart (0x100000 + (ph_vaddr small_segment AND 0xfff)) (unat (ph_memsz small_segment))
      (0x200000 + ph_offset small_segment) (unat (ph_filesz small_segment))"
    by (auto simp: small_segment_def apart_def word_unat_eq_iff unat_word_ariths unat_of_nat)
  from elf_segment_image [of ?info small_segment, OF _ _ t _ _ this]
  obtain u where u: "elf_load_segment 0x200000 small_segment ?info small_pool =
      Some (True, ?info\<lparr>segments := [loaded_segment small_segment 0x100000]\<rparr>, u)"
    and img: "\<forall>k < 3. program_byte (loaded_segment small_segment 0x100000) (heap_bytes u) (0x400010 + of_nat k) =
       (if k < 2 then heap_bytes t (0x200040 + of_nat k) else 0)"
    by (auto simp: small_segment_def elf_is_page_mapped_def)
  have "heap_bytes u 0x100012 = 0"
    using img [rule_format, of 2] by (simp add: program_byte_def loaded_segment_def small_segment_def)
  with u show ?thesis
    by (simp add: loaded_segment_def small_segment_def elf_required_pages_def)
qed

text \<open>
  A file whose data segment starts in the last page of its code segment: the zero-initialised data
  begins in that page too.
\<close>

lemma elf_shared_bss_hangs_witness:
  "elf_load_segment 0x200000
     \<lparr>ph_type = ELF_SEGMENT_LOAD, ph_offset = 0x40, ph_vaddr = 0x400010, ph_filesz = 8, ph_memsz = 16\<rparr>
     \<lparr>elf_entry = 0x400000, segments = [\<lparr>loaded_at = 0x400000, located_at = 0x100000, seg_bytes = 0x1000\<rparr>],
       seg_table = 0x300000\<rparr>
     small_pool = None"
  by (rule elf_shared_bss_hangs) (simp_all add: elf_is_page_mapped_def)

end
