(* ===== verification/Paging_Tree.thy ===== *)
theory Paging_Tree
  imports Paging_Props Pmm_Alloc
begin

text \<open>
  Page tables as a tree, and mapping a page when tables have to be created. The abstract view of the
  tables is the function \<open>\<lambda>v. paging_walk_page v s\<close> from addresses to frames.
\<close>

section \<open>Paths\<close>

fun ix :: "u64 \<Rightarrow> nat \<Rightarrow> u16" where
  "ix v 0 = ix_pml4 (paging_indexer_assign v)"
| "ix v (Suc 0) = ix_pml3 (paging_indexer_assign v)"
| "ix v (Suc (Suc 0)) = ix_pml2 (paging_indexer_assign v)"
| "ix v _ = ix_pml1 (paging_indexer_assign v)"

text \<open>The table that the walk for \<open>v\<close> reaches after \<open>j\<close> steps.\<close>

fun table_at :: "u64 \<Rightarrow> (u64 \<Rightarrow> paging_desc) \<Rightarrow> u64 \<Rightarrow> nat \<Rightarrow> u64 option" where
  "table_at root m v 0 = Some root"
| "table_at root m v (Suc j) = (case table_at root m v j of None \<Rightarrow> None
     | Some t \<Rightarrow> let d = m (entry_at t (ix v j)) in
         if paging_desc_get_flag PAGING_FLAG_PRESENT d then Some (paging_desc_get_address d) else None)"

lemma table_at_3:
  "table_at root m v (Suc (Suc (Suc 0))) = (if tables_present root m v
     then Some (paging_desc_get_address (m (walk_entries root m v ! 2))) else None)"
  by (simp add: tables_present_def walk_entries_def Let_def)

lemma table_at_3': "table_at root m v 3 = (if tables_present root m v
     then Some (paging_desc_get_address (m (walk_entries root m v ! 2))) else None)"
  using table_at_3 by (simp add: numeral_3_eq_3)

lemma leaf_entry_at: "table_at root m v 3 = Some t \<Longrightarrow> leaf_entry root m v = entry_at t (ix v 3)"
  unfolding table_at_3' by (auto simp: leaf_entry_def walk_entries_def Let_def numeral_3_eq_3 split: if_splits)

lemma walk_page_at:
  "paging_walk_page v s = (case table_at (pml4 s) (table_mem s) v 3 of None \<Rightarrow> 0
     | Some t \<Rightarrow> paging_desc_get_address (table_mem s (entry_at t (ix v 3))))"
proof (cases "table_at (pml4 s) (table_mem s) v 3")
  case None
  then show ?thesis by (simp add: paging_walk_page_leaf table_at_3' split: if_splits)
next
  case (Some t)
  then show ?thesis using leaf_entry_at [OF Some] by (simp add: paging_walk_page_leaf table_at_3' split: if_splits)
qed

definition frame_addr_ok :: "u64 \<Rightarrow> bool" where
  "frame_addr_ok a \<longleftrightarrow> paging_desc_get_address a = a"

lemma get_address_idem [simp]: "paging_desc_get_address (paging_desc_get_address a) = paging_desc_get_address a"
  by (simp add: paging_desc_get_address_def and.assoc)

lemma ix_bound: "unat (ix v j) < 512"
proof -
  have m9: "(0x1ff :: u64) = mask 9" by (simp add: mask_eq_exp_minus_1)
  have "ucast (x AND 0x1ff :: u64) = (ucast x AND mask 9 :: u16)" for x
    unfolding m9 by (rule bit_word_eqI) (auto simp: bit_simps)
  then have b: "unat (ucast (x AND 0x1ff :: u64) :: u16) < 512" for x
    using and_mask_less' [of 9 "ucast x :: u16"] by (simp add: word_less_nat_alt)
  show ?thesis
    by (cases "(v, j)" rule: ix.cases) (simp_all add: paging_indexer_assign_def Let_def b)
qed

lemma frame_dvd:
  assumes "frame_addr_ok t" shows "4096 dvd unat t"
proof -
  have "take_bit 12 t = take_bit 12 (t AND push_bit 12 (mask 40))"
    using assms by (simp add: frame_addr_ok_def paging_desc_get_address_def address_mask)
  also have "\<dots> = 0" by (rule bit_word_eqI) (auto simp: bit_simps)
  finally have "unat t mod 4096 = 0" by (simp add: take_bit_eq_mod unat_mod flip: unat_eq_zero)
  then show ?thesis by (simp add: mod_eq_0_iff_dvd)
qed

lemma entry_nat:
  assumes "4096 dvd unat t" "unat i < 512"
  shows "unat (entry_at t i) = unat t + 8 * unat i"
proof -
  have "unat (ucast i :: u64) = unat i"
    using assms(2) by (simp add: unsigned_ucast_eq take_bit_nat_eq_self)
  then have c: "unat (8 * ucast i :: u64) = 8 * unat i"
    using assms(2) by (subst unat_times_nowrap) simp_all
  have "unat t < 2 ^ LENGTH(64)" by (rule unsigned_less)
  then have "unat t + 4096 \<le> 2 ^ 64" using assms(1) by (auto elim!: dvdE)
  then show ?thesis using assms(2) c unfolding entry_at_def by (subst unat_plus_nowrap) simp_all
qed

lemma entry_at_inj:
  assumes "frame_addr_ok t" "frame_addr_ok t'" "unat i < 512" "unat i' < 512" "entry_at t i = entry_at t' i'"
  shows "t = t' \<and> i = i'"
proof -
  have e: "unat t + 8 * unat i = unat t' + 8 * unat i'"
    using assms entry_nat [OF frame_dvd] by metis
  have "(unat t + 8 * unat i) div 4096 = unat t div 4096" "(unat t' + 8 * unat i') div 4096 = unat t' div 4096"
    using assms(3,4) frame_dvd [OF assms(1)] frame_dvd [OF assms(2)] by (auto elim!: dvdE)
  then have "unat t div 4096 = unat t' div 4096" using e by simp
  then have "unat t = unat t'"
    using frame_dvd [OF assms(1)] frame_dvd [OF assms(2)] by (metis dvd_div_mult_self)
  then show ?thesis using e by (simp add: unsigned_word_eqI)
qed

lemma entry_of_other:
  assumes "frame_addr_ok t" "frame_addr_ok n" "unat i < 512" "unat (entry_at t i - n) < 4096"
  shows "t = n"
proof -
  have e: "unat (entry_at t i) = unat t + 8 * unat i" by (rule entry_nat [OF frame_dvd [OF assms(1)] assms(3)])
  have "unat n < 2 ^ LENGTH(64)" by (rule unsigned_less)
  then have "unat n + 4096 \<le> 2 ^ 64" using frame_dvd [OF assms(2)] by (auto elim!: dvdE)
  then have "unat (n + (entry_at t i - n)) = unat n + unat (entry_at t i - n)"
    using assms(4) by (intro unat_plus_nowrap) simp
  then have u: "unat t + 8 * unat i = unat n + unat (entry_at t i - n)" unfolding e [symmetric] by simp
  have "(unat t + 8 * unat i) div 4096 = unat t div 4096"
    "(unat n + unat (entry_at t i - n)) div 4096 = unat n div 4096"
    using assms(3,4) frame_dvd [OF assms(1)] frame_dvd [OF assms(2)] by (auto elim!: dvdE)
  then have "unat t div 4096 = unat n div 4096" using u by simp
  then have "unat t = unat n"
    using frame_dvd [OF assms(1)] frame_dvd [OF assms(2)] by (metis dvd_div_mult_self)
  then show ?thesis by (rule unsigned_word_eqI)
qed

section \<open>Trees of tables\<close>

text \<open>
  \<open>lv\<close> gives each table its depth, the root 0 and the lowest tables 3. An upper entry points to a table
  of the next depth or is empty, and no two upper entries point to the same table.
\<close>

abbreviation present :: "paging_desc \<Rightarrow> bool" where
  "present d \<equiv> paging_desc_get_flag PAGING_FLAG_PRESENT d"

definition upper :: "(u64 \<Rightarrow> nat option) \<Rightarrow> u64 \<Rightarrow> u16 \<Rightarrow> bool" where
  "upper lv t i \<longleftrightarrow> (\<exists>j < 3. lv t = Some j) \<and> unat i < 512"

definition tables_tree :: "(u64 \<Rightarrow> nat option) \<Rightarrow> u64 \<Rightarrow> (u64 \<Rightarrow> paging_desc) \<Rightarrow> bool" where
  "tables_tree lv root m \<longleftrightarrow> lv root = Some 0 \<and> (\<forall>t j. lv t = Some j \<longrightarrow> frame_addr_ok t \<and> j \<le> 3) \<and>
     (\<forall>t i. upper lv t i \<longrightarrow>
        (if present (m (entry_at t i)) then lv (paging_desc_get_address (m (entry_at t i))) = Some (Suc (the (lv t)))
         else paging_desc_get_address (m (entry_at t i)) = 0)) \<and>
     (\<forall>t i t' i'. upper lv t i \<and> upper lv t' i' \<and> present (m (entry_at t i)) \<and> present (m (entry_at t' i')) \<and>
        paging_desc_get_address (m (entry_at t i)) = paging_desc_get_address (m (entry_at t' i')) \<longrightarrow>
        t = t' \<and> i = i')"

lemma tree_root: "tables_tree lv root m \<Longrightarrow> lv root = Some 0"
  unfolding tables_tree_def by blast

lemma tree_frame: "tables_tree lv root m \<Longrightarrow> lv t = Some j \<Longrightarrow> frame_addr_ok t" "tables_tree lv root m \<Longrightarrow> lv t = Some j \<Longrightarrow> j \<le> 3"
  unfolding tables_tree_def by blast+

lemma tree_child:
  "tables_tree lv root m \<Longrightarrow> upper lv t i \<Longrightarrow> present (m (entry_at t i)) \<Longrightarrow>
   lv (paging_desc_get_address (m (entry_at t i))) = Some (Suc (the (lv t)))"
  unfolding tables_tree_def by metis

lemma tree_empty:
  "tables_tree lv root m \<Longrightarrow> upper lv t i \<Longrightarrow> \<not> present (m (entry_at t i)) \<Longrightarrow>
   paging_desc_get_address (m (entry_at t i)) = 0"
  unfolding tables_tree_def by metis

lemma tree_inj:
  "tables_tree lv root m \<Longrightarrow> upper lv t i \<Longrightarrow> upper lv t' i' \<Longrightarrow> present (m (entry_at t i)) \<Longrightarrow>
   present (m (entry_at t' i')) \<Longrightarrow>
   paging_desc_get_address (m (entry_at t i)) = paging_desc_get_address (m (entry_at t' i')) \<Longrightarrow> t = t' \<and> i = i'"
  unfolding tables_tree_def by blast

definition view :: "u64 \<Rightarrow> (u64 \<Rightarrow> paging_desc) \<Rightarrow> u64 \<Rightarrow> u64" where
  "view root m v = (case table_at root m v 3 of None \<Rightarrow> 0
     | Some t \<Rightarrow> paging_desc_get_address (m (entry_at t (ix v 3))))"

lemma walk_page_view: "paging_walk_page v s = view (pml4 s) (table_mem s) v"
  by (simp add: walk_page_at view_def)

definition same_page :: "u64 \<Rightarrow> u64 \<Rightarrow> bool" where
  "same_page v w \<longleftrightarrow> (\<forall>j \<le> 3. ix v j = ix w j)"

lemma table_at_step:
  "table_at root m v (Suc j) = Some x \<longleftrightarrow> (\<exists>t. table_at root m v j = Some t \<and>
     present (m (entry_at t (ix v j))) \<and> x = paging_desc_get_address (m (entry_at t (ix v j))))"
  by (cases "table_at root m v j") (simp_all add: Let_def eq_commute [of x])

declare table_at.simps(2) [simp del]

lemma table_at_depth:
  "tables_tree lv root m \<Longrightarrow> table_at root m v j = Some t \<Longrightarrow> j \<le> 3 \<Longrightarrow> lv t = Some j"
proof (induction j arbitrary: t)
  case 0
  then show ?case using tree_root by simp
next
  case (Suc j)
  then obtain u where u: "table_at root m v j = Some u" "present (m (entry_at u (ix v j)))"
      "t = paging_desc_get_address (m (entry_at u (ix v j)))" by (auto simp: table_at_step)
  have l: "lv u = Some j" using Suc u(1) by simp
  then have "upper lv u (ix v j)" using Suc.prems(3) ix_bound by (auto simp: upper_def)
  then have "lv t = Some (Suc (the (lv u)))" using tree_child [OF Suc.prems(1)] u(2,3) by simp
  then show ?case using l by simp
qed

lemma table_at_upper:
  "tables_tree lv root m \<Longrightarrow> table_at root m v j = Some t \<Longrightarrow> j < 3 \<Longrightarrow> upper lv t (ix v j)"
  using table_at_depth [of lv root m v j t] ix_bound by (auto simp: upper_def)

lemma same_path:
  "tables_tree lv root m \<Longrightarrow> table_at root m v j = Some t \<Longrightarrow> table_at root m w j = Some t \<Longrightarrow> j \<le> 3 \<Longrightarrow>
   i < j \<Longrightarrow> ix v i = ix w i"
proof (induction j arbitrary: t)
  case (Suc j)
  then obtain x y where x: "table_at root m v j = Some x" "present (m (entry_at x (ix v j)))"
      "t = paging_desc_get_address (m (entry_at x (ix v j)))"
    and y: "table_at root m w j = Some y" "present (m (entry_at y (ix w j)))"
      "t = paging_desc_get_address (m (entry_at y (ix w j)))" by (auto simp: table_at_step)
  have "upper lv x (ix v j)" "upper lv y (ix w j)"
    using table_at_upper [OF Suc.prems(1)] x(1) y(1) Suc.prems(4) by auto
  then have "x = y \<and> ix v j = ix w j"
    using tree_inj [OF Suc.prems(1)] x y by metis
  then show ?case using Suc.IH [of x] Suc.prems x(1) y(1) by (cases "i = j") auto
qed simp

lemma same_page_table: "same_page v w \<Longrightarrow> j \<le> 3 \<Longrightarrow> table_at root m v j = table_at root m w j"
proof (induction j)
  case (Suc j)
  then have "table_at root m v j = table_at root m w j" "ix v j = ix w j" by (simp_all add: same_page_def)
  then show ?case by (simp only: table_at.simps(2))
qed simp

lemma same_page_view: "same_page v w \<Longrightarrow> view root m v = view root m w"
  using same_page_table [of v w 3 root m] by (auto simp: view_def same_page_def split: option.splits)

lemma table_entry_distinct:
  assumes "tables_tree lv root m" "lv t = Some j" "lv t' = Some j'" "unat i < 512" "unat i' < 512"
    and "entry_at t i = entry_at t' i'"
  shows "t = t' \<and> i = i'"
  using entry_at_inj [OF tree_frame(1) [OF assms(1,2)] tree_frame(1) [OF assms(1,3)] assms(4-6)] .

section \<open>Flags on the way\<close>

definition same_tables :: "(u64 \<Rightarrow> nat option) \<Rightarrow> (u64 \<Rightarrow> paging_desc) \<Rightarrow> (u64 \<Rightarrow> paging_desc) \<Rightarrow> bool" where
  "same_tables lv m m' \<longleftrightarrow> (\<forall>e. paging_desc_get_address (m' e) = paging_desc_get_address (m e)) \<and>
     (\<forall>t i. upper lv t i \<longrightarrow> present (m' (entry_at t i)) = present (m (entry_at t i)))"

lemma same_tables_agree: "\<forall>y. agree_but y m m' \<Longrightarrow> same_tables lv m m'"
proof -
  assume a: "\<forall>y. agree_but y m m'"
  have "e \<noteq> e + 1" for e :: u64 by simp
  then show ?thesis using a unfolding same_tables_def agree_but_def by blast
qed

lemma tables_treeI:
  assumes "lv root = Some 0" "\<And>t j. lv t = Some j \<Longrightarrow> frame_addr_ok t \<and> j \<le> 3"
    and "\<And>t i. upper lv t i \<Longrightarrow> present (m (entry_at t i)) \<Longrightarrow>
      lv (paging_desc_get_address (m (entry_at t i))) = Some (Suc (the (lv t)))"
    and "\<And>t i. upper lv t i \<Longrightarrow> \<not> present (m (entry_at t i)) \<Longrightarrow> paging_desc_get_address (m (entry_at t i)) = 0"
    and "\<And>t i t' i'. upper lv t i \<Longrightarrow> upper lv t' i' \<Longrightarrow> present (m (entry_at t i)) \<Longrightarrow> present (m (entry_at t' i')) \<Longrightarrow>
      paging_desc_get_address (m (entry_at t i)) = paging_desc_get_address (m (entry_at t' i')) \<Longrightarrow> t = t' \<and> i = i'"
  shows "tables_tree lv root m"
  unfolding tables_tree_def using assms by (auto split: if_splits)

lemma same_upper:
  assumes tree: "tables_tree lv root m"
    and same: "\<And>t i. upper lv t i \<Longrightarrow> paging_desc_get_address (m' (entry_at t i)) = paging_desc_get_address (m (entry_at t i)) \<and>
      present (m' (entry_at t i)) = present (m (entry_at t i))"
  shows "tables_tree lv root m'" "k \<le> 3 \<Longrightarrow> table_at root m' v k = table_at root m v k"
proof -
  show "tables_tree lv root m'"
  proof (rule tables_treeI)
    fix t i t' i'
    assume u: "upper lv t i" "upper lv t' i'" and "present (m' (entry_at t i))" "present (m' (entry_at t' i'))"
      "paging_desc_get_address (m' (entry_at t i)) = paging_desc_get_address (m' (entry_at t' i'))"
    then show "t = t' \<and> i = i'" using tree_inj [OF tree u] same [OF u(1)] same [OF u(2)] by simp
  qed (use tree_root [OF tree] tree_frame [OF tree] tree_child [OF tree] tree_empty [OF tree] same in auto)
  show "k \<le> 3 \<Longrightarrow> table_at root m' v k = table_at root m v k"
  proof (induction k)
    case (Suc k)
    show ?case
    proof (cases "table_at root m v k")
      case (Some t)
      then have "upper lv t (ix v k)" using table_at_upper [OF tree Some] Suc.prems by simp
      then show ?thesis using Suc Some same by (simp add: table_at.simps(2) Let_def)
    qed (use Suc in \<open>simp add: table_at.simps(2)\<close>)
  qed simp
qed

lemma same_tables_tree:
  assumes "tables_tree lv root m" "same_tables lv m m'"
  shows "tables_tree lv root m'" "k \<le> 3 \<Longrightarrow> table_at root m' v k = table_at root m v k" "view root m' v = view root m v"
proof -
  have same: "upper lv t i \<Longrightarrow> paging_desc_get_address (m' (entry_at t i)) = paging_desc_get_address (m (entry_at t i)) \<and>
      present (m' (entry_at t i)) = present (m (entry_at t i))" for t i
    using assms(2) by (auto simp: same_tables_def)
  note r = same_upper [OF assms(1) same]
  show "tables_tree lv root m'" by (rule r(1))
  show k: "k \<le> 3 \<Longrightarrow> table_at root m' v k = table_at root m v k" for k by (rule r(2))
  show "view root m' v = view root m v"
    using k [of 3] assms(2) by (auto simp: view_def same_tables_def split: option.splits)
qed

section \<open>Writing a lowest entry\<close>

lemma set_leaf:
  fixes d :: paging_desc
  assumes tree: "tables_tree lv root m" and t: "table_at root m v 3 = Some t"
  defines "m' \<equiv> m(entry_at t (ix v 3) := d)"
  shows "tables_tree lv root m'" "k \<le> 3 \<Longrightarrow> table_at root m' w k = table_at root m w k"
    "view root m' w = (if same_page v w then paging_desc_get_address d else view root m w)"
proof -
  have lt: "lv t = Some 3" using table_at_depth [OF tree t] by simp
  have keep: "m' (entry_at u i) = m (entry_at u i)" if up: "upper lv u i" for u i
  proof -
    obtain j where j: "lv u = Some j" "j < 3" "unat i < 512" using up by (auto simp: upper_def)
    have "entry_at u i \<noteq> entry_at t (ix v 3)"
      using table_entry_distinct [OF tree j(1) lt j(3) ix_bound] j lt by auto
    then show ?thesis by (simp add: m'_def)
  qed
  note r = same_upper [OF tree, of m']
  show "tables_tree lv root m'" using r(1) keep by simp
  show k: "k \<le> 3 \<Longrightarrow> table_at root m' w k = table_at root m w k" for k using r(2) keep by simp
  show "view root m' w = (if same_page v w then paging_desc_get_address d else view root m w)"
  proof (cases "table_at root m w 3")
    case None
    then have "\<not> same_page v w" using same_page_table [of v w 3 root m] t by auto
    then show ?thesis using None k [of 3] by (simp add: view_def)
  next
    case (Some u)
    have lu: "lv u = Some 3" using table_at_depth [OF tree Some] by simp
    have "entry_at u (ix w 3) = entry_at t (ix v 3) \<longleftrightarrow> same_page v w"
    proof
      assume e: "entry_at u (ix w 3) = entry_at t (ix v 3)"
      have "u = t \<and> ix w 3 = ix v 3" by (rule table_entry_distinct [OF tree lu lt ix_bound ix_bound e])
      then show "same_page v w"
        using same_path [OF tree t, of w] Some by (auto simp: same_page_def le_less)
    next
      assume p: "same_page v w"
      then have "u = t" using same_page_table [of v w 3 root m] t Some by simp
      then show "entry_at u (ix w 3) = entry_at t (ix v 3)" using p by (simp add: same_page_def)
    qed
    then show ?thesis using Some k [of 3] by (simp add: view_def m'_def)
  qed
qed

section \<open>Linking a new table\<close>

lemma link_table:
  assumes tree: "tables_tree lv root m" and t: "lv t = Some j" "j < 3" "unat i < 512"
    and empty: "\<not> present (m (entry_at t i))" and n: "lv n = None" "frame_addr_ok n"
    and d: "paging_desc_get_address d = n" "present d"
  defines "m' \<equiv> (\<lambda>a. if unat (a - n) < 4096 then 0 else m a)(entry_at t i := d)"
    and "lv' \<equiv> lv(n := Some (Suc j))"
  shows "tables_tree lv' root m'" "\<And>k x. k \<le> 3 \<Longrightarrow> table_at root m v k = Some x \<Longrightarrow> table_at root m' v k = Some x"
    "view root m' v = view root m v"
proof -
  have up: "upper lv t i" using t by (auto simp: upper_def)
  have apart: "m' (entry_at u i') = (if u = t \<and> i' = i then d else m (entry_at u i'))"
    if "lv u = Some k" "unat i' < 512" for u k i'
  proof -
    have "\<not> unat (entry_at u i' - n) < 4096"
      using entry_of_other [OF tree_frame(1) [OF tree that(1)] n(2) that(2)] that(1) n(1) by auto
    moreover have "entry_at u i' = entry_at t i \<longleftrightarrow> u = t \<and> i' = i"
      using table_entry_distinct [OF tree that(1) t(1) that(2) t(3)] by auto
    ultimately show ?thesis by (auto simp: m'_def)
  qed
  have tn: "t \<noteq> n" using t(1) n(1) by auto
  have new: "m' (entry_at n i') = 0" if "unat i' < 512" for i'
  proof -
    have "entry_at n i' \<noteq> entry_at t i"
      using entry_at_inj [OF n(2) tree_frame(1) [OF tree t(1)] that t(3)] tn by auto
    moreover have "unat (entry_at n i' - n) < 4096"
    proof -
      have "unat (ucast i' :: u64) = unat i'" using that by (simp add: unsigned_ucast_eq take_bit_nat_eq_self)
      then have "unat (8 * ucast i' :: u64) = 8 * unat i'" using that by (subst unat_times_nowrap) simp_all
      then show ?thesis using that by (simp add: entry_at_def)
    qed
    ultimately show ?thesis by (simp add: m'_def)
  qed
  have np: "\<not> present 0" "paging_desc_get_address 0 = 0" by (simp_all add: paging_desc_get_flag_def paging_desc_get_address_def)
  have cases': "upper lv' u i' \<longleftrightarrow> (if u = n then j < 2 \<and> unat i' < 512 else upper lv u i')" for u i'
    using n(1) by (auto simp: upper_def lv'_def)
  have below: "lv (paging_desc_get_address (m (entry_at u i'))) \<noteq> None" if "upper lv u i'" "present (m (entry_at u i'))" for u i'
    using tree_child [OF tree that] by simp
  have upl: "\<exists>k. lv u = Some k \<and> unat i' < 512" if "upper lv u i'" for u i' using that by (auto simp: upper_def)
  have val: "m' (entry_at u i') = (if u = n then 0 else if u = t \<and> i' = i then d else m (entry_at u i'))"
    if "upper lv' u i'" for u i'
    using that new apart upl unfolding cases' by (metis (full_types))
  show "tables_tree lv' root m'"
  proof (rule tables_treeI)
    show "lv' root = Some 0" using tree_root [OF tree] n(1) by (auto simp: lv'_def)
    show "frame_addr_ok u \<and> k \<le> 3" if "lv' u = Some k" for u k
      using that tree_frame [OF tree] n(2) t(2) by (auto simp: lv'_def split: if_splits)
    show "lv' (paging_desc_get_address (m' (entry_at u i'))) = Some (Suc (the (lv' u)))"
      if u: "upper lv' u i'" "present (m' (entry_at u i'))" for u i'
    proof -
      have un: "u \<noteq> n" using u val np by auto
      show ?thesis
      proof (cases "u = t \<and> i' = i")
        case True
        then show ?thesis using val [OF u(1)] un d(1) t(1) by (simp add: lv'_def)
      next
        case False
        have ul: "upper lv u i'" using u(1) un by (simp add: cases')
        have pm: "present (m (entry_at u i'))" using u(2) val [OF u(1)] un False by simp
        have "paging_desc_get_address (m (entry_at u i')) \<noteq> n" using below [OF ul pm] n(1) by auto
        then show ?thesis using val [OF u(1)] un False tree_child [OF tree ul pm] by (simp add: lv'_def)
      qed
    qed
    show "paging_desc_get_address (m' (entry_at u i')) = 0" if u: "upper lv' u i'" "\<not> present (m' (entry_at u i'))" for u i'
    proof (cases "u = n")
      case True
      then show ?thesis using val [OF u(1)] np by simp
    next
      case False
      have ul: "upper lv u i'" using u(1) False by (simp add: cases')
      have "\<not> (u = t \<and> i' = i)" using val [OF u(1)] u(2) d(2) False by auto
      then show ?thesis using val [OF u(1)] u(2) False tree_empty [OF tree ul] by auto
    qed
    show "u = w \<and> i' = k" if u: "upper lv' u i'" "upper lv' w k" "present (m' (entry_at u i'))" "present (m' (entry_at w k))"
      "paging_desc_get_address (m' (entry_at u i')) = paging_desc_get_address (m' (entry_at w k))" for u i' w k
    proof -
      have un: "u \<noteq> n" "w \<noteq> n" using u val np by auto
      have ul: "upper lv u i'" "upper lv w k" using u un by (simp_all add: cases')
      have other: "paging_desc_get_address (m (entry_at a b)) \<noteq> n" if "upper lv a b" "present (m (entry_at a b))" for a b
        using below [OF that] n(1) by auto
      have v: "m' (entry_at u i') = (if u = t \<and> i' = i then d else m (entry_at u i'))"
        "m' (entry_at w k) = (if w = t \<and> k = i then d else m (entry_at w k))"
        using val [OF u(1)] val [OF u(2)] un by simp_all
      show ?thesis
      proof (cases "u = t \<and> i' = i")
        case True
        then have "paging_desc_get_address (m' (entry_at w k)) = n" using u(5) v(1) d(1) by simp
        then have "w = t \<and> k = i" using v(2) u(4) other [OF ul(2)] by (auto split: if_splits)
        then show ?thesis using True by simp
      next
        case F: False
        have eu: "m' (entry_at u i') = m (entry_at u i')" using v(1) unfolding if_not_P [OF F] .
        have G: "\<not> (w = t \<and> k = i)" using u(3,5) v(2) d(1) eu other [OF ul(1)] by auto
        have ew: "m' (entry_at w k) = m (entry_at w k)" using v(2) unfolding if_not_P [OF G] .
        show ?thesis using tree_inj [OF tree ul] u(3,4,5) unfolding eu ew .
      qed
    qed
  qed
  show grow: "table_at root m' v k = Some x" if "k \<le> 3" "table_at root m v k = Some x" for k x
    using that
  proof (induction k arbitrary: x)
    case (Suc k)
    then obtain u where u: "table_at root m v k = Some u" "present (m (entry_at u (ix v k)))"
        "x = paging_desc_get_address (m (entry_at u (ix v k)))" by (auto simp: table_at_step)
    have "lv u = Some k" using table_at_depth [OF tree u(1)] Suc.prems(1) by simp
    from apart [OF this ix_bound] have "m' (entry_at u (ix v k)) = m (entry_at u (ix v k))"
      using u(2) empty by (auto split: if_splits)
    then show ?case using Suc.IH [of u] Suc.prems(1) u by (simp add: table_at_step)
  qed simp
  have only: "table_at root m v k = Some x \<or> x = n" if "k \<le> 3" "table_at root m' v k = Some x" for k x
    using that
  proof (induction k arbitrary: x)
    case (Suc k)
    then obtain u where u: "table_at root m' v k = Some u" "present (m' (entry_at u (ix v k)))"
        "x = paging_desc_get_address (m' (entry_at u (ix v k)))" by (auto simp: table_at_step)
    have "u \<noteq> n" using u(2) new [OF ix_bound] np by auto
    then have mu: "table_at root m v k = Some u" using Suc.IH [of u] Suc.prems(1) u(1) by simp
    then have "lv u = Some k" using table_at_depth [OF tree mu] Suc.prems(1) by simp
    from apart [OF this ix_bound] have "m' (entry_at u (ix v k)) = (if u = t \<and> ix v k = i then d else m (entry_at u (ix v k)))" .
    then show ?case using u mu d(1) by (auto simp: table_at_step split: if_splits)
  qed simp
  show "view root m' v = view root m v"
  proof (cases "table_at root m v 3")
    case (Some u)
    have lu: "lv u = Some 3" using table_at_depth [OF tree Some] by simp
    then have "u \<noteq> t" using t by auto
    then have "m' (entry_at u (ix v 3)) = m (entry_at u (ix v 3))" using apart [OF lu ix_bound] by auto
    then show ?thesis using Some grow [OF _ Some] by (simp add: view_def)
  next
    case None
    then show ?thesis
      using only [of 3] new [OF ix_bound] np by (auto simp: view_def split: option.splits)
  qed
qed

section \<open>Free frames\<close>

definition free_frames :: "nat list \<Rightarrow> 'z pmm_state_scheme \<Rightarrow> u64 set" where
  "free_frames is s = {a. 4096 dvd unat a \<and> page_state (secs (slots s) is) (unat a) = Some PMM_SECTION_FREE}"

lemma chain_dvd: "chain b xs \<Longrightarrow> 4096 dvd b \<Longrightarrow> x \<in> set xs \<Longrightarrow> 4096 dvd unat (sec_start x)"
  by (induction xs arbitrary: b) auto

lemma page_state_page:
  assumes "chain 0 xs"
  shows "page_state xs a = page_state xs (a - a mod 4096)"
proof -
  have "in_section x a \<longleftrightarrow> in_section x (a - a mod 4096)" if x: "x \<in> set xs" for x
  proof -
    obtain k where k: "unat (sec_start x) = 4096 * k" using chain_dvd [OF assms _ x] by (auto elim!: dvdE)
    have q: "a - a mod 4096 = 4096 * (a div 4096)" by (simp add: minus_mod_eq_mult_div)
    have "4096 * k \<le> a \<longleftrightarrow> 4096 * k \<le> a - a mod 4096"
      unfolding q by (simp add: less_eq_div_iff_mult_less_eq mult.commute)
    moreover have "a < 4096 * (k + p) \<longleftrightarrow> a - a mod 4096 < 4096 * (k + p)" for p
      unfolding q by (simp only: nat_mult_less_cancel_disj) (simp add: div_less_iff_less_mult mult.commute)
    from this [of "unat (sec_pages x)"] have "a < 4096 * k + 4096 * unat (sec_pages x) \<longleftrightarrow>
        a - a mod 4096 < 4096 * k + 4096 * unat (sec_pages x)" by (simp only: add_mult_distrib2)
    ultimately show ?thesis by (simp add: in_section_def k)
  qed
  then show ?thesis by (induction xs) auto
qed

text \<open>A page that is taken while there are free frames is one of them.\<close>

lemma alloc_free_frame:
  assumes wf: "pmm_wf is s" "pmm_wf is' s'"
    and took: "took_page base (page_state (secs (slots s) is)) (page_state (secs (slots s') is'))"
    and free: "free_frames is s \<noteq> {}"
  shows "base \<noteq> 0" "base \<in> free_frames is s" "free_frames is' s' = free_frames is s - {base}"
proof -
  let ?m = "page_state (secs (slots s) is)" and ?m' = "page_state (secs (slots s') is')"
  have c: "chain 0 (secs (slots s) is)" "chain 0 (secs (slots s') is')" using wf by (simp_all add: pmm_wf_def tiles_def)
  show b0: "base \<noteq> 0" using took free by (auto simp: took_page_def free_frames_def)
  have m: "?m' = page_set ?m (unat base) PMM_SECTION_USED"
    "unat base \<le> a \<and> a < unat base + 4096 \<longrightarrow> ?m a = Some PMM_SECTION_FREE" for a
    using took b0 by (simp_all add: took_page_def)
  let ?r = "unat base mod 4096"
  have "?r = 0"
  proof (rule ccontr)
    assume r: "?r \<noteq> 0"
    have "?m (unat base - ?r) = Some PMM_SECTION_FREE" using m(2) [of "unat base"] page_state_page [OF c(1), of "unat base"] by simp
    moreover have "unat base - ?r < unat base" using r by (metis bot_nat_0.not_eq_extremum diff_less mod_0)
    ultimately have "?m' (unat base - ?r) = Some PMM_SECTION_FREE" by (simp add: m(1) page_set_def)
    moreover have "?m' (unat base) = Some PMM_SECTION_USED" by (simp add: m(1) page_set_def)
    ultimately show False using page_state_page [OF c(2), of "unat base"] by simp
  qed
  then have al: "4096 dvd unat base" by (simp add: mod_eq_0_iff_dvd)
  then show "base \<in> free_frames is s" using m(2) [of "unat base"] by (simp add: free_frames_def)
  have "a = base" if "4096 dvd unat a" "unat base \<le> unat a" "unat a < unat base + 4096" for a
  proof -
    have "4096 dvd unat a - unat base" using that al by (simp add: dvd_diff_nat)
    then have "unat a - unat base = 0" using that by (auto dest: dvd_imp_le)
    then show ?thesis using that(2) by (simp add: unsigned_word_eqI)
  qed
  then show "free_frames is' s' = free_frames is s - {base}" by (auto simp: free_frames_def m(1) page_set_def)
qed

section \<open>The invariant\<close>

text \<open>
  The tables are a tree of used pages, and the frames that are free are mapped at their own addresses,
  as the kernel's reload of its map leaves them; the manager of the frames is well formed.
\<close>

definition tables_ok :: "(u64 \<Rightarrow> nat option) \<Rightarrow> nat list \<Rightarrow> 'z paging_state_scheme \<Rightarrow> bool" where
  "tables_ok lv is s \<longleftrightarrow> tables_tree lv (pml4 s) (table_mem s) \<and> pmm_wf is s \<and> pfa_allowing_allocations s \<and>
     (\<forall>a \<in> free_frames is s. lv a = None \<and> a \<noteq> 0 \<and> paging_walk_page a s = a)"

definition room_for :: "nat \<Rightarrow> nat list \<Rightarrow> 'z paging_state_scheme \<Rightarrow> bool" where
  "room_for r is s \<longleftrightarrow> pmm_room r s \<and> r \<le> card (free_frames is s)"

lemma table_mem_pmm [simp]:
  "pmm_wf is (s\<lparr>table_mem := m\<rparr>) = pmm_wf is s" "pmm_room r (s\<lparr>table_mem := m\<rparr>) = pmm_room r s"
  "free_frames is (s\<lparr>table_mem := m\<rparr>) = free_frames is s"
  by (simp_all add: pmm_wf_def pmm_links_def pmm_room_def free_frames_def)

lemma tables_ok_alloc:
  fixes s :: "'z paging_state_scheme"
  assumes ok: "tables_ok lv is s" and room: "room_for (Suc r) is s"
  shows "\<exists>n s' is'. pmm_alloc_page s = Some (n, s') \<and> tables_ok lv is' s' \<and> room_for r is' s' \<and> n \<noteq> 0 \<and>
    lv n = None \<and> frame_addr_ok n \<and> paging_walk_page n s = n \<and> n \<notin> free_frames is' s' \<and>
    pml4 s' = pml4 s \<and> table_mem s' = table_mem s \<and> free_frames is' s' \<subseteq> free_frames is s"
proof -
  have wf: "pmm_wf is s" and al: "pfa_allowing_allocations s" using ok by (simp_all add: tables_ok_def)
  have rm: "pmm_room (Suc r) s" "Suc r \<le> card (free_frames is s)" using room by (simp_all add: room_for_def)
  from pmm_alloc_page_run [OF wf rm(1) al] obtain n s' is' where
    run: "pmm_alloc_page s = Some (n, s')" "pmm_wf is' s'" "pmm_frame s s'" "pmm_room r s'"
      "took_page n (page_state (secs (slots s) is)) (page_state (secs (slots s') is'))" by blast
  have ne: "free_frames is s \<noteq> {}" using rm(2) by auto
  note f = alloc_free_frame [OF wf run(2,5) ne]
  have same: "pml4 s' = pml4 s" "table_mem s' = table_mem s"
    using pmm_frame_more [OF run(3)]
    by (cases s rule: paging_state.cases_scheme; cases s' rule: paging_state.cases_scheme; simp)+
  have n: "lv n = None" "paging_walk_page n s = n" using ok f(2) by (simp_all add: tables_ok_def)
  have "frame_addr_ok n"
    using n(2) by (simp add: walk_page_at frame_addr_ok_def paging_desc_get_address_def split: option.splits)
      (metis and.assoc and.idem)
  moreover have "tables_ok lv is' s'"
    using ok run(2,3) f(3) by (auto simp: tables_ok_def same walk_page_view pmm_frame_def)
  moreover have "room_for r is' s'" using run(4) rm(2) f by (simp add: room_for_def)
  ultimately show ?thesis using run(1) f n same by blast
qed

section \<open>Mapping\<close>

lemma leaf_desc:
  fixes f :: u16
  shows "paging_desc_get_address (paging_desc_set_flags (ucast (f AND 0x0fff))
      (paging_desc_set_flag PAGING_FLAG_PRESENT True (paging_desc_set_address p d))) =
    paging_desc_get_address d OR paging_desc_get_address p"
  using leaf_address [of f p d] by (simp add: paging_desc_get_address_def)

lemma link_desc:
  fixes f :: u16
  assumes "paging_desc_get_address d = 0" "frame_addr_ok n"
  shows "paging_desc_get_address (paging_desc_set_flag PAGING_FLAG_PRESENT True (paging_desc_set_address n d) OR
      ucast (f AND 0x0fff)) = n"
    "present (paging_desc_set_flag PAGING_FLAG_PRESENT True (paging_desc_set_address n d) OR ucast (f AND 0x0fff))"
proof -
  have z: "(d AND push_bit 12 (mask 40)) = 0" using assms(1) by (simp add: paging_desc_get_address_def address_mask)
  have n: "n AND push_bit 12 (mask 40) = n" using assms(2) by (simp add: frame_addr_ok_def paging_desc_get_address_def address_mask)
  have "paging_desc_get_address (paging_desc_set_flag PAGING_FLAG_PRESENT True (paging_desc_set_address n d) OR ucast (f AND 0x0fff)) =
      (d AND push_bit 12 (mask 40)) OR (n AND push_bit 12 (mask 40))"
    unfolding paging_desc_get_address_def paging_desc_set_flag_def paging_desc_set_address_def address_mask low_mask Let_def
    by (rule bit_eqI) (auto simp: bit_simps)
  then show "paging_desc_get_address (paging_desc_set_flag PAGING_FLAG_PRESENT True (paging_desc_set_address n d) OR
      ucast (f AND 0x0fff)) = n" using z n by simp
  show "present (paging_desc_set_flag PAGING_FLAG_PRESENT True (paging_desc_set_address n d) OR ucast (f AND 0x0fff))"
    by (simp add: present_iff paging_desc_set_flag_def Let_def bit_simps)
qed

lemma same_tables_flags:
  fixes f :: u16
  assumes "present (m e)"
  shows "same_tables lv m (m(e := m e OR ucast (f AND 0x0fff)))"
  using assms present_or [OF assms] by (auto simp: same_tables_def get_address_or_flags)

text \<open>Mapping a page whose tables exist.\<close>

lemma map_present:
  assumes tree: "tables_tree lv (pml4 s) (table_mem s)" and t: "table_at (pml4 s) (table_mem s) v 3 \<noteq> None"
  shows "\<exists>m. paging_map_page v p f s = Some (s\<lparr>table_mem := m\<rparr>) \<and> tables_tree lv (pml4 s) m \<and>
    (\<forall>k w. k \<le> 3 \<longrightarrow> table_at (pml4 s) m w k = table_at (pml4 s) (table_mem s) w k) \<and>
    (\<forall>w. view (pml4 s) m w = (if same_page v w then view (pml4 s) (table_mem s) v OR paging_desc_get_address p
       else view (pml4 s) (table_mem s) w))"
proof -
  obtain u where u: "table_at (pml4 s) (table_mem s) v 3 = Some u" using t by auto
  have pres: "tables_present (pml4 s) (table_mem s) v" using u by (simp add: table_at_3' split: if_splits)
  let ?x = "entry_at u (ix v 3)"
  have x: "leaf_entry (pml4 s) (table_mem s) v = ?x" by (rule leaf_entry_at [OF u])
  let ?d = "\<lambda>t. paging_desc_set_flags (ucast (f AND 0x0fff))
        (paging_desc_set_flag PAGING_FLAG_PRESENT True (paging_desc_set_address p (t ?x)))"
  from paging_map_page_present [OF pres refl, of p f] obtain t where
    run: "paging_map_page v p f s = Some (s\<lparr>table_mem := t(?x := ?d t)\<rparr>)" and ag: "\<forall>y. agree_but y (table_mem s) t"
    unfolding x by blast
  have same: "same_tables lv (table_mem s) t" using same_tables_agree ag by blast
  note st = same_tables_tree [OF tree same]
  have ut: "table_at (pml4 s) t v 3 = Some u" using st(2) u by simp
  note sl = set_leaf [OF st(1) ut, where d = "?d t"]
  have "paging_desc_get_address (t ?x) = view (pml4 s) (table_mem s) v"
    using same u by (simp add: view_def same_tables_def)
  then have "view (pml4 s) (t(?x := ?d t)) w = (if same_page v w then view (pml4 s) (table_mem s) v OR paging_desc_get_address p
       else view (pml4 s) (table_mem s) w)" for w
    using sl(3) st(3) by (simp add: leaf_desc)
  moreover have "k \<le> 3 \<longrightarrow> table_at (pml4 s) (t(?x := ?d t)) w k = table_at (pml4 s) (table_mem s) w k" for k w
    using sl(2) st(2) by simp
  ultimately show ?thesis using run sl(1) by blast
qed

text \<open>One step down, with a new table when there is none.\<close>

lemma descend_step:
  fixes s :: "'z paging_state_scheme" and f :: u16
  assumes ok: "tables_ok lv is s" and room: "room_for (Suc r) is s"
    and t: "table_at (pml4 s) (table_mem s) v j = Some t" "j < 3"
  shows "\<exists>t' s' lv' is'. paging_descend (\<lambda>t s. paging_map_page t t PAGING_FLAGS_KERNEL_PAGE s) t (ix v j) (f AND 0x0fff) s = Some (t', s') \<and>
    tables_ok lv' is' s' \<and> room_for r is' s' \<and> pml4 s' = pml4 s \<and>
    table_at (pml4 s') (table_mem s') v (Suc j) = Some t' \<and> (\<forall>w. paging_walk_page w s' = paging_walk_page w s) \<and>
    free_frames is' s' \<subseteq> free_frames is s"
proof (cases "present (get_entry t (ix v j) s)")
  case True
  let ?m = "table_mem s" and ?e = "entry_at t (ix v j)"
  have tree: "tables_tree lv (pml4 s) ?m" using ok by (simp add: tables_ok_def)
  let ?m' = "?m(?e := ?m ?e OR ucast (f AND 0x0fff))"
  have same: "same_tables lv ?m ?m'" using True by (intro same_tables_flags) (simp add: get_entry_def)
  note st = same_tables_tree [OF tree same]
  have run: "paging_descend (\<lambda>t s. paging_map_page t t PAGING_FLAGS_KERNEL_PAGE s) t (ix v j) (f AND 0x0fff) s =
      Some (paging_desc_get_address (?m ?e), s\<lparr>table_mem := ?m'\<rparr>)"
    using paging_descend_present [OF True] by (simp add: get_entry_def set_entry_def)
  have "tables_ok lv is (s\<lparr>table_mem := ?m'\<rparr>)"
    using ok st by (simp add: tables_ok_def walk_page_view)
  moreover have "room_for r is (s\<lparr>table_mem := ?m'\<rparr>)" using room by (auto simp: room_for_def pmm_room_def)
  moreover have "table_at (pml4 s) ?m v (Suc j) = Some (paging_desc_get_address (?m ?e))"
    using t True by (simp add: table_at_step get_entry_def)
  then have "table_at (pml4 s) ?m' v (Suc j) = Some (paging_desc_get_address (?m ?e))" using st(2) t(2) by simp
  ultimately show ?thesis using run st(3)
    by (intro exI [of _ "paging_desc_get_address (?m ?e)"] exI [of _ "s\<lparr>table_mem := ?m'\<rparr>"] exI [of _ lv] exI [of _ "is"])
      (simp add: walk_page_view)
next
  case False
  let ?m = "table_mem s" and ?e = "entry_at t (ix v j)"
  have tree: "tables_tree lv (pml4 s) ?m" using ok by (simp add: tables_ok_def)
  have lt: "lv t = Some j" using table_at_depth [OF tree t(1)] t(2) by simp
  have empty: "\<not> present (?m ?e)" using False by (simp add: get_entry_def)
  from tables_ok_alloc [OF ok room] obtain n s1 is1 where
    n: "pmm_alloc_page s = Some (n, s1)" "tables_ok lv is1 s1" "room_for r is1 s1" "n \<noteq> 0" "lv n = None"
      "frame_addr_ok n" "paging_walk_page n s = n" "n \<notin> free_frames is1 s1" "pml4 s1 = pml4 s" "table_mem s1 = ?m"
      "free_frames is1 s1 \<subseteq> free_frames is s" by blast
  have zero: "paging_desc_get_address (?m ?e) = 0"
    using tree_empty [OF tree table_at_upper [OF tree t(1,2)] empty] .
  let ?d = "paging_desc_set_flag PAGING_FLAG_PRESENT True (paging_desc_set_address n (?m ?e)) OR ucast (f AND 0x0fff)"
  note d = link_desc [OF zero n(6), of f]
  let ?m1 = "(\<lambda>a. if unat (a - n) < 4096 then 0 else ?m a)(?e := ?d)"
  let ?lv = "lv(n := Some (Suc j))"
  note link = link_table [OF tree lt t(2) ix_bound empty n(5,6) d]
  have tn: "table_at (pml4 s) ?m1 v (Suc j) = Some n"
    using link(2) [OF _ t(1)] t(2) d by (simp add: table_at_step)
  have vn: "view (pml4 s) ?m n = n" using n(7) by (simp add: walk_page_view)
  then have "table_at (pml4 s) ?m n 3 \<noteq> None" using n(4) by (auto simp: view_def split: option.splits)
  then have "table_at (pml4 s) ?m1 n 3 \<noteq> None" using link(2) [of 3 n] by auto
  then obtain m2 where m2: "paging_map_page n n PAGING_FLAGS_KERNEL_PAGE (s1\<lparr>table_mem := ?m1\<rparr>) = Some (s1\<lparr>table_mem := m2\<rparr>)"
      "tables_tree ?lv (pml4 s) m2" "\<And>k w. k \<le> 3 \<Longrightarrow> table_at (pml4 s) m2 w k = table_at (pml4 s) ?m1 w k"
      "\<And>w. view (pml4 s) m2 w = (if same_page n w then view (pml4 s) ?m1 n OR paging_desc_get_address n else view (pml4 s) ?m1 w)"
    using map_present [of ?lv "s1\<lparr>table_mem := ?m1\<rparr>" n n PAGING_FLAGS_KERNEL_PAGE] link(1) by (auto simp: n(9))
  have v2: "view (pml4 s) m2 w = view (pml4 s) ?m w" for w
  proof (cases "same_page n w")
    case True
    have "view (pml4 s) ?m1 n OR paging_desc_get_address n = n" using vn n(6) by (simp add: link(3) frame_addr_ok_def)
    then show ?thesis using True m2(4) [of w] same_page_view [OF True, of "pml4 s" ?m] vn by simp
  qed (simp add: m2(4) link(3))
  have run: "paging_descend (\<lambda>t s. paging_map_page t t PAGING_FLAGS_KERNEL_PAGE s) t (ix v j) (f AND 0x0fff) s =
      Some (n, s1\<lparr>table_mem := m2\<rparr>)"
    using False n(1,4) m2(1)
    by (simp add: paging_descend_def Let_def zero_table_def set_entry_def get_entry_def n(10) cong del: if_weak_cong)
  have "tables_ok ?lv is1 (s1\<lparr>table_mem := m2\<rparr>)"
    using n(2,8) m2(2) v2 by (auto simp: tables_ok_def walk_page_view n(9,10))
  moreover have "room_for r is1 (s1\<lparr>table_mem := m2\<rparr>)" using n(3) by (simp add: room_for_def)
  moreover have "table_at (pml4 s) m2 v (Suc j) = Some n" using m2(3) [of "Suc j" v] tn t(2) by simp
  ultimately show ?thesis using run v2
    by (intro exI [of _ n] exI [of _ "s1\<lparr>table_mem := m2\<rparr>"] exI [of _ ?lv] exI [of _ is1])
      (simp add: walk_page_view n(9,11))
qed

section \<open>Mapping a page\<close>

lemma paging_map_page_run_updates:
  fixes s :: "'z paging_state_scheme"
  assumes ok: "tables_ok lv is s" and room: "room_for (r + 3) is s"
    and v: "\<forall>a \<in> free_frames is s. \<not> same_page v a"
  shows "\<exists>s' lv' is'. paging_map_page v p f s = Some s' \<and> tables_ok lv' is' s' \<and> room_for r is' s' \<and>
    pml4 s' = pml4 s \<and> free_frames is' s' \<subseteq> free_frames is s \<and> tables_present (pml4 s') (table_mem s') v \<and>
    (\<forall>w. paging_walk_page w s' =
      (if same_page v w then paging_walk_page v s OR paging_desc_get_address p else paging_walk_page w s))"
proof -
  let ?self = "\<lambda>t s. paging_map_page t t PAGING_FLAGS_KERNEL_PAGE s" and ?f = "f AND 0x0fff"
  have room3: "room_for (Suc (Suc (Suc r))) is s" using room by (simp add: numeral_3_eq_3)
  have t0: "table_at (pml4 s) (table_mem s) v 0 = Some (pml4 s)" by simp
  from descend_step [OF ok room3 t0, of f] obtain a s1 lv1 is1 where
    s1: "paging_descend ?self (pml4 s) (ix v 0) ?f s = Some (a, s1)" "tables_ok lv1 is1 s1"
      "room_for (Suc (Suc r)) is1 s1" "pml4 s1 = pml4 s" "table_at (pml4 s1) (table_mem s1) v (Suc 0) = Some a"
      "\<And>w. paging_walk_page w s1 = paging_walk_page w s" "free_frames is1 s1 \<subseteq> free_frames is s" by auto
  from descend_step [OF s1(2,3,5), of f] obtain b s2 lv2 is2 where
    s2: "paging_descend ?self a (ix v (Suc 0)) ?f s1 = Some (b, s2)" "tables_ok lv2 is2 s2"
      "room_for (Suc r) is2 s2" "pml4 s2 = pml4 s1" "table_at (pml4 s2) (table_mem s2) v (Suc (Suc 0)) = Some b"
      "\<And>w. paging_walk_page w s2 = paging_walk_page w s1" "free_frames is2 s2 \<subseteq> free_frames is1 s1" by auto
  from descend_step [OF s2(2,3,5), of f] obtain c s3 lv3 is3 where
    s3: "paging_descend ?self b (ix v (Suc (Suc 0))) ?f s2 = Some (c, s3)" "tables_ok lv3 is3 s3"
      "room_for r is3 s3" "pml4 s3 = pml4 s2" "table_at (pml4 s3) (table_mem s3) v (Suc (Suc (Suc 0))) = Some c"
      "\<And>w. paging_walk_page w s3 = paging_walk_page w s2" "free_frames is3 s3 \<subseteq> free_frames is2 s2" by auto
  let ?x = "entry_at c (ix v 3)"
  let ?d = "paging_desc_set_flags (ucast ?f) (paging_desc_set_flag PAGING_FLAG_PRESENT True
      (paging_desc_set_address p (table_mem s3 ?x)))"
  let ?u = "s3\<lparr>table_mem := (table_mem s3)(?x := ?d)\<rparr>"
  have run: "paging_map_page v p f s = Some ?u"
    using s1(1) s2(1) s3(1)
    by (subst paging_map_page.simps) (simp add: Let_def get_entry_def set_entry_def numeral_3_eq_3)
  have tree: "tables_tree lv3 (pml4 s3) (table_mem s3)" using s3(2) by (simp add: tables_ok_def)
  have t3: "table_at (pml4 s3) (table_mem s3) v 3 = Some c" using s3(5) by (simp add: numeral_3_eq_3)
  note sl = set_leaf [OF tree t3, where d = ?d]
  have leaf: "paging_desc_get_address (table_mem s3 ?x) = paging_walk_page v s3"
    using t3 by (simp add: walk_page_at)
  have walk: "paging_walk_page w ?u = (if same_page v w then paging_walk_page v s OR paging_desc_get_address p else paging_walk_page w s)" for w
    using sl(3) leaf s1(6) s2(6) s3(6) by (simp add: walk_page_view leaf_desc)
  have free: "free_frames is3 ?u \<subseteq> free_frames is s" using s1(7) s2(7) s3(7) by simp
  have "tables_ok lv3 is3 ?u"
    using s3(2) sl(1) walk free v s1(6) s2(6) s3(6) unfolding tables_ok_def by auto
  moreover have "room_for r is3 ?u" using s3(3) by (simp add: room_for_def)
  moreover have "table_at (pml4 ?u) (table_mem ?u) v 3 = Some c" using sl(2) t3 by simp
  then have "tables_present (pml4 ?u) (table_mem ?u) v" unfolding table_at_3' by (auto split: if_splits)
  moreover have "pml4 ?u = pml4 s" using s1(4) s2(4) s3(4) by simp
  ultimately show ?thesis using run walk free by blast
qed

text \<open>C15:
  \<open>paging_map_page\<close> as an update of the address map, whether the tables of the page exist or have to be created:
  with three free frames it returns, the walk for the page yields the new frame (OR-ed with the one it had
  before, 0 for a page that was not mapped), and the walk for every other page is as before, also for the pages of
  the new tables, which are mapped at their own addresses. The tables stay a tree of used frames, with
  all tables of the page in place.
\<close>

theorem paging_map_page_updates:
  fixes s :: "'z paging_state_scheme"
  assumes ok: "tables_ok lv is s" and room: "room_for (r + 3) is s"
    and v: "\<forall>a \<in> free_frames is s. \<not> same_page v a"
  shows "\<exists>s' lv' is'. paging_map_page v p f s = Some s' \<and> tables_ok lv' is' s' \<and> room_for r is' s' \<and>
    pml4 s' = pml4 s \<and> free_frames is' s' \<subseteq> free_frames is s \<and> tables_present (pml4 s') (table_mem s') v \<and>
    (\<forall>w. paging_walk_page w s' =
      (if same_page v w then paging_walk_page v s OR paging_desc_get_address p else paging_walk_page w s))"
  by (rule paging_map_page_run_updates [OF assms])

text \<open>C40:
  \<open>paging_unmap_page\<close> as an update of the address map: the walk for the page is NULL afterwards, for every other page
  it is as before, and the tables stay a tree, for a page that was never mapped as well.
\<close>

theorem paging_unmap_page_updates:
  assumes tree: "tables_tree lv (pml4 s) (table_mem s)"
  shows "tables_tree lv (pml4 (paging_unmap_page v s)) (table_mem (paging_unmap_page v s)) \<and>
    paging_walk_page w (paging_unmap_page v s) = (if same_page v w then 0 else paging_walk_page w s)"
proof (cases "table_at (pml4 s) (table_mem s) v 3")
  case None
  then have "paging_unmap_page v s = s" unfolding table_at_3'
    by (simp add: paging_unmap_page_def paging_find_pt_walk split: if_splits)
  moreover have "paging_walk_page w s = 0" if "same_page v w"
    using None same_page_view [OF that, of "pml4 s" "table_mem s"] by (simp add: walk_page_view view_def)
  ultimately show ?thesis using tree by simp
next
  case (Some t)
  have u: "paging_unmap_page v s = s\<lparr>table_mem := (table_mem s)(entry_at t (ix v 3) := 0)\<rparr>"
    using Some unfolding table_at_3'
    by (simp add: paging_unmap_page_def paging_find_pt_walk set_entry_def numeral_3_eq_3 split: if_splits)
  note sl = set_leaf [OF tree Some, where d = 0]
  show ?thesis using sl(1,3) by (simp add: u walk_page_view paging_desc_get_address_def [of 0])
qed

section \<open>A sample tree\<close>

text \<open>Four tables at 0x1000 to 0x4000 that map the eight free frames of the small memory at their own addresses.\<close>

definition kernel_tables :: "u64 \<Rightarrow> paging_desc" where
  "kernel_tables a =
     (if a = 0x1000 then 0x2003 else if a = 0x2000 then 0x3003 else if a = 0x3000 then 0x4003
      else if 0x4800 \<le> a \<and> a < 0x4840 then 0x100003 + (a - 0x4800) * 0x200 else 0)"

definition kernel_depth :: "u64 \<Rightarrow> nat option" where
  "kernel_depth t = (if t = 0x1000 then Some 0 else if t = 0x2000 then Some 1 else if t = 0x3000 then Some 2
     else if t = 0x4000 then Some 3 else None)"

definition kernel_paging :: paging_state where
  "kernel_paging = pmm_state.extend small_memory \<lparr>pml4 = 0x1000, table_mem = kernel_tables\<rparr>"

lemma kernel_paging_sel [simp]:
  "pml4 kernel_paging = 0x1000" "table_mem kernel_paging = kernel_tables" "slots kernel_paging = small_slots"
  "pfa_allowing_allocations kernel_paging" "pmm_section_head kernel_paging = 3" "pmm_data_size kernel_paging = 4000"
  "pmm_sections kernel_paging = Some 0"
  by (simp_all add: kernel_paging_def pmm_state.defs small_memory_def)

lemma kernel_upper:
  assumes "upper kernel_depth t i"
  shows "t = 0x1000 \<or> t = 0x2000 \<or> t = 0x3000" "i \<noteq> 0 \<Longrightarrow> kernel_tables (entry_at t i) = 0"
proof -
  show t: "t = 0x1000 \<or> t = 0x2000 \<or> t = 0x3000"
    using assms by (auto simp: upper_def kernel_depth_def split: if_splits)
  assume i: "i \<noteq> 0"
  have b: "unat i < 512" "0 < unat i" using assms i by (auto simp: upper_def unat_gt_0)
  have al: "4096 dvd unat t" using t by auto
  have e: "unat (entry_at t i) = unat t + 8 * unat i" by (rule entry_nat [OF al b(1)])
  have "unat (entry_at t i) \<noteq> 0x1000 \<and> unat (entry_at t i) \<noteq> 0x2000 \<and> unat (entry_at t i) \<noteq> 0x3000 \<and> unat (entry_at t i) < 0x4800"
    unfolding e using t b by auto
  then show "kernel_tables (entry_at t i) = 0"
    by (auto simp: kernel_tables_def word_le_nat_alt)
qed

lemma kernel_tree: "tables_tree kernel_depth 0x1000 kernel_tables"
proof (rule tables_treeI)
  have np: "\<not> present 0" "paging_desc_get_address 0 = 0" by (simp_all add: paging_desc_get_flag_def paging_desc_get_address_def)
  have first: "kernel_tables (entry_at t 0) = t + 0x1003" if "t = 0x1000 \<or> t = 0x2000 \<or> t = 0x3000" for t
    using that by (auto simp: kernel_tables_def entry_at_def)
  show "kernel_depth 0x1000 = Some 0" by (simp add: kernel_depth_def)
  show "frame_addr_ok t \<and> j \<le> 3" if "kernel_depth t = Some j" for t j
    using that by (auto simp: kernel_depth_def frame_addr_ok_def paging_desc_get_address_def split: if_splits)
  show "kernel_depth (paging_desc_get_address (kernel_tables (entry_at t i))) = Some (Suc (the (kernel_depth t)))"
    if "upper kernel_depth t i" "present (kernel_tables (entry_at t i))" for t i
  proof -
    have "i = 0"
    proof (rule ccontr)
      assume "i \<noteq> 0"
      from kernel_upper(2) [OF that(1) this] show False using that(2) np by simp
    qed
    then show ?thesis using kernel_upper(1) [OF that(1)] first [of t]
      by (auto simp: kernel_depth_def paging_desc_get_address_def)
  qed
  show "paging_desc_get_address (kernel_tables (entry_at t i)) = 0"
    if "upper kernel_depth t i" "\<not> present (kernel_tables (entry_at t i))" for t i
  proof (cases "i = 0")
    case True
    then show ?thesis using that kernel_upper(1) [OF that(1)] first [of t] by (auto simp: paging_desc_get_flag_def)
  qed (use kernel_upper(2) [OF that(1)] np in simp)
  show "t = t' \<and> i = i'"
    if "upper kernel_depth t i" "upper kernel_depth t' i'" "present (kernel_tables (entry_at t i))"
      "present (kernel_tables (entry_at t' i'))"
      "paging_desc_get_address (kernel_tables (entry_at t i)) = paging_desc_get_address (kernel_tables (entry_at t' i'))" for t i t' i'
  proof -
    have z: "i = 0" "i' = 0" using kernel_upper(2) that np by metis+
    note t = kernel_upper(1) [OF that(1)] kernel_upper(1) [OF that(2)]
    have "paging_desc_get_address (t + 0x1003) = paging_desc_get_address (t' + 0x1003)"
      using that(5) unfolding z first [OF t(1)] first [OF t(2)] .
    then have "t = t'" using t by (elim disjE; simp add: paging_desc_get_address_def)
    then show ?thesis using z by simp
  qed
qed

lemma kernel_free: "free_frames [0, 1, 2] kernel_paging =
    {0x100000, 0x101000, 0x102000, 0x103000, 0x104000, 0x105000, 0x106000, 0x107000}"
proof -
  have iff: "a \<in> free_frames [0, 1, 2] kernel_paging \<longleftrightarrow> 4096 dvd unat a \<and> 0x100000 \<le> unat a \<and> unat a < 0x108000" for a
    by (auto simp: free_frames_def small_slots_def in_section_def)
  have some: "a \<in> {0x100000, 0x101000, 0x102000, 0x103000, 0x104000, 0x105000, 0x106000, 0x107000}"
    if free: "a \<in> free_frames [0, 1, 2] kernel_paging" for a
  proof -
    obtain q where q: "unat a = 4096 * q" using free unfolding iff by (auto elim!: dvdE)
    then have "256 \<le> q" "q < 264" using free unfolding iff by simp_all
    then have "q = 256 \<or> q = 257 \<or> q = 258 \<or> q = 259 \<or> q = 260 \<or> q = 261 \<or> q = 262 \<or> q = 263" by arith
    moreover have "a = of_nat (4096 * q)" unfolding q [symmetric] by simp
    ultimately show ?thesis by (elim disjE) simp_all
  qed
  then show ?thesis unfolding set_eq_iff by (intro allI iffI) (use iff in auto)
qed

lemma kernel_paging_ok: "tables_ok kernel_depth [0, 1, 2] kernel_paging" "room_for 8 [0, 1, 2] kernel_paging"
proof -
  have "pmm_wf [0, 1, 2] kernel_paging"
    using small_memory_wf by (simp add: pmm_wf_def pmm_links_def pmm_room_def small_memory_def)
  moreover have "paging_walk_page a kernel_paging = a" if "a \<in> free_frames [0, 1, 2] kernel_paging" for a
    using that unfolding kernel_free by (elim insertE emptyE; hypsubst) code_simp+
  moreover have "kernel_depth a = None \<and> a \<noteq> 0" if "a \<in> free_frames [0, 1, 2] kernel_paging" for a
    using that unfolding kernel_free by (auto simp: kernel_depth_def)
  ultimately show "tables_ok kernel_depth [0, 1, 2] kernel_paging" using kernel_tree by (simp add: tables_ok_def)
  show "room_for 8 [0, 1, 2] kernel_paging" unfolding room_for_def kernel_free by (simp add: pmm_room_def)
qed

lemma paging_map_page_updates_witness:
  "\<exists>s'. paging_map_page 0x7f0000000000 0xb000 3 kernel_paging = Some s' \<and>
     paging_walk_page 0x7f0000000000 s' = 0xb000 \<and> paging_walk_page 0x100000 s' = 0x100000"
proof -
  have far: "\<not> same_page 0x7f0000000000 a" if "a \<in> free_frames [0, 1, 2] kernel_paging" for a
  proof -
    have "ix 0x7f0000000000 0 \<noteq> ix a 0" using that unfolding kernel_free
      by (elim insertE emptyE; hypsubst) code_simp+
    then show ?thesis by (auto simp: same_page_def)
  qed
  have room: "room_for (5 + 3) [0, 1, 2] kernel_paging" using kernel_paging_ok(2) by simp
  have w: "paging_walk_page 0x7f0000000000 kernel_paging = 0" "paging_walk_page 0x100000 kernel_paging = 0x100000"
    by code_simp+
  have "0x100000 \<in> free_frames [0, 1, 2] kernel_paging" unfolding kernel_free by simp
  then have ns: "\<not> same_page 0x7f0000000000 0x100000" "same_page 0x7f0000000000 0x7f0000000000"
    using far by (auto simp: same_page_def)
  from paging_map_page_updates [OF kernel_paging_ok(1) room, of "0x7f0000000000" "0xb000" 3] far obtain s' where
    "paging_map_page 0x7f0000000000 0xb000 3 kernel_paging = Some s'"
    "\<forall>w. paging_walk_page w s' = (if same_page 0x7f0000000000 w
       then paging_walk_page 0x7f0000000000 kernel_paging OR paging_desc_get_address 0xb000 else paging_walk_page w kernel_paging)"
    by auto
  then show ?thesis using w ns by (auto simp: paging_desc_get_address_def)
qed

lemma paging_unmap_page_updates_witness:
  "paging_walk_page 0x100000 (paging_unmap_page 0x100000 kernel_paging) = 0 \<and>
   paging_walk_page 0x101000 (paging_unmap_page 0x100000 kernel_paging) = 0x101000"
proof -
  have "same_page 0x100000 0x100000" "ix 0x100000 3 \<noteq> ix 0x101000 3" "paging_walk_page 0x101000 kernel_paging = 0x101000"
    by (simp add: same_page_def) code_simp+
  moreover from this have "\<not> same_page 0x100000 0x101000" by (auto simp: same_page_def)
  moreover have "tables_tree kernel_depth (pml4 kernel_paging) (table_mem kernel_paging)" using kernel_tree by simp
  note paging_unmap_page_updates [OF this, of "0x100000" "0x100000"] paging_unmap_page_updates [OF this, of "0x100000" "0x101000"]
  ultimately show ?thesis by simp
qed

end
