(* ===== verification/Heap_Grow.thy ===== *)
theory Heap_Grow
  imports Heap_Props Frames Paging_Tree Allocators
begin

text \<open>
  The kernel heap when it has to grow: \<open>heap_expand\<close> puts a free segment behind the last one, and
  \<open>malloc\<close> finds a block after at most two expansions.
\<close>

section \<open>Mapping pages does not touch the heap\<close>

lemma heap_map_pages_keeps:
  "heap_map_pages pos n s = Some t \<Longrightarrow> paging_state.more t = paging_state.more s"
  by (induction n arbitrary: pos s)
    (auto simp: bind_eq_Some_conv dest!: paging_alloc_page_more paging_map_page_more)

lemma heap_fields_kept:
  assumes "paging_state.more t = paging_state.more (s :: 'z heap_state_scheme)"
  shows "heap_initialized t = heap_initialized s" "heap_start t = heap_start s" "heap_end t = heap_end s"
    "last_header t = last_header s" "headers t = headers s" "heap_bytes t = heap_bytes s"
    "heap_state.more t = heap_state.more s"
  using assms by (cases s rule: heap_state.cases_scheme; cases t rule: heap_state.cases_scheme; simp)+

section \<open>The last segment\<close>

lemma hend_split: "hchain h b (us @ [l]) \<Longrightarrow> hend h b (us @ [l]) = unat l + 32 + unat (seg_length (h l))"
  by (simp add: hend_append)

lemma last_segment_length:
  assumes "heap_tiled (us @ [l]) s"
  shows "unat (heap_end s) = unat l + 32 + unat (seg_length (headers s l))" "last_header s = l"
proof -
  have c: "hchain (headers s) (unat (heap_start s)) (us @ [l])"
    and e: "hend (headers s) (unat (heap_start s)) (us @ [l]) = unat (heap_end s)"
    and h: "last0 0 (us @ [l]) = last_header s"
    using assms unfolding heap_tiled_def by blast+
  show "unat (heap_end s) = unat l + 32 + unat (seg_length (headers s l))" using hend_split [OF c] e by simp
  show "last_header s = l" using h by simp
qed

text \<open>Growth by \<open>r\<close> bytes.\<close>

definition heap_grown :: "nat \<Rightarrow> u64 list \<Rightarrow> 'z heap_state_scheme \<Rightarrow> u64 list \<Rightarrow> 'z heap_state_scheme \<Rightarrow> bool" where
  "heap_grown r segs s segs' t \<longleftrightarrow> heap_wf segs' t \<and> used_blocks segs' t = used_blocks segs s \<and>
     heap_bytes t = heap_bytes s \<and> heap_state.more t = heap_state.more s \<and> heap_start t = heap_start s \<and>
     unat (heap_end t) = unat (heap_end s) + r \<and> seg_free (headers t (last_header t)) \<and>
     r \<le> unat (seg_length (headers t (last_header t))) + 32 \<and>
     (seg_free (headers s (last_header s)) \<longrightarrow> r \<le> unat (seg_length (headers t (last_header t))))"

text \<open>The new segment is linked behind the last one; it may still have a free neighbour.\<close>

lemma heap_append_segment:
  fixes s u :: "'z heap_state_scheme"
  assumes wf: "heap_wf (us @ [l]) s" and keep: "paging_state.more u = paging_state.more s"
    and r: "4096 dvd unat r" "r \<noteq> 0" and room: "unat (heap_end s) + unat r < 2 ^ 63"
  defines "e \<equiv> heap_end s"
  defines "v \<equiv> u\<lparr>heap_end := e + r, last_header := e, headers := (headers s)
     (l := (headers s l)\<lparr>seg_next := e\<rparr>,
      e := (headers s e)\<lparr>seg_free := True, seg_last := l, seg_next := 0, seg_length := r - sizeof_header\<rparr>)\<rparr>"
  shows "heap_tiled (us @ [l, e]) v" "e \<noteq> l" "e \<notin> set us" "l \<notin> set us" "e \<noteq> 0" "l \<noteq> 0"
    "unat (heap_end v) = unat e + unat r" "unat (r - sizeof_header) = unat r - 32"
proof -
  note f = heap_fields_kept [OF keep]
  have t: "heap_tiled (us @ [l]) s" using wf by (simp add: heap_wf_def)
  have links: "hlinks (headers s) 0 (us @ [l]) 0" and hd: "hd0 us l = heap_start s"
    and chain: "hchain (headers s) (unat (heap_start s)) (us @ [l])"
    and stop: "hend (headers s) (unat (heap_start s)) (us @ [l]) = unat (heap_end s)"
    and ok: "\<forall>a \<in> set (us @ [l]). seg_ok (headers s a)"
    and rest: "heap_initialized s" "heap_start s \<noteq> 0" "16 dvd unat (heap_start s)"
    using t by (auto simp: heap_tiled_def)
  note len = last_segment_length [OF t, folded e_def]
  have below: "unat c < unat e" if "c \<in> set (us @ [l])" for c
    using hchain_range [OF chain that] unfolding stop e_def by simp
  then show ne: "e \<noteq> l" "e \<notin> set us" "e \<noteq> 0" by fastforce+
  show nl: "l \<notin> set us" "l \<noteq> 0" using heap_tiled_distinct [OF t] heap_tiled_nonzero [OF t] by auto
  have r32: "4096 \<le> unat r" "16 dvd unat r" using r dvd_trans [of 16 4096 "unat r"] by (auto simp: unat_gt_0 dest: dvd_imp_le)
  show rl: "unat (r - sizeof_header) = unat r - 32" using r32 by (subst unat_minus_nowrap) simp_all
  have er: "unat (e + r) = unat e + unat r" using room by (intro unat_plus_nowrap) (simp add: e_def)
  then show "unat (heap_end v) = unat e + unat r" by (simp add: v_def)
  have c: "hchain (headers v) (unat (heap_start s)) (us @ [l, e])"
    using chain ne nl len by (simp add: v_def)
  then have stop': "hend (headers v) (unat (heap_start s)) (us @ [l, e]) = unat (e + r)"
    using hend_split [of "headers v" "unat (heap_start s)" "us @ [l]" e] r32 rl er by (simp add: v_def)
  have oks: "\<forall>a \<in> set (us @ [l, e]). seg_ok (headers v a)"
  proof
    fix a assume "a \<in> set (us @ [l, e])"
    then show "seg_ok (headers v a)"
      using ok ne r32 rl by (cases "a = e") (auto simp: seg_ok_def v_def)
  qed
  have links': "hlinks (headers v) 0 (us @ [l, e]) 0" using links ne nl by (simp add: v_def)
  have hd': "hd0 (us @ [l, e]) 0 = heap_start s" using hd by simp
  show "heap_tiled (us @ [l, e]) v"
    using rest er room c stop' oks links' hd' unfolding heap_tiled_def
    by (auto simp: v_def f e_def [symmetric])
qed

lemma heap_expand_run:
  fixes s :: "'z heap_state_scheme"
  assumes wf: "heap_wf segs s" and n: "16 \<le> unat n" and room: "unat (heap_end s) + unat n + 4096 < 2 ^ 63"
    and map: "heap_map_pages (heap_end s) (unat (heap_round_page n div 0x1000)) s = Some u"
  shows "\<exists>t segs'. heap_expand n s = Some t \<and> heap_grown (unat (heap_round_page n)) segs s segs' t"
proof -
  define r where "r = heap_round_page n"
  have r: "4096 dvd unat r" "unat n \<le> unat r" "unat r < unat n + 4096"
    using heap_round_page_bounds [of n] room by (simp_all add: r_def)
  have r0: "r \<noteq> 0" and room': "unat (heap_end s) + unat r < 2 ^ 63" using r n room by auto
  have keep: "paging_state.more u = paging_state.more s" by (rule heap_map_pages_keeps [OF map])
  note f = heap_fields_kept [OF keep]
  have t: "heap_tiled segs s" using wf by (simp add: heap_wf_def)
  then obtain us l where segs: "segs = us @ [l]" by (cases segs rule: rev_cases) (auto simp: heap_tiled_def)
  let ?e = "heap_end s"
  let ?v = "u\<lparr>heap_end := ?e + r, last_header := ?e, headers := (headers s)
     (l := (headers s l)\<lparr>seg_next := ?e\<rparr>,
      ?e := (headers s ?e)\<lparr>seg_free := True, seg_last := l, seg_next := 0, seg_length := r - sizeof_header\<rparr>)\<rparr>"
  note a = heap_append_segment [OF wf [unfolded segs] keep r(1) r0 room']
  have lh: "last_header s = l" using last_segment_length(2) t segs by blast
  have run: "heap_expand n s = header_combine_backward ?e ?v"
    using map a(2,5,6) lh pages_of_round [OF r(1)]
    by (simp add: heap_expand_def r_def [symmetric] Let_def f fun_upd_twist)
  have nf: "no_free_pair (frees (headers s) (us @ [l]))" using wf segs by (simp add: heap_wf_def)
  have fr: "frees (headers ?v) us = frees (headers s) us" using a(3,4) by simp
  have ub: "used_blocks us ?v = used_blocks us s" using a(3,4) by (intro used_blocks_cong) auto
  show ?thesis
  proof (cases "seg_free (headers s l)")
    case False
    have "header_combine_backward ?e ?v = Some ?v" using a(2,5,6) False by (simp add: header_combine_backward_def)
    moreover have "heap_wf (us @ [l, ?e]) ?v"
      using a(1,2) nf fr False by (simp add: heap_wf_def no_free_pair_append no_free_pair_Cons)
    moreover have "used_blocks (us @ [l, ?e]) ?v = used_blocks segs s"
      using a(2) ub False by (simp add: segs used_blocks_append used_blocks_Cons)
    ultimately show ?thesis
      using run a(7,8) False lh f by (intro exI [of _ ?v] exI [of _ "us @ [l, ?e]"]) (simp add: heap_grown_def r_def)
  next
    case True
    have "heap_tiled (us @ l # ?e # []) ?v" using a(1) by simp
    from header_combine_forward_run [OF this] obtain t where
      t: "header_combine_forward l ?v = Some t" "heap_tiled (us @ [l]) t" "heap_frame ?v t"
        "seg_free (headers t l) = seg_free (headers ?v l)"
        "\<forall>c \<in> set us. seg_length (headers t c) = seg_length (headers ?v c) \<and> seg_free (headers t c) = seg_free (headers ?v c)"
      by auto
    have fl: "seg_free (headers t l)" using t(4) True a(2) by simp
    have run': "heap_expand n s = Some t" using run t(1) a(2,5,6) True by (simp add: header_combine_backward_def)
    have "frees (headers t) us = frees (headers s) us" using t(5) fr by (metis frees_cong)
    then have "heap_wf (us @ [l]) t" using t(2) nf fl True by (simp add: heap_wf_def)
    moreover have "used_blocks us t = used_blocks us ?v" using t(5) by (intro used_blocks_cong) auto
    then have "used_blocks (us @ [l]) t = used_blocks segs s"
      using ub True fl by (simp add: segs used_blocks_append used_blocks_Cons)
    moreover have "unat (heap_end t) = unat ?e + unat r" using t(3) a(7) by (simp add: heap_frame_def)
    moreover have "unat r \<le> unat (seg_length (headers t l))"
      using last_segment_length(1) [OF t(2)] last_segment_length(1) [of us l s] \<open>unat (heap_end t) = _\<close> wf
      by (simp add: segs heap_wf_def)
    ultimately show ?thesis
      using run' t(3) fl last_segment_length(2) [OF t(2)] f
      by (intro exI [of _ t] exI [of _ "us @ [l]"]) (simp add: heap_grown_def heap_frame_def r_def)
  qed
qed

section \<open>The search\<close>

abbreviation heap_fits :: "u64 \<Rightarrow> 'z heap_state_scheme \<Rightarrow> u64 \<Rightarrow> bool" where
  "heap_fits n s a \<equiv> seg_free (headers s a) \<and> n \<le> seg_length (headers s a)"

lemma heap_search_found:
  assumes wf: "heap_wf segs s" and n: "16 \<le> unat n" "16 dvd unat n" and fit: "\<exists>a \<in> set segs. heap_fits n s a"
  shows "\<exists>p t segs'. heap_search (heap_start s) n s = Some (Inl (p, t)) \<and> took_block p n segs s segs' t"
proof -
  obtain us b vs where segs: "segs = us @ b # vs" and b: "heap_fits n s b" and us: "\<forall>u \<in> set us. \<not> heap_fits n s u"
    using split_list_first_prop [of segs "heap_fits n s"] fit by blast
  have t: "heap_tiled segs s" using wf by (simp add: heap_wf_def)
  have start: "hd0 (us @ b # vs) 0 = heap_start s" and links: "hlinks (headers s) 0 (us @ b # vs) 0"
    using t segs unfolding heap_tiled_def by blast+
  have "0 \<notin> set (us @ b # vs)" using heap_tiled_nonzero [OF t] segs by blast
  from heap_search_skip [OF links this us] heap_search_take [OF wf [unfolded segs] _ n] b
  show ?thesis unfolding start segs by auto
qed

lemma heap_search_none:
  assumes wf: "heap_wf segs s" and none: "\<not> (\<exists>a \<in> set segs. heap_fits n s a)"
  shows "heap_search (heap_start s) n s = Some (Inr s)"
proof -
  have t: "heap_tiled segs s" using wf by (simp add: heap_wf_def)
  then obtain us b where segs: "segs = us @ [b]" by (cases segs rule: rev_cases) (auto simp: heap_tiled_def)
  have start: "hd0 (us @ b # []) 0 = heap_start s" and links: "hlinks (headers s) 0 (us @ b # []) 0"
    using t segs unfolding heap_tiled_def by blast+
  have nz: "0 \<notin> set (us @ b # [])" using heap_tiled_nonzero [OF t] segs by blast
  from heap_search_skip [OF links nz] none segs
  have "heap_search (heap_start s) n s = heap_search b n s" unfolding start by auto
  then show ?thesis using none segs links nz by (auto simp: heap_search.simps [of b] not_le)
qed

section \<open>Allocating with growth\<close>

text \<open>
  How often the heap has to grow for a block of \<open>m\<close> bytes. The new segment is the size rounded up to
  pages without its header, so it can be up to 32 bytes too short; behind a free segment its
  header is won back.
\<close>

definition heap_growths :: "u64 list \<Rightarrow> u64 \<Rightarrow> 'z heap_state_scheme \<Rightarrow> nat" where
  "heap_growths segs m s =
     (if \<exists>a \<in> set segs. heap_fits m s a then 0
      else if seg_free (headers s (last_header s)) \<or> unat m + 32 \<le> unat (heap_round_page m) then 1
      else 2)"

text \<open>The pages of each growth can be mapped.\<close>

fun heap_can_grow :: "nat \<Rightarrow> u64 \<Rightarrow> 'z heap_state_scheme \<Rightarrow> bool" where
  "heap_can_grow 0 m s = True"
| "heap_can_grow (Suc k) m s \<longleftrightarrow>
     heap_map_pages (heap_end s) (unat (heap_round_page m div 0x1000)) s \<noteq> None \<and>
     (case heap_expand m s of None \<Rightarrow> True | Some t \<Rightarrow> heap_can_grow k m t)"

lemma heap_malloc_step:
  assumes "heap_initialized s" "heap_round_size n = m" "m \<noteq> 0"
  shows "heap_malloc n s = do {
     r \<leftarrow> heap_search (heap_start s) m s;
     case r of Inl found \<Rightarrow> Some found
     | Inr s \<Rightarrow> do { s \<leftarrow> heap_expand m s; heap_malloc m s } }"
  using assms by (subst heap_malloc.simps) (simp add: Let_def)

definition heap_got ::
    "u64 \<Rightarrow> u64 \<Rightarrow> u64 list \<Rightarrow> 'z heap_state_scheme \<Rightarrow> u64 list \<Rightarrow> 'z heap_state_scheme \<Rightarrow> bool" where
  "heap_got p n segs s segs' t \<longleftrightarrow> heap_wf segs' t \<and> heap_bytes t = heap_bytes s \<and>
     heap_state.more t = heap_state.more s \<and>
     (\<exists>m. unat n \<le> m \<and> m < unat n + 48 \<and> (unat p, m) \<notin> used_blocks segs s \<and>
       used_blocks segs' t = insert (unat p, m) (used_blocks segs s))"

lemma took_got: "took_block p n segs s segs' t \<Longrightarrow> heap_got p n segs s segs' t"
  by (auto simp: took_block_def heap_got_def heap_frame_def)

lemma grown_got:
  "heap_grown r segs s segs' t \<Longrightarrow> heap_got p n segs' t segs'' u \<Longrightarrow> heap_got p n segs s segs'' u"
  by (auto simp: heap_grown_def heap_got_def)

lemma heap_growths_less:
  assumes grow: "heap_grown (unat (heap_round_page m)) segs s segs' t" and m: "unat m \<le> unat (heap_round_page m)"
    and none: "\<not> (\<exists>a \<in> set segs. heap_fits m s a)"
  shows "heap_growths segs' m t < heap_growths segs m s"
proof -
  have t: "heap_wf segs' t" "seg_free (headers t (last_header t))"
    "unat (heap_round_page m) \<le> unat (seg_length (headers t (last_header t))) + 32"
    "seg_free (headers s (last_header s)) \<longrightarrow> unat (heap_round_page m) \<le> unat (seg_length (headers t (last_header t)))"
    using grow by (simp_all add: heap_grown_def)
  have l: "last_header t \<in> set segs'"
    using t(1) by (cases segs' rule: rev_cases) (auto simp: heap_wf_def heap_tiled_def)
  show ?thesis
  proof (cases "seg_free (headers s (last_header s)) \<or> unat m + 32 \<le> unat (heap_round_page m)")
    case True
    then have "unat m \<le> unat (seg_length (headers t (last_header t)))" using t(3,4) m by auto
    then have "heap_growths segs' m t = 0" using l t(2) by (auto simp: heap_growths_def word_le_nat_alt)
    then show ?thesis using none by (simp add: heap_growths_def)
  next
    case False
    then have "heap_growths segs m s = 2" using none by (simp add: heap_growths_def)
    then show ?thesis using t(2) by (simp add: heap_growths_def)
  qed
qed

lemma heap_malloc_grows:
  assumes "heap_wf segs s" "heap_round_size n = m" "16 \<le> unat m" "16 dvd unat m"
    and "heap_growths segs m s \<le> k" "unat (heap_end s) + k * (unat m + 4096) < 2 ^ 63"
    and "heap_can_grow k m s"
  shows "\<exists>p t segs'. heap_malloc n s = Some (p, t) \<and> heap_got p m segs s segs' t"
  using assms
proof (induction k arbitrary: s segs n)
  case 0
  then have "\<exists>a \<in> set segs. heap_fits m s a" by (auto simp: heap_growths_def split: if_splits)
  moreover have "heap_initialized s" "m \<noteq> 0" using 0 by (auto simp: heap_wf_def heap_tiled_def)
  ultimately show ?case
    using heap_search_found [OF 0(1,3,4)] took_got heap_malloc_step [OF _ 0(2)] by fastforce
next
  case (Suc k)
  have init: "heap_initialized s" "m \<noteq> 0" using Suc.prems by (auto simp: heap_wf_def heap_tiled_def)
  note step = heap_malloc_step [OF init(1) Suc.prems(2) init(2)]
  show ?case
  proof (cases "\<exists>a \<in> set segs. heap_fits m s a")
    case True
    from heap_search_found [OF Suc.prems(1,3,4) True] took_got show ?thesis unfolding step by fastforce
  next
    case False
    have room: "unat (heap_end s) + unat m + 4096 < 2 ^ 63" using Suc.prems(6) by simp
    obtain u where "heap_map_pages (heap_end s) (unat (heap_round_page m div 0x1000)) s = Some u"
      using Suc.prems(7) by auto
    from heap_expand_run [OF Suc.prems(1,3) room this] obtain t segs' where
      t: "heap_expand m s = Some t" and grow: "heap_grown (unat (heap_round_page m)) segs s segs' t" by blast
    have pg: "unat m \<le> unat (heap_round_page m)" "unat (heap_round_page m) < unat m + 4096"
      using heap_round_page_bounds [of m] room by simp_all
    have "heap_growths segs' m t \<le> k" using heap_growths_less [OF grow pg(1) False] Suc.prems(5) by simp
    moreover have "unat (heap_end t) + k * (unat m + 4096) < 2 ^ 63"
      using Suc.prems(6) grow pg(2) by (simp add: heap_grown_def)
    moreover have "heap_wf segs' t" "heap_can_grow k m t" using grow Suc.prems(7) t by (simp_all add: heap_grown_def)
    ultimately obtain p v segs'' where v: "heap_malloc m t = Some (p, v)" "heap_got p m segs' t segs'' v"
      using Suc.IH [OF _ heap_round_size_idem [OF Suc.prems(4)] Suc.prems(3,4)] by blast
    have "heap_malloc n s = Some (p, v)" using heap_search_none [OF Suc.prems(1) False] t v(1) by (simp add: step)
    then show ?thesis using grown_got [OF grow v(2)] by blast
  qed
qed

section \<open>When the heap can grow\<close>

lemma heap_map_pages_frames:
  fixes s :: "'z heap_state_scheme"
  assumes "tables_ok lv is s" "room_for (r + 4 * n) is s"
    and "\<forall>j < n. \<forall>a \<in> free_frames is s. \<not> same_page (pos + of_nat j * 0x1000) a"
  shows "\<exists>t lv' is'. heap_map_pages pos n s = Some t \<and> tables_ok lv' is' t \<and> room_for r is' t \<and>
    free_frames is' t \<subseteq> free_frames is s"
  using assms
proof (induction n arbitrary: pos s lv "is")
  case (Suc n)
  have room: "room_for (Suc (r + 4 * n + 3)) is s" using Suc.prems(2) by (simp add: algebra_simps)
  from tables_ok_alloc [OF Suc.prems(1) room] obtain base s1 is1 where
    s1: "pmm_alloc_page s = Some (base, s1)" "tables_ok lv is1 s1" "room_for (r + 4 * n + 3) is1 s1"
      "free_frames is1 s1 \<subseteq> free_frames is s" by blast
  have "\<forall>a \<in> free_frames is1 s1. \<not> same_page pos a"
    using Suc.prems(3) [rule_format, of 0] s1(4) by auto
  from paging_map_page_run_updates [OF s1(2,3) this, of base PAGING_FLAGS_KERNEL_PAGE] obtain s2 lv2 is2 where
    s2: "paging_map_page pos base PAGING_FLAGS_KERNEL_PAGE s1 = Some s2" "tables_ok lv2 is2 s2"
      "room_for (r + 4 * n) is2 s2" "free_frames is2 s2 \<subseteq> free_frames is1 s1" by blast
  have next_page: "pos + 0x1000 + of_nat j * 0x1000 = pos + of_nat (Suc j) * 0x1000" for j :: nat
    by (simp add: algebra_simps)
  have "\<forall>j < n. \<forall>a \<in> free_frames is2 s2. \<not> same_page (pos + 0x1000 + of_nat j * 0x1000) a"
    unfolding next_page using Suc.prems(3) s1(4) s2(4) by (meson Suc_mono subsetD)
  from Suc.IH [OF s2(2,3) this] show ?case using s1 s2 by fastforce
qed auto

text \<open>What is left of the state of the tables when only the heap changes.\<close>

lemma tables_ok_truncate:
  fixes s :: "'z paging_state_scheme" and t :: "'y paging_state_scheme"
  assumes "paging_state.truncate t = paging_state.truncate s"
  shows "tables_ok lv is t = tables_ok lv is s" "room_for r is t = room_for r is s" "free_frames is t = free_frames is s"
proof -
  have f: "pml4 t = pml4 s" "table_mem t = table_mem s" "slots t = slots s" "pmm_sections t = pmm_sections s"
    "pmm_section_head t = pmm_section_head s" "pmm_data_size t = pmm_data_size s"
    "pfa_allowing_allocations t = pfa_allowing_allocations s"
    using assms by (simp_all add: paging_state.defs)
  then show "free_frames is t = free_frames is s" by (simp add: free_frames_def)
  with f show "tables_ok lv is t = tables_ok lv is s" "room_for r is t = room_for r is s"
    by (simp_all add: tables_ok_def room_for_def pmm_wf_def pmm_links_def pmm_room_def walk_page_view)
qed

lemma hput_truncate: "hput f p s = Some t \<Longrightarrow> paging_state.truncate t = paging_state.truncate s"
  by (auto simp: hput_def paging_state.defs split: if_splits)

lemma header_combine_truncate:
  "header_combine_forward g s = Some t \<Longrightarrow> paging_state.truncate t = paging_state.truncate s"
  "header_combine_backward g s = Some t \<Longrightarrow> paging_state.truncate t = paging_state.truncate s"
proof -
  have lh: "paging_state.truncate (s\<lparr>last_header := l\<rparr>) = paging_state.truncate s" for s :: "'a heap_state_scheme" and l
    by (simp add: paging_state.defs)
  show fwd: "header_combine_forward g s = Some t \<Longrightarrow> paging_state.truncate t = paging_state.truncate s" for g
    by (auto simp: header_combine_forward_def bind_eq_Some_conv Let_def lh split: if_splits dest!: hput_truncate)
  show "header_combine_backward g s = Some t \<Longrightarrow> paging_state.truncate t = paging_state.truncate s"
    by (auto simp: header_combine_backward_def bind_eq_Some_conv split: if_splits dest!: fwd)
qed

lemma heap_expand_truncate:
  assumes "heap_expand m s = Some t" "heap_map_pages (heap_end s) (unat (heap_round_page m div 0x1000)) s = Some u"
  shows "paging_state.truncate t = paging_state.truncate u"
proof -
  have e: "paging_state.truncate (s\<lparr>heap_end := l\<rparr>) = paging_state.truncate s"
    "paging_state.truncate (s\<lparr>last_header := l\<rparr>) = paging_state.truncate s" for s :: "'a heap_state_scheme" and l
    by (simp_all add: paging_state.defs)
  show ?thesis using assms
    by (auto simp: heap_expand_def Let_def bind_eq_Some_conv e dest!: hput_truncate header_combine_truncate(2))
qed

text \<open>
  Frames for the pages of two growths and for three tables for each of them, and the pages are not
  those at which the free frames themselves are mapped.
\<close>

definition heap_has_frames :: "(u64 \<Rightarrow> nat option) \<Rightarrow> nat list \<Rightarrow> nat \<Rightarrow> u64 \<Rightarrow> 'z heap_state_scheme \<Rightarrow> bool" where
  "heap_has_frames lv is k m s \<longleftrightarrow>
     (let n = k * (unat (heap_round_page m) div 4096)
      in n = 0 \<or> tables_ok lv is s \<and> room_for (4 * n) is s \<and>
         (\<forall>j < n. \<forall>a \<in> free_frames is s. \<not> same_page (heap_end s + of_nat j * 0x1000) a))"

lemma heap_can_grow_frames:
  assumes "heap_wf segs s" "16 \<le> unat m" "unat (heap_end s) + k * (unat m + 4096) < 2 ^ 63" "heap_has_frames lv is k m s"
  shows "heap_can_grow k m s"
  using assms
proof (induction k arbitrary: s segs lv "is")
  case (Suc k)
  define q where "q = unat (heap_round_page m) div 4096"
  have room: "unat (heap_end s) + unat m + 4096 < 2 ^ 63" using Suc.prems(3) by simp
  have pg: "4096 dvd unat (heap_round_page m)" "unat (heap_round_page m) < unat m + 4096"
    using heap_round_page_bounds [of m] room by simp_all
  have q: "unat (heap_round_page m div 0x1000) = q" by (simp add: q_def unat_div)
  have "16 \<le> unat (heap_round_page m)" using heap_round_page_bounds [of m] room Suc.prems(2) by simp
  then have q0: "0 < q" using pg(1) by (auto simp: q_def div_greater_zero_iff dest: dvd_imp_le)
  have fr: "tables_ok lv is s" "room_for (4 * (k * q) + 4 * q) is s"
    "\<forall>j < q + k * q. \<forall>a \<in> free_frames is s. \<not> same_page (heap_end s + of_nat j * 0x1000) a"
    using Suc.prems(4) q0 by (simp_all add: heap_has_frames_def Let_def q_def [symmetric] algebra_simps)
  from heap_map_pages_frames [OF fr(1,2), of "heap_end s"] fr(3) obtain u lv' is' where
    u: "heap_map_pages (heap_end s) q s = Some u" "tables_ok lv' is' u" "room_for (4 * (k * q)) is' u"
      "free_frames is' u \<subseteq> free_frames is s" by auto
  from heap_expand_run [OF Suc.prems(1,2) room u(1) [folded q]] obtain t segs' where
    t: "heap_expand m s = Some t" and grow: "heap_grown (unat (heap_round_page m)) segs s segs' t" by blast
  note tr = tables_ok_truncate [OF heap_expand_truncate [OF t u(1) [folded q]]]
  have ue: "unat (heap_end t) = unat (heap_end s) + 4096 * q" using grow pg(1) by (simp add: heap_grown_def q_def)
  have e: "heap_end t = heap_end s + of_nat q * 0x1000"
  proof -
    have "heap_end t = of_nat (unat (heap_end s) + 4096 * q)" by (simp flip: ue)
    then show ?thesis by (simp add: mult.commute)
  qed
  have "\<not> same_page (heap_end t + of_nat j * 0x1000) a" if "j < k * q" "a \<in> free_frames is' u" for j a
  proof -
    have "heap_end t + of_nat j * 0x1000 = heap_end s + of_nat (q + j) * 0x1000" by (simp add: e algebra_simps)
    moreover have "q + j < q + k * q" "a \<in> free_frames is s" using that u(4) by auto
    ultimately show ?thesis using fr(3) by metis
  qed
  then have "heap_has_frames lv' is' k m t"
    using u(2,3) by (simp add: heap_has_frames_def Let_def q_def [symmetric] tr)
  moreover have "heap_wf segs' t" using grow by (simp add: heap_grown_def)
  moreover have "unat (heap_end t) + k * (unat m + 4096) < 2 ^ 63"
    using Suc.prems(3) grow pg(2) by (simp add: heap_grown_def)
  ultimately have "heap_can_grow k m t" using Suc.IH [of segs' t lv' is'] Suc.prems(2) by blast
  then show ?case using t u(1) [folded q] by simp
qed simp

lemma heap_initialize_run:
  fixes s :: "'z heap_state_scheme"
  assumes "heap_map_pages a (unat n) s = Some u" "a \<noteq> 0" "16 dvd unat a" "n \<noteq> 0"
    and "unat a + 4096 * unat n < 2 ^ 63"
  shows "\<exists>t. heap_initialize a n s = Some t \<and> heap_wf [a] t \<and> used_blocks [a] t = {} \<and>
    heap_bytes t = heap_bytes s \<and> heap_state.more t = heap_state.more s"
proof -
  note f = heap_fields_kept [OF heap_map_pages_keeps [OF assms(1)]]
  have len: "unat (n * 0x1000) = 4096 * unat n" using assms(5) by (subst unat_times_nowrap) simp_all
  have n1: "1 \<le> unat n" using assms(4) by (simp add: unat_gt_0 Suc_leI)
  have rl: "unat (n * 0x1000 - sizeof_header) = 4096 * unat n - 32"
    using len n1 by (subst unat_minus_nowrap) simp_all
  have e: "unat (a + n * 0x1000) = unat a + 4096 * unat n" using assms(5) len by (subst unat_plus_nowrap) simp_all
  have "16 dvd 4096 * unat n - 32" by (intro dvd_diff_nat) simp_all
  then show ?thesis
    using assms rl e n1
    by (simp add: heap_initialize_def Let_def heap_wf_def heap_tiled_def seg_ok_def used_blocks_Cons f)
qed

section \<open>The kernel heap as an allocator\<close>

definition heap_can :: "u64 list \<Rightarrow> u64 \<Rightarrow> 'z heap_state_scheme \<Rightarrow> bool" where
  "heap_can segs n s \<longleftrightarrow> n \<noteq> 0 \<and> unat (heap_end s) + 2 * (unat n + 4112) < 2 ^ 63 \<and>
     (\<exists>lv is. heap_has_frames lv is (heap_growths segs (heap_round_size n) s) (heap_round_size n) s)"

definition heap_keeps :: "'z heap_state_scheme \<Rightarrow> 'z heap_state_scheme \<Rightarrow> bool" where
  "heap_keeps s t \<longleftrightarrow> heap_bytes t = heap_bytes s \<and> heap_state.more t = heap_state.more s"

lemma heap_malloc_inserts:
  assumes wf: "heap_wf segs s" and can: "heap_can segs n s"
  shows "\<exists>p m t segs'. heap_malloc n s = Some (p, t) \<and> heap_wf segs' t \<and> unat n \<le> m \<and> m < unat n + 64 \<and>
    (unat p, m) \<notin> used_blocks segs s \<and> used_blocks segs' t = insert (unat p, m) (used_blocks segs s) \<and>
    heap_keeps s t"
proof -
  let ?m = "heap_round_size n"
  obtain lv "is" where n: "n \<noteq> 0" and room: "unat (heap_end s) + 2 * (unat n + 4112) < 2 ^ 63"
    and frames: "heap_has_frames lv is (heap_growths segs ?m s) ?m s" using can by (auto simp: heap_can_def)
  have n63: "unat n + 16 < 2 ^ 63" using room by simp
  note r = heap_round_room [OF n63]
  have m: "16 \<le> unat ?m" "unat n \<le> unat ?m" "unat ?m < unat n + 16" using r n by auto
  have "heap_growths segs ?m s \<le> 2" by (simp add: heap_growths_def)
  then have "heap_growths segs ?m s * (unat ?m + 4096) \<le> 2 * (unat ?m + 4096)" by (rule mult_right_mono) simp
  then have room': "unat (heap_end s) + heap_growths segs ?m s * (unat ?m + 4096) < 2 ^ 63" using room m(3) by simp
  note grow = heap_can_grow_frames [OF wf m(1) room' frames]
  from heap_malloc_grows [OF wf refl m(1) r(1) order_refl room' grow] obtain p t segs' where
    run: "heap_malloc n s = Some (p, t)" and got: "heap_got p ?m segs s segs' t" by blast
  then obtain l where "heap_wf segs' t" "unat ?m \<le> l" "l < unat ?m + 48" "(unat p, l) \<notin> used_blocks segs s"
      "used_blocks segs' t = insert (unat p, l) (used_blocks segs s)" "heap_keeps s t"
    by (auto simp: heap_got_def heap_keeps_def)
  then show ?thesis
    using run m by (intro exI [of _ p] exI [of _ l] exI [of _ t] exI [of _ segs']) auto
qed

lemma used_blocks_apart: "heap_wf segs s \<Longrightarrow> blocks_apart (used_blocks segs s)"
  using used_blocks_disjoint [of segs s] by (auto simp: blocks_apart_def heap_wf_def)

lemma used_blocks_aligned:
  assumes "heap_wf segs s" "(p, l) \<in> used_blocks segs s" shows "16 dvd p"
proof -
  obtain a where a: "a \<in> set segs" "p = unat a + 32" using assms(2) by (auto simp: used_blocks_def)
  then obtain us vs where "segs = us @ a # vs" by (metis split_list)
  then have "16 dvd unat a" using segment_aligned [of us a vs s] assms(1) by (simp add: heap_wf_def)
  then show ?thesis using a(2) by simp
qed

interpretation kernel_heap: releasing_allocator heap_wf used_blocks heap_malloc heap_can heap_keeps 64 heap_free
proof
  show "\<exists>p m t b. heap_malloc n s = Some (p, t) \<and> heap_wf b t \<and> unat n \<le> m \<and> m < unat n + 64 \<and>
      (unat p, m) \<notin> used_blocks a s \<and> used_blocks b t = insert (unat p, m) (used_blocks a s) \<and> heap_keeps s t"
    if "heap_wf a s" "heap_can a n s" for a s n using heap_malloc_inserts [OF that] .
  show "\<exists>t b. heap_free p s = Some t \<and> heap_wf b t \<and> used_blocks b t = used_blocks a s - {(unat p, m)} \<and> heap_keeps s t"
    if "heap_wf a s" "(unat p, m) \<in> used_blocks a s" for a s p m
    using heap_free_run [OF that] by (auto simp: heap_frame_def heap_keeps_def)
qed (auto simp: used_blocks_apart heap_keeps_def dest: used_blocks_aligned)

text \<open>C4:
  \<open>malloc\<close> of the kernel returns a block, also when no free segment is large enough: the heap then grows once, or
  twice when the new segment is too short by its header. If there are frames for the new pages and their tables,
  the block is aligned to 16 bytes, as long as asked for and less than 64 bytes longer, and does not touch
  a block in use nor its header; the other blocks, the bytes of the heap and the state of all other components
  stay.
\<close>

theorem kernel_malloc_returns:
  assumes "heap_wf segs s" "n \<noteq> 0" "unat (heap_end s) + 2 * (unat n + 4112) < 2 ^ 63"
    and "heap_has_frames lv is (heap_growths segs (heap_round_size n) s) (heap_round_size n) s"
  shows "\<exists>p m t segs'. heap_malloc n s = Some (p, t) \<and> heap_wf segs' t \<and> 16 dvd unat p \<and>
    unat n \<le> m \<and> m < unat n + 64 \<and> used_blocks segs' t = insert (unat p, m) (used_blocks segs s) \<and>
    (\<forall>(q, l) \<in> used_blocks segs s. unat p + m + 32 \<le> q \<or> q + l + 32 \<le> unat p) \<and> heap_keeps s t"
  by (rule kernel_heap.alloc_apart) (use assms in \<open>auto simp: heap_can_def\<close>)

text \<open>C13:
  A block that is allocated and released again leaves the blocks in use and the bytes of the heap as they
  were and the heap well formed, whether the heap had to grow for it or not.
\<close>

theorem kernel_free_undoes_malloc:
  assumes "heap_wf segs s" "n \<noteq> 0" "unat (heap_end s) + 2 * (unat n + 4112) < 2 ^ 63"
    and "heap_has_frames lv is (heap_growths segs (heap_round_size n) s) (heap_round_size n) s"
  shows "\<exists>p t u segs'. heap_malloc n s = Some (p, t) \<and> heap_free p t = Some u \<and> heap_wf segs' u \<and>
    used_blocks segs' u = used_blocks segs s \<and> heap_keeps s u"
  by (rule kernel_heap.release_undoes_alloc) (use assms in \<open>auto simp: heap_can_def\<close>)

section \<open>Growing the small heap\<close>

definition growing_heap :: heap_state where
  "growing_heap = paging_state.extend kernel_paging \<lparr>heap_initialized = True, heap_start = 0x10000,
     heap_end = 0x11000, last_header = 0x10120, headers = small_headers, heap_bytes = (\<lambda>_. 0)\<rparr>"

lemma growing_heap_wf: "heap_wf [0x10000, 0x10120] growing_heap"
  and growing_heap_blocks: "used_blocks [0x10000, 0x10120] growing_heap = {(0x10020, 0x100)}"
  by (simp_all add: growing_heap_def paging_state.defs heap_wf_def heap_tiled_def small_headers_def seg_ok_def used_blocks_Cons)

lemma growing_heap_frames:
  "heap_has_frames kernel_depth [0, 1, 2] (heap_growths [0x10000, 0x10120] (heap_round_size 4000) growing_heap)
     (heap_round_size 4000) growing_heap"
proof -
  have size: "heap_round_size 4000 = 4000" "unat (heap_round_page 4000) div 4096 = 1"
    by (simp_all add: heap_round_size_def heap_round_page_def)
  have one: "heap_growths [0x10000, 0x10120] 4000 growing_heap = 1"
    by (simp add: heap_growths_def small_headers_def growing_heap_def paging_state.defs)
  have tr: "paging_state.truncate growing_heap = paging_state.truncate kernel_paging"
    by (simp add: growing_heap_def paging_state.defs)
  note same = tables_ok_truncate [OF tr]
  have "\<not> same_page 0x11000 a" if "a \<in> free_frames [0, 1, 2] kernel_paging" for a
  proof -
    have "ix 0x11000 3 \<noteq> ix a 3" using that unfolding kernel_free by (elim insertE emptyE; hypsubst) code_simp+
    then show ?thesis by (auto simp: same_page_def)
  qed
  moreover have "room_for 4 [0, 1, 2] kernel_paging" using kernel_paging_ok(2) by (auto simp: room_for_def pmm_room_def)
  moreover have "heap_end growing_heap = 0x11000" by (simp add: growing_heap_def paging_state.defs)
  ultimately show ?thesis
    using kernel_paging_ok(1) unfolding heap_has_frames_def size one same Let_def by simp
qed

lemma kernel_malloc_returns_witness:
  "\<exists>p m t segs'. heap_malloc 4000 growing_heap = Some (p, t) \<and> 4000 \<le> m \<and>
     used_blocks segs' t = {(unat p, m), (0x10020, 0x100)}"
proof -
  have room: "unat (heap_end growing_heap) + 2 * (unat (4000 :: u64) + 4112) < 2 ^ 63"
    by (simp add: growing_heap_def paging_state.defs)
  from kernel_malloc_returns [OF growing_heap_wf _ room growing_heap_frames] obtain p m t segs' where
    "heap_malloc 4000 growing_heap = Some (p, t)" "4000 \<le> m"
    "used_blocks segs' t = insert (unat p, m) (used_blocks [0x10000, 0x10120] growing_heap)"
    by auto
  then show ?thesis unfolding growing_heap_blocks by blast
qed

lemma kernel_free_undoes_malloc_witness:
  "\<exists>p t u segs'. heap_malloc 4000 growing_heap = Some (p, t) \<and> heap_free p t = Some u \<and>
     used_blocks segs' u = {(0x10020, 0x100)}"
  using kernel_free_undoes_malloc [OF growing_heap_wf _ _ growing_heap_frames] unfolding growing_heap_blocks
  by (auto simp: growing_heap_def paging_state.defs)

end
