(* ===== verification/Ahci_Props.thy ===== *)
theory Ahci_Props
  imports Pool_Props Shell_Props
begin

text \<open>
  Reads of the disk (\<open>ahci_drive_command_read_wait\<close>): the command that is left in memory, as the controller reads it,
  and the accesses to the registers of the port, for arbitrary answers of the controller.
\<close>

section \<open>Bytes in memory\<close>

lemma write_bytes_other: "n \<le> unat (a - p) \<Longrightarrow> write_bytes m p v n a = m a"
  by (simp add: write_bytes_def)

lemma read_write_bytes: "read_u32 (write_bytes m p v 4) p = ucast v"
proof (rule bit_word_eqI)
  have three: "p + 2 + 1 = p + 3" by simp
  fix n assume n: "n < LENGTH(32)"
  have "n < 8 \<or> 8 \<le> n \<and> n < 16 \<or> 16 \<le> n \<and> n < 24 \<or> 24 \<le> n" by linarith
  then show "bit (read_u32 (write_bytes m p v 4) p) n = bit (ucast v :: u32) n"
    using n unfolding read_u32_def read_u16_def three by (elim disjE) (auto simp: write_bytes_def bit_simps)
qed

lemma read_u32_update: "4 \<le> unat (q - p) \<Longrightarrow> read_u32 (m(q := v)) p = read_u32 m p"
proof (rule read_u32_cong)
  fix i :: nat assume "4 \<le> unat (q - p)" "i < 4"
  moreover have "unat (of_nat i :: u64) = i" using \<open>i < 4\<close> by (simp add: unat_of_nat)
  ultimately have "p + of_nat i \<noteq> q" by auto
  then show "(m(q := v)) (p + of_nat i) = m (p + of_nat i)" by simp
qed

text \<open>Three bytes, the lowest first.\<close>

lemma three_bytes: "(a :: nat) mod 256 + 256 * (a div 256 mod 256) + 65536 * (a div 65536 mod 256) = a mod 2 ^ 24"
  using mod_mult2_eq [of a 256 65536] mod_mult2_eq [of "a div 256" 256 256]
  by (simp add: div_mult2_eq [symmetric])

lemma low_byte: "unat (ucast (x AND 0xFF) :: u8) = unat (x :: u32) mod 256"
proof -
  have m: "(0xFF :: u32) = mask 8" by (simp add: mask_eq_exp_minus_1)
  have "(ucast (x AND 0xFF) :: u8) = ucast x" unfolding m by (intro bit_word_eqI) (auto simp: bit_simps)
  then show ?thesis by (simp add: unsigned_ucast_eq take_bit_eq_mod)
qed

lemma byte_of_u32: "unat (ucast (drop_bit n x AND 0xFF) :: u8) = unat (x :: u32) div 2 ^ n mod 256"
  unfolding low_byte unat_drop_bit_eq by (simp add: drop_bit_eq_div)

section \<open>The command of a read\<close>

text \<open>
  What the controller reads from a command table: the block number (six bytes in two groups of three)
  and the number of blocks of the command, and the length that a memory area has in its entry, which holds
  one byte less.
\<close>

definition fis_lba :: "mem \<Rightarrow> u64 \<Rightarrow> nat" where
  "fis_lba m p = horner_sum unat 256 [m (p + 4), m (p + 5), m (p + 6), m (p + 8), m (p + 9), m (p + 10)]"

definition fis_count :: "mem \<Rightarrow> u64 \<Rightarrow> nat" where
  "fis_count m p = horner_sum unat 256 [m (p + 12), m (p + 13)]"

definition prdt_length :: "mem \<Rightarrow> u64 \<Rightarrow> nat" where
  "prdt_length m p = unat (read_u32 m (p + 12)) mod 2 ^ 22 + 1"

lemma read_fis_lba:
  "fis_lba (ahci_read_fis lba n p m) p = unat lba mod 2 ^ 24 + 2 ^ 24 * (unat lba div 2 ^ 32 mod 2 ^ 24)"
proof -
  let ?l = "ucast lba :: u32" and ?u = "ucast (drop_bit 32 lba) :: u32"
  have "fis_lba (ahci_read_fis lba n p m) p = unat ?l mod 2 ^ 24 + 2 ^ 24 * (unat ?u mod 2 ^ 24)"
    using byte_of_u32 [of 0 ?l] byte_of_u32 [of 8 ?l] byte_of_u32 [of 16 ?l] three_bytes [of "unat ?l"]
      byte_of_u32 [of 0 ?u] byte_of_u32 [of 8 ?u] byte_of_u32 [of 16 ?u] three_bytes [of "unat ?u"]
    by (simp add: fis_lba_def ahci_read_fis_def Let_def)
  also have "unat ?l mod 2 ^ 24 = unat lba mod 2 ^ 24"
    by (simp add: unsigned_ucast_eq take_bit_eq_mod mod_mod_cancel)
  also have "unat ?u mod 2 ^ 24 = unat lba div 2 ^ 32 mod 2 ^ 24"
    by (simp add: unsigned_ucast_eq take_bit_eq_mod mod_mod_cancel drop_bit_eq_div unat_div)
  finally show ?thesis .
qed

lemma read_fis_count: "fis_count (ahci_read_fis lba n p m) p = unat n mod 2 ^ 16"
proof -
  have "unat (ucast (drop_bit 8 n) :: u8) = unat n div 256 mod 256"
    by (simp add: unsigned_ucast_eq take_bit_eq_mod drop_bit_eq_div unat_div)
  then show ?thesis
    using low_byte [of n] mod_mult2_eq [of "unat n" 256 256]
    by (simp add: fis_count_def ahci_read_fis_def Let_def)
qed

lemma read_fis_prdt:
  "read_u32 (ahci_read_fis lba n p m) (p + 0x80) = read_u32 m (p + 0x80)"
  "read_u32 (ahci_read_fis lba n p m) (p + 0x84) = read_u32 m (p + 0x84)"
  "read_u32 (ahci_read_fis lba n p m) (p + 0x8c) = read_u32 m (p + 0x8c)"
  by (simp_all add: ahci_read_fis_def Let_def read_u32_update)

lemma length_field:
  "((a AND 0x7FC00000) OR (x AND 0x3FFFFF) OR 0x80000000) AND 0x3FFFFF = (x :: u32) AND 0x3FFFFF"
  by (simp add: bit.conj_disj_distrib2 and.assoc)

text \<open>The block number that the drive gets is the one asked for exactly below \<open>2 ^ 24\<close>.\<close>

lemma lba_survives:
  assumes "(a :: nat) < 2 ^ 48"
  shows "a mod 2 ^ 24 + 2 ^ 24 * (a div 2 ^ 32 mod 2 ^ 24) = a \<longleftrightarrow> a < 2 ^ 24"
proof
  assume e: "a mod 2 ^ 24 + 2 ^ 24 * (a div 2 ^ 32 mod 2 ^ 24) = a"
  then have "2 ^ 24 * (a div 2 ^ 32 mod 2 ^ 24) = 2 ^ 24 * (a div 2 ^ 24)"
    using mod_mult_div_eq [of a "2 ^ 24"] by (metis add_left_cancel)
  then have "a div 2 ^ 32 mod 2 ^ 24 = a div 2 ^ 24" by simp
  moreover have "a div 2 ^ 32 = a div 2 ^ 24 div 2 ^ 8" by (simp add: div_mult2_eq [symmetric])
  moreover have "a div 2 ^ 24 div 2 ^ 8 < 2 ^ 24" using assms by (simp add: div_mult2_eq [symmetric] less_mult_imp_div_less)
  ultimately have "a div 2 ^ 24 div 2 ^ 8 = a div 2 ^ 24" by simp
  then have "a div 2 ^ 24 = 0" using div_less_dividend [of "2 ^ 8" "a div 2 ^ 24"] by (cases "a div 2 ^ 24 = 0") auto
  then show "a < 2 ^ 24" by (simp add: div_eq_0_iff)
qed simp

section \<open>Accesses to the controller\<close>

definition emits :: "io_event list \<Rightarrow> 'z machine_state_scheme \<Rightarrow> 'z machine_state_scheme" where
  "emits es s = s\<lparr>io_log := io_log s @ es\<rparr>"

lemma emits_Nil [simp]: "emits [] s = s"
  by (simp add: emits_def)

lemma emits_emits [simp]: "emits ys (emits xs s) = emits (xs @ ys) s"
  by (simp add: emits_def)

lemma emits_sel [simp]:
  "io_log (emits es s) = io_log s @ es" "io_env (emits es s) = io_env s" "heap_bytes (emits es s) = heap_bytes s"
  by (simp_all add: emits_def)

lemma mmio_write_emits: "mmio_write a v s = emits [Wr32 a v] s"
  by (simp add: mmio_write_def io_emit_def emits_def)

lemma mmio_read_emits:
  "mmio_read a s = (ucast (io_env s (length (io_log s))), emits [Rd32 a (ucast (io_env s (length (io_log s))))] s)"
  by (simp add: mmio_read_def io_next_def io_emit_def emits_def Let_def)

lemmas mmio_emits = mmio_write_emits mmio_read_emits

fun is_write :: "io_event \<Rightarrow> bool" where
  "is_write (Wr32 a v) = True"
| "is_write e = False"

text \<open>\<open>k\<close> reads of the register at \<open>a\<close>, the first of which is access \<open>n\<close>.\<close>

definition reads_of :: "u64 \<Rightarrow> (nat \<Rightarrow> u64) \<Rightarrow> nat \<Rightarrow> nat \<Rightarrow> io_event list" where
  "reads_of a env n k = map (\<lambda>i. Rd32 a (ucast (env (n + i)))) [0..<k]"

lemma reads_of_0 [simp]: "reads_of a env n 0 = []"
  by (simp add: reads_of_def)

lemma reads_of_length [simp]: "length (reads_of a env n k) = k"
  by (simp add: reads_of_def)

lemma reads_of_reads [simp]: "filter is_write (reads_of a env n k) = []"
  by (simp add: reads_of_def filter_empty_conv)

lemma reads_of_first: "Rd32 a (ucast (env n)) # reads_of a env (Suc n) k = reads_of a env n (Suc k)"
  by (simp add: reads_of_def upt_conv_Cons map_Suc_upt [symmetric] del: upt_Suc)

section \<open>Waiting for the drive\<close>

definition drive_busy :: "(nat \<Rightarrow> u64) \<Rightarrow> nat \<Rightarrow> bool" where
  "drive_busy env n \<longleftrightarrow> (ucast (env n) :: u32) AND (AHCI_ATA_DEV_BUSY OR AHCI_ATA_DEV_DRQ) \<noteq> 0"

lemma wait_idle_busy:
  "(\<forall>i \<le> n. drive_busy (io_env s) (length (io_log s) + i)) \<Longrightarrow>
   ahci_wait_idle n port s =
     (False, emits (reads_of (port + port_task_file_data) (io_env s) (length (io_log s)) (Suc n)) s)"
proof (induction n arbitrary: s)
  case 0
  then show ?case
    using reads_of_first [of _ "io_env s" "length (io_log s)" 0]
    by (simp add: ahci_wait_idle.simps [of 0] mmio_emits drive_busy_def)
next
  case (Suc n)
  let ?e = "Rd32 (port + port_task_file_data) (ucast (io_env s (length (io_log s))))"
  have "drive_busy (io_env s) (length (io_log s))" using Suc.prems by (metis add_0_right zero_le)
  then have "ahci_wait_idle (Suc n) port s = ahci_wait_idle n port (emits [?e] s)"
    by (simp add: ahci_wait_idle.simps [of "Suc n"] mmio_emits drive_busy_def)
  moreover have "\<forall>i \<le> n. drive_busy (io_env (emits [?e] s)) (length (io_log (emits [?e] s)) + i)"
    using Suc.prems by (auto dest: spec [of _ "Suc _"])
  ultimately show ?case
    using Suc.IH [of "emits [?e] s"] reads_of_first [of _ "io_env s" "length (io_log s)" "Suc n"] by simp
qed

lemma wait_idle_ready:
  "k \<le> n \<Longrightarrow> (\<forall>i < k. drive_busy (io_env s) (length (io_log s) + i)) \<Longrightarrow>
   \<not> drive_busy (io_env s) (length (io_log s) + k) \<Longrightarrow>
   ahci_wait_idle n port s =
     (True, emits (reads_of (port + port_task_file_data) (io_env s) (length (io_log s)) (Suc k)) s)"
proof (induction k arbitrary: n s)
  case 0
  then show ?case
    using reads_of_first [of _ "io_env s" "length (io_log s)" 0]
    by (simp add: ahci_wait_idle.simps [of n] mmio_emits drive_busy_def)
next
  case (Suc k)
  then obtain m where n: "n = Suc m" "k \<le> m" by (cases n) auto
  let ?e = "Rd32 (port + port_task_file_data) (ucast (io_env s (length (io_log s))))"
  have "drive_busy (io_env s) (length (io_log s))" using Suc.prems(2) by (metis add_0_right zero_less_Suc)
  then have "ahci_wait_idle n port s = ahci_wait_idle m port (emits [?e] s)"
    by (simp add: n ahci_wait_idle.simps [of "Suc m"] mmio_emits drive_busy_def)
  moreover have "\<forall>i < k. drive_busy (io_env (emits [?e] s)) (length (io_log (emits [?e] s)) + i)"
    using Suc.prems(2) by (auto dest: spec [of _ "Suc _"])
  ultimately show ?case
    using Suc.IH [of m "emits [?e] s"] Suc.prems(3) n(2)
      reads_of_first [of _ "io_env s" "length (io_log s)" "Suc k"] by simp
qed

definition drive_failed :: "(nat \<Rightarrow> u64) \<Rightarrow> nat \<Rightarrow> nat \<Rightarrow> bool" where
  "drive_failed env n i \<longleftrightarrow> (ucast (env (n + 2 * i)) :: u32) AND HBA_STATUS_TFES \<noteq> 0"

definition drive_finished :: "(nat \<Rightarrow> u64) \<Rightarrow> nat \<Rightarrow> nat \<Rightarrow> bool" where
  "drive_finished env n i \<longleftrightarrow> (ucast (env (n + 2 * i + 1)) :: u32) = 0"

lemma wait_done_step:
  "ahci_wait_done port s =
     (let n = length (io_log s); a = Rd32 (port + port_interrupt_status) (ucast (io_env s n));
          b = Rd32 (port + port_command_issue) (ucast (io_env s (Suc n)))
      in if drive_failed (io_env s) n 0 then Some (False, emits [a] s)
         else if drive_finished (io_env s) n 0 then Some (True, emits [a, b] s)
         else ahci_wait_done port (emits [a, b] s))"
  by (subst ahci_wait_done.simps) (simp add: mmio_emits drive_failed_def drive_finished_def Let_def)

lemma drive_later:
  "drive_failed env (Suc (Suc n)) i = drive_failed env n (Suc i)"
  "drive_finished env (Suc (Suc n)) i = drive_finished env n (Suc i)"
  by (simp_all add: drive_failed_def drive_finished_def)

lemma wait_done_at:
  "(\<forall>i < j. \<not> drive_failed (io_env s) (length (io_log s)) i \<and> \<not> drive_finished (io_env s) (length (io_log s)) i) \<Longrightarrow>
   drive_failed (io_env s) (length (io_log s)) j \<or> drive_finished (io_env s) (length (io_log s)) j \<Longrightarrow>
   \<exists>es. ahci_wait_done port s = Some (\<not> drive_failed (io_env s) (length (io_log s)) j, emits es s) \<and>
     filter is_write es = []"
proof (induction j arbitrary: s)
  case 0
  then show ?case by (subst wait_done_step) (auto simp: Let_def)
next
  case (Suc j)
  let ?n = "length (io_log s)"
  let ?a = "Rd32 (port + port_interrupt_status) (ucast (io_env s ?n))"
  let ?b = "Rd32 (port + port_command_issue) (ucast (io_env s (Suc ?n)))"
  let ?s = "emits [?a, ?b] s"
  have "\<not> drive_failed (io_env s) ?n 0" "\<not> drive_finished (io_env s) ?n 0" using Suc.prems(1) by auto
  then have step: "ahci_wait_done port s = ahci_wait_done port ?s" by (subst wait_done_step) (simp add: Let_def)
  have "\<forall>i < j. \<not> drive_failed (io_env s) ?n (Suc i) \<and> \<not> drive_finished (io_env s) ?n (Suc i)"
    using Suc.prems(1) by auto
  then have "\<exists>es. ahci_wait_done port ?s = Some (\<not> drive_failed (io_env s) ?n (Suc j), emits es ?s) \<and>
      filter is_write es = []"
    using Suc.IH [of ?s] Suc.prems(2) by (simp add: drive_later)
  then obtain es where "ahci_wait_done port ?s = Some (\<not> drive_failed (io_env s) ?n (Suc j), emits es ?s)"
      "filter is_write es = []"
    by blast
  then have "ahci_wait_done port s = Some (\<not> drive_failed (io_env s) ?n (Suc j), emits ([?a, ?b] @ es) s) \<and>
      filter is_write ([?a, ?b] @ es) = []"
    unfolding step emits_emits by simp
  then show ?case by blast
qed

lemma wait_done_answers:
  assumes ret: "ahci_wait_done port s = Some r"
  shows "\<exists>i. drive_failed (io_env s) (length (io_log s)) i \<or> drive_finished (io_env s) (length (io_log s)) i"
proof (rule ahci_wait_done.raw_induct [where P = "\<lambda>port s r.
    \<exists>i. drive_failed (io_env s) (length (io_log s)) i \<or> drive_finished (io_env s) (length (io_log s)) i", OF _ ret],
    goal_cases)
  case (1 f port s r)
  let ?n = "length (io_log s)"
  let ?s = "emits [Rd32 (port + port_interrupt_status) (ucast (io_env s ?n)),
    Rd32 (port + port_command_issue) (ucast (io_env s (Suc ?n)))] s"
  show ?case
  proof (cases "drive_failed (io_env s) ?n 0 \<or> drive_finished (io_env s) ?n 0")
    case True
    then show ?thesis by blast
  next
    case False
    then have c: "(ucast (io_env s ?n) :: u32) AND HBA_STATUS_TFES = 0" "(ucast (io_env s (Suc ?n)) :: u32) \<noteq> 0"
      by (simp_all add: drive_failed_def drive_finished_def)
    have "f port ?s = Some r"
      using 1(2) unfolding mmio_emits Let_def case_prod_conv by (simp add: c)
    from 1(1) [OF this] obtain i where "drive_failed (io_env s) ?n (Suc i) \<or> drive_finished (io_env s) ?n (Suc i)"
      by (auto simp: drive_later)
    then show ?thesis by blast
  qed
qed

lemma first_answer:
  assumes "\<exists>i. drive_failed (io_env s) (length (io_log s)) i \<or> drive_finished (io_env s) (length (io_log s)) i"
  obtains j where "drive_failed (io_env s) (length (io_log s)) j \<or> drive_finished (io_env s) (length (io_log s)) j"
    "\<forall>i < j. \<not> drive_failed (io_env s) (length (io_log s)) i \<and> \<not> drive_finished (io_env s) (length (io_log s)) i"
proof -
  let ?P = "\<lambda>i. drive_failed (io_env s) (length (io_log s)) i \<or> drive_finished (io_env s) (length (io_log s)) i"
  have "?P (LEAST i. ?P i)" by (rule LeastI_ex [OF assms])
  moreover have "\<forall>i < (LEAST i. ?P i). \<not> ?P i" using not_less_Least by blast
  ultimately show thesis using that [of "LEAST i. ?P i"] by blast
qed

lemma wait_done_emits:
  assumes "ahci_wait_done port s = Some (ok, t)"
  shows "\<exists>es j. t = emits es s \<and> filter is_write es = [] \<and>
    (\<forall>i < j. \<not> drive_failed (io_env s) (length (io_log s)) i \<and> \<not> drive_finished (io_env s) (length (io_log s)) i) \<and>
    (drive_failed (io_env s) (length (io_log s)) j \<or> drive_finished (io_env s) (length (io_log s)) j) \<and>
    ok = (\<not> drive_failed (io_env s) (length (io_log s)) j)"
proof -
  obtain j where j: "drive_failed (io_env s) (length (io_log s)) j \<or> drive_finished (io_env s) (length (io_log s)) j"
      "\<forall>i < j. \<not> drive_failed (io_env s) (length (io_log s)) i \<and> \<not> drive_finished (io_env s) (length (io_log s)) i"
    using first_answer [OF wait_done_answers [OF assms]] by blast
  from wait_done_at [OF j(2,1)] obtain es where
    "ahci_wait_done port s = Some (\<not> drive_failed (io_env s) (length (io_log s)) j, emits es s)"
    "filter is_write es = []" by blast
  then show ?thesis using assms j by auto
qed

lemma wait_done_returns:
  assumes "drive_failed (io_env s) (length (io_log s)) i \<or> drive_finished (io_env s) (length (io_log s)) i"
  shows "ahci_wait_done port s \<noteq> None"
  using first_answer [of s] wait_done_at [of _ s port] assms by blast

section \<open>Reading blocks\<close>

text \<open>The command header and the command table, from the registers that are read after the first write.\<close>

definition header_address :: "'z machine_state_scheme \<Rightarrow> u64" where
  "header_address s =
     (let n = length (io_log s); lower = ucast (io_env s (n + 1)) :: u32; upper = ucast (io_env s (n + 2)) :: u32
      in ucast lower OR push_bit 32 (ucast upper))"

definition table_address :: "mem \<Rightarrow> u64 \<Rightarrow> u64" where
  "table_address m header =
     ucast (read_u32 m (header + 8)) OR push_bit 32 (ucast (read_u32 m (header + 12)))"

definition read_command :: "u64 \<Rightarrow> u32 \<Rightarrow> u64 \<Rightarrow> u64 \<Rightarrow> mem \<Rightarrow> mem" where
  "read_command lba n out_buffer header m =
     (let m = write_u16 (m(header := (m header AND 0xA0) OR 5)) (header + 2) 1;
          table = table_address m header
      in ahci_read_fis lba n table
           (ahci_read_prdt out_buffer n (table + 0x80) (memset m table 0 sizeof_command_table)))"

definition read_start :: "ahci_drive_handle \<Rightarrow> 'z machine_state_scheme \<Rightarrow> io_event list" where
  "read_start drive s =
     (let port = port_hba drive; n = length (io_log s)
      in [Wr32 (port + port_interrupt_status) (-1), Rd32 (port + port_command_list_lower) (ucast (io_env s (n + 1))),
          Rd32 (port + port_command_list_upper) (ucast (io_env s (n + 2)))])"

lemma read_start_simps [simp]: "length (read_start drive s) = 3"
    "filter is_write (read_start drive s) = [Wr32 (port_hba drive + port_interrupt_status) (-1)]"
  by (simp_all add: read_start_def Let_def)

lemma read_wait_run:
  assumes "ahci_ready s" "port_type drive = Port_Sata"
  shows "ahci_drive_command_read_wait drive lba n buf s =
    (let port = port_hba drive;
         (idle, s) = ahci_wait_idle 0x100001 port (emits (read_start drive s)
           (s\<lparr>heap_bytes := read_command lba n buf (header_address s) (heap_bytes s)\<rparr>))
     in if \<not> idle then Some (False, s) else ahci_wait_done port (emits [Wr32 (port + port_command_issue) 1] s))"
proof -
  have "emits es s\<lparr>heap_bytes := m\<rparr> = emits es (s\<lparr>heap_bytes := m\<rparr>)" for es m by (simp add: emits_def)
  then show ?thesis
    using assms by (simp add: ahci_drive_command_read_wait_def ahci_ready_def mmio_emits read_start_def header_address_def
        read_command_def table_address_def Let_def split: prod.split)
qed

lemma read_wait_busy:
  assumes "ahci_ready s" "port_type drive = Port_Sata"
    and busy: "\<forall>i < 0x100002. drive_busy (io_env s) (length (io_log s) + 3 + i)"
  shows "\<exists>es. ahci_drive_command_read_wait drive lba count buf s = Some (False, emits es
      (s\<lparr>heap_bytes := read_command lba count buf (header_address s) (heap_bytes s)\<rparr>)) \<and>
    length es = 3 + 0x100002 \<and> filter is_write es = [Wr32 (port_hba drive + port_interrupt_status) (-1)]"
proof -
  let ?s = "s\<lparr>heap_bytes := read_command lba count buf (header_address s) (heap_bytes s)\<rparr>"
  let ?s1 = "emits (read_start drive s) ?s"
  have "\<forall>i \<le> 0x100001. drive_busy (io_env ?s1) (length (io_log ?s1) + i)" using busy by simp
  from wait_idle_busy [OF this, of "port_hba drive"]
  have "ahci_drive_command_read_wait drive lba count buf s = Some (False, emits (read_start drive s @
      reads_of (port_hba drive + port_task_file_data) (io_env s) (length (io_log s) + 3) (Suc 0x100001)) ?s)"
    unfolding read_wait_run [OF assms(1,2)] Let_def by simp
  then show ?thesis
    by (intro exI [of _ "read_start drive s @
        reads_of (port_hba drive + port_task_file_data) (io_env s) (length (io_log s) + 3) (Suc 0x100001)"]) simp
qed

text \<open>After the first answer that is not busy the command is issued.\<close>

lemma read_wait_issued:
  assumes "ahci_ready s" "port_type drive = Port_Sata" and k: "k < 0x100002"
    and idle: "\<forall>i < k. drive_busy (io_env s) (length (io_log s) + 3 + i)"
      "\<not> drive_busy (io_env s) (length (io_log s) + 3 + k)"
  shows "\<exists>es. ahci_drive_command_read_wait drive lba count buf s = ahci_wait_done (port_hba drive) (emits es
      (s\<lparr>heap_bytes := read_command lba count buf (header_address s) (heap_bytes s)\<rparr>)) \<and>
    length es = 3 + k + 2 \<and>
    filter is_write es = [Wr32 (port_hba drive + port_interrupt_status) (-1), Wr32 (port_hba drive + port_command_issue) 1]"
proof -
  let ?s = "s\<lparr>heap_bytes := read_command lba count buf (header_address s) (heap_bytes s)\<rparr>"
  let ?s1 = "emits (read_start drive s) ?s"
  let ?es = "reads_of (port_hba drive + port_task_file_data) (io_env ?s1) (length (io_log ?s1)) (Suc k)"
  have "ahci_wait_idle 0x100001 (port_hba drive) ?s1 = (True, emits ?es ?s1)"
    using k idle by (intro wait_idle_ready) simp_all
  then have "ahci_drive_command_read_wait drive lba count buf s = ahci_wait_done (port_hba drive)
      (emits (read_start drive s @ ?es @ [Wr32 (port_hba drive + port_command_issue) 1]) ?s)"
    unfolding read_wait_run [OF assms(1,2)] Let_def by simp
  then show ?thesis
    by (intro exI [of _ "read_start drive s @ ?es @ [Wr32 (port_hba drive + port_command_issue) 1]"]) simp
qed

text \<open>C27:
  Waiting for the drive before a read is bounded: when 0x100002 reads of its status say busy, the read fails after
  just these, and no command is issued. Otherwise the command is issued once, after the first answer that is not busy,
  and from then on nothing bounds the wait: the read returns exactly if the drive reports an error or that
  it has finished, whatever else the controller answers, and it succeeds exactly if no error came first.
\<close>

theorem ahci_read_wait_outcome:
  assumes "ahci_ready s" "port_type drive = Port_Sata"
  shows "let n = length (io_log s) + 3; env = io_env s; port = port_hba drive;
      run = ahci_drive_command_read_wait drive lba count buf s in
    ((\<forall>i < 0x100002. drive_busy env (n + i)) \<longrightarrow>
       (\<exists>t. run = Some (False, t) \<and> length (io_log t) = n + 0x100002 \<and>
         filter is_write (io_log t) = filter is_write (io_log s) @ [Wr32 (port + port_interrupt_status) (-1)])) \<and>
    (\<forall>k < 0x100002. (\<forall>i < k. drive_busy env (n + i)) \<and> \<not> drive_busy env (n + k) \<longrightarrow>
       (let m = n + k + 2 in
         (run = None \<longleftrightarrow> (\<forall>j. \<not> drive_failed env m j \<and> \<not> drive_finished env m j)) \<and>
         (\<forall>ok t. run = Some (ok, t) \<longrightarrow>
            filter is_write (io_log t) = filter is_write (io_log s) @
              [Wr32 (port + port_interrupt_status) (-1), Wr32 (port + port_command_issue) 1] \<and>
            (\<exists>j. (\<forall>i < j. \<not> drive_failed env m i \<and> \<not> drive_finished env m i) \<and>
              (drive_failed env m j \<or> drive_finished env m j) \<and> ok = (\<not> drive_failed env m j)))))"
  unfolding Let_def
proof (intro conjI impI allI)
  assume "\<forall>i < 0x100002. drive_busy (io_env s) (length (io_log s) + 3 + i)"
  from read_wait_busy [OF assms this, of lba count buf]
  show "\<exists>t. ahci_drive_command_read_wait drive lba count buf s = Some (False, t) \<and>
      length (io_log t) = length (io_log s) + 3 + 0x100002 \<and>
      filter is_write (io_log t) = filter is_write (io_log s) @ [Wr32 (port_hba drive + port_interrupt_status) (-1)]"
    by auto
next
  fix k :: nat
  let ?m = "length (io_log s) + 3 + k + 2"
  let ?run = "ahci_drive_command_read_wait drive lba count buf s"
  assume "k < 0x100002"
    and "(\<forall>i < k. drive_busy (io_env s) (length (io_log s) + 3 + i)) \<and> \<not> drive_busy (io_env s) (length (io_log s) + 3 + k)"
  with read_wait_issued [OF assms, of k lba count buf] obtain s2 where
    run: "?run = ahci_wait_done (port_hba drive) s2" and
    s2: "io_env s2 = io_env s" "length (io_log s2) = ?m" "filter is_write (io_log s2) = filter is_write (io_log s) @
       [Wr32 (port_hba drive + port_interrupt_status) (-1), Wr32 (port_hba drive + port_command_issue) 1]"
    by auto
  show "?run = None \<longleftrightarrow> (\<forall>j. \<not> drive_failed (io_env s) ?m j \<and> \<not> drive_finished (io_env s) ?m j)"
    using wait_done_answers [of "port_hba drive" s2] wait_done_returns [of s2 _ "port_hba drive"]
    unfolding run s2(1,2) by (metis not_None_eq)
  fix ok t
  assume "?run = Some (ok, t)"
  from wait_done_emits [OF this [unfolded run]] obtain es where es: "t = emits es s2" "filter is_write es = []"
    and "\<exists>j. (\<forall>i < j. \<not> drive_failed (io_env s) ?m i \<and> \<not> drive_finished (io_env s) ?m i) \<and>
      (drive_failed (io_env s) ?m j \<or> drive_finished (io_env s) ?m j) \<and> ok = (\<not> drive_failed (io_env s) ?m j)"
    unfolding s2(1,2) by blast
  then show "\<exists>j. (\<forall>i < j. \<not> drive_failed (io_env s) ?m i \<and> \<not> drive_finished (io_env s) ?m i) \<and>
      (drive_failed (io_env s) ?m j \<or> drive_finished (io_env s) ?m j) \<and> ok = (\<not> drive_failed (io_env s) ?m j)"
    by blast
  show "filter is_write (io_log t) = filter is_write (io_log s) @
      [Wr32 (port_hba drive + port_interrupt_status) (-1), Wr32 (port_hba drive + port_command_issue) 1]"
    using es s2(3) by simp
qed

section \<open>The command in memory\<close>

lemma table_address_kept:
  "table_address (write_u16 (m(header := v)) (header + 2) w) header = table_address m header"
  by (simp add: table_address_def write_u16_def read_u32_update)

lemma read_u32_write_bytes:
  assumes "4 \<le> unat (p - q)" "unat (p - q) + 4 \<le> 2 ^ 64"
  shows "read_u32 (write_bytes m q v 4) p = read_u32 m p"
proof (rule read_u32_cong)
  fix i :: nat assume i: "i < 4"
  have "unat (p + of_nat i - q) = unat (p - q + of_nat i)" by (simp add: algebra_simps)
  also have "\<dots> = unat (p - q) + i" using assms i by (subst unat_add_lem [THEN iffD1]) (simp_all add: unat_of_nat)
  finally show "write_bytes m q v 4 (p + of_nat i) = m (p + of_nat i)" using assms(1) by (simp add: write_bytes_other)
qed

lemma back_to_u32: "(ucast (ucast (x :: u32) :: u64) :: u32) = x"
  by (rule bit_word_eqI) (auto simp: bit_simps)

lemma prdt_fields:
  "read_u32 (ahci_read_prdt buf n p m) p = ucast buf"
  "read_u32 (ahci_read_prdt buf n p m) (p + 4) = ucast (drop_bit 32 buf)"
  "read_u32 (ahci_read_prdt buf n p m) (p + 12) AND 0x3FFFFF = n * 512 AND 0x3FFFFF"
proof -
  show "read_u32 (ahci_read_prdt buf n p m) p = ucast buf"
    "read_u32 (ahci_read_prdt buf n p m) (p + 4) = ucast (drop_bit 32 buf)"
    by (simp_all add: ahci_read_prdt_def Let_def read_u32_write_bytes read_write_bytes)
  show "read_u32 (ahci_read_prdt buf n p m) (p + 12) AND 0x3FFFFF = n * 512 AND 0x3FFFFF"
    using length_field [of _ "n * 512"] by (simp add: ahci_read_prdt_def Let_def read_write_bytes back_to_u32)
qed

text \<open>The drive, once it has a command, reports at some time an error or that it has finished.\<close>

definition drive_answers :: "(nat \<Rightarrow> u64) \<Rightarrow> bool" where
  "drive_answers env \<longleftrightarrow> (\<forall>n. \<exists>j. drive_failed env n j \<or> drive_finished env n j)"

lemma read_wait_cases [consumes 2]:
  assumes "ahci_ready s" "port_type drive = Port_Sata"
  obtains (busy) es where "ahci_drive_command_read_wait drive lba count buf s = Some (False, emits es
      (s\<lparr>heap_bytes := read_command lba count buf (header_address s) (heap_bytes s)\<rparr>))"
    | (issued) es where "ahci_drive_command_read_wait drive lba count buf s = ahci_wait_done (port_hba drive) (emits es
      (s\<lparr>heap_bytes := read_command lba count buf (header_address s) (heap_bytes s)\<rparr>))"
proof (cases "\<exists>k < 0x100002. \<not> drive_busy (io_env s) (length (io_log s) + 3 + k)")
  case False
  then have "\<forall>i < 0x100002. drive_busy (io_env s) (length (io_log s) + 3 + i)" by blast
  from read_wait_busy [OF assms this, of lba count buf] busy show ?thesis by blast
next
  case True
  let ?P = "\<lambda>k. k < 0x100002 \<and> \<not> drive_busy (io_env s) (length (io_log s) + 3 + k)"
  have "?P (LEAST k. ?P k)" using LeastI_ex [of ?P] True by blast
  moreover have "\<forall>i < (LEAST k. ?P k). drive_busy (io_env s) (length (io_log s) + 3 + i)"
    using not_less_Least [of _ ?P] calculation by (meson less_trans)
  ultimately show ?thesis using read_wait_issued [OF assms] issued by blast
qed

lemma read_wait_returns:
  assumes "ahci_ready s" "port_type drive = Port_Sata" "drive_answers (io_env s)"
  shows "\<exists>r. ahci_drive_command_read_wait drive lba count buf s = Some r"
  using assms(1,2)
proof (cases rule: read_wait_cases [where lba = lba and count = count and buf = buf])
  case (issued es)
  obtain j where "drive_failed (io_env s) (length (io_log s @ es)) j \<or> drive_finished (io_env s) (length (io_log s @ es)) j"
    using assms(3) unfolding drive_answers_def by blast
  then show ?thesis
    using issued wait_done_returns [of "emits es (s\<lparr>heap_bytes := read_command lba count buf (header_address s) (heap_bytes s)\<rparr>)"]
    by auto
qed blast

lemma read_wait_memory:
  assumes "ahci_ready s" "port_type drive = Port_Sata"
    and ret: "ahci_drive_command_read_wait drive lba count buf s = Some (ok, t)"
  shows "heap_bytes t = read_command lba count buf (header_address s) (heap_bytes s)"
  using assms(1,2)
proof (cases rule: read_wait_cases [where lba = lba and count = count and buf = buf])
  case (busy es)
  then show ?thesis using ret by simp
next
  case (issued es)
  with ret wait_done_emits show ?thesis by fastforce
qed

lemma prdt_length_read:
  assumes "read_u32 m (p + 12) AND 0x3FFFFF = (n :: u32) * 512 AND 0x3FFFFF"
  shows "prdt_length m p = unat n * 512 mod 2 ^ 22 + 1"
proof -
  have m: "(0x3FFFFF :: u32) = mask 22" by (simp add: mask_eq_exp_minus_1)
  have a: "unat (x AND 0x3FFFFF) = unat x mod 2 ^ 22" for x :: u32
    unfolding m by (simp add: take_bit_eq_mask [symmetric] take_bit_eq_mod unat_mod)
  have "unat (n * 512) mod 2 ^ 22 = unat n * 512 mod 2 ^ 22"
    by (simp add: unat_word_ariths mod_mod_cancel)
  then show ?thesis using a [of "read_u32 m (p + 12)"] a [of "n * 512"] assms by (simp add: prdt_length_def)
qed

lemma read_command_fields:
  fixes m :: mem and header :: u64
  defines "t \<equiv> table_address m header"
  shows "fis_lba (read_command lba n buf header m) t = unat lba mod 2 ^ 24 + 2 ^ 24 * (unat lba div 2 ^ 32 mod 2 ^ 24)"
    "fis_count (read_command lba n buf header m) t = unat n mod 2 ^ 16"
    "read_u64 (read_command lba n buf header m) (t + 0x80) = buf"
    "prdt_length (read_command lba n buf header m) (t + 0x80) = unat n * 512 mod 2 ^ 22 + 1"
proof -
  obtain m' where c: "read_command lba n buf header m = ahci_read_fis lba n t (ahci_read_prdt buf n (t + 0x80) m')"
    unfolding read_command_def Let_def table_address_kept t_def [symmetric] by blast
  note prdt = prdt_fields [of buf n "t + 0x80" m'] read_fis_prdt [of lba n t, unfolded add.assoc]
  show "fis_lba (read_command lba n buf header m) t = unat lba mod 2 ^ 24 + 2 ^ 24 * (unat lba div 2 ^ 32 mod 2 ^ 24)"
    "fis_count (read_command lba n buf header m) t = unat n mod 2 ^ 16"
    unfolding c by (rule read_fis_lba read_fis_count)+
  show "read_u64 (read_command lba n buf header m) (t + 0x80) = buf"
    using prdt split_halves [of buf] unfolding c read_u64_def by (simp add: add.assoc or.commute)
  show "prdt_length (read_command lba n buf header m) (t + 0x80) = unat n * 512 mod 2 ^ 22 + 1"
    using prdt unfolding c by (intro prdt_length_read) (simp add: add.assoc)
qed

text \<open>C29:
  When the drive answers, a read returns, and the command that it left in the table the controller was told of is this: the
  block count modulo \<open>2 ^ 16\<close> and the address of the buffer are those asked for, but the block number loses its bits 24
  to 31 and has the higher ones eight places too low, so that it is the one asked for exactly below \<open>2 ^ 24\<close> (8 GiB); and the
  length of the buffer is one byte more than the blocks have, since the field holds the length less one.
\<close>

theorem ahci_read_command_fields:
  assumes "ahci_ready s" "port_type drive = Port_Sata" and "drive_answers (io_env s)"
  shows "\<exists>ok t. ahci_drive_command_read_wait drive lba count buf s = Some (ok, t) \<and>
    (let table = table_address (heap_bytes s) (header_address s); m = heap_bytes t in
      fis_lba m table = unat lba mod 2 ^ 24 + 2 ^ 24 * (unat lba div 2 ^ 32 mod 2 ^ 24) \<and>
      (unat lba < 2 ^ 48 \<longrightarrow> (fis_lba m table = unat lba \<longleftrightarrow> unat lba < 2 ^ 24)) \<and>
      fis_count m table = unat count mod 2 ^ 16 \<and> read_u64 m (table + 0x80) = buf \<and>
      prdt_length m (table + 0x80) = unat count * 512 mod 2 ^ 22 + 1)"
proof -
  from read_wait_returns [OF assms, of lba count buf] obtain ok t where ret: "ahci_drive_command_read_wait drive lba count buf s = Some (ok, t)"
    by auto
  show ?thesis
    using ret lba_survives [of "unat lba"]
    unfolding Let_def read_wait_memory [OF assms(1,2) ret, symmetric] read_command_fields [of _ _ _ _ "heap_bytes s"]
    by (intro exI [of _ ok] exI [of _ t]) (simp only: read_wait_memory [OF assms(1,2) ret] read_command_fields, blast)
qed

section \<open>A sample drive\<close>

definition small_disk :: "(nat \<Rightarrow> u64) \<Rightarrow> ahci_state" where
  "small_disk env = small_shell\<lparr>io_env := env, ahci_driver_loaded := True, halt_wakes := (\<lambda>_. True),
     drive_handles := (\<lambda>_. \<lparr>port_hba = 0xFEBF0100, port_number = 0, port_type = Port_Sata\<rparr>)\<rparr>"

lemma small_disk_sel [simp]:
  "ahci_ready (small_disk env)" "io_env (small_disk env) = env" "io_log (small_disk env) = []"
  "halt_wakes (small_disk env) = (\<lambda>_. True)"
  "drive_handles (small_disk env) = (\<lambda>_. \<lparr>port_hba = 0xFEBF0100, port_number = 0, port_type = Port_Sata\<rparr>)"
  by (simp_all add: small_disk_def ahci_ready_def)

text \<open>A drive that is always busy, and one that reads at once.\<close>

lemma ahci_read_wait_outcome_witness:
  "(\<exists>t. ahci_drive_command_read_wait (drive_handles (small_disk (\<lambda>_. 0x80)) 0) 5 1 0x8000 (small_disk (\<lambda>_. 0x80)) =
      Some (False, t) \<and> length (io_log t) = 3 + 0x100002) \<and>
   (\<exists>t. ahci_drive_command_read_wait (drive_handles (small_disk (\<lambda>_. 0)) 0) 5 1 0x8000 (small_disk (\<lambda>_. 0)) =
      Some (True, t) \<and> filter is_write (io_log t) = [Wr32 0xFEBF0110 (-1), Wr32 0xFEBF0138 1])"
proof
  let ?d = "drive_handles (small_disk (\<lambda>_. 0x80)) 0"
  have "drive_busy (\<lambda>_. 0x80) i" for i by (simp add: drive_busy_def)
  then show "\<exists>t. ahci_drive_command_read_wait ?d 5 1 0x8000 (small_disk (\<lambda>_. 0x80)) =
      Some (False, t) \<and> length (io_log t) = 3 + 0x100002"
    using ahci_read_wait_outcome [of "small_disk (\<lambda>_. 0x80)" ?d 5 1 "0x8000"] unfolding Let_def by auto
next
  let ?d = "drive_handles (small_disk (\<lambda>_. 0)) 0"
  let ?run = "ahci_drive_command_read_wait ?d 5 1 0x8000 (small_disk (\<lambda>_. 0))"
  have e: "\<not> drive_busy (\<lambda>_. 0) i" "\<not> drive_failed (\<lambda>_. 0) m i" "drive_finished (\<lambda>_. 0) m i" for i m
    by (simp_all add: drive_busy_def drive_failed_def drive_finished_def)
  note o = ahci_read_wait_outcome [of "small_disk (\<lambda>_. 0)" ?d 5 1 "0x8000", unfolded Let_def, THEN conjunct2,
      rule_format, of 0]
  obtain ok t where run: "?run = Some (ok, t)" using o e by auto
  then show "\<exists>t. ?run = Some (True, t) \<and> filter is_write (io_log t) = [Wr32 0xFEBF0110 (-1), Wr32 0xFEBF0138 1]"
    using o e by auto
qed

text \<open>Asked for block \<open>2 ^ 24\<close>, the drive reads block 0.\<close>

lemma ahci_read_command_fields_witness:
  "\<exists>ok t. ahci_drive_command_read_wait (drive_handles (small_disk (\<lambda>_. 0)) 0) 0x1000000 1 0x8000 (small_disk (\<lambda>_. 0)) =
     Some (ok, t) \<and>
   fis_lba (heap_bytes t) (table_address (heap_bytes (small_disk (\<lambda>_. 0))) (header_address (small_disk (\<lambda>_. 0)))) = 0"
proof -
  let ?s = "small_disk (\<lambda>_. 0)"
  have "drive_answers (io_env ?s)" by (simp add: drive_answers_def drive_finished_def)
  from ahci_read_command_fields [OF _ _ this, of "drive_handles ?s 0" "0x1000000" 1 "0x8000"]
  show ?thesis by (auto simp: Let_def)
qed

end
