(* ===== verification/Ahci_Ports.thy ===== *)
theory Ahci_Ports
  imports Ahci_Props Frames
begin

text \<open>
  Setting up the ports of the disk controller: the order of the accesses, and the memory that the
  command tables get.
\<close>

section \<open>Stopping and starting the command engine\<close>

definition reads_only :: "u64 \<Rightarrow> io_event list \<Rightarrow> bool" where
  "reads_only reg es \<longleftrightarrow> (\<forall>e \<in> set es. \<exists>v. e = Rd32 reg v)"

lemma reads_only_simps [simp]:
  "reads_only reg []" "reads_only reg (Rd32 reg v # es) \<longleftrightarrow> reads_only reg es"
  by (auto simp: reads_only_def)

lemma wait_stopped_step:
  "ahci_wait_stopped port s =
    (let r = port + port_command_status; n = length (io_log s); a = ucast (io_env s n); b = ucast (io_env s (Suc n)) in
     if \<not> halt_wakes s n then None
     else if a AND AHCI_HBA_PxCMD_FR \<noteq> 0 then ahci_wait_stopped port (emits [Rd32 r a] s)
     else if b AND AHCI_HBA_PxCMD_CR \<noteq> 0 then ahci_wait_stopped port (emits [Rd32 r a, Rd32 r b] s)
     else Some (emits [Rd32 r a, Rd32 r b] s))"
  by (subst ahci_wait_stopped.simps) (simp add: hlt_def mmio_emits Let_def)

lemma hlt_SomeD: "hlt s = Some t \<Longrightarrow> t = s"
  by (simp add: hlt_def split: if_splits)

lemma wait_stopped_emits:
  assumes ret: "ahci_wait_stopped port s = Some t"
  shows "\<exists>es a b. t = emits (es @ [Rd32 (port + port_command_status) a, Rd32 (port + port_command_status) b]) s \<and>
    reads_only (port + port_command_status) es \<and> a AND AHCI_HBA_PxCMD_FR = 0 \<and> b AND AHCI_HBA_PxCMD_CR = 0"
proof (rule ahci_wait_stopped.raw_induct [where P = "\<lambda>port s t. \<exists>es a b.
    t = emits (es @ [Rd32 (port + port_command_status) a, Rd32 (port + port_command_status) b]) s \<and>
    reads_only (port + port_command_status) es \<and> a AND AHCI_HBA_PxCMD_FR = 0 \<and> b AND AHCI_HBA_PxCMD_CR = 0", OF _ ret],
    goal_cases)
  case (1 f port s t)
  let ?r = "port + port_command_status" and ?n = "length (io_log s)"
  let ?a = "ucast (io_env s ?n) :: u32" and ?b = "ucast (io_env s (Suc ?n)) :: u32"
  have "hlt s = Some s" using 1(2) by (auto elim!: bind_SomeE dest: hlt_SomeD)
  note run = 1(2) [unfolded this Option.bind.simps mmio_emits Let_def case_prod_conv]
  consider "?a AND AHCI_HBA_PxCMD_FR \<noteq> 0" | "?a AND AHCI_HBA_PxCMD_FR = 0" "?b AND AHCI_HBA_PxCMD_CR \<noteq> 0"
    | "?a AND AHCI_HBA_PxCMD_FR = 0" "?b AND AHCI_HBA_PxCMD_CR = 0" by blast
  then show ?case
  proof cases
    case 1
    then have "f port (emits [Rd32 ?r ?a] s) = Some t"
      using run by simp
    from \<open>\<And>port s t. f port s = Some t \<Longrightarrow> _\<close> [OF this] show ?thesis
      by clarsimp (metis append_Cons reads_only_simps(2))
  next
    case 2
    then have "f port (emits [Rd32 ?r ?a, Rd32 ?r ?b] s) = Some t"
      using run by simp
    from \<open>\<And>port s t. f port s = Some t \<Longrightarrow> _\<close> [OF this] show ?thesis
      by clarsimp (metis append_Cons reads_only_simps(2))
  next
    case 3
    then have "t = emits ([] @ [Rd32 ?r ?a, Rd32 ?r ?b]) s"
      using run by simp
    then show ?thesis using 3 by (metis reads_only_simps(1))
  qed
qed

lemma wait_command_list_emits:
  assumes ret: "ahci_wait_command_list port s = Some t"
  shows "\<exists>es a. t = emits (es @ [Rd32 (port + port_command_status) a]) s \<and>
    reads_only (port + port_command_status) es \<and> a AND AHCI_HBA_PxCMD_CR = 0"
proof (rule ahci_wait_command_list.raw_induct [where P = "\<lambda>port s t. \<exists>es a.
    t = emits (es @ [Rd32 (port + port_command_status) a]) s \<and>
    reads_only (port + port_command_status) es \<and> a AND AHCI_HBA_PxCMD_CR = 0", OF _ ret], goal_cases)
  case (1 f port s t)
  let ?r = "port + port_command_status"
  let ?a = "ucast (io_env s (length (io_log s))) :: u32"
  show ?case
  proof (cases "?a AND AHCI_HBA_PxCMD_CR = 0")
    case True
    then have "t = emits ([] @ [Rd32 ?r ?a]) s" using 1(2) unfolding mmio_emits Let_def case_prod_conv by simp
    then show ?thesis using True by (metis reads_only_simps(1))
  next
    case False
    then have "f port (emits [Rd32 ?r ?a] s) = Some t"
      using 1(2) unfolding mmio_emits Let_def case_prod_conv by (auto elim!: bind_SomeE dest: hlt_SomeD)
    from 1(1) [OF this] show ?thesis by clarsimp (metis append_Cons reads_only_simps(2))
  qed
qed

text \<open>From some access on the controller reports that the engine is stopped.\<close>

definition engine_stops :: "(nat \<Rightarrow> u64) \<Rightarrow> nat \<Rightarrow> bool" where
  "engine_stops env m \<longleftrightarrow>
     (\<forall>i \<ge> m. (ucast (env i) :: u32) AND AHCI_HBA_PxCMD_FR = 0 \<and> (ucast (env i) :: u32) AND AHCI_HBA_PxCMD_CR = 0)"

text \<open>Here every \<open>hlt\<close> is ended by an interrupt.\<close>

definition halts_wake :: "'z ahci_state_scheme \<Rightarrow> bool" where
  "halts_wake s \<longleftrightarrow> (\<forall>n. halt_wakes s n)"

lemma halts_wake_emits [simp]: "halts_wake (emits es s) = halts_wake s"
  by (simp add: halts_wake_def emits_def)

lemma hlt_wakes: "halts_wake s \<Longrightarrow> hlt s = Some s"
  by (simp add: hlt_def halts_wake_def)

lemma wait_stopped_returns:
  "engine_stops (io_env s) m \<Longrightarrow> halts_wake s \<Longrightarrow> ahci_wait_stopped port s \<noteq> None"
proof (induction "m - length (io_log s)" arbitrary: s rule: less_induct)
  case less
  let ?a = "ucast (io_env s (length (io_log s))) :: u32" and ?b = "ucast (io_env s (Suc (length (io_log s)))) :: u32"
  let ?r = "port + port_command_status"
  show ?case
  proof (cases "m \<le> length (io_log s)")
    case True
    then show ?thesis
      using less.prems by (subst ahci_wait_stopped.simps) (simp add: hlt_wakes mmio_emits engine_stops_def)
  next
    case False
    then have "ahci_wait_stopped port (emits [Rd32 ?r ?a] s) \<noteq> None"
        "ahci_wait_stopped port (emits [Rd32 ?r ?a, Rd32 ?r ?b] s) \<noteq> None"
      using less.hyps [of "emits [Rd32 ?r ?a] s"] less.hyps [of "emits [Rd32 ?r ?a, Rd32 ?r ?b] s"] less.prems by simp_all
    then show ?thesis using less.prems(2) by (subst ahci_wait_stopped.simps) (simp add: hlt_wakes mmio_emits)
  qed
qed

lemma wait_command_list_returns:
  "engine_stops (io_env s) m \<Longrightarrow> halts_wake s \<Longrightarrow> ahci_wait_command_list port s \<noteq> None"
proof (induction "m - length (io_log s)" arbitrary: s rule: less_induct)
  case less
  let ?a = "ucast (io_env s (length (io_log s))) :: u32"
  let ?r = "port + port_command_status"
  show ?case
  proof (cases "m \<le> length (io_log s)")
    case True
    then show ?thesis
      using less.prems by (subst ahci_wait_command_list.simps) (simp add: mmio_emits engine_stops_def)
  next
    case False
    then have "ahci_wait_command_list port (emits [Rd32 ?r ?a] s) \<noteq> None"
      using less.hyps [of "emits [Rd32 ?r ?a] s"] less.prems by simp
    then show ?thesis using less.prems(2) by (subst ahci_wait_command_list.simps) (simp add: hlt_wakes mmio_emits)
  qed
qed

section \<open>What a port is told\<close>

text \<open>
  Stopping: start bit off, receive bit off, then reads of the status until the engine shows neither its
  receiving nor its running bit. Starting: reads until it does not run, receive bit on, start bit on.
\<close>

definition stop_log :: "u64 \<Rightarrow> io_event list \<Rightarrow> bool" where
  "stop_log reg es \<longleftrightarrow> (\<exists>v w polls a b.
     es = [Rd32 reg v, Wr32 reg (v AND NOT AHCI_HBA_PxCMD_ST), Rd32 reg w, Wr32 reg (w AND NOT AHCI_HBA_PxCMD_FRE)] @
       polls @ [Rd32 reg a, Rd32 reg b] \<and>
     reads_only reg polls \<and> a AND AHCI_HBA_PxCMD_FR = 0 \<and> b AND AHCI_HBA_PxCMD_CR = 0)"

definition start_log :: "u64 \<Rightarrow> io_event list \<Rightarrow> bool" where
  "start_log reg es \<longleftrightarrow> (\<exists>polls a v w.
     es = polls @ [Rd32 reg a, Rd32 reg v, Wr32 reg (v OR AHCI_HBA_PxCMD_FRE), Rd32 reg w,
       Wr32 reg (w OR AHCI_HBA_PxCMD_ST)] \<and>
     reads_only reg polls \<and> a AND AHCI_HBA_PxCMD_CR = 0)"

definition base_log :: "u64 \<Rightarrow> u64 \<Rightarrow> u64 \<Rightarrow> io_event list" where
  "base_log port cmd fis =
     [Wr32 (port + port_command_list_lower) (ucast cmd), Wr32 (port + port_command_list_upper) (ucast (drop_bit 32 cmd)),
      Wr32 (port + port_fis_lower) (ucast fis), Wr32 (port + port_fis_upper) (ucast (drop_bit 32 fis))]"

lemma port_change_emits:
  "\<exists>v. port_change reg keep on s = emits [Rd32 reg v, Wr32 reg ((v AND keep) OR on)] s"
  by (auto simp: port_change_def mmio_emits Let_def)

lemma command_stop_run:
  assumes "ahci_ready s"
  shows "\<exists>v w. ahci_drive_command_stop drive s =
    (let reg = port_hba drive + port_command_status
     in ahci_wait_stopped (port_hba drive) (emits [Rd32 reg v, Wr32 reg (v AND NOT AHCI_HBA_PxCMD_ST), Rd32 reg w,
          Wr32 reg (w AND NOT AHCI_HBA_PxCMD_FRE)] s))"
proof -
  let ?reg = "port_hba drive + port_command_status"
  obtain v where v: "port_change ?reg (NOT AHCI_HBA_PxCMD_ST) 0 s = emits [Rd32 ?reg v, Wr32 ?reg (v AND NOT AHCI_HBA_PxCMD_ST)] s"
    using port_change_emits [of ?reg "NOT AHCI_HBA_PxCMD_ST" 0 s] by auto
  obtain w where w: "port_change ?reg (NOT AHCI_HBA_PxCMD_FRE) 0 (emits [Rd32 ?reg v, Wr32 ?reg (v AND NOT AHCI_HBA_PxCMD_ST)] s) =
      emits [Rd32 ?reg w, Wr32 ?reg (w AND NOT AHCI_HBA_PxCMD_FRE)] (emits [Rd32 ?reg v, Wr32 ?reg (v AND NOT AHCI_HBA_PxCMD_ST)] s)"
    using port_change_emits [of ?reg "NOT AHCI_HBA_PxCMD_FRE" 0] by (metis or.right_neutral)
  show ?thesis
    using assms v w by (intro exI [of _ v] exI [of _ w]) (simp add: ahci_drive_command_stop_def Let_def)
qed

lemma command_stop_emits:
  assumes "ahci_ready s" and "ahci_drive_command_stop drive s = Some t"
  shows "\<exists>es. t = emits es s \<and> stop_log (port_hba drive + port_command_status) es"
proof -
  let ?reg = "port_hba drive + port_command_status"
  obtain v w where r: "ahci_wait_stopped (port_hba drive) (emits [Rd32 ?reg v, Wr32 ?reg (v AND NOT AHCI_HBA_PxCMD_ST),
      Rd32 ?reg w, Wr32 ?reg (w AND NOT AHCI_HBA_PxCMD_FRE)] s) = Some t"
    using command_stop_run [OF assms(1), of drive] assms(2) unfolding Let_def by auto
  from wait_stopped_emits [OF r] obtain es a b where "t = emits (([Rd32 ?reg v, Wr32 ?reg (v AND NOT AHCI_HBA_PxCMD_ST),
      Rd32 ?reg w, Wr32 ?reg (w AND NOT AHCI_HBA_PxCMD_FRE)] @ es @ [Rd32 ?reg a, Rd32 ?reg b])) s"
      "reads_only ?reg es" "a AND AHCI_HBA_PxCMD_FR = 0" "b AND AHCI_HBA_PxCMD_CR = 0"
    by auto
  then show ?thesis unfolding stop_log_def by blast
qed

lemma command_stop_returns:
  "ahci_ready s \<Longrightarrow> engine_stops (io_env s) m \<Longrightarrow> halts_wake s \<Longrightarrow> \<exists>t. ahci_drive_command_stop drive s = Some t"
  using command_stop_run [of s drive] wait_stopped_returns [of "emits _ s" m "port_hba drive"]
  by (auto simp: Let_def)

lemma command_start_emits:
  assumes "ahci_ready s" and "ahci_drive_command_start drive s = Some t"
  shows "\<exists>es. t = emits es s \<and> start_log (port_hba drive + port_command_status) es"
proof -
  let ?reg = "port_hba drive + port_command_status"
  obtain u where u: "ahci_wait_command_list (port_hba drive) s = Some u"
      "t = port_change ?reg (-1) AHCI_HBA_PxCMD_ST (port_change ?reg (-1) AHCI_HBA_PxCMD_FRE u)"
    using assms by (auto simp: ahci_drive_command_start_def Let_def bind_eq_Some_conv)
  obtain v where v: "port_change ?reg (-1) AHCI_HBA_PxCMD_FRE u = emits [Rd32 ?reg v, Wr32 ?reg (v OR AHCI_HBA_PxCMD_FRE)] u"
    using port_change_emits [of ?reg "-1" AHCI_HBA_PxCMD_FRE u] by auto
  obtain w where w: "port_change ?reg (-1) AHCI_HBA_PxCMD_ST (emits [Rd32 ?reg v, Wr32 ?reg (v OR AHCI_HBA_PxCMD_FRE)] u) =
      emits [Rd32 ?reg w, Wr32 ?reg (w OR AHCI_HBA_PxCMD_ST)] (emits [Rd32 ?reg v, Wr32 ?reg (v OR AHCI_HBA_PxCMD_FRE)] u)"
    using port_change_emits [of ?reg "-1" AHCI_HBA_PxCMD_ST] by (metis and.right_neutral)
  from wait_command_list_emits [OF u(1)] obtain es a where "u = emits (es @ [Rd32 ?reg a]) s"
      "reads_only ?reg es" "a AND AHCI_HBA_PxCMD_CR = 0" by blast
  then have "t = emits (es @ [Rd32 ?reg a, Rd32 ?reg v, Wr32 ?reg (v OR AHCI_HBA_PxCMD_FRE), Rd32 ?reg w,
      Wr32 ?reg (w OR AHCI_HBA_PxCMD_ST)]) s" "reads_only ?reg es" "a AND AHCI_HBA_PxCMD_CR = 0"
    using u(2) v w by simp_all
  then show ?thesis unfolding start_log_def by blast
qed

lemma command_start_returns:
  "ahci_ready s \<Longrightarrow> engine_stops (io_env s) m \<Longrightarrow> halts_wake s \<Longrightarrow> \<exists>t. ahci_drive_command_start drive s = Some t"
  using wait_command_list_returns [of s m "port_hba drive"] by (auto simp: ahci_drive_command_start_def Let_def)

section \<open>What the memory functions leave alone\<close>

text \<open>The part of the state that the disk driver and the devices have.\<close>

definition disk_same :: "'z ahci_state_scheme \<Rightarrow> 'z ahci_state_scheme \<Rightarrow> bool" where
  "disk_same s t \<longleftrightarrow> io_log t = io_log s \<and> io_env t = io_env s \<and> ahci_driver_loaded t = ahci_driver_loaded s \<and>
     drive_handles t = drive_handles s \<and> hba_mem_abar t = hba_mem_abar s \<and> halt_wakes t = halt_wakes s"

lemma disk_same_heap: "heap_state.more t = heap_state.more s \<Longrightarrow> disk_same s t"
  unfolding disk_same_def by (cases s rule: ahci_state.cases_scheme; cases t rule: ahci_state.cases_scheme) simp

lemma disk_same_pmm: "pmm_state.more t = pmm_state.more s \<Longrightarrow> disk_same s t"
  by (intro disk_same_heap heap_more_of_paging paging_more_of_pmm)

lemma disk_same_refl [simp]: "disk_same s s"
  by (simp add: disk_same_def)

lemma disk_same_trans: "disk_same s t \<Longrightarrow> disk_same t u \<Longrightarrow> disk_same s u"
  by (simp add: disk_same_def)

lemma disk_same_upd [simp]:
  "disk_same s (t\<lparr>heap_bytes := m\<rparr>) = disk_same s t" "disk_same s (t\<lparr>pools := ps\<rparr>) = disk_same s t"
  "disk_same s (t\<lparr>pmm_pools := p\<rparr>) = disk_same s t" "disk_same s (clear_heap_area a n t) = disk_same s t"
  "disk_same (s\<lparr>heap_bytes := m\<rparr>) t = disk_same s t" "disk_same (s\<lparr>pools := ps\<rparr>) t = disk_same s t"
  "disk_same (s\<lparr>pmm_pools := p\<rparr>) t = disk_same s t" "disk_same (clear_heap_area a n s) t = disk_same s t"
  by (simp_all add: disk_same_def clear_heap_area_def)

lemma pool_put_same: "pool_put f p s = Some t \<Longrightarrow> disk_same s t"
  by (auto simp: pool_put_def split: if_splits)

lemma pool_new_record_same: "pool_new_record s = Some (p, t) \<Longrightarrow> disk_same s t"
  unfolding pool_new_record_def Let_def
  by (auto elim!: bind_SomeE split: if_splits dest!: heap_malloc_more [THEN disk_same_heap] pool_put_same)
    (meson disk_same_trans)+

lemma pmm_alloc_pool_same: "pmm_alloc_pool n s = Some (b, t) \<Longrightarrow> disk_same s t"
  unfolding pmm_alloc_pool_def
  by (auto elim!: bind_SomeE split: if_splits dest!: pool_new_record_same pool_put_same
      pmm_lock_pages_more(1) [THEN disk_same_pmm] pmm_recombine_more [THEN disk_same_pmm])
    (meson disk_same_trans)+

lemma ahci_clear_page_same: "ahci_clear_page p s = Some t \<Longrightarrow> disk_same s t"
  by (auto simp: ahci_clear_page_def split: if_splits)

section \<open>Configuring a port\<close>

definition port_present :: "nat \<Rightarrow> 'z ahci_state_scheme \<Rightarrow> bool" where
  "port_present p s \<longleftrightarrow> ahci_ready s \<and> port_hba (drive_handles s p) \<noteq> 0 \<and>
     port_type (drive_handles s p) \<noteq> Port_None \<and> port_number (drive_handles s p) = of_nat p"

abbreviation tables_clear :: "u64 \<Rightarrow> 'z heap_state_scheme \<Rightarrow> 'z heap_state_scheme option" where
  "tables_clear tables s \<equiv>
     (if tables = 0 then None else Some (s\<lparr>heap_bytes := memset (heap_bytes s) tables 0 0x2000\<rparr>))"

abbreviation link_headers :: "u64 \<Rightarrow> u64 \<Rightarrow> mem \<Rightarrow> mem" where
  "link_headers cmd tables m \<equiv> fold (ahci_link_header cmd tables 0x100) [0..<AHCI_CMD_HEADERS_PER_LIST] m"

lemma configure_run:
  assumes "port_present p s"
  shows "ahci_controller_configure_port p s = do {
    let drive = drive_handles s p;
    s \<leftarrow> ahci_drive_command_stop drive s;
    (cmd, s) \<leftarrow> pmm_alloc_page s;
    (fis, s) \<leftarrow> pmm_alloc_page s;
    s \<leftarrow> ahci_clear_page cmd s;
    s \<leftarrow> ahci_clear_page fis s;
    (tables, s) \<leftarrow> pmm_alloc_pool 0 (emits (base_log (port_hba drive) cmd fis) s);
    s \<leftarrow> tables_clear tables s;
    ahci_drive_command_start drive (s\<lparr>heap_bytes := link_headers cmd tables (heap_bytes s)\<rparr>) }"
  using assms
  by (simp add: ahci_controller_configure_port_def port_present_def Let_def mmio_emits base_log_def cong: if_cong)

lemma emits_same: "disk_same s t \<Longrightarrow> io_log t = io_log s"
  by (simp add: disk_same_def)

lemma configure_log:
  assumes "port_present p s" and "ahci_controller_configure_port p s = Some t"
  shows "let port = port_hba (drive_handles s p) in
    \<exists>stop start cmd fis. stop_log (port + port_command_status) stop \<and> start_log (port + port_command_status) start \<and>
      cmd \<noteq> 0 \<and> fis \<noteq> 0 \<and> io_log t = io_log s @ stop @ base_log port cmd fis @ start"
proof -
  let ?d = "drive_handles s p"
  have ready: "ahci_ready s" using assms(1) by (simp add: port_present_def)
  from assms(2) obtain s1 cmd s2 fis s3 s4 s5 tables s6 where
    s1: "ahci_drive_command_stop ?d s = Some s1" and s2: "pmm_alloc_page s1 = Some (cmd, s2)"
    and s3: "pmm_alloc_page s2 = Some (fis, s3)" and s4: "ahci_clear_page cmd s3 = Some s4"
    and s5: "ahci_clear_page fis s4 = Some s5"
    and s6: "pmm_alloc_pool 0 (emits (base_log (port_hba ?d) cmd fis) s5) = Some (tables, s6)"
    and t: "ahci_drive_command_start ?d (s6\<lparr>heap_bytes := link_headers cmd tables (memset (heap_bytes s6) tables 0 0x2000)\<rparr>) = Some t"
    unfolding configure_run [OF assms(1)] Let_def by (auto elim!: bind_SomeE split: if_splits)
  from command_stop_emits [OF ready s1] obtain stop where
    stop: "s1 = emits stop s" "stop_log (port_hba ?d + port_command_status) stop" by blast
  have same: "disk_same s1 s2" "disk_same s2 s3" "disk_same s3 s4" "disk_same s4 s5"
      "disk_same (emits (base_log (port_hba ?d) cmd fis) s5) s6"
    by (rule pmm_alloc_page_more [OF s2, THEN disk_same_pmm] pmm_alloc_page_more [OF s3, THEN disk_same_pmm]
        ahci_clear_page_same [OF s4] ahci_clear_page_same [OF s5] pmm_alloc_pool_same [OF s6])+
  have "disk_same s1 s5" using same(1-4) by (meson disk_same_trans)
  then have log: "io_log s6 = io_log s @ stop @ base_log (port_hba ?d) cmd fis" "ahci_ready s6"
    using same(5) stop(1) ready by (simp_all add: disk_same_def ahci_ready_def) (simp_all add: emits_def)
  from command_start_emits [OF _ t] log(2) obtain start where
    "t = emits start (s6\<lparr>heap_bytes := link_headers cmd tables (memset (heap_bytes s6) tables 0 0x2000)\<rparr>)"
    "start_log (port_hba ?d + port_command_status) start" by (auto simp: ahci_ready_def)
  then have "io_log t = io_log s @ stop @ base_log (port_hba ?d) cmd fis @ start" using log(1) by simp
  moreover have "cmd \<noteq> 0" "fis \<noteq> 0" using s4 s5 by (auto simp: ahci_clear_page_def split: if_splits)
  ultimately show ?thesis using stop(2) \<open>start_log _ start\<close> unfolding Let_def by blast
qed

section \<open>The set-up of all ports\<close>

definition halts_forever :: "'z ahci_state_scheme \<Rightarrow> bool" where
  "halts_forever s \<longleftrightarrow> (\<forall>n. \<not> halt_wakes s n)"

lemma configure_port_halts:
  assumes "halts_forever s"
  shows "ahci_controller_configure_port p s = (if port_present p s then None else Some s)"
proof (cases "port_present p s")
  case True
  then have "ahci_drive_command_stop (drive_handles s p) s = None"
    using command_stop_run [of s "drive_handles s p"] assms
    by (auto simp: port_present_def wait_stopped_step Let_def halts_forever_def emits_def)
  then show ?thesis using True by (simp add: configure_run Let_def)
next
  case False
  then show ?thesis by (auto simp: ahci_controller_configure_port_def port_present_def Let_def)
qed

lemma configure_ports_halt:
  "halts_forever s \<Longrightarrow> for_each ahci_controller_configure_port ps s =
    (if \<exists>p \<in> set ps. port_present p s then None else Some s)"
  by (induction ps) (auto simp: configure_port_halts)

lemma register_port_halts: "halts_forever (ahci_controller_register_port p s) = halts_forever s"
  by (simp add: ahci_controller_register_port_def ahci_controller_classify_port_def mmio_emits Let_def
      halts_forever_def) (simp add: emits_def)

lemma probe_ports_halts: "halts_forever (ahci_controller_probe_ports s) = halts_forever s"
proof -
  have "halts_forever (fold (\<lambda>i s. if bit v i then ahci_controller_register_port i s else s) ps s) = halts_forever s"
    for v :: u32 and ps and s :: "'a ahci_state_scheme"
    by (induction ps arbitrary: s) (auto simp: register_port_halts)
  moreover have "halts_forever (emits es s) = halts_forever s" for es by (simp add: halts_forever_def emits_def)
  ultimately show ?thesis by (simp add: ahci_controller_probe_ports_def mmio_emits Let_def)
qed

text \<open>C26:
  The disk driver is loaded in the handler of the serial interrupt, where no interrupt ends a \<open>hlt\<close>. There its
  set-up never returns when any port has a drive, whatever the controller answers, because it halts before the first look
  at the status of the engine; it returns exactly when the probe found no port with a drive, and changes nothing then but
  what the probe did.
\<close>

theorem ahci_setup_never_returns:
  assumes "\<forall>n. \<not> halt_wakes s n" and "\<not> ports_configured s"
  shows "ahci_controller_configure_all_ports s =
    (let u = ahci_controller_probe_ports s in
     if \<exists>p < 32. port_present p u then None else Some (u\<lparr>ports_configured := True\<rparr>))"
proof -
  have "halts_forever (ahci_controller_probe_ports s)"
    using assms(1) by (simp add: probe_ports_halts) (simp add: halts_forever_def)
  from configure_ports_halt [OF this, of "[0..<32]"] assms(2) show ?thesis
    by (auto simp: ahci_controller_configure_all_ports_def Let_def)
qed

lemma small_shell_disk:
  "halt_wakes small_shell = (\<lambda>_. False)" "\<not> ports_configured small_shell" "io_log small_shell = []"
  "drive_handles small_shell = (\<lambda>_. \<lparr>port_hba = 0, port_number = 0, port_type = Port_None\<rparr>)"
  by (simp_all add: small_shell_def pci_state.defs uart_state.defs ps2_state.defs small_ps2_def
      call_state.defs small_call_def sched_state.defs small_sched_def tss_state.defs small_tss_def
      pool_state.defs apic_state.defs small_apic_def machine_state.defs small_machine_def
      heap_state.defs small_heap_def paging_state.defs)

text \<open>A controller with a disk at port 0, and one without ports.\<close>

lemma ahci_setup_never_returns_witness:
  "ahci_controller_configure_all_ports (small_shell\<lparr>ahci_driver_loaded := True, hba_mem_abar := 0xFEBF0000,
     io_env := (\<lambda>n. if n = 0 then 1 else if n = 1 then 0x113 else 0x101)\<rparr>) = None \<and>
   ahci_controller_configure_all_ports (small_shell\<lparr>ahci_driver_loaded := True, hba_mem_abar := 0xFEBF0000,
     io_env := (\<lambda>_. 0)\<rparr>) \<noteq> None"
proof
  let ?s = "small_shell\<lparr>ahci_driver_loaded := True, hba_mem_abar := 0xFEBF0000,
     io_env := (\<lambda>n. if n = 0 then 1 else if n = 1 then 0x113 else 0x101)\<rparr>"
  have "port_present 0 (ahci_controller_probe_ports ?s)"
    by (simp add: port_present_def ahci_controller_probe_ports_def ahci_controller_register_port_def
        ahci_controller_classify_port_def ahci_port_type_def ahci_ready_def mmio_emits upt_rec)
      (simp add: emits_def)
  then have "\<exists>p < 32. port_present p (ahci_controller_probe_ports ?s)" by force
  then show "ahci_controller_configure_all_ports ?s = None"
    using ahci_setup_never_returns [of ?s] small_shell_disk by (simp add: Let_def)
next
  let ?s = "small_shell\<lparr>ahci_driver_loaded := True, hba_mem_abar := 0xFEBF0000, io_env := (\<lambda>_. 0)\<rparr>"
  have "fold (\<lambda>i s. s) xs s = s" for xs :: "nat list" and s :: "ahci_state" by (induction xs) auto
  then have "drive_handles (ahci_controller_probe_ports ?s) = drive_handles small_shell"
    by (simp add: ahci_controller_probe_ports_def mmio_emits ahci_ready_def emits_def del: upt.simps upt_rec_numeral)
  then have "\<not> port_present p (ahci_controller_probe_ports ?s)" for p by (simp add: port_present_def small_shell_disk)
  then show "ahci_controller_configure_all_ports ?s \<noteq> None"
    using ahci_setup_never_returns [of ?s] small_shell_disk by (simp add: Let_def)
qed

end
