(* ===== verification/Ahci_Tables.thy ===== *)
theory Ahci_Tables
  imports Ahci_Ports
begin

text \<open>
  The memory of the command tables of a port.
\<close>

section \<open>A pool of no pages\<close>

lemma pool_last_cong:
  assumes ret: "pool_last p s = Some q" and same: "pools s' = pools s"
  shows "pool_last p s' = Some q"
proof -
  have "pools s' = pools s \<longrightarrow> pool_last p s' = Some q"
  proof (rule pool_last.raw_induct [where P = "\<lambda>p s q. pools s' = pools s \<longrightarrow> pool_last p s' = Some q", OF _ ret],
      goal_cases)
    case (1 f p s q)
    show ?case
    proof
      assume p: "pools s' = pools s"
      show "pool_last p s' = Some q"
        using 1 p by (subst pool_last.simps) (auto split: if_splits)
    qed
  qed
  then show ?thesis using same by simp
qed

lemma pool_last_nonzero:
  assumes ret: "pool_last p s = Some q" shows "q \<noteq> 0"
proof (rule pool_last.raw_induct [where P = "\<lambda>p s q. q \<noteq> 0", OF _ ret], goal_cases)
  case (1 f p s q)
  then show ?case by (auto split: if_splits)
qed

text \<open>Room for one more pool record: a free block of the heap, and the chain of pools has an end.\<close>

definition pool_room :: "u64 list \<Rightarrow> 'z pool_state_scheme \<Rightarrow> bool" where
  "pool_room segs s \<longleftrightarrow> heap_wf segs s \<and>
     (\<exists>a \<in> set segs. seg_free (headers s a) \<and> heap_round_size sizeof_pmm_pool \<le> seg_length (headers s a)) \<and>
     (pmm_pools s \<noteq> 0 \<longrightarrow> (\<exists>q. pool_last (pmm_pools s) s = Some q))"

lemma pool_room_cong:
  assumes "pool_room segs s" and "heap_initialized t = heap_initialized s" "heap_start t = heap_start s"
    "heap_end t = heap_end s" "last_header t = last_header s" "headers t = headers s" "pmm_pools t = pmm_pools s"
    "pools t = pools s"
  shows "pool_room segs t"
proof -
  have "heap_wf segs t = heap_wf segs s" using assms(2-6) by (simp add: heap_wf_def heap_tiled_def)
  then show ?thesis using assms pool_last_cong [of "pmm_pools s" s _ t] unfolding pool_room_def by auto
qed

lemma pool_record_run:
  assumes "pool_room segs s"
  shows "\<exists>p t. pool_new_record s = Some (p, t) \<and> p \<noteq> 0 \<and> pmm_state.truncate t = pmm_state.truncate s"
proof -
  obtain a where a: "a \<in> set segs" "seg_free (headers s a)" "heap_round_size sizeof_pmm_pool \<le> seg_length (headers s a)"
    and wf: "heap_wf segs s" using assms by (auto simp: pool_room_def)
  have "heap_round_size sizeof_pmm_pool \<noteq> 0" by (simp add: heap_round_size_def)
  from malloc_returns_fresh_block [OF wf a this] obtain p s' segs' m where
    m: "heap_malloc sizeof_pmm_pool s = Some (p, s')" "heap_frame s s'" "used_blocks segs' s' = insert (unat p, m) (used_blocks segs s)"
    by blast
  then have "(unat p, m) \<in> used_blocks segs' s'" by simp
  then have p: "p \<noteq> 0" by (auto simp: used_blocks_def)
  have t: "pmm_state.truncate s' = pmm_state.truncate s" using m(2) by (simp add: heap_frame_def pmm_state.defs)
  show ?thesis
  proof (cases "pmm_pools s = 0")
    case True
    then show ?thesis
      using m(1) p t by (simp add: pool_new_record_def pool_put_def clear_heap_area_def Let_def pmm_state.defs)
  next
    case False
    then obtain q where "pool_last (pmm_pools s) s = Some q" using assms by (auto simp: pool_room_def)
    then show ?thesis
      using m(1) p t False pool_last_nonzero by (auto simp: pool_new_record_def pool_put_def pmm_state.defs)
  qed
qed

text \<open>It is the start of the first free section, and no page changes its state.\<close>

lemma pool_of_no_pages:
  assumes wf: "pmm_wf is s" "pfa_allowing_allocations s" and room: "pool_room segs s"
    and i: "List.find (\<lambda>i. sec_free (slots s i) = PMM_SECTION_FREE) is = Some i"
  shows "\<exists>t. pmm_alloc_pool 0 s = Some (sec_start (slots s i), t) \<and> pmm_state.truncate t = pmm_state.truncate s"
proof -
  from pool_record_run [OF room] obtain p s1 where
    rec: "pool_new_record s = Some (p, s1)" "p \<noteq> 0" "pmm_state.truncate s1 = pmm_state.truncate s" by blast
  obtain s2 where s2: "pool_put (pool_pages_update (\<lambda>_. 0)) p s1 = Some s2" "pools s2 p = (pools s1 p)\<lparr>pool_pages := 0\<rparr>"
    using rec(2) by (auto simp: pool_put_def)
  obtain s3 where s3: "pool_put (pool_base_update (\<lambda>_. sec_start (slots s i))) p s2 = Some s3"
      "pool_pages (pools s3 p) = 0"
    using rec(2) s2(2) by (auto simp: pool_put_def)
  have m2: "pmm_state.truncate s2 = pmm_state.truncate s" using pool_put_memory [OF s2(1)] rec(3) by simp
  have m3: "pmm_state.truncate s3 = pmm_state.truncate s" using pool_put_memory [OF s3(1)] m2 by simp
  note f2 = same_memory_fields [OF m2]
  have links: "dseg (slots s2) None is None" "pmm_sections s2 = hd_ptr is None"
    using wf(1) f2 by (simp_all add: pmm_wf_def pmm_links_def)
  have "(\<lambda>i. pool_fits 0 (slots s2 i)) = (\<lambda>i. sec_free (slots s i) = PMM_SECTION_FREE)"
    by (simp add: pool_fits_def f2)
  then have find: "find_free_section (pmm_sections s2) 0 s2 = Some (Some i)"
    using find_free_section_run [OF links(1), of 0] links(2) i by simp
  have "pmm_alloc_pool 0 s = Some (sec_start (slots s i), s3)"
    using wf(2) rec(1) s2(1) s3 find f2(3) by (simp add: pmm_alloc_pool_def pmm_lock_pages_def)
  then show ?thesis using m3 by blast
qed

section \<open>The command headers\<close>

lemma word_diff: "y \<le> x \<Longrightarrow> (c :: u64) + of_nat x - (c + of_nat y) = of_nat (x - y)"
  by (simp add: of_nat_diff)

lemma offset_before:
  assumes "x < y" "y < 2 ^ 63"
  shows "unat ((c :: u64) + of_nat x - (c + of_nat y)) = 2 ^ 64 - (y - x)"
proof -
  have "c + of_nat x - (c + of_nat y) = - (of_nat (y - x) :: u64)"
    using word_diff [of x y c] assms(1) by (metis less_imp_le minus_diff_eq)
  moreover have "unat (of_nat (y - x) :: u64) = y - x" using assms by (intro unat_of_nat_nowrap) simp
  ultimately show ?thesis using unat_sub_if' [of 0 "of_nat (y - x) :: u64"] assms(1) by (simp only: diff_0) (simp add: word_size)
qed

text \<open>Four bytes are not changed by writing behind them.\<close>

lemma read_u32_before:
  assumes "x + 4 \<le> y" "y < 2 ^ 63"
  shows "read_u32 (write_bytes m (c + of_nat y) v 4) (c + of_nat x) = read_u32 m (c + of_nat x)"
    and "read_u32 (m(c + of_nat y := w)) (c + of_nat x) = read_u32 m (c + of_nat x)"
proof -
  have "unat (c + of_nat x - (c + of_nat y)) = 2 ^ 64 - (y - x)" using offset_before [of x y c] assms by simp
  then show "read_u32 (write_bytes m (c + of_nat y) v 4) (c + of_nat x) = read_u32 m (c + of_nat x)"
    using assms by (intro read_u32_write_bytes; simp)
  have "unat (c + of_nat y - (c + of_nat x)) = y - x"
    using word_diff [of x y c] assms by (simp only:) (intro unat_of_nat_nowrap; simp)
  then show "read_u32 (m(c + of_nat y := w)) (c + of_nat x) = read_u32 m (c + of_nat x)"
    using assms by (intro read_u32_update) linarith
qed

lemma link_header_other:
  assumes "x + 4 \<le> 32 * i" "i < 32"
  shows "read_u32 (ahci_link_header cmd tables tsize i m) (cmd + of_nat x) = read_u32 m (cmd + of_nat x)"
proof -
  define a b c d where "a = 32 * i + 2" and "b = 32 * i + 3" and "c = 32 * i + 8" and "d = 32 * i + 12"
  have at: "cmd + sizeof_command_header * of_nat i + 2 = cmd + of_nat a" "cmd + of_nat a + 1 = cmd + of_nat b"
      "cmd + sizeof_command_header * of_nat i + 8 = cmd + of_nat c"
      "cmd + sizeof_command_header * of_nat i + 12 = cmd + of_nat d"
    by (simp_all add: a_def b_def c_def d_def)
  have "ahci_link_header cmd tables tsize i m =
      write_bytes (write_bytes (m(cmd + of_nat a := ucast DESIRED_PRDT_LENGTH,
          cmd + of_nat b := ucast (drop_bit 8 DESIRED_PRDT_LENGTH)))
        (cmd + of_nat c) (tables + of_nat i * tsize) 4)
      (cmd + of_nat d) (drop_bit 32 (tables + of_nat i * tsize)) 4"
    unfolding ahci_link_header_def write_u16_def Let_def at by (simp only: mult.commute)
  moreover have "x + 4 \<le> a" "x + 4 \<le> b" "x + 4 \<le> c" "x + 4 \<le> d" "a < 2 ^ 63" "b < 2 ^ 63" "c < 2 ^ 63" "d < 2 ^ 63"
    using assms by (simp_all add: a_def b_def c_def d_def)
  ultimately show ?thesis by (simp only: read_u32_before)
qed

lemma link_header_own: "table_address (ahci_link_header cmd tables tsize i m) (cmd + of_nat (32 * i)) = tables + of_nat i * tsize"
proof -
  let ?p = "cmd + of_nat (32 * i)" and ?t = "tables + of_nat i * tsize"
  have h: "ahci_link_header cmd tables tsize i m =
      write_bytes (write_bytes (write_u16 m (?p + 2) DESIRED_PRDT_LENGTH) (?p + 8) ?t 4) (?p + 12) (drop_bit 32 ?t) 4"
    by (simp add: ahci_link_header_def Let_def)
  show ?thesis
    unfolding h table_address_def using split_halves [of ?t]
    by (simp add: read_write_bytes read_u32_write_bytes or.commute)
qed

lemma link_headers_table:
  assumes "k \<le> 32" "i < k"
  shows "table_address (fold (ahci_link_header cmd tables tsize) [0..<k] m) (cmd + of_nat (32 * i)) = tables + of_nat i * tsize"
  using assms
proof (induction k)
  case (Suc k)
  show ?case
  proof (cases "i = k")
    case True
    then show ?thesis by (simp add: link_header_own del: of_nat_mult)
  next
    case False
    then have "i < k" using Suc.prems by simp
    let ?m = "fold (ahci_link_header cmd tables tsize) [0..<k] m"
    have "table_address (ahci_link_header cmd tables tsize k ?m) (cmd + of_nat (32 * i)) =
        table_address ?m (cmd + of_nat (32 * i))"
      using link_header_other [of "32 * i + 8" k cmd tables tsize ?m] link_header_other [of "32 * i + 12" k cmd tables tsize ?m]
        \<open>i < k\<close> Suc.prems(1)
      by (simp add: table_address_def add.assoc)
    then show ?thesis using Suc \<open>i < k\<close> by simp
  qed
qed simp

section \<open>The set-up of a port\<close>

lemma more_fields:
  assumes "pmm_state.more t = pmm_state.more (s :: 'z ahci_state_scheme)"
  shows "heap_initialized t = heap_initialized s" "heap_start t = heap_start s" "heap_end t = heap_end s"
    "last_header t = last_header s" "headers t = headers s" "pmm_pools t = pmm_pools s" "pools t = pools s"
  using assms by (cases s rule: ahci_state.cases_scheme; cases t rule: ahci_state.cases_scheme; simp)+

lemma same_memory_first: "pmm_state.truncate t = pmm_state.truncate s \<Longrightarrow> first_free is t a n = first_free is s a n"
  using same_memory_fields(3) [of t s] by (simp add: first_free_def)

lemma first_free_bounds:
  assumes "pmm_wf is s" and "first_free is s a n"
  shows "a \<noteq> 0" and "unat a + 4096 * unat n < 2 ^ 64"
proof -
  obtain x where x: "List.find (\<lambda>i. sec_free (slots s i) = PMM_SECTION_FREE) is = Some x"
      "sec_start (slots s x) = a" "sec_pages (slots s x) = n" using assms(2) by (auto simp: first_free_def)
  from find_split [OF x(1)] obtain as bs where sp: "is = as @ x # bs" "sec_free (slots s x) = PMM_SECTION_FREE" by blast
  have c: "unat a = chain_end 0 (secs (slots s) as)"
      "chain_end (unat a + 4096 * unat n) (secs (slots s) bs) < 2 ^ 64"
    using assms(1) x(2,3) by (simp_all add: pmm_wf_def tiles_def sp(1))
  have "as \<noteq> []" using assms(1) sp(2) by (auto simp: sp(1) pmm_wf_def first_mib_def)
  then have "0 < chain_end 0 (secs (slots s) as)"
    using assms(1) by (intro chain_end_pos) (simp_all add: pmm_wf_def first_mib_def sp(1) hd_append)
  then show "a \<noteq> 0" using c(1) by auto
  show "unat a + 4096 * unat n < 2 ^ 64"
    using c(2) chain_end_ge [of "unat a + 4096 * unat n" "secs (slots s) bs"] by simp
qed

lemma pool_at_first:
  assumes "pmm_wf is s" "pfa_allowing_allocations s" "pool_room segs s" "first_free is s a n"
  shows "\<exists>t. pmm_alloc_pool 0 s = Some (a, t) \<and> pmm_state.truncate t = pmm_state.truncate s"
  using assms(4) pool_of_no_pages [OF assms(1-3)] by (auto simp: first_free_def)

lemma emits_memory [simp]: "pmm_state.truncate (emits es s) = pmm_state.truncate s"
  by (simp add: emits_def pmm_state.defs)

text \<open>The two pages of the command list and of the receive area come from the start of the first free section.\<close>

lemma two_pages_run:
  fixes s :: "'z ahci_state_scheme"
  assumes wf: "pmm_wf is s" "tight is s" "pmm_room (Suc (Suc r)) s" "pfa_allowing_allocations s"
    and room: "pool_room segs s" and ff: "first_free is s a n" "3 \<le> n"
  shows "\<exists>s1 s2 js. pmm_alloc_page s = Some (a, s1) \<and> pmm_alloc_page s1 = Some (a + 0x1000, s2) \<and>
    pmm_wf js s2 \<and> tight js s2 \<and> pmm_room r s2 \<and> pfa_allowing_allocations s2 \<and> pool_room segs s2 \<and>
    first_free js s2 (a + 0x2000) (n - 2) \<and> disk_same s s2 \<and>
    page_state (secs (slots s2) js) = set_pages (page_state (secs (slots s) is)) (unat a) 2 PMM_SECTION_USED"
proof -
  have n: "n \<noteq> 1" "n - 1 \<noteq> 1" using ff(2) by (auto simp: word_le_nat_alt unat_sub_if' split: if_splits)
  from pmm_alloc_page_first [OF wf ff(1) n(1)] obtain s1 is1 where
    s1: "pmm_alloc_page s = Some (a, s1)" "pmm_wf is1 s1" "tight is1 s1" "pmm_frame s s1" "pmm_room (Suc r) s1"
      "page_state (secs (slots s1) is1) = page_set (page_state (secs (slots s) is)) (unat a) PMM_SECTION_USED"
      "first_free is1 s1 (a + 0x1000) (n - 1)" by auto
  have allow: "pfa_allowing_allocations s1" using s1(4) wf(4) by (simp add: pmm_frame_def)
  have e: "a + 0x1000 + 4096 = a + 0x2000" "n - 1 - 1 = n - 2" by simp_all
  from pmm_alloc_page_first [OF s1(2,3,5) allow s1(7) n(2), unfolded e] obtain s2 is2 where
    s2: "pmm_alloc_page s1 = Some (a + 0x1000, s2)" "pmm_wf is2 s2" "tight is2 s2" "pmm_frame s1 s2" "pmm_room r s2"
      "page_state (secs (slots s2) is2) = page_set (page_state (secs (slots s1) is1)) (unat (a + 0x1000)) PMM_SECTION_USED"
      "first_free is2 s2 (a + 0x2000) (n - 2)" by blast
  have more: "pmm_state.more s2 = pmm_state.more s" using s1(4) s2(4) by (simp add: pmm_frame_def)
  have "1 \<le> unat n" using ff(2) by (simp add: word_le_nat_alt)
  then have "unat (a + 0x1000) = unat a + 4096"
    using first_free_bounds(2) [OF wf(1) ff(1)] by (intro unat_page_after) linarith
  then have "page_state (secs (slots s2) is2) = set_pages (page_state (secs (slots s) is)) (unat a) 2 PMM_SECTION_USED"
    unfolding s2(6) s1(6) by (auto simp: set_pages_def page_set_def fun_eq_iff)
  moreover have "pfa_allowing_allocations s2" using s2(4) allow by (simp add: pmm_frame_def)
  ultimately show ?thesis
    using s1(1) s2(1-3,5,7) pool_room_cong [OF room more_fields [OF more]] disk_same_pmm [OF more] by blast
qed

lemma pages_nonzero:
  fixes a n :: u64
  assumes "unat a + 4096 * unat n < 2 ^ 64" "a \<noteq> 0" "3 \<le> n"
  shows "a + 0x1000 \<noteq> 0" "a + 0x2000 \<noteq> 0"
proof -
  have "3 \<le> unat n" using assms(3) by (simp add: word_le_nat_alt)
  then have "unat (a + 0x1000) = unat a + 0x1000" "unat (a + 0x2000) = unat a + 0x2000"
    using assms(1) by (simp_all add: unat_plus_nowrap)
  then show "a + 0x1000 \<noteq> 0" "a + 0x2000 \<noteq> 0" by auto
qed

lemma configure_tables:
  fixes s :: "'z ahci_state_scheme"
  assumes present: "port_present p s" and stops: "engine_stops (io_env s) m" "halts_wake s"
    and wf: "pmm_wf is s" "tight is s" "pmm_room (Suc (Suc r)) s" "pfa_allowing_allocations s"
    and room: "pool_room segs s" and ff: "first_free is s a n" "3 \<le> n"
  shows "\<exists>t js. ahci_controller_configure_port p s = Some t \<and>
    pmm_wf js t \<and> tight js t \<and> pmm_room r t \<and> pfa_allowing_allocations t \<and> first_free js t (a + 0x2000) (n - 2) \<and>
    page_state (secs (slots t) js) = set_pages (page_state (secs (slots s) is)) (unat a) 2 PMM_SECTION_USED \<and>
    (\<forall>i < 32. table_address (heap_bytes t) (a + of_nat (32 * i)) = a + 0x2000 + of_nat i * 0x100)"
proof -
  let ?d = "drive_handles s p"
  have ready: "ahci_ready s" using present by (simp add: port_present_def)
  obtain s0 where s0: "ahci_drive_command_stop ?d s = Some s0" using command_stop_returns [OF ready stops] by blast
  from command_stop_emits [OF ready s0] obtain es where es: "s0 = emits es s" by blast
  have m0: "pmm_state.truncate s0 = pmm_state.truncate s" by (simp add: es)
  note i0 = same_memory_inv [OF m0] same_memory_fields [OF m0]
  have "pool_room segs s0" by (rule pool_room_cong [OF room]) (simp_all add: es emits_def)
  then obtain s1 s2 js where
    s2: "pmm_alloc_page s0 = Some (a, s1)" "pmm_alloc_page s1 = Some (a + 0x1000, s2)" "pmm_wf js s2" "tight js s2"
      "pmm_room r s2" "pfa_allowing_allocations s2" "pool_room segs s2" "first_free js s2 (a + 0x2000) (n - 2)"
      "disk_same s0 s2"
      "page_state (secs (slots s2) js) = set_pages (page_state (secs (slots s) is)) (unat a) 2 PMM_SECTION_USED"
    using two_pages_run [of "is" s0 r segs a n] wf ff by (auto simp: i0 same_memory_first [OF m0])
  define s3 where "s3 = emits (base_log (port_hba ?d) a (a + 0x1000))
    (s2\<lparr>heap_bytes := memset (memset (heap_bytes s2) a 0 PAGING_PAGE_SIZE) (a + 0x1000) 0 PAGING_PAGE_SIZE\<rparr>)"
  have m3: "pmm_state.truncate s3 = pmm_state.truncate s2" by (simp add: s3_def) (simp add: pmm_state.defs)
  note i3 = same_memory_inv [OF m3] same_memory_fields [OF m3]
  have "pool_room segs s3" by (rule pool_room_cong [OF s2(7)]) (simp_all add: s3_def emits_def)
  with pool_at_first [of js s3 segs "a + 0x2000" "n - 2"] s2(3,6,8) obtain s4 where
    s4: "pmm_alloc_pool 0 s3 = Some (a + 0x2000, s4)" "pmm_state.truncate s4 = pmm_state.truncate s3"
    by (auto simp: i3 same_memory_first [OF m3])
  define s5 where "s5 = s4\<lparr>heap_bytes := link_headers a (a + 0x2000) (memset (heap_bytes s4) (a + 0x2000) 0 0x2000)\<rparr>"
  have same: "disk_same s3 s5" using pmm_alloc_pool_same [OF s4(1)] by (simp add: s5_def)
  have r5: "ahci_ready s5" "engine_stops (io_env s5) m" "halts_wake s5"
    using same s2(9) ready stops
    by (simp_all add: disk_same_def ahci_ready_def halts_wake_def s3_def es) (simp_all add: emits_def)
  obtain t where t: "ahci_drive_command_start ?d s5 = Some t" using command_start_returns [OF r5] by blast
  from command_start_emits [OF r5(1) t] obtain fs where fs: "t = emits fs s5" by blast
  have mt: "pmm_state.truncate t = pmm_state.truncate s2"
    using s4(2) m3 by (simp add: fs) (simp add: s5_def pmm_state.defs)
  have nz: "a \<noteq> 0" "a + 0x1000 \<noteq> 0" "a + 0x2000 \<noteq> 0"
    using first_free_bounds [OF wf(1) ff(1)] ff(2) pages_nonzero [of a n] by auto
  have "ahci_controller_configure_port p s = Some t"
    unfolding configure_run [OF present] Let_def using s0 s2(1,2) s4(1) t nz
    by (simp add: ahci_clear_page_def s3_def s5_def)
  moreover have "table_address (heap_bytes t) (a + of_nat (32 * i)) = a + 0x2000 + of_nat i * 0x100" if "i < 32" for i
    using link_headers_table [of 32 i a "a + 0x2000" "0x100"] that by (simp add: fs s5_def del: of_nat_mult)
  ultimately show ?thesis
    using s2 same_memory_inv [OF mt] same_memory_fields [OF mt] same_memory_first [OF mt] by auto
qed

text \<open>
  The command tables of a port are in memory that the kernel does not reserve. With four pages in the first free
  section, when the engine stops and an interrupt ends every \<open>hlt\<close>, the set-up returns; the 32 headers of the command list point to 32 tables of 256 bytes
  from its third page on, but only the first two pages, the command list and the receive area, are marked as used: the
  next page that the allocator gives to anyone, such as the buffer for the dump of the disk, is the page of the tables.
\<close>

theorem ahci_tables_stay_free:
  assumes "port_present p s" and "engine_stops (io_env s) m" "halts_wake s"
    and "pmm_wf is s" "tight is s" "pmm_room (Suc (Suc (Suc r))) s" "pfa_allowing_allocations s"
    and "pool_room segs s" and "first_free is s a n" "4 \<le> n"
  shows "\<exists>t js u. ahci_controller_configure_port p s = Some t \<and> pmm_wf js t \<and>
    page_state (secs (slots t) js) = set_pages (page_state (secs (slots s) is)) (unat a) 2 PMM_SECTION_USED \<and>
    (\<forall>i < 32. table_address (heap_bytes t) (a + of_nat (32 * i)) = a + 0x2000 + of_nat i * 0x100) \<and>
    pmm_alloc_page t = Some (a + 0x2000, u)"
proof -
  have n: "3 \<le> n" "n - 2 \<noteq> 1" using assms(10) by (auto simp: word_le_nat_alt unat_sub_if' split: if_splits)
  from configure_tables [OF assms(1-9) n(1)] obtain t js where t:
    "ahci_controller_configure_port p s = Some t" "pmm_wf js t" "tight js t" "pmm_room (Suc r) t"
    "pfa_allowing_allocations t" "first_free js t (a + 0x2000) (n - 2)"
    "page_state (secs (slots t) js) = set_pages (page_state (secs (slots s) is)) (unat a) 2 PMM_SECTION_USED"
    "\<forall>i < 32. table_address (heap_bytes t) (a + of_nat (32 * i)) = a + 0x2000 + of_nat i * 0x100"
    by blast
  from pmm_alloc_page_first [OF t(2-6) n(2)] t(1,2,7,8) show ?thesis by blast
qed

section \<open>A sample port\<close>

lemma small_disk_memory: "pmm_state.truncate (small_disk env) = pmm_state.truncate small_memory"
  by (simp add: small_disk_def small_shell_def pci_state.defs uart_state.defs ps2_state.defs small_ps2_def
      call_state.defs small_call_def sched_state.defs small_sched_def tss_state.defs small_tss_def
      pool_state.defs apic_state.defs small_apic_def machine_state.defs small_machine_def
      heap_state.defs small_heap_def paging_state.defs small_paging_def pmm_state.defs small_memory_def)

lemma small_disk_heap:
  "heap_initialized (small_disk env)" "heap_start (small_disk env) = 0x10000" "heap_end (small_disk env) = 0x11000"
  "last_header (small_disk env) = 0x10120" "headers (small_disk env) = small_headers" "pmm_pools (small_disk env) = 0"
  by (simp_all add: small_disk_def small_shell_def pci_state.defs uart_state.defs ps2_state.defs small_ps2_def
      call_state.defs small_call_def sched_state.defs small_sched_def tss_state.defs small_tss_def
      pool_state.defs apic_state.defs small_apic_def machine_state.defs small_machine_def heap_state.defs)

lemma small_disk_ready:
  "port_present 0 (small_disk (\<lambda>_. 0))" "engine_stops (io_env (small_disk (\<lambda>_. 0))) 0"
  "halts_wake (small_disk (\<lambda>_. 0))"
  "pmm_wf [0, 1, 2] (small_disk env)" "tight [0, 1, 2] (small_disk env)" "pmm_room (Suc (Suc (Suc 0))) (small_disk env)"
  "pfa_allowing_allocations (small_disk env)" "pool_room [0x10000, 0x10120] (small_disk env)"
  "first_free [0, 1, 2] (small_disk env) 0x100000 8"
proof -
  note f = same_memory_fields [OF small_disk_memory]
  show "port_present 0 (small_disk (\<lambda>_. 0))" by (simp add: port_present_def)
  show "engine_stops (io_env (small_disk (\<lambda>_. 0))) 0" "halts_wake (small_disk (\<lambda>_. 0))"
    by (simp_all add: engine_stops_def halts_wake_def)
  show "pmm_wf [0, 1, 2] (small_disk env)" using small_memory_wf by (simp add: same_memory_inv [OF small_disk_memory])
  show "tight [0, 1, 2] (small_disk env)" "pmm_room (Suc (Suc (Suc 0))) (small_disk env)"
    "pfa_allowing_allocations (small_disk env)" "first_free [0, 1, 2] (small_disk env) 0x100000 8"
    by (simp_all add: f tight_def small_memory_def small_slots_def pmm_room_def first_free_def)
  show "pool_room [0x10000, 0x10120] (small_disk env)"
    by (simp add: pool_room_def small_disk_heap heap_wf_def heap_tiled_def small_headers_def seg_ok_def heap_round_size_def)
qed

lemma ahci_tables_stay_free_witness:
  "\<exists>t u. ahci_controller_configure_port 0 (small_disk (\<lambda>_. 0)) = Some t \<and>
     table_address (heap_bytes t) 0x100000 = 0x102000 \<and> pmm_alloc_page t = Some (0x102000, u)"
proof -
  from ahci_tables_stay_free [OF small_disk_ready] obtain t u where
    "ahci_controller_configure_port 0 (small_disk (\<lambda>_. 0)) = Some t"
    "\<forall>i < 32. table_address (heap_bytes t) (0x100000 + of_nat (32 * i)) = 0x100000 + 0x2000 + of_nat i * 0x100"
    "pmm_alloc_page t = Some (0x100000 + 0x2000, u)" by auto
  moreover from this(2) have "table_address (heap_bytes t) 0x100000 = 0x102000" by (auto dest: spec [of _ 0])
  ultimately show ?thesis by auto
qed

text \<open>C28:
  Whatever the controller answers, when the set-up of a port returns, the port was told the addresses of its command list
  and of its receive area between a complete stop and a complete start: before, the start and the receive bit were
  cleared, in this order, and the last two reads of the status showed the receiving and the running bit off; after, the
  running bit was seen off again, and the receive bit was set before the start bit. Nothing else is written, and all
  addresses are in registers of this port. The set-up returns only where interrupts end the \<open>hlt\<close> of its loops.
\<close>

theorem ahci_port_told_while_stopped:
  assumes "port_present p s" and "ahci_controller_configure_port p s = Some t"
  shows "let port = port_hba (drive_handles s p) in
    \<exists>stop start cmd fis. stop_log (port + port_command_status) stop \<and> start_log (port + port_command_status) start \<and>
      cmd \<noteq> 0 \<and> fis \<noteq> 0 \<and> io_log t = io_log s @ stop @ base_log port cmd fis @ start"
  using configure_log [OF assms] .

lemma ahci_port_told_while_stopped_witness:
  "\<exists>t stop start cmd fis. ahci_controller_configure_port 0 (small_disk (\<lambda>_. 0)) = Some t \<and>
     stop_log 0xFEBF0118 stop \<and> start_log 0xFEBF0118 start \<and> io_log t = stop @ base_log 0xFEBF0100 cmd fis @ start"
proof -
  obtain t where t: "ahci_controller_configure_port 0 (small_disk (\<lambda>_. 0)) = Some t"
    using configure_tables [OF small_disk_ready] by auto
  from ahci_port_told_while_stopped [OF small_disk_ready(1) this] show ?thesis using t by (auto simp: Let_def)
qed

end
