(* ===== verification/Spec2Isabelle.thy ===== *)
theory Spec2Isabelle
  imports Cstring Itoa Pmm_Alloc Pmm_Lock Pmm_Free Pmm_Recombine Paging_Props Heap_Props
    Descriptors Machine Keycodes Acpi Apic_Props Ps2_Props Tui_Props Shell_Reports Timers_Props Boot_Memory
    User_Heap_Props Isr_Props Elf_Props Heap_Grow Ahci_Tables
begin

text \<open>
  Skylight: the kernel under \<open>src/kernel/src\<close> and its window manager Prism under
  \<open>src/apps/frames/prism/src\<close>. Paths below are relative to these two.

  \<^bold>\<open>The program.\<close> The boot loader starts the kernel with a memory map, a framebuffer and modules
  (\<open>boot/limine\<close>). The kernel takes over physical memory (\<open>mem/pmm\<close>), builds its page tables
  (\<open>mem/paging\<close>) and a heap on top of both (\<open>mem/heap\<close>), sets up the descriptor tables (\<open>cpu\<close>), finds the
  interrupt controllers in the firmware tables and programs them (\<open>iodev/acpi\<close>, \<open>iodev/apic\<close>, \<open>iodev/8259\<close>), and
  registers handlers for its devices: keyboard, timers, serial ports with a debug shell, PCI functions and
  disks. It loads the window manager as a task (\<open>proc/loader\<close>, \<open>proc/task\<close>), which reaches the kernel through
  system calls (\<open>proc/calls\<close>): it maps the framebuffer, shares a page of key codes with the keyboard
  driver, draws text and follows the keys in a menu.

  \<^bold>\<open>Conventions.\<close>
  \<^item> Machine integers are words of the width of their C type; their operations wrap as in the code.
  \<^item> A function that can fail to return is an \<open>option\<close>: \<open>None\<close> is the use of NULL (page 0 is never mapped, so the
    exception handler stops the machine), undefined behaviour of C, or a loop without end. Loops whose end
    is not evident are \<open>partial_function (option)\<close>; no definition has fuel. That an operation does return is
    a conclusion (\<open>\<exists>t. f s = Some t\<close>), except that the theorems on the start assume that \<open>limine_reinterpret\<close> returns and that
    an area for the section slots is found; the one on pools, that the kernel heap hands out the record of the pool
    without taking a page; the one on segments, that \<open>pmm_alloc_pool\<close> returned, an address or NULL; the one on the report
    of an exception, that the masking of the shell's line returns; the one on the bounds of the keyboard's buffer, that its
    interrupts return (the one on the scan codes shows it for each key); and the one on the accesses to a disk port, that the
    set-up of the port returns (two others show when it does).
  \<^item> The state of the machine is one record that grows by component, in the order \<open>pmm_state\<close>, \<open>paging_state\<close>,
    \<open>heap_state\<close>, \<open>machine_state\<close>, \<open>apic_state\<close>, \<open>pool_state\<close>, \<open>tss_state\<close>, \<open>sched_state\<close>, \<open>call_state\<close> and then the
    devices and the window manager. The operations of a component are polymorphic in the extension, so each
    theory calls those below it on the one state. \<open>Frames\<close> shows that no memory operation touches the
    extension.
  \<^item> Data that the code only reaches by typed pointers are stores from addresses to records (heap
    headers, pools, tasks, list nodes, page table entries); all other memory is the byte store \<open>heap_bytes\<close>. Aliasing
    within a store is as in the code.
  \<^item> Devices are not part of the source: each access to a port or a register is an event of \<open>io_log\<close>, and
    \<open>io_env n\<close>, an arbitrary function, is what the \<open>n\<close>-th access reads. A theorem without a condition on \<open>io_env\<close> holds
    for every behaviour of the devices.
  \<^item> Other things outside the C source are parameters: addresses of assembly stubs and of linker symbols,
    the result of \<open>cpuid\<close>, the generated table of symbols, the functions behind pointers that a program registers, and
    the interrupts that arrive while the processor waits (for the disk driver a part of the state, \<open>halt_wakes\<close>).

  \<^bold>\<open>Theories and sources.\<close>
  \<^item> \<open>Glass_Prelude\<close>: words, bytes, \<open>memset\<close>, \<open>memcpy\<close>, the option monad; shared lemmas.
  \<^item> \<open>Cstring\<close>, \<open>Itoa\<close>, \<open>Printf\<close> with \<open>Printf_Props\<close>: \<open>extra/std\<close>, \<open>extra/itoa.c\<close>.
  \<^item> \<open>Pmm\<close>, \<open>Pfa\<close>, \<open>Pmm_Start\<close>: \<open>mem/pmm/pmm.c\<close>, \<open>pfa.c\<close> and the start from the memory map. \<open>Pmm_List\<close> and \<open>Pmm_Inv\<close>
    define well-formed section lists and the abstract memory map \<open>page_state\<close>, from each address to the
    state of its page; \<open>Pmm_Alloc\<close>, \<open>Pmm_Lock\<close>, \<open>Pmm_Free\<close>, \<open>Pmm_Recombine\<close> refine the operations to updates of that map;
    \<open>Pmm_Boot\<close> shows that \<open>pmm_start\<close> establishes the invariant.
  \<^item> \<open>Pools\<close>, \<open>Pool_Props\<close>: runs of pages (\<open>mem/pmm/pfa.c\<close>).
  \<^item> \<open>Paging\<close>, \<open>Paging_Props\<close>, \<open>Paging_Tree\<close>: \<open>mem/paging\<close>. \<open>Heap\<close>, \<open>Heap_Inv\<close>, \<open>Heap_Props\<close>, \<open>Heap_Grow\<close>: \<open>mem/heap/allocator.c\<close>.
    \<open>User_Heap\<close>, \<open>User_Heap_Props\<close>: the allocator of the programs, \<open>lib/std/malloc.c\<close>. Both are interpretations
    of the interface in \<open>Allocators\<close>.
  \<^item> \<open>Descriptors\<close>, \<open>Tss\<close>: \<open>cpu/gdt\<close>, \<open>cpu/interrupts/idt.c\<close>, \<open>cpu/tss\<close>. \<open>Isr\<close>, \<open>Isr_Props\<close>: \<open>cpu/interrupts/isr.c\<close>.
  \<^item> \<open>Machine\<close>: \<open>iodev/io.h\<close> and memory-mapped registers, with the interface \<open>register_file\<close> of a device that keeps
    what is written to it. \<open>Acpi\<close>, \<open>Apic\<close>, \<open>Apic_Props\<close>: \<open>iodev/acpi\<close>, \<open>iodev/apic\<close>, \<open>iodev/8259\<close>.
  \<^item> \<open>Timers\<close>, \<open>Timers_Props\<close>: \<open>iodev/timer\<close>. \<open>Keycodes\<close>, \<open>Ps2\<close>, \<open>Ps2_Props\<close>: \<open>iodev/hid\<close>. \<open>Serial\<close>, \<open>Shell\<close>, \<open>Dumps\<close> with
    \<open>Shell_Props\<close>, \<open>Shell_Reports\<close>: \<open>iodev/uart\<close> and the dumps at the ends of the files that they are about. \<open>Pci\<close>, \<open>Ahci\<close>
    with \<open>Ahci_Props\<close> (reads), \<open>Ahci_Ports\<close>, \<open>Ahci_Tables\<close> (the set-up of ports): \<open>iodev/pci\<close>, \<open>iodev/disk\<close>.
  \<^item> \<open>Elf\<close>, \<open>Elf_Props\<close>: \<open>proc/loader\<close>. \<open>Task\<close>, \<open>Task_Props\<close>: \<open>proc/task\<close>. \<open>Calls\<close>, \<open>Calls_Props\<close>: \<open>proc/calls/handlers\<close>.
  \<^item> \<open>Limine\<close>, \<open>Limine_Props\<close>: \<open>boot/limine\<close>, \<open>boot/protocol.h\<close>. \<open>Boot_Memory\<close>: from the loader's map to the section list.
  \<^item> \<open>Kbd\<close>, \<open>Kbd_Props\<close>, \<open>Text_Render\<close>, \<open>Text_Props\<close>, \<open>Menus\<close>, \<open>Tui_Props\<close>: the window manager's \<open>kbd\<close>, \<open>gfx/text\<close>, \<open>ux\<close> and
    \<open>main.c\<close>.
  \<^item> \<open>Buffers\<close>: the interface of a buffer that drops what does not fit, which the keyboard page and the
    command line are. \<open>Small_States\<close>: concrete states for the witnesses.

  \<^bold>\<open>What is shown.\<close>
  \<^item> Physical memory: taking a page takes the lowest free one and nothing else; locking marks exactly the
    pages of the run; a pool is the first run that is large enough; releasing a single page and the inner
    page of a used run; recombining ends and leaves no two equal neighbours. All keep the list
    well formed, which includes that the sections cover memory without gap or overlap.
  \<^item> Page tables: they are a tree, whose abstract value is the map from pages to frames that the processor's
    walk computes; mapping a page updates that map at this page only, with new tables where they are missing, and
    unmapping removes it.
  \<^item> Heaps: a block of the kernel or of a program is aligned, long enough and apart from all others with
    their headers; the kernel's \<open>malloc\<close> returns when the heap has to grow too, its \<open>free\<close> undoes \<open>malloc\<close>; a program's
    heap never takes a block back, because its \<open>free\<close> has no effect.
  \<^item> Boot: the kernel's map calls nothing free that the loader did not call usable. On maps in order whose first entry alone
    lies below one MiB (\<open>boot_map\<close>, \<open>loader_pages\<close>), \<open>pmm_start\<close> establishes the invariant on which the theorems about
    physical memory rest, and the free memory is exactly what the loader calls usable above one MiB, without what the
    kernel has put there. On the maps of a BIOS, with more entries below, it does not: \<open>low_entry_gap\<close>.
  \<^item> Interrupts: each vector is given out once; the old controllers are masked; a redirected line carries
    its vector; the report of an exception is exactly its name, the trace, the registers
    and the bits of a page fault, and its stack trace ends unless the address of the exception returns in the trace.
  \<^item> Keyboard: the bytes of each key of the scan code table give exactly that key and the buffer stays
    within its bounds for every sequence of bytes; the shared page is a queue that stays in its page;
    the window manager hands each key to each listener, and its tables are those of the US layout.
  \<^item> Window manager: a character is drawn in its cell and nowhere else, and the selection of the menu follows
    the keys typed since the start, whatever the rest of the machine does between two rounds.
  \<^item> Shell: a typed line runs the command of that name and no other, and every command but the two
    that use the disk returns.
  \<^item> Disks: whatever the controller answers, the wait for an idle drive is bounded and a command is issued at most once; a port
    is given its memory only while its engine is stopped; what a read asks the drive for, and for which block numbers that
    is what was meant. The driver is set up in an interrupt handler, where no interrupt ends the \<open>hlt\<close> of its wait: with a
    drive at any port the set-up never returns. Where interrupts end it, it returns when the engine stops
    (\<open>ahci_tables_stay_free\<close>), and the command tables of a port lie in memory that stays free.
  \<^item> Loader and tasks: the image of a loaded segment, the fault when there is no pool for it, the segments that hang
    the loader, the scheduler's choice and the state changes of tasks.
  \<^item> Texts: \<open>printf\<close> with fitting arguments prints, numbers read back, \<open>strcmp\<close> compares prefixes.

  Several of these are about what the code does and not about what it should do (the scheduler that stays with
  one task, the endless loops of the loader and of the disk driver, \<open>strcmp\<close>); the text above each theorem says so.

  \<^bold>\<open>Bounds.\<close> The conditions on sizes in the theorems keep addresses below \<open>2 ^ 63\<close> (the heaps, where a signed comparison
  is made) or \<open>2 ^ 64\<close>; \<open>pmm_room\<close> asks for free slots in the array of sections, one for each page taken and two for each
  page locked, because each can split a section twice. \<open>tables_ok\<close> with \<open>room_for\<close> asks for three free frames for
  the tables of a page, and \<open>heap_has_frames\<close> for the frames of the pages by which the heap grows and of their tables.

  \<^bold>\<open>Not modelled.\<close> The assembly: entry points of interrupts and system calls, the switch of a task's registers, the
  loading of descriptor and control registers, the order of start-up. What devices write to memory by
  themselves (the data of a disk read), and the times at which interrupts arrive. The conversions of floating point
  numbers and \<open>%n\<close> of \<open>printf\<close>, for which the library has no machine arithmetic and which no caller uses. The window
  manager's copy of \<open>printf\<close>, whose text is that of the kernel without its output, and which nothing calls. \<open>limine.h\<close>
  beyond the structures that the kernel reads. The build files and the script that generates the table of symbols.
\<close>

end
